(* ===== verification/Prelude.thy ===== *)
theory Prelude
  imports Main "HOL-Library.Sublist" "HOL-Library.AList"
begin

text \<open>
  Shared vocabulary of the development: Rust strings as lists of UTF-8 bytes with the
  standard-library operations the sources call on them (split, join, trim, ASCII case,
  whitespace test, decimal formatting), the loop that maps a fallible function over a list,
  machine-integer bounds, and the lemma collections the component theories use.
\<close>

named_theorems string_facts
named_theorems result_facts

section \<open>Strings\<close>

text \<open>A Rust string is the list of its UTF-8 bytes: \<open>len\<close> is the number of bytes.\<close>

type_synonym str = string

text \<open>\<open>str::split(c)\<close> for an ASCII character: always at least one piece.\<close>

fun split_on :: "char \<Rightarrow> str \<Rightarrow> str list" where
  "split_on c [] = [[]]"
| "split_on c (x # xs) =
     (if x = c then [] # split_on c xs
      else (case split_on c xs of [] \<Rightarrow> [[x]] | p # ps \<Rightarrow> (x # p) # ps))"

fun join :: "str \<Rightarrow> str list \<Rightarrow> str" where
  "join sep [] = []"
| "join sep [p] = p"
| "join sep (p # q # ps) = p @ sep @ join sep (q # ps)"

text \<open>
  The UTF-8 encodings of the code points with the Unicode property \<open>White_Space\<close>, which is
  what \<open>char::is_whitespace\<close> tests. UTF-8 is self-synchronising, so a valid string contains
  such a character exactly when its bytes contain one of these encodings.
\<close>

definition ws_encodings :: "str list" where
  "ws_encodings =
     [[CHR 0x09], [CHR 0x0A], [CHR 0x0B], [CHR 0x0C], [CHR 0x0D], [CHR 0x20],
      [CHR 0xC2, CHR 0x85], [CHR 0xC2, CHR 0xA0], [CHR 0xE1, CHR 0x9A, CHR 0x80],
      [CHR 0xE2, CHR 0x80, CHR 0x80], [CHR 0xE2, CHR 0x80, CHR 0x81],
      [CHR 0xE2, CHR 0x80, CHR 0x82], [CHR 0xE2, CHR 0x80, CHR 0x83],
      [CHR 0xE2, CHR 0x80, CHR 0x84], [CHR 0xE2, CHR 0x80, CHR 0x85],
      [CHR 0xE2, CHR 0x80, CHR 0x86], [CHR 0xE2, CHR 0x80, CHR 0x87],
      [CHR 0xE2, CHR 0x80, CHR 0x88], [CHR 0xE2, CHR 0x80, CHR 0x89],
      [CHR 0xE2, CHR 0x80, CHR 0x8A], [CHR 0xE2, CHR 0x80, CHR 0xA8],
      [CHR 0xE2, CHR 0x80, CHR 0xA9], [CHR 0xE2, CHR 0x80, CHR 0xAF],
      [CHR 0xE2, CHR 0x81, CHR 0x9F], [CHR 0xE3, CHR 0x80, CHR 0x80]]"

definition has_whitespace :: "str \<Rightarrow> bool" where
  "has_whitespace s = list_ex (\<lambda>w. sublist w s) ws_encodings"

definition leading_ws :: "str list \<Rightarrow> str \<Rightarrow> nat" where
  "leading_ws encs s = (case find (\<lambda>w. prefix w s) encs of None \<Rightarrow> 0 | Some w \<Rightarrow> length w)"

text \<open>\<open>trim_start\<close> drops leading whitespace characters; the fuel is the number of bytes.\<close>

fun trim_fuel :: "str list \<Rightarrow> nat \<Rightarrow> str \<Rightarrow> str" where
  "trim_fuel encs 0 s = s"
| "trim_fuel encs (Suc n) s =
     (if leading_ws encs s = 0 then s else trim_fuel encs n (drop (leading_ws encs s) s))"

definition trim_start :: "str \<Rightarrow> str" where
  "trim_start s = trim_fuel ws_encodings (length s) s"

definition trim_end :: "str \<Rightarrow> str" where
  "trim_end s = rev (trim_fuel (map rev ws_encodings) (length s) (rev s))"

definition trim :: "str \<Rightarrow> str" where
  "trim s = trim_end (trim_start s)"

definition ascii_lower :: "char \<Rightarrow> char" where
  "ascii_lower c = (if 65 \<le> (of_char c :: nat) \<and> of_char c \<le> (90 :: nat)
                    then char_of ((of_char c :: nat) + 32) else c)"

definition to_ascii_lowercase :: "str \<Rightarrow> str" where
  "to_ascii_lowercase s = map ascii_lower s"

text \<open>Decimal formatting of unsigned integers (\<open>{}\<close> of Rust's formatter).\<close>

fun show_nat :: "nat \<Rightarrow> str" where
  "show_nat n = (if n < 10 then [char_of (48 + n)]
                 else show_nat (n div 10) @ [char_of (48 + n mod 10)])"

declare show_nat.simps [simp del]

definition show_int :: "int \<Rightarrow> str" where
  "show_int i = (if i < 0 then CHR ''-'' # show_nat (nat (- i)) else show_nat (nat i))"

section \<open>Machine integers\<close>

abbreviation u64_max :: nat where "u64_max \<equiv> 18446744073709551615"

text \<open>\<open>usize\<close> is 64 bits wide, as on the targets the crates build for.\<close>

abbreviation usize_max :: nat where "usize_max \<equiv> 18446744073709551615"

definition saturating_add :: "nat \<Rightarrow> nat \<Rightarrow> nat" where
  "saturating_add a b = min u64_max (a + b)"

definition saturating_mul :: "nat \<Rightarrow> nat \<Rightarrow> nat" where
  "saturating_mul a b = min usize_max (a * b)"

definition wrapping_add :: "nat \<Rightarrow> nat \<Rightarrow> nat" where
  "wrapping_add a b = (a + b) mod (u64_max + 1)"

section \<open>Fallible loops\<close>

text \<open>\<open>Result\<close> is a sum: \<open>Inl\<close> carries the error. The loop stops at the first error.\<close>

fun try_map :: "('a \<Rightarrow> 'e + 'b) \<Rightarrow> 'a list \<Rightarrow> 'e + 'b list" where
  "try_map f [] = Inr []"
| "try_map f (x # xs) =
     (case f x of Inl e \<Rightarrow> Inl e
      | Inr y \<Rightarrow> (case try_map f xs of Inl e \<Rightarrow> Inl e | Inr ys \<Rightarrow> Inr (y # ys)))"

fun try_fold :: "('a \<Rightarrow> 's \<Rightarrow> 'e + 's) \<Rightarrow> 'a list \<Rightarrow> 's \<Rightarrow> 'e + 's" where
  "try_fold f [] s = Inr s"
| "try_fold f (x # xs) s = (case f x s of Inl e \<Rightarrow> Inl e | Inr s' \<Rightarrow> try_fold f xs s')"

definition bind_result :: "'e + 'a \<Rightarrow> ('a \<Rightarrow> 'e + 'b) \<Rightarrow> 'e + 'b" where
  "bind_result r f = (case r of Inl e \<Rightarrow> Inl e | Inr x \<Rightarrow> f x)"

definition is_ok :: "'e + 'a \<Rightarrow> bool" where
  "is_ok r = (case r of Inl _ \<Rightarrow> False | Inr _ \<Rightarrow> True)"

definition map_err :: "('e \<Rightarrow> 'f) \<Rightarrow> 'e + 'a \<Rightarrow> 'f + 'a" where
  "map_err f r = (case r of Inl e \<Rightarrow> Inl (f e) | Inr x \<Rightarrow> Inr x)"

lemma map_err_simps [simp]: "map_err f (Inl e) = Inl (f e)" "map_err f (Inr x) = Inr x"
  by (simp_all add: map_err_def)

lemma map_err_Inr [simp]: "map_err f r = Inr x \<longleftrightarrow> r = Inr x"
  by (cases r) auto

lemma is_ok_simps [simp]: "is_ok (Inr x)" "\<not> is_ok (Inl e)"
  by (simp_all add: is_ok_def)

lemma bind_result_simps [simp]: "bind_result (Inl e) f = Inl e" "bind_result (Inr x) f = f x"
  by (simp_all add: bind_result_def)

lemma bind_result_Inr [result_facts]:
  "bind_result r f = Inr y \<longleftrightarrow> (\<exists>x. r = Inr x \<and> f x = Inr y)"
  by (cases r) auto

lemma try_map_Inr: "try_map f xs = Inr ys \<Longrightarrow> length ys = length xs \<and> (\<forall>i<length xs. f (xs ! i) = Inr (ys ! i))"
proof (induction xs arbitrary: ys)
  case Nil
  then show ?case by simp
next
  case (Cons x xs)
  then obtain y zs where "f x = Inr y" "try_map f xs = Inr zs" "ys = y # zs"
    by (auto split: sum.splits)
  with Cons.IH [of zs] show ?case by (auto simp: nth_Cons split: nat.split)
qed

lemma try_fold_append:
  "try_fold f (xs @ ys) s = bind_result (try_fold f xs s) (try_fold f ys)"
  by (induction xs arbitrary: s) (auto split: sum.splits)

lemma try_fold_inv:
  assumes "try_fold f xs s = Inr t" and "P s"
    and "\<And>x s s'. x \<in> set xs \<Longrightarrow> P s \<Longrightarrow> f x s = Inr s' \<Longrightarrow> P s'"
  shows "P t"
  using assms
proof (induction xs arbitrary: s)
  case Nil
  then show ?case by simp
next
  case (Cons x xs)
  from Cons.prems(1) obtain s' where s': "f x s = Inr s'" "try_fold f xs s' = Inr t"
    by (auto split: sum.splits)
  from Cons.prems(3) [OF _ Cons.prems(2) s'(1)] have p: "P s'" by simp
  show ?case
    by (rule Cons.IH [OF s'(2) p]) (use Cons.prems(3) in auto)
qed

section \<open>Facts about strings\<close>

lemma split_on_not_Nil [simp]: "split_on c s \<noteq> []"
  by (induction s) (auto split: list.splits)

lemma split_on_no_sep [string_facts]: "t \<in> set (split_on c s) \<Longrightarrow> c \<notin> set t"
proof (induction s arbitrary: t)
  case Nil
  then show ?case by simp
next
  case (Cons x xs)
  then show ?case by (cases "split_on c xs") (auto split: if_splits)
qed

lemma join_Cons: "ps \<noteq> [] \<Longrightarrow> join sep (p # ps) = p @ sep @ join sep ps"
  by (cases ps) auto

lemma join_split_on [string_facts]: "join [c] (split_on c s) = s"
proof (induction s)
  case Nil
  then show ?case by simp
next
  case (Cons x xs)
  obtain p ps where ps: "split_on c xs = p # ps" by (cases "split_on c xs") auto
  with Cons.IH have j: "join [c] (p # ps) = xs" by simp
  from ps j show ?case by (cases ps) auto
qed

lemma split_on_append_sep: "c \<notin> set p \<Longrightarrow> split_on c (p @ c # s) = p # split_on c s"
  by (induction p) auto

lemma split_on_no_sep_id: "c \<notin> set p \<Longrightarrow> split_on c p = [p]"
  by (induction p) auto

lemma split_on_join [string_facts]:
  "ps \<noteq> [] \<Longrightarrow> \<forall>p\<in>set ps. c \<notin> set p \<Longrightarrow> split_on c (join [c] ps) = ps"
proof (induction "[c]" ps rule: join.induct)
  case (3 p q ps)
  then show ?case by (simp add: split_on_append_sep)
qed (simp_all add: split_on_no_sep_id)

lemma split_on_inj: "split_on c s = split_on c t \<longleftrightarrow> s = t"
  by (metis join_split_on)

lemma sublist_append_no_sep:
  assumes "c \<notin> set w"
  shows "sublist w (xs @ c # ys) \<longleftrightarrow> sublist w xs \<or> sublist w ys"
proof
  assume "sublist w (xs @ c # ys)"
  then consider "sublist w xs" | "sublist w (c # ys)"
    | u v where "w = u @ v" "suffix u xs" "prefix v (c # ys)" "v \<noteq> []"
    unfolding sublist_append by fastforce
  then show "sublist w xs \<or> sublist w ys"
  proof cases
    case 2
    with assms show ?thesis by (cases w) (auto simp: sublist_Cons_right)
  next
    case 3
    with assms show ?thesis by (cases v) auto
  qed auto
next
  assume "sublist w xs \<or> sublist w ys"
  then show "sublist w (xs @ c # ys)"
    by (auto simp: sublist_append sublist_Cons_right)
qed

lemma has_whitespace_append_dot [string_facts]:
  "has_whitespace (xs @ CHR ''.'' # ys) \<longleftrightarrow> has_whitespace xs \<or> has_whitespace ys"
  unfolding has_whitespace_def ws_encodings_def
  by (simp add: sublist_append_no_sep) blast

lemma has_whitespace_join_dot [string_facts]:
  "ps \<noteq> [] \<Longrightarrow> has_whitespace (join [CHR ''.''] ps) \<longleftrightarrow> (\<exists>p\<in>set ps. has_whitespace p)"
  by (induction "[CHR ''.'']" ps rule: join.induct) (simp_all add: has_whitespace_append_dot)

lemma has_whitespace_split_dot:
  "has_whitespace s \<longleftrightarrow> (\<exists>t\<in>set (split_on CHR ''.'' s). has_whitespace t)"
  using has_whitespace_join_dot [of "split_on CHR ''.'' s"] by (simp add: join_split_on)

end
