(* ===== verification/Exceptions.thy ===== *)
theory Exceptions
  imports Prelude "HOL-Library.Char_ord" "HOL-Library.List_Lexorder" "HOL-Library.Multiset"
begin

text \<open>
  Framework errors, \<open>crates/caelix-core/src/exception.rs\<close>: the \<open>HttpException\<close> record and its
  builders, one constructor function per exception type, the conversion from arbitrary errors
  and the flattening of validation errors into a map from dotted field paths to messages.
  \<open>StatusCode\<close> is its number. An \<open>anyhow::Error\<close> is either a \<open>validator::ValidationErrors\<close>,
  which the conversion looks for, or some other error with its text.
\<close>

section \<open>Data\<close>

text \<open>\<open>serde_json::Value\<close>; a number is kept as its decimal text.\<close>

datatype json =
    JNull
  | JBool bool
  | JNumber str
  | JString str
  | JArray "json list"
  | JObject "(str \<times> json) list"

text \<open>The error tree of the \<open>validator\<close> crate; a field map lists each field once.\<close>

record verror =
  ve_code :: str
  ve_message :: "str option"
  ve_params :: "str \<Rightarrow> json option"

datatype verrors = VErrors "(str \<times> vkind) list"
  and vkind = VField "verror list" | VStruct verrors | VList "(nat \<times> verrors) list"

datatype any_error = ValidationFailure verrors | OtherError str

record http_exception =
  ex_status :: nat
  ex_message :: str
  ex_error :: str
  ex_errors :: "(str \<Rightarrow> str list option) option"
  ex_source :: "any_error option"

type_synonym 'a result = "http_exception + 'a"

definition is_client_error :: "nat \<Rightarrow> bool" where
  "is_client_error code \<longleftrightarrow> 400 \<le> code \<and> code < 500"

definition is_server_error :: "nat \<Rightarrow> bool" where
  "is_server_error code \<longleftrightarrow> 500 \<le> code \<and> code < 600"

section \<open>Constructors\<close>

definition HttpException_new :: "nat \<Rightarrow> str \<Rightarrow> str \<Rightarrow> http_exception" where
  "HttpException_new status err msg =
     \<lparr>ex_status = status, ex_message = msg, ex_error = err, ex_errors = None, ex_source = None\<rparr>"

definition with_source :: "http_exception \<Rightarrow> any_error \<Rightarrow> http_exception" where
  "with_source e err = e\<lparr>ex_source := Some err\<rparr>"

definition with_errors :: "http_exception \<Rightarrow> (str \<Rightarrow> str list option) \<Rightarrow> http_exception" where
  "with_errors e errs = e\<lparr>ex_errors := Some errs\<rparr>"

definition startup_error :: "str \<Rightarrow> http_exception" where
  "startup_error msg = HttpException_new 500 ''Internal Server Error'' msg"

definition BadRequestException :: "str \<Rightarrow> http_exception" where
  "BadRequestException msg = HttpException_new 400 ''Bad Request'' msg"

definition UnauthorizedException :: "str \<Rightarrow> http_exception" where
  "UnauthorizedException msg = HttpException_new 401 ''Unauthorized'' msg"

definition PaymentRequiredException :: "str \<Rightarrow> http_exception" where
  "PaymentRequiredException msg = HttpException_new 402 ''Payment Required'' msg"

definition ForbiddenException :: "str \<Rightarrow> http_exception" where
  "ForbiddenException msg = HttpException_new 403 ''Forbidden'' msg"

definition NotFoundException :: "str \<Rightarrow> http_exception" where
  "NotFoundException msg = HttpException_new 404 ''Not Found'' msg"

definition MethodNotAllowedException :: "str \<Rightarrow> http_exception" where
  "MethodNotAllowedException msg = HttpException_new 405 ''Method Not Allowed'' msg"

definition NotAcceptableException :: "str \<Rightarrow> http_exception" where
  "NotAcceptableException msg = HttpException_new 406 ''Not Acceptable'' msg"

definition ProxyAuthenticationRequiredException :: "str \<Rightarrow> http_exception" where
  "ProxyAuthenticationRequiredException msg = HttpException_new 407 ''Proxy Authentication Required'' msg"

definition RequestTimeoutException :: "str \<Rightarrow> http_exception" where
  "RequestTimeoutException msg = HttpException_new 408 ''Request Timeout'' msg"

definition ConflictException :: "str \<Rightarrow> http_exception" where
  "ConflictException msg = HttpException_new 409 ''Conflict'' msg"

definition GoneException :: "str \<Rightarrow> http_exception" where
  "GoneException msg = HttpException_new 410 ''Gone'' msg"

definition LengthRequiredException :: "str \<Rightarrow> http_exception" where
  "LengthRequiredException msg = HttpException_new 411 ''Length Required'' msg"

definition PreconditionFailedException :: "str \<Rightarrow> http_exception" where
  "PreconditionFailedException msg = HttpException_new 412 ''Precondition Failed'' msg"

definition PayloadTooLargeException :: "str \<Rightarrow> http_exception" where
  "PayloadTooLargeException msg = HttpException_new 413 ''Payload Too Large'' msg"

definition UriTooLongException :: "str \<Rightarrow> http_exception" where
  "UriTooLongException msg = HttpException_new 414 ''URI Too Long'' msg"

definition UnsupportedMediaTypeException :: "str \<Rightarrow> http_exception" where
  "UnsupportedMediaTypeException msg = HttpException_new 415 ''Unsupported Media Type'' msg"

definition RangeNotSatisfiableException :: "str \<Rightarrow> http_exception" where
  "RangeNotSatisfiableException msg = HttpException_new 416 ''Range Not Satisfiable'' msg"

definition ExpectationFailedException :: "str \<Rightarrow> http_exception" where
  "ExpectationFailedException msg = HttpException_new 417 ''Expectation Failed'' msg"

definition ImATeapotException :: "str \<Rightarrow> http_exception" where
  "ImATeapotException msg = HttpException_new 418 (''I'' @ [CHR 0x27] @ ''m a teapot'') msg"

definition MisdirectedRequestException :: "str \<Rightarrow> http_exception" where
  "MisdirectedRequestException msg = HttpException_new 421 ''Misdirected Request'' msg"

definition UnprocessableEntityException :: "str \<Rightarrow> http_exception" where
  "UnprocessableEntityException msg = HttpException_new 422 ''Unprocessable Entity'' msg"

definition LockedException :: "str \<Rightarrow> http_exception" where
  "LockedException msg = HttpException_new 423 ''Locked'' msg"

definition FailedDependencyException :: "str \<Rightarrow> http_exception" where
  "FailedDependencyException msg = HttpException_new 424 ''Failed Dependency'' msg"

definition TooEarlyException :: "str \<Rightarrow> http_exception" where
  "TooEarlyException msg = HttpException_new 425 ''Too Early'' msg"

definition UpgradeRequiredException :: "str \<Rightarrow> http_exception" where
  "UpgradeRequiredException msg = HttpException_new 426 ''Upgrade Required'' msg"

definition PreconditionRequiredException :: "str \<Rightarrow> http_exception" where
  "PreconditionRequiredException msg = HttpException_new 428 ''Precondition Required'' msg"

definition TooManyRequestsException :: "str \<Rightarrow> http_exception" where
  "TooManyRequestsException msg = HttpException_new 429 ''Too Many Requests'' msg"

definition RequestHeaderFieldsTooLargeException :: "str \<Rightarrow> http_exception" where
  "RequestHeaderFieldsTooLargeException msg = HttpException_new 431 ''Request Header Fields Too Large'' msg"

definition UnavailableForLegalReasonsException :: "str \<Rightarrow> http_exception" where
  "UnavailableForLegalReasonsException msg = HttpException_new 451 ''Unavailable For Legal Reasons'' msg"

definition NotImplementedException :: "str \<Rightarrow> http_exception" where
  "NotImplementedException msg = HttpException_new 501 ''Not Implemented'' msg"

definition BadGatewayException :: "str \<Rightarrow> http_exception" where
  "BadGatewayException msg = HttpException_new 502 ''Bad Gateway'' msg"

definition ServiceUnavailableException :: "str \<Rightarrow> http_exception" where
  "ServiceUnavailableException msg = HttpException_new 503 ''Service Unavailable'' msg"

definition GatewayTimeoutException :: "str \<Rightarrow> http_exception" where
  "GatewayTimeoutException msg = HttpException_new 504 ''Gateway Timeout'' msg"

definition HttpVersionNotSupportedException :: "str \<Rightarrow> http_exception" where
  "HttpVersionNotSupportedException msg = HttpException_new 505 ''HTTP Version Not Supported'' msg"

definition VariantAlsoNegotiatesException :: "str \<Rightarrow> http_exception" where
  "VariantAlsoNegotiatesException msg = HttpException_new 506 ''Variant Also Negotiates'' msg"

definition InsufficientStorageException :: "str \<Rightarrow> http_exception" where
  "InsufficientStorageException msg = HttpException_new 507 ''Insufficient Storage'' msg"

definition LoopDetectedException :: "str \<Rightarrow> http_exception" where
  "LoopDetectedException msg = HttpException_new 508 ''Loop Detected'' msg"

definition NotExtendedException :: "str \<Rightarrow> http_exception" where
  "NotExtendedException msg = HttpException_new 510 ''Not Extended'' msg"

definition NetworkAuthenticationRequiredException :: "str \<Rightarrow> http_exception" where
  "NetworkAuthenticationRequiredException msg = HttpException_new 511 ''Network Authentication Required'' msg"

definition InternalServerErrorException :: "any_error \<Rightarrow> http_exception" where
  "InternalServerErrorException err =
     with_source (HttpException_new 500 ''Internal Server Error'' ''Internal Server Error'') err"

section \<open>Validation errors\<close>

text \<open>
  \<open>json_text\<close> stands for the \<open>Display\<close> of \<open>serde_json\<close> values and numbers, which is not part
  of the repository.
\<close>

definition validation_param :: "(json \<Rightarrow> str) \<Rightarrow> verror \<Rightarrow> str \<Rightarrow> str option" where
  "validation_param json_text err name =
     (case ve_params err name of
        None \<Rightarrow> None
      | Some value \<Rightarrow>
          (case value of
             JString s \<Rightarrow> Some s
           | JNumber n \<Rightarrow> Some n
           | JBool b \<Rightarrow> Some (if b then ''true'' else ''false'')
           | JNull \<Rightarrow> None
           | v \<Rightarrow> Some (json_text v)))"

definition format_length_validation_error :: "(json \<Rightarrow> str) \<Rightarrow> verror \<Rightarrow> str" where
  "format_length_validation_error json_text err =
     (case (validation_param json_text err ''equal'', validation_param json_text err ''min'',
            validation_param json_text err ''max'') of
        (Some equal, _, _) \<Rightarrow> ''must be exactly '' @ equal @ '' characters''
      | (None, Some mn, Some mx) \<Rightarrow> ''must be between '' @ mn @ '' and '' @ mx @ '' characters''
      | (None, Some mn, None) \<Rightarrow> ''must be at least '' @ mn @ '' characters''
      | (None, None, Some mx) \<Rightarrow> ''must be at most '' @ mx @ '' characters''
      | (None, None, None) \<Rightarrow> ''has an invalid length'')"

definition format_validation_error :: "(json \<Rightarrow> str) \<Rightarrow> verror \<Rightarrow> str" where
  "format_validation_error json_text err =
     (case ve_message err of
        Some msg \<Rightarrow> msg
      | None \<Rightarrow>
         (let code = ve_code err in
          if code = ''email'' then ''must be a valid email''
          else if code = ''length'' then format_length_validation_error json_text err
          else if code = ''required'' then ''is required''
          else if code = ''url'' then ''must be a valid URL''
          else if code = ''regex'' then ''has an invalid format''
          else if code = ''contains'' then
            (case validation_param json_text err ''needle'' of
               Some needle \<Rightarrow> ''must contain '' @ needle
             | None \<Rightarrow> ''must contain the required value'')
          else if code = ''does_not_contain'' then
            (case validation_param json_text err ''needle'' of
               Some needle \<Rightarrow> ''must not contain '' @ needle
             | None \<Rightarrow> ''contains a forbidden value'')
          else if code = ''must_match'' then
            (case validation_param json_text err ''other'' of
               Some other \<Rightarrow> ''must match '' @ other
             | None \<Rightarrow> ''does not match'')
          else if code = ''ip'' then ''must be a valid IP address''
          else if code = ''ipv4'' then ''must be a valid IPv4 address''
          else if code = ''ipv6'' then ''must be a valid IPv6 address''
          else ''is invalid ('' @ code @ '')''))"

text \<open>\<open>entry(path).or_default().push(message)\<close>.\<close>

definition push_error :: "str \<Rightarrow> str \<Rightarrow> (str \<Rightarrow> str list option) \<Rightarrow> (str \<Rightarrow> str list option)" where
  "push_error path msg errs =
     errs(path \<mapsto> (case errs path of None \<Rightarrow> [] | Some ms \<Rightarrow> ms) @ [msg])"

definition field_path :: "str \<Rightarrow> str \<Rightarrow> str" where
  "field_path pre field = (if pre = [] then field else pre @ ''.'' @ field)"

definition index_path :: "str \<Rightarrow> nat \<Rightarrow> str" where
  "index_path path index = path @ ''['' @ show_nat index @ '']''"

lemma size_list_sort_key:
  "size_list f (sort_key g xs) = size_list f xs"
proof -
  have "mset (sort_key g xs) = mset xs" by simp
  then have "sum_mset (image_mset f (mset (sort_key g xs))) = sum_mset (image_mset f (mset xs))"
    by simp
  then have "sum_list (map f (sort_key g xs)) = sum_list (map f xs)"
    by (metis mset_map sum_mset_sum_list)
  then show ?thesis by (simp add: size_list_conv_sum_list)
qed

function (sequential)
  collect_validation_errors ::
    "(json \<Rightarrow> str) \<Rightarrow> str \<Rightarrow> verrors \<Rightarrow> (str \<Rightarrow> str list option) \<Rightarrow> (str \<Rightarrow> str list option)" and
  collect_fields ::
    "(json \<Rightarrow> str) \<Rightarrow> str \<Rightarrow> (str \<times> vkind) list \<Rightarrow> (str \<Rightarrow> str list option) \<Rightarrow>
     (str \<Rightarrow> str list option)" and
  collect_validation_error_kind ::
    "(json \<Rightarrow> str) \<Rightarrow> str \<Rightarrow> vkind \<Rightarrow> (str \<Rightarrow> str list option) \<Rightarrow> (str \<Rightarrow> str list option)" and
  collect_list ::
    "(json \<Rightarrow> str) \<Rightarrow> str \<Rightarrow> (nat \<times> verrors) list \<Rightarrow> (str \<Rightarrow> str list option) \<Rightarrow>
     (str \<Rightarrow> str list option)"
where
  "collect_validation_errors jt pre (VErrors fs) acc = collect_fields jt pre (sort_key fst fs) acc"
| "collect_fields jt pre [] acc = acc"
| "collect_fields jt pre ((field, kind) # fs) acc =
     collect_fields jt pre fs
       (collect_validation_error_kind jt (field_path pre field) kind acc)"
| "collect_validation_error_kind jt path (VField es) acc =
     fold (\<lambda>e. push_error path (format_validation_error jt e)) es acc"
| "collect_validation_error_kind jt path (VStruct e) acc =
     collect_validation_errors jt path e acc"
| "collect_validation_error_kind jt path (VList es) acc = collect_list jt path es acc"
| "collect_list jt path [] acc = acc"
| "collect_list jt path ((index, e) # es) acc =
     collect_list jt path es (collect_validation_errors jt (index_path path index) e acc)"
  by pat_completeness auto
termination
  by (relation "measure (\<lambda>x. case x of
        Inl (Inl (_, _, e, _)) \<Rightarrow> size e
      | Inl (Inr (_, _, fs, _)) \<Rightarrow> size_list (size_prod (\<lambda>_. 0) size) fs
      | Inr (Inl (_, _, k, _)) \<Rightarrow> size k
      | Inr (Inr (_, _, es, _)) \<Rightarrow> size_list (size_prod (\<lambda>_. 0) size) es)")
    (auto simp: size_list_sort_key)

definition format_validation_errors :: "(json \<Rightarrow> str) \<Rightarrow> verrors \<Rightarrow> (str \<Rightarrow> str list option)" where
  "format_validation_errors jt err = collect_validation_errors jt [] err Map.empty"

text \<open>\<open>impl From<E> for HttpException\<close> (the \<open>validator\<close> feature enabled).\<close>

definition exception_from :: "(json \<Rightarrow> str) \<Rightarrow> any_error \<Rightarrow> http_exception" where
  "exception_from jt err =
     (case err of
        ValidationFailure ve \<Rightarrow>
          with_errors (BadRequestException ''Validation failed'') (format_validation_errors jt ve)
      | _ \<Rightarrow> InternalServerErrorException err)"

section \<open>Lemmas\<close>

lemma startup_error_status [simp]: "ex_status (startup_error m) = 500"
  by (simp add: startup_error_def HttpException_new_def)

lemma startup_error_message [simp]: "ex_message (startup_error m) = m"
  by (simp add: startup_error_def HttpException_new_def)

lemma startup_error_inj [simp]: "startup_error m = startup_error n \<longleftrightarrow> m = n"
  by (simp add: startup_error_def HttpException_new_def)

lemma InternalServerError_fields [simp]:
  "ex_status (InternalServerErrorException e) = 500"
  "ex_message (InternalServerErrorException e) = ''Internal Server Error''"
  "ex_source (InternalServerErrorException e) = Some e"
  by (simp_all add: InternalServerErrorException_def HttpException_new_def with_source_def)

text \<open>The paths that carry a message: one per non-empty field entry of the tree.\<close>

lemma size_entry:
  "(x, k) \<in> set fs \<Longrightarrow> size k < Suc (size_list (size_prod (\<lambda>_. 0) size) fs)"
  by (induction fs) auto

function (sequential)
  leaf_paths :: "str \<Rightarrow> verrors \<Rightarrow> str set" and
  kind_paths :: "str \<Rightarrow> vkind \<Rightarrow> str set"
where
  "leaf_paths pre (VErrors fs) = (\<Union>(field, kind)\<in>set fs. kind_paths (field_path pre field) kind)"
| "kind_paths path (VField es) = (if es = [] then {} else {path})"
| "kind_paths path (VStruct e) = leaf_paths path e"
| "kind_paths path (VList es) = (\<Union>(index, e)\<in>set es. leaf_paths (index_path path index) e)"
  by pat_completeness auto
termination
  by (relation "measure (\<lambda>x. case x of Inl (_, e) \<Rightarrow> size e | Inr (_, k) \<Rightarrow> size k)")
    (auto dest: size_entry)

lemma dom_push_error [simp]: "dom (push_error path m errs) = insert path (dom errs)"
  by (simp add: push_error_def)

lemma dom_fold_push:
  "dom (fold (\<lambda>e. push_error path (f e)) es acc) = (if es = [] then {} else {path}) \<union> dom acc"
  by (induction es arbitrary: acc) auto

lemma dom_collect:
  "dom (collect_validation_errors jt pre e acc) = leaf_paths pre e \<union> dom acc"
  "dom (collect_fields jt pre fs acc) =
     (\<Union>(field, kind)\<in>set fs. kind_paths (field_path pre field) kind) \<union> dom acc"
  "dom (collect_validation_error_kind jt path k acc) = kind_paths path k \<union> dom acc"
  "dom (collect_list jt path es acc) =
     (\<Union>(index, e)\<in>set es. leaf_paths (index_path path index) e) \<union> dom acc"
  by (induction jt pre e acc and jt pre fs acc and jt path k acc and jt path es acc
      rule: collect_validation_errors_collect_fields_collect_validation_error_kind_collect_list.induct)
    (auto simp: dom_fold_push)

lemma distinct_singleton: "distinct ys \<Longrightarrow> set ys = {k} \<Longrightarrow> ys = [k]"
proof (cases ys)
  case (Cons a zs)
  assume "distinct ys" "set ys = {k}"
  with Cons have "a = k" "set zs \<subseteq> {k}" "k \<notin> set zs" by auto
  then have "zs = []" by (cases zs) auto
  with Cons \<open>a = k\<close> show ?thesis by simp
qed simp

lemma sort_fields_unique:
  assumes "distinct (map fst fs)" and "mset fs = mset gs"
  shows "sort_key fst fs = sort_key (fst :: str \<times> vkind \<Rightarrow> str) gs"
proof (rule properties_for_sort_key)
  show "mset (sort_key fst gs) = mset fs" using assms(2) by simp
  show "sorted (map fst (sort_key fst gs))" by simp
next
  fix k assume "k \<in> set (sort_key fst gs)"
  then have k: "k \<in> set fs" using assms(2) by (metis mset_eq_setD set_sort)
  have inj: "inj_on fst (set fs)" using assms(1) by (simp add: distinct_map)
  have dfs: "distinct fs" using assms(1) by (simp add: distinct_map)
  have dgs: "distinct (sort_key fst gs)"
    using dfs assms(2) by (metis distinct_sort mset_eq_imp_distinct_iff)
  have sets: "set (sort_key fst gs) = set fs" using assms(2) by (metis mset_eq_setD set_sort)
  have one: "filter (\<lambda>y. fst k = fst y) xs = [k]" if "distinct xs" "set xs = set fs" for xs
  proof -
    have "set (filter (\<lambda>y. fst k = fst y) xs) = {k}"
      using that(2) k inj by (auto dest: inj_onD)
    moreover have "distinct (filter (\<lambda>y. fst k = fst y) xs)" using that(1) by simp
    ultimately show ?thesis by (simp add: distinct_singleton)
  qed
  show "filter (\<lambda>y. fst k = fst y) (sort_key fst gs) = filter (\<lambda>y. fst k = fst y) fs"
    using one [OF dgs sets] one [OF dfs refl] by simp
qed

text \<open>Flattening is independent of the order in which the error tree's hash map lists its
  fields, and its result has an entry exactly for the dotted path of every field that has at
  least one error.\<close>

theorem format_validation_errors_deterministic:
  assumes "distinct (map fst fs)" and "mset fs = mset gs"
  shows "format_validation_errors jt (VErrors fs) = format_validation_errors jt (VErrors gs)
    \<and> dom (format_validation_errors jt (VErrors fs)) = leaf_paths [] (VErrors fs)"
  unfolding format_validation_errors_def
  using sort_fields_unique [OF assms] mset_eq_setD [OF assms(2)] by (simp add: dom_collect)

theorem format_validation_errors_witness:
  "let e = \<lparr>ve_code = ''email'', ve_message = None, ve_params = Map.empty\<rparr>;
       fs = [(''mail'', VField [e]), (''age'', VField [])]; gs = rev fs
   in format_validation_errors (\<lambda>_. []) (VErrors fs) = format_validation_errors (\<lambda>_. []) (VErrors gs)
      \<and> dom (format_validation_errors (\<lambda>_. []) (VErrors fs)) = leaf_paths [] (VErrors fs)"
  unfolding Let_def by (rule format_validation_errors_deterministic) simp_all

end
