(* ===== verification/Responses.thy ===== *)
theory Responses
  imports Exceptions
begin

text \<open>
  HTTP responses and cookies: \<open>crates/caelix-core/src/response.rs\<close> and
  \<open>crates/caelix-core/src/cookie.rs\<close>. A body is a list of bytes or a stream, given by the
  sequence of items it yields. \<open>serde_json::to_vec\<close> is a parameter \<open>to_vec\<close> (None when
  serialisation fails); the rendering of a cookie by the \<open>cookie\<close> crate is not modelled.
  Durations are in nanoseconds, absolute times in nanoseconds since the Unix epoch.
\<close>

type_synonym bytes = str

section \<open>Cookies\<close>

datatype same_site = Strict | Lax | SameSiteNone

record cookie =
  ck_name :: str
  ck_value :: str
  ck_http_only :: bool
  ck_secure :: bool
  ck_same_site :: same_site
  ck_path :: "str option"
  ck_domain :: "str option"
  ck_max_age :: "nat option"
  ck_expires :: "int option"

definition Cookie_new :: "str \<Rightarrow> str \<Rightarrow> cookie" where
  "Cookie_new name value =
     \<lparr>ck_name = name, ck_value = value, ck_http_only = True, ck_secure = True,
      ck_same_site = Lax, ck_path = Some ''/'', ck_domain = None, ck_max_age = None,
      ck_expires = None\<rparr>"

definition cookie_set_max_age :: "cookie \<Rightarrow> nat \<Rightarrow> cookie" where
  "cookie_set_max_age c value = c\<lparr>ck_max_age := Some value\<rparr>"

definition cookie_set_expires :: "cookie \<Rightarrow> int \<Rightarrow> cookie" where
  "cookie_set_expires c value = c\<lparr>ck_expires := Some value\<rparr>"

definition Cookie_removal :: "str \<Rightarrow> cookie" where
  "Cookie_removal name = cookie_set_expires (cookie_set_max_age (Cookie_new name []) 0) 0"

section \<open>Responses\<close>

datatype response_body = Buffered bytes | Streaming "bytes result list"

definition as_buffered :: "response_body \<Rightarrow> bytes option" where
  "as_buffered b = (case b of Buffered bs \<Rightarrow> Some bs | Streaming _ \<Rightarrow> None)"

definition body_is_empty :: "response_body \<Rightarrow> bool" where
  "body_is_empty b = (case b of Buffered bs \<Rightarrow> bs = [] | Streaming _ \<Rightarrow> False)"

record http_response =
  hr_status :: nat
  hr_body :: response_body
  hr_content_type :: str
  hr_headers :: "(str \<times> str) list"
  hr_cookies :: "cookie list"

definition HttpResponse_new :: "nat \<Rightarrow> bytes \<Rightarrow> str \<Rightarrow> http_response" where
  "HttpResponse_new status body content_type =
     \<lparr>hr_status = status, hr_body = Buffered body, hr_content_type = content_type,
      hr_headers = [], hr_cookies = []\<rparr>"

definition json_serialization_error_body :: bytes where
  "json_serialization_error_body =
     ''{\"status\":500,\"error\":\"Internal Server Error\",\"message\":\"Internal Server Error\"}''"

definition json_serialization_error_response :: http_response where
  "json_serialization_error_response =
     HttpResponse_new 500 json_serialization_error_body ''application/json''"

definition HttpResponse_json :: "('t \<Rightarrow> bytes option) \<Rightarrow> nat \<Rightarrow> 't \<Rightarrow> http_response" where
  "HttpResponse_json to_vec status body =
     (case to_vec body of
        Some bs \<Rightarrow> HttpResponse_new status bs ''application/json''
      | None \<Rightarrow> json_serialization_error_response)"

definition HttpResponse_text :: "nat \<Rightarrow> str \<Rightarrow> http_response" where
  "HttpResponse_text status body = HttpResponse_new status body ''text/plain''"

definition HttpResponse_bytes :: "nat \<Rightarrow> bytes \<Rightarrow> http_response" where
  "HttpResponse_bytes status body = HttpResponse_new status body ''application/octet-stream''"

definition insert_header :: "http_response \<Rightarrow> str \<Rightarrow> str \<Rightarrow> http_response" where
  "insert_header r name value = r\<lparr>hr_headers := hr_headers r @ [(name, value)]\<rparr>"

definition insert_cookie :: "http_response \<Rightarrow> cookie \<Rightarrow> http_response" where
  "insert_cookie r c = r\<lparr>hr_cookies := hr_cookies r @ [c]\<rparr>"

datatype body = JsonBody bytes | TextBody str | BytesBody bytes

definition respond_with :: "body \<Rightarrow> nat \<Rightarrow> http_response" where
  "respond_with b status =
     (case b of
        JsonBody bs \<Rightarrow> HttpResponse_new status bs ''application/json''
      | TextBody text \<Rightarrow> HttpResponse_text status text
      | BytesBody bs \<Rightarrow> HttpResponse_bytes status bs)"

datatype 't response =
    RBody 't
  | RWithStatus nat 't
  | RRaw nat body
  | REmpty
  | RWithCookies "'t response" "cookie list"

fun with_cookie :: "'t response \<Rightarrow> cookie \<Rightarrow> 't response" where
  "with_cookie (RWithCookies r cs) c = RWithCookies r (cs @ [c])"
| "with_cookie r c = RWithCookies r [c]"

fun response_into_response :: "('t \<Rightarrow> bytes option) \<Rightarrow> 't response \<Rightarrow> http_response" where
  "response_into_response to_vec (RBody v) = HttpResponse_json to_vec 200 v"
| "response_into_response to_vec (RWithStatus status v) = HttpResponse_json to_vec status v"
| "response_into_response to_vec (RRaw status b) = respond_with b status"
| "response_into_response to_vec REmpty = HttpResponse_new 204 [] ''application/json''"
| "response_into_response to_vec (RWithCookies r cs) =
     (let response = response_into_response to_vec r
      in response\<lparr>hr_cookies := hr_cookies response @ cs\<rparr>)"

definition Response_json :: "('v \<Rightarrow> bytes option) \<Rightarrow> nat \<Rightarrow> 'v \<Rightarrow> unit response" where
  "Response_json to_vec status value =
     (case to_vec value of
        None \<Rightarrow> RRaw 500 (JsonBody json_serialization_error_body)
      | Some bs \<Rightarrow> RRaw status (JsonBody bs))"

definition Response_stream :: "str \<Rightarrow> bytes result list \<Rightarrow> http_response" where
  "Response_stream content_type stream =
     \<lparr>hr_status = 200, hr_body = Streaming stream, hr_content_type = content_type,
      hr_headers = [], hr_cookies = []\<rparr>"

text \<open>\<open>to_string\<close> is \<open>serde_json::to_string\<close>: the text, or the error's text.\<close>

definition sse_frame :: "('v \<Rightarrow> str + str) \<Rightarrow> 'v \<Rightarrow> bytes result" where
  "sse_frame to_string value =
     (case to_string value of
        Inl err \<Rightarrow> Inl (InternalServerErrorException
                      (OtherError (''failed to serialize SSE event: '' @ err)))
      | Inr json_text \<Rightarrow> Inr (''data: '' @ json_text @ [CHR 0x0A, CHR 0x0A]))"

definition Response_sse :: "('v \<Rightarrow> str + str) \<Rightarrow> 'v result list \<Rightarrow> http_response" where
  "Response_sse to_string stream =
     (let framed = map (\<lambda>item. bind_result item (sse_frame to_string)) stream
      in insert_header (insert_header (Response_stream ''text/event-stream'' framed)
           ''Cache-Control'' ''no-cache'') ''X-Accel-Buffering'' ''no'')"

datatype io_kind = NotFound | PermissionDenied | OtherKind

definition map_file_open_error :: "io_kind \<Rightarrow> str \<Rightarrow> http_exception" where
  "map_file_open_error kind text =
     (case kind of
        NotFound \<Rightarrow> NotFoundException ''file not found''
      | PermissionDenied \<Rightarrow> ForbiddenException ''permission denied''
      | OtherKind \<Rightarrow> InternalServerErrorException (OtherError text))"

section \<open>Errors as responses\<close>

record error_body =
  eb_status :: nat
  eb_error :: str
  eb_message :: str
  eb_errors :: "(str \<Rightarrow> str list option) option"

definition exception_into_response ::
    "(error_body \<Rightarrow> bytes option) \<Rightarrow> http_exception \<Rightarrow> http_response" where
  "exception_into_response to_vec e =
     (let (msg, errs) =
        (if is_server_error (ex_status e) then (''Internal Server Error'', None)
         else (ex_message e, ex_errors e))
      in HttpResponse_json to_vec (ex_status e)
           \<lparr>eb_status = ex_status e, eb_error = ex_error e, eb_message = msg, eb_errors = errs\<rparr>)"

text \<open>The response to a server error does not depend on the error's message, validation
  errors or source, so none of them can leak to the client.\<close>

theorem server_errors_do_not_leak:
  assumes "is_server_error (ex_status e)"
    and "ex_status e' = ex_status e" and "ex_error e' = ex_error e"
  shows "exception_into_response to_vec e = exception_into_response to_vec e'"
  using assms by (simp add: exception_into_response_def)

theorem server_errors_do_not_leak_witness:
  "exception_into_response (\<lambda>b. Some (eb_message b)) (startup_error ''password=1'') =
   exception_into_response (\<lambda>b. Some (eb_message b)) (InternalServerErrorException (OtherError ''io''))"
  by (rule server_errors_do_not_leak)
    (simp_all add: is_server_error_def InternalServerErrorException_def startup_error_def
      HttpException_new_def with_source_def)

lemma into_response_with_cookie:
  "response_into_response to_vec (with_cookie r c) =
     insert_cookie (response_into_response to_vec r) c"
  by (cases r) (simp_all add: insert_cookie_def Let_def)

text \<open>Cookies are appended to the materialised response in call order, after the cookies it
  already has, and change nothing else of it.\<close>

theorem response_cookies_in_call_order:
  "response_into_response to_vec (fold (\<lambda>c r. with_cookie r c) cs r) =
     (response_into_response to_vec r)
       \<lparr>hr_cookies := hr_cookies (response_into_response to_vec r) @ cs\<rparr>"
  by (induction cs arbitrary: r) (simp_all add: into_response_with_cookie insert_cookie_def)

end
