(* ===== verification/Throttle.thy ===== *)
theory Throttle
  imports Responses "HOL-Library.Char_ord" "HOL-Library.List_Lexorder" "HOL-Library.Product_Lexorder"
begin

text \<open>
  Request throttling, \<open>crates/caelix-core/src/throttle.rs\<close>: policies, the bounded in-memory store,
  the client-address tracker and the check. Instants are nanoseconds since the start of the clock,
  whose last instant is the argument \<open>clock_max\<close>; durations are nanoseconds. The current time is
  an argument of each operation. The hash map of buckets is an association list, the binary heap of
  expirations the sorted list of its elements. IP addresses are an abstract type with their parser
  and printer as arguments, networks an abstract type with their membership test.
\<close>

section \<open>Policies\<close>

record throttle_policy =
  tp_limit :: nat
  tp_window :: nat

definition ThrottlePolicy_new :: "nat \<Rightarrow> nat \<Rightarrow> throttle_policy" where
  "ThrottlePolicy_new limit window_seconds =
     \<lparr>tp_limit = limit, tp_window = window_seconds * 1000000000\<rparr>"

definition checked_add_instant :: "nat \<Rightarrow> nat \<Rightarrow> nat \<Rightarrow> nat option" where
  "checked_add_instant clock_max t d = (if t + d \<le> clock_max then Some (t + d) else None)"

definition validate_policy :: "nat \<Rightarrow> nat \<Rightarrow> throttle_policy \<Rightarrow> unit result" where
  "validate_policy clock_max now policy =
     (if tp_limit policy = 0 \<or> tp_window policy = 0
      then Inl (startup_error ''throttle limit and window must be greater than zero'')
      else (case checked_add_instant clock_max now (tp_window policy) of
              None \<Rightarrow> Inl (startup_error ''throttle window exceeds the clock range'')
            | Some _ \<Rightarrow> Inr ()))"

record throttle_store_record =
  tr_count :: nat
  tr_retry_after :: nat

section \<open>The memory store\<close>

record memory_bucket =
  bk_count :: nat
  bk_expires :: nat
  bk_generation :: nat

type_synonym buckets = "(str \<times> memory_bucket) list"
type_synonym expirations = "(nat \<times> nat \<times> str) list"
type_synonym insertions = "(nat \<times> str) list"

record memory_state =
  st_buckets :: buckets
  st_expirations :: expirations
  st_order :: insertions
  st_next_generation :: nat

definition memory_state_default :: memory_state where
  "memory_state_default =
     \<lparr>st_buckets = [], st_expirations = [], st_order = [], st_next_generation = 0\<rparr>"

record memory_store =
  ms_state :: memory_state
  ms_capacity :: nat

definition MemoryThrottleStore_with_capacity :: "nat \<Rightarrow> memory_store" where
  "MemoryThrottleStore_with_capacity capacity =
     \<lparr>ms_state = memory_state_default, ms_capacity = max capacity 1\<rparr>"

definition MemoryThrottleStore_new :: memory_store where
  "MemoryThrottleStore_new = MemoryThrottleStore_with_capacity 100000"

text \<open>The loop that pops the expirations up to now and removes their buckets.\<close>

definition drop_expired :: "nat \<Rightarrow> nat \<Rightarrow> str \<Rightarrow> buckets \<Rightarrow> buckets" where
  "drop_expired now generation key bs =
     (case map_of bs key of
        Some b \<Rightarrow> if bk_generation b = generation \<and> bk_expires b \<le> now
                  then AList.delete key bs else bs
      | None \<Rightarrow> bs)"

fun sweep :: "nat \<Rightarrow> expirations \<Rightarrow> buckets \<Rightarrow> expirations \<times> buckets" where
  "sweep now [] bs = ([], bs)"
| "sweep now ((expires_at, generation, key) # es) bs =
     (if expires_at > now then ((expires_at, generation, key) # es, bs)
      else sweep now es (drop_expired now generation key bs))"

text \<open>The loop that evicts the oldest bucket.\<close>

fun evict :: "insertions \<Rightarrow> buckets \<Rightarrow> insertions \<times> buckets" where
  "evict [] bs = ([], bs)"
| "evict ((generation, oldest) # q) bs =
     (case map_of bs oldest of
        Some b \<Rightarrow> if bk_generation b = generation then (q, AList.delete oldest bs) else evict q bs
      | None \<Rightarrow> evict q bs)"

definition insert_bucket :: "str \<Rightarrow> nat \<Rightarrow> memory_state \<Rightarrow> memory_state" where
  "insert_bucket key expires_at s =
     (let generation = wrapping_add (st_next_generation s) 1 in
      \<lparr>st_buckets = AList.update key
          \<lparr>bk_count = 0, bk_expires = expires_at, bk_generation = generation\<rparr> (st_buckets s),
       st_expirations = insort (expires_at, generation, key) (st_expirations s),
       st_order = st_order s @ [(generation, key)],
       st_next_generation = generation\<rparr>)"

definition compact_expirations :: "nat \<Rightarrow> memory_state \<Rightarrow> memory_state" where
  "compact_expirations capacity s =
     (if length (st_expirations s) > saturating_mul capacity 2
      then s\<lparr>st_expirations :=
               sort (map (\<lambda>(key, b). (bk_expires b, bk_generation b, key)) (st_buckets s))\<rparr>
      else s)"

definition compact_order :: "nat \<Rightarrow> memory_state \<Rightarrow> memory_state" where
  "compact_order capacity s =
     (if length (st_order s) > saturating_mul capacity 2
      then s\<lparr>st_order := sort_key fst (map (\<lambda>(key, b). (bk_generation b, key)) (st_buckets s))\<rparr>
      else s)"

definition sweep_state :: "nat \<Rightarrow> memory_state \<Rightarrow> memory_state" where
  "sweep_state now s =
     (let (es, bs) = sweep now (st_expirations s) (st_buckets s)
      in s\<lparr>st_expirations := es, st_buckets := bs\<rparr>)"

definition make_room :: "nat \<Rightarrow> memory_state \<Rightarrow> memory_state" where
  "make_room capacity s =
     (if length (st_buckets s) \<ge> capacity
      then let (q, bs) = evict (st_order s) (st_buckets s) in s\<lparr>st_order := q, st_buckets := bs\<rparr>
      else s)"

text \<open>Counts the attempt in the bucket of the key, which has to be there (\<open>None\<close> is a panic).\<close>

definition bump :: "nat \<Rightarrow> str \<Rightarrow> memory_state \<Rightarrow> (throttle_store_record \<times> memory_state) option" where
  "bump now key s =
     (case map_of (st_buckets s) key of
        None \<Rightarrow> None
      | Some b \<Rightarrow>
          (let b' = b\<lparr>bk_count := saturating_add (bk_count b) 1\<rparr> in
           Some (\<lparr>tr_count = bk_count b', tr_retry_after = bk_expires b' - now\<rparr>,
                 s\<lparr>st_buckets := AList.update key b' (st_buckets s)\<rparr>)))"

definition memory_increment ::
    "nat \<Rightarrow> nat \<Rightarrow> str \<Rightarrow> nat \<Rightarrow> memory_store \<Rightarrow> (throttle_store_record result \<times> memory_store) option" where
  "memory_increment clock_max now key window store =
     (let capacity = ms_capacity store; s1 = sweep_state now (ms_state store) in
      if map_of (st_buckets s1) key \<noteq> None then
        (case bump now key (compact_order capacity (compact_expirations capacity s1)) of
           None \<Rightarrow> None
         | Some (r, s') \<Rightarrow> Some (Inr r, store\<lparr>ms_state := s'\<rparr>))
      else
        (case checked_add_instant clock_max now window of
           None \<Rightarrow> Some (Inl (startup_error ''throttle window exceeds the clock range''),
                         store\<lparr>ms_state := s1\<rparr>)
         | Some expires_at \<Rightarrow>
             (case bump now key (compact_order capacity (compact_expirations capacity
                     (insert_bucket key expires_at (make_room capacity s1)))) of
                None \<Rightarrow> None
              | Some (r, s') \<Rightarrow> Some (Inr r, store\<lparr>ms_state := s'\<rparr>))))"

end
