(* ===== verification/ThrottleStore.thy ===== *)
theory ThrottleStore
  imports Throttle
begin

text \<open>
  The in-memory throttle store: its size and index invariant, and the fixed-window counting it
  implements, stated on the view that forgets indexes, generations and expired buckets.
\<close>

section \<open>Invariant\<close>

definition index_covers :: "buckets \<Rightarrow> expirations \<Rightarrow> insertions \<Rightarrow> bool" where
  "index_covers bs es q \<longleftrightarrow>
     (\<forall>k b. map_of bs k = Some b \<longrightarrow>
        (bk_expires b, bk_generation b, k) \<in> set es \<and> (bk_generation b, k) \<in> set q)"

definition indexed :: "memory_state \<Rightarrow> bool" where
  "indexed s \<longleftrightarrow>
     distinct (map fst (st_buckets s)) \<and> sorted (st_expirations s) \<and>
     index_covers (st_buckets s) (st_expirations s) (st_order s)"

definition bounded :: "nat \<Rightarrow> memory_state \<Rightarrow> bool" where
  "bounded cap s \<longleftrightarrow>
     length (st_buckets s) \<le> cap \<and>
     length (st_expirations s) \<le> saturating_mul cap 2 \<and> length (st_order s) \<le> saturating_mul cap 2"

definition store_ok :: "memory_store \<Rightarrow> bool" where
  "store_ok st \<longleftrightarrow> 1 \<le> ms_capacity st \<and> ms_capacity st \<le> usize_max \<and>
     indexed (ms_state st) \<and> bounded (ms_capacity st) (ms_state st)"

lemma indexed_default: "indexed memory_state_default" "bounded cap memory_state_default"
  by (simp_all add: indexed_def bounded_def memory_state_default_def index_covers_def)

lemma store_ok_with_capacity:
  "cap \<le> usize_max \<Longrightarrow> store_ok (MemoryThrottleStore_with_capacity cap)"
  by (simp add: store_ok_def MemoryThrottleStore_with_capacity_def indexed_default)

section \<open>The live buckets\<close>

definition live_buckets :: "nat \<Rightarrow> buckets \<Rightarrow> str \<Rightarrow> memory_bucket option" where
  "live_buckets now bs k =
     (case map_of bs k of Some b \<Rightarrow> if bk_expires b > now then Some b else None | None \<Rightarrow> None)"

lemma length_distinct_keys: "distinct (map fst bs) \<Longrightarrow> length bs = card (dom (map_of bs))"
  by (metis distinct_card dom_map_of_conv_image_fst length_map set_map)

lemma length_delete_less:
  assumes "distinct (map fst bs)" "k \<in> dom (map_of bs)"
  shows "Suc (length (AList.delete k bs)) = length bs"
proof -
  have "distinct (map fst (AList.delete k bs))" using assms(1) by (rule distinct_delete)
  then have "length (AList.delete k bs) = card (dom (map_of bs) - {k})"
    by (simp add: length_distinct_keys delete_conv')
  also have "Suc \<dots> = card (dom (map_of bs))"
    using assms(2) by (metis card_Suc_Diff1 finite_dom_map_of)
  finally show ?thesis using assms(1) by (simp add: length_distinct_keys)
qed

lemma sweep_expirations:
  "sorted es \<Longrightarrow> fst (sweep now es bs) = filter (\<lambda>(e, _). e > now) es"
proof (induction now es bs rule: sweep.induct)
  case (1 now bs)
  then show ?case by simp
next
  case (2 now e g k es bs)
  show ?case
  proof (cases "e > now")
    case True
    with "2.prems" have "\<forall>x\<in>set es. now < fst x"
      by (fastforce simp: less_eq_prod_def)
    then have "filter (\<lambda>(e, _). e > now) es = es" by (auto simp: filter_id_conv)
    with True show ?thesis by simp
  next
    case False
    with 2 show ?thesis by simp
  qed
qed

lemma drop_expired_distinct: "distinct (map fst bs) \<Longrightarrow> distinct (map fst (drop_expired now g key bs))"
  by (simp add: drop_expired_def distinct_delete split: option.splits)

lemma map_of_drop_expired:
  "map_of (drop_expired now g key bs) k =
     (case map_of bs k of
        Some b \<Rightarrow> if k = key \<and> bk_generation b = g \<and> bk_expires b \<le> now then None else Some b
      | None \<Rightarrow> None)"
  by (cases "map_of bs k"; cases "map_of bs key") (auto simp: drop_expired_def delete_conv')

lemma sweep_distinct: "distinct (map fst bs) \<Longrightarrow> distinct (map fst (snd (sweep now es bs)))"
  by (induction now es bs rule: sweep.induct)
    (simp_all add: drop_expired_distinct)

lemma sweep_keeps_live:
  "map_of bs k = Some b \<Longrightarrow> bk_expires b > now \<Longrightarrow> map_of (snd (sweep now es bs)) k = Some b"
  by (induction now es bs rule: sweep.induct) (simp_all add: map_of_drop_expired)

lemma sweep_only_removes:
  "map_of (snd (sweep now es bs)) k = Some b \<Longrightarrow> map_of bs k = Some b"
  by (induction now es bs rule: sweep.induct)
    (auto simp: map_of_drop_expired split: option.splits if_splits)

lemma sweep_removes_expired:
  "sorted es \<Longrightarrow> map_of bs k = Some b \<Longrightarrow> bk_expires b \<le> now \<Longrightarrow>
   (bk_expires b, bk_generation b, k) \<in> set es \<Longrightarrow> map_of (snd (sweep now es bs)) k = None"
proof (induction now es bs rule: sweep.induct)
  case (1 now bs)
  then show ?case by simp
next
  case (2 now e g k' es bs)
  show ?case
  proof (cases "e > now")
    case True
    with "2.prems" have "\<forall>x\<in>set ((e, g, k') # es). now < fst x"
      by (fastforce simp: less_eq_prod_def)
    with "2.prems"(3,4) show ?thesis by fastforce
  next
    case False
    let ?bs = "drop_expired now g k' bs"
    show ?thesis
    proof (cases "map_of ?bs k")
      case None
      then have "map_of (snd (sweep now es ?bs)) k = None"
        by (metis not_None_eq sweep_only_removes)
      with False show ?thesis by simp
    next
      case (Some b')
      then have b': "b' = b" "(e, g, k') \<noteq> (bk_expires b, bk_generation b, k)"
        using "2.prems"(2,3) by (auto simp: map_of_drop_expired split: if_splits)
      from Some b'(1) have kb: "map_of ?bs k = Some b" by simp
      have "(bk_expires b, bk_generation b, k) \<in> set es" "sorted es" using "2.prems"(1,4) b'(2) by auto
      from "2.IH" [OF False this(2) kb "2.prems"(3) this(1)]
      have "map_of (snd (sweep now es ?bs)) k = None" .
      with False show ?thesis by simp
    qed
  qed
qed

lemma sweep_live:
  assumes "sorted es" "index_covers bs es q"
  shows "map_of (snd (sweep now es bs)) k = live_buckets now bs k"
proof (cases "map_of bs k")
  case None
  then show ?thesis using sweep_only_removes [of now es bs k]
    by (cases "map_of (snd (sweep now es bs)) k") (auto simp: live_buckets_def)
next
  case (Some b)
  then show ?thesis
    using sweep_keeps_live [OF Some] sweep_removes_expired [OF assms(1) Some] assms(2)
    by (auto simp: live_buckets_def index_covers_def)
qed

lemma sweep_state_indexed:
  assumes "indexed s"
  shows "indexed (sweep_state now s)"
    and "map_of (st_buckets (sweep_state now s)) = live_buckets now (st_buckets s)"
    and "length (st_expirations (sweep_state now s)) \<le> length (st_expirations s)"
    and "st_order (sweep_state now s) = st_order s"
    and "length (st_buckets (sweep_state now s)) \<le> length (st_buckets s)"
    and "st_next_generation (sweep_state now s) = st_next_generation s"
proof -
  let ?es = "st_expirations s" and ?bs = "st_buckets s"
  have d: "distinct (map fst ?bs)" and so: "sorted ?es" and c: "index_covers ?bs ?es (st_order s)"
    using assms by (simp_all add: indexed_def)
  obtain es' bs' where sw: "sweep now ?es ?bs = (es', bs')" by fastforce
  have es': "es' = filter (\<lambda>(e, _). e > now) ?es" using sweep_expirations [OF so, of now ?bs] sw by simp
  have bs': "map_of bs' = live_buckets now ?bs" using sweep_live [OF so c, of now] sw by auto
  have d': "distinct (map fst bs')" using sweep_distinct [OF d, of now ?es] sw by simp
  have s': "sweep_state now s = s\<lparr>st_expirations := es', st_buckets := bs'\<rparr>"
    by (simp add: sweep_state_def sw)
  have "index_covers bs' es' (st_order s)"
    using c unfolding index_covers_def bs' es'
    by (auto simp: live_buckets_def split: option.splits if_splits)
  with d' so show "indexed (sweep_state now s)"
    by (simp add: s' indexed_def es' sorted_wrt_filter sorted_filter [of id, simplified])
  show "map_of (st_buckets (sweep_state now s)) = live_buckets now (st_buckets s)" by (simp add: s' bs')
  show "length (st_expirations (sweep_state now s)) \<le> length (st_expirations s)" by (simp add: s' es')
  show "st_order (sweep_state now s) = st_order s" "st_next_generation (sweep_state now s) = st_next_generation s"
    by (simp_all add: s')
  have "dom (map_of bs') \<subseteq> dom (map_of ?bs)"
    unfolding bs' by (auto simp: live_buckets_def split: option.splits if_splits)
  then have "card (dom (map_of bs')) \<le> card (dom (map_of ?bs))"
    by (intro card_mono) (simp_all add: finite_dom_map_of)
  then show "length (st_buckets (sweep_state now s)) \<le> length (st_buckets s)"
    by (simp add: s' length_distinct_keys [OF d] length_distinct_keys [OF d'])
qed

section \<open>Making room\<close>

definition order_covers :: "buckets \<Rightarrow> insertions \<Rightarrow> bool" where
  "order_covers bs q \<longleftrightarrow> (\<forall>k b. map_of bs k = Some b \<longrightarrow> (bk_generation b, k) \<in> set q)"

lemma evict_removes_one:
  "order_covers bs q \<Longrightarrow> map_of bs k0 \<noteq> None \<Longrightarrow>
   \<exists>k b. map_of bs k = Some b \<and> snd (evict q bs) = AList.delete k bs \<and>
     order_covers (AList.delete k bs) (fst (evict q bs)) \<and> length (fst (evict q bs)) \<le> length q"
proof (induction q bs rule: evict.induct)
  case (1 bs)
  then show ?case by (force simp: order_covers_def)
next
  case (2 g old q bs)
  show ?case
  proof (cases "map_of bs old")
    case None
    then have "order_covers bs q" using "2.prems"(1) by (force simp: order_covers_def)
    from "2.IH"(1) [OF None this "2.prems"(2)] None show ?thesis by auto
  next
    case (Some b)
    show ?thesis
    proof (cases "bk_generation b = g")
      case True
      have "order_covers (AList.delete old bs) q"
        using "2.prems"(1) by (auto simp: order_covers_def delete_conv' split: if_splits)
      with True Some show ?thesis by auto
    next
      case False
      then have "order_covers bs q" using "2.prems"(1) Some by (force simp: order_covers_def)
      from "2.IH"(2) [OF Some False this "2.prems"(2)] Some False show ?thesis by auto
    qed
  qed
qed

lemma make_room_spec:
  assumes i: "indexed s" and cap: "1 \<le> cap" "length (st_buckets s) \<le> cap"
  shows "indexed (make_room cap s)" and "length (st_buckets (make_room cap s)) < cap"
    and "st_expirations (make_room cap s) = st_expirations s"
    and "length (st_order (make_room cap s)) \<le> length (st_order s)"
    and "length (st_buckets s) < cap \<Longrightarrow> make_room cap s = s"
    and "map_of (st_buckets (make_room cap s)) k \<in> {None, map_of (st_buckets s) k}"
proof -
  have "indexed (make_room cap s) \<and> length (st_buckets (make_room cap s)) < cap \<and>
      st_expirations (make_room cap s) = st_expirations s \<and>
      length (st_order (make_room cap s)) \<le> length (st_order s) \<and>
      map_of (st_buckets (make_room cap s)) k \<in> {None, map_of (st_buckets s) k}"
  proof (cases "length (st_buckets s) < cap")
    case True
    with i show ?thesis by (simp add: make_room_def)
  next
    case False
    with cap have "st_buckets s \<noteq> []" by auto
    then obtain k0 b0 where "map_of (st_buckets s) k0 = Some b0"
      by (metis list.exhaust map_of_Cons_code(2) surj_pair)
    moreover have "order_covers (st_buckets s) (st_order s)"
      using i by (auto simp: indexed_def index_covers_def order_covers_def)
    ultimately obtain k1 b1 where k1: "map_of (st_buckets s) k1 = Some b1"
      "snd (evict (st_order s) (st_buckets s)) = AList.delete k1 (st_buckets s)"
      "order_covers (AList.delete k1 (st_buckets s)) (fst (evict (st_order s) (st_buckets s)))"
      "length (fst (evict (st_order s) (st_buckets s))) \<le> length (st_order s)"
      using evict_removes_one [of "st_buckets s" "st_order s" k0] by auto
    obtain q' where q': "evict (st_order s) (st_buckets s) = (q', AList.delete k1 (st_buckets s))"
      "fst (evict (st_order s) (st_buckets s)) = q'"
      using k1(2) by (cases "evict (st_order s) (st_buckets s)") simp
    have mr: "make_room cap s = s\<lparr>st_order := q', st_buckets := AList.delete k1 (st_buckets s)\<rparr>"
      using False by (simp add: make_room_def q'(1))
    have "index_covers (AList.delete k1 (st_buckets s)) (st_expirations s) q'"
      using i k1(3) q'(2) by (auto simp: indexed_def index_covers_def order_covers_def delete_conv' split: if_splits)
    moreover have "length (AList.delete k1 (st_buckets s)) < cap"
      using length_delete_less [of "st_buckets s" k1, OF _ domI, OF _ k1(1)] i cap(2)
      by (simp add: indexed_def)
    ultimately show ?thesis
      using i k1(4) q'(2) by (simp add: mr indexed_def distinct_delete delete_conv')
  qed
  then show "indexed (make_room cap s)" "length (st_buckets (make_room cap s)) < cap"
    "st_expirations (make_room cap s) = st_expirations s"
    "length (st_order (make_room cap s)) \<le> length (st_order s)"
    "map_of (st_buckets (make_room cap s)) k \<in> {None, map_of (st_buckets s) k}" by blast+
  show "make_room cap s = s" if "length (st_buckets s) < cap" using that by (simp add: make_room_def)
qed

section \<open>Inserting, compacting, counting\<close>

lemma update_new_key: "k \<notin> fst ` set al \<Longrightarrow> AList.update k v al = al @ [(k, v)]"
  by (induction al) auto

lemma insert_bucket_spec:
  assumes i: "indexed s" and new: "map_of (st_buckets s) key = None"
  shows "indexed (insert_bucket key e s)"
    and "length (st_buckets (insert_bucket key e s)) = Suc (length (st_buckets s))"
    and "length (st_expirations (insert_bucket key e s)) = Suc (length (st_expirations s))"
    and "length (st_order (insert_bucket key e s)) = Suc (length (st_order s))"
    and "\<exists>g. map_of (st_buckets (insert_bucket key e s)) =
      (map_of (st_buckets s))(key \<mapsto> \<lparr>bk_count = 0, bk_expires = e, bk_generation = g\<rparr>)"
proof -
  have up: "AList.update key b (st_buckets s) = st_buckets s @ [(key, b)]" for b
    using new by (simp add: update_new_key map_of_eq_None_iff)
  show "length (st_buckets (insert_bucket key e s)) = Suc (length (st_buckets s))"
    by (simp add: insert_bucket_def Let_def up)
  show "indexed (insert_bucket key e s)"
    using i unfolding indexed_def insert_bucket_def Let_def
    by (auto simp: distinct_update index_covers_def update_conv' sorted_insort set_insort_key split: if_splits)
  show "length (st_expirations (insert_bucket key e s)) = Suc (length (st_expirations s))"
    "length (st_order (insert_bucket key e s)) = Suc (length (st_order s))"
    by (simp_all add: insert_bucket_def Let_def)
  show "\<exists>g. map_of (st_buckets (insert_bucket key e s)) =
      (map_of (st_buckets s))(key \<mapsto> \<lparr>bk_count = 0, bk_expires = e, bk_generation = g\<rparr>)"
    by (auto simp: insert_bucket_def Let_def update_conv')
qed

definition compact :: "nat \<Rightarrow> memory_state \<Rightarrow> memory_state" where
  "compact cap s = compact_order cap (compact_expirations cap s)"

lemma compact_spec:
  assumes i: "indexed s" and b: "length (st_buckets s) \<le> cap" and cap: "cap \<le> usize_max"
  shows "indexed (compact cap s)" "bounded cap (compact cap s)" "st_buckets (compact cap s) = st_buckets s"
proof -
  have le: "length (st_buckets s) \<le> saturating_mul cap 2"
    using b cap by (simp add: saturating_mul_def)
  have e: "indexed (compact_expirations cap s)"
    using i by (force simp: indexed_def compact_expirations_def index_covers_def dest: map_of_SomeD)
  have bs: "st_buckets (compact_expirations cap s) = st_buckets s"
    by (simp add: compact_expirations_def)
  have el: "length (st_expirations (compact_expirations cap s)) \<le> saturating_mul cap 2"
    using le by (simp add: compact_expirations_def)
  show "indexed (compact cap s)"
    using e by (force simp: indexed_def compact_def compact_order_def index_covers_def dest: map_of_SomeD)
  show "st_buckets (compact cap s) = st_buckets s"
    by (simp add: compact_def compact_order_def bs)
  show "bounded cap (compact cap s)"
    using le el b by (simp add: bounded_def compact_def compact_order_def bs)
qed

lemma bump_spec:
  assumes i: "indexed s" and b: "map_of (st_buckets s) key = Some b"
  obtains s' where
    "bump now key s = Some (\<lparr>tr_count = saturating_add (bk_count b) 1, tr_retry_after = bk_expires b - now\<rparr>, s')"
    "indexed s'" "length (st_buckets s') = length (st_buckets s)" "st_expirations s' = st_expirations s"
    "st_order s' = st_order s"
    "map_of (st_buckets s') = (map_of (st_buckets s))(key \<mapsto> b\<lparr>bk_count := saturating_add (bk_count b) 1\<rparr>)"
proof -
  let ?b = "b\<lparr>bk_count := saturating_add (bk_count b) 1\<rparr>"
  let ?s = "s\<lparr>st_buckets := AList.update key ?b (st_buckets s)\<rparr>"
  have "distinct (map fst (AList.update key ?b (st_buckets s)))"
    using i by (simp add: indexed_def distinct_update)
  moreover have "dom (map_of (AList.update key ?b (st_buckets s))) = dom (map_of (st_buckets s))"
    using b by (auto simp: update_conv')
  ultimately have "length (AList.update key ?b (st_buckets s)) = length (st_buckets s)"
    using i by (simp add: length_distinct_keys indexed_def)
  moreover have "indexed ?s"
    using i b by (auto simp: indexed_def distinct_update index_covers_def update_conv' split: if_splits)
  ultimately show thesis
    by (intro that [of ?s]) (simp_all add: bump_def b Let_def update_conv')
qed

section \<open>One increment\<close>

abbreviation live_at :: "memory_store \<Rightarrow> nat \<Rightarrow> str \<Rightarrow> memory_bucket option" where
  "live_at st now \<equiv> live_buckets now (st_buckets (ms_state st))"

lemma increment_existing:
  assumes ok: "store_ok st" and b: "live_at st now key = Some b"
  obtains st' where
    "memory_increment clock_max now key window st =
       Some (Inr \<lparr>tr_count = saturating_add (bk_count b) 1, tr_retry_after = bk_expires b - now\<rparr>, st')"
    "store_ok st'" "ms_capacity st' = ms_capacity st"
    "map_of (st_buckets (ms_state st')) = (live_at st now)(key \<mapsto> b\<lparr>bk_count := saturating_add (bk_count b) 1\<rparr>)"
proof -
  let ?s = "ms_state st" and ?cap = "ms_capacity st"
  let ?s1 = "sweep_state now ?s"
  have i: "indexed ?s" and bd: "bounded ?cap ?s" and cap: "1 \<le> ?cap" "?cap \<le> usize_max"
    using ok by (simp_all add: store_ok_def)
  note sw = sweep_state_indexed [OF i, of now]
  have len: "length (st_buckets ?s1) \<le> ?cap" using sw(5) bd by (simp add: bounded_def)
  note c = compact_spec [OF sw(1) len cap(2)]
  have k: "map_of (st_buckets (compact ?cap ?s1)) key = Some b" using sw(2) b c(3) by simp
  from bump_spec [OF c(1) k, of now] obtain s' where s':
    "bump now key (compact ?cap ?s1) =
       Some (\<lparr>tr_count = saturating_add (bk_count b) 1, tr_retry_after = bk_expires b - now\<rparr>, s')"
    "indexed s'" "length (st_buckets s') = length (st_buckets (compact ?cap ?s1))"
    "st_expirations s' = st_expirations (compact ?cap ?s1)" "st_order s' = st_order (compact ?cap ?s1)"
    "map_of (st_buckets s') = (map_of (st_buckets (compact ?cap ?s1)))
       (key \<mapsto> b\<lparr>bk_count := saturating_add (bk_count b) 1\<rparr>)" by blast
  show thesis
  proof (rule that [of "st\<lparr>ms_state := s'\<rparr>"])
    show "memory_increment clock_max now key window st =
       Some (Inr \<lparr>tr_count = saturating_add (bk_count b) 1, tr_retry_after = bk_expires b - now\<rparr>,
         st\<lparr>ms_state := s'\<rparr>)"
      using s'(1) sw(2) b by (simp add: memory_increment_def Let_def compact_def)
    show "store_ok (st\<lparr>ms_state := s'\<rparr>)"
      using s' c cap by (simp add: store_ok_def bounded_def)
  qed (use s'(6) c(3) sw(2) in simp_all)
qed

lemma increment_new:
  assumes ok: "store_ok st" and b: "live_at st now key = None" and t: "now + window \<le> clock_max"
  obtains st' g where
    "memory_increment clock_max now key window st =
       Some (Inr \<lparr>tr_count = 1, tr_retry_after = window\<rparr>, st')"
    "store_ok st'" "ms_capacity st' = ms_capacity st"
    "map_of (st_buckets (ms_state st')) key =
       Some \<lparr>bk_count = 1, bk_expires = now + window, bk_generation = g\<rparr>"
    "\<And>k. k \<noteq> key \<Longrightarrow> map_of (st_buckets (ms_state st')) k \<in> {None, live_at st now k}"
    "\<And>k. k \<noteq> key \<Longrightarrow> card (dom (live_at st now)) < ms_capacity st \<Longrightarrow>
       map_of (st_buckets (ms_state st')) k = live_at st now k"
proof -
  let ?s = "ms_state st" and ?cap = "ms_capacity st"
  let ?s1 = "sweep_state now ?s"
  let ?s2 = "make_room ?cap ?s1"
  let ?s3 = "insert_bucket key (now + window) ?s2"
  have i: "indexed ?s" and bd: "bounded ?cap ?s" and cap: "1 \<le> ?cap" "?cap \<le> usize_max"
    using ok by (simp_all add: store_ok_def)
  note sw = sweep_state_indexed [OF i, of now]
  have len: "length (st_buckets ?s1) \<le> ?cap" using sw(5) bd by (simp add: bounded_def)
  note mr = make_room_spec [OF sw(1) cap(1) len]
  have new: "map_of (st_buckets ?s2) key = None" using mr(6) [of key] sw(2) b by auto
  note ib = insert_bucket_spec [OF mr(1) new, of "now + window"]
  from ib(5) obtain g where g: "map_of (st_buckets ?s3) =
      (map_of (st_buckets ?s2))(key \<mapsto> \<lparr>bk_count = 0, bk_expires = now + window, bk_generation = g\<rparr>)" by blast
  have len3: "length (st_buckets ?s3) \<le> ?cap" using ib(2) mr(2) by simp
  note c = compact_spec [OF ib(1) len3 cap(2)]
  have k: "map_of (st_buckets (compact ?cap ?s3)) key =
      Some \<lparr>bk_count = 0, bk_expires = now + window, bk_generation = g\<rparr>" using g c(3) by simp
  have one: "saturating_add 0 1 = 1" by (simp add: saturating_add_def)
  let ?b0 = "\<lparr>bk_count = 0, bk_expires = now + window, bk_generation = g\<rparr>"
  from bump_spec [OF c(1) k, of now] obtain s' where raw:
    "bump now key (compact ?cap ?s3) =
       Some (\<lparr>tr_count = saturating_add (bk_count ?b0) 1, tr_retry_after = bk_expires ?b0 - now\<rparr>, s')"
    "indexed s'" "length (st_buckets s') = length (st_buckets (compact ?cap ?s3))"
    "st_expirations s' = st_expirations (compact ?cap ?s3)" "st_order s' = st_order (compact ?cap ?s3)"
    "map_of (st_buckets s') = (map_of (st_buckets (compact ?cap ?s3)))
       (key \<mapsto> ?b0\<lparr>bk_count := saturating_add (bk_count ?b0) 1\<rparr>)" by blast
  note s' = raw [simplified one memory_bucket.simps, simplified]
  have other: "map_of (st_buckets s') k = map_of (st_buckets ?s2) k" if "k \<noteq> key" for k
    using s'(6) c(3) g that by simp
  have card: "length (st_buckets ?s1) = card (dom (live_at st now))"
    using sw(1,2) by (simp add: length_distinct_keys indexed_def)
  show thesis
  proof (rule that [of "st\<lparr>ms_state := s'\<rparr>" g])
    show "memory_increment clock_max now key window st =
       Some (Inr \<lparr>tr_count = 1, tr_retry_after = window\<rparr>, st\<lparr>ms_state := s'\<rparr>)"
      using s'(1) sw(2) b t by (simp add: memory_increment_def Let_def compact_def checked_add_instant_def)
    show "store_ok (st\<lparr>ms_state := s'\<rparr>)"
      using s' c cap by (simp add: store_ok_def bounded_def)
    show "map_of (st_buckets (ms_state (st\<lparr>ms_state := s'\<rparr>))) k \<in> {None, live_at st now k}" if "k \<noteq> key" for k
      using other [OF that] mr(6) [of k] sw(2) by simp
    show "map_of (st_buckets (ms_state (st\<lparr>ms_state := s'\<rparr>))) k = live_at st now k"
      if "k \<noteq> key" "card (dom (live_at st now)) < ms_capacity st" for k
      using other [OF that(1)] mr(5) that(2) card sw(2) by simp
  qed (use s'(6) in simp_all)
qed

lemma increment_error:
  assumes ok: "store_ok st" and b: "live_at st now key = None" and t: "\<not> now + window \<le> clock_max"
  obtains st' where
    "memory_increment clock_max now key window st =
       Some (Inl (startup_error ''throttle window exceeds the clock range''), st')"
    "store_ok st'" "ms_capacity st' = ms_capacity st" "map_of (st_buckets (ms_state st')) = live_at st now"
proof -
  have i: "indexed (ms_state st)" and bd: "bounded (ms_capacity st) (ms_state st)"
    using ok by (simp_all add: store_ok_def)
  note sw = sweep_state_indexed [OF i, of now]
  show thesis
    by (rule that [of "st\<lparr>ms_state := sweep_state now (ms_state st)\<rparr>"])
      (use sw b t ok bd in \<open>auto simp: memory_increment_def Let_def checked_add_instant_def store_ok_def bounded_def\<close>)
qed

text \<open>C29: whatever sequence of attempts is made, at whatever times, an increment never panics, and
  keeps the store within its capacity and both indexes within twice the capacity.\<close>

theorem memory_store_bounded:
  assumes "store_ok st"
  shows "\<exists>r st'. memory_increment clock_max now key window st = Some (r, st') \<and> store_ok st' \<and>
    length (st_buckets (ms_state st')) \<le> ms_capacity st \<and>
    length (st_expirations (ms_state st')) \<le> 2 * ms_capacity st \<and>
    length (st_order (ms_state st')) \<le> 2 * ms_capacity st"
proof -
  have "\<exists>r st'. memory_increment clock_max now key window st = Some (r, st') \<and> store_ok st' \<and>
      ms_capacity st' = ms_capacity st"
  proof (cases "live_at st now key")
    case (Some b)
    show ?thesis by (rule increment_existing [OF assms Some]) blast
  next
    case None
    show ?thesis
    proof (cases "now + window \<le> clock_max")
      case True
      show ?thesis by (rule increment_new [OF assms None True]) blast
    next
      case False
      show ?thesis by (rule increment_error [OF assms None False]) blast
    qed
  qed
  then show ?thesis by (auto simp: store_ok_def bounded_def saturating_mul_def)
qed

theorem memory_store_bounded_witness:
  "\<exists>r st'. memory_increment 100 3 ''k'' 10 (MemoryThrottleStore_with_capacity 1) = Some (r, st') \<and>
    length (st_buckets (ms_state st')) \<le> 1"
  using memory_store_bounded [OF store_ok_with_capacity [of 1], of 100 3 "''k''" 10]
  by (auto simp: MemoryThrottleStore_with_capacity_def)

end
