(* ===== verification/Throttling.thy ===== *)
theory Throttling
  imports ThrottleStore
begin

text \<open>
  The contract of a throttle store (the trait \<open>ThrottleStore\<close>) as a locale, what a client of the
  contract can rely on, its interpretation by the in-memory store, and the check and the client
  tracker of \<open>crates/caelix-core/src/throttle.rs\<close> on top of it.
\<close>

section \<open>The check\<close>

record throttle_options =
  to_policy :: throttle_policy
  to_retry_after_header :: bool

definition ThrottleOptions_default :: throttle_options where
  "ThrottleOptions_default =
     \<lparr>to_policy = ThrottlePolicy_new 60 60, to_retry_after_header = True\<rparr>"

definition with_retry_after_header :: "throttle_options \<Rightarrow> bool \<Rightarrow> throttle_options" where
  "with_retry_after_header opts enabled = opts\<lparr>to_retry_after_header := enabled\<rparr>"

definition Throttle_new :: "nat \<Rightarrow> nat \<Rightarrow> throttle_options \<Rightarrow> throttle_options result" where
  "Throttle_new clock_max now opts =
     bind_result (validate_policy clock_max now (to_policy opts)) (\<lambda>_. Inr opts)"

definition throttle_key :: "str \<Rightarrow> str \<Rightarrow> str \<Rightarrow> str" where
  "throttle_key client method route =
     show_nat (length client) @ '':'' @ client @ show_nat (length method) @ '':'' @ method @
     show_nat (length route) @ '':'' @ route"

definition retry_after_seconds :: "nat \<Rightarrow> nat" where
  "retry_after_seconds d =
     max 1 (d div 1000000000 + (if d mod 1000000000 > 0 then 1 else 0))"

definition reject_response ::
    "(error_body \<Rightarrow> bytes option) \<Rightarrow> throttle_options \<Rightarrow> nat \<Rightarrow> http_response" where
  "reject_response to_vec opts retry_after =
     (let response = exception_into_response to_vec (TooManyRequestsException ''Rate limit exceeded'')
      in if to_retry_after_header opts
         then insert_header response ''Retry-After'' (show_nat (retry_after_seconds retry_after))
         else response)"

text \<open>
  The clock is read once to validate the policy (\<open>now0\<close>) and once by the store (\<open>now\<close>); the tracker
  and the store are the configured ones. \<open>None\<close> is a panic of the store.
\<close>

definition throttle_check ::
    "(error_body \<Rightarrow> bytes option) \<Rightarrow>
     (nat \<Rightarrow> str \<Rightarrow> nat \<Rightarrow> 's \<Rightarrow> (throttle_store_record result \<times> 's) option) \<Rightarrow> ('c \<Rightarrow> str result) \<Rightarrow>
     nat \<Rightarrow> throttle_options \<Rightarrow> nat \<times> nat \<Rightarrow> 'c \<Rightarrow> str \<Rightarrow> str \<Rightarrow> throttle_policy \<Rightarrow> 's \<Rightarrow>
     (http_response option result \<times> 's) option" where
  "throttle_check to_vec incr track clock_max opts clocks ctx method route policy s =
     (let (now0, now) = clocks in
      case validate_policy clock_max now0 policy of
        Inl e \<Rightarrow> Some (Inl e, s)
      | Inr _ \<Rightarrow>
          (case track ctx of
             Inl e \<Rightarrow> Some (Inl e, s)
           | Inr client \<Rightarrow>
               (case incr now (throttle_key client method route) (tp_window policy) s of
                  None \<Rightarrow> None
                | Some (Inl e, s') \<Rightarrow> Some (Inl e, s')
                | Some (Inr r, s') \<Rightarrow>
                    if tr_count r \<le> tp_limit policy then Some (Inr None, s')
                    else Some (Inr (Some (reject_response to_vec opts (tr_retry_after r))), s'))))"

section \<open>Client addresses\<close>

text \<open>
  \<open>to_string\<close> and \<open>parse\<close> print and parse an IP address, \<open>contains\<close> tests membership in a network;
  the context gives the peer address and the forwarding header.
\<close>

record 'ip tracked_request =
  rq_peer :: "'ip option"
  rq_forwarded_for :: "str option"

definition other_error :: "str \<Rightarrow> http_exception" where
  "other_error text = InternalServerErrorException (OtherError text)"

definition with_trusted_proxies ::
    "(str \<Rightarrow> str + 'net) \<Rightarrow> str list \<Rightarrow> 'net list result" where
  "with_trusted_proxies parse_net proxies =
     try_map (\<lambda>value. case parse_net value of
        Inl err \<Rightarrow> Inl (startup_error (''invalid trusted proxy '' @ [CHR 0x27] @ value @ [CHR 0x27] @
                     '': '' @ err))
      | Inr net \<Rightarrow> Inr net) proxies"

definition trusted :: "('net \<Rightarrow> 'ip \<Rightarrow> bool) \<Rightarrow> 'net list \<Rightarrow> 'ip \<Rightarrow> bool" where
  "trusted contains proxies address = list_ex (\<lambda>network. contains network address) proxies"

definition track_ip ::
    "('ip \<Rightarrow> str) \<Rightarrow> (str \<Rightarrow> 'ip option) \<Rightarrow> ('net \<Rightarrow> 'ip \<Rightarrow> bool) \<Rightarrow> 'net list \<Rightarrow> 'ip tracked_request \<Rightarrow>
     str result" where
  "track_ip to_string parse contains proxies ctx =
     (case rq_peer ctx of
        None \<Rightarrow> Inl (other_error ''request peer address is unavailable'')
      | Some peer \<Rightarrow>
          if \<not> trusted contains proxies peer then Inr (to_string peer)
          else
            (case rq_forwarded_for ctx of
               None \<Rightarrow> Inr (to_string peer)
             | Some forwarded \<Rightarrow>
                 (case those (map (\<lambda>value. parse (trim value)) (split_on CHR '','' forwarded)) of
                    None \<Rightarrow> Inl (other_error ''malformed X-Forwarded-For header'')
                  | Some chain \<Rightarrow>
                      if chain = [] then Inl (other_error ''malformed X-Forwarded-For header'')
                      else Inr (to_string
                        (case find (\<lambda>address. \<not> trusted contains proxies address) (rev chain) of
                           Some address \<Rightarrow> address | None \<Rightarrow> peer)))))"

lemma find_first: "\<forall>x\<in>set xs. \<not> P x \<Longrightarrow> P y \<Longrightarrow> find P (xs @ y # zs) = Some y"
  by (induction xs) auto

text \<open>The address of a peer that is not a trusted proxy is its own, whatever header it sends; behind
  trusted proxies it is the address nearest to the server that is not itself a trusted proxy.\<close>

theorem tracker_trusts_only_proxies:
  assumes "rq_peer ctx = Some peer"
  shows "if \<not> trusted contains proxies peer
         then track_ip to_string parse contains proxies ctx = Inr (to_string peer)
         else (\<forall>forwarded chain before client after.
           rq_forwarded_for ctx = Some forwarded \<and>
           those (map (\<lambda>value. parse (trim value)) (split_on CHR '','' forwarded)) = Some chain \<and>
           chain = before @ client # after \<and> \<not> trusted contains proxies client \<and>
           (\<forall>a\<in>set after. trusted contains proxies a) \<longrightarrow>
           track_ip to_string parse contains proxies ctx = Inr (to_string client))"
proof -
  have find_last: "find (\<lambda>a. \<not> trusted contains proxies a) (rev after @ client # rev before) = Some client"
    if "\<not> trusted contains proxies client" "\<forall>a\<in>set after. trusted contains proxies a" for before client after
    using that by (simp add: find_first)
  show ?thesis
    using assms by (auto simp: track_ip_def find_last)
qed

theorem tracker_trusts_only_proxies_witness:
  "track_ip (\<lambda>n. show_nat n) (\<lambda>s. if s = [] then None else Some (length s)) (\<lambda>net a. a = net) [1, 3]
     \<lparr>rq_peer = Some 3, rq_forwarded_for = Some ''aaaaa, aa, a''\<rparr> = Inr (show_nat 2)"
proof -
  let ?parse = "\<lambda>s :: str. if s = [] then None else Some (length s)"
  let ?c = "\<lparr>rq_peer = Some (3 :: nat), rq_forwarded_for = Some ''aaaaa, aa, a''\<rparr>"
  have p: "rq_peer ?c = Some 3" by simp
  have chain: "those (map (\<lambda>value. ?parse (trim value)) (split_on CHR '','' ''aaaaa, aa, a'')) =
      Some ([5] @ 2 # [1])"
    by (simp add: trim_def trim_start_def trim_end_def leading_ws_def ws_encodings_def)
  let ?in = "\<lambda>net a. a = (net :: nat)"
  have t: "\<not> \<not> trusted ?in [1, 3] 3" "\<forall>a\<in>set [1]. trusted ?in [1, 3] a" "\<not> trusted ?in [1, 3] 2"
    by (simp_all add: trusted_def)
  note T = tracker_trusts_only_proxies [OF p, of ?in "[1, 3]" "\<lambda>n. show_nat n" ?parse, unfolded if_not_P [OF t(1)]]
  show ?thesis
    by (rule T [THEN spec, THEN spec, THEN spec, THEN spec, THEN spec, THEN mp,
          of "''aaaaa, aa, a''" "[5] @ 2 # [1]" "[5]" 2 "[1]"])
      (use chain t in simp)
qed

section \<open>Keys\<close>

lemma show_nat_digits: "c \<in> set (show_nat n) \<Longrightarrow> c \<noteq> CHR '':''"
proof (induction n rule: show_nat.induct)
  case (1 n)
  have d: "char_of (48 + k) \<noteq> CHR '':''" if "k < 10" for k :: nat
  proof
    assume "char_of (48 + k) = CHR '':''"
    then have "of_char (char_of (48 + k) :: char) = (of_char CHR '':'' :: nat)" by simp
    with that show False by simp
  qed
  from "1.prems" have "c \<in> set (if n < 10 then [char_of (48 + n)]
      else show_nat (n div 10) @ [char_of (48 + n mod 10)])"
    by (simp only: show_nat.simps [of n])
  with "1.IH" d [of n] d [of "n mod 10"] show ?case by (auto split: if_splits)
qed

definition digits_value :: "str \<Rightarrow> nat" where
  "digits_value s = foldl (\<lambda>a c. a * 10 + (of_char c - 48)) 0 s"

lemma digits_value_show [simp]: "digits_value (show_nat n) = n"
proof (induction n rule: show_nat.induct)
  case (1 n)
  have "digits_value (if n < 10 then [char_of (48 + n)]
      else show_nat (n div 10) @ [char_of (48 + n mod 10)]) = n"
    using 1 by (auto simp: digits_value_def)
  then show ?case by (simp only: show_nat.simps [of n])
qed

lemma show_nat_inj: "show_nat m = show_nat n \<longleftrightarrow> m = n"
  by (metis digits_value_show)

lemma split_at_colon:
  "c \<notin> set a \<Longrightarrow> c \<notin> set b \<Longrightarrow> a @ c # s = b @ c # t \<longleftrightarrow> a = b \<and> s = t"
proof (induction a arbitrary: b)
  case Nil
  then show ?case by (cases b) auto
next
  case (Cons x a)
  then show ?case by (cases b) auto
qed

lemma colon_not_digit: "CHR '':'' \<notin> set (show_nat n)"
  using show_nat_digits by blast

lemma length_prefixed_inj:
  "show_nat (length a) @ '':'' @ a @ s = show_nat (length b) @ '':'' @ b @ t \<longleftrightarrow> a = b \<and> s = t"
  by (auto simp: split_at_colon [OF colon_not_digit colon_not_digit] show_nat_inj)

text \<open>The throttle key tells apart clients, methods and routes, whatever characters they contain.\<close>

theorem throttle_key_injective:
  "throttle_key c m r = throttle_key c' m' r' \<longleftrightarrow> c = c' \<and> m = m' \<and> r = r'"
  using length_prefixed_inj [of c _ c'] length_prefixed_inj [of m _ m'] length_prefixed_inj [of r "[]" r' "[]"]
  by (auto simp: throttle_key_def)

section \<open>The contract of a store\<close>

text \<open>
  An increment counts in the window that its key's first attempt opened; \<open>view s t k\<close> is the count
  and the end of the window of \<open>k\<close> at time \<open>t\<close>. A store may forget other keys only when it is full.
\<close>

locale fixed_window_store =
  fixes incr :: "nat \<Rightarrow> str \<Rightarrow> nat \<Rightarrow> 's \<Rightarrow> (throttle_store_record result \<times> 's) option"
    and view :: "'s \<Rightarrow> nat \<Rightarrow> str \<Rightarrow> (nat \<times> nat) option"
    and ok :: "'s \<Rightarrow> bool"
    and capacity :: "'s \<Rightarrow> nat"
    and clock_max :: nat
  assumes counts_on: "ok s \<Longrightarrow> view s now key = Some (n, e) \<Longrightarrow>
      \<exists>s'. incr now key w s =
          Some (Inr \<lparr>tr_count = saturating_add n 1, tr_retry_after = e - now\<rparr>, s') \<and>
        ok s' \<and> capacity s' = capacity s \<and>
        (\<forall>t k. now \<le> t \<longrightarrow> view s' t k =
          (if k = key then if t < e then Some (saturating_add n 1, e) else None else view s t k))"
    and opens_window: "ok s \<Longrightarrow> view s now key = None \<Longrightarrow> now + w \<le> clock_max \<Longrightarrow>
      \<exists>s'. incr now key w s = Some (Inr \<lparr>tr_count = 1, tr_retry_after = w\<rparr>, s') \<and>
        ok s' \<and> capacity s' = capacity s \<and>
        (\<forall>t. now \<le> t \<longrightarrow> view s' t key = (if t < now + w then Some (1, now + w) else None)) \<and>
        (card (dom (view s now)) < capacity s \<longrightarrow>
           (\<forall>t k. now \<le> t \<longrightarrow> k \<noteq> key \<longrightarrow> view s' t k = view s t k))"
    and finite_view: "ok s \<Longrightarrow> finite (dom (view s now))"

text \<open>The specification: an unbounded table of counters that never forgets.\<close>

type_synonym counters = "str \<Rightarrow> (nat \<times> nat) option"

definition count_attempt :: "nat \<Rightarrow> str \<Rightarrow> nat \<Rightarrow> counters \<Rightarrow> throttle_store_record \<times> counters" where
  "count_attempt now key w m =
     (case m key of
        Some (n, e) \<Rightarrow>
          if now < e
          then (\<lparr>tr_count = saturating_add n 1, tr_retry_after = e - now\<rparr>, m(key \<mapsto> (saturating_add n 1, e)))
          else (\<lparr>tr_count = 1, tr_retry_after = w\<rparr>, m(key \<mapsto> (1, now + w)))
      | None \<Rightarrow> (\<lparr>tr_count = 1, tr_retry_after = w\<rparr>, m(key \<mapsto> (1, now + w))))"

type_synonym attempt = "nat \<times> str \<times> nat"

fun count_all :: "attempt list \<Rightarrow> counters \<Rightarrow> throttle_store_record list \<times> counters" where
  "count_all [] m = ([], m)"
| "count_all ((now, key, w) # rest) m =
     (let (r, m') = count_attempt now key w m; (rs, m'') = count_all rest m' in (r # rs, m''))"

fun run_attempts ::
    "(nat \<Rightarrow> str \<Rightarrow> nat \<Rightarrow> 's \<Rightarrow> (throttle_store_record result \<times> 's) option) \<Rightarrow> attempt list \<Rightarrow> 's \<Rightarrow>
     (throttle_store_record result list \<times> 's) option" where
  "run_attempts incr [] s = Some ([], s)"
| "run_attempts incr ((now, key, w) # rest) s =
     (case incr now key w s of
        None \<Rightarrow> None
      | Some (r, s') \<Rightarrow>
          (case run_attempts incr rest s' of None \<Rightarrow> None | Some (rs, s'') \<Rightarrow> Some (r # rs, s'')))"

text \<open>The same request, checked again and again at the given clock readings.\<close>

fun run_checks ::
    "(nat \<times> nat \<Rightarrow> 's \<Rightarrow> (http_response option result \<times> 's) option) \<Rightarrow> (nat \<times> nat) list \<Rightarrow> 's \<Rightarrow>
     (http_response option result list \<times> 's) option" where
  "run_checks check [] s = Some ([], s)"
| "run_checks check (c # clocks) s =
     (case check c s of
        None \<Rightarrow> None
      | Some (r, s') \<Rightarrow>
          (case run_checks check clocks s' of None \<Rightarrow> None | Some (rs, s'') \<Rightarrow> Some (r # rs, s'')))"

context fixed_window_store
begin

definition represents :: "'s \<Rightarrow> counters \<Rightarrow> nat \<Rightarrow> bool" where
  "represents s m now \<longleftrightarrow> ok s \<and>
     (\<forall>t k. now \<le> t \<longrightarrow> view s t k =
        (case m k of Some (n, e) \<Rightarrow> if t < e then Some (n, e) else None | None \<Rightarrow> None))"

lemma represents_step:
  assumes r: "represents s m t0" and t: "t0 \<le> now" "now + w \<le> clock_max"
    and K: "finite K" "dom m \<subseteq> K" "key \<in> K" "card K \<le> capacity s"
  shows "\<exists>s'. incr now key w s = Some (Inr (fst (count_attempt now key w m)), s') \<and>
    represents s' (snd (count_attempt now key w m)) now \<and> capacity s' = capacity s"
proof -
  from r have ok: "ok s" and v: "\<And>t k. t0 \<le> t \<Longrightarrow> view s t k =
      (case m k of Some (n, e) \<Rightarrow> if t < e then Some (n, e) else None | None \<Rightarrow> None)"
    by (auto simp: represents_def)
  show ?thesis
  proof (cases "view s now key")
    case (Some p)
    obtain n e where p: "p = (n, e)" by (cases p)
    with Some v [OF t(1)] have m: "m key = Some (n, e)" "now < e"
      by (auto split: option.splits if_splits)
    from counts_on [OF ok Some [unfolded p], of w] obtain s' where
      s': "incr now key w s = Some (Inr \<lparr>tr_count = saturating_add n 1, tr_retry_after = e - now\<rparr>, s')"
        "ok s'" "capacity s' = capacity s"
        "\<forall>t k. now \<le> t \<longrightarrow> view s' t k =
          (if k = key then if t < e then Some (saturating_add n 1, e) else None else view s t k)" by blast
    from m have c: "count_attempt now key w m =
        (\<lparr>tr_count = saturating_add n 1, tr_retry_after = e - now\<rparr>, m(key \<mapsto> (saturating_add n 1, e)))"
      by (simp add: count_attempt_def)
    have "represents s' (m(key \<mapsto> (saturating_add n 1, e))) now"
      using s'(2,4) v t(1) by (auto simp: represents_def)
    with s' show ?thesis by (simp add: c)
  next
    case None
    then have c: "count_attempt now key w m =
        (\<lparr>tr_count = 1, tr_retry_after = w\<rparr>, m(key \<mapsto> (1, now + w)))"
      using v [OF t(1), of key] by (auto simp: count_attempt_def split: option.splits if_splits)
    have "dom (view s now) \<subseteq> dom m" using v [OF t(1)] by (auto split: option.splits if_splits)
    with None K(2,3) have "dom (view s now) \<subset> K" by blast
    with K(1,4) have room: "card (dom (view s now)) < capacity s"
      by (meson le_trans not_le psubset_card_mono)
    from opens_window [OF ok None t(2)] room obtain s' where
      s': "incr now key w s = Some (Inr \<lparr>tr_count = 1, tr_retry_after = w\<rparr>, s')"
        "ok s'" "capacity s' = capacity s"
        "\<forall>t. now \<le> t \<longrightarrow> view s' t key = (if t < now + w then Some (1, now + w) else None)"
        "\<forall>t k. now \<le> t \<longrightarrow> k \<noteq> key \<longrightarrow> view s' t k = view s t k" by blast
    have "represents s' (m(key \<mapsto> (1, now + w))) now"
      using s'(2,4,5) v t(1) by (auto simp: represents_def)
    with s' show ?thesis by (simp add: c)
  qed
qed

lemma refines_counters:
  assumes "represents s m t0" and "sorted (map fst attempts)" "\<forall>(now, key, w)\<in>set attempts. t0 \<le> now \<and> now + w \<le> clock_max"
    and "finite K" "dom m \<subseteq> K" "(fst \<circ> snd) ` set attempts \<subseteq> K" "card K \<le> capacity s"
  shows "\<exists>s'. run_attempts incr attempts s = Some (map Inr (fst (count_all attempts m)), s')"
  using assms
proof (induction attempts arbitrary: s m t0)
  case Nil
  then show ?case by simp
next
  case (Cons a attempts)
  obtain now key w where a: "a = (now, key, w)" by (cases a)
  from Cons.prems a have t: "t0 \<le> now" "now + w \<le> clock_max" and k: "key \<in> K" by auto
  from represents_step [OF Cons.prems(1) t Cons.prems(4,5) k Cons.prems(7)] obtain s' where
    s': "incr now key w s = Some (Inr (fst (count_attempt now key w m)), s')"
      "represents s' (snd (count_attempt now key w m)) now" "capacity s' = capacity s" by blast
  have later: "\<forall>(now', key', w')\<in>set attempts. now \<le> now' \<and> now' + w' \<le> clock_max"
    using Cons.prems(2,3) a by auto
  have "dom (snd (count_attempt now key w m)) \<subseteq> K"
    using Cons.prems(5) k by (auto simp: count_attempt_def split: option.splits if_splits)
  with Cons.IH [OF s'(2) _ later Cons.prems(4)] Cons.prems(2,6,7) a s'(3) obtain s'' where
    "run_attempts incr attempts s' =
       Some (map Inr (fst (count_all attempts (snd (count_attempt now key w m)))), s'')" by auto
  with s'(1) a show ?case by (simp add: case_prod_beta Let_def)
qed

lemma later_checks:
  assumes "ok s" and "\<forall>t\<ge>t0. view s t key = (if t < e then Some (min u64_max n, e) else None)"
    and "sorted (map snd clocks)" "\<forall>(now0, now)\<in>set clocks. t0 \<le> now \<and> now < e \<and> now0 + tp_window policy \<le> clock_max"
    and pol: "0 < tp_limit policy" "tp_limit policy < u64_max" "0 < tp_window policy"
    and client: "track ctx = Inr client" and key: "key = throttle_key client method route"
  shows "\<exists>s'. run_checks (\<lambda>c. throttle_check to_vec incr track clock_max opts c ctx method route policy) clocks s =
    Some (map (\<lambda>(i, now0, now). Inr (if n + i < tp_limit policy then None
            else Some (reject_response to_vec opts (e - now)))) (enumerate 0 clocks), s')"
  using assms(1-4)
proof (induction clocks arbitrary: s t0 n)
  case Nil
  then show ?case by simp
next
  case (Cons c clocks)
  obtain now0 now where c: "c = (now0, now)" by (cases c)
  with Cons.prems(4) have t: "t0 \<le> now" "now < e" "now0 + tp_window policy \<le> clock_max" by auto
  from Cons.prems(2) t have v: "view s now key = Some (min u64_max n, e)" by simp
  from counts_on [OF Cons.prems(1) v, of "tp_window policy"] obtain s' where
    s': "incr now key (tp_window policy) s =
        Some (Inr \<lparr>tr_count = saturating_add (min u64_max n) 1, tr_retry_after = e - now\<rparr>, s')" "ok s'"
      "\<forall>t k. now \<le> t \<longrightarrow> view s' t k = (if k = key then
          if t < e then Some (saturating_add (min u64_max n) 1, e) else None else view s t k)" by blast
  have sat: "saturating_add (min u64_max n) 1 = min u64_max (Suc n)" by (simp add: saturating_add_def)
  from s'(3) have v': "\<forall>t\<ge>now. view s' t key = (if t < e then Some (min u64_max (Suc n), e) else None)"
    unfolding sat [symmetric] by simp
  have "\<forall>(now0', now')\<in>set clocks. now \<le> now' \<and> now' < e \<and> now0' + tp_window policy \<le> clock_max"
    using Cons.prems(3,4) c by auto
  from Cons.IH [OF s'(2) v' _ this] Cons.prems(3) c obtain s'' where
    rest: "run_checks (\<lambda>c. throttle_check to_vec incr track clock_max opts c ctx method route policy) clocks s' =
      Some (map (\<lambda>(i, now0, now). Inr (if Suc n + i < tp_limit policy then None
            else Some (reject_response to_vec opts (e - now)))) (enumerate 0 clocks), s'')" by auto
  obtain cnt where cnt: "cnt = saturating_add (min u64_max n) 1" by simp
  have lim: "(cnt \<le> tp_limit policy) = (n < tp_limit policy)" unfolding cnt sat using pol(2) by auto
  have first: "throttle_check to_vec incr track clock_max opts c ctx method route policy s =
      Some (Inr (if n < tp_limit policy then None else Some (reject_response to_vec opts (e - now))), s')"
    using pol t(3) client key s'(1) unfolding cnt [symmetric]
    by (simp add: throttle_check_def c validate_policy_def checked_add_instant_def lim)
  have "enumerate 0 (c # clocks) = (0, c) # map (\<lambda>(i, x). (Suc i, x)) (enumerate 0 clocks)"
    by (auto simp: enumerate_Suc_eq)
  then show ?case using first rest by (simp add: c case_prod_beta comp_def)
qed

lemma limit_enforced:
  assumes "ok s" and new: "\<And>t. view s t key = None"
    and "sorted (map snd clocks)" "\<forall>(now0, now)\<in>set clocks. now < snd (hd clocks) + tp_window policy \<and>
      now0 + tp_window policy \<le> clock_max \<and> now + tp_window policy \<le> clock_max"
    and pol: "0 < tp_limit policy" "tp_limit policy < u64_max" "0 < tp_window policy"
    and client: "track ctx = Inr client" and key: "key = throttle_key client method route"
  shows "\<exists>s'. run_checks (\<lambda>c. throttle_check to_vec incr track clock_max opts c ctx method route policy) clocks s =
    Some (map (\<lambda>(i, now0, now). Inr (if i < tp_limit policy then None
            else Some (reject_response to_vec opts (snd (hd clocks) + tp_window policy - now)))) (enumerate 0 clocks), s')"
proof (cases clocks)
  case Nil
  then show ?thesis by simp
next
  case (Cons c rest)
  obtain now0 now where c: "c = (now0, now)" by (cases c)
  let ?e = "now + tp_window policy"
  from assms(4) Cons c have t: "now0 + tp_window policy \<le> clock_max" "?e \<le> clock_max" by auto
  from opens_window [OF assms(1) new t(2)] obtain s' where
    s': "incr now key (tp_window policy) s = Some (Inr \<lparr>tr_count = 1, tr_retry_after = tp_window policy\<rparr>, s')"
      "ok s'" "\<forall>t. now \<le> t \<longrightarrow> view s' t key = (if t < ?e then Some (1, ?e) else None)" by blast
  have v': "\<forall>t\<ge>now. view s' t key = (if t < ?e then Some (min u64_max 1, ?e) else None)" using s'(3) by simp
  have "\<forall>(now0', now')\<in>set rest. now \<le> now' \<and> now' < ?e \<and> now0' + tp_window policy \<le> clock_max"
    using assms(3,4) Cons c by auto
  moreover have "sorted (map snd rest)" using assms(3) Cons by simp
  ultimately obtain s'' where
    rest: "run_checks (\<lambda>c. throttle_check to_vec incr track clock_max opts c ctx method route policy) rest s' =
      Some (map (\<lambda>(i, now0, now). Inr (if 1 + i < tp_limit policy then None
            else Some (reject_response to_vec opts (?e - now)))) (enumerate 0 rest), s'')"
    using later_checks [where e = ?e and n = 1 and clocks = rest and track = track and ctx = ctx, OF s'(2) v' _ _ pol client key] by blast
  have first: "throttle_check to_vec incr track clock_max opts c ctx method route policy s = Some (Inr None, s')"
    using pol t(1) client key s'(1)
    by (simp add: throttle_check_def c validate_policy_def checked_add_instant_def)
  have "enumerate 0 (c # rest) = (0, c) # map (\<lambda>(i, x). (Suc i, x)) (enumerate 0 rest)"
    by (auto simp: enumerate_Suc_eq)
  then show ?thesis using first rest pol(1) by (simp add: Cons c case_prod_beta comp_def)
qed

end

section \<open>The in-memory store fulfils the contract\<close>

definition memory_view :: "memory_store \<Rightarrow> nat \<Rightarrow> str \<Rightarrow> (nat \<times> nat) option" where
  "memory_view st now k = map_option (\<lambda>b. (bk_count b, bk_expires b)) (live_at st now k)"

lemma live_buckets_later:
  "map_of bs' k = live_buckets now bs k \<Longrightarrow> now \<le> t \<Longrightarrow> live_buckets t bs' k = live_buckets t bs k"
  by (auto simp: live_buckets_def split: option.splits if_splits)

lemma dom_memory_view: "dom (memory_view st now) = dom (live_at st now)"
  by (auto simp: memory_view_def)

interpretation memory: fixed_window_store
  "memory_increment clock_max" memory_view store_ok ms_capacity clock_max for clock_max
proof (unfold_locales, goal_cases)
  case (1 s now key n e w)
  then obtain b where b: "live_at s now key = Some b" "n = bk_count b" "e = bk_expires b"
    by (auto simp: memory_view_def)
  show ?case
  proof (rule increment_existing [OF 1(1) b(1), of clock_max w], goal_cases)
    case (1 st')
    have "memory_view st' t k = (if k = key then if t < e then Some (saturating_add n 1, e) else None
        else memory_view s t k)" if "now \<le> t" for t k
    proof (cases "k = key")
      case True
      then show ?thesis using 1(4) b by (simp add: memory_view_def live_buckets_def)
    next
      case False
      then have "live_at st' t k = live_at s t k"
        using 1(4) that by (intro live_buckets_later) simp_all
      with False show ?thesis by (simp add: memory_view_def)
    qed
    with 1 b show ?case by auto
  qed
next
  case (2 s now key w)
  then have n: "live_at s now key = None" by (simp add: memory_view_def)
  show ?case
  proof (rule increment_new [OF 2(1) n 2(3)], goal_cases)
    case (1 st' g)
    have "memory_view st' t key = (if t < now + w then Some (1, now + w) else None)" for t
      using 1(4) by (simp add: memory_view_def live_buckets_def)
    moreover have "memory_view st' t k = memory_view s t k"
      if "card (dom (memory_view s now)) < ms_capacity s" "now \<le> t" "k \<noteq> key" for t k
    proof -
      have "live_at st' t k = live_at s t k"
        using 1(6) [OF that(3)] that(1,2) by (intro live_buckets_later) (simp_all add: dom_memory_view)
      then show ?thesis by (simp add: memory_view_def)
    qed
    ultimately show ?case using 1 by blast
  qed
next
  case (3 s now)
  have "dom (live_at s now) \<subseteq> dom (map_of (st_buckets (ms_state s)))"
    by (auto simp: live_buckets_def split: option.splits if_splits)
  then show ?case unfolding dom_memory_view using finite_dom_map_of finite_subset by blast
qed

lemma fresh_store:
  "cap \<le> usize_max \<Longrightarrow> store_ok (MemoryThrottleStore_with_capacity cap)"
  "memory_view (MemoryThrottleStore_with_capacity cap) t k = None"
  "ms_capacity (MemoryThrottleStore_with_capacity cap) = max cap 1"
  by (simp_all add: store_ok_with_capacity)
    (simp_all add: memory_view_def live_buckets_def MemoryThrottleStore_with_capacity_def memory_state_default_def)

text \<open>C28: on any sequence of attempts, at nondecreasing times and with no more distinct keys than its
  capacity, a new in-memory store answers exactly as a table of fixed-window counters that never
  forgets: neither expiry, nor eviction, nor the compaction of its indexes ever loses or mixes up a
  count.\<close>

theorem memory_store_counts_exactly:
  assumes "cap \<le> usize_max" and "sorted (map fst attempts)"
    and "\<forall>(now, key, w)\<in>set attempts. now + w \<le> clock_max"
    and "card ((fst \<circ> snd) ` set attempts) \<le> max cap 1"
  shows "\<exists>s'. run_attempts (memory_increment clock_max) attempts (MemoryThrottleStore_with_capacity cap) =
    Some (map Inr (fst (count_all attempts Map.empty)), s')"
proof (rule memory.refines_counters)
  show "memory.represents (MemoryThrottleStore_with_capacity cap) Map.empty 0"
    using assms(1) by (simp add: memory.represents_def fresh_store)
  show "\<forall>(now, key, w)\<in>set attempts. 0 \<le> now \<and> now + w \<le> clock_max" using assms(3) by auto
qed (use assms in \<open>simp_all add: fresh_store\<close>)

text \<open>C27: a client of a new in-memory store that repeats a request within the window its first attempt
  opened is accepted for exactly the limit of attempts, and every later attempt in the window is
  rejected, with the time that remains of the window to retry after.\<close>

theorem throttle_accepts_exactly_limit:
  assumes "cap \<le> usize_max" and "sorted (map snd clocks)"
    and "\<forall>(now0, now)\<in>set clocks. now < snd (hd clocks) + tp_window policy \<and>
      now0 + tp_window policy \<le> clock_max \<and> now + tp_window policy \<le> clock_max"
    and "0 < tp_limit policy" "tp_limit policy < u64_max" "0 < tp_window policy"
    and "track ctx = Inr client"
  shows "\<exists>s'. run_checks (\<lambda>c. throttle_check to_vec (memory_increment clock_max) track clock_max opts c
        ctx method route policy) clocks (MemoryThrottleStore_with_capacity cap) =
    Some (map (\<lambda>(i, now0, now). Inr (if i < tp_limit policy then None
            else Some (reject_response to_vec opts (snd (hd clocks) + tp_window policy - now))))
          (enumerate 0 clocks), s')"
  by (rule memory.limit_enforced [where track = track and ctx = ctx, OF _ _ assms(2-7) refl])
    (simp_all add: fresh_store assms(1))

theorem memory_store_counts_exactly_witness:
  "\<exists>s'. run_attempts (memory_increment 100) [(0, ''a'', 10), (1, ''b'', 10), (5, ''a'', 10), (12, ''a'', 10)]
      (MemoryThrottleStore_with_capacity 2) =
    Some ([Inr \<lparr>tr_count = 1, tr_retry_after = 10\<rparr>, Inr \<lparr>tr_count = 1, tr_retry_after = 10\<rparr>,
           Inr \<lparr>tr_count = 2, tr_retry_after = 5\<rparr>, Inr \<lparr>tr_count = 1, tr_retry_after = 10\<rparr>], s')"
  using memory_store_counts_exactly [of 2 "[(0, ''a'', 10), (1, ''b'', 10), (5, ''a'', 10), (12, ''a'', 10)]" 100]
  by (simp add: count_attempt_def saturating_add_def card_insert_if numeral_2_eq_2)

theorem throttle_accepts_exactly_limit_witness:
  "\<exists>s' responses. run_checks (\<lambda>c. throttle_check (\<lambda>b. Some (eb_message b)) (memory_increment 100)
        (\<lambda>ctx :: unit. Inr ''10.0.0.1'') 100 ThrottleOptions_default c () ''GET'' ''/'' \<lparr>tp_limit = 2, tp_window = 10\<rparr>)
      [(0, 0), (1, 1), (2, 2)] (MemoryThrottleStore_with_capacity 5) =
    Some ([Inr None, Inr None, Inr (Some responses)], s')"
  using throttle_accepts_exactly_limit [of 5 "[(0, 0), (1, 1), (2, 2)]" "\<lparr>tp_limit = 2, tp_window = 10\<rparr>" 100
      "\<lambda>ctx :: unit. Inr ''10.0.0.1''" "()" "''10.0.0.1''" "\<lambda>b. Some (eb_message b)" ThrottleOptions_default
      "''GET''" "''/''"]
  by (auto simp: enumerate_Suc_eq)

end
