(* ===== verification/Caching.thy ===== *)
theory Caching
  imports Exceptions
begin

text \<open>
  The cache, \<open>crates/caelix-core/src/cache.rs\<close>: the contract of a cache store (the trait
  \<open>CacheStore\<close>) as a locale, the typed cache on top of a store, and the in-memory store.

  Instants and durations are nanoseconds; \<open>clock_max\<close> is the last instant. The hash map is an
  association list; the order in which the source iterates it is unspecified and is the argument
  \<open>order\<close>. Each clock reading of the source is an argument: one for each entry that is checked
  when expired entries are removed, and one for the new entry. A value is a JSON value, whose
  serialized size \<open>value_size\<close> is an argument. The lock cannot be poisoned, as nothing panics while
  it is held.
\<close>

section \<open>Entries\<close>

record cache_entry =
  ce_value :: json
  ce_inserted_at :: nat
  ce_expires_at :: "nat option"

definition CacheEntry_new :: "nat \<Rightarrow> nat \<Rightarrow> json \<Rightarrow> nat option \<Rightarrow> cache_entry" where
  "CacheEntry_new clock_max now value ttl =
     \<lparr>ce_value = value, ce_inserted_at = now,
      ce_expires_at = (case ttl of None \<Rightarrow> None
                       | Some d \<Rightarrow> if now + d \<le> clock_max then Some (now + d) else None)\<rparr>"

definition entry_expired :: "nat \<Rightarrow> cache_entry \<Rightarrow> bool" where
  "entry_expired now e = (case ce_expires_at e of None \<Rightarrow> False | Some t \<Rightarrow> now \<ge> t)"

section \<open>The in-memory store\<close>

record cache_options =
  co_max_entries :: nat
  co_max_value_bytes :: nat
  co_default_ttl :: "nat option"

definition MemoryCacheOptions_default :: cache_options where
  "MemoryCacheOptions_default =
     \<lparr>co_max_entries = 1024, co_max_value_bytes = 1024 * 1024, co_default_ttl = None\<rparr>"

type_synonym entries = "(str \<times> cache_entry) list"

record cache_store =
  cs_options :: cache_options
  cs_entries :: entries

definition MemoryCacheStore_with_options :: "cache_options \<Rightarrow> cache_store" where
  "MemoryCacheStore_with_options opts = \<lparr>cs_options = opts, cs_entries = []\<rparr>"

definition MemoryCacheStore_new :: cache_store where
  "MemoryCacheStore_new = MemoryCacheStore_with_options MemoryCacheOptions_default"

definition store_len :: "cache_store \<Rightarrow> nat" where
  "store_len st = length (cs_entries st)"

definition remove_expired :: "(str \<Rightarrow> nat) \<Rightarrow> entries \<Rightarrow> entries" where
  "remove_expired clock es = filter (\<lambda>(k, e). \<not> entry_expired (clock k) e) es"

text \<open>\<open>min_by_key\<close> returns the first of several minimal elements.\<close>

fun oldest_key :: "entries \<Rightarrow> str option" where
  "oldest_key [] = None"
| "oldest_key ((k, e) # es) =
     (if \<forall>(k', e')\<in>set es. ce_inserted_at e \<le> ce_inserted_at e' then Some k else oldest_key es)"

lemma length_delete_lt: "k \<in> fst ` set es \<Longrightarrow> length (AList.delete k es) < length es"
  by (auto simp: AList.delete_eq intro!: length_filter_less)

text \<open>The key that is evicted comes from the entries, so each round removes one.\<close>

function evict_loop :: "(entries \<Rightarrow> entries) \<Rightarrow> nat \<Rightarrow> entries \<Rightarrow> entries" where
  "evict_loop order max_entries es =
     (if length es > max_entries then
        (case oldest_key (order es) of
           None \<Rightarrow> es
         | Some k \<Rightarrow> if k \<in> fst ` set es then evict_loop order max_entries (AList.delete k es) else es)
      else es)"
  by pat_completeness auto
termination
  by (relation "measure (\<lambda>(order, max_entries, es). length es)") (auto intro: length_delete_lt)

declare evict_loop.simps [simp del]

definition evict_to_capacity :: "(entries \<Rightarrow> entries) \<Rightarrow> nat \<Rightarrow> entries \<Rightarrow> entries" where
  "evict_to_capacity order max_entries es =
     (if max_entries = 0 then [] else evict_loop order max_entries es)"

definition cache_get :: "nat \<Rightarrow> str \<Rightarrow> cache_store \<Rightarrow> json option result \<times> cache_store" where
  "cache_get now key st =
     (case map_of (cs_entries st) key of
        None \<Rightarrow> (Inr None, st)
      | Some e \<Rightarrow>
          if entry_expired now e
          then (Inr None, st\<lparr>cs_entries := AList.delete key (cs_entries st)\<rparr>)
          else (Inr (Some (ce_value e)), st))"

text \<open>The clock readings of a set: one for each entry when expired entries are removed, one for the new entry.\<close>

definition cache_set ::
    "(json \<Rightarrow> any_error + nat) \<Rightarrow> (entries \<Rightarrow> entries) \<Rightarrow> nat \<Rightarrow> (str \<Rightarrow> nat) \<times> nat \<Rightarrow>
     str \<Rightarrow> json \<Rightarrow> nat option \<Rightarrow> cache_store \<Rightarrow> unit result \<times> cache_store" where
  "cache_set value_size order clock_max clocks key value ttl st =
     (case value_size value of
        Inl e \<Rightarrow> (Inl (InternalServerErrorException e), st)
      | Inr bytes \<Rightarrow>
          if bytes > co_max_value_bytes (cs_options st)
          then (Inl (PayloadTooLargeException (''cache value exceeds the configured limit of '' @
                  show_nat (co_max_value_bytes (cs_options st)) @ '' bytes'')), st)
          else
            (let ttl' = (case ttl of Some d \<Rightarrow> Some d | None \<Rightarrow> co_default_ttl (cs_options st));
                 es1 = remove_expired (fst clocks) (cs_entries st);
                 es2 = AList.update key (CacheEntry_new clock_max (snd clocks) value ttl') es1
             in (Inr (), st\<lparr>cs_entries := evict_to_capacity order (co_max_entries (cs_options st)) es2\<rparr>)))"

definition cache_delete :: "str \<Rightarrow> cache_store \<Rightarrow> unit result \<times> cache_store" where
  "cache_delete key st = (Inr (), st\<lparr>cs_entries := AList.delete key (cs_entries st)\<rparr>)"

definition cache_clear :: "cache_store \<Rightarrow> unit result \<times> cache_store" where
  "cache_clear st = (Inr (), st\<lparr>cs_entries := []\<rparr>)"

section \<open>Lemmas\<close>

definition permutes_entries :: "(entries \<Rightarrow> entries) \<Rightarrow> bool" where
  "permutes_entries order \<longleftrightarrow> (\<forall>es. mset (order es) = mset es)"

lemma permutes_set: "permutes_entries order \<Longrightarrow> set (order es) = set es"
  by (metis permutes_entries_def set_mset_mset)

lemma oldest_key_in: "oldest_key es = Some k \<Longrightarrow>
   \<exists>e. (k, e) \<in> set es \<and> (\<forall>(k', e')\<in>set es. ce_inserted_at e \<le> ce_inserted_at e')"
proof (induction es rule: oldest_key.induct)
  case 1
  then show ?case by simp
next
  case (2 k0 e0 es)
  show ?case
  proof (cases "\<forall>(k', e')\<in>set es. ce_inserted_at e0 \<le> ce_inserted_at e'")
    case True
    with 2 show ?thesis by auto
  next
    case False
    with 2 obtain e where e: "(k, e) \<in> set es" "\<forall>(k', e')\<in>set es. ce_inserted_at e \<le> ce_inserted_at e'"
      by auto
    from False obtain k' e' where "(k', e') \<in> set es" "ce_inserted_at e' < ce_inserted_at e0" by auto
    with e have "ce_inserted_at e \<le> ce_inserted_at e0" by fastforce
    with e show ?thesis by auto
  qed
qed

lemma oldest_key_Some: "es \<noteq> [] \<Longrightarrow> oldest_key es \<noteq> None"
proof (induction es rule: oldest_key.induct)
  case (2 k e es)
  then show ?case by (cases "es = []") auto
qed simp

text \<open>Eviction reaches the capacity, and each entry it removes is no younger than one that stays.\<close>

lemma evict_loop_spec:
  assumes "permutes_entries order" "distinct (map fst es)"
  shows "length (evict_loop order n es) \<le> n \<and> distinct (map fst (evict_loop order n es)) \<and>
    (\<forall>k. map_of (evict_loop order n es) k \<in> {None, map_of es k}) \<and>
    (\<forall>k e k' e'. map_of es k = Some e \<longrightarrow> map_of (evict_loop order n es) k = None \<longrightarrow>
       map_of (evict_loop order n es) k' = Some e' \<longrightarrow> ce_inserted_at e \<le> ce_inserted_at e') \<and>
    (length es \<le> n \<longrightarrow> evict_loop order n es = es)"
  using assms
proof (induction order n es rule: evict_loop.induct)
  case (1 order n es)
  show ?case
  proof (cases "length es > n")
    case False
    then show ?thesis using 1 by (simp add: evict_loop.simps)
  next
    case True
    then have "order es \<noteq> []" using permutes_set [OF "1.prems"(1), of es] by (metis length_greater_0_conv list.set(1) not_less_zero set_empty neq0_conv)
    then obtain k0 where k0: "oldest_key (order es) = Some k0" using oldest_key_Some by blast
    from oldest_key_in [OF this] permutes_set [OF "1.prems"(1), of es] obtain e0 where
      e0: "(k0, e0) \<in> set es" "\<forall>(k', e')\<in>set es. ce_inserted_at e0 \<le> ce_inserted_at e'" by auto
    from e0(1) have k0in: "k0 \<in> fst ` set es" by force
    let ?es = "AList.delete k0 es" and ?r = "evict_loop order n (AList.delete k0 es)"
    have step: "evict_loop order n es = ?r" using True k0 k0in by (subst evict_loop.simps) simp
    have e0m: "map_of es k0 = Some e0" using e0(1) "1.prems"(2) by simp
    note ih = "1.IH" [OF True k0 k0in "1.prems"(1) distinct_delete [OF "1.prems"(2)]]
    have old: "ce_inserted_at e \<le> ce_inserted_at e'"
      if "map_of es k = Some e" "map_of ?r k = None" "map_of ?r k' = Some e'" for k e k' e'
    proof (cases "k = k0")
      case True
      from ih that(3) have "map_of ?es k' = Some e'" by (metis insertE option.distinct(1) singletonD)
      then have "(k', e') \<in> set es" by (auto simp: delete_conv' dest!: map_of_SomeD split: if_splits)
      with e0(2) True that(1) e0m show ?thesis by auto
    next
      case False
      with that(1) have "map_of ?es k = Some e" by (simp add: delete_conv')
      with ih that(2,3) show ?thesis by blast
    qed
    have "map_of ?r k \<in> {None, map_of es k}" for k
    proof (cases "map_of ?r k")
      case (Some e)
      with ih have "map_of ?es k = Some e" by (metis insertE option.distinct(1) singletonD)
      with Some show ?thesis by (simp add: delete_conv' split: if_splits)
    qed simp
    moreover have "length ?r \<le> n" "distinct (map fst ?r)" using ih by blast+
    moreover have "\<not> length es \<le> n" using True by simp
    ultimately show ?thesis unfolding step using old by blast
  qed
qed

section \<open>The typed cache\<close>

text \<open>
  \<open>Cache\<close> holds a store behind the trait: its operations take those of the store. The conversions
  between values and JSON are serde's and are arguments.
\<close>

definition Cache_get :: "(json \<Rightarrow> any_error + 'v) \<Rightarrow> (str \<Rightarrow> 's \<Rightarrow> json option result \<times> 's) \<Rightarrow>
     str \<Rightarrow> 's \<Rightarrow> 'v option result \<times> 's" where
  "Cache_get from_value get key st =
     (case get key st of
        (Inl e, st') \<Rightarrow> (Inl e, st')
      | (Inr None, st') \<Rightarrow> (Inr None, st')
      | (Inr (Some v), st') \<Rightarrow>
          (case from_value v of
             Inl e \<Rightarrow> (Inl (InternalServerErrorException e), st')
           | Inr x \<Rightarrow> (Inr (Some x), st')))"

definition Cache_set_with_optional_ttl ::
    "('v \<Rightarrow> any_error + json) \<Rightarrow> (str \<Rightarrow> json \<Rightarrow> nat option \<Rightarrow> 's \<Rightarrow> unit result \<times> 's) \<Rightarrow>
     str \<Rightarrow> 'v \<Rightarrow> nat option \<Rightarrow> 's \<Rightarrow> unit result \<times> 's" where
  "Cache_set_with_optional_ttl to_value put key x ttl st =
     (case to_value x of
        Inl e \<Rightarrow> (Inl (InternalServerErrorException e), st)
      | Inr v \<Rightarrow> put key v ttl st)"

definition Cache_set ::
    "('v \<Rightarrow> any_error + json) \<Rightarrow> (str \<Rightarrow> json \<Rightarrow> nat option \<Rightarrow> 's \<Rightarrow> unit result \<times> 's) \<Rightarrow>
     str \<Rightarrow> 'v \<Rightarrow> 's \<Rightarrow> unit result \<times> 's" where
  "Cache_set to_value put key x = Cache_set_with_optional_ttl to_value put key x None"

definition Cache_set_with_ttl ::
    "('v \<Rightarrow> any_error + json) \<Rightarrow> (str \<Rightarrow> json \<Rightarrow> nat option \<Rightarrow> 's \<Rightarrow> unit result \<times> 's) \<Rightarrow>
     str \<Rightarrow> 'v \<Rightarrow> nat \<Rightarrow> 's \<Rightarrow> unit result \<times> 's" where
  "Cache_set_with_ttl to_value put key x ttl = Cache_set_with_optional_ttl to_value put key x (Some ttl)"

section \<open>The contract of a cache store\<close>

text \<open>
  \<open>cached t k st\<close> is what a read of \<open>k\<close> at instant \<open>t\<close> finds. A store may forget a key at any time,
  but it never invents a value: each operation leaves a key with what it had, with nothing, or with
  what the operation wrote.
\<close>

definition fades :: "'a option \<Rightarrow> 'a option \<Rightarrow> bool" where
  "fades x y \<longleftrightarrow> x = None \<or> x = y"

lemma fades_refl [simp]: "fades x x" and fades_None [simp]: "fades None x"
  by (auto simp: fades_def)

lemma fades_trans [trans]: "fades x y \<Longrightarrow> fades y z \<Longrightarrow> fades x z"
  by (auto simp: fades_def)

locale cache_contract =
  fixes get :: "nat \<Rightarrow> str \<Rightarrow> 's \<Rightarrow> json option result \<times> 's"
    and put :: "'c \<Rightarrow> str \<Rightarrow> json \<Rightarrow> nat option \<Rightarrow> 's \<Rightarrow> unit result \<times> 's"
    and del :: "str \<Rightarrow> 's \<Rightarrow> unit result \<times> 's"
    and clear :: "'s \<Rightarrow> unit result \<times> 's"
    and cached :: "nat \<Rightarrow> str \<Rightarrow> 's \<Rightarrow> json option"
    and inv :: "'s \<Rightarrow> bool"
  assumes get_reads: "inv st \<Longrightarrow> get now k st = (r, st') \<Longrightarrow> r = Inr (cached now k st)"
    and get_keeps: "inv st \<Longrightarrow> get now k st = (r, st') \<Longrightarrow>
        inv st' \<and> fades (cached t j st') (cached t j st)"
    and put_writes: "inv st \<Longrightarrow> put c k v ttl st = (Inr u, st') \<Longrightarrow>
        inv st' \<and> fades (cached t j st') (if j = k then Some v else cached t j st)"
    and put_fails: "inv st \<Longrightarrow> put c k v ttl st = (Inl e, st') \<Longrightarrow> st' = st"
    and del_removes: "inv st \<Longrightarrow> del k st = (d, st') \<Longrightarrow>
        inv st' \<and> fades (cached t j st') (if j = k then None else cached t j st)"
    and clear_removes: "inv st \<Longrightarrow> clear st = (d, st') \<Longrightarrow> inv st' \<and> cached t j st' = None"

text \<open>A client's operations, and the value each key was last given: \<open>Cache\<close> calls of a program.\<close>

datatype 'c cache_op =
  Read nat str
| Write 'c str json "nat option"
| Remove str
| RemoveAll

fun last_written :: "(str \<Rightarrow> json option) \<Rightarrow> ('c cache_op \<times> bool) list \<Rightarrow> str \<Rightarrow> json option" where
  "last_written w [] = w"
| "last_written w ((Read _ _, _) # ops) = last_written w ops"
| "last_written w ((Write _ k v _, ok) # ops) = last_written (if ok then w(k \<mapsto> v) else w) ops"
| "last_written w ((Remove k, _) # ops) = last_written (w(k := None)) ops"
| "last_written w ((RemoveAll, _) # ops) = last_written (\<lambda>_. None) ops"

definition succeeds :: "'a result \<Rightarrow> bool" where
  "succeeds r = (case r of Inl _ \<Rightarrow> False | Inr _ \<Rightarrow> True)"

text \<open>Runs the operations; each is recorded with whether it succeeded.\<close>

fun run_cache_ops ::
    "(nat \<Rightarrow> str \<Rightarrow> 's \<Rightarrow> json option result \<times> 's) \<Rightarrow>
     ('c \<Rightarrow> str \<Rightarrow> json \<Rightarrow> nat option \<Rightarrow> 's \<Rightarrow> unit result \<times> 's) \<Rightarrow>
     (str \<Rightarrow> 's \<Rightarrow> unit result \<times> 's) \<Rightarrow> ('s \<Rightarrow> unit result \<times> 's) \<Rightarrow>
     'c cache_op list \<Rightarrow> 's \<Rightarrow> ('c cache_op \<times> bool) list \<times> 's" where
  "run_cache_ops get put del clear [] st = ([], st)"
| "run_cache_ops get put del clear (Read now k # ops) st =
     (case get now k st of (r, st1) \<Rightarrow>
        (case run_cache_ops get put del clear ops st1 of (log, st2) \<Rightarrow>
           ((Read now k, succeeds r) # log, st2)))"
| "run_cache_ops get put del clear (Write c k v ttl # ops) st =
     (case put c k v ttl st of (r, st1) \<Rightarrow>
        (case run_cache_ops get put del clear ops st1 of (log, st2) \<Rightarrow>
           ((Write c k v ttl, succeeds r) # log, st2)))"
| "run_cache_ops get put del clear (Remove k # ops) st =
     (case del k st of (r, st1) \<Rightarrow>
        (case run_cache_ops get put del clear ops st1 of (log, st2) \<Rightarrow>
           ((Remove k, succeeds r) # log, st2)))"
| "run_cache_ops get put del clear (RemoveAll # ops) st =
     (case clear st of (r, st1) \<Rightarrow>
        (case run_cache_ops get put del clear ops st1 of (log, st2) \<Rightarrow>
           ((RemoveAll, succeeds r) # log, st2)))"

context cache_contract
begin

abbreviation run :: "'c cache_op list \<Rightarrow> 's \<Rightarrow> ('c cache_op \<times> bool) list \<times> 's" where
  "run \<equiv> run_cache_ops get put del clear"

lemma run_step:
  assumes "inv st" "\<And>t j. fades (cached t j st) (w j)" "run (op # ops) st = (log, st')"
  shows "\<exists>b log1 st1 w1. log = (op, b) # log1 \<and> run ops st1 = (log1, st') \<and> inv st1 \<and>
    (\<forall>t j. fades (cached t j st1) (w1 j)) \<and> (\<forall>l. last_written w ((op, b) # l) = last_written w1 l)"
proof (cases op)
  case (Read now k)
  obtain r st1 where g: "get now k st = (r, st1)" by (cases "get now k st")
  from get_keeps [OF assms(1) g] assms(2) have "inv st1" "\<forall>t j. fades (cached t j st1) (w j)"
    by (blast, metis fades_trans)
  with assms(3) Read g show ?thesis by (auto split: prod.splits)
next
  case (Write c k v ttl)
  obtain r st1 where p: "put c k v ttl st = (r, st1)" by (cases "put c k v ttl st")
  show ?thesis
  proof (cases r)
    case (Inl e)
    with put_fails [OF assms(1)] p have "st1 = st" by blast
    with assms Write p Inl show ?thesis by (auto simp: succeeds_def split: prod.splits)
  next
    case (Inr u)
    with p have p': "put c k v ttl st = (Inr u, st1)" by simp
    have "inv st1" using put_writes [OF assms(1) p'] by blast
    moreover have "fades (cached t j st1) ((w(k \<mapsto> v)) j)" for t j
      using put_writes [OF assms(1) p', of t j] assms(2) [of t j] fades_trans by fastforce
    ultimately have "inv st1" "\<forall>t j. fades (cached t j st1) ((w(k \<mapsto> v)) j)" by blast+
    moreover obtain log1 where "run ops st1 = (log1, st')" "log = (op, True) # log1"
      using assms(3) Write p Inr by (auto simp: succeeds_def split: prod.splits)
    ultimately show ?thesis unfolding Write
      by (intro exI [of _ True] exI [of _ log1] exI [of _ st1] exI [of _ "w(k \<mapsto> v)"]) simp
  qed
next
  case (Remove k)
  obtain r st1 where d: "del k st = (r, st1)" by (cases "del k st")
  have "inv st1" using del_removes [OF assms(1) d] by blast
  moreover have "fades (cached t j st1) ((w(k := None)) j)" for t j
    using del_removes [OF assms(1) d, of t j] assms(2) [of t j] fades_trans by fastforce
  ultimately have "inv st1" "\<forall>t j. fades (cached t j st1) ((w(k := None)) j)" by blast+
  moreover obtain log1 where "run ops st1 = (log1, st')" "log = (op, succeeds r) # log1"
    using assms(3) Remove d by (auto split: prod.splits)
  ultimately show ?thesis unfolding Remove
    by (intro exI [of _ "succeeds r"] exI [of _ log1] exI [of _ st1] exI [of _ "w(k := None)"]) simp
next
  case RemoveAll
  obtain r st1 where c: "clear st = (r, st1)" by (cases "clear st")
  from clear_removes [OF assms(1) c] have "inv st1" "\<forall>t j. fades (cached t j st1) None" by auto
  moreover obtain log1 where "run ops st1 = (log1, st')" "log = (op, succeeds r) # log1"
    using assms(3) RemoveAll c by (auto split: prod.splits)
  ultimately show ?thesis unfolding RemoveAll
    by (intro exI [of _ "succeeds r"] exI [of _ log1] exI [of _ st1] exI [of _ "\<lambda>_. None"]) simp
qed

lemma run_cached:
  assumes "inv st" "\<And>t j. fades (cached t j st) (w j)" "run ops st = (log, st')"
  shows "inv st' \<and> (\<forall>t j. fades (cached t j st') (last_written w log j))"
  using assms
proof (induction ops arbitrary: st w log)
  case Nil
  then show ?case by simp
next
  case (Cons op ops)
  from run_step [OF Cons.prems] obtain b log1 st1 w1 where
    "log = (op, b) # log1" "run ops st1 = (log1, st')" "inv st1"
    "\<forall>t j. fades (cached t j st1) (w1 j)" "last_written w ((op, b) # log1) = last_written w1 log1"
    by blast
  with Cons.IH [of st1 w1 log1] show ?case by metis
qed

text \<open>A typed read never returns a stale value.\<close>

lemma typed_read:
  assumes "inv st" "\<And>t j. cached t j st = None" "run ops st = (log, st')"
    and "Cache_get from_value (get now) k st' = (Inr (Some x), st'')"
  shows "\<exists>v. last_written (\<lambda>_. None) log k = Some v \<and> from_value v = Inr x"
proof -
  from run_cached [of st "\<lambda>_. None" ops log st'] assms have
    st': "inv st'" "\<forall>t j. fades (cached t j st') (last_written (\<lambda>_. None) log j)" by auto
  obtain r st1 where g: "get now k st' = (r, st1)" by (cases "get now k st'")
  with get_reads [OF st'(1) g] assms(4) obtain v where v: "cached now k st' = Some v" "from_value v = Inr x"
    by (cases "cached now k st'") (auto simp: Cache_get_def split: sum.splits)
  moreover have "last_written (\<lambda>_. None) log k = Some v" using st'(2) v(1) by (metis fades_def option.distinct(1))
  ultimately show ?thesis by blast
qed

end

section \<open>The memory store keeps the contract\<close>

definition cached :: "nat \<Rightarrow> str \<Rightarrow> cache_store \<Rightarrow> json option" where
  "cached t k st = (case map_of (cs_entries st) k of None \<Rightarrow> None
     | Some e \<Rightarrow> if entry_expired t e then None else Some (ce_value e))"

definition cache_inv :: "cache_store \<Rightarrow> bool" where
  "cache_inv st \<longleftrightarrow> distinct (map fst (cs_entries st))"

lemma evict_loop_map: "distinct (map fst es) \<Longrightarrow>
   distinct (map fst (evict_loop order n es)) \<and> map_of (evict_loop order n es) k \<in> {None, map_of es k}"
proof (induction order n es rule: evict_loop.induct)
  case (1 order n es)
  show ?case
  proof (cases "\<exists>k0. length es > n \<and> oldest_key (order es) = Some k0 \<and> k0 \<in> fst ` set es")
    case True
    then obtain k0 where k0: "length es > n" "oldest_key (order es) = Some k0" "k0 \<in> fst ` set es" by blast
    from "1.IH" [OF this distinct_delete [OF "1.prems"]] k0 show ?thesis
      by (subst (1 2) evict_loop.simps) (auto simp: delete_conv' split: if_splits)
  next
    case False
    then have "evict_loop order n es = es" by (subst evict_loop.simps) (auto split: option.splits)
    with "1.prems" show ?thesis by simp
  qed
qed

lemma evict_map: "distinct (map fst es) \<Longrightarrow>
   distinct (map fst (evict_to_capacity order n es)) \<and>
   map_of (evict_to_capacity order n es) k \<in> {None, map_of es k}"
  using evict_loop_map by (simp add: evict_to_capacity_def)

lemma map_of_remove_expired: "distinct (map fst es) \<Longrightarrow>
   distinct (map fst (remove_expired clock es)) \<and>
   map_of (remove_expired clock es) k =
     (case map_of es k of None \<Rightarrow> None | Some e \<Rightarrow> if entry_expired (clock k) e then None else Some e)"
  by (induction es)
    (auto simp: remove_expired_def image_iff split: option.splits dest!: map_of_SomeD)

lemma cache_set_cases:
  assumes "cache_set value_size order clock_max c k v ttl st = (r, st')"
  obtains e where "r = Inl e" "st' = st"
  | es where "r = Inr ()" "st' = st\<lparr>cs_entries := evict_to_capacity order (co_max_entries (cs_options st)) es\<rparr>"
    "es = AList.update k (CacheEntry_new clock_max (snd c) v
       (case ttl of Some d \<Rightarrow> Some d | None \<Rightarrow> co_default_ttl (cs_options st)))
       (remove_expired (fst c) (cs_entries st))"
  using assms by (auto simp: cache_set_def Let_def split: sum.splits if_splits)

lemma cached_kept: "cache_inv st \<Longrightarrow>
   fades (case map_of (remove_expired c (cs_entries st)) k of None \<Rightarrow> None
     | Some e \<Rightarrow> if entry_expired t e then None else Some (ce_value e)) (cached t k st)"
  by (auto simp: cache_inv_def map_of_remove_expired cached_def fades_def split: option.splits)

lemma cached_new: "ce_value e = v \<Longrightarrow> fades (if entry_expired t e then None else Some (ce_value e)) (Some v)"
  by simp

lemma CacheEntry_new_value [simp]: "ce_value (CacheEntry_new m now v ttl) = v"
  by (simp add: CacheEntry_new_def)

lemma cache_set_writes:
  assumes "cache_inv st" "cache_set value_size order clock_max c k v ttl st = (Inr u, st')"
  shows "cache_inv st' \<and> fades (cached t j st') (if j = k then Some v else cached t j st)"
  using assms(2)
proof (cases rule: cache_set_cases)
  case (2 es)
  have d: "distinct (map fst es)" using assms(1) map_of_remove_expired [of "cs_entries st" "fst c"]
    by (simp add: 2 cache_inv_def distinct_update)
  from evict_map [OF this] have e: "map_of (cs_entries st') j \<in> {None, map_of es j}" "cache_inv st'"
    by (auto simp: 2 cache_inv_def)
  have "fades (cached t j st') (case map_of es j of None \<Rightarrow> None
     | Some e \<Rightarrow> if entry_expired t e then None else Some (ce_value e))"
    using e(1) by (auto simp: cached_def)
  also have "fades \<dots> (if j = k then Some v else cached t j st)"
    using cached_kept [OF assms(1), where c = "fst c" and k = j and t = t] by (auto simp: 2 update_conv' split: option.splits)
  finally show ?thesis using e(2) by simp
qed simp

interpretation memory_cache: cache_contract cache_get "cache_set value_size order clock_max"
  cache_delete cache_clear cached cache_inv
  for value_size order clock_max
proof
  fix st st' :: cache_store and now t k j r
  assume inv: "cache_inv st" and g: "cache_get now k st = (r, st')"
  show "r = Inr (cached now k st)"
    using g by (auto simp: cache_get_def cached_def split: option.splits if_splits)
  show "cache_inv st' \<and> fades (cached t j st') (cached t j st)"
  proof -
    from g have "st' = st \<or> st' = st\<lparr>cs_entries := AList.delete k (cs_entries st)\<rparr>"
      by (auto simp: cache_get_def split: option.splits if_splits)
    with inv show ?thesis by (auto simp: cached_def cache_inv_def distinct_delete delete_conv')
  qed
next
  fix st st' :: cache_store and c k v ttl u t j
  assume "cache_inv st" "cache_set value_size order clock_max c k v ttl st = (Inr u, st')"
  then show "cache_inv st' \<and> fades (cached t j st') (if j = k then Some v else cached t j st)"
    by (rule cache_set_writes)
next
  fix st st' :: cache_store and c k v ttl e
  assume "cache_set value_size order clock_max c k v ttl st = (Inl e, st')"
  then show "st' = st" by (cases rule: cache_set_cases) auto
next
  fix st st' :: cache_store and k j t d
  assume "cache_inv st" "cache_delete k st = (d, st')"
  then show "cache_inv st' \<and> fades (cached t j st') (if j = k then None else cached t j st)"
    by (auto simp: cache_delete_def cached_def cache_inv_def distinct_delete delete_conv')
next
  fix st st' :: cache_store and j t d
  assume "cache_inv st" "cache_clear st = (d, st')"
  then show "cache_inv st' \<and> cached t j st' = None"
    by (auto simp: cache_clear_def cached_def cache_inv_def)
qed

section \<open>Properties\<close>

text \<open>Whatever operations a client ran on a new in-memory store, a typed read that finds a
  value finds the value of the last successful write of that key, decoded; removed keys are not found.\<close>

theorem cache_reads_last_write:
  assumes "run_cache_ops cache_get (cache_set value_size order clock_max) cache_delete cache_clear ops
      (MemoryCacheStore_with_options opts) = (log, st)"
    and "Cache_get from_value (cache_get now) key st = (Inr (Some x), st')"
  shows "\<exists>v. last_written (\<lambda>_. None) log key = Some v \<and> from_value v = Inr x"
proof (rule memory_cache.typed_read [OF _ _ assms])
  show "cache_inv (MemoryCacheStore_with_options opts)"
    by (simp add: cache_inv_def MemoryCacheStore_with_options_def)
  show "cached t j (MemoryCacheStore_with_options opts) = None" for t j
    by (simp add: cached_def MemoryCacheStore_with_options_def)
qed

definition ok_from_json :: "json \<Rightarrow> any_error + json" where
  "ok_from_json v = Inr v"

definition small_cache :: "nat \<Rightarrow> nat \<Rightarrow> cache_options" where
  "small_cache n bytes = \<lparr>co_max_entries = n, co_max_value_bytes = bytes, co_default_ttl = None\<rparr>"

lemmas cache_eval = small_cache_def MemoryCacheStore_with_options_def cache_set_def
  remove_expired_def evict_to_capacity_def evict_loop.simps CacheEntry_new_def succeeds_def

lemma cache_reads_last_write_witness:
  "\<exists>v. last_written (\<lambda>_. None) [(Write (\<lambda>_::str. 5::nat, 5::nat) ''k'' (JBool True) None, True)] ''k'' = Some v \<and>
     ok_from_json v = Inr (JBool True)"
proof -
  let ?e = "\<lparr>ce_value = JBool True, ce_inserted_at = 5, ce_expires_at = None\<rparr>"
  let ?st = "\<lparr>cs_options = small_cache 1 10, cs_entries = [(''k'', ?e)]\<rparr>"
  have "run_cache_ops cache_get (cache_set (\<lambda>_. Inr 4) id 100) cache_delete cache_clear
      [Write (\<lambda>_. 5, 5) ''k'' (JBool True) None] (MemoryCacheStore_with_options (small_cache 1 10)) =
    ([(Write (\<lambda>_. 5, 5) ''k'' (JBool True) None, True)], ?st)"
    by (simp add: cache_eval)
  moreover have "cache_get 6 ''k'' ?st = (Inr (Some (JBool True)), ?st)"
    by (simp add: cache_get_def entry_expired_def)
  then have "Cache_get ok_from_json (cache_get 6) ''k'' ?st = (Inr (Some (JBool True)), ?st)"
    by (simp add: Cache_get_def ok_from_json_def)
  ultimately show ?thesis by (rule cache_reads_last_write)
qed

section \<open>Below capacity the cache is exact\<close>

text \<open>
  The reference is an unbounded table from keys to values with their last instant. It is what a
  client that never has more than \<open>max_entries\<close> keys may rely on.
\<close>

datatype cache_reply = Found "json option result" | Finished "unit result"

type_synonym cache_table = "str \<Rightarrow> (json \<times> nat option) option"

type_synonym cache_call = "((str \<Rightarrow> nat) \<times> nat) cache_op"

definition table_at :: "nat \<Rightarrow> str \<Rightarrow> cache_table \<Rightarrow> json option" where
  "table_at t k m = (case m k of None \<Rightarrow> None
     | Some (v, until) \<Rightarrow> (case until of None \<Rightarrow> Some v | Some x \<Rightarrow> if t < x then Some v else None))"

fun table_step :: "(json \<Rightarrow> any_error + nat) \<Rightarrow> nat \<Rightarrow> cache_options \<Rightarrow> cache_call \<Rightarrow> cache_table \<Rightarrow>
     cache_reply \<times> cache_table" where
  "table_step value_size clock_max opts (Read now k) m = (Found (Inr (table_at now k m)), m)"
| "table_step value_size clock_max opts (Write c k v ttl) m =
     (case value_size v of
        Inl e \<Rightarrow> (Finished (Inl (InternalServerErrorException e)), m)
      | Inr bytes \<Rightarrow>
          if bytes > co_max_value_bytes opts
          then (Finished (Inl (PayloadTooLargeException (''cache value exceeds the configured limit of '' @
                  show_nat (co_max_value_bytes opts) @ '' bytes''))), m)
          else (Finished (Inr ()), m(k \<mapsto> (v,
                  case (case ttl of Some d \<Rightarrow> Some d | None \<Rightarrow> co_default_ttl opts) of
                    None \<Rightarrow> None
                  | Some d \<Rightarrow> if snd c + d \<le> clock_max then Some (snd c + d) else None))))"
| "table_step value_size clock_max opts (Remove k) m = (Finished (Inr ()), m(k := None))"
| "table_step value_size clock_max opts RemoveAll m = (Finished (Inr ()), (\<lambda>_. None))"

fun memory_step :: "(json \<Rightarrow> any_error + nat) \<Rightarrow> (entries \<Rightarrow> entries) \<Rightarrow> nat \<Rightarrow> cache_call \<Rightarrow> cache_store \<Rightarrow>
     cache_reply \<times> cache_store" where
  "memory_step value_size order clock_max (Read now k) st = map_prod Found id (cache_get now k st)"
| "memory_step value_size order clock_max (Write c k v ttl) st =
     map_prod Finished id (cache_set value_size order clock_max c k v ttl st)"
| "memory_step value_size order clock_max (Remove k) st = map_prod Finished id (cache_delete k st)"
| "memory_step value_size order clock_max RemoveAll st = map_prod Finished id (cache_clear st)"

fun replies :: "('op \<Rightarrow> 's \<Rightarrow> 'r \<times> 's) \<Rightarrow> 'op list \<Rightarrow> 's \<Rightarrow> 'r list" where
  "replies step [] s = []"
| "replies step (op # ops) s = (case step op s of (r, s') \<Rightarrow> r # replies step ops s')"

text \<open>The clock does not go back.\<close>

fun timely :: "nat \<Rightarrow> cache_call list \<Rightarrow> bool" where
  "timely t [] \<longleftrightarrow> True"
| "timely t (Read now k # ops) \<longleftrightarrow> t \<le> now \<and> timely now ops"
| "timely t (Write c k v ttl # ops) \<longleftrightarrow> (\<forall>j. t \<le> fst c j \<and> fst c j \<le> snd c) \<and> timely (snd c) ops"
| "timely t (Remove k # ops) \<longleftrightarrow> timely t ops"
| "timely t (RemoveAll # ops) \<longleftrightarrow> timely t ops"

fun written_keys :: "cache_call list \<Rightarrow> str set" where
  "written_keys [] = {}"
| "written_keys (Write c k v ttl # ops) = insert k (written_keys ops)"
| "written_keys (Read _ _ # ops) = written_keys ops"
| "written_keys (Remove _ # ops) = written_keys ops"
| "written_keys (RemoveAll # ops) = written_keys ops"

definition cache_sim :: "cache_options \<Rightarrow> str set \<Rightarrow> nat \<Rightarrow> cache_store \<Rightarrow> cache_table \<Rightarrow> bool" where
  "cache_sim opts K t st m \<longleftrightarrow> cs_options st = opts \<and> cache_inv st \<and> fst ` set (cs_entries st) \<subseteq> K \<and>
     (\<forall>t'\<ge>t. \<forall>k. cached t' k st = table_at t' k m)"

lemma evict_to_capacity_id: "length es \<le> n \<Longrightarrow> evict_to_capacity order n es = es"
  by (auto simp: evict_to_capacity_def evict_loop.simps)

lemma keys_fit: "distinct (map fst es) \<Longrightarrow> fst ` set es \<subseteq> K \<Longrightarrow> finite K \<Longrightarrow> card K \<le> n \<Longrightarrow> length es \<le> n"
  by (metis card_mono distinct_card le_trans length_map list.set_map)

lemma remove_expired_set: "set (remove_expired c es) \<subseteq> set es"
  by (auto simp: remove_expired_def)

lemma cached_remove_expired:
  assumes "cache_inv st" "\<forall>j. c j \<le> t"
  shows "(case map_of (remove_expired c (cs_entries st)) k of None \<Rightarrow> None
     | Some e \<Rightarrow> if entry_expired t e then None else Some (ce_value e)) = cached t k st"
proof (cases "map_of (cs_entries st) k")
  case (Some e)
  have "entry_expired t e" if "entry_expired (c k) e"
    using that assms(2) [rule_format, of k] by (auto simp: entry_expired_def split: option.splits)
  with Some assms(1) show ?thesis by (auto simp: cache_inv_def map_of_remove_expired cached_def)
qed (use assms(1) in \<open>auto simp: cache_inv_def map_of_remove_expired cached_def\<close>)

lemma sim_write:
  assumes sim: "cache_sim opts K t st m" and K: "finite K" "card K \<le> co_max_entries opts" "k \<in> K"
    and time: "\<forall>j. t \<le> fst c j \<and> fst c j \<le> snd c"
    and step: "memory_step value_size order clock_max (Write c k v ttl) st = (r, st')"
  shows "\<exists>m'. table_step value_size clock_max opts (Write c k v ttl) m = (r, m') \<and> cache_sim opts K (snd c) st' m'"
proof -
  from time have t: "t \<le> snd c" by (meson order_trans)
  have weak: "cache_sim opts K (snd c) st m" using sim t by (auto simp: cache_sim_def)
  have opts: "opts = cs_options st" and inv: "cache_inv st" using sim by (auto simp: cache_sim_def)
  obtain q where set: "cache_set value_size order clock_max c k v ttl st = (q, st')" "r = Finished q"
    using step by (cases "cache_set value_size order clock_max c k v ttl st") auto
  from set(1) show ?thesis
  proof (cases rule: cache_set_cases)
    case (1 e)
    with set weak opts show ?thesis by (auto simp: cache_set_def Let_def split: sum.splits if_splits)
  next
    case (2 es)
    have d: "distinct (map fst es)" using inv map_of_remove_expired [of "cs_entries st" "fst c"]
      by (simp add: 2 cache_inv_def distinct_update)
    have "fst ` set (remove_expired (fst c) (cs_entries st)) \<subseteq> K"
      using sim remove_expired_set [of "fst c" "cs_entries st"] by (auto simp: cache_sim_def)
    with K(3) have sub: "fst ` set es \<subseteq> K" by (simp add: 2 dom_update)
    from keys_fit [OF d sub K(1,2)] have st': "st' = st\<lparr>cs_entries := es\<rparr>"
      by (simp add: 2 opts evict_to_capacity_id)
    let ?until = "case (case ttl of Some d \<Rightarrow> Some d | None \<Rightarrow> co_default_ttl opts) of None \<Rightarrow> None
                  | Some d \<Rightarrow> if snd c + d \<le> clock_max then Some (snd c + d) else None"
    have "cached t' j st' = table_at t' j (m(k \<mapsto> (v, ?until)))" if "snd c \<le> t'" for t' j
    proof (cases "j = k")
      case True
      have "cached t' k st' = (if entry_expired t' (CacheEntry_new clock_max (snd c) v
          (case ttl of Some d \<Rightarrow> Some d | None \<Rightarrow> co_default_ttl opts)) then None else Some v)"
        unfolding opts by (simp add: st' 2 cached_def update_conv')
      with True show ?thesis
        by (cases ttl; cases "co_default_ttl opts")
          (auto simp: table_at_def CacheEntry_new_def entry_expired_def not_le)
    next
      case False
      have "\<forall>j. fst c j \<le> t'" using time that by (meson order_trans)
      from cached_remove_expired [OF inv this, of j] False have "cached t' j st' = cached t' j st"
        by (simp add: st' 2 cached_def update_conv')
      with weak that False show ?thesis by (simp add: cache_sim_def table_at_def)
    qed
    then have "cache_sim opts K (snd c) st' (m(k \<mapsto> (v, ?until)))"
      using d sub opts by (simp add: cache_sim_def st' cache_inv_def)
    moreover have "table_step value_size clock_max opts (Write c k v ttl) m = (r, m(k \<mapsto> (v, ?until)))"
      using set 2(1) opts by (auto simp: cache_set_def Let_def split: sum.splits if_splits)
    ultimately show ?thesis by blast
  qed
qed

lemma delete_subset: "fst ` set es \<subseteq> K \<Longrightarrow> fst ` set (AList.delete k es) \<subseteq> K"
  by (auto simp: AList.delete_eq)

lemma sim_other:
  assumes sim: "cache_sim opts K t st m"
  shows "t \<le> now \<Longrightarrow> memory_step vs order cm (Read now k) st = (r, st') \<Longrightarrow>
      table_step vs cm opts (Read now k) m = (r, m) \<and> cache_sim opts K now st' m"
    and "memory_step vs order cm (Remove k) st = (r, st') \<Longrightarrow>
      table_step vs cm opts (Remove k) m = (r, m(k := None)) \<and> cache_sim opts K t st' (m(k := None))"
    and "memory_step vs order cm RemoveAll st = (r, st') \<Longrightarrow>
      table_step vs cm opts RemoveAll m = (r, \<lambda>_. None) \<and> cache_sim opts K t st' (\<lambda>_. None)"
proof -
  assume now: "t \<le> now" and step: "memory_step vs order cm (Read now k) st = (r, st')"
  have weak: "cache_sim opts K now st m" using sim now by (auto simp: cache_sim_def)
  have found: "r = Found (Inr (cached now k st))"
    using step by (auto simp: cache_get_def cached_def split: option.splits if_splits)
  from step consider "st' = st"
    | e where "map_of (cs_entries st) k = Some e" "entry_expired now e"
      "st' = st\<lparr>cs_entries := AList.delete k (cs_entries st)\<rparr>"
    by (auto simp: cache_get_def split: option.splits if_splits)
  then have "cache_sim opts K now st' m"
  proof cases
    case 1
    with weak show ?thesis by simp
  next
    case 2
    have "cached t' k st = None" if "now \<le> t'" for t'
      using 2 that by (auto simp: cached_def entry_expired_def split: option.splits)
    then have "cached t' j st' = cached t' j st" if "now \<le> t'" for t' j
      using that by (simp add: 2(3) cached_def delete_conv' split: option.splits)
    moreover have "fst ` set (cs_entries st') \<subseteq> K" 
      using weak 2(3) delete_subset [of "cs_entries st" K k] by (simp add: cache_sim_def)
    ultimately show ?thesis using weak by (simp add: cache_sim_def cache_inv_def 2(3) distinct_delete)
  qed
  with found weak show "table_step vs cm opts (Read now k) m = (r, m) \<and> cache_sim opts K now st' m"
    by (simp add: cache_sim_def)
next
  assume "memory_step vs order cm (Remove k) st = (r, st')"
  with sim show "table_step vs cm opts (Remove k) m = (r, m(k := None)) \<and> cache_sim opts K t st' (m(k := None))"
    using delete_subset [of "cs_entries st" K k]
    by (clarsimp simp: cache_delete_def cache_sim_def cache_inv_def distinct_delete cached_def delete_conv' table_at_def)
next
  assume "memory_step vs order cm RemoveAll st = (r, st')"
  with sim show "table_step vs cm opts RemoveAll m = (r, \<lambda>_. None) \<and> cache_sim opts K t st' (\<lambda>_. None)"
    by (auto simp: cache_clear_def cache_sim_def cache_inv_def cached_def table_at_def)
qed

lemma replies_exact:
  assumes "cache_sim opts K t st m" "finite K" "card K \<le> co_max_entries opts"
    and "written_keys ops \<subseteq> K" "timely t ops"
  shows "replies (memory_step vs order cm) ops st = replies (table_step vs cm opts) ops m"
  using assms
proof (induction ops arbitrary: t st m)
  case (Cons op ops)
  obtain r st' where step: "memory_step vs order cm op st = (r, st')"
    by (cases "memory_step vs order cm op st")
  note K = Cons.prems(2,3)
  have "\<exists>m' t'. table_step vs cm opts op m = (r, m') \<and> cache_sim opts K t' st' m' \<and> timely t' ops \<and>
    written_keys ops \<subseteq> K"
  proof (cases op)
    case (Read now k)
    with sim_other(1) [OF Cons.prems(1), of now vs order cm k r st'] step Cons.prems(4,5) show ?thesis
      by (metis timely.simps(2) written_keys.simps(3))
  next
    case (Write c k v ttl)
    with sim_write [OF Cons.prems(1) K, of k c vs order cm v ttl r st'] step Cons.prems(4,5) show ?thesis
      by (metis insert_subset timely.simps(3) written_keys.simps(2))
  next
    case (Remove k)
    with sim_other(2) [OF Cons.prems(1), of vs order cm k r st'] step Cons.prems(4,5) show ?thesis
      by (metis timely.simps(4) written_keys.simps(4))
  next
    case RemoveAll
    with sim_other(3) [OF Cons.prems(1), of vs order cm r st'] step Cons.prems(4,5) show ?thesis
      by (metis timely.simps(5) written_keys.simps(5))
  qed
  then obtain m' t' where m': "table_step vs cm opts op m = (r, m')" "cache_sim opts K t' st' m'"
    "timely t' ops" "written_keys ops \<subseteq> K" by blast
  from Cons.IH [OF m'(2) K m'(4) m'(3)] show ?case by (simp add: step m'(1))
qed simp

text \<open>C30: as long as a client writes at most \<open>max_entries\<close> different keys and the clock does not go back,
  the in-memory store answers every operation exactly as an unbounded table with expiry times does,
  whatever the iteration order of its hash map.\<close>

theorem memory_cache_exact:
  assumes "card (written_keys ops) \<le> co_max_entries opts" "timely t ops"
  shows "replies (memory_step value_size order clock_max) ops (MemoryCacheStore_with_options opts) =
    replies (table_step value_size clock_max opts) ops (\<lambda>_. None)"
proof (rule replies_exact [OF _ _ assms(1) _ assms(2)])
  show "cache_sim opts (written_keys ops) t (MemoryCacheStore_with_options opts) (\<lambda>_. None)"
    by (simp add: cache_sim_def MemoryCacheStore_with_options_def cache_inv_def cached_def table_at_def)
  show "finite (written_keys ops)" by (induction ops rule: written_keys.induct) auto
qed simp

lemma memory_cache_exact_witness:
  "replies (memory_step (\<lambda>_. Inr 4) rev 100)
      [Write (\<lambda>_. 5, 5) ''a'' JNull (Some 3), Write (\<lambda>_. 6, 6) ''b'' JNull None, Read 7 ''a'', Read 8 ''a'', Read 9 ''b'']
      (MemoryCacheStore_with_options (small_cache 2 10)) =
    [Finished (Inr ()), Finished (Inr ()), Found (Inr (Some JNull)), Found (Inr None), Found (Inr (Some JNull))]"
  by (subst memory_cache_exact [where t = 0])
    (simp_all add: small_cache_def table_at_def split: option.splits)

section \<open>Capacity and eviction\<close>

text \<open>A successful write leaves at most \<open>max_entries\<close> entries, changes no entry it keeps, and evicts
  only entries that are no younger than each entry that stays; with enough room it evicts nothing.\<close>

theorem cache_set_evicts_oldest:
  assumes "permutes_entries order" "cache_inv st"
    and "cache_set value_size order clock_max clocks key v ttl st = (Inr (), st')"
  defines "es \<equiv> AList.update key (CacheEntry_new clock_max (snd clocks) v
      (case ttl of Some d \<Rightarrow> Some d | None \<Rightarrow> co_default_ttl (cs_options st)))
      (remove_expired (fst clocks) (cs_entries st))"
  shows "store_len st' \<le> co_max_entries (cs_options st) \<and>
    (\<forall>k. map_of (cs_entries st') k \<in> {None, map_of es k}) \<and>
    (\<forall>k e k' e'. map_of es k = Some e \<longrightarrow> map_of (cs_entries st') k = None \<longrightarrow>
       map_of (cs_entries st') k' = Some e' \<longrightarrow> ce_inserted_at e \<le> ce_inserted_at e') \<and>
    (length es \<le> co_max_entries (cs_options st) \<longrightarrow> cs_entries st' = es)"
  using assms(3)
proof (cases rule: cache_set_cases)
  case (2 es')
  then have st': "cs_entries st' = evict_to_capacity order (co_max_entries (cs_options st)) es"
    by (simp add: es_def)
  have "distinct (map fst es)" using assms(2) map_of_remove_expired [of "cs_entries st" "fst clocks"]
    by (simp add: es_def cache_inv_def distinct_update)
  from evict_loop_spec [OF assms(1) this, of "co_max_entries (cs_options st)"] st' show ?thesis
    unfolding store_len_def st' evict_to_capacity_def by (cases "co_max_entries (cs_options st) = 0") simp_all
qed simp

definition full_cache :: cache_store where
  "full_cache = \<lparr>cs_options = small_cache 1 10, cs_entries = [(''old'', CacheEntry_new 100 5 JNull None)]\<rparr>"

lemma cache_set_evicts_oldest_witness:
  "store_len (full_cache\<lparr>cs_entries := [(''new'', CacheEntry_new 100 6 JNull None)]\<rparr>) \<le> 1"
proof -
  let ?st' = "full_cache\<lparr>cs_entries := [(''new'', CacheEntry_new 100 6 JNull None)]\<rparr>"
  have "cache_set (\<lambda>_. Inr 4) id 100 (\<lambda>_. 6, 6) ''new'' JNull None full_cache = (Inr (), ?st')"
    by (simp add: cache_eval full_cache_def entry_expired_def)
  moreover have "permutes_entries id" by (simp add: permutes_entries_def)
  moreover have "cache_inv full_cache" by (simp add: cache_inv_def full_cache_def)
  ultimately have "store_len ?st' \<le> co_max_entries (cs_options full_cache)"
    using cache_set_evicts_oldest [of id full_cache "\<lambda>_. Inr 4" 100 "(\<lambda>_. 6, 6)" "''new''" JNull None ?st'] by blast
  then show ?thesis by (simp add: full_cache_def small_cache_def)
qed

end
