(* ===== verification/Containers.thy ===== *)
theory Containers
  imports Exceptions
begin

text \<open>
  The dependency-injection container (\<open>crates/caelix-core/src/container.rs\<close>) and provider
  definitions (first part of \<open>crates/caelix-core/src/module.rs\<close>).

  A \<open>TypeId\<close> is a natural number. A provider value \<open>Arc<dyn Any>\<close> is its dynamic type with the
  identity of the object. Application code (constructors, factories, lifecycle hooks) is a
  function of the calls the framework has made into the application so far (the history) and of
  what the code can see: the resolver of its container, or its own object. So application code
  may keep state of its own, but not touch the container's private tables, as in the source.
\<close>

section \<open>Provider definitions\<close>

type_synonym type_id = nat

definition logger_type :: type_id where "logger_type = 0"
definition event_bus_type :: type_id where "event_bus_type = 1"

record pvalue =
  v_type :: type_id
  v_data :: nat

datatype app_call =
    Build type_id
  | Init type_id
  | Bootstrap type_id
  | Shutdown type_id
  | RegisterHandler type_id

type_synonym history = "app_call list"
type_synonym resolver = "type_id \<Rightarrow> str \<Rightarrow> nat result"

record provider_dependency =
  dep_type :: type_id
  dep_name :: str

record provider_def =
  pd_type :: type_id
  pd_name :: str
  pd_deps :: "provider_dependency list"
  pd_build :: "history \<Rightarrow> resolver \<Rightarrow> pvalue result"
  pd_init :: "history \<Rightarrow> pvalue \<Rightarrow> unit result"
  pd_bootstrap :: "history \<Rightarrow> pvalue \<Rightarrow> unit result"
  pd_shutdown :: "history \<Rightarrow> pvalue \<Rightarrow> unit result"

text \<open>An implementation of the \<open>Injectable\<close> trait.\<close>

record injectable =
  inj_type :: type_id
  inj_name :: str
  inj_dependencies :: "provider_dependency list"
  inj_create :: "history \<Rightarrow> resolver \<Rightarrow> nat result"
  inj_on_module_init :: "history \<Rightarrow> nat \<Rightarrow> unit result"
  inj_on_bootstrap :: "history \<Rightarrow> nat \<Rightarrow> unit result"
  inj_on_shutdown :: "history \<Rightarrow> nat \<Rightarrow> unit result"

definition downcast_provider :: "type_id \<Rightarrow> str \<Rightarrow> pvalue \<Rightarrow> nat result" where
  "downcast_provider ty name v =
     (if v_type v = ty then Inr (v_data v)
      else Inl (startup_error (''type mismatch running lifecycle hook for '' @ name)))"

definition noop_lifecycle :: "history \<Rightarrow> pvalue \<Rightarrow> unit result" where
  "noop_lifecycle h v = Inr ()"

definition ProviderDef_of :: "injectable \<Rightarrow> provider_def" where
  "ProviderDef_of t =
     \<lparr>pd_type = inj_type t, pd_name = inj_name t, pd_deps = inj_dependencies t,
      pd_build = (\<lambda>h resolve. bind_result (inj_create t h resolve)
                    (\<lambda>d. Inr \<lparr>v_type = inj_type t, v_data = d\<rparr>)),
      pd_init = (\<lambda>h v. bind_result (downcast_provider (inj_type t) (inj_name t) v)
                    (inj_on_module_init t h)),
      pd_bootstrap = (\<lambda>h v. bind_result (downcast_provider (inj_type t) (inj_name t) v)
                    (inj_on_bootstrap t h)),
      pd_shutdown = (\<lambda>h v. bind_result (downcast_provider (inj_type t) (inj_name t) v)
                    (inj_on_shutdown t h))\<rparr>"

definition ProviderDef_instance :: "type_id \<Rightarrow> str \<Rightarrow> nat \<Rightarrow> provider_def" where
  "ProviderDef_instance ty name d =
     \<lparr>pd_type = ty, pd_name = name, pd_deps = [],
      pd_build = (\<lambda>h resolve. Inr \<lparr>v_type = ty, v_data = d\<rparr>),
      pd_init = noop_lifecycle, pd_bootstrap = noop_lifecycle, pd_shutdown = noop_lifecycle\<rparr>"

text \<open>The factory's own error is given by its \<open>Debug\<close> text.\<close>

definition ProviderDef_async_factory ::
    "type_id \<Rightarrow> str \<Rightarrow> provider_dependency list \<Rightarrow> (history \<Rightarrow> resolver \<Rightarrow> str + nat) \<Rightarrow>
     provider_def" where
  "ProviderDef_async_factory ty name deps factory =
     \<lparr>pd_type = ty, pd_name = name, pd_deps = deps,
      pd_build = (\<lambda>h resolve.
         case factory h resolve of
           Inl err \<Rightarrow> Inl (startup_error
                       (''async factory failed for '' @ name @ '': '' @ err))
         | Inr d \<Rightarrow> Inr \<lparr>v_type = ty, v_data = d\<rparr>),
      pd_init = noop_lifecycle, pd_bootstrap = noop_lifecycle, pd_shutdown = noop_lifecycle\<rparr>"

section \<open>Overrides\<close>

text \<open>A hash map whose entries are iterated is an association list with distinct keys.\<close>

type_synonym overrides = "(type_id \<times> provider_def) list"

definition overrides_insert :: "overrides \<Rightarrow> provider_def \<Rightarrow> overrides" where
  "overrides_insert defs pd = AList.update (pd_type pd) pd defs"

definition overrides_insert_instance :: "overrides \<Rightarrow> type_id \<Rightarrow> str \<Rightarrow> nat \<Rightarrow> overrides" where
  "overrides_insert_instance defs ty name d =
     AList.update ty (ProviderDef_instance ty name d) defs"

definition overrides_insert_factory ::
    "overrides \<Rightarrow> type_id \<Rightarrow> str \<Rightarrow> provider_dependency list \<Rightarrow>
     (history \<Rightarrow> resolver \<Rightarrow> str + nat) \<Rightarrow> overrides" where
  "overrides_insert_factory defs ty name deps factory =
     AList.update ty (ProviderDef_async_factory ty name deps factory) defs"

section \<open>The container\<close>

record container =
  services :: "type_id \<Rightarrow> pvalue option"
  pending_overrides :: overrides
  applied_overrides :: "type_id set"
  declared_provider_types :: "type_id set"
  initialized_providers :: "type_id list"
  bootstrapped_providers :: "type_id set"
  dependency_scope :: "(str \<times> type_id set) option"

definition Container_new :: container where
  "Container_new =
     \<lparr>services = [logger_type \<mapsto> \<lparr>v_type = logger_type, v_data = 0\<rparr>],
      pending_overrides = [], applied_overrides = {}, declared_provider_types = {},
      initialized_providers = [], bootstrapped_providers = {}, dependency_scope = None\<rparr>"

text \<open>
  A clone shares the two lifecycle tables with the original; it drops the pending overrides.
\<close>

definition container_clone :: "container \<Rightarrow> container" where
  "container_clone c = c\<lparr>pending_overrides := []\<rparr>"

definition register_instance :: "type_id \<Rightarrow> nat \<Rightarrow> container \<Rightarrow> container" where
  "register_instance ty d c = c\<lparr>services := (services c)(ty \<mapsto> \<lparr>v_type = ty, v_data = d\<rparr>)\<rparr>"

definition register_erased :: "type_id \<Rightarrow> pvalue \<Rightarrow> container \<Rightarrow> container" where
  "register_erased ty v c = c\<lparr>services := (services c)(ty \<mapsto> v)\<rparr>"

definition resolve_erased :: "container \<Rightarrow> type_id \<Rightarrow> pvalue option" where
  "resolve_erased c ty = services c ty"

definition contains_type_id :: "container \<Rightarrow> type_id \<Rightarrow> bool" where
  "contains_type_id c ty \<longleftrightarrow> services c ty \<noteq> None"

definition take_pending_override :: "type_id \<Rightarrow> container \<Rightarrow> provider_def option \<times> container" where
  "take_pending_override ty c =
     (map_of (pending_overrides c) ty,
      c\<lparr>pending_overrides := AList.delete ty (pending_overrides c)\<rparr>)"

definition mark_override_applied :: "type_id \<Rightarrow> container \<Rightarrow> container" where
  "mark_override_applied ty c = c\<lparr>applied_overrides := insert ty (applied_overrides c)\<rparr>"

definition was_overridden :: "container \<Rightarrow> type_id \<Rightarrow> bool" where
  "was_overridden c ty \<longleftrightarrow> ty \<in> applied_overrides c"

definition begin_provider_bootstrap :: "type_id \<Rightarrow> container \<Rightarrow> bool \<times> container" where
  "begin_provider_bootstrap ty c =
     (ty \<notin> bootstrapped_providers c,
      c\<lparr>bootstrapped_providers := insert ty (bootstrapped_providers c)\<rparr>)"

definition mark_provider_declared :: "type_id \<Rightarrow> container \<Rightarrow> container" where
  "mark_provider_declared ty c =
     c\<lparr>declared_provider_types := insert ty (declared_provider_types c)\<rparr>"

definition seed_overrides :: "overrides \<Rightarrow> container \<Rightarrow> container" where
  "seed_overrides ovs c = c\<lparr>pending_overrides := ovs\<rparr>"

definition pending_override :: "container \<Rightarrow> type_id \<Rightarrow> provider_def option" where
  "pending_override c ty = map_of (pending_overrides c) ty"

definition has_pending_override :: "container \<Rightarrow> type_id \<Rightarrow> bool" where
  "has_pending_override c ty \<longleftrightarrow> map_of (pending_overrides c) ty \<noteq> None"

definition record_initialized_provider :: "type_id \<Rightarrow> container \<Rightarrow> container" where
  "record_initialized_provider ty c =
     c\<lparr>initialized_providers := initialized_providers c @ [ty]\<rparr>"

definition take_initialized_providers :: "container \<Rightarrow> type_id list \<times> container" where
  "take_initialized_providers c = (initialized_providers c, c\<lparr>initialized_providers := []\<rparr>)"

definition scoped_for_provider :: "container \<Rightarrow> str \<Rightarrow> provider_dependency list \<Rightarrow> container" where
  "scoped_for_provider c name deps =
     (container_clone c)\<lparr>dependency_scope := Some (name, dep_type ` set deps)\<rparr>"

definition assert_no_unused_overrides :: "container \<Rightarrow> unit result" where
  "assert_no_unused_overrides c =
     (if pending_overrides c = [] then Inr ()
      else let names = sort (map (\<lambda>(_, pd). pd_name pd) (pending_overrides c)) in
        Inl (startup_error (''provider override was never applied: '' @ join '', '' names @
               ''; is it registered in the module tree?'')))"

definition resolve :: "container \<Rightarrow> resolver" where
  "resolve c ty name =
     (case dependency_scope c of
        Some (provider_name, allowed) \<Rightarrow>
          if ty \<noteq> logger_type \<and> ty \<notin> allowed
          then Inl (startup_error (provider_name @ '' resolved '' @ name @
                      '' without declaring it in dependencies()''))
          else (case services c ty of
                  None \<Rightarrow> Inl (startup_error (''no provider registered for '' @ name))
                | Some v \<Rightarrow> if v_type v = ty then Inr (v_data v)
                            else Inl (startup_error (''type mismatch resolving '' @ name)))
      | None \<Rightarrow>
          (case services c ty of
             None \<Rightarrow> Inl (startup_error (''no provider registered for '' @ name))
           | Some v \<Rightarrow> if v_type v = ty then Inr (v_data v)
                       else Inl (startup_error (''type mismatch resolving '' @ name))))"

text \<open>The public \<open>Container::register\<close>: construct, run the init hook, then publish.\<close>

definition register :: "injectable \<Rightarrow> container \<Rightarrow> history \<Rightarrow> unit result \<times> container \<times> history" where
  "register t c h =
     (let h1 = h @ [Build (inj_type t)] in
      case inj_create t h (resolve c) of
        Inl e \<Rightarrow> (Inl e, c, h1)
      | Inr d \<Rightarrow>
          (let h2 = h1 @ [Init (inj_type t)] in
           case inj_on_module_init t h1 d of
             Inl err \<Rightarrow> (Inl (startup_error (''on_module_init failed for '' @ inj_name t @ '': '' @
                            ex_error err @ '': '' @ ex_message err)), c, h2)
           | Inr _ \<Rightarrow> (Inr (), register_instance (inj_type t) d c, h2)))"

section \<open>Provider operations on a container\<close>

definition assert_registered :: "provider_def \<Rightarrow> container \<Rightarrow> unit result" where
  "assert_registered pd c =
     (if contains_type_id c (pd_type pd) then Inr ()
      else Inl (startup_error (''missing provider at startup: '' @ pd_name pd @
                  '' was declared by module metadata but was not registered'')))"

definition run_lifecycle ::
    "provider_def \<Rightarrow> pvalue \<Rightarrow> str \<Rightarrow> (history \<Rightarrow> pvalue \<Rightarrow> unit result) \<Rightarrow> history \<Rightarrow> unit result" where
  "run_lifecycle pd v hook callback h =
     (case callback h v of
        Inl err \<Rightarrow> Inl (startup_error (hook @ '' failed for '' @ pd_name pd @ '': '' @
                     ex_error err @ '': '' @ ex_message err))
      | Inr _ \<Rightarrow> Inr ())"

definition run_lifecycle_from_container ::
    "provider_def \<Rightarrow> container \<Rightarrow> str \<Rightarrow> (history \<Rightarrow> pvalue \<Rightarrow> unit result) \<Rightarrow>
     (type_id \<Rightarrow> app_call) \<Rightarrow> history \<Rightarrow> unit result \<times> history" where
  "run_lifecycle_from_container pd c hook callback call h =
     (case resolve_erased c (pd_type pd) of
        None \<Rightarrow> (Inl (startup_error (''missing provider during '' @ hook @ '': '' @ pd_name pd @
                   '' was declared by module metadata but was not registered'')), h)
      | Some v \<Rightarrow> (run_lifecycle pd v hook callback h, h @ [call (pd_type pd)]))"

section \<open>Laws of the container\<close>

lemma services_register_erased [simp]:
  "services (register_erased ty v c) = (services c)(ty \<mapsto> v)"
  by (simp add: register_erased_def)

lemma resolve_scoped:
  assumes "ty = logger_type \<or> ty \<in> dep_type ` set deps" and "services c ty = Some v" and "v_type v = ty"
  shows "resolve (scoped_for_provider c name deps) ty n = Inr (v_data v)"
  using assms by (auto simp: resolve_def scoped_for_provider_def container_clone_def)

text \<open>Application code running with a provider's scoped container can resolve a type only if
  it is the logger or one of the provider's declared dependencies, and then it gets the object
  that is registered in the application container under that type.\<close>

theorem scoped_resolve_only_declared:
  assumes "resolve (scoped_for_provider c name deps) ty n = Inr d"
  shows "(ty = logger_type \<or> ty \<in> dep_type ` set deps) \<and>
         services c ty = Some \<lparr>v_type = ty, v_data = d\<rparr>"
  using assms
  by (auto simp: resolve_def scoped_for_provider_def container_clone_def
      split: if_splits option.splits)

theorem scoped_resolve_only_declared_witness:
  "resolve (scoped_for_provider Container_new ''Svc'' []) logger_type ''Logger'' = Inr 0 \<and>
   (logger_type = logger_type \<or> logger_type \<in> dep_type ` set []) \<and>
   services Container_new logger_type = Some \<lparr>v_type = logger_type, v_data = 0\<rparr>"
proof -
  have r: "resolve (scoped_for_provider Container_new ''Svc'' []) logger_type ''Logger'' = Inr 0"
    by (simp add: resolve_def scoped_for_provider_def container_clone_def Container_new_def)
  show ?thesis using r scoped_resolve_only_declared [OF r] by simp
qed

end
