(* ===== verification/Patterns.thy ===== *)
theory Patterns
  imports Prelude
begin

text \<open>
  Subject patterns of the microservice layer. \<open>crates/caelix-core/src/module.rs\<close> validates the
  handler patterns of a module graph and decides whether two patterns overlap;
  \<open>crates/caelix-microservices/src/lib.rs\<close> matches a delivered subject against a pattern and
  decides whether a configured stream covers a declared pattern. The loops of the source walk an
  index over both token vectors; here they recurse on the remaining tokens. The lemmas relate
  overlap and cover to the matching relation.
\<close>

abbreviation tokens :: "str \<Rightarrow> str list" where
  "tokens s \<equiv> split_on CHR ''.'' s"

section \<open>The functions of the source\<close>

definition valid_microservice_pattern :: "str \<Rightarrow> bool \<Rightarrow> bool" where
  "valid_microservice_pattern pattern command =
     (if pattern = [] \<or> has_whitespace pattern then False
      else let ts = tokens pattern in
        list_all (\<lambda>(index, token).
            token \<noteq> [] \<and>
            (CHR ''*'' \<notin> set token \<or> (\<not> command \<and> token = ''*'')) \<and>
            (CHR ''>'' \<notin> set token \<or>
              (\<not> command \<and> token = ''>'' \<and> index + 1 = length ts)))
          (enumerate 0 ts))"

fun tokens_intersect :: "str list \<Rightarrow> str list \<Rightarrow> bool" where
  "tokens_intersect [] [] = True"
| "tokens_intersect (left # ls) (right # rs) =
     (if left = ''>'' \<or> right = ''>'' then True
      else if left = ''*'' \<or> right = ''*'' \<or> left = right then tokens_intersect ls rs
      else False)"
| "tokens_intersect _ _ = False"

definition microservice_patterns_intersect :: "str \<Rightarrow> str \<Rightarrow> bool" where
  "microservice_patterns_intersect first second =
     tokens_intersect (tokens first) (tokens second)"

fun tokens_match :: "str list \<Rightarrow> str list \<Rightarrow> bool" where
  "tokens_match [] subject = (subject = [])"
| "tokens_match (token # ps) subject =
     (if token = ''>'' then subject \<noteq> []
      else (case subject of
              [] \<Rightarrow> False
            | value # ss \<Rightarrow>
                if token = ''*'' then tokens_match ps ss
                else if value = token then tokens_match ps ss else False))"

definition nats_pattern_matches :: "str \<Rightarrow> str \<Rightarrow> bool" where
  "nats_pattern_matches pattern subject = tokens_match (tokens pattern) (tokens subject)"

fun tokens_cover :: "str list \<Rightarrow> str list \<Rightarrow> bool" where
  "tokens_cover [] [] = True"
| "tokens_cover [] (_ # _) = False"
| "tokens_cover (c # cs) [] = False"
| "tokens_cover (c # cs) (d # ds) =
     (if c = ''>'' then True
      else if d = ''>'' then False
      else if c = ''*'' then tokens_cover cs ds
      else if c = d then tokens_cover cs ds
      else False)"

definition nats_pattern_covers :: "str \<Rightarrow> str \<Rightarrow> bool" where
  "nats_pattern_covers configured declared = tokens_cover (tokens configured) (tokens declared)"

definition valid_nats_subject :: "str \<Rightarrow> bool" where
  "valid_nats_subject subject =
     (subject \<noteq> [] \<and> \<not> has_whitespace subject \<and>
      list_all (\<lambda>token. token \<noteq> [] \<and> token \<noteq> ''*'' \<and> token \<noteq> ''>'') (tokens subject))"

section \<open>Token-level characterisations\<close>

definition plain_token :: "str \<Rightarrow> bool" where
  "plain_token t \<longleftrightarrow> t \<noteq> [] \<and> CHR ''.'' \<notin> set t \<and> \<not> has_whitespace t"

definition subject_tokens :: "str list \<Rightarrow> bool" where
  "subject_tokens ts \<longleftrightarrow> ts \<noteq> [] \<and> (\<forall>t\<in>set ts. plain_token t \<and> t \<noteq> ''*'' \<and> t \<noteq> ''>'')"

text \<open>A valid pattern: plain tokens, and the multi-token wildcard only at the end.\<close>

fun pattern_tokens :: "str list \<Rightarrow> bool" where
  "pattern_tokens [] = True"
| "pattern_tokens (t # ts) \<longleftrightarrow> plain_token t \<and> (t = ''>'' \<longrightarrow> ts = []) \<and> pattern_tokens ts"

lemma has_whitespace_Nil [simp]: "\<not> has_whitespace []"
  by (simp add: has_whitespace_def ws_encodings_def)

lemma plain_token_in_split:
  "t \<in> set (tokens s) \<Longrightarrow> plain_token t \<longleftrightarrow> t \<noteq> [] \<and> \<not> has_whitespace t"
  using split_on_no_sep [of t "CHR ''.''" s] by (simp add: plain_token_def)

lemma valid_nats_subject_tokens:
  "valid_nats_subject s \<longleftrightarrow> subject_tokens (tokens s)"
proof (cases "s = []")
  case True
  then show ?thesis by (simp add: valid_nats_subject_def subject_tokens_def plain_token_def)
next
  case False
  have "valid_nats_subject s \<longleftrightarrow>
      (\<forall>t\<in>set (tokens s). (t \<noteq> [] \<and> \<not> has_whitespace t) \<and> t \<noteq> ''*'' \<and> t \<noteq> ''>'')"
    unfolding valid_nats_subject_def list_all_iff has_whitespace_split_dot [of s]
    using False by blast
  also have "\<dots> \<longleftrightarrow> subject_tokens (tokens s)"
    unfolding subject_tokens_def by (simp add: plain_token_in_split cong: ball_cong)
  finally show ?thesis .
qed

lemma pattern_tokens_enumerate:
  "list_all (\<lambda>(i, t). P t \<and> (t = ''>'' \<longrightarrow> i + 1 = n + length ts)) (enumerate n ts) \<Longrightarrow>
   (\<And>t. t \<in> set ts \<Longrightarrow> P t \<Longrightarrow> plain_token t) \<Longrightarrow> pattern_tokens ts"
proof (induction ts arbitrary: n)
  case Nil
  then show ?case by simp
next
  case (Cons t ts)
  have "pattern_tokens ts"
    by (rule Cons.IH [of "Suc n"]) (use Cons.prems in auto)
  with Cons.prems show ?case by auto
qed

lemma valid_pattern_tokens:
  assumes "valid_microservice_pattern p c"
  shows "pattern_tokens (tokens p)"
proof (rule pattern_tokens_enumerate [where n = 0 and P = "\<lambda>t. t \<noteq> []"])
  show "list_all (\<lambda>(i, t). t \<noteq> [] \<and> (t = ''>'' \<longrightarrow> i + 1 = 0 + length (tokens p)))
      (enumerate 0 (tokens p))"
    using assms
    by (auto simp: valid_microservice_pattern_def Let_def list_all_iff split: if_splits)
next
  fix t assume "t \<in> set (tokens p)" "t \<noteq> []"
  with assms show "plain_token t"
    by (auto simp: plain_token_def valid_microservice_pattern_def has_whitespace_split_dot [of p]
        dest: split_on_no_sep split: if_splits)
qed

lemma valid_command_tokens:
  assumes "valid_microservice_pattern p True"
  shows "subject_tokens (tokens p)"
proof -
  have "t \<noteq> ''*'' \<and> t \<noteq> ''>'' \<and> plain_token t" if t: "t \<in> set (tokens p)" for t
  proof -
    from t obtain i where "i < length (tokens p)" "t = tokens p ! i"
      by (auto simp: in_set_conv_nth)
    then have "(i, t) \<in> set (enumerate 0 (tokens p))"
      by (auto simp: in_set_enumerate_eq)
    with assms have "t \<noteq> [] \<and> CHR ''*'' \<notin> set t \<and> CHR ''>'' \<notin> set t"
      by (fastforce simp: valid_microservice_pattern_def Let_def list_all_iff split: if_splits)
    with assms t show ?thesis
      by (auto simp: plain_token_def valid_microservice_pattern_def has_whitespace_split_dot [of p]
          dest: split_on_no_sep split: if_splits)
  qed
  then show ?thesis by (auto simp: subject_tokens_def)
qed

lemma tokens_join_subject:
  assumes "subject_tokens ts"
  shows "tokens (join ''.'' ts) = ts" and "valid_nats_subject (join ''.'' ts)"
proof -
  from assms show eq: "tokens (join ''.'' ts) = ts"
    by (intro split_on_join) (auto simp: subject_tokens_def plain_token_def)
  with assms show "valid_nats_subject (join ''.'' ts)"
    by (simp add: valid_nats_subject_tokens)
qed

text \<open>Quantifying over subjects is quantifying over their token lists.\<close>

lemma ex_subject_tokens:
  "(\<exists>s. valid_nats_subject s \<and> Q (tokens s)) \<longleftrightarrow> (\<exists>ts. subject_tokens ts \<and> Q ts)"
  by (metis tokens_join_subject valid_nats_subject_tokens)

lemma subject_tokens_Cons:
  "subject_tokens (t # ts) \<longleftrightarrow>
     plain_token t \<and> t \<noteq> ''*'' \<and> t \<noteq> ''>'' \<and> (ts = [] \<or> subject_tokens ts)"
  by (auto simp: subject_tokens_def)

text \<open>Lists of subject tokens that may be empty: the tails of subjects.\<close>

definition tail_tokens :: "str list \<Rightarrow> bool" where
  "tail_tokens ts \<longleftrightarrow> (\<forall>t\<in>set ts. plain_token t \<and> t \<noteq> ''*'' \<and> t \<noteq> ''>'')"

lemma tail_tokens_simps [simp]:
  "tail_tokens []"
  "tail_tokens (t # ts) \<longleftrightarrow> plain_token t \<and> t \<noteq> ''*'' \<and> t \<noteq> ''>'' \<and> tail_tokens ts"
  by (auto simp: tail_tokens_def)

lemma subject_tail: "subject_tokens ts \<longleftrightarrow> ts \<noteq> [] \<and> tail_tokens ts"
  by (auto simp: subject_tokens_def tail_tokens_def)

lemma plain_x [simp]: "plain_token ''x''" "plain_token ''y''"
  by (simp_all add: plain_token_def has_whitespace_def ws_encodings_def sublist_Cons_right)

section \<open>Overlap\<close>

text \<open>Replacing each wildcard by a concrete token gives a subject the pattern matches.\<close>

definition instance_of :: "str list \<Rightarrow> str list" where
  "instance_of ps = map (\<lambda>t. if t = ''*'' \<or> t = ''>'' then ''x'' else t) ps"

lemma instance_of_simps [simp]:
  "instance_of [] = []"
  "instance_of (t # ts) = (if t = ''*'' \<or> t = ''>'' then ''x'' else t) # instance_of ts"
  by (simp_all add: instance_of_def)

lemma instance_of_matches:
  "pattern_tokens ps \<Longrightarrow> tokens_match ps (instance_of ps) \<and> tail_tokens (instance_of ps)"
  by (induction ps) auto

lemma tokens_match_Nil_subject: "tokens_match ps [] \<longleftrightarrow> ps = []"
  by (cases ps) auto

lemma tokens_match_Cons:
  "t \<noteq> ''>'' \<Longrightarrow> tokens_match (t # ps) (v # ss) \<longleftrightarrow> (t = ''*'' \<or> v = t) \<and> tokens_match ps ss"
  by auto

lemma tokens_intersect_sound:
  "tokens_match ps ts \<Longrightarrow> tokens_match qs ts \<Longrightarrow> tokens_intersect ps qs"
proof (induction ps qs arbitrary: ts rule: tokens_intersect.induct)
  case (2 left ls right rs)
  show ?case
  proof (cases "left = ''>'' \<or> right = ''>''")
    case False
    with 2 show ?thesis by (cases ts) (auto split: if_splits)
  qed simp
qed (auto simp: tokens_match_Nil_subject split: if_splits)

lemma tokens_intersect_complete:
  "tokens_intersect ps qs \<Longrightarrow> pattern_tokens ps \<Longrightarrow> pattern_tokens qs \<Longrightarrow>
   \<exists>ts. tail_tokens ts \<and> tokens_match ps ts \<and> tokens_match qs ts"
proof (induction ps qs rule: tokens_intersect.induct)
  case 1
  show ?case by (rule exI [of _ "[]"]) simp
next
  case (2 left ls right rs)
  consider "left = ''>''" | "right = ''>''" | "left \<noteq> ''>''" "right \<noteq> ''>''" by blast
  then show ?case
  proof cases
    case 1
    with "2.prems"(3) instance_of_matches [of "right # rs"] show ?thesis
      by (intro exI [of _ "instance_of (right # rs)"]) auto
  next
    case 2
    with "2.prems"(2) instance_of_matches [of "left # ls"] show ?thesis
      by (intro exI [of _ "instance_of (left # ls)"]) auto
  next
    case 3
    with 2 obtain ts where ts: "tail_tokens ts" "tokens_match ls ts" "tokens_match rs ts"
      by (auto split: if_splits)
    let ?v = "if left \<noteq> ''*'' then left else if right \<noteq> ''*'' then right else ''x''"
    have "tokens_match (left # ls) (?v # ts)" "tokens_match (right # rs) (?v # ts)"
      "tail_tokens (?v # ts)"
      using 3 2 ts by (auto split: if_splits)
    then show ?thesis by blast
  qed
qed simp_all

lemma tokens_intersect_sym: "tokens_intersect ps qs = tokens_intersect qs ps"
  by (induction ps qs rule: tokens_intersect.induct) auto

lemma tokens_match_nonempty: "tokens_match ps ts \<Longrightarrow> ps \<noteq> [] \<Longrightarrow> ts \<noteq> []"
  by (cases ps) (auto split: if_splits)

text \<open>C34: for two valid patterns the overlap test answers whether some concrete subject is
  matched by both of them under the matching relation the transports use for delivery.\<close>

theorem patterns_intersect_iff_common_subject:
  assumes "valid_microservice_pattern p c" and "valid_microservice_pattern q d"
  shows "microservice_patterns_intersect p q \<longleftrightarrow>
    (\<exists>s. valid_nats_subject s \<and> nats_pattern_matches p s \<and> nats_pattern_matches q s)"
proof
  assume "microservice_patterns_intersect p q"
  with assms obtain ts where ts: "tail_tokens ts" "tokens_match (tokens p) ts"
      "tokens_match (tokens q) ts"
    using tokens_intersect_complete valid_pattern_tokens
    unfolding microservice_patterns_intersect_def by blast
  then have "subject_tokens ts"
    using tokens_match_nonempty [OF ts(2)] by (simp add: subject_tail)
  with ts tokens_join_subject [of ts] show "\<exists>s. valid_nats_subject s \<and>
      nats_pattern_matches p s \<and> nats_pattern_matches q s"
    unfolding nats_pattern_matches_def by metis
next
  assume "\<exists>s. valid_nats_subject s \<and> nats_pattern_matches p s \<and> nats_pattern_matches q s"
  then show "microservice_patterns_intersect p q"
    unfolding microservice_patterns_intersect_def nats_pattern_matches_def
    using tokens_intersect_sound by blast
qed

theorem patterns_intersect_witness:
  "microservice_patterns_intersect ''a.*'' ''*.b'' \<longleftrightarrow>
    (\<exists>s. valid_nats_subject s \<and> nats_pattern_matches ''a.*'' s \<and> nats_pattern_matches ''*.b'' s)"
  by (rule patterns_intersect_iff_common_subject [where c = False and d = False])
    (simp_all add: valid_microservice_pattern_def has_whitespace_def ws_encodings_def
      sublist_Cons_right)

section \<open>Cover\<close>

lemma tokens_cover_sound:
  "tokens_cover cs ds \<Longrightarrow> tokens_match ds ts \<Longrightarrow> tokens_match cs ts"
proof (induction cs ds arbitrary: ts rule: tokens_cover.induct)
  case (4 c cs d ds)
  have ne: "ts \<noteq> []" using "4.prems"(2) tokens_match_nonempty by blast
  show ?case
  proof (cases "c = ''>''")
    case False
    with 4 ne show ?thesis by (cases ts) (auto split: if_splits)
  qed (use ne in simp)
qed auto

lemma other_token:
  obtains v where "plain_token v" "v \<noteq> ''*''" "v \<noteq> ''>''" "v \<noteq> t"
  by (cases "t = ''x''") (use that [of "''x''"] that [of "''y''"] in auto)

lemma tokens_cover_complete:
  "\<not> tokens_cover cs ds \<Longrightarrow> pattern_tokens cs \<Longrightarrow> pattern_tokens ds \<Longrightarrow>
   \<exists>ts. tail_tokens ts \<and> tokens_match ds ts \<and> \<not> tokens_match cs ts"
proof (induction cs ds rule: tokens_cover.induct)
  case 1
  then show ?case by simp
next
  case (2 d ds)
  with instance_of_matches [of "d # ds"] show ?case
    by (intro exI [of _ "instance_of (d # ds)"]) auto
next
  case (3 c cs)
  show ?case by (rule exI [of _ "[]"]) (simp add: tokens_match_Nil_subject)
next
  case (4 c cs d ds)
  obtain v where v: "plain_token v" "v \<noteq> ''*''" "v \<noteq> ''>''" "v \<noteq> c" by (rule other_token)
  have c: "c \<noteq> ''>''" using "4.prems"(1) by (auto split: if_splits)
  consider "d = ''>''" "c \<noteq> ''*''" | "d = ''>''" "c = ''*''"
    | "d \<noteq> ''>''" "c = ''*'' \<or> c = d" | "d \<noteq> ''>''" "c \<noteq> ''*''" "c \<noteq> d" by blast
  then show ?case
  proof cases
    case 1
    with v c show ?thesis by (intro exI [of _ "[v]"]) auto
  next
    case 2
    show ?thesis
    proof (cases cs)
      case Nil
      with 2 show ?thesis by (intro exI [of _ "[''x'', ''x'']"]) auto
    next
      case Cons
      with 2 show ?thesis
        by (intro exI [of _ "[''x'']"]) (auto simp: tokens_match_Nil_subject)
    qed
  next
    case 3
    with 4 c obtain ts where ts: "tail_tokens ts" "tokens_match ds ts" "\<not> tokens_match cs ts"
      by (auto split: if_splits)
    let ?v = "if d = ''*'' then ''x'' else d"
    have "tail_tokens (?v # ts)" "tokens_match (d # ds) (?v # ts)"
      using 3 4 ts by (auto split: if_splits)
    moreover have "\<not> tokens_match (c # cs) (?v # ts)"
      using ts c by (simp add: tokens_match_Cons)
    ultimately show ?thesis by blast
  next
    case 4
    have inst: "tokens_match ds (instance_of ds)" "tail_tokens (instance_of ds)"
      using "4.prems"(3) instance_of_matches by auto
    let ?v = "if d = ''*'' then v else d"
    have "tail_tokens (?v # instance_of ds)" "tokens_match (d # ds) (?v # instance_of ds)"
      using 4 "4.prems"(3) inst v by auto
    moreover have "\<not> tokens_match (c # cs) (?v # instance_of ds)"
      using 4 v c by (simp add: tokens_match_Cons)
    ultimately show ?thesis by blast
  qed
qed

text \<open>A configured stream pattern covers a declared pattern exactly when every concrete
  subject the declared pattern matches is matched by the configured one.\<close>

theorem pattern_covers_iff_all_subjects:
  assumes "valid_microservice_pattern configured c" and "valid_microservice_pattern declared d"
  shows "nats_pattern_covers configured declared \<longleftrightarrow>
    (\<forall>s. valid_nats_subject s \<and> nats_pattern_matches declared s \<longrightarrow>
          nats_pattern_matches configured s)"
proof
  assume "nats_pattern_covers configured declared"
  then show "\<forall>s. valid_nats_subject s \<and> nats_pattern_matches declared s \<longrightarrow>
      nats_pattern_matches configured s"
    unfolding nats_pattern_covers_def nats_pattern_matches_def using tokens_cover_sound by blast
next
  assume all: "\<forall>s. valid_nats_subject s \<and> nats_pattern_matches declared s \<longrightarrow>
      nats_pattern_matches configured s"
  show "nats_pattern_covers configured declared"
  proof (rule ccontr)
    assume "\<not> nats_pattern_covers configured declared"
    with assms obtain ts where ts: "tail_tokens ts" "tokens_match (tokens declared) ts"
        "\<not> tokens_match (tokens configured) ts"
      using tokens_cover_complete valid_pattern_tokens unfolding nats_pattern_covers_def by blast
    then have "subject_tokens ts"
      using tokens_match_nonempty [OF ts(2)] by (simp add: subject_tail)
    with all ts tokens_join_subject [of ts] show False
      unfolding nats_pattern_matches_def by metis
  qed
qed

theorem pattern_covers_witness:
  "nats_pattern_covers ''a.>'' ''a.*'' \<longleftrightarrow>
    (\<forall>s. valid_nats_subject s \<and> nats_pattern_matches ''a.*'' s \<longrightarrow> nats_pattern_matches ''a.>'' s)"
  by (rule pattern_covers_iff_all_subjects [where c = False and d = False])
    (simp_all add: valid_microservice_pattern_def has_whitespace_def ws_encodings_def
      sublist_Cons_right)

section \<open>Command patterns are concrete\<close>

lemma tokens_match_concrete:
  "tail_tokens ps \<Longrightarrow> tokens_match ps ts \<longleftrightarrow> ts = ps"
  by (induction ps arbitrary: ts) (auto split: list.splits)

lemma command_pattern_matches_only_itself:
  assumes "valid_microservice_pattern p True"
  shows "nats_pattern_matches p s \<longleftrightarrow> s = p"
  using valid_command_tokens [OF assms]
  by (auto simp: nats_pattern_matches_def subject_tail tokens_match_concrete split_on_inj)

lemma command_pattern_is_subject:
  "valid_microservice_pattern p True \<Longrightarrow> valid_nats_subject p"
  by (simp add: valid_nats_subject_tokens valid_command_tokens)

end
