(* ===== verification/ModuleGraph.thy ===== *)
theory ModuleGraph
  imports Containers Patterns
begin

text \<open>
  Module metadata and the discovery of the module graph, \<open>crates/caelix-core/src/module.rs\<close>.

  The module types of a program are a finite type \<open>'m\<close>; a program maps each of them to its name
  and to the metadata its \<open>register\<close> function returns. \<open>ModuleDef\<close> is the module type itself.
  A panic of the source (an index out of range, an \<open>expect\<close>, a missing map entry) is \<open>None\<close>, an
  error is \<open>Some (Inl e)\<close>. The loops \<open>for import in imports \{ visit(import)?; \}\<close> and
  \<open>for child in imports \{ order(child); \}\<close> are recursions over the list of pending imports whose
  head is processed by the inlined body of \<open>visit\<close> or \<open>order\<close>.
\<close>

section \<open>Metadata\<close>

record controller_def =
  cd_provider :: provider_def
  cd_validate_routes :: "unit result"
  cd_register :: nat

datatype gateway_kind = WebSocketGateway | SocketIoGateway

record gateway_def =
  gd_path :: str
  gd_type :: type_id
  gd_provider :: provider_def
  gd_kind :: gateway_kind

record event_handler_def =
  eh_type :: type_id
  eh_name :: str
  eh_register :: "history \<Rightarrow> resolver \<Rightarrow> unit result"

datatype handler_kind = Command | Event

text \<open>A message handler: its closure is identified by a number.\<close>

record message_handler =
  mh_kind :: handler_kind
  mh_pattern :: str
  mh_closure :: nat

record microservice_def =
  ms_provider :: provider_def
  ms_handlers :: "message_handler list"

record 'm module_metadata =
  md_imports :: "'m list"
  md_providers :: "provider_def list"
  md_controllers :: "controller_def list"
  md_event_handlers :: "event_handler_def list"
  md_gateways :: "gateway_def list"
  md_microservices :: "microservice_def list"
  md_exports :: "provider_dependency list"
  md_global :: bool

definition ModuleMetadata_new :: "'m module_metadata" where
  "ModuleMetadata_new =
     \<lparr>md_imports = [], md_providers = [], md_controllers = [], md_event_handlers = [],
      md_gateways = [], md_microservices = [], md_exports = [], md_global = False\<rparr>"

definition ModuleMetadata_global :: "'m module_metadata" where
  "ModuleMetadata_global = ModuleMetadata_new\<lparr>md_global := True\<rparr>"

definition md_import :: "'m \<Rightarrow> 'm module_metadata \<Rightarrow> 'm module_metadata" where
  "md_import m md = md\<lparr>md_imports := md_imports md @ [m]\<rparr>"

definition md_provider :: "injectable \<Rightarrow> 'm module_metadata \<Rightarrow> 'm module_metadata" where
  "md_provider t md = md\<lparr>md_providers := md_providers md @ [ProviderDef_of t]\<rparr>"

definition md_provider_async_factory ::
    "type_id \<Rightarrow> str \<Rightarrow> provider_dependency list \<Rightarrow> (history \<Rightarrow> resolver \<Rightarrow> str + nat) \<Rightarrow>
     'm module_metadata \<Rightarrow> 'm module_metadata" where
  "md_provider_async_factory ty name deps factory md =
     md\<lparr>md_providers := md_providers md @ [ProviderDef_async_factory ty name deps factory]\<rparr>"

definition add_route_dependency ::
    "provider_dependency \<Rightarrow> provider_dependency list \<Rightarrow> provider_dependency list" where
  "add_route_dependency d ds =
     (if list_ex (\<lambda>existing. dep_type existing = dep_type d) ds then ds else ds @ [d])"

definition ControllerDef_of ::
    "injectable \<Rightarrow> provider_dependency list \<Rightarrow> unit result \<Rightarrow> nat \<Rightarrow> controller_def" where
  "ControllerDef_of t route_dependencies validate_routes reg =
     (let provider = ProviderDef_of t in
      \<lparr>cd_provider = provider\<lparr>pd_deps := fold add_route_dependency route_dependencies (pd_deps provider)\<rparr>,
       cd_validate_routes = validate_routes, cd_register = reg\<rparr>)"

definition md_controller :: "controller_def \<Rightarrow> 'm module_metadata \<Rightarrow> 'm module_metadata" where
  "md_controller c md = md\<lparr>md_controllers := md_controllers md @ [c]\<rparr>"

definition GatewayDef_websocket :: "injectable \<Rightarrow> str \<Rightarrow> gateway_def" where
  "GatewayDef_websocket t path =
     \<lparr>gd_path = path, gd_type = inj_type t, gd_provider = ProviderDef_of t,
      gd_kind = WebSocketGateway\<rparr>"

definition GatewayDef_socket_io :: "injectable \<Rightarrow> str \<Rightarrow> gateway_def" where
  "GatewayDef_socket_io t path =
     \<lparr>gd_path = path, gd_type = inj_type t, gd_provider = ProviderDef_of t,
      gd_kind = SocketIoGateway\<rparr>"

definition md_gateway :: "gateway_def \<Rightarrow> 'm module_metadata \<Rightarrow> 'm module_metadata" where
  "md_gateway g md = md\<lparr>md_gateways := md_gateways md @ [g]\<rparr>"

definition md_microservice :: "microservice_def \<Rightarrow> 'm module_metadata \<Rightarrow> 'm module_metadata" where
  "md_microservice m md = md\<lparr>md_microservices := md_microservices md @ [m]\<rparr>"

text \<open>
  \<open>EventHandlerDef::of\<close> and \<open>for_event\<close>: registering resolves the handler, then the event bus,
  then adds the handler to the bus; the last step is the argument \<open>register_into\<close>.
\<close>

definition EventHandlerDef_of ::
    "type_id \<Rightarrow> str \<Rightarrow> (history \<Rightarrow> nat \<Rightarrow> nat \<Rightarrow> unit result) \<Rightarrow> event_handler_def" where
  "EventHandlerDef_of ty name register_into =
     \<lparr>eh_type = ty, eh_name = name,
      eh_register = (\<lambda>h resolve.
        bind_result (resolve ty name) (\<lambda>handler.
        bind_result (resolve event_bus_type ''EventBus'') (\<lambda>bus. register_into h handler bus)))\<rparr>"

definition md_event_handler :: "event_handler_def \<Rightarrow> 'm module_metadata \<Rightarrow> 'm module_metadata" where
  "md_event_handler eh md = md\<lparr>md_event_handlers := md_event_handlers md @ [eh]\<rparr>"

definition md_export :: "provider_dependency \<Rightarrow> 'm module_metadata \<Rightarrow> 'm module_metadata" where
  "md_export d md = md\<lparr>md_exports := md_exports md @ [d]\<rparr>"

record 'm module_decl =
  mod_name :: str
  mod_register :: "'m module_metadata"

type_synonym 'm program = "'m \<Rightarrow> 'm module_decl"

record 'm module_node =
  mn_type :: 'm
  mn_name :: str
  mn_metadata :: "'m module_metadata"
  mn_imports :: "nat list"

type_synonym 'm module_graph = "'m module_node list"

section \<open>Discovery\<close>

fun validate_all :: "controller_def list \<Rightarrow> unit result" where
  "validate_all [] = Inr ()"
| "validate_all (c # cs) = (case cd_validate_routes c of Inl e \<Rightarrow> Inl e | Inr _ \<Rightarrow> validate_all cs)"

fun position :: "('a \<Rightarrow> bool) \<Rightarrow> 'a list \<Rightarrow> nat option" where
  "position P [] = None"
| "position P (x # xs) = (if P x then Some 0 else map_option Suc (position P xs))"

text \<open>The graph under construction, the visit states (1: on the path, 2: done) and the path.\<close>

type_synonym 'm visit_state = "'m module_graph \<times> ('m \<Rightarrow> nat option) \<times> str list"

abbreviation node_for :: "'m program \<Rightarrow> 'm \<Rightarrow> 'm module_node" where
  "node_for prog m \<equiv>
     \<lparr>mn_type = m, mn_name = mod_name (prog m),
      mn_metadata = (mod_register (prog m))\<lparr>md_imports := []\<rparr>, mn_imports = []\<rparr>"

function visit_all ::
    "('m::finite) program \<Rightarrow> 'm list \<Rightarrow> 'm visit_state \<Rightarrow> (nat list \<times> 'm visit_state) result option"
where
  "visit_all prog [] st = Some (Inr ([], st))"
| "visit_all prog (m # ms) (graph, states, path) =
     (if states m = Some 2 then
        (case position (\<lambda>node. mn_type node = m) graph of
           None \<Rightarrow> None
         | Some index \<Rightarrow>
             (case visit_all prog ms (graph, states, path) of
                Some (Inr (indices, st)) \<Rightarrow> Some (Inr (index # indices, st))
              | r \<Rightarrow> r))
      else if states m = Some 1 then
        Some (Inl (startup_error (''circular module import: '' @
                     join '' -> '' (path @ [mod_name (prog m)]))))
      else
        (let metadata = mod_register (prog m) in
         case validate_all (md_controllers metadata) of
           Inl e \<Rightarrow> Some (Inl e)
         | Inr _ \<Rightarrow>
             (let index = length graph in
              case visit_all prog (md_imports metadata)
                     (graph @ [node_for prog m], states(m \<mapsto> 1), path @ [mod_name (prog m)]) of
                Some (Inr (children, graph', states', path')) \<Rightarrow>
                  (case visit_all prog ms
                          (graph'[index := (graph' ! index)\<lparr>mn_imports := children\<rparr>],
                           states'(m \<mapsto> 2), butlast path') of
                     Some (Inr (indices, st)) \<Rightarrow> Some (Inr (index # indices, st))
                   | r \<Rightarrow> r)
              | r \<Rightarrow> r)))"
  by pat_completeness auto

text \<open>Visited types stay visited: what the termination of the recursion rests on.\<close>

definition visited :: "('m \<Rightarrow> nat option) \<Rightarrow> 'm set" where
  "visited states = {m. states m = Some 1 \<or> states m = Some 2}"

lemma visited_upd [simp]:
  "visited (states(m \<mapsto> Suc 0)) = insert m (visited states)"
  "visited (states(m \<mapsto> 2)) = insert m (visited states)"
  "visited (\<lambda>a. if a = m then Some (Suc 0) else states a) = insert m (visited states)"
  "visited (\<lambda>a. if a = m then Some 2 else states a) = insert m (visited states)"
  by (auto simp: visited_def)

lemma visit_all_visited_mono:
  "visit_all_dom (prog, ms, st) \<Longrightarrow> visit_all prog ms st = Some (Inr (indices, st')) \<Longrightarrow>
   visited (fst (snd st)) \<subseteq> visited (fst (snd st'))"
proof (induction prog ms st arbitrary: indices st' rule: visit_all.pinduct)
  case (1 prog st)
  then show ?case by (simp add: visit_all.psimps)
next
  case (2 prog m ms graph states path)
  show ?case
  proof (cases "states m = Some 2")
    case True
    with 2 show ?thesis
      by (auto simp: visit_all.psimps split: option.splits sum.splits prod.splits)
  next
    case not2: False
    show ?thesis
    proof (cases "states m = Some 1")
      case True
      with "2.hyps" "2.prems" not2 show ?thesis by (simp add: visit_all.psimps)
    next
      case not1: False
      from "2.prems" "2.hyps" not1 not2 obtain children graph' states' path' indices' where
        v: "validate_all (md_controllers (mod_register (prog m))) = Inr ()" and
        a: "visit_all prog (md_imports (mod_register (prog m)))
              (graph @ [node_for prog m], states(m \<mapsto> 1), path @ [mod_name (prog m)]) =
            Some (Inr (children, graph', states', path'))" and
        b: "visit_all prog ms (graph'[length graph := (graph' ! length graph)\<lparr>mn_imports := children\<rparr>],
              states'(m \<mapsto> 2), butlast path') = Some (Inr (indices', st'))"
        by (auto simp: visit_all.psimps Let_def split: option.splits sum.splits prod.splits)
      from "2.IH"(2) [OF not2 not1 refl v refl a]
      have "insert m (visited states) \<subseteq> visited states'" by simp
      moreover from "2.IH"(3) [OF not2 not1 refl v refl a refl refl refl refl b]
      have "insert m (visited states') \<subseteq> visited (fst (snd st'))" by simp
      ultimately show ?thesis by auto
    qed
  qed
qed

termination visit_all
proof (relation "inv_image (finite_psubset <*lex*> less_than)
    (\<lambda>(prog, ms, graph, states, path). (UNIV - visited states, length ms))", goal_cases)
  case 1
  show ?case by (intro wf_inv_image wf_lex_prod wf_finite_psubset wf_less_than)
next
  case (2 prog m ms graph states path x2)
  then show ?case by simp
next
  case (3 prog m ms graph states path)
  then have "m \<notin> visited states" by (simp add: visited_def)
  then show ?case by (auto simp: finite_psubset_def)
next
  case (4 prog m ms graph states path metadata u index r p children q graph' w states' path')
  then have "visited (states(m \<mapsto> 1)) \<subseteq> visited states'"
    using visit_all_visited_mono by fastforce
  moreover from 4 have "m \<notin> visited states" by (simp add: visited_def)
  ultimately show ?case by (auto simp: finite_psubset_def)
qed


section \<open>What a visit establishes\<close>

definition imports_of :: "'m program \<Rightarrow> 'm \<Rightarrow> 'm list" where
  "imports_of prog m = md_imports (mod_register (prog m))"

definition import_rel :: "'m program \<Rightarrow> ('m \<times> 'm) set" where
  "import_rel prog = {(m, c). c \<in> set (imports_of prog m)}"

text \<open>A set of module types that is closed under imports and whose imports are ranked.\<close>

definition ranked :: "'m program \<Rightarrow> 'm set \<Rightarrow> bool" where
  "ranked prog D \<longleftrightarrow>
     (\<exists>r :: 'm \<Rightarrow> nat. \<forall>m\<in>D. \<forall>c\<in>set (imports_of prog m). c \<in> D \<and> r c < r m)"

lemma ranked_empty: "ranked prog {}"
  by (simp add: ranked_def)

lemma ranked_insert:
  assumes "ranked prog D" "set (imports_of prog m) \<subseteq> D" "m \<notin> D"
  shows "ranked prog (insert m D)"
proof -
  from assms(1) obtain r :: "'a \<Rightarrow> nat" where
    r: "\<forall>m\<in>D. \<forall>c\<in>set (imports_of prog m). c \<in> D \<and> r c < r m"
    by (auto simp: ranked_def)
  let ?r = "r(m := Suc (sum_list (map r (imports_of prog m))))"
  have "\<forall>k\<in>insert m D. \<forall>c\<in>set (imports_of prog k). c \<in> insert m D \<and> ?r c < ?r k"
  proof (intro ballI)
    fix k c assume k: "k \<in> insert m D" and c: "c \<in> set (imports_of prog k)"
    show "c \<in> insert m D \<and> ?r c < ?r k"
    proof (cases "k = m")
      case True
      with c assms(2,3) have "c \<in> D" "c \<noteq> m" by auto
      with True c show ?thesis by (auto intro: member_le_sum_list simp: less_Suc_eq_le)
    next
      case False
      with k c r have "c \<in> D" "r c < r k" by auto
      with False assms(3) show ?thesis by auto
    qed
  qed
  then show ?thesis unfolding ranked_def by blast
qed

lemma ranked_closed:
  assumes "ranked prog D" "m \<in> D" "(m, c) \<in> (import_rel prog)\<^sup>*"
  shows "c \<in> D"
  using assms(3) assms(2)
  by (induction rule: rtrancl_induct) (use assms(1) in \<open>auto simp: ranked_def import_rel_def\<close>)

lemma ranked_acyclic:
  assumes "ranked prog D" "m \<in> D"
  shows "(m, m) \<notin> (import_rel prog)\<^sup>+"
proof -
  from assms(1) obtain r :: "'a \<Rightarrow> nat" where
    r: "\<forall>m\<in>D. \<forall>c\<in>set (imports_of prog m). c \<in> D \<and> r c < r m"
    by (auto simp: ranked_def)
  have "c \<in> D \<and> r c < r m" if "(m, c) \<in> (import_rel prog)\<^sup>+" for c
    using that
  proof (induction rule: trancl_induct)
    case (base c)
    with r assms(2) show ?case by (auto simp: import_rel_def)
  next
    case (step c d)
    with r have "d \<in> D \<and> r d < r c" by (auto simp: import_rel_def)
    with step show ?case by auto
  qed
  then show ?thesis by blast
qed

text \<open>A list of node indices names a list of module types whose visit is done.\<close>

definition names_done ::
    "'m module_graph \<Rightarrow> ('m \<Rightarrow> nat option) \<Rightarrow> nat list \<Rightarrow> 'm list \<Rightarrow> bool" where
  "names_done g s is ms \<longleftrightarrow>
     list_all2 (\<lambda>i m. i < length g \<and> mn_type (g ! i) = m \<and> s m = Some 2) is ms"

definition node_ok :: "'m program \<Rightarrow> 'm module_graph \<Rightarrow> ('m \<Rightarrow> nat option) \<Rightarrow> 'm module_node \<Rightarrow> bool" where
  "node_ok prog g s n \<longleftrightarrow>
     mn_name n = mod_name (prog (mn_type n)) \<and>
     mn_metadata n = (mod_register (prog (mn_type n)))\<lparr>md_imports := []\<rparr> \<and>
     (s (mn_type n) = Some 2 \<longrightarrow> names_done g s (mn_imports n) (imports_of prog (mn_type n)))"

definition graph_wf :: "'m program \<Rightarrow> 'm module_graph \<Rightarrow> ('m \<Rightarrow> nat option) \<Rightarrow> bool" where
  "graph_wf prog g s \<longleftrightarrow>
     distinct (map mn_type g) \<and>
     mn_type ` set g = visited s \<and>
     (\<forall>n\<in>set g. node_ok prog g s n) \<and>
     ranked prog {m. s m = Some 2}"

lemma names_done_mono:
  "names_done g s is ms \<Longrightarrow> \<forall>m. s m = Some 2 \<longrightarrow> s' m = Some 2 \<Longrightarrow> length g \<le> length g' \<Longrightarrow>
   \<forall>i<length g. mn_type (g' ! i) = mn_type (g ! i) \<Longrightarrow> names_done g' s' is ms"
  unfolding names_done_def by (erule list_all2_mono) auto

lemma position_Some: "position P xs = Some i \<Longrightarrow> i < length xs \<and> P (xs ! i)"
  by (induction xs arbitrary: i) (auto split: if_splits)

lemma position_None: "position P xs = None \<longleftrightarrow> (\<forall>x\<in>set xs. \<not> P x)"
  by (induction xs) auto

lemma graph_wf_open:
  assumes wf: "graph_wf prog g s" and m: "m \<notin> visited s"
  shows "graph_wf prog (g @ [node_for prog m]) (s(m \<mapsto> 1))"
proof -
  have s2: "{k. (s(m \<mapsto> 1)) k = Some 2} = {k. s k = Some 2}"
    using m by (auto simp: visited_def)
  have mono: "names_done (g @ [node_for prog m]) (s(m \<mapsto> 1)) is ms" if "names_done g s is ms" for "is" ms
    using that by (rule names_done_mono) (use m in \<open>auto simp: visited_def nth_append\<close>)
  have "node_ok prog (g @ [node_for prog m]) (s(m \<mapsto> 1)) n" if "n \<in> set g" for n
    using that wf mono by (auto simp: graph_wf_def node_ok_def)
  moreover have "node_ok prog (g @ [node_for prog m]) (s(m \<mapsto> 1)) (node_for prog m)"
    by (simp add: node_ok_def)
  ultimately show ?thesis
    using wf m s2 by (auto simp: graph_wf_def)
qed

lemma graph_wf_close:
  assumes wf: "graph_wf prog g s" and i: "i < length g" "mn_type (g ! i) = m" and m: "s m = Some 1"
    and kids: "names_done g s children (imports_of prog m)"
  shows "graph_wf prog (g[i := (g ! i)\<lparr>mn_imports := children\<rparr>]) (s(m \<mapsto> 2))"
    (is "graph_wf prog ?g ?s")
proof -
  have types: "map mn_type ?g = map mn_type g"
    using i by (simp add: map_update list_update_same_conv)
  have mono: "names_done ?g ?s is ms" if "names_done g s is ms" for "is" ms
    using that by (rule names_done_mono) (use i in \<open>auto simp: nth_list_update\<close>)
  have s2: "{k. ?s k = Some 2} = insert m {k. s k = Some 2}" by auto
  from kids have sub: "set (imports_of prog m) \<subseteq> {k. s k = Some 2}"
    by (auto simp: names_done_def list_all2_conv_all_nth in_set_conv_nth)
  have "ranked prog {k. ?s k = Some 2}"
    unfolding s2 using wf sub m by (intro ranked_insert) (auto simp: graph_wf_def)
  moreover have "node_ok prog ?g ?s (?g ! j)" if "j < length g" for j
  proof (cases "j = i")
    case True
    have "node_ok prog g s (g ! i)" using wf i by (simp add: graph_wf_def)
    with True i mono [OF kids] show ?thesis by (simp add: node_ok_def)
  next
    case False
    from wf i that False have "mn_type (g ! j) \<noteq> m"
      by (auto simp: graph_wf_def distinct_conv_nth)
    moreover have "node_ok prog g s (g ! j)" using wf that by (simp add: graph_wf_def)
    ultimately show ?thesis using False mono by (auto simp: node_ok_def)
  qed
  then have "\<forall>n\<in>set ?g. node_ok prog ?g ?s n"
    by (metis in_set_conv_nth length_list_update)
  moreover have "mn_type ` set ?g = visited ?s"
  proof -
    have "mn_type ` set ?g = mn_type ` set g" using arg_cong [OF types, of set] by simp
    with wf m show ?thesis by (auto simp: graph_wf_def visited_def)
  qed
  moreover have "distinct (map mn_type ?g)" using wf types by (simp add: graph_wf_def)
  ultimately show ?thesis by (simp add: graph_wf_def)
qed

text \<open>The effect of visiting a list of imports, relative to the state before.\<close>

definition visit_post ::
    "'m program \<Rightarrow> 'm list \<Rightarrow> 'm visit_state \<Rightarrow> nat list \<Rightarrow> 'm visit_state \<Rightarrow> bool" where
  "visit_post prog ms st indices st' \<longleftrightarrow>
     (case (st, st') of ((g, s, p), (g', s', p')) \<Rightarrow>
       graph_wf prog g' s' \<and> p' = p \<and> (\<exists>ext. g' = g @ ext) \<and>
       (\<forall>m. s' m = Some 1 \<longleftrightarrow> s m = Some 1) \<and> (\<forall>m. s m = Some 2 \<longrightarrow> s' m = Some 2) \<and>
       names_done g' s' indices ms \<and>
       (\<forall>m. s' m = Some 2 \<longrightarrow> s m = Some 2 \<or> (\<exists>k\<in>set ms. (k, m) \<in> (import_rel prog)\<^sup>*)))"

lemma visit_post_Nil: "graph_wf prog g s \<Longrightarrow> visit_post prog [] (g, s, p) [] (g, s, p)"
  by (simp add: visit_post_def names_done_def)

lemma visit_post_seen:
  assumes "visit_post prog ms (g, s, p) indices st'" "i < length g" "mn_type (g ! i) = m" "s m = Some 2"
  shows "visit_post prog (m # ms) (g, s, p) (i # indices) st'"
  using assms by (cases st') (auto simp: visit_post_def names_done_def nth_append)

lemma visit_post_new:
  assumes m: "m \<notin> visited s"
    and a: "visit_post prog (imports_of prog m) (g @ [node_for prog m], s(m \<mapsto> 1), p @ [nm]) children (g1, s1, p1)"
    and b: "visit_post prog ms (g1[length g := (g1 ! length g)\<lparr>mn_imports := children\<rparr>], s1(m \<mapsto> 2), butlast p1)
              indices (g2, s2, p2)"
  shows "visit_post prog (m # ms) (g, s, p) (length g # indices) (g2, s2, p2)"
proof -
  from a obtain ext1 where g1: "g1 = (g @ [node_for prog m]) @ ext1" by (auto simp: visit_post_def)
  let ?node = "(g1 ! length g)\<lparr>mn_imports := children\<rparr>"
  have upd: "g1[length g := ?node] = g @ [?node] @ ext1"
    by (simp add: g1 list_update_append)
  from b obtain ext2 where g2: "g2 = g @ [?node] @ ext1 @ ext2"
    unfolding upd by (auto simp: visit_post_def)
  have ty: "mn_type ?node = m" by (simp add: g1 nth_append)
  have s1: "\<forall>k. s1 k = Some 1 \<longleftrightarrow> k = m \<or> s k = Some 1" "\<forall>k. k \<noteq> m \<longrightarrow> s k = Some 2 \<longrightarrow> s1 k = Some 2"
    "\<forall>k. s1 k = Some 2 \<longrightarrow> (k \<noteq> m \<and> s k = Some 2) \<or> (\<exists>c\<in>set (imports_of prog m). (c, k) \<in> (import_rel prog)\<^sup>*)"
    using a by (auto simp: visit_post_def split: if_splits)
  have s2: "\<forall>k. s2 k = Some 1 \<longleftrightarrow> k \<noteq> m \<and> s1 k = Some 1" "\<forall>k. s1 k = Some 2 \<or> k = m \<longrightarrow> s2 k = Some 2"
    "\<forall>k. s2 k = Some 2 \<longrightarrow> k = m \<or> s1 k = Some 2 \<or> (\<exists>c\<in>set ms. (c, k) \<in> (import_rel prog)\<^sup>*)"
    using b by (auto simp: visit_post_def)
  have reach: "(m, k) \<in> (import_rel prog)\<^sup>*" if "c \<in> set (imports_of prog m)" "(c, k) \<in> (import_rel prog)\<^sup>*" for c k
    using that by (auto simp: import_rel_def intro: converse_rtrancl_into_rtrancl)
  have "names_done g2 s2 (length g # indices) (m # ms)"
    using b ty s2(2) by (simp add: visit_post_def names_done_def g2 nth_append)
  moreover have "\<forall>k. s2 k = Some 1 \<longleftrightarrow> s k = Some 1"
    using s1(1) s2(1) m by (auto simp: visited_def)
  moreover have "\<forall>k. s k = Some 2 \<longrightarrow> s2 k = Some 2"
    using s1(2) s2(2) by blast
  moreover have "\<forall>k. s2 k = Some 2 \<longrightarrow> s k = Some 2 \<or> (\<exists>c\<in>set (m # ms). (c, k) \<in> (import_rel prog)\<^sup>*)"
    using s1(3) s2(3) reach by (metis list.set_intros rtrancl.rtrancl_refl)
  moreover have "p2 = p" using a b by (auto simp: visit_post_def)
  ultimately show ?thesis using b g2 by (simp add: visit_post_def)
qed

lemma visit_all_post:
  "visit_all prog ms st = Some (Inr (indices, st')) \<Longrightarrow> graph_wf prog (fst st) (fst (snd st)) \<Longrightarrow>
   visit_post prog ms st indices st'"
proof (induction prog ms st arbitrary: indices st' rule: visit_all.induct)
  case (1 prog st)
  then show ?case by (cases st) (auto simp: visit_post_Nil)
next
  case (2 prog m ms g s p)
  from "2.prems" have wf: "graph_wf prog g s" by simp
  show ?case
  proof (cases "s m = Some 2")
    case True
    with "2.prems" obtain i indices' where
      p: "position (\<lambda>n. mn_type n = m) g = Some i" and
      r: "visit_all prog ms (g, s, p) = Some (Inr (indices', st'))" and
      i: "indices = i # indices'"
      by (auto split: option.splits sum.splits prod.splits)
    from "2.IH"(1) [OF True p r] wf have "visit_post prog ms (g, s, p) indices' st'" by simp
    with position_Some [OF p] True show ?thesis unfolding i by (intro visit_post_seen) auto
  next
    case not2: False
    show ?thesis
    proof (cases "s m = Some 1")
      case True
      with "2.prems" not2 show ?thesis by simp
    next
      case not1: False
      from "2.prems" not1 not2 obtain children g1 s1 p1 indices' where
        v: "validate_all (md_controllers (mod_register (prog m))) = Inr ()" and
        a: "visit_all prog (md_imports (mod_register (prog m)))
              (g @ [node_for prog m], s(m \<mapsto> 1), p @ [mod_name (prog m)]) =
            Some (Inr (children, g1, s1, p1))" and
        b: "visit_all prog ms (g1[length g := (g1 ! length g)\<lparr>mn_imports := children\<rparr>],
              s1(m \<mapsto> 2), butlast p1) = Some (Inr (indices', st'))" and
        i: "indices = length g # indices'"
        by (auto simp: Let_def split: option.splits sum.splits prod.splits)
      from not1 not2 have m: "m \<notin> visited s" by (simp add: visited_def)
      from "2.IH"(2) [OF not2 not1 refl v refl a] graph_wf_open [OF wf m]
      have A: "visit_post prog (imports_of prog m) (g @ [node_for prog m], s(m \<mapsto> 1), p @ [mod_name (prog m)])
                 children (g1, s1, p1)"
        by (auto simp: imports_of_def fun_upd_def)
      from A obtain ext where g1: "g1 = (g @ [node_for prog m]) @ ext" by (auto simp: visit_post_def)
      from A have "graph_wf prog (g1[length g := (g1 ! length g)\<lparr>mn_imports := children\<rparr>]) (s1(m \<mapsto> 2))"
        by (intro graph_wf_close) (auto simp: visit_post_def g1 nth_append)
      with "2.IH"(3) [OF not2 not1 refl v refl a refl refl refl refl b]
      have B: "visit_post prog ms (g1[length g := (g1 ! length g)\<lparr>mn_imports := children\<rparr>],
                 s1(m \<mapsto> 2), butlast p1) indices' st'" by (auto simp: fun_upd_def)
      obtain g2 s2 p2 where st': "st' = (g2, s2, p2)" by (cases st')
      show ?thesis unfolding i st' by (rule visit_post_new [OF m A B [unfolded st']])
    qed
  qed
qed

lemma visit_all_no_panic:
  "graph_wf prog (fst st) (fst (snd st)) \<Longrightarrow> visit_all prog ms st \<noteq> None"
proof (induction prog ms st rule: visit_all.induct)
  case (1 prog st)
  then show ?case by simp
next
  case (2 prog m ms g s p)
  from "2.prems" have wf: "graph_wf prog g s" by simp
  show ?case
  proof (cases "s m = Some 2")
    case True
    with wf have "m \<in> mn_type ` set g" by (auto simp: graph_wf_def visited_def)
    then obtain i where p: "position (\<lambda>n. mn_type n = m) g = Some i"
      by (cases "position (\<lambda>n. mn_type n = m) g") (auto simp: position_None)
    from "2.IH"(1) [OF True p] wf True p show ?thesis by (auto split: option.splits sum.splits)
  next
    case not2: False
    show ?thesis
    proof (cases "s m = Some 1 \<or> validate_all (md_controllers (mod_register (prog m))) \<noteq> Inr ()")
      case True
      with not2 show ?thesis
        by (cases "validate_all (md_controllers (mod_register (prog m)))") (auto simp: Let_def)
    next
      case ok: False
      then have not1: "s m \<noteq> Some 1" and v: "validate_all (md_controllers (mod_register (prog m))) = Inr ()"
        by auto
      from not1 not2 have m: "m \<notin> visited s" by (simp add: visited_def)
      let ?a = "visit_all prog (md_imports (mod_register (prog m)))
              (g @ [node_for prog m], s(m \<mapsto> 1), p @ [mod_name (prog m)])"
      have a: "?a \<noteq> None"
        using "2.IH"(2) [OF not2 not1 refl v refl] graph_wf_open [OF wf m] by (auto simp: fun_upd_def)
      show ?thesis
      proof (cases "\<exists>children g1 s1 p1. ?a = Some (Inr (children, g1, s1, p1))")
        case False
        with a not1 not2 v show ?thesis by (auto simp: Let_def split: option.splits sum.splits)
      next
        case True
        then obtain children g1 s1 p1 where a: "?a = Some (Inr (children, g1, s1, p1))" by auto
        from visit_all_post [OF a] graph_wf_open [OF wf m]
        have A: "visit_post prog (imports_of prog m) (g @ [node_for prog m], s(m \<mapsto> 1), p @ [mod_name (prog m)])
                 children (g1, s1, p1)"
          by (auto simp: imports_of_def fun_upd_def)
        from A obtain ext where g1: "g1 = (g @ [node_for prog m]) @ ext" by (auto simp: visit_post_def)
        from A have "graph_wf prog (g1[length g := (g1 ! length g)\<lparr>mn_imports := children\<rparr>]) (s1(m \<mapsto> 2))"
          by (intro graph_wf_close) (auto simp: visit_post_def g1 nth_append)
        with "2.IH"(3) [OF not2 not1 refl v refl a refl refl refl refl] a not1 not2 v
        show ?thesis by (auto simp: Let_def fun_upd_def split: option.splits sum.splits)
      qed
    qed
  qed
qed

end
