(* ===== verification/Messages.thy ===== *)
theory Messages
  imports ModuleGraph Patterns "HOL-Library.List_Lexorder" "HOL-Library.Char_ord"
begin

text \<open>
  The wire protocol of the message transports: the message context of
  \<open>crates/caelix-core/src/microservice.rs\<close> and the transport-neutral part of
  \<open>crates/caelix-microservices/src/lib.rs\<close> (options, envelopes, errors, headers, command dispatch
  and the NATS client).

  The encoders and decoders that serde derives for the envelopes are arguments, collected in the
  record \<open>codec\<close>; so are the broker, the identifiers of \<open>uuid\<close> and the clock. Times are milliseconds
  since the Unix epoch where the source has \<open>unix_millis\<close>, durations are nanoseconds. The header
  map of a NATS message is the list of its names with their values, in the order its iterator yields.
\<close>

section \<open>Message context\<close>

record message_delivery =
  dl_stream :: "str option"
  dl_consumer :: "str option"
  dl_attempt :: nat

text \<open>A \<open>BTreeMap\<close> of strings lists its entries by increasing key.\<close>

type_synonym btree = "(str \<times> str) list"

fun btree_insert :: "str \<Rightarrow> str \<Rightarrow> btree \<Rightarrow> btree" where
  "btree_insert k v [] = [(k, v)]"
| "btree_insert k v ((k', v') # m) =
     (if k < k' then (k, v) # (k', v') # m
      else if k = k' then (k, v) # m
      else (k', v') # btree_insert k v m)"

record message_context =
  mc_subject :: str
  mc_headers :: btree
  mc_correlation_id :: "str option"
  mc_deadline :: "nat option"
  mc_cancellation :: nat
  mc_delivery :: "message_delivery option"
  mc_event_id :: "str option"

definition MessageContext_new ::
    "str \<Rightarrow> btree \<Rightarrow> str option \<Rightarrow> nat option \<Rightarrow> nat \<Rightarrow> message_delivery option \<Rightarrow> str option \<Rightarrow> message_context" where
  "MessageContext_new subject headers correlation_id deadline cancellation delivery event_id =
     \<lparr>mc_subject = subject, mc_headers = headers, mc_correlation_id = correlation_id, mc_deadline = deadline,
      mc_cancellation = cancellation, mc_delivery = delivery, mc_event_id = event_id\<rparr>"

definition delivery_attempt_of :: "message_context \<Rightarrow> nat" where
  "delivery_attempt_of ctx = (case mc_delivery ctx of None \<Rightarrow> 0 | Some d \<Rightarrow> dl_attempt d)"

text \<open>The closures of the handlers are the program's: \<open>impl\<close> gives the result of each.\<close>

type_synonym closures = "nat \<Rightarrow> message_context \<Rightarrow> json \<Rightarrow> json option result"

definition invoke :: "closures \<Rightarrow> message_handler \<Rightarrow> message_context \<Rightarrow> json \<Rightarrow> json option result" where
  "invoke impl h ctx payload = impl (mh_closure h) ctx payload"

section \<open>Options\<close>

definition PROTOCOL_VERSION :: nat where "PROTOCOL_VERSION = 1"

definition MINIMUM_RESPONSE_ENVELOPE_BYTES :: nat where "MINIMUM_RESPONSE_ENVELOPE_BYTES = 256"

definition millis :: "nat \<Rightarrow> nat" where "millis n = n * 1000000"

definition secs :: "nat \<Rightarrow> nat" where "secs n = n * 1000000000"

record nats_options =
  no_server :: str
  no_service_name :: "str option"
  no_rpc_timeout :: nat
  no_max_request_bytes :: nat
  no_max_response_bytes :: nat
  no_max_event_bytes :: nat
  no_max_handler_concurrency :: nat
  no_shutdown_timeout :: nat
  no_jetstream_stream :: "str option"
  no_dead_letter_subject :: "str option"
  no_max_event_deliveries :: int
  no_event_retry_delay :: nat
  no_event_ack_wait :: nat

definition NatsTransportOptions_new :: "str \<Rightarrow> nats_options" where
  "NatsTransportOptions_new server =
     \<lparr>no_server = server, no_service_name = None, no_rpc_timeout = secs 5,
      no_max_request_bytes = 1024 * 1024, no_max_response_bytes = 1024 * 1024,
      no_max_event_bytes = 1024 * 1024, no_max_handler_concurrency = 64,
      no_shutdown_timeout = secs 10, no_jetstream_stream = None, no_dead_letter_subject = None,
      no_max_event_deliveries = 5, no_event_retry_delay = secs 1, no_event_ack_wait = secs 30\<rparr>"

definition nats_service_name :: "str \<Rightarrow> nats_options \<Rightarrow> nats_options" where
  "nats_service_name v opts = opts\<lparr>no_service_name := Some v\<rparr>"

definition nats_rpc_timeout :: "nat \<Rightarrow> nats_options \<Rightarrow> nats_options" where
  "nats_rpc_timeout v opts = opts\<lparr>no_rpc_timeout := v\<rparr>"

definition nats_jetstream_stream :: "str \<Rightarrow> nats_options \<Rightarrow> nats_options" where
  "nats_jetstream_stream v opts = opts\<lparr>no_jetstream_stream := Some v\<rparr>"

definition nats_dead_letter_subject :: "str \<Rightarrow> nats_options \<Rightarrow> nats_options" where
  "nats_dead_letter_subject v opts = opts\<lparr>no_dead_letter_subject := Some v\<rparr>"

definition nats_max_request_bytes :: "nat \<Rightarrow> nats_options \<Rightarrow> nats_options" where
  "nats_max_request_bytes v opts = opts\<lparr>no_max_request_bytes := max v 1\<rparr>"

definition nats_max_response_bytes :: "nat \<Rightarrow> nats_options \<Rightarrow> nats_options" where
  "nats_max_response_bytes v opts = opts\<lparr>no_max_response_bytes := max v MINIMUM_RESPONSE_ENVELOPE_BYTES\<rparr>"

definition nats_max_event_bytes :: "nat \<Rightarrow> nats_options \<Rightarrow> nats_options" where
  "nats_max_event_bytes v opts = opts\<lparr>no_max_event_bytes := max v 1\<rparr>"

definition nats_max_handler_concurrency :: "nat \<Rightarrow> nats_options \<Rightarrow> nats_options" where
  "nats_max_handler_concurrency v opts = opts\<lparr>no_max_handler_concurrency := max v 1\<rparr>"

definition nats_shutdown_timeout :: "nat \<Rightarrow> nats_options \<Rightarrow> nats_options" where
  "nats_shutdown_timeout v opts = opts\<lparr>no_shutdown_timeout := v\<rparr>"

definition nats_max_event_deliveries :: "int \<Rightarrow> nats_options \<Rightarrow> nats_options" where
  "nats_max_event_deliveries v opts = opts\<lparr>no_max_event_deliveries := max v 1\<rparr>"

definition nats_event_retry_delay :: "nat \<Rightarrow> nats_options \<Rightarrow> nats_options" where
  "nats_event_retry_delay v opts = opts\<lparr>no_event_retry_delay := v\<rparr>"

definition nats_event_ack_wait :: "nat \<Rightarrow> nats_options \<Rightarrow> nats_options" where
  "nats_event_ack_wait v opts = opts\<lparr>no_event_ack_wait := max v (millis 10)\<rparr>"

section \<open>Errors\<close>

record remote_error =
  re_code :: str
  re_message :: str
  re_details :: "json option"
  re_retryable :: bool

datatype client_error =
    Timeout
  | NoResponder
  | Decode str
  | Protocol str
  | Transport str
  | Remote remote_error

datatype microservice_error =
    TransportError str
  | FrameworkError str
  | ConfigurationError str

definition show_remote_error :: "remote_error \<Rightarrow> str" where
  "show_remote_error e = re_code e @ '': '' @ re_message e"

definition show_client_error :: "client_error \<Rightarrow> str" where
  "show_client_error e = (case e of
     Timeout \<Rightarrow> ''microservice request timed out''
   | NoResponder \<Rightarrow> ''no responder for microservice request''
   | Decode s \<Rightarrow> ''microservice decode failure: '' @ s
   | Protocol s \<Rightarrow> ''microservice protocol failure: '' @ s
   | Transport s \<Rightarrow> ''microservice transport failure: '' @ s
   | Remote r \<Rightarrow> ''remote microservice failure: '' @ show_remote_error r)"

definition show_microservice_error :: "microservice_error \<Rightarrow> str" where
  "show_microservice_error e = (case e of
     TransportError s \<Rightarrow> ''microservice transport failure: '' @ s
   | FrameworkError s \<Rightarrow> ''Caelix startup failure: '' @ s
   | ConfigurationError s \<Rightarrow> ''invalid microservice configuration: '' @ s)"

definition queue_group :: "nats_options \<Rightarrow> microservice_error + str" where
  "queue_group opts =
     (case no_service_name opts of
        Some name \<Rightarrow> if trim name \<noteq> [] then Inr name
                     else Inl (ConfigurationError ''service_name is required for command queue groups'')
      | None \<Rightarrow> Inl (ConfigurationError ''service_name is required for command queue groups''))"

definition remote_from_exception :: "http_exception \<Rightarrow> client_error" where
  "remote_from_exception e =
     Remote \<lparr>re_code = ex_error e,
             re_message = (if is_client_error (ex_status e) then ex_message e else ''Internal Server Error''),
             re_details = None,
             re_retryable = is_server_error (ex_status e)\<rparr>"

definition into_remote :: "client_error \<Rightarrow> remote_error" where
  "into_remote e = (case e of
     Remote r \<Rightarrow> r
   | _ \<Rightarrow> \<lparr>re_code = ''Internal Server Error'', re_message = ''Internal Server Error'',
          re_details = None, re_retryable = False\<rparr>)"

section \<open>Envelopes\<close>

record request_envelope =
  rq_version :: nat
  rq_correlation_id :: str
  rq_deadline_unix_millis :: "nat option"
  rq_reply_channel :: "str option"
  rq_headers :: btree
  rq_payload :: json

datatype reply_body = Success json | Failure remote_error

record response_envelope =
  rp_version :: nat
  rp_correlation_id :: str
  rp_body :: reply_body

record event_envelope =
  ev_version :: nat
  ev_event_id :: str
  ev_headers :: btree
  ev_payload :: json
  ev_published_at_unix_millis :: nat

text \<open>What serde derives for the envelopes: an encoder and a decoder each, which fail with a text.\<close>

record codec =
  enc_request :: "request_envelope \<Rightarrow> str + str"
  dec_request :: "str \<Rightarrow> str + request_envelope"
  enc_response :: "response_envelope \<Rightarrow> str + str"
  dec_response :: "str \<Rightarrow> str + response_envelope"
  enc_event :: "event_envelope \<Rightarrow> str + str"
  dec_event :: "str \<Rightarrow> str + event_envelope"

definition encode_limited :: "('a \<Rightarrow> str + str) \<Rightarrow> 'a \<Rightarrow> nat \<Rightarrow> str + str" where
  "encode_limited to_vec x maximum =
     (case to_vec x of
        Inl e \<Rightarrow> Inl e
      | Inr bytes \<Rightarrow> if length bytes > maximum then Inl ''envelope exceeds configured maximum'' else Inr bytes)"

definition bounded_command_error :: "codec \<Rightarrow> str \<Rightarrow> str \<Rightarrow> str \<Rightarrow> nat \<Rightarrow> str + str" where
  "bounded_command_error cd correlation_id code message maximum_response_bytes =
     encode_limited (enc_response cd)
       \<lparr>rp_version = PROTOCOL_VERSION, rp_correlation_id = correlation_id,
        rp_body = Failure \<lparr>re_code = code, re_message = message, re_details = None, re_retryable = False\<rparr>\<rparr>
       maximum_response_bytes"

section \<open>Headers, deadlines\<close>

text \<open>A NATS message; \<open>header_last\<close> is the map's lookup of the last value of a name.\<close>

type_synonym header_map = "(str \<times> str list) list"

record nats_message =
  nm_subject :: str
  nm_payload :: str
  nm_reply :: "str option"
  nm_headers :: "header_map option"

definition caelix_headers ::
    "'h \<Rightarrow> (str \<Rightarrow> str \<Rightarrow> 'h \<Rightarrow> 'h) \<Rightarrow> btree \<Rightarrow> str option \<Rightarrow> nat option \<Rightarrow> 'h" where
  "caelix_headers hm_new hm_insert headers correlation_id deadline =
     (let r0 = fold (\<lambda>(name, v). hm_insert name v) headers hm_new;
          r1 = (case correlation_id of None \<Rightarrow> r0 | Some c \<Rightarrow> hm_insert ''Caelix-Correlation-Id'' c r0)
      in (case deadline of None \<Rightarrow> r1
          | Some d \<Rightarrow> hm_insert ''Caelix-Deadline-Unix-Millis'' (show_nat d) r1))"

definition propagated_headers :: "btree \<Rightarrow> header_map option \<Rightarrow> btree" where
  "propagated_headers envelope_headers headers =
     (case headers of
        None \<Rightarrow> envelope_headers
      | Some hs \<Rightarrow> fold (\<lambda>(name, vs) m. if vs = [] then m else btree_insert name (last vs) m) hs envelope_headers)"

definition correlation_id_from_headers :: "(str \<Rightarrow> header_map \<Rightarrow> str option) \<Rightarrow> nats_message \<Rightarrow> str option" where
  "correlation_id_from_headers header_last message =
     (case nm_headers message of
        None \<Rightarrow> None
      | Some hs \<Rightarrow>
          (case header_last ''Caelix-Correlation-Id'' hs of
             None \<Rightarrow> None
           | Some c \<Rightarrow> if length c \<le> 128 \<and> c \<noteq> [] then Some c else None))"

text \<open>\<open>as_millis() as u64\<close> keeps the low 64 bits.\<close>

definition deadline_millis :: "nat \<Rightarrow> nat \<Rightarrow> nat option" where
  "deadline_millis now_millis timeout =
     (let t = now_millis + (timeout div 1000000) mod (u64_max + 1)
      in if t \<le> u64_max then Some t else None)"

definition unix_millis_to_system_time :: "nat \<Rightarrow> nat" where
  "unix_millis_to_system_time v = millis v"

section \<open>Names\<close>

text \<open>Two lower-case hexadecimal digits of a byte.\<close>

definition hex_digit :: "nat \<Rightarrow> char" where
  "hex_digit n = (if n < 10 then char_of (48 + n) else char_of (87 + n))"

definition show_hex :: "nat \<Rightarrow> str" where
  "show_hex b = [hex_digit (b div 16), hex_digit (b mod 16)]"

section \<open>Requests to a broker\<close>

text \<open>
  A task of a transport is modelled by the requests it makes, in order; a broker answers the last of
  the requests made so far. \<open>repeat_request\<close> is the loop around a running handler: the request is
  made each time the heartbeat elapses, until the handler ends (after \<open>ticks\<close> beats) or a request fails.
\<close>

fun repeat_request :: "('a list \<Rightarrow> str + unit) \<Rightarrow> 'a \<Rightarrow> nat \<Rightarrow> 'a list \<Rightarrow> (microservice_error + unit) \<times> 'a list" where
  "repeat_request broker a 0 log = (Inr (), log)"
| "repeat_request broker a (Suc ticks) log =
     (let log' = log @ [a]
      in (case broker log' of
            Inl e \<Rightarrow> (Inl (TransportError e), log')
          | Inr _ \<Rightarrow> repeat_request broker a ticks log'))"

lemma repeat_request_log:
  "repeat_request broker a ticks log = (r, log') \<Longrightarrow>
     \<exists>n\<le>ticks. log' = log @ replicate n a \<and> (r = Inr () \<or> (\<exists>e. r = Inl (TransportError e) \<and> broker log' = Inl e))"
proof (induction broker a ticks log arbitrary: r log' rule: repeat_request.induct)
  case (1 broker a log)
  then show ?case by simp
next
  case (2 broker a ticks log)
  show ?case
  proof (cases "broker (log @ [a])")
    case (Inl e)
    with 2 show ?thesis by (auto intro!: exI [of _ 1])
  next
    case (Inr u)
    with 2 obtain n where "n \<le> ticks" "log' = (log @ [a]) @ replicate n a"
      "r = Inr () \<or> (\<exists>e. r = Inl (TransportError e) \<and> broker log' = Inl e)" by fastforce
    then show ?thesis by (intro exI [of _ "Suc n"]) simp
  qed
qed

lemma repeat_request_fails: "repeat_request broker a ticks log = (Inl e, log') \<Longrightarrow> length log < length log'"
proof (induction broker a ticks log arbitrary: log' rule: repeat_request.induct)
  case (2 broker a ticks log)
  then show ?case by (cases "broker (log @ [a])") fastforce+
qed simp

lemma repeat_request_ok:
  assumes "\<And>l. is_ok (broker (l @ [a]))"
  shows "repeat_request broker a ticks log = (Inr (), log @ replicate ticks a)"
proof (induction ticks arbitrary: log)
  case (Suc ticks)
  obtain u where "broker (log @ [a]) = Inr u" using assms [of log] by (cases "broker (log @ [a])") auto
  with Suc show ?case by simp
qed simp

end
