(* ===== verification/Commands.thy ===== *)
theory Commands
  imports Messages
begin

text \<open>
  Commands over NATS, \<open>crates/caelix-microservices/src/lib.rs\<close>: \<open>dispatch_command\<close> and
  \<open>process_command\<close> on the service side, \<open>request\<close> and \<open>emit\<close> on the client side. A dispatch
  returns, beside its result, the calls it made to the handler. The invocation of a handler ends;
  a handler that does not end keeps its task and sends no response.
\<close>

section \<open>Dispatch\<close>

type_synonym invocations = "(message_context \<times> json) list"

definition command_context :: "nats_message \<Rightarrow> nat \<Rightarrow> request_envelope \<Rightarrow> message_context" where
  "command_context message cancellation request =
     MessageContext_new (nm_subject message)
       (propagated_headers (rq_headers request) (nm_headers message))
       (Some (rq_correlation_id request))
       (map_option unix_millis_to_system_time (rq_deadline_unix_millis request))
       cancellation None None"

definition reply_to :: "json option result \<Rightarrow> reply_body" where
  "reply_to r = (case r of
     Inr response \<Rightarrow> Success (case response of None \<Rightarrow> JNull | Some v \<Rightarrow> v)
   | Inl e \<Rightarrow> Failure (into_remote (remote_from_exception e)))"

definition or_else :: "'e + 'a \<Rightarrow> 'e + 'a \<Rightarrow> 'e + 'a" where
  "or_else r alternative = (case r of Inl _ \<Rightarrow> alternative | Inr x \<Rightarrow> Inr x)"

definition encode_response :: "codec \<Rightarrow> str \<Rightarrow> reply_body \<Rightarrow> nat \<Rightarrow> str + str" where
  "encode_response cd correlation_id bdy maximum_response_bytes =
     or_else
       (encode_limited (enc_response cd)
          \<lparr>rp_version = PROTOCOL_VERSION, rp_correlation_id = correlation_id, rp_body = bdy\<rparr>
          maximum_response_bytes)
       (bounded_command_error cd correlation_id ''Protocol''
          ''response envelope exceeds configured maximum'' maximum_response_bytes)"

definition dispatch_command ::
    "codec \<Rightarrow> (str \<Rightarrow> header_map \<Rightarrow> str option) \<Rightarrow> nat \<Rightarrow> closures \<Rightarrow> nats_message \<Rightarrow> message_handler \<Rightarrow>
     nat \<Rightarrow> nat \<Rightarrow> nat \<Rightarrow> (client_error + str) \<times> invocations" where
  "dispatch_command cd header_last now impl message handler cancellation max_request max_response =
     (if length (nm_payload message) > max_request then
        (case correlation_id_from_headers header_last message of
           Some c \<Rightarrow> (map_err Protocol (bounded_command_error cd c ''Payload Too Large''
                        ''request envelope exceeds configured maximum'' max_response), [])
         | None \<Rightarrow> (Inl (Protocol ''request envelope exceeds configured maximum''), []))
      else
        (case dec_request cd (nm_payload message) of
           Inl e \<Rightarrow> (Inl (Decode e), [])
         | Inr request \<Rightarrow>
             if rq_correlation_id request = [] then
               (Inl (Protocol ''request correlation ID is missing''), [])
             else if rq_version request \<noteq> PROTOCOL_VERSION then
               (map_err Protocol (bounded_command_error cd (rq_correlation_id request) ''Protocol''
                  ''unsupported request protocol version'' max_response), [])
             else if (case rq_deadline_unix_millis request of None \<Rightarrow> False | Some d \<Rightarrow> d < now) then
               (map_err Protocol (bounded_command_error cd (rq_correlation_id request) ''Deadline Exceeded''
                  ''request deadline elapsed before handler invocation'' max_response), [])
             else
               (let ctx = command_context message cancellation request;
                    bdy = reply_to (invoke impl handler ctx (rq_payload request))
                in (map_err Protocol (encode_response cd (rq_correlation_id request) bdy max_response),
                    [(ctx, rq_payload request)]))))"

text \<open>
  The task of one message: a response is published when there is one and the message names a reply
  subject. The second component lists the publications; \<open>publish\<close> is the client's answer.
\<close>

definition process_command ::
    "codec \<Rightarrow> (str \<Rightarrow> header_map \<Rightarrow> str option) \<Rightarrow> nat \<Rightarrow> closures \<Rightarrow> (str \<Rightarrow> str \<Rightarrow> str + unit) \<Rightarrow>
     nats_options \<Rightarrow> nat \<Rightarrow> message_handler \<Rightarrow> nats_message \<Rightarrow> (microservice_error + unit) \<times> (str \<times> str) list" where
  "process_command cd header_last now impl publish opts cancellation handler message =
     (case (nm_reply message, fst (dispatch_command cd header_last now impl message handler cancellation
              (no_max_request_bytes opts) (no_max_response_bytes opts))) of
        (Some reply, Inr bytes) \<Rightarrow> (map_err TransportError (publish reply bytes), [(reply, bytes)])
      | _ \<Rightarrow> (Inr (), []))"

section \<open>Client\<close>

datatype request_error_kind = TimedOut | NoResponders | InvalidSubject | MaxPayloadExceeded | OtherRequestError

definition request_transport_error :: "request_error_kind \<times> str \<Rightarrow> client_error" where
  "request_transport_error err = (case err of (kind, txt) \<Rightarrow>
     (case kind of TimedOut \<Rightarrow> Timeout | NoResponders \<Rightarrow> NoResponder | _ \<Rightarrow> Transport txt))"

text \<open>
  The answer of the broker client to a request: None when the timeout of the source elapses first.
\<close>

type_synonym 'h send_request =
  "str \<Rightarrow> 'h \<Rightarrow> nat \<Rightarrow> str \<Rightarrow> ((request_error_kind \<times> str) + nats_message) option"

definition decode_response :: "codec \<Rightarrow> (json \<Rightarrow> str + 'v) \<Rightarrow> str \<Rightarrow> nat \<Rightarrow> str \<Rightarrow> client_error + 'v" where
  "decode_response cd from_value correlation_id max_response bytes =
     (if length bytes > max_response then
        Inl (Protocol ''response envelope exceeds configured maximum'')
      else
        (case dec_response cd bytes of
           Inl e \<Rightarrow> Inl (Decode e)
         | Inr envelope \<Rightarrow>
             if rp_version envelope \<noteq> PROTOCOL_VERSION then
               Inl (Protocol ''unsupported response protocol version'')
             else if rp_correlation_id envelope \<noteq> correlation_id then
               Inl (Protocol ''response correlation ID does not match request'')
             else
               (case rp_body envelope of
                  Success payload \<Rightarrow> map_err Decode (from_value payload)
                | Failure e \<Rightarrow> Inl (Remote e))))"

definition nats_request ::
    "codec \<Rightarrow> 'h \<Rightarrow> (str \<Rightarrow> str \<Rightarrow> 'h \<Rightarrow> 'h) \<Rightarrow> 'h send_request \<Rightarrow> ('p \<Rightarrow> str + json) \<Rightarrow> (json \<Rightarrow> str + 'v) \<Rightarrow>
     nats_options \<Rightarrow> str \<Rightarrow> nat \<Rightarrow> str \<Rightarrow> 'p \<Rightarrow> client_error + 'v" where
  "nats_request cd hm_new hm_insert send to_value from_value opts uuid now subject payload =
     (case to_value payload of
        Inl e \<Rightarrow> Inl (Decode e)
      | Inr v \<Rightarrow>
          (let request = \<lparr>rq_version = PROTOCOL_VERSION, rq_correlation_id = uuid,
                 rq_deadline_unix_millis = deadline_millis now (no_rpc_timeout opts),
                 rq_reply_channel = None, rq_headers = [], rq_payload = v\<rparr>
           in (case encode_limited (enc_request cd) request (no_max_request_bytes opts) of
                 Inl e \<Rightarrow> Inl (Protocol e)
               | Inr bytes \<Rightarrow>
                   (case send subject
                        (caelix_headers hm_new hm_insert (rq_headers request) (Some (rq_correlation_id request))
                           (rq_deadline_unix_millis request))
                        (no_rpc_timeout opts) bytes of
                      None \<Rightarrow> Inl Timeout
                    | Some (Inl err) \<Rightarrow> Inl (request_transport_error err)
                    | Some (Inr response) \<Rightarrow>
                        decode_response cd from_value uuid (no_max_response_bytes opts) (nm_payload response)))))"

text \<open>\<open>emit\<close>: the publication and its acknowledgement are two answers of the broker client.\<close>

definition nats_emit ::
    "codec \<Rightarrow> 'h \<Rightarrow> (str \<Rightarrow> str \<Rightarrow> 'h \<Rightarrow> 'h) \<Rightarrow> (str \<Rightarrow> 'h \<Rightarrow> str \<Rightarrow> str + (str + unit)) \<Rightarrow> ('p \<Rightarrow> str + json) \<Rightarrow>
     nats_options \<Rightarrow> str \<Rightarrow> nat \<Rightarrow> str \<Rightarrow> 'p \<Rightarrow> client_error + unit" where
  "nats_emit cd hm_new hm_insert publish to_value opts uuid now subject payload =
     (case to_value payload of
        Inl e \<Rightarrow> Inl (Decode e)
      | Inr v \<Rightarrow>
          (let event = \<lparr>ev_version = PROTOCOL_VERSION, ev_event_id = uuid, ev_headers = [],
                 ev_payload = v, ev_published_at_unix_millis = now\<rparr>
           in (case encode_limited (enc_event cd) event (no_max_event_bytes opts) of
                 Inl e \<Rightarrow> Inl (Protocol e)
               | Inr bytes \<Rightarrow>
                   (case publish subject
                        (caelix_headers hm_new hm_insert (ev_headers event) (Some (ev_event_id event)) None) bytes of
                      Inl e \<Rightarrow> Inl (Transport e)
                    | Inr acknowledgement \<Rightarrow> map_err Transport acknowledgement))))"

section \<open>Lemmas\<close>

lemma encode_limited_Inr: "encode_limited enc x n = Inr bytes \<longleftrightarrow> enc x = Inr bytes \<and> length bytes \<le> n"
  by (auto simp: encode_limited_def split: sum.splits)

lemma bounded_command_error_Inr:
  "bounded_command_error cd c code msg n = Inr bytes \<Longrightarrow> length bytes \<le> n"
  by (simp add: bounded_command_error_def encode_limited_Inr)

lemma encode_response_Inr: "encode_response cd c bdy n = Inr bytes \<Longrightarrow> length bytes \<le> n"
  by (auto simp: encode_response_def or_else_def encode_limited_Inr bounded_command_error_Inr split: sum.splits)

lemma dispatch_cases:
  assumes "dispatch_command cd hl now impl message handler cancellation mreq mresp = (r, calls)"
  obtains e where "r = Inl e" "calls = []"
  | c code msg where "r = map_err Protocol (bounded_command_error cd c code msg mresp)" "calls = []"
  | request where "length (nm_payload message) \<le> mreq" "dec_request cd (nm_payload message) = Inr request"
    "rq_correlation_id request \<noteq> []" "rq_version request = PROTOCOL_VERSION"
    "\<forall>d. rq_deadline_unix_millis request = Some d \<longrightarrow> now \<le> d"
    "r = map_err Protocol (encode_response cd (rq_correlation_id request)
       (reply_to (invoke impl handler (command_context message cancellation request) (rq_payload request))) mresp)"
    "calls = [(command_context message cancellation request, rq_payload request)]"
  using assms unfolding dispatch_command_def Let_def
  by (fastforce split: if_splits option.splits sum.splits simp: not_less)

section \<open>Properties\<close>

text \<open>A response never exceeds the configured size; the handler is called at most once, and only
  for a request within the size limit that decodes, has a correlation identifier and the supported
  version, and whose deadline has not passed; it is given the payload and deadline of that request.\<close>

theorem dispatch_calls_only_valid_requests:
  assumes "dispatch_command cd header_last now impl message handler cancellation max_request max_response = (r, calls)"
  shows "(\<forall>bytes. r = Inr bytes \<longrightarrow> length bytes \<le> max_response) \<and> length calls \<le> 1 \<and>
    (\<forall>(ctx, payload)\<in>set calls. \<exists>request.
       length (nm_payload message) \<le> max_request \<and> dec_request cd (nm_payload message) = Inr request \<and>
       rq_correlation_id request \<noteq> [] \<and> rq_version request = 1 \<and>
       (\<forall>d. rq_deadline_unix_millis request = Some d \<longrightarrow> now \<le> d) \<and>
       payload = rq_payload request \<and> mc_correlation_id ctx = Some (rq_correlation_id request) \<and>
       mc_deadline ctx = map_option millis (rq_deadline_unix_millis request))"
  using assms
proof (cases rule: dispatch_cases)
  case (3 request)
  then show ?thesis
    by (auto simp: encode_response_Inr command_context_def MessageContext_new_def PROTOCOL_VERSION_def
        unix_millis_to_system_time_def fun_eq_iff cong: option.map_cong)
qed (auto simp: bounded_command_error_Inr)

text \<open>What a handler that fails with anything but a client error says about the failure does not
  reach the caller: only the status and the error name decide the response.\<close>

theorem command_failures_do_not_leak:
  assumes "\<not> is_client_error (ex_status e)" "ex_status e' = ex_status e" "ex_error e' = ex_error e"
    and "\<And>ctx payload. invoke impl handler ctx payload = Inl e"
    and "\<And>ctx payload. invoke impl' handler ctx payload = Inl e'"
  shows "dispatch_command cd header_last now impl message handler cancellation max_request max_response =
    dispatch_command cd header_last now impl' message handler cancellation max_request max_response"
proof -
  have eq: "reply_to (invoke impl handler ctx payload) = reply_to (invoke impl' handler ctx payload)" for ctx payload
    using assms by (simp add: reply_to_def remote_from_exception_def)
  show ?thesis unfolding dispatch_command_def Let_def eq by (rule refl)
qed

text \<open>
  A call: the request is delivered to the service, which processes it when its clock shows
  \<open>service_now\<close>, and the response it publishes to the reply subject is delivered to the client.
\<close>

definition deliver ::
    "codec \<Rightarrow> (str \<Rightarrow> header_map \<Rightarrow> str option) \<Rightarrow> nat \<Rightarrow> closures \<Rightarrow> nats_options \<Rightarrow> nat \<Rightarrow> message_handler \<Rightarrow>
     header_map send_request" where
  "deliver cd header_last service_now impl opts cancellation handler subject headers timeout bytes =
     (case snd (process_command cd header_last service_now impl (\<lambda>_ _. Inr ()) opts cancellation handler
        \<lparr>nm_subject = subject, nm_payload = bytes, nm_reply = Some ''inbox'', nm_headers = Some headers\<rparr>) of
        [(_, response)] \<Rightarrow> Some (Inr \<lparr>nm_subject = ''inbox'', nm_payload = response, nm_reply = None, nm_headers = None\<rparr>)
      | _ \<Rightarrow> None)"

definition call_request :: "nats_options \<Rightarrow> str \<Rightarrow> nat \<Rightarrow> json \<Rightarrow> request_envelope" where
  "call_request opts uuid now v =
     \<lparr>rq_version = PROTOCOL_VERSION, rq_correlation_id = uuid,
      rq_deadline_unix_millis = deadline_millis now (no_rpc_timeout opts),
      rq_reply_channel = None, rq_headers = [], rq_payload = v\<rparr>"

definition call_message ::
    "(str \<Rightarrow> str \<Rightarrow> header_map \<Rightarrow> header_map) \<Rightarrow> nats_options \<Rightarrow> str \<Rightarrow> nat \<Rightarrow> str \<Rightarrow> str \<Rightarrow> nats_message" where
  "call_message hm_insert opts uuid now subject bytes =
     \<lparr>nm_subject = subject, nm_payload = bytes, nm_reply = Some ''inbox'',
      nm_headers = Some (caelix_headers [] hm_insert [] (Some uuid) (deadline_millis now (no_rpc_timeout opts)))\<rparr>"

text \<open>C6: a call whose request and response fit the size limits of both sides, and whose deadline has
  not passed when the service processes it, returns to the client the value the handler returned,
  decoded, and its failure as a remote error with the sanitised message. Of the JSON codec it is
  assumed only that the two envelopes that are sent decode to themselves.\<close>

theorem command_round_trip:
  fixes hm_insert :: "str \<Rightarrow> str \<Rightarrow> header_map \<Rightarrow> header_map"
  assumes ctx: "ctx = command_context (call_message hm_insert opts uuid now subject request_bytes) cancellation
      (call_request opts uuid now v)"
    and uuid: "uuid \<noteq> []" and v: "to_value payload = Inr v"
    and request: "enc_request cd (call_request opts uuid now v) = Inr request_bytes"
      "dec_request cd request_bytes = Inr (call_request opts uuid now v)"
      "length request_bytes \<le> no_max_request_bytes opts" "length request_bytes \<le> no_max_request_bytes service"
    and deadline: "\<forall>d. deadline_millis now (no_rpc_timeout opts) = Some d \<longrightarrow> service_now \<le> d"
    and response: "enc_response cd \<lparr>rp_version = PROTOCOL_VERSION, rp_correlation_id = uuid,
        rp_body = reply_to (invoke impl handler ctx v)\<rparr> = Inr bytes"
      "dec_response cd bytes = Inr \<lparr>rp_version = PROTOCOL_VERSION, rp_correlation_id = uuid,
        rp_body = reply_to (invoke impl handler ctx v)\<rparr>"
      "length bytes \<le> no_max_response_bytes opts" "length bytes \<le> no_max_response_bytes service"
  shows "nats_request cd [] hm_insert (deliver cd header_last service_now impl service cancellation handler)
      to_value from_value opts uuid now subject payload =
    (case invoke impl handler ctx v of
       Inr response \<Rightarrow> map_err Decode (from_value (case response of None \<Rightarrow> JNull | Some r \<Rightarrow> r))
     | Inl e \<Rightarrow> Inl (Remote \<lparr>re_code = ex_error e,
         re_message = (if is_client_error (ex_status e) then ex_message e else ''Internal Server Error''),
         re_details = None, re_retryable = is_server_error (ex_status e)\<rparr>))"
proof -
  let ?req = "call_request opts uuid now v"
  let ?msg = "call_message hm_insert opts uuid now subject request_bytes"
  have late: "\<not> (case deadline_millis now (no_rpc_timeout opts) of None \<Rightarrow> False | Some d \<Rightarrow> d < service_now)"
    using deadline by (auto split: option.splits)
  have "fst (dispatch_command cd header_last service_now impl ?msg handler cancellation
      (no_max_request_bytes service) (no_max_response_bytes service)) = Inr bytes"
    using uuid request(2,4) late response
    by (simp add: dispatch_command_def call_request_def ctx call_message_def encode_response_def or_else_def encode_limited_def
        PROTOCOL_VERSION_def)
  then have "snd (process_command cd header_last service_now impl (\<lambda>_ _. Inr ()) service cancellation handler ?msg) =
      [(''inbox'', bytes)]"
    by (simp add: process_command_def call_message_def)
  then have "nats_request cd [] hm_insert (deliver cd header_last service_now impl service cancellation handler)
      to_value from_value opts uuid now subject payload =
      decode_response cd from_value uuid (no_max_response_bytes opts) bytes"
    using v request(1,3) by (simp add: nats_request_def call_request_def call_message_def encode_limited_def deliver_def)
  also have "\<dots> = (case reply_to (invoke impl handler ctx v) of
      Success p \<Rightarrow> map_err Decode (from_value p) | Failure e \<Rightarrow> Inl (Remote e))"
    using response(2,3) by (simp add: decode_response_def)
  finally show ?thesis
    by (cases "invoke impl handler ctx v") (simp_all add: reply_to_def remote_from_exception_def into_remote_def)
qed

section \<open>Witnesses\<close>

text \<open>A codec for one request and one response, whose texts are those that the derived serialization
  of the two envelopes of the sample call produces.\<close>

definition request_text :: str where
  "request_text = ''{\"version\":1,\"correlation_id\":\"id\",\"deadline_unix_millis\":6000,\"headers\":{},\"payload\":null}''"

definition response_text :: str where
  "response_text = ''{\"version\":1,\"correlation_id\":\"id\",\"body\":{\"kind\":\"success\",\"payload\":true}}''"

definition sample_codec :: "request_envelope \<Rightarrow> response_envelope \<Rightarrow> codec" where
  "sample_codec rq rp =
     \<lparr>enc_request = (\<lambda>r. if r = rq then Inr request_text else Inl ''unsupported''),
      dec_request = (\<lambda>b. if b = request_text then Inr rq else Inl ''malformed''),
      enc_response = (\<lambda>r. if r = rp then Inr response_text else Inl ''unsupported''),
      dec_response = (\<lambda>b. if b = response_text then Inr rp else Inl ''malformed''),
      enc_event = (\<lambda>_. Inl ''unsupported''),
      dec_event = (\<lambda>_. Inl ''malformed'')\<rparr>"

definition sample_response :: response_envelope where
  "sample_response = \<lparr>rp_version = 1, rp_correlation_id = ''id'', rp_body = Success (JBool True)\<rparr>"

definition sample_request :: request_envelope where
  "sample_request = call_request (NatsTransportOptions_new ''nats'') ''id'' 1000 JNull"

definition sample_handler :: message_handler where
  "sample_handler = \<lparr>mh_kind = Command, mh_pattern = ''a.b'', mh_closure = 0\<rparr>"

lemma sample_deadline: "deadline_millis 1000 (no_rpc_timeout (NatsTransportOptions_new ''nats'')) = Some 6000"
  by (simp add: deadline_millis_def NatsTransportOptions_new_def secs_def)

lemma dispatch_calls_only_valid_requests_witness:
  "length (snd (dispatch_command (sample_codec sample_request sample_response) (\<lambda>_ _. None) 2000
     (\<lambda>_ _ _. Inr (Some (JBool True)))
     (call_message (\<lambda>_ _ h. h) (NatsTransportOptions_new ''nats'') ''id'' 1000 ''a.b'' request_text)
     sample_handler 7 100 100)) \<le> 1"
  by (rule conjunct1 [OF conjunct2 [OF dispatch_calls_only_valid_requests [OF surjective_pairing]]])

lemma command_failures_do_not_leak_witness:
  "dispatch_command (sample_codec sample_request sample_response) (\<lambda>_ _. None) 2000
     (\<lambda>_ _ _. Inl (InternalServerErrorException (OtherError ''password'')))
     (call_message (\<lambda>_ _ h. h) (NatsTransportOptions_new ''nats'') ''id'' 1000 ''a.b'' request_text) sample_handler 7 100 100 =
   dispatch_command (sample_codec sample_request sample_response) (\<lambda>_ _. None) 2000
     (\<lambda>_ _ _. Inl (InternalServerErrorException (OtherError ''secret'')))
     (call_message (\<lambda>_ _ h. h) (NatsTransportOptions_new ''nats'') ''id'' 1000 ''a.b'' request_text) sample_handler 7 100 100"
  by (rule command_failures_do_not_leak) (simp_all add: InternalServerErrorException_def HttpException_new_def
      with_source_def is_client_error_def invoke_def)

lemma command_round_trip_witness:
  "nats_request (sample_codec sample_request sample_response) [] (\<lambda>_ _ h. h)
     (deliver (sample_codec sample_request sample_response) (\<lambda>_ _. None) 2000 (\<lambda>_ _ _. Inr (Some (JBool True)))
        (NatsTransportOptions_new ''nats'') 7 sample_handler)
     Inr Inr (NatsTransportOptions_new ''nats'') ''id'' 1000 ''a.b'' JNull = Inr (JBool True)"
  by (subst command_round_trip [OF refl, where request_bytes = request_text and bytes = response_text and v = JNull])
    (simp_all add: sample_deadline invoke_def reply_to_def,
      simp_all add: sample_codec_def sample_request_def sample_response_def NatsTransportOptions_new_def request_text_def response_text_def
        PROTOCOL_VERSION_def)

end
