(* ===== verification/Deliveries.thy ===== *)
theory Deliveries
  imports Messages
begin

text \<open>
  Durable events over JetStream: \<open>process_event\<close> of \<open>crates/caelix-microservices/src/lib.rs\<close>.

  The task of one delivery is modelled by what it asks of the broker and of the handler, in order.
  The broker's answer to a request is an argument, a function of the requests so far (the last is
  the one it answers), so every pattern of broker failures is covered. \<open>ticks\<close> is how often the
  progress interval elapses before the handler ends.
\<close>

section \<open>Requests to the broker\<close>

datatype ack_kind = Ack | Nak "nat option" | Progress | Term

datatype delivery_action =
    Invoke message_context json
  | AckWith ack_kind
  | Publish str str

type_synonym broker = "delivery_action list \<Rightarrow> str + unit"

record event_info =
  ei_stream :: str
  ei_consumer :: str
  ei_delivered :: int

text \<open>The content of a dead-letter message; its text is \<open>serde_json\<close>'s.\<close>

record dead_letter =
  dead_subject :: str
  dead_event_id :: str
  dead_payload :: json
  dead_stream :: str
  dead_consumer :: str
  dead_deliveries :: int
  dead_error :: remote_error

type_synonym delivery_run = "(microservice_error + unit) \<times> delivery_action list"

text \<open>Settles the message: one acknowledgement, whose failure is the result of the task.\<close>

definition settle :: "broker \<Rightarrow> ack_kind \<Rightarrow> delivery_action list \<Rightarrow> delivery_run" where
  "settle broker kind log =
     (let log' = log @ [AckWith kind] in (map_err TransportError (broker log'), log'))"

text \<open>The loop around the running handler: progress is reported each time the interval elapses.\<close>

definition report_progress :: "broker \<Rightarrow> nat \<Rightarrow> delivery_action list \<Rightarrow> delivery_run" where
  "report_progress broker ticks log = repeat_request broker (AckWith Progress) ticks log"

definition event_context :: "nats_message \<Rightarrow> event_info \<Rightarrow> nat \<Rightarrow> event_envelope \<Rightarrow> message_context" where
  "event_context message info cancellation event =
     MessageContext_new (nm_subject message) (propagated_headers (ev_headers event) (nm_headers message))
       None None cancellation
       (Some \<lparr>dl_stream = Some (ei_stream info), dl_consumer = Some (ei_consumer info),
              dl_attempt = nat (max (ei_delivered info) 0)\<rparr>)
       (Some (ev_event_id event))"

text \<open>The decoded event, when the payload is one of the supported version with an identifier.\<close>

definition accept_event :: "codec \<Rightarrow> str \<Rightarrow> event_envelope option" where
  "accept_event cd bytes =
     (case dec_event cd bytes of
        Inl _ \<Rightarrow> None
      | Inr event \<Rightarrow> if ev_version event = PROTOCOL_VERSION \<and> ev_event_id event \<noteq> [] then Some event else None)"

definition finish_event ::
    "(dead_letter \<Rightarrow> str + str) \<Rightarrow> broker \<Rightarrow> nats_options \<Rightarrow> event_info \<Rightarrow> nats_message \<Rightarrow> event_envelope \<Rightarrow>
     json option result \<Rightarrow> delivery_action list \<Rightarrow> delivery_run" where
  "finish_event enc_dead broker opts info message event r log =
     (case r of
        Inr _ \<Rightarrow> settle broker Ack log
      | Inl e \<Rightarrow>
          if is_client_error (ex_status e) then settle broker Term log
          else if ei_delivered info \<ge> no_max_event_deliveries opts then
            (case no_dead_letter_subject opts of
               None \<Rightarrow> settle broker Term log
             | Some subject \<Rightarrow>
                 (case enc_dead \<lparr>dead_subject = nm_subject message, dead_event_id = ev_event_id event,
                          dead_payload = ev_payload event, dead_stream = ei_stream info,
                          dead_consumer = ei_consumer info, dead_deliveries = ei_delivered info,
                          dead_error = into_remote (remote_from_exception e)\<rparr> of
                    Inl _ \<Rightarrow> settle broker (Nak (Some (no_event_retry_delay opts))) log
                  | Inr bytes \<Rightarrow>
                      (let log' = log @ [Publish subject bytes]
                       in (case broker log' of
                             Inl _ \<Rightarrow> settle broker (Nak (Some (no_event_retry_delay opts))) log'
                           | Inr _ \<Rightarrow> settle broker Term log'))))
          else settle broker (Nak (Some (no_event_retry_delay opts))) log)"

definition process_event ::
    "codec \<Rightarrow> (dead_letter \<Rightarrow> str + str) \<Rightarrow> broker \<Rightarrow> closures \<Rightarrow> nat \<Rightarrow> nats_options \<Rightarrow> (str + event_info) \<Rightarrow> nat \<Rightarrow>
     message_handler \<Rightarrow> nats_message \<Rightarrow> delivery_run" where
  "process_event cd enc_dead broker impl ticks opts info_result cancellation handler message =
     (case info_result of
        Inl e \<Rightarrow> (Inl (TransportError e), [])
      | Inr info \<Rightarrow>
          if length (nm_payload message) > no_max_event_bytes opts then settle broker Term []
          else
            (case accept_event cd (nm_payload message) of
               None \<Rightarrow> settle broker Term []
             | Some event \<Rightarrow>
                 (let ctx = event_context message info cancellation event;
                      log = [Invoke ctx (ev_payload event)]
                  in (case report_progress broker ticks log of
                        (Inl e, log') \<Rightarrow> (Inl e, log')
                      | (Inr _, log') \<Rightarrow>
                          finish_event enc_dead broker opts info message event
                            (invoke impl handler ctx (ev_payload event)) log'))))"

section \<open>Lemmas\<close>

text \<open>What settles a delivery: an acknowledgement that is not a progress report.\<close>

definition settlements :: "delivery_action list \<Rightarrow> ack_kind list" where
  "settlements log = concat (map (\<lambda>a. case a of AckWith k \<Rightarrow> (if k = Progress then [] else [k]) | _ \<Rightarrow> []) log)"

lemma settlements_append [simp]: "settlements (xs @ ys) = settlements xs @ settlements ys"
  by (simp add: settlements_def)

lemma settlements_simps [simp]:
  "settlements [] = []"
  "settlements (Invoke c p # xs) = settlements xs"
  "settlements (Publish s b # xs) = settlements xs"
  "settlements (AckWith k # xs) = (if k = Progress then settlements xs else k # settlements xs)"
  by (simp_all add: settlements_def)

definition published :: "delivery_action list \<Rightarrow> (str \<times> str) list" where
  "published log = concat (map (\<lambda>a. case a of Publish s b \<Rightarrow> [(s, b)] | _ \<Rightarrow> []) log)"

lemma published_simps [simp]:
  "published [] = []" "published (xs @ ys) = published xs @ published ys"
  "published (Invoke c p # xs) = published xs"
  "published (Publish s b # xs) = (s, b) # published xs"
  "published (AckWith k # xs) = published xs"
  by (simp_all add: published_def)

lemma report_progress_log:
  "report_progress broker ticks log = (r, log') \<Longrightarrow> \<exists>n. log' = log @ replicate n (AckWith Progress)"
  unfolding report_progress_def by (drule repeat_request_log) blast

lemma settlements_replicate [simp]: "settlements (replicate n (AckWith Progress)) = []"
  by (induction n) simp_all

lemma published_replicate [simp]: "published (replicate n (AckWith Progress)) = []"
  by (induction n) simp_all

text \<open>A broker that accepts every acknowledgement; publications may still fail.\<close>

definition accepts_acks :: "broker \<Rightarrow> bool" where
  "accepts_acks broker \<longleftrightarrow> (\<forall>log k. is_ok (broker (log @ [AckWith k])))"

lemma settle_accepted: "accepts_acks broker \<Longrightarrow> settle broker k log = (Inr (), log @ [AckWith k])"
  unfolding accepts_acks_def settle_def Let_def
  by (cases "broker (log @ [AckWith k])") (auto, metis is_ok_simps(2))

lemma finish_event_cases:
  assumes "finish_event enc_dead broker opts info message event r log = (q, log')"
  obtains k where "settle broker k log = (q, log')" "k \<noteq> Progress"
  | k subject bytes where "settle broker k (log @ [Publish subject bytes]) = (q, log')" "k \<noteq> Progress"
  using assms unfolding finish_event_def Let_def
  by (auto split: sum.splits if_splits option.splits)

lemma report_progress_accepted:
  "accepts_acks broker \<Longrightarrow> report_progress broker ticks log = (Inr (), log @ replicate ticks (AckWith Progress))"
  unfolding report_progress_def accepts_acks_def by (rule repeat_request_ok) simp

definition invocations_of :: "delivery_action list \<Rightarrow> (message_context \<times> json) list" where
  "invocations_of log = concat (map (\<lambda>a. case a of Invoke c p \<Rightarrow> [(c, p)] | _ \<Rightarrow> []) log)"

lemma invocations_of_simps [simp]:
  "invocations_of [] = []" "invocations_of (xs @ ys) = invocations_of xs @ invocations_of ys"
  "invocations_of (Invoke c p # xs) = (c, p) # invocations_of xs"
  "invocations_of (Publish s b # xs) = invocations_of xs"
  "invocations_of (AckWith k # xs) = invocations_of xs"
  by (simp_all add: invocations_of_def)

lemma invocations_of_replicate [simp]: "invocations_of (replicate n (AckWith k)) = []"
  by (induction n) simp_all

section \<open>Properties\<close>

text \<open>When the broker accepts acknowledgements, a delivery ends without an error, calls the handler
  at most once, and its last request is the only one that settles the message.\<close>

theorem event_settled_exactly_once:
  assumes "accepts_acks broker"
    and "process_event cd enc_dead broker impl ticks opts (Inr info) cancellation handler message = (r, log)"
  shows "r = Inr () \<and> length (invocations_of log) \<le> 1 \<and>
    (\<exists>k before. log = before @ [AckWith k] \<and> k \<noteq> Progress \<and> settlements before = [])"
proof -
  consider "settle broker Term [] = (r, log)"
    | event ctx where "finish_event enc_dead broker opts info message event
        (invoke impl handler ctx (ev_payload event))
        (Invoke ctx (ev_payload event) # replicate ticks (AckWith Progress)) = (r, log)"
    using assms(2) report_progress_accepted [OF assms(1)]
    by (auto simp: process_event_def Let_def split: if_splits option.splits)
  then show ?thesis
  proof cases
    case 1
    then show ?thesis by (auto simp: settle_accepted [OF assms(1)] intro: exI [of _ Term])
  next
    case 2
    show ?thesis
      by (rule finish_event_cases [OF 2])
        (auto simp: settle_accepted [OF assms(1)])
  qed
qed

text \<open>C7: an event whose handler fails with anything but a client error is never acknowledged as
  handled, and the broker is told to drop it only once its deliveries are used up; when a dead-letter
  subject is configured (none is by default), only after the broker has accepted on that subject a
  dead letter that holds the event, its origin and the sanitised failure, whatever other broker
  requests fail. Without such a subject nothing is published.\<close>

theorem failed_event_not_lost:
  assumes run: "process_event cd enc_dead broker impl ticks opts (Inr info) cancellation handler message = (r, log)"
    and size: "length (nm_payload message) \<le> no_max_event_bytes opts"
    and event: "accept_event cd (nm_payload message) = Some event"
    and fails: "\<And>ctx. invoke impl handler ctx (ev_payload event) = Inl e"
    and status: "\<not> is_client_error (ex_status e)"
  shows "Ack \<notin> set (settlements log) \<and>
    (Term \<in> set (settlements log) \<longrightarrow>
       no_max_event_deliveries opts \<le> ei_delivered info \<and>
       (case no_dead_letter_subject opts of
          None \<Rightarrow> published log = []
        | Some subject \<Rightarrow>
            (\<exists>bytes before.
               enc_dead \<lparr>dead_subject = nm_subject message, dead_event_id = ev_event_id event,
                 dead_payload = ev_payload event, dead_stream = ei_stream info,
                 dead_consumer = ei_consumer info, dead_deliveries = ei_delivered info,
                 dead_error = into_remote (remote_from_exception e)\<rparr> = Inr bytes \<and>
               log = before @ [Publish subject bytes, AckWith Term] \<and> settlements before = [] \<and>
               is_ok (broker (before @ [Publish subject bytes])))))"
proof -
  let ?ctx = "event_context message info cancellation event"
  let ?start = "[Invoke ?ctx (ev_payload event)]"
  obtain q plog where p: "report_progress broker ticks ?start = (q, plog)" by (cases "report_progress broker ticks ?start")
  from report_progress_log [OF this] obtain n where plog: "plog = ?start @ replicate n (AckWith Progress)" by blast
  then have none: "settlements plog = []" "published plog = []" by simp_all
  show ?thesis
  proof (cases q)
    case (Inl err)
    with run size event p have "log = plog" by (simp add: process_event_def Let_def)
    with none show ?thesis by simp
  next
    case (Inr u)
    with run size event p fails have "finish_event enc_dead broker opts info message event (Inl e) plog = (r, log)"
      by (simp add: process_event_def Let_def)
    with status none show ?thesis
      by (auto simp: finish_event_def settle_def Let_def split: if_splits option.splits sum.splits
          intro!: exI [of _ plog])
  qed
qed

section \<open>Witnesses\<close>

definition sample_event :: event_envelope where
  "sample_event = \<lparr>ev_version = 1, ev_event_id = ''e'', ev_headers = [], ev_payload = JNull,
     ev_published_at_unix_millis = 5\<rparr>"

definition event_codec :: codec where
  "event_codec =
     \<lparr>enc_request = (\<lambda>_. Inl ''unsupported''), dec_request = (\<lambda>_. Inl ''malformed''),
      enc_response = (\<lambda>_. Inl ''unsupported''), dec_response = (\<lambda>_. Inl ''malformed''),
      enc_event = (\<lambda>_. Inr ''v''),
      dec_event = (\<lambda>b. if b = ''v'' then Inr sample_event else Inl ''malformed'')\<rparr>"

definition last_delivery :: event_info where
  "last_delivery = \<lparr>ei_stream = ''s'', ei_consumer = ''c'', ei_delivered = 5\<rparr>"

definition event_message :: nats_message where
  "event_message = \<lparr>nm_subject = ''a.b'', nm_payload = ''v'', nm_reply = None, nm_headers = None\<rparr>"

definition dead_letter_options :: nats_options where
  "dead_letter_options = nats_dead_letter_subject ''dead'' (NatsTransportOptions_new ''nats'')"

definition event_handler_a :: message_handler where
  "event_handler_a = \<lparr>mh_kind = Event, mh_pattern = ''a.*'', mh_closure = 0\<rparr>"

definition failing_closures :: closures where
  "failing_closures = (\<lambda>_ _ _. Inl (InternalServerErrorException (OtherError ''down'')))"

lemma event_settled_exactly_once_witness:
  "fst (process_event event_codec (\<lambda>_. Inr ''d'') (\<lambda>_. Inr ()) failing_closures 2 dead_letter_options
     (Inr last_delivery) 7 event_handler_a event_message) = Inr ()"
  by (rule conjunct1 [OF event_settled_exactly_once [OF _ surjective_pairing]]) (simp add: accepts_acks_def)

lemma failed_event_not_lost_witness:
  "Ack \<notin> set (settlements (snd (process_event event_codec (\<lambda>_. Inr ''d'') (\<lambda>_. Inr ()) failing_closures 2
     dead_letter_options (Inr last_delivery) 7 event_handler_a event_message)))"
  by (rule conjunct1 [OF failed_event_not_lost [OF surjective_pairing, where event = sample_event and
        e = "InternalServerErrorException (OtherError ''down'')"]])
    (simp_all add: event_message_def dead_letter_options_def nats_dead_letter_subject_def NatsTransportOptions_new_def
      accept_event_def event_codec_def sample_event_def PROTOCOL_VERSION_def failing_closures_def invoke_def
      InternalServerErrorException_def HttpException_new_def with_source_def is_client_error_def)

end
