(* ===== verification/Consumers.thy ===== *)
theory Consumers
  imports Messages "HOL-Library.Multiset"
begin

text \<open>
  The supervised consumers of \<open>crates/caelix-microservices/src/lib.rs\<close>: \<open>consume_command\<close> and
  \<open>consume_event\<close>, which share their loop, with \<open>wait_for_handler_tasks\<close> and \<open>task_result\<close>.

  The loop selects among the branches that are enabled, in an order the source leaves open: a step
  relation with one rule for each branch. Messages are of any type. A handler task ends with a result
  or a panic; tasks that still run when their set is dropped are aborted.
\<close>

section \<open>Handler tasks\<close>

datatype task_outcome = TaskEnded "microservice_error + unit" | TaskPanicked str

definition task_result :: "task_outcome \<Rightarrow> microservice_error + unit" where
  "task_result outcome = (case outcome of
     TaskEnded r \<Rightarrow> r
   | TaskPanicked txt \<Rightarrow> Inl (TransportError (''transport task panicked: '' @ txt)))"

datatype consumer_phase = Consuming | Draining | Returned "microservice_error + unit"

record 'm consumer =
  cn_phase :: consumer_phase
  cn_cancelled :: bool
  cn_in_flight :: "'m list"
  cn_spawned :: "'m list"
  cn_finished :: "'m list"
  cn_aborted :: "'m list"

definition consumer_start :: "'m consumer" where
  "consumer_start = \<lparr>cn_phase = Consuming, cn_cancelled = False, cn_in_flight = [], cn_spawned = [],
     cn_finished = [], cn_aborted = []\<rparr>"

text \<open>A task ends: the loop goes on, or returns its error and drops the remaining tasks.\<close>

definition complete_task :: "'m \<Rightarrow> task_outcome \<Rightarrow> 'm consumer \<Rightarrow> 'm consumer" where
  "complete_task m outcome c =
     (case task_result outcome of
        Inr _ \<Rightarrow> c\<lparr>cn_in_flight := remove1 m (cn_in_flight c), cn_finished := cn_finished c @ [m]\<rparr>
      | Inl e \<Rightarrow> c\<lparr>cn_phase := Returned (Inl e), cn_in_flight := [], cn_finished := cn_finished c @ [m],
                   cn_aborted := cn_aborted c @ remove1 m (cn_in_flight c)\<rparr>)"

definition spawn_task :: "'m \<Rightarrow> 'm consumer \<Rightarrow> 'm consumer" where
  "spawn_task m c = c\<lparr>cn_in_flight := cn_in_flight c @ [m], cn_spawned := cn_spawned c @ [m]\<rparr>"

definition return_error :: "microservice_error \<Rightarrow> 'm consumer \<Rightarrow> 'm consumer" where
  "return_error e c = c\<lparr>cn_phase := Returned (Inl e), cn_in_flight := [], cn_aborted := cn_aborted c @ cn_in_flight c\<rparr>"

datatype subscription = CommandSubscription | EventSubscription

definition ended_text :: "subscription \<Rightarrow> str" where
  "ended_text sub = (case sub of
     CommandSubscription \<Rightarrow> ''NATS command subscription ended unexpectedly''
   | EventSubscription \<Rightarrow> ''JetStream event consumer ended unexpectedly'')"

text \<open>
  \<open>next\<close> of the source: a message, an error of the subscription (event consumers only), or its end,
  which is an error. \<open>stop\<close> is the application cancelling its token.
\<close>

inductive consume_step :: "nat \<Rightarrow> subscription \<Rightarrow> 'm consumer \<Rightarrow> 'm consumer \<Rightarrow> bool" for concurrency sub where
  stop: "consume_step concurrency sub c (c\<lparr>cn_cancelled := True\<rparr>)"
| cancelled: "cn_phase c = Consuming \<Longrightarrow> cn_cancelled c \<Longrightarrow>
     consume_step concurrency sub c (c\<lparr>cn_phase := Draining\<rparr>)"
| completed: "cn_phase c = Consuming \<Longrightarrow> m \<in> set (cn_in_flight c) \<Longrightarrow>
     consume_step concurrency sub c (complete_task m outcome c)"
| received: "cn_phase c = Consuming \<Longrightarrow> length (cn_in_flight c) < concurrency \<Longrightarrow>
     consume_step concurrency sub c (spawn_task m c)"
| receive_failed: "sub = EventSubscription \<Longrightarrow> cn_phase c = Consuming \<Longrightarrow> length (cn_in_flight c) < concurrency \<Longrightarrow>
     consume_step concurrency sub c (return_error (TransportError e) c)"
| subscription_ended: "cn_phase c = Consuming \<Longrightarrow> length (cn_in_flight c) < concurrency \<Longrightarrow>
     consume_step concurrency sub c (return_error (TransportError (ended_text sub)) c)"
| drained: "cn_phase c = Draining \<Longrightarrow> m \<in> set (cn_in_flight c) \<Longrightarrow>
     consume_step concurrency sub c (complete_task m outcome c)"
| returned: "cn_phase c = Draining \<Longrightarrow> cn_in_flight c = [] \<Longrightarrow>
     consume_step concurrency sub c (c\<lparr>cn_phase := Returned (Inr ())\<rparr>)"

definition consume_command_step :: "nat \<Rightarrow> 'm consumer \<Rightarrow> 'm consumer \<Rightarrow> bool" where
  "consume_command_step concurrency = consume_step concurrency CommandSubscription"

definition consume_event_step :: "nat \<Rightarrow> 'm consumer \<Rightarrow> 'm consumer \<Rightarrow> bool" where
  "consume_event_step concurrency = consume_step concurrency EventSubscription"

inductive_cases consume_stepE: "consume_step concurrency sub c c'"

inductive consumer_reachable :: "nat \<Rightarrow> subscription \<Rightarrow> 'm consumer \<Rightarrow> bool" for concurrency sub where
  start: "consumer_reachable concurrency sub consumer_start"
| step: "consumer_reachable concurrency sub c \<Longrightarrow> consume_step concurrency sub c c' \<Longrightarrow>
     consumer_reachable concurrency sub c'"

section \<open>Invariant\<close>

definition consumer_inv :: "nat \<Rightarrow> 'm consumer \<Rightarrow> bool" where
  "consumer_inv concurrency c \<longleftrightarrow>
     length (cn_in_flight c) \<le> concurrency \<and>
     mset (cn_spawned c) = mset (cn_in_flight c) + mset (cn_finished c) + mset (cn_aborted c) \<and>
     (cn_phase c = Draining \<longrightarrow> cn_cancelled c \<and> cn_aborted c = []) \<and>
     (cn_phase c = Consuming \<longrightarrow> cn_aborted c = []) \<and>
     (cn_phase c = Returned (Inr ()) \<longrightarrow> cn_cancelled c \<and> cn_in_flight c = [] \<and> cn_aborted c = [])"

lemma complete_task_inv:
  assumes "consumer_inv n c" "m \<in> set (cn_in_flight c)" "cn_phase c \<noteq> Returned (Inr ())"
  shows "consumer_inv n (complete_task m outcome c)"
proof -
  have "mset (cn_in_flight c) = add_mset m (mset (remove1 m (cn_in_flight c)))" using assms(2) by simp
  moreover have "length (remove1 m (cn_in_flight c)) \<le> n" using assms(1)
    by (auto simp: consumer_inv_def length_remove1)
  ultimately show ?thesis using assms
    by (cases "task_result outcome") (auto simp: complete_task_def consumer_inv_def)
qed

lemma consume_step_inv: "consume_step n sub c c' \<Longrightarrow> consumer_inv n c \<Longrightarrow> consumer_inv n c'"
proof (induction rule: consume_step.induct)
  case (completed c m outcome)
  then show ?case by (intro complete_task_inv) auto
next
  case (drained c m outcome)
  then show ?case by (intro complete_task_inv) auto
qed (auto simp: consumer_inv_def spawn_task_def return_error_def)

lemma consumer_reachable_inv: "consumer_reachable n sub c \<Longrightarrow> consumer_inv n c"
proof (induction rule: consumer_reachable.induct)
  case start
  show ?case by (simp add: consumer_inv_def consumer_start_def)
next
  case (step c c')
  then show ?case by (blast intro: consume_step_inv)
qed

text \<open>A loop that has returned does nothing more.\<close>

lemma returned_stays: "consume_step n sub c c' \<Longrightarrow> cn_phase c = Returned r \<Longrightarrow> c' = c\<lparr>cn_cancelled := True\<rparr>"
  by (erule consume_stepE) auto

text \<open>The drain always makes progress when the handlers end: the number of running tasks decreases.\<close>

lemma drain_progress:
  assumes "cn_phase c = Draining" "cn_in_flight c \<noteq> []"
  shows "consume_step n sub c (complete_task (hd (cn_in_flight c)) outcome c) \<and>
    length (cn_in_flight (complete_task (hd (cn_in_flight c)) outcome c)) < length (cn_in_flight c)"
proof
  show "consume_step n sub c (complete_task (hd (cn_in_flight c)) outcome c)"
    by (rule consume_step.drained) (use assms in auto)
  show "length (cn_in_flight (complete_task (hd (cn_in_flight c)) outcome c)) < length (cn_in_flight c)"
    using assms by (cases "task_result outcome"; cases "cn_in_flight c") (auto simp: complete_task_def)
qed

section \<open>Properties\<close>

text \<open>C9: in every reachable state of a consumer at most \<open>max_handler_concurrency\<close> handler tasks run and
  every message taken from the subscription is running, finished or was aborted; a consumer returns
  without an error only after a cancellation and when every handler it started has finished.\<close>

theorem consumer_bounded_and_complete:
  assumes "consumer_reachable concurrency sub c"
  shows "length (cn_in_flight c) \<le> concurrency \<and>
    mset (cn_spawned c) = mset (cn_in_flight c) + mset (cn_finished c) + mset (cn_aborted c) \<and>
    (cn_phase c = Returned (Inr ()) \<longrightarrow> cn_cancelled c \<and> mset (cn_finished c) = mset (cn_spawned c))"
  using consumer_reachable_inv [OF assms] by (auto simp: consumer_inv_def)

lemma consumer_bounded_and_complete_witness:
  "length (cn_in_flight (spawn_task (7::nat) consumer_start)) \<le> 1"
proof -
  have "consumer_reachable 1 CommandSubscription (spawn_task (7::nat) consumer_start)"
    by (rule consumer_reachable.step [OF consumer_reachable.start consume_step.received])
      (simp_all add: consumer_start_def)
  from consumer_bounded_and_complete [OF this] show ?thesis by blast
qed

text \<open>
  From any draining state the consumer can always return, whatever the running tasks' outcomes.
\<close>

inductive consume_steps :: "nat \<Rightarrow> subscription \<Rightarrow> 'm consumer \<Rightarrow> 'm consumer \<Rightarrow> bool" for concurrency sub where
  refl: "consume_steps concurrency sub c c"
| step: "consume_step concurrency sub c c1 \<Longrightarrow> consume_steps concurrency sub c1 c2 \<Longrightarrow>
     consume_steps concurrency sub c c2"

lemma complete_task_phase: "cn_phase (complete_task m outcome c) = cn_phase c \<or>
   (\<exists>e. cn_phase (complete_task m outcome c) = Returned (Inl e))"
  by (cases "task_result outcome") (auto simp: complete_task_def)

lemma drain_returns: "cn_phase c = Draining \<Longrightarrow> \<exists>c' r. consume_steps n sub c c' \<and> cn_phase c' = Returned r"
proof (induction "length (cn_in_flight c)" arbitrary: c rule: less_induct)
  case less
  show ?case
  proof (cases "cn_in_flight c = []")
    case True
    from consume_step.returned [OF less.prems True] show ?thesis
      by (intro exI conjI) (rule consume_steps.step, assumption, rule consume_steps.refl, simp)
  next
    case False
    let ?c = "complete_task (hd (cn_in_flight c)) (TaskEnded (Inr ())) c"
    from drain_progress [OF less.prems False, of n sub "TaskEnded (Inr ())"] have
      s: "consume_step n sub c ?c" "length (cn_in_flight ?c) < length (cn_in_flight c)" by auto
    have "cn_phase ?c = Draining" using less.prems by (simp add: complete_task_def task_result_def)
    from less.hyps [OF s(2) this] s(1) show ?thesis by (blast intro: consume_steps.step)
  qed
qed

text \<open>How far a consumer is from its return, once its token is cancelled.\<close>

definition drain_work :: "'m consumer \<Rightarrow> nat" where
  "drain_work c = (case cn_phase c of
     Consuming \<Rightarrow> length (cn_in_flight c) + 2 | Draining \<Rightarrow> length (cn_in_flight c) + 1 | Returned _ \<Rightarrow> 0)"

lemma complete_task_work:
  assumes "m \<in> set (cn_in_flight c)" "cn_phase c = Draining"
  shows "drain_work (complete_task m outcome c) < drain_work c"
proof (cases "task_result outcome")
  case (Inl e)
  with assms(2) show ?thesis by (simp add: complete_task_def drain_work_def)
next
  case (Inr u)
  have "length (remove1 m (cn_in_flight c)) < length (cn_in_flight c)"
    using length_pos_if_in_set [OF assms(1)] assms(1) by (simp add: length_remove1)
  with Inr assms(2) show ?thesis by (simp add: complete_task_def drain_work_def)
qed

lemma draining_step:
  assumes "consume_step n sub c c'" and "cn_cancelled c" "cn_phase c \<noteq> Consuming"
  shows "cn_cancelled c' \<and> cn_phase c' \<noteq> Consuming \<and> cn_spawned c' = cn_spawned c \<and>
    (c' = c \<or> drain_work c' < drain_work c)"
  using assms
proof (cases rule: consume_step.cases)
  case (drained m outcome)
  with complete_task_work [of m c outcome] assms show ?thesis
    by (auto simp: complete_task_def split: sum.splits)
next
  case returned
  with assms show ?thesis by (auto simp: drain_work_def)
qed simp_all

lemma draining_steps:
  "consume_steps n sub c c' \<Longrightarrow> cn_cancelled c \<Longrightarrow> cn_phase c \<noteq> Consuming \<Longrightarrow>
   cn_cancelled c' \<and> cn_phase c' \<noteq> Consuming \<and> cn_spawned c' = cn_spawned c"
proof (induction rule: consume_steps.induct)
  case (step c c1 c2)
  from draining_step [OF step.hyps(1) step.prems] step.IH show ?case by simp
qed simp

text \<open>C32: In every reachable state after a cancellation: a consumer in its receive loop can leave it (until it
  does, it may still take messages, since the branches are selected in no order); once it drains it starts no
  further handler, whatever happens, and every step that changes it brings its return nearer; and it can always
  be run to its return. A consumer drains only after a cancellation.\<close>

theorem draining_starts_nothing_and_returns:
  assumes "consumer_reachable n sub c" and "cn_cancelled c \<or> cn_phase c = Draining"
  shows "cn_cancelled c \<and>
    (cn_phase c = Consuming \<longrightarrow> consume_step n sub c (c\<lparr>cn_phase := Draining\<rparr>)) \<and>
    (cn_phase c = Draining \<longrightarrow>
       (\<forall>c1. consume_steps n sub c c1 \<longrightarrow> cn_spawned c1 = cn_spawned c \<and>
          (\<forall>c2. consume_step n sub c1 c2 \<longrightarrow> c2 = c1 \<or> drain_work c2 < drain_work c1))) \<and>
    (\<exists>c1 r. consume_steps n sub c c1 \<and> cn_phase c1 = Returned r)"
proof -
  have cancelled: "cn_cancelled c"
    using consumer_reachable_inv [OF assms(1)] assms(2) by (auto simp: consumer_inv_def)
  have leave: "consume_step n sub c (c\<lparr>cn_phase := Draining\<rparr>)" if "cn_phase c = Consuming"
    by (rule consume_step.cancelled [OF that cancelled])
  have "\<exists>c1 r. consume_steps n sub c c1 \<and> cn_phase c1 = Returned r"
  proof (cases "cn_phase c")
    case Consuming
    have "cn_phase (c\<lparr>cn_phase := Draining\<rparr>) = Draining" by simp
    from drain_returns [OF this, of n sub] leave [OF Consuming] show ?thesis by (meson consume_steps.step)
  next
    case Draining
    then show ?thesis by (rule drain_returns)
  next
    case (Returned r)
    then show ?thesis by (blast intro: consume_steps.refl)
  qed
  moreover have "cn_spawned c1 = cn_spawned c \<and> (\<forall>c2. consume_step n sub c1 c2 \<longrightarrow> c2 = c1 \<or> drain_work c2 < drain_work c1)"
    if "cn_phase c = Draining" "consume_steps n sub c c1" for c1
    using draining_steps [OF that(2) cancelled] draining_step [of n sub c1] that(1) by auto
  ultimately show ?thesis using cancelled leave by blast
qed

text \<open>A consumer that has taken a message, is cancelled and leaves its loop.\<close>

lemma draining_witness:
  "\<exists>c1 r. consume_steps 4 EventSubscription
     ((spawn_task (1::nat) consumer_start)\<lparr>cn_cancelled := True, cn_phase := Draining\<rparr>) c1 \<and> cn_phase c1 = Returned r"
proof -
  let ?c = "spawn_task (1::nat) consumer_start"
  have "consumer_reachable 4 EventSubscription ?c"
    by (rule consumer_reachable.step [OF consumer_reachable.start consume_step.received])
      (simp_all add: consumer_start_def)
  from consumer_reachable.step [OF this consume_step.stop]
  have "consumer_reachable 4 EventSubscription (?c\<lparr>cn_cancelled := True\<rparr>)" .
  from consumer_reachable.step [OF this consume_step.cancelled]
  have r: "consumer_reachable 4 EventSubscription (?c\<lparr>cn_cancelled := True, cn_phase := Draining\<rparr>)"
    by (simp add: spawn_task_def consumer_start_def)
  show ?thesis using draining_starts_nothing_and_returns [OF r] by simp
qed

end
