(* ===== verification/Discovery.thy ===== *)
theory Discovery
  imports ModuleGraph
begin

text \<open>
  The second half of \<open>ModuleGraph::discover_from\<close> in \<open>crates/caelix-core/src/module.rs\<close>: the
  visited modules are put in postorder, so that imported modules come first, and their import
  indices are renumbered. The hash map \<open>remap\<close> is a map, the vector of slots from which nodes
  are taken a list of options; \<open>None\<close> of a result is a panic.
\<close>

section \<open>The functions of the source\<close>

function order_all ::
    "'m module_graph \<Rightarrow> nat list \<Rightarrow> nat set \<times> nat list \<Rightarrow> (nat set \<times> nat list) option"
where
  "order_all nodes [] st = Some st"
| "order_all nodes (index # rest) (seen, ordered) =
     (if index \<in> seen then order_all nodes rest (seen, ordered)
      else if index < length nodes then
        (case order_all nodes (mn_imports (nodes ! index)) (insert index seen, ordered) of
           None \<Rightarrow> None
         | Some (seen', ordered') \<Rightarrow> order_all nodes rest (seen', ordered' @ [index]))
      else None)"
  by pat_completeness auto

lemma order_all_seen_mono:
  "order_all_dom (nodes, is, st) \<Longrightarrow> order_all nodes is st = Some st' \<Longrightarrow> fst st \<subseteq> fst st'"
proof (induction nodes "is" st arbitrary: st' rule: order_all.pinduct)
  case (1 nodes st)
  then show ?case by (simp add: order_all.psimps)
next
  case (2 nodes i rest seen ordered)
  show ?case
  proof (cases "i \<in> seen")
    case True
    with 2 show ?thesis by (simp add: order_all.psimps)
  next
    case new: False
    from "2.prems" "2.hyps" new obtain seen1 ordered1 where
      i: "i < length nodes" and
      a: "order_all nodes (mn_imports (nodes ! i)) (insert i seen, ordered) = Some (seen1, ordered1)" and
      b: "order_all nodes rest (seen1, ordered1 @ [i]) = Some st'"
      by (auto simp: order_all.psimps split: option.splits if_splits)
    from "2.IH"(2) [OF new i a] "2.IH"(3) [OF new i a refl b] show ?thesis by auto
  qed
qed

termination order_all
proof (relation "inv_image (finite_psubset <*lex*> less_than)
    (\<lambda>(nodes, is, seen, ordered). ({..<length nodes} - seen, length is))", goal_cases)
  case 1
  show ?case by (intro wf_inv_image wf_lex_prod wf_finite_psubset wf_less_than)
next
  case (2 nodes i rest seen ordered)
  then show ?case by simp
next
  case (3 nodes i rest seen ordered)
  then show ?case by (auto simp: finite_psubset_def)
next
  case (4 nodes i rest seen ordered p seen1 ordered1)
  then have "insert i seen \<subseteq> seen1" using order_all_seen_mono by fastforce
  with 4 show ?case by (auto simp: finite_psubset_def)
qed

fun take_nodes ::
    "'m module_node option list \<Rightarrow> (nat \<Rightarrow> nat option) \<Rightarrow> nat list \<Rightarrow> 'm module_graph option" where
  "take_nodes slots remap [] = Some []"
| "take_nodes slots remap (old # olds) =
     (if old < length slots then
        (case slots ! old of
           None \<Rightarrow> None
         | Some node \<Rightarrow>
             (case those (map remap (mn_imports node)) of
                None \<Rightarrow> None
              | Some imports \<Rightarrow>
                  map_option ((#) (node\<lparr>mn_imports := imports\<rparr>))
                    (take_nodes (slots[old := None]) remap olds)))
      else None)"

definition remap_of :: "nat list \<Rightarrow> nat \<Rightarrow> nat option" where
  "remap_of ordered = fold (\<lambda>(new, old) m. m(old \<mapsto> new)) (enumerate 0 ordered) Map.empty"

definition discover_from :: "('m::finite) program \<Rightarrow> 'm \<Rightarrow> 'm module_graph result option" where
  "discover_from prog root =
     (case visit_all prog [root] ([], Map.empty, []) of
        None \<Rightarrow> None
      | Some (Inl e) \<Rightarrow> Some (Inl e)
      | Some (Inr (indices, nodes, states, path)) \<Rightarrow>
          (case order_all nodes indices ({}, []) of
             None \<Rightarrow> None
           | Some (seen, ordered) \<Rightarrow>
               (let remap = remap_of ordered in
                case take_nodes (map Some nodes) remap ordered of
                  None \<Rightarrow> None
                | Some nodes' \<Rightarrow>
                    if remap (hd indices) = None then None else Some (Inr nodes'))))"

section \<open>Postorder\<close>

definition in_range :: "'m module_graph \<Rightarrow> nat list \<Rightarrow> bool" where
  "in_range nodes is \<longleftrightarrow> (\<forall>i\<in>set is. i < length nodes)"

definition children_first :: "'m module_graph \<Rightarrow> nat list \<Rightarrow> bool" where
  "children_first nodes ordered \<longleftrightarrow>
     (\<forall>k<length ordered. set (mn_imports (nodes ! (ordered ! k))) \<subseteq> set (take k ordered))"

lemma children_first_snoc:
  "children_first nodes (xs @ [x]) \<longleftrightarrow>
     children_first nodes xs \<and> set (mn_imports (nodes ! x)) \<subseteq> set xs"
proof -
  have "(\<forall>k<length (xs @ [x]). P k) \<longleftrightarrow> (\<forall>k<length xs. P k) \<and> P (length xs)" for P
    by (auto simp: less_Suc_eq)
  then show ?thesis by (auto simp: children_first_def nth_append)
qed

text \<open>Nodes on the current path are seen but not yet ordered; a rank keeps them out of the list.\<close>

definition order_inv ::
    "'m module_graph \<Rightarrow> (nat \<Rightarrow> nat) \<Rightarrow> nat list \<Rightarrow> nat set \<times> nat list \<Rightarrow> bool" where
  "order_inv nodes r is st \<longleftrightarrow>
     (case st of (seen, ordered) \<Rightarrow>
        in_range nodes is \<and> set ordered \<subseteq> seen \<and> distinct ordered \<and> in_range nodes ordered \<and>
        children_first nodes ordered \<and> (\<forall>g\<in>seen - set ordered. \<forall>i\<in>set is. r i < r g))"

lemma order_all_correct:
  assumes "\<forall>n\<in>set nodes. in_range nodes (mn_imports n)"
    and "\<forall>i<length nodes. \<forall>c\<in>set (mn_imports (nodes ! i)). r c < r i"
    and "order_inv nodes r is st"
  shows "\<exists>seen' ext. order_all nodes is st = Some (seen', snd st @ ext) \<and>
      seen' - set (snd st @ ext) = fst st - set (snd st) \<and> set is \<subseteq> set (snd st @ ext) \<and>
      (ext \<noteq> [] \<longrightarrow> last ext \<in> set is) \<and>
      order_inv nodes r [] (seen', snd st @ ext)"
  using assms
proof (induction nodes "is" st rule: order_all.induct)
  case (1 nodes st)
  then show ?case by (cases st) (auto simp: order_inv_def)
next
  case (2 nodes i rest seen ordered)
  note inv = "2.prems"(3)
  show ?case
  proof (cases "i \<in> seen")
    case True
    with inv have "i \<in> set ordered" and rest: "order_inv nodes r rest (seen, ordered)"
      by (auto simp: order_inv_def in_range_def)
    from "2.IH"(1) [OF True "2.prems"(1,2) rest] obtain seen1 ext where
      "order_all nodes rest (seen, ordered) = Some (seen1, ordered @ ext)"
      "seen1 - set (ordered @ ext) = seen - set ordered" "set rest \<subseteq> set (ordered @ ext)"
      "ext \<noteq> [] \<longrightarrow> last ext \<in> set rest" "order_inv nodes r [] (seen1, ordered @ ext)"
      by auto
    with True \<open>i \<in> set ordered\<close> show ?thesis by (intro exI [of _ seen1] exI [of _ ext]) simp
  next
    case new: False
    from inv have i: "i < length nodes" by (simp add: order_inv_def in_range_def)
    let ?cs = "mn_imports (nodes ! i)"
    have less: "\<forall>c\<in>set ?cs. r c < r i" using "2.prems"(2) i by simp
    have gray: "\<forall>g\<in>seen - set ordered. r i < r g" using inv by (auto simp: order_inv_def)
    have "order_inv nodes r ?cs (insert i seen, ordered)"
      using inv "2.prems"(1) i less gray
      by (auto simp: order_inv_def dest: nth_mem intro: less_trans)
    from "2.IH"(2) [OF new i "2.prems"(1,2) this] obtain seen1 ext1 where
      a: "order_all nodes ?cs (insert i seen, ordered) = Some (seen1, ordered @ ext1)" and
      s1: "seen1 - set (ordered @ ext1) = insert i seen - set ordered" and
      c1: "set ?cs \<subseteq> set (ordered @ ext1)" and
      i1: "order_inv nodes r [] (seen1, ordered @ ext1)" by auto
    from s1 new inv have ni: "i \<notin> set (ordered @ ext1)" "i \<in> seen1" by (auto simp: order_inv_def)
    have gray1: "seen1 - set (ordered @ ext1 @ [i]) = seen - set ordered" using s1 new by auto
    have "order_inv nodes r rest (seen1, (ordered @ ext1) @ [i])"
      unfolding order_inv_def prod.case children_first_snoc
      using i1 inv ni c1 i gray1 by (auto simp: order_inv_def in_range_def)
    from "2.IH"(3) [OF new i a refl "2.prems"(1,2) this] obtain seen2 ext2 where
      b: "order_all nodes rest (seen1, (ordered @ ext1) @ [i]) = Some (seen2, ((ordered @ ext1) @ [i]) @ ext2)" and
      s2: "seen2 - set (((ordered @ ext1) @ [i]) @ ext2) = seen1 - set ((ordered @ ext1) @ [i])" and
      c2: "set rest \<subseteq> set (((ordered @ ext1) @ [i]) @ ext2)" and
      l2: "ext2 \<noteq> [] \<longrightarrow> last ext2 \<in> set rest" and
      i2: "order_inv nodes r [] (seen2, ((ordered @ ext1) @ [i]) @ ext2)" by auto
    show ?thesis
    proof (intro exI conjI)
      show "order_all nodes (i # rest) (seen, ordered) =
          Some (seen2, snd (seen, ordered) @ (ext1 @ [i] @ ext2))"
        using new i a b by simp
    qed (use s2 c2 l2 i2 gray1 in auto)
  qed
qed

section \<open>Renumbering\<close>

lemma remap_fold:
  "i \<notin> set xs \<Longrightarrow> fold (\<lambda>(new, old) m. m(old \<mapsto> new)) (enumerate n xs) m i = m i"
  by (induction xs arbitrary: n m) auto

lemma remap_fold_nth:
  "distinct xs \<Longrightarrow> k < length xs \<Longrightarrow>
   fold (\<lambda>(new, old) m. m(old \<mapsto> new)) (enumerate n xs) m (xs ! k) = Some (n + k)"
proof (induction xs arbitrary: n m k)
  case Nil
  then show ?case by simp
next
  case (Cons x xs)
  show ?case
  proof (cases k)
    case 0
    with Cons.prems show ?thesis by (simp add: remap_fold del: fun_upd_apply) simp
  next
    case (Suc j)
    with Cons show ?thesis by simp
  qed
qed

lemma remap_of_nth: "distinct xs \<Longrightarrow> k < length xs \<Longrightarrow> remap_of xs (xs ! k) = Some k"
  by (simp add: remap_of_def remap_fold_nth)

lemma remap_of_total: "distinct xs \<Longrightarrow> i \<in> set xs \<Longrightarrow> \<exists>k<length xs. remap_of xs i = Some k \<and> xs ! k = i"
  by (metis in_set_conv_nth remap_of_nth)

text \<open>The renumbered node.\<close>

definition renumber :: "nat list \<Rightarrow> 'm module_node \<Rightarrow> 'm module_node" where
  "renumber ordered n = n\<lparr>mn_imports := map (the \<circ> remap_of ordered) (mn_imports n)\<rparr>"

lemma those_map_Some: "\<forall>x\<in>set xs. f x \<noteq> None \<Longrightarrow> those (map f xs) = Some (map (the \<circ> f) xs)"
  by (induction xs) auto

lemma take_nodes_correct:
  assumes "distinct olds" "\<forall>i\<in>set olds. i < length slots \<and> slots ! i = Some (nodes ! i)"
    and "\<forall>i\<in>set olds. \<forall>c\<in>set (mn_imports (nodes ! i)). remap_of ordered c \<noteq> None"
  shows "take_nodes slots (remap_of ordered) olds = Some (map (\<lambda>i. renumber ordered (nodes ! i)) olds)"
  using assms
proof (induction olds arbitrary: slots)
  case Nil
  then show ?case by simp
next
  case (Cons i olds)
  from Cons.prems have "those (map (remap_of ordered) (mn_imports (nodes ! i))) =
      Some (map (the \<circ> remap_of ordered) (mn_imports (nodes ! i)))"
    by (intro those_map_Some) simp
  moreover have "take_nodes (slots[i := None]) (remap_of ordered) olds =
      Some (map (\<lambda>i. renumber ordered (nodes ! i)) olds)"
    using Cons.prems by (intro Cons.IH) (auto simp: nth_list_update)
  ultimately show ?case using Cons.prems by (simp add: renumber_def)
qed

section \<open>Discovery\<close>

text \<open>
  What a discovered graph is: each module reachable from the root by imports once, the root last,
  every import index below the index of the importing module and naming, in order, its imports.
\<close>

definition graph_of :: "'m program \<Rightarrow> 'm \<Rightarrow> 'm module_graph \<Rightarrow> bool" where
  "graph_of prog root g \<longleftrightarrow>
     g \<noteq> [] \<and> mn_type (last g) = root \<and> distinct (map mn_type g) \<and>
     mn_type ` set g = {m. (root, m) \<in> (import_rel prog)\<^sup>*} \<and>
     (\<forall>i<length g.
        mn_name (g ! i) = mod_name (prog (mn_type (g ! i))) \<and>
        mn_metadata (g ! i) = (mod_register (prog (mn_type (g ! i))))\<lparr>md_imports := []\<rparr> \<and>
        (\<forall>j\<in>set (mn_imports (g ! i)). j < i) \<and>
        map (\<lambda>j. mn_type (g ! j)) (mn_imports (g ! i)) = imports_of prog (mn_type (g ! i)))"

text \<open>The visited nodes, before they are ordered.\<close>

definition visited_graph :: "'m program \<Rightarrow> 'm \<Rightarrow> nat \<Rightarrow> 'm module_graph \<Rightarrow> bool" where
  "visited_graph prog root ri nodes \<longleftrightarrow>
     ri < length nodes \<and> mn_type (nodes ! ri) = root \<and> distinct (map mn_type nodes) \<and>
     mn_type ` set nodes \<subseteq> {m. (root, m) \<in> (import_rel prog)\<^sup>*} \<and>
     ranked prog (mn_type ` set nodes) \<and>
     (\<forall>n\<in>set nodes.
        mn_name n = mod_name (prog (mn_type n)) \<and>
        mn_metadata n = (mod_register (prog (mn_type n)))\<lparr>md_imports := []\<rparr> \<and>
        in_range nodes (mn_imports n) \<and>
        map (\<lambda>j. mn_type (nodes ! j)) (mn_imports n) = imports_of prog (mn_type n))"

lemma graph_wf_empty: "graph_wf prog [] Map.empty"
  by (simp add: graph_wf_def visited_def ranked_empty)

lemma names_done_map:
  "names_done g s is ms \<Longrightarrow> map (\<lambda>j. mn_type (g ! j)) is = ms \<and> in_range g is"
  unfolding names_done_def in_range_def
  by (induction rule: list_all2_induct) auto

lemma visit_root:
  assumes "visit_all prog [root] ([], Map.empty, []) = Some (Inr (indices, nodes, s, p))"
  shows "\<exists>ri. indices = [ri] \<and> visited_graph prog root ri nodes"
proof -
  have post: "visit_post prog [root] ([], Map.empty, []) indices (nodes, s, p)"
    by (rule visit_all_post [OF assms]) (simp add: graph_wf_empty)
  then obtain ri where ri: "indices = [ri]" "ri < length nodes" "mn_type (nodes ! ri) = root"
    by (auto simp: visit_post_def names_done_def list_all2_Cons2)
  from post have wf: "graph_wf prog nodes s" and no1: "\<forall>m. s m \<noteq> Some 1"
    and reach: "\<forall>m. s m = Some 2 \<longrightarrow> (root, m) \<in> (import_rel prog)\<^sup>*"
    by (auto simp: visit_post_def)
  from wf no1 have types: "mn_type ` set nodes = {m. s m = Some 2}"
    by (auto simp: graph_wf_def visited_def)
  have "node_ok prog nodes s n \<and> s (mn_type n) = Some 2" if "n \<in> set nodes" for n
    using wf that types by (auto simp: graph_wf_def)
  then have "\<forall>n\<in>set nodes. mn_name n = mod_name (prog (mn_type n)) \<and>
      mn_metadata n = (mod_register (prog (mn_type n)))\<lparr>md_imports := []\<rparr> \<and>
      names_done nodes s (mn_imports n) (imports_of prog (mn_type n))"
    by (simp add: node_ok_def)
  with wf ri reach types show ?thesis
    by (auto simp: visited_graph_def graph_wf_def dest!: names_done_map)
qed

lemma order_visited:
  assumes v: "visited_graph prog root ri nodes"
  shows "\<exists>seen ordered. order_all nodes [ri] ({}, []) = Some (seen, ordered) \<and>
    distinct ordered \<and> set ordered = {..<length nodes} \<and> ordered \<noteq> [] \<and> last ordered = ri \<and>
    children_first nodes ordered"
proof -
  from v obtain r :: "'a \<Rightarrow> nat" where r: "\<forall>m\<in>mn_type ` set nodes.
      \<forall>c\<in>set (imports_of prog m). c \<in> mn_type ` set nodes \<and> r c < r m"
    by (auto simp: visited_graph_def ranked_def)
  have imps: "in_range nodes (mn_imports n)"
      "map (\<lambda>j. mn_type (nodes ! j)) (mn_imports n) = imports_of prog (mn_type n)" if "n \<in> set nodes" for n
    using v that by (auto simp: visited_graph_def)
  have range: "\<forall>n\<in>set nodes. in_range nodes (mn_imports n)" using imps by blast
  have child: "mn_type (nodes ! c) \<in> set (imports_of prog (mn_type (nodes ! i)))"
    if "i < length nodes" "c \<in> set (mn_imports (nodes ! i))" for i c
    using imps(2) [OF nth_mem [OF that(1)], symmetric] that(2) by simp
  have rank: "\<forall>i<length nodes. \<forall>c\<in>set (mn_imports (nodes ! i)).
      r (mn_type (nodes ! c)) < r (mn_type (nodes ! i))"
    using r child nth_mem by blast
  have "order_inv nodes (\<lambda>i. r (mn_type (nodes ! i))) [ri] ({}, [])"
    using v by (simp add: order_inv_def visited_graph_def in_range_def children_first_def)
  from order_all_correct [OF range rank this] obtain seen ordered where
    o: "order_all nodes [ri] ({}, []) = Some (seen, ordered)" and
    ri: "ri \<in> set ordered" and l: "last ordered = ri" and
    inv: "order_inv nodes (\<lambda>i. r (mn_type (nodes ! i))) [] (seen, ordered)"
    by auto
  from inv have cf: "children_first nodes ordered" and d: "distinct ordered" and
    ir: "in_range nodes ordered"
    by (auto simp: order_inv_def)
  have step: "c \<in> set ordered" if "i \<in> set ordered" "c \<in> set (mn_imports (nodes ! i))" for i c
  proof -
    from that(1) obtain k where "k < length ordered" "ordered ! k = i" by (auto simp: in_set_conv_nth)
    with cf that(2) have "c \<in> set (take k ordered)" by (auto simp: children_first_def)
    then show ?thesis by (rule in_set_takeD)
  qed
  have closed: "\<exists>i\<in>set ordered. mn_type (nodes ! i) = m" if "(root, m) \<in> (import_rel prog)\<^sup>*" for m
    using that
  proof (induction rule: rtrancl_induct)
    case base
    from v ri show ?case by (auto simp: visited_graph_def)
  next
    case (step m m')
    then obtain i where i: "i \<in> set ordered" "mn_type (nodes ! i) = m" by blast
    with ir have "nodes ! i \<in> set nodes" by (auto simp: in_range_def)
    with imps(2) i step(2) have "m' \<in> set (map (\<lambda>j. mn_type (nodes ! j)) (mn_imports (nodes ! i)))"
      by (simp add: import_rel_def)
    with \<open>\<And>i c. i \<in> set ordered \<Longrightarrow> c \<in> set (mn_imports (nodes ! i)) \<Longrightarrow> c \<in> set ordered\<close> i
    show ?case by auto
  qed
  have "j \<in> set ordered" if j: "j < length nodes" for j
  proof -
    from v j have "(root, mn_type (nodes ! j)) \<in> (import_rel prog)\<^sup>*"
      using nth_mem [OF j] unfolding visited_graph_def by blast
    from closed [OF this] obtain i where i: "i \<in> set ordered" "mn_type (nodes ! i) = mn_type (nodes ! j)"
      by blast
    with ir j v have "i = j"
      by (auto simp: in_range_def visited_graph_def distinct_conv_nth)
    with i show ?thesis by simp
  qed
  with ir have "set ordered = {..<length nodes}" by (auto simp: in_range_def)
  with o ri l cf d show ?thesis by (cases ordered) auto
qed

lemma renumbered_graph:
  assumes v: "visited_graph prog root ri nodes" and d: "distinct ordered"
    and all: "set ordered = {..<length nodes}" and l: "ordered \<noteq> []" "last ordered = ri"
    and cf: "children_first nodes ordered"
  shows "graph_of prog root (map (\<lambda>i. renumber ordered (nodes ! i)) ordered)" (is "graph_of prog root ?g")
proof -
  have len: "ordered ! k < length nodes" if "k < length ordered" for k
    using that all nth_mem by blast
  have "set nodes = (!) nodes ` {..<length nodes}" by (auto simp: in_set_conv_nth)
  then have types: "mn_type ` set ?g = mn_type ` set nodes"
    by (simp add: all image_image renumber_def)
  have "inj_on (\<lambda>i. mn_type (nodes ! i)) {..<length nodes}"
    using v by (auto simp: visited_graph_def distinct_conv_nth inj_on_def)
  then have dist: "distinct (map mn_type ?g)"
    using d all by (simp add: distinct_map comp_def renumber_def inj_on_def)
  have "ranked prog (mn_type ` set nodes)" "root \<in> mn_type ` set nodes"
    using v by (auto simp: visited_graph_def)
  then have reach: "mn_type ` set nodes = {m. (root, m) \<in> (import_rel prog)\<^sup>*}"
    using v ranked_closed [of prog "mn_type ` set nodes" root] unfolding visited_graph_def by blast
  have node: "mn_name (?g ! i) = mod_name (prog (mn_type (?g ! i))) \<and>
        mn_metadata (?g ! i) = (mod_register (prog (mn_type (?g ! i))))\<lparr>md_imports := []\<rparr> \<and>
        (\<forall>j\<in>set (mn_imports (?g ! i)). j < i) \<and>
        map (\<lambda>j. mn_type (?g ! j)) (mn_imports (?g ! i)) = imports_of prog (mn_type (?g ! i))"
    if i: "i < length ?g" for i
  proof -
    from i have i': "i < length ordered" by simp
    let ?n = "nodes ! (ordered ! i)"
    have n: "?n \<in> set nodes" using len [OF i'] by simp
    have pos: "the (remap_of ordered c) < i \<and> ordered ! the (remap_of ordered c) = c"
      if "c \<in> set (mn_imports ?n)" for c
    proof -
      from cf i' that have "c \<in> set (take i ordered)" by (auto simp: children_first_def)
      then obtain k where "k < i" "c = ordered ! k" by (auto simp: in_set_conv_nth)
      with i' d show ?thesis by (simp add: remap_of_nth)
    qed
    have "mn_type (?g ! the (remap_of ordered c)) = mn_type (nodes ! c)" if "c \<in> set (mn_imports ?n)" for c
    proof -
      from pos [OF that] i' have "the (remap_of ordered c) < length ordered" by simp
      with pos [OF that] show ?thesis by (simp add: renumber_def)
    qed
    then have "map (\<lambda>j. mn_type (?g ! j)) (mn_imports (?g ! i)) =
        map (\<lambda>c. mn_type (nodes ! c)) (mn_imports ?n)"
      using i' by (simp add: renumber_def)
    with v n pos i' show ?thesis by (auto simp: visited_graph_def renumber_def)
  qed
  have "mn_type (last ?g) = root" "?g \<noteq> []"
    using v l by (auto simp: last_map renumber_def visited_graph_def)
  with types reach dist node show ?thesis unfolding graph_of_def by auto
qed

lemma discover_cases:
  "(\<exists>e. visit_all prog [root] ([], Map.empty, []) = Some (Inl e) \<and> discover_from prog root = Some (Inl e)) \<or>
   (\<exists>g. discover_from prog root = Some (Inr g) \<and> graph_of prog root g)"
proof (cases "\<exists>e. visit_all prog [root] ([], Map.empty, []) = Some (Inl e)")
  case True
  then show ?thesis by (auto simp: discover_from_def)
next
  case False
  have "visit_all prog [root] ([], Map.empty, []) \<noteq> None"
    by (rule visit_all_no_panic) (simp add: graph_wf_empty)
  with False obtain indices nodes s p where
    v: "visit_all prog [root] ([], Map.empty, []) = Some (Inr (indices, nodes, s, p))"
    by (metis not_None_eq sum.exhaust surj_pair)
  from visit_root [OF v] obtain ri where ri: "indices = [ri]" and vg: "visited_graph prog root ri nodes"
    by blast
  from order_visited [OF vg] obtain seen ordered where
    o: "order_all nodes [ri] ({}, []) = Some (seen, ordered)" "distinct ordered"
      "set ordered = {..<length nodes}" "ordered \<noteq> []" "last ordered = ri" "children_first nodes ordered"
    by blast
  have "take_nodes (map Some nodes) (remap_of ordered) ordered =
      Some (map (\<lambda>i. renumber ordered (nodes ! i)) ordered)"
  proof (rule take_nodes_correct [OF o(2)])
    show "\<forall>i\<in>set ordered. i < length (map Some nodes) \<and> map Some nodes ! i = Some (nodes ! i)"
      using o(3) by simp
    show "\<forall>i\<in>set ordered. \<forall>c\<in>set (mn_imports (nodes ! i)). remap_of ordered c \<noteq> None"
    proof (intro ballI)
      fix i c assume i: "i \<in> set ordered" and c: "c \<in> set (mn_imports (nodes ! i))"
      from i o(3) have "nodes ! i \<in> set nodes" by simp
      with vg c have "c < length nodes" by (auto simp: visited_graph_def in_range_def)
      with o(3) remap_of_total [OF o(2), of c] show "remap_of ordered c \<noteq> None" by auto
    qed
  qed
  moreover have "remap_of ordered ri \<noteq> None"
    using remap_of_total [OF o(2), of ri] o(4,5) last_in_set [of ordered] by auto
  ultimately have "discover_from prog root = Some (Inr (map (\<lambda>i. renumber ordered (nodes ! i)) ordered))"
    using v ri o(1) by (simp add: discover_from_def Let_def)
  with renumbered_graph [OF vg o(2-6)] show ?thesis by blast
qed

text \<open>Discovery always returns, without panicking.\<close>

theorem discover_no_panic: "discover_from prog root \<noteq> None"
  using discover_cases [of prog root] by auto

lemma graph_of_node:
  assumes "graph_of prog root g" "i < length g"
  shows "mn_name (g ! i) = mod_name (prog (mn_type (g ! i)))"
    "mn_metadata (g ! i) = (mod_register (prog (mn_type (g ! i))))\<lparr>md_imports := []\<rparr>"
    "\<forall>j\<in>set (mn_imports (g ! i)). j < i"
    "map (\<lambda>j. mn_type (g ! j)) (mn_imports (g ! i)) = imports_of prog (mn_type (g ! i))"
  using assms unfolding graph_of_def by blast+

lemma graph_of_ranked:
  assumes g: "graph_of prog root g"
  shows "ranked prog (mn_type ` set g)"
proof -
  have ex: "\<exists>i<length g. mn_type (g ! i) = m" if "m \<in> mn_type ` set g" for m
    using that by (auto simp: in_set_conv_nth)
  define r where "r m = (LEAST i. i < length g \<and> mn_type (g ! i) = m)" for m
  have r: "r (mn_type (g ! i)) = i" if "i < length g" for i
    unfolding r_def
  proof (rule Least_equality)
    fix y assume "y < length g \<and> mn_type (g ! y) = mn_type (g ! i)"
    with that g show "i \<le> y" by (auto simp: graph_of_def distinct_conv_nth)
  qed (use that in simp)
  have "c \<in> mn_type ` set g \<and> r c < r (mn_type (g ! i))"
    if i: "i < length g" and c: "c \<in> set (imports_of prog (mn_type (g ! i)))" for i c
  proof -
    from c obtain j where j: "j < i" "mn_type (g ! j) = c"
      using graph_of_node(3) [OF g i]
      unfolding graph_of_node(4) [OF g i, symmetric] by auto
    with i have "j < length g" by simp
    with j have "c \<in> mn_type ` set g" by (metis image_eqI nth_mem)
    with j r [OF \<open>j < length g\<close>] r [OF i] show ?thesis by simp
  qed
  then have "\<forall>m\<in>mn_type ` set g. \<forall>c\<in>set (imports_of prog m). c \<in> mn_type ` set g \<and> r c < r m"
    using ex by metis
  then show ?thesis unfolding ranked_def by blast
qed

text \<open>C33: a graph that discovery returns contains exactly the modules reachable from the root by
  imports, each once, the root last, and every import index is below the index of its importing
  module and names, in order, the modules it imports; so no reachable module imports itself,
  directly or through others.\<close>

theorem discover_sound:
  assumes "discover_from prog root = Some (Inr g)"
  shows "graph_of prog root g \<and>
    (\<forall>m. (root, m) \<in> (import_rel prog)\<^sup>* \<longrightarrow> (m, m) \<notin> (import_rel prog)\<^sup>+)"
proof -
  from assms discover_cases [of prog root] have g: "graph_of prog root g" by auto
  with ranked_acyclic [OF graph_of_ranked [OF g]] show ?thesis by (auto simp: graph_of_def)
qed

section \<open>Why discovery fails\<close>

definition failure_cause :: "'m program \<Rightarrow> 'm set \<Rightarrow> http_exception \<Rightarrow> bool" where
  "failure_cause prog M e \<longleftrightarrow>
     (\<exists>m\<in>M. \<exists>c\<in>set (md_controllers (mod_register (prog m))). cd_validate_routes c = Inl e) \<or>
     (\<exists>m\<in>M. (m, m) \<in> (import_rel prog)\<^sup>+ \<and>
        (\<exists>names. e = startup_error (''circular module import: '' @ join '' -> '' names)))"

lemma failure_cause_mono: "failure_cause prog M e \<Longrightarrow> M \<subseteq> N \<Longrightarrow> failure_cause prog N e"
  unfolding failure_cause_def by blast

lemma validate_all_Inl: "validate_all cs = Inl e \<Longrightarrow> \<exists>c\<in>set cs. cd_validate_routes c = Inl e"
  by (induction cs) (auto split: sum.splits)

abbreviation reach_from :: "'m program \<Rightarrow> 'm list \<Rightarrow> 'm set" where
  "reach_from prog ms \<equiv> (import_rel prog)\<^sup>* `` set ms"

lemma reach_from_imports: "reach_from prog (imports_of prog m) \<subseteq> reach_from prog (m # ms)"
  by (auto simp: import_rel_def intro: converse_rtrancl_into_rtrancl)

lemma visit_all_error:
  "visit_all prog ms st = Some (Inl e) \<Longrightarrow> graph_wf prog (fst st) (fst (snd st)) \<Longrightarrow>
   \<forall>m\<in>set ms. \<forall>g. fst (snd st) g = Some 1 \<longrightarrow> (g, m) \<in> (import_rel prog)\<^sup>+ \<Longrightarrow>
   failure_cause prog (reach_from prog ms) e"
proof (induction prog ms st rule: visit_all.induct)
  case (1 prog st)
  then show ?case by simp
next
  case (2 prog m ms g s p)
  from "2.prems" have wf: "graph_wf prog g s"
    and gray: "\<forall>k\<in>set (m # ms). \<forall>g. s g = Some 1 \<longrightarrow> (g, k) \<in> (import_rel prog)\<^sup>+" by simp_all
  have rest: "reach_from prog ms \<subseteq> reach_from prog (m # ms)" by auto
  have self: "m \<in> reach_from prog (m # ms)" by auto
  show ?case
  proof (cases "s m = Some 2")
    case True
    with "2.prems" obtain i where
      i: "position (\<lambda>n. mn_type n = m) g = Some i" "visit_all prog ms (g, s, p) = Some (Inl e)"
      by (auto split: option.splits sum.splits)
    from "2.IH"(1) [OF True i] wf gray have "failure_cause prog (reach_from prog ms) e" by simp
    with rest show ?thesis by (rule failure_cause_mono [rotated])
  next
    case not2: False
    show ?thesis
    proof (cases "s m = Some 1")
      case True
      with gray have "(m, m) \<in> (import_rel prog)\<^sup>+" by simp
      moreover from "2.prems"(1) True not2 have
        "e = startup_error (''circular module import: '' @ join '' -> '' (p @ [mod_name (prog m)]))"
        by simp
      ultimately show ?thesis using self unfolding failure_cause_def by blast
    next
      case not1: False
      then have m: "m \<notin> visited s" using not2 by (simp add: visited_def)
      show ?thesis
      proof (cases "validate_all (md_controllers (mod_register (prog m)))")
        case (Inl e')
        with "2.prems"(1) not1 not2 have "e' = e" by simp
        with validate_all_Inl [OF Inl] self show ?thesis unfolding failure_cause_def by blast
      next
        case (Inr u)
        then have v: "validate_all (md_controllers (mod_register (prog m))) = Inr ()" by simp
        let ?st = "(g @ [node_for prog m], s(m \<mapsto> 1), p @ [mod_name (prog m)])"
        let ?a = "visit_all prog (md_imports (mod_register (prog m))) ?st"
        have wfo: "graph_wf prog (fst ?st) (fst (snd ?st))" using graph_wf_open [OF wf m] by simp
        show ?thesis
        proof (cases "?a = Some (Inl e)")
          case True
          have step: "(k, c) \<in> (import_rel prog)\<^sup>+"
            if "c \<in> set (imports_of prog m)" "(s(m \<mapsto> 1)) k = Some 1" for k c
            using that gray by (cases "k = m") (auto simp: import_rel_def intro: trancl_into_trancl)
          have "failure_cause prog (reach_from prog (imports_of prog m)) e"
            using "2.IH"(2) [OF not2 not1 refl v refl True wfo] step by (simp add: imports_of_def)
          then show ?thesis by (rule failure_cause_mono) (rule reach_from_imports)
        next
          case False
          with "2.prems"(1) not1 not2 v obtain children g1 s1 p1 where
            a: "?a = Some (Inr (children, g1, s1, p1))" and
            b: "visit_all prog ms (g1[length g := (g1 ! length g)\<lparr>mn_imports := children\<rparr>],
                  s1(m \<mapsto> 2), butlast p1) = Some (Inl e)"
            by (auto simp: Let_def split: option.splits sum.splits)
          from visit_all_post [OF a wfo] have
            A: "visit_post prog (imports_of prog m) ?st children (g1, s1, p1)"
            by (simp add: imports_of_def)
          then obtain ext where g1: "g1 = (g @ [node_for prog m]) @ ext" by (auto simp: visit_post_def)
          from A have "graph_wf prog (g1[length g := (g1 ! length g)\<lparr>mn_imports := children\<rparr>]) (s1(m \<mapsto> 2))"
            by (intro graph_wf_close) (auto simp: visit_post_def g1 nth_append)
          moreover have "\<forall>k\<in>set ms. \<forall>g. (s1(m \<mapsto> 2)) g = Some 1 \<longrightarrow> (g, k) \<in> (import_rel prog)\<^sup>+"
            using A gray by (auto simp: visit_post_def)
          ultimately have "failure_cause prog (reach_from prog ms) e"
            using "2.IH"(3) [OF not2 not1 refl v refl a refl refl refl refl b] by (auto simp: fun_upd_def)
          with rest show ?thesis by (rule failure_cause_mono [rotated])
        qed
      qed
    qed
  qed
qed

text \<open>An error of discovery has a cause: a reachable module has a controller whose route
  validation fails with that error, or a reachable module imports itself, directly or through
  others, and the error names a circular import.\<close>

theorem discover_error_has_cause:
  assumes "discover_from prog root = Some (Inl e)"
  shows "failure_cause prog {m. (root, m) \<in> (import_rel prog)\<^sup>*} e"
proof -
  from assms discover_cases [of prog root]
  have "visit_all prog [root] ([], Map.empty, []) = Some (Inl e)" by auto
  from visit_all_error [OF this] graph_wf_empty [of prog]
  show ?thesis by (simp add: Image_singleton)
qed

section \<open>Two small programs\<close>

text \<open>The root imports the users and the database module, and users imports the database.\<close>

datatype demo = App | Users | Db

instantiation demo :: finite
begin

instance
proof
  have u: "(UNIV :: demo set) = {App, Users, Db}" by (auto intro: demo.exhaust)
  show "finite (UNIV :: demo set)" unfolding u by simp
qed

end

definition module_named :: "str \<Rightarrow> 'm list \<Rightarrow> 'm module_decl" where
  "module_named name imports =
     \<lparr>mod_name = name, mod_register = fold md_import imports ModuleMetadata_new\<rparr>"

fun demo_program :: "demo program" where
  "demo_program App = module_named ''App'' [Users, Db]"
| "demo_program Users = module_named ''Users'' [Db]"
| "demo_program Db = module_named ''Db'' []"

fun cyclic_program :: "demo program" where
  "cyclic_program App = module_named ''App'' [Users]"
| "cyclic_program Users = module_named ''Users'' [Db]"
| "cyclic_program Db = module_named ''Db'' [Users]"

lemmas discover_eval = discover_from_def module_named_def md_import_def ModuleMetadata_new_def
  remap_of_def Let_def

definition demo_node :: "str \<Rightarrow> demo \<Rightarrow> nat list \<Rightarrow> demo module_node" where
  "demo_node name m imports =
     \<lparr>mn_type = m, mn_name = name, mn_metadata = ModuleMetadata_new, mn_imports = imports\<rparr>"

lemma demo_discovered:
  "discover_from demo_program App =
     Some (Inr [demo_node ''Db'' Db [], demo_node ''Users'' Users [0], demo_node ''App'' App [1, 0]])"
  by (simp add: discover_eval demo_node_def)

lemma cyclic_discovered:
  "discover_from cyclic_program App =
     Some (Inl (startup_error ''circular module import: App -> Users -> Db -> Users''))"
  by (simp add: discover_eval)

theorem discover_sound_witness:
  "graph_of demo_program App
     [demo_node ''Db'' Db [], demo_node ''Users'' Users [0], demo_node ''App'' App [1, 0]]"
  using discover_sound [OF demo_discovered] by simp

theorem discover_error_has_cause_witness:
  "failure_cause cyclic_program {m. (App, m) \<in> (import_rel cyclic_program)\<^sup>*}
     (startup_error ''circular module import: App -> Users -> Db -> Users'')"
  by (rule discover_error_has_cause [OF cyclic_discovered])

end
