(* ===== verification/Preflight.thy ===== *)
theory Preflight
  imports Discovery
begin

text \<open>
  Validation of a module graph and the construction order of its providers:
  \<open>ModuleGraph::preflight\<close> and its helpers in \<open>crates/caelix-core/src/module.rs\<close>. The function
  is modelled as the sequence of its checks, each of which stops at the first error. A hash map
  is an association list in insertion order; the source iterates its pattern maps in an
  unspecified order, which can only change which of several overlaps an error names.
\<close>

section \<open>Registrations\<close>

datatype provider_slot =
    SlotProvider nat
  | SlotController nat
  | SlotGateway nat
  | SlotMicroservice nat

record registration =
  rg_module :: nat
  rg_slot :: provider_slot

fun node_registrations :: "nat \<times> 'm module_node \<Rightarrow> registration list" where
  "node_registrations (m, node) =
     map (\<lambda>slot. \<lparr>rg_module = m, rg_slot = SlotProvider slot\<rparr>) [0..<length (md_providers (mn_metadata node))] @
     map (\<lambda>slot. \<lparr>rg_module = m, rg_slot = SlotController slot\<rparr>) [0..<length (md_controllers (mn_metadata node))] @
     map (\<lambda>slot. \<lparr>rg_module = m, rg_slot = SlotGateway slot\<rparr>) [0..<length (md_gateways (mn_metadata node))] @
     map (\<lambda>slot. \<lparr>rg_module = m, rg_slot = SlotMicroservice slot\<rparr>) [0..<length (md_microservices (mn_metadata node))]"

definition definitions :: "'m module_graph \<Rightarrow> registration list" where
  "definitions g = concat (map node_registrations (enumerate 0 g))"

definition def_of :: "'m module_graph \<Rightarrow> registration \<Rightarrow> provider_def" where
  "def_of g r =
     (let md = mn_metadata (g ! rg_module r) in
      case rg_slot r of
        SlotProvider i \<Rightarrow> md_providers md ! i
      | SlotController i \<Rightarrow> cd_provider (md_controllers md ! i)
      | SlotGateway i \<Rightarrow> gd_provider (md_gateways md ! i)
      | SlotMicroservice i \<Rightarrow> ms_provider (md_microservices md ! i))"

abbreviation type_of :: "'m module_graph \<Rightarrow> registration \<Rightarrow> type_id" where
  "type_of g r \<equiv> pd_type (def_of g r)"

definition local_types :: "'m module_graph \<Rightarrow> nat \<Rightarrow> type_id set" where
  "local_types g m = set (map (type_of g) (filter (\<lambda>r. rg_module r = m) (definitions g)))"

section \<open>Provider checks\<close>

type_synonym by_type = "(type_id \<times> registration) list"

definition overridden_in :: "container option \<Rightarrow> type_id \<Rightarrow> bool" where
  "overridden_in co ty =
     (case co of None \<Rightarrow> False | Some c \<Rightarrow> has_pending_override c ty \<or> was_overridden c ty)"

fun check_duplicates ::
    "'m module_graph \<Rightarrow> container option \<Rightarrow> registration list \<Rightarrow> by_type \<Rightarrow> by_type result" where
  "check_duplicates g co [] bt = Inr bt"
| "check_duplicates g co (r # rs) bt =
     (let pd = def_of g r; bt' = AList.update (pd_type pd) r bt in
      case map_of bt (pd_type pd) of
        None \<Rightarrow> check_duplicates g co rs bt'
      | Some existing \<Rightarrow>
          if overridden_in co (pd_type pd) then check_duplicates g co rs bt'
          else Inl (startup_error (''duplicate provider registration for '' @ pd_name pd @
                 '' in '' @ mn_name (g ! rg_module existing) @
                 '' and '' @ mn_name (g ! rg_module r))))"

text \<open>The exports of the module at \<open>index\<close>, added to its entry of the vector one by one.\<close>

fun add_exports ::
    "'m module_graph \<Rightarrow> type_id set list \<Rightarrow> nat \<Rightarrow> provider_dependency list \<Rightarrow> type_id set list \<Rightarrow>
     type_id set list result" where
  "add_exports g locals index [] exports = Inr exports"
| "add_exports g locals index (e # es) exports =
     (let imported = list_ex (\<lambda>child. dep_type e \<in> exports ! child) (mn_imports (g ! index)) in
      if dep_type e \<notin> locals ! index \<and> \<not> imported
      then Inl (startup_error (''module '' @ mn_name (g ! index) @ '' cannot export '' @ dep_name e @
             '': it is neither declared locally nor exported by a direct import''))
      else add_exports g locals index es
             (exports[index := insert (dep_type e) (exports ! index)]))"

fun collect_exports ::
    "'m module_graph \<Rightarrow> type_id set list \<Rightarrow> nat list \<Rightarrow> type_id set list \<Rightarrow> type_id set list result" where
  "collect_exports g locals [] exports = Inr exports"
| "collect_exports g locals (index # rest) exports =
     bind_result (add_exports g locals index (md_exports (mn_metadata (g ! index))) exports)
       (collect_exports g locals rest)"

definition global_exports :: "'m module_graph \<Rightarrow> type_id set list \<Rightarrow> type_id set" where
  "global_exports g exports =
     \<Union> (set (map (\<lambda>(index, _). exports ! index)
       (filter (\<lambda>(_, node). md_global (mn_metadata node)) (enumerate 0 g))))"

definition visible ::
    "'m module_graph \<Rightarrow> type_id set list \<Rightarrow> type_id set list \<Rightarrow> type_id set \<Rightarrow> nat \<Rightarrow> type_id \<Rightarrow> bool" where
  "visible g locals exports globals m ty \<longleftrightarrow>
     ty \<in> locals ! m \<or> ty \<in> globals \<or>
     list_ex (\<lambda>child. ty \<in> exports ! child) (mn_imports (g ! m))"

definition effective :: "container option \<Rightarrow> provider_def \<Rightarrow> provider_def" where
  "effective co production =
     (case co of
        None \<Rightarrow> production
      | Some c \<Rightarrow> (case pending_override c (pd_type production) of None \<Rightarrow> production | Some o' \<Rightarrow> o'))"

definition container_has :: "container option \<Rightarrow> type_id \<Rightarrow> bool" where
  "container_has co ty = (case co of None \<Rightarrow> False | Some c \<Rightarrow> contains_type_id c ty)"

fun check_deps ::
    "'m module_graph \<Rightarrow> container option \<Rightarrow> by_type \<Rightarrow> (nat \<Rightarrow> type_id \<Rightarrow> bool) \<Rightarrow> registration \<Rightarrow>
     provider_dependency list \<Rightarrow> unit result" where
  "check_deps g co bt vis r [] = Inr ()"
| "check_deps g co bt vis r (d # ds) =
     (if dep_type d = logger_type then check_deps g co bt vis r ds
      else if map_of bt (dep_type d) \<noteq> None then
        (if \<not> vis (rg_module r) (dep_type d)
         then Inl (startup_error (pd_name (effective co (def_of g r)) @ '' depends on '' @ dep_name d @
                '' but it is not visible in module '' @ mn_name (g ! rg_module r) @
                ''; import and export its module''))
         else check_deps g co bt vis r ds)
      else if \<not> container_has co (dep_type d)
        then Inl (startup_error (''missing provider at startup: '' @ pd_name (effective co (def_of g r)) @
               '' depends on '' @ dep_name d @ '' but no provider is registered''))
      else check_deps g co bt vis r ds)"

fun check_dependencies ::
    "'m module_graph \<Rightarrow> container option \<Rightarrow> by_type \<Rightarrow> (nat \<Rightarrow> type_id \<Rightarrow> bool) \<Rightarrow> registration list \<Rightarrow>
     unit result" where
  "check_dependencies g co bt vis [] = Inr ()"
| "check_dependencies g co bt vis (r # rs) =
     bind_result (check_deps g co bt vis r (pd_deps (effective co (def_of g r))))
       (\<lambda>_. check_dependencies g co bt vis rs)"

definition assert_registered_or_declared :: "event_handler_def \<Rightarrow> type_id set \<Rightarrow> unit result" where
  "assert_registered_or_declared eh declared =
     (if eh_type eh \<in> declared then Inr ()
      else Inl (startup_error (''missing event handler provider at startup: '' @ eh_name eh @
             '' was declared by module metadata but was not registered as a provider'')))"

fun check_node_event_handlers ::
    "type_id set list \<Rightarrow> (nat \<Rightarrow> type_id \<Rightarrow> bool) \<Rightarrow> nat \<Rightarrow> str \<Rightarrow> event_handler_def list \<Rightarrow> unit result" where
  "check_node_event_handlers locals vis m name [] = Inr ()"
| "check_node_event_handlers locals vis m name (eh # ehs) =
     bind_result (assert_registered_or_declared eh (locals ! m)) (\<lambda>_.
       if \<not> vis m event_bus_type
       then Inl (startup_error (''no provider registered for EventBus in module '' @ name @
              ''; import EventModule''))
       else check_node_event_handlers locals vis m name ehs)"

fun check_event_handlers ::
    "type_id set list \<Rightarrow> (nat \<Rightarrow> type_id \<Rightarrow> bool) \<Rightarrow> (nat \<times> 'm module_node) list \<Rightarrow> unit result" where
  "check_event_handlers locals vis [] = Inr ()"
| "check_event_handlers locals vis ((m, node) # rest) =
     bind_result (check_node_event_handlers locals vis m (mn_name node)
         (md_event_handlers (mn_metadata node)))
       (\<lambda>_. check_event_handlers locals vis rest)"

section \<open>Subject checks\<close>

type_synonym patterns = "(str \<times> nat) list"

definition kind_name :: "handler_kind \<Rightarrow> str" where
  "kind_name k = (case k of Command \<Rightarrow> ''Command'' | Event \<Rightarrow> ''Event'')"

fun check_handlers ::
    "'m module_graph \<Rightarrow> nat \<Rightarrow> message_handler list \<Rightarrow> patterns \<times> patterns \<Rightarrow> (patterns \<times> patterns) result" where
  "check_handlers g m [] st = Inr st"
| "check_handlers g m (h # hs) (commands, events) =
     (if \<not> valid_microservice_pattern (mh_pattern h) (mh_kind h = Command)
      then Inl (startup_error (''invalid microservice subject `'' @ mh_pattern h @ ''` in module '' @
             mn_name (g ! m)))
      else
        (let (other, existing) =
           (if mh_kind h = Command then (events, map_of commands (mh_pattern h))
            else (commands, map_of events (mh_pattern h))) in
         case map_of other (mh_pattern h) of
           Some other_module \<Rightarrow>
             Inl (startup_error (''command and event handlers cannot share subject `'' @ mh_pattern h @
               ''` in '' @ mn_name (g ! other_module) @ '' and '' @ mn_name (g ! m)))
         | None \<Rightarrow>
             (case existing of
                Some existing_module \<Rightarrow>
                  Inl (startup_error (''duplicate '' @ kind_name (mh_kind h) @ '' handler subject `'' @
                    mh_pattern h @ ''` in '' @ mn_name (g ! existing_module) @ '' and '' @
                    mn_name (g ! m)))
              | None \<Rightarrow>
                  check_handlers g m hs
                    (if mh_kind h = Command
                     then (AList.update (mh_pattern h) m commands, events)
                     else (commands, AList.update (mh_pattern h) m events)))))"

definition node_handlers :: "'m module_node \<Rightarrow> message_handler list" where
  "node_handlers node = concat (map ms_handlers (md_microservices (mn_metadata node)))"

fun check_patterns ::
    "'m module_graph \<Rightarrow> (nat \<times> 'm module_node) list \<Rightarrow> patterns \<times> patterns \<Rightarrow> (patterns \<times> patterns) result" where
  "check_patterns g [] st = Inr st"
| "check_patterns g ((m, node) # rest) st =
     bind_result (check_handlers g m (node_handlers node) st) (check_patterns g rest)"

fun check_command_events :: "str \<Rightarrow> str list \<Rightarrow> unit result" where
  "check_command_events command [] = Inr ()"
| "check_command_events command (event # rest) =
     (if microservice_patterns_intersect command event
      then Inl (startup_error (''command subject `'' @ command @ ''` overlaps event subject `'' @ event @
             ''`; command and event transports must be disjoint''))
      else check_command_events command rest)"

fun check_commands :: "str list \<Rightarrow> str list \<Rightarrow> unit result" where
  "check_commands [] events = Inr ()"
| "check_commands (command # rest) events =
     bind_result (check_command_events command events) (\<lambda>_. check_commands rest events)"

fun check_event_pair :: "str \<Rightarrow> str list \<Rightarrow> unit result" where
  "check_event_pair first [] = Inr ()"
| "check_event_pair first (second # rest) =
     (if microservice_patterns_intersect first second
      then Inl (startup_error (''event subjects `'' @ first @ ''` and `'' @ second @
             ''` overlap; each event delivery must have one owner''))
      else check_event_pair first rest)"

fun check_event_pairs :: "str list \<Rightarrow> unit result" where
  "check_event_pairs [] = Inr ()"
| "check_event_pairs (first # rest) =
     bind_result (check_event_pair first rest) (\<lambda>_. check_event_pairs rest)"

section \<open>Construction order\<close>

type_synonym schedule_state = "(type_id \<Rightarrow> nat option) \<times> str list \<times> registration list"

text \<open>
  Schedules registrations one after the other: the loop over all definitions, and, for the
  dependencies of one of them, the recursive loop of \<open>schedule\<close>.
\<close>

function schedule_all ::
    "'m module_graph \<Rightarrow> by_type \<Rightarrow> container option \<Rightarrow> registration list \<Rightarrow> schedule_state \<Rightarrow>
     schedule_state result" where
  "schedule_all g bt co [] st = Inr st"
| "schedule_all g bt co (r # rs) (states, stack, done_regs) =
     (let pd = def_of g r in
      if states (pd_type pd) = Some 2 then schedule_all g bt co rs (states, stack, done_regs)
      else if states (pd_type pd) = Some 1 then
        Inl (startup_error (''provider dependency cycle: '' @ join '' -> '' (stack @ [pd_name pd])))
      else
        (case schedule_all g bt co
                (List.map_filter (\<lambda>d. map_of bt (dep_type d)) (pd_deps (effective co pd)))
                (states(pd_type pd \<mapsto> 1), stack @ [pd_name pd], done_regs) of
           Inl e \<Rightarrow> Inl e
         | Inr (states', stack', done_regs') \<Rightarrow>
             schedule_all g bt co rs (states'(pd_type pd \<mapsto> 2), butlast stack', done_regs' @ [r])))"
  by pat_completeness auto

lemma schedule_all_visited_mono:
  "schedule_all_dom (g, bt, co, rs, st) \<Longrightarrow> schedule_all g bt co rs st = Inr st' \<Longrightarrow>
   visited (fst st) \<subseteq> visited (fst st')"
proof (induction g bt co rs st arbitrary: st' rule: schedule_all.pinduct)
  case (1 g bt co st)
  then show ?case by (simp add: schedule_all.psimps)
next
  case (2 g bt co r rs states stack done_regs)
  show ?case
  proof (cases "states (type_of g r) = Some 2")
    case True
    with 2 show ?thesis by (simp add: schedule_all.psimps Let_def)
  next
    case not2: False
    show ?thesis
    proof (cases "states (type_of g r) = Some 1")
      case True
      with "2.hyps" "2.prems" not2 show ?thesis by (simp add: schedule_all.psimps Let_def)
    next
      case not1: False
      from "2.prems" "2.hyps" not1 not2 obtain states1 stack1 done_regs1 where
        a: "schedule_all g bt co
              (List.map_filter (\<lambda>d. map_of bt (dep_type d)) (pd_deps (effective co (def_of g r))))
              (states(type_of g r \<mapsto> 1), stack @ [pd_name (def_of g r)], done_regs) =
            Inr (states1, stack1, done_regs1)" and
        b: "schedule_all g bt co rs (states1(type_of g r \<mapsto> 2), butlast stack1, done_regs1 @ [r]) = Inr st'"
        by (auto simp: schedule_all.psimps Let_def split: sum.splits)
      from "2.IH"(2) [OF refl not2 not1 a] have "insert (type_of g r) (visited states) \<subseteq> visited states1"
        by simp
      moreover from "2.IH"(3) [OF refl not2 not1 a refl refl b]
      have "insert (type_of g r) (visited states1) \<subseteq> visited (fst st')" by simp
      ultimately show ?thesis by auto
    qed
  qed
qed

text \<open>The types that scheduling can still reach.\<close>

definition universe :: "'m module_graph \<Rightarrow> by_type \<Rightarrow> registration list \<Rightarrow> type_id set" where
  "universe g bt rs = type_of g ` (set rs \<union> snd ` set bt)"

lemma finite_universe [simp]: "finite (universe g bt rs)"
  by (simp add: universe_def)

lemma universe_Cons: "universe g bt rs \<subseteq> universe g bt (r # rs)"
  by (auto simp: universe_def)

lemma universe_deps: "universe g bt (List.map_filter (\<lambda>d. map_of bt (f d)) ds) \<subseteq> universe g bt rs"
  by (force simp: universe_def map_filter_def dest: map_of_SomeD)

termination schedule_all
proof (relation "inv_image (finite_psubset <*lex*> less_than)
    (\<lambda>(g, bt, co, rs, states, stack, done_regs). (universe g bt rs - visited states, length rs))", goal_cases)
  case 1
  show ?case by (intro wf_inv_image wf_lex_prod wf_finite_psubset wf_less_than)
next
  case (2 g bt co r rs states stack done_regs pd)
  then show ?case using universe_Cons [of g bt rs r] by (auto simp: finite_psubset_def)
next
  case (3 g bt co r rs states stack done_regs pd)
  then have "type_of g r \<notin> visited states" "type_of g r \<in> universe g bt (r # rs)"
    by (simp_all add: visited_def universe_def)
  with universe_deps [of g bt dep_type "pd_deps (effective co pd)" "r # rs"] show ?case
    by (auto simp: finite_psubset_def 3(1))
next
  case (4 g bt co r rs states stack done_regs pd p states1 q stack1 done_regs1)
  then have "insert (type_of g r) (visited states) \<subseteq> visited states1"
    using schedule_all_visited_mono by fastforce
  moreover from 4 have "type_of g r \<notin> visited states" "type_of g r \<in> universe g bt (r # rs)"
    by (simp_all add: visited_def universe_def)
  ultimately show ?case using universe_Cons [of g bt rs r] by (auto simp: finite_psubset_def 4(1))
qed

section \<open>Preflight\<close>

definition preflight :: "'m module_graph \<Rightarrow> container option \<Rightarrow> registration list result" where
  "preflight g co =
     bind_result (check_duplicates g co (definitions g) []) (\<lambda>bt.
     let locals = map (local_types g) [0..<length g] in
     bind_result (collect_exports g locals [0..<length g] (replicate (length g) {})) (\<lambda>exports.
     let globals = global_exports g exports; vis = visible g locals exports globals in
     bind_result (check_dependencies g co bt vis (definitions g)) (\<lambda>_.
     bind_result (check_event_handlers locals vis (enumerate 0 g)) (\<lambda>_.
     bind_result (check_patterns g (enumerate 0 g) ([], [])) (\<lambda>(commands, events).
     bind_result (check_commands (map fst commands) (map fst events)) (\<lambda>_.
     bind_result (check_event_pairs (map fst events)) (\<lambda>_.
     bind_result (schedule_all g bt co (definitions g) (Map.empty, [], [])) (\<lambda>(_, _, done_regs).
       Inr done_regs))))))))"

definition def_by_type :: "'m module_graph \<Rightarrow> type_id \<Rightarrow> provider_def option" where
  "def_by_type g ty =
     map_option (def_of g) (find (\<lambda>r. type_of g r = ty) (definitions g))"

definition is_websocket :: "gateway_def \<Rightarrow> bool" where
  "is_websocket gw \<longleftrightarrow> (case gd_kind gw of WebSocketGateway \<Rightarrow> True | SocketIoGateway \<Rightarrow> False)"

definition gateway_key :: "gateway_def \<Rightarrow> str \<times> bool" where
  "gateway_key gw = (gd_path gw, is_websocket gw)"

fun check_gateway_paths :: "gateway_def list \<Rightarrow> (str \<times> bool) set \<Rightarrow> (str \<times> bool) set result" where
  "check_gateway_paths [] paths = Inr paths"
| "check_gateway_paths (gw # gws) paths =
     (if \<not> prefix ''/'' (gd_path gw)
      then Inl (startup_error (''websocket gateway path must start with '' @ [CHR 0x27] @ ''/'' @
             [CHR 0x27] @ '': '' @ gd_path gw))
      else if gateway_key gw \<in> paths
        then Inl (startup_error (''duplicate gateway path: '' @ gd_path gw))
      else check_gateway_paths gws (insert (gateway_key gw) paths))"

definition graph_gateways :: "'m module_graph \<Rightarrow> gateway_def list" where
  "graph_gateways g = concat (map (\<lambda>node. md_gateways (mn_metadata node)) g)"

definition validate_gateway_paths_in_graph :: "'m module_graph \<Rightarrow> unit result" where
  "validate_gateway_paths_in_graph g =
     bind_result (check_gateway_paths (graph_gateways g) {}) (\<lambda>_. Inr ())"

section \<open>Registrations and definitions\<close>

definition declared_defs :: "'m module_metadata \<Rightarrow> provider_def list" where
  "declared_defs md =
     md_providers md @ map cd_provider (md_controllers md) @ map gd_provider (md_gateways md) @
     map ms_provider (md_microservices md)"

lemma enumerate_upt: "enumerate 0 xs = map (\<lambda>i. (i, xs ! i)) [0..<length xs]"
  by (rule nth_equalityI) (simp_all add: nth_enumerate_eq)

lemma definitions_upt: "definitions g = concat (map (\<lambda>m. node_registrations (m, g ! m)) [0..<length g])"
  by (simp add: definitions_def enumerate_upt comp_def)

lemma node_registrations_module: "r \<in> set (node_registrations (m, n)) \<Longrightarrow> rg_module r = m"
  by auto

lemma def_of_node: "map (def_of g) (node_registrations (m, g ! m)) = declared_defs (mn_metadata (g ! m))"
proof -
  have n: "map (\<lambda>i. f (xs ! i)) [0..<length xs] = map f xs" for f :: "'b \<Rightarrow> provider_def" and xs
    by (metis (no_types, lifting) map_nth map_map comp_def map_eq_conv)
  show ?thesis by (simp add: declared_defs_def def_of_def comp_def Let_def n map_nth)
qed

lemma filter_definitions:
  assumes "m < length g"
  shows "filter (\<lambda>r. rg_module r = m) (definitions g) = node_registrations (m, g ! m)"
proof -
  have eq: "filter (\<lambda>r. rg_module r = m) (node_registrations (k, g ! k)) =
      (if k = m then node_registrations (k, g ! k) else [])" for k
    using node_registrations_module [of _ k "g ! k"]
    by (auto simp: filter_empty_conv filter_id_conv simp del: node_registrations.simps)
  have "concat (map (\<lambda>k. if k = m then node_registrations (k, g ! k) else []) [0..<n]) =
      (if m < n then node_registrations (m, g ! m) else [])" for n
    by (induction n) auto
  with assms show ?thesis
    by (simp add: definitions_upt filter_concat comp_def eq del: node_registrations.simps)
qed

lemma local_types_eq:
  "m < length g \<Longrightarrow> local_types g m = pd_type ` set (declared_defs (mn_metadata (g ! m)))"
  by (simp add: local_types_def filter_definitions def_of_node [symmetric] image_image
      del: node_registrations.simps)

lemma definitions_module: "r \<in> set (definitions g) \<Longrightarrow> rg_module r < length g"
  unfolding definitions_upt by (auto dest: node_registrations_module simp del: node_registrations.simps)

lemma definitions_local: "r \<in> set (definitions g) \<Longrightarrow> type_of g r \<in> local_types g (rg_module r)"
  by (auto simp: local_types_def)

lemma definitions_types: "type_of g ` set (definitions g) = (\<Union>m<length g. local_types g m)"
  by (auto simp: local_types_def dest: definitions_module)

section \<open>What the provider checks establish\<close>

lemma check_duplicates_Inr:
  "check_duplicates g co rs bt = Inr bt' \<Longrightarrow>
   dom (map_of bt') = dom (map_of bt) \<union> type_of g ` set rs \<and>
   (\<forall>ty r. map_of bt' ty = Some r \<longrightarrow> map_of bt ty = Some r \<or> (r \<in> set rs \<and> type_of g r = ty))"
proof (induction rs arbitrary: bt)
  case Nil
  then show ?case by simp
next
  case (Cons r rs)
  then have "check_duplicates g co rs (AList.update (type_of g r) r bt) = Inr bt'"
    by (auto simp: Let_def split: option.splits if_splits)
  from Cons.IH [OF this] show ?case by (auto simp: update_conv' split: if_splits) 
qed

lemma check_duplicates_distinct:
  assumes "check_duplicates g co rs bt = Inr bt'"
    and "\<forall>r\<in>set rs. \<not> overridden_in co (type_of g r)"
  shows "distinct (map (type_of g) rs) \<and> type_of g ` set rs \<inter> dom (map_of bt) = {}"
  using assms
proof (induction rs arbitrary: bt)
  case Nil
  then show ?case by simp
next
  case (Cons r rs)
  then have "check_duplicates g co rs (AList.update (type_of g r) r bt) = Inr bt'"
    and n: "map_of bt (type_of g r) = None"
    by (auto simp: Let_def split: option.splits if_splits)
  from Cons.IH [OF this(1)] Cons.prems(2) have
    "distinct (map (type_of g) rs)" "type_of g ` set rs \<inter> insert (type_of g r) (dom (map_of bt)) = {}"
    by (simp_all add: update_conv' del: fun_upd_apply)
  with n show ?case by auto
qed

text \<open>The types a module exports, and what a module can see, in terms of the metadata.\<close>

definition exported :: "'m module_graph \<Rightarrow> nat \<Rightarrow> type_id set" where
  "exported g i = dep_type ` set (md_exports (mn_metadata (g ! i)))"

definition visible_in :: "'m module_graph \<Rightarrow> nat \<Rightarrow> type_id \<Rightarrow> bool" where
  "visible_in g m ty \<longleftrightarrow>
     ty \<in> local_types g m \<or>
     (\<exists>i<length g. md_global (mn_metadata (g ! i)) \<and> ty \<in> exported g i) \<or>
     (\<exists>c\<in>set (mn_imports (g ! m)). ty \<in> exported g c)"

definition imports_below :: "'m module_graph \<Rightarrow> bool" where
  "imports_below g \<longleftrightarrow> (\<forall>i<length g. \<forall>c\<in>set (mn_imports (g ! i)). c < i)"

lemma graph_of_imports_below: "graph_of prog root g \<Longrightarrow> imports_below g"
  unfolding imports_below_def by (intro allI impI) (rule graph_of_node(3))

lemma add_exports_Inr:
  assumes "add_exports g locals i es exports = Inr exports'" "i < length exports"
    and "\<forall>c\<in>set (mn_imports (g ! i)). c \<noteq> i"
  shows "exports' = exports[i := exports ! i \<union> dep_type ` set es] \<and>
    (\<forall>e\<in>set es. dep_type e \<in> locals ! i \<or> (\<exists>c\<in>set (mn_imports (g ! i)). dep_type e \<in> exports ! c))"
  using assms
proof (induction es arbitrary: exports)
  case Nil
  then show ?case by simp
next
  case (Cons e es)
  let ?ex = "exports[i := insert (dep_type e) (exports ! i)]"
  from Cons.prems(1) have step: "add_exports g locals i es ?ex = Inr exports'"
    and e: "dep_type e \<in> locals ! i \<or> (\<exists>c\<in>set (mn_imports (g ! i)). dep_type e \<in> exports ! c)"
    by (auto simp: Let_def list_ex_iff split: if_splits)
  have same: "\<forall>c\<in>set (mn_imports (g ! i)). ?ex ! c = exports ! c"
    using Cons.prems(3) by (metis nth_list_update_neq)
  from Cons.IH [OF step] Cons.prems(2,3) have
    "exports' = ?ex[i := ?ex ! i \<union> dep_type ` set es]" and
    "\<forall>e\<in>set es. dep_type e \<in> locals ! i \<or> (\<exists>c\<in>set (mn_imports (g ! i)). dep_type e \<in> ?ex ! c)"
    by simp_all
  with same e Cons.prems(2) show ?case by simp
qed

lemma collect_exports_Inr:
  assumes "collect_exports g locals [k..<length g] exports = Inr exports'" "k \<le> length g"
    and "length exports = length g" "imports_below g"
    and "\<forall>j<length g. exports ! j = (if j < k then exported g j else {})"
  shows "exports' = map (exported g) [0..<length g] \<and>
    (\<forall>i<length g. k \<le> i \<longrightarrow>
       (\<forall>ty\<in>exported g i. ty \<in> locals ! i \<or> (\<exists>c\<in>set (mn_imports (g ! i)). ty \<in> exported g c)))"
  using assms
proof (induction "length g - k" arbitrary: k exports)
  case 0
  then have "[k..<length g] = []" by simp
  with 0 show ?case by (auto intro: nth_equalityI)
next
  case (Suc n)
  then have k: "k < length g" by simp
  with Suc.prems(1) obtain ex1 where
    a: "add_exports g locals k (md_exports (mn_metadata (g ! k))) exports = Inr ex1" and
    b: "collect_exports g locals [Suc k..<length g] ex1 = Inr exports'"
    by (auto simp: upt_conv_Cons bind_result_Inr)
  have ck: "\<forall>c\<in>set (mn_imports (g ! k)). c < k" using Suc.prems(4) k by (simp add: imports_below_def)
  from add_exports_Inr [OF a] Suc.prems(3) k ck have
    ex1: "ex1 = exports[k := exports ! k \<union> exported g k]" and
    ok: "\<forall>ty\<in>exported g k. ty \<in> locals ! k \<or> (\<exists>c\<in>set (mn_imports (g ! k)). ty \<in> exports ! c)"
    by (auto simp: exported_def)
  have "\<forall>c\<in>set (mn_imports (g ! k)). exports ! c = exported g c"
    using Suc.prems(5) ck k by (metis less_trans)
  with ok have okk: "\<forall>ty\<in>exported g k. ty \<in> locals ! k \<or> (\<exists>c\<in>set (mn_imports (g ! k)). ty \<in> exported g c)"
    by blast
  have "exports' = map (exported g) [0..<length g] \<and>
    (\<forall>i<length g. Suc k \<le> i \<longrightarrow>
       (\<forall>ty\<in>exported g i. ty \<in> locals ! i \<or> (\<exists>c\<in>set (mn_imports (g ! i)). ty \<in> exported g c)))"
    by (rule Suc.hyps(1) [OF _ b]) (use Suc.hyps(2) Suc.prems(3-5) k ex1 in \<open>auto simp: nth_list_update\<close>)
  with okk show ?case by (metis le_antisym not_less_eq_eq)
qed

lemma visible_eq:
  assumes "imports_below g" "m < length g"
  shows "visible g (map (local_types g) [0..<length g]) (map (exported g) [0..<length g])
           (global_exports g (map (exported g) [0..<length g])) m ty \<longleftrightarrow> visible_in g m ty"
proof -
  have "ty \<in> global_exports g (map (exported g) [0..<length g]) \<longleftrightarrow>
      (\<exists>i<length g. md_global (mn_metadata (g ! i)) \<and> ty \<in> exported g i)"
    by (auto simp: global_exports_def enumerate_upt)
  moreover have "list_ex (\<lambda>c. ty \<in> map (exported g) [0..<length g] ! c) (mn_imports (g ! m)) \<longleftrightarrow>
      (\<exists>c\<in>set (mn_imports (g ! m)). ty \<in> exported g c)"
  proof -
    have "map (exported g) [0..<length g] ! c = exported g c" if "c \<in> set (mn_imports (g ! m))" for c
    proof -
      from that assms have "c < m" by (simp add: imports_below_def)
      with assms(2) show ?thesis by simp
    qed
    then show ?thesis by (simp add: list_ex_iff)
  qed
  ultimately show ?thesis using assms by (simp add: visible_def visible_in_def)
qed

end
