(* ===== verification/PreflightLaws.thy ===== *)
theory PreflightLaws
  imports Preflight
begin

text \<open>
  What a successful preflight guarantees: dependencies are declared and visible, or in the
  container; every message subject has at most one handler; providers are ordered after their
  dependencies; gateway paths are unique.
\<close>

section \<open>The checks, one by one\<close>

lemma check_deps_Inr:
  "check_deps g co bt vis r ds = Inr () \<longleftrightarrow>
   (\<forall>d\<in>set ds. dep_type d = logger_type \<or>
      (if map_of bt (dep_type d) \<noteq> None then vis (rg_module r) (dep_type d)
       else container_has co (dep_type d)))"
  by (induction ds) auto

lemma check_dependencies_Inr:
  "check_dependencies g co bt vis rs = Inr () \<longleftrightarrow>
   (\<forall>r\<in>set rs. \<forall>d\<in>set (pd_deps (effective co (def_of g r))). dep_type d = logger_type \<or>
      (if map_of bt (dep_type d) \<noteq> None then vis (rg_module r) (dep_type d)
       else container_has co (dep_type d)))"
  by (induction rs) (simp_all add: bind_result_Inr check_deps_Inr)

lemma check_node_event_handlers_Inr:
  "check_node_event_handlers locals vis m name ehs = Inr () \<longleftrightarrow>
   (\<forall>eh\<in>set ehs. eh_type eh \<in> locals ! m \<and> vis m event_bus_type)"
  by (induction ehs) (auto simp: bind_result_Inr assert_registered_or_declared_def)

lemma check_event_handlers_Inr:
  "check_event_handlers locals vis ns = Inr () \<longleftrightarrow>
   (\<forall>(m, node)\<in>set ns. \<forall>eh\<in>set (md_event_handlers (mn_metadata node)).
      eh_type eh \<in> locals ! m \<and> vis m event_bus_type)"
  by (induction ns) (auto simp: bind_result_Inr check_node_event_handlers_Inr)

section \<open>Subjects\<close>

definition commands_of :: "message_handler list \<Rightarrow> str set" where
  "commands_of hs = mh_pattern ` {h \<in> set hs. mh_kind h = Command}"

definition events_of :: "message_handler list \<Rightarrow> str set" where
  "events_of hs = mh_pattern ` {h \<in> set hs. mh_kind h = Event}"

text \<open>Handlers that were accepted after the patterns of \<open>st\<close>, giving the patterns of \<open>st'\<close>.\<close>

definition accepted :: "message_handler list \<Rightarrow> patterns \<times> patterns \<Rightarrow> patterns \<times> patterns \<Rightarrow> bool" where
  "accepted hs st st' \<longleftrightarrow>
     (\<forall>h\<in>set hs. valid_microservice_pattern (mh_pattern h) (mh_kind h = Command)) \<and>
     distinct (map mh_pattern hs) \<and>
     mh_pattern ` set hs \<inter> (fst ` set (fst st) \<union> fst ` set (snd st)) = {} \<and>
     fst ` set (fst st') = fst ` set (fst st) \<union> commands_of hs \<and>
     fst ` set (snd st') = fst ` set (snd st) \<union> events_of hs \<and>
     (distinct (map fst (snd st)) \<longrightarrow> distinct (map fst (snd st')))"

lemma accepted_Nil: "accepted [] st st"
  by (simp add: accepted_def commands_of_def events_of_def)

lemma accepted_append:
  assumes "accepted hs st st1" "accepted hs' st1 st2"
  shows "accepted (hs @ hs') st st2"
proof -
  have kinds: "mh_pattern ` set hs = commands_of hs \<union> events_of hs" for hs
    using handler_kind.exhaust by (auto simp: commands_of_def events_of_def)
  have app: "commands_of (hs @ hs') = commands_of hs \<union> commands_of hs'"
    "events_of (hs @ hs') = events_of hs \<union> events_of hs'"
    by (auto simp: commands_of_def events_of_def)
  from assms obtain v: "\<forall>h\<in>set (hs @ hs'). valid_microservice_pattern (mh_pattern h) (mh_kind h = Command)"
    and d: "distinct (map mh_pattern hs)" "distinct (map mh_pattern hs')"
    and i: "mh_pattern ` set hs \<inter> (fst ` set (fst st) \<union> fst ` set (snd st)) = {}"
      "mh_pattern ` set hs' \<inter> (fst ` set (fst st1) \<union> fst ` set (snd st1)) = {}"
    and k1: "fst ` set (fst st1) = fst ` set (fst st) \<union> commands_of hs"
      "fst ` set (snd st1) = fst ` set (snd st) \<union> events_of hs"
    and k2: "fst ` set (fst st2) = fst ` set (fst st1) \<union> commands_of hs'"
      "fst ` set (snd st2) = fst ` set (snd st1) \<union> events_of hs'"
    and e: "distinct (map fst (snd st)) \<longrightarrow> distinct (map fst (snd st2))"
    by (auto simp: accepted_def)
  from i(2) have i2: "mh_pattern ` set hs' \<inter> (fst ` set (fst st) \<union> fst ` set (snd st)) = {}"
    "mh_pattern ` set hs' \<inter> mh_pattern ` set hs = {}"
    unfolding k1 kinds [of hs] by blast+
  have "distinct (map mh_pattern (hs @ hs'))" using d i2(2) by auto
  moreover have "mh_pattern ` set (hs @ hs') \<inter> (fst ` set (fst st) \<union> fst ` set (snd st)) = {}"
    using i(1) i2(1) by auto
  ultimately show ?thesis
    unfolding accepted_def app k2 k1 using v e by (simp add: Un_assoc)
qed

lemma fst_set_update: "fst ` set (AList.update k v al) = insert k (fst ` set al)"
  by (simp add: dom_update)

lemma accepted_one:
  assumes "valid_microservice_pattern (mh_pattern h) (mh_kind h = Command)"
    and "map_of cs (mh_pattern h) = None" "map_of es (mh_pattern h) = None"
  shows "accepted [h] (cs, es)
    (if mh_kind h = Command then (AList.update (mh_pattern h) m cs, es)
     else (cs, AList.update (mh_pattern h) m es))"
  using assms
  by (cases "mh_kind h")
    (auto simp: accepted_def commands_of_def events_of_def fst_set_update map_of_eq_None_iff
      distinct_update)

lemma check_handlers_Inr: "check_handlers g m hs st = Inr st' \<Longrightarrow> accepted hs st st'"
proof (induction hs arbitrary: st)
  case Nil
  then show ?case by (simp add: accepted_Nil)
next
  case (Cons h hs)
  obtain cs es where st: "st = (cs, es)" by (cases st)
  let ?st = "if mh_kind h = Command then (AList.update (mh_pattern h) m cs, es)
    else (cs, AList.update (mh_pattern h) m es)"
  from Cons.prems have v: "valid_microservice_pattern (mh_pattern h) (mh_kind h = Command)"
    and n: "map_of cs (mh_pattern h) = None" "map_of es (mh_pattern h) = None"
    and r: "check_handlers g m hs ?st = Inr st'"
    by (auto simp: st Let_def split: if_splits option.splits)
  from accepted_append [OF accepted_one [OF v n] Cons.IH [OF r]] show ?case by (simp add: st)
qed

lemma check_patterns_Inr:
  "check_patterns g ns st = Inr st' \<Longrightarrow> accepted (concat (map (node_handlers \<circ> snd) ns)) st st'"
proof (induction ns arbitrary: st)
  case Nil
  then show ?case by (simp add: accepted_Nil)
next
  case (Cons n ns)
  then obtain m node st1 where n: "n = (m, node)" and
    a: "check_handlers g m (node_handlers node) st = Inr st1" and
    b: "check_patterns g ns st1 = Inr st'"
    by (cases n) (auto simp: bind_result_Inr)
  from accepted_append [OF check_handlers_Inr [OF a] Cons.IH [OF b]] n show ?case by simp
qed

lemma check_command_events_Inr:
  "check_command_events c es = Inr () \<longleftrightarrow> (\<forall>e\<in>set es. \<not> microservice_patterns_intersect c e)"
  by (induction es) auto

lemma check_commands_Inr:
  "check_commands cs es = Inr () \<longleftrightarrow>
   (\<forall>c\<in>set cs. \<forall>e\<in>set es. \<not> microservice_patterns_intersect c e)"
  by (induction cs) (auto simp: bind_result_Inr check_command_events_Inr)

lemma check_event_pair_Inr:
  "check_event_pair e es = Inr () \<longleftrightarrow> (\<forall>f\<in>set es. \<not> microservice_patterns_intersect e f)"
  by (induction es) auto

lemma patterns_intersect_sym:
  "microservice_patterns_intersect p q \<longleftrightarrow> microservice_patterns_intersect q p"
  by (simp add: microservice_patterns_intersect_def tokens_intersect_sym)

lemma check_event_pairs_Inr:
  "check_event_pairs es = Inr () \<Longrightarrow> e \<in> set es \<Longrightarrow> f \<in> set es \<Longrightarrow> e \<noteq> f \<Longrightarrow>
   \<not> microservice_patterns_intersect e f"
  by (induction es) (auto simp: bind_result_Inr check_event_pair_Inr patterns_intersect_sym)

text \<open>All message handlers of the graph, in the order in which they are declared.\<close>

definition graph_handlers :: "'m module_graph \<Rightarrow> message_handler list" where
  "graph_handlers g = concat (map node_handlers g)"

lemma common_subject_intersects:
  assumes "valid_nats_subject s" "nats_pattern_matches p s" "nats_pattern_matches q s"
  shows "microservice_patterns_intersect p q"
  using assms tokens_intersect_sound
  unfolding nats_pattern_matches_def microservice_patterns_intersect_def by blast

section \<open>A successful preflight\<close>

definition declared_types :: "'m module_graph \<Rightarrow> type_id set" where
  "declared_types g = type_of g ` set (definitions g)"

text \<open>The dependencies that the definition effective at a registration has besides the logger.\<close>

definition needs :: "'m module_graph \<Rightarrow> container option \<Rightarrow> registration \<Rightarrow> type_id set" where
  "needs g co r = dep_type ` set (pd_deps (effective co (def_of g r))) - {logger_type}"

lemma preflight_Inr:
  assumes p: "preflight g co = Inr out" and ib: "imports_below g"
  obtains bt commands events states stack where
    "check_duplicates g co (definitions g) [] = Inr bt"
    "\<forall>i<length g. \<forall>ty\<in>exported g i. ty \<in> local_types g i \<or>
       (\<exists>c\<in>set (mn_imports (g ! i)). ty \<in> exported g c)"
    "\<forall>r\<in>set (definitions g). \<forall>ty\<in>needs g co r.
       (ty \<in> declared_types g \<and> visible_in g (rg_module r) ty) \<or>
       (ty \<notin> declared_types g \<and> container_has co ty)"
    "\<forall>m<length g. \<forall>eh\<in>set (md_event_handlers (mn_metadata (g ! m))).
       eh_type eh \<in> local_types g m \<and> visible_in g m event_bus_type"
    "accepted (graph_handlers g) ([], []) (commands, events)"
    "check_commands (map fst commands) (map fst events) = Inr ()"
    "check_event_pairs (map fst events) = Inr ()"
    "schedule_all g bt co (definitions g) (Map.empty, [], []) = Inr (states, stack, out)"
proof -
  let ?locals = "map (local_types g) [0..<length g]"
  from p obtain bt exports commands events states stack where
    bt: "check_duplicates g co (definitions g) [] = Inr bt" and
    ex: "collect_exports g ?locals [0..<length g] (replicate (length g) {}) = Inr exports" and
    deps: "check_dependencies g co bt (visible g ?locals exports (global_exports g exports)) (definitions g) = Inr ()" and
    evs: "check_event_handlers ?locals (visible g ?locals exports (global_exports g exports)) (enumerate 0 g) = Inr ()" and
    pats: "check_patterns g (enumerate 0 g) ([], []) = Inr (commands, events)" and
    ce: "check_commands (map fst commands) (map fst events) = Inr ()" "check_event_pairs (map fst events) = Inr ()" and
    sched: "schedule_all g bt co (definitions g) (Map.empty, [], []) = Inr (states, stack, out)"
    by (auto simp: preflight_def bind_result_Inr Let_def)
  from collect_exports_Inr [OF ex _ _ ib] have
    ex': "exports = map (exported g) [0..<length g]" and
    exok: "\<forall>i<length g. \<forall>ty\<in>exported g i. ty \<in> local_types g i \<or>
       (\<exists>c\<in>set (mn_imports (g ! i)). ty \<in> exported g c)"
    by simp_all
  let ?vis = "visible g ?locals exports (global_exports g exports)"
  have vis: "?vis m ty \<longleftrightarrow> visible_in g m ty" if "m < length g" for m ty
    unfolding ex' by (rule visible_eq [OF ib that])
  have dom: "map_of bt ty \<noteq> None \<longleftrightarrow> ty \<in> declared_types g" for ty
    using check_duplicates_Inr [OF bt] by (auto simp: declared_types_def)
  have deps': "\<forall>r\<in>set (definitions g). \<forall>ty\<in>needs g co r.
       (ty \<in> declared_types g \<and> visible_in g (rg_module r) ty) \<or>
       (ty \<notin> declared_types g \<and> container_has co ty)"
  proof (intro ballI)
    fix r ty assume r: "r \<in> set (definitions g)" and "ty \<in> needs g co r"
    then obtain d where "d \<in> set (pd_deps (effective co (def_of g r)))" "ty = dep_type d" "ty \<noteq> logger_type"
      by (auto simp: needs_def)
    with deps r have "if ty \<in> declared_types g then ?vis (rg_module r) ty else container_has co ty"
      unfolding check_dependencies_Inr dom by blast
    with vis [OF definitions_module [OF r]] show "(ty \<in> declared_types g \<and> visible_in g (rg_module r) ty) \<or>
       (ty \<notin> declared_types g \<and> container_has co ty)"
      by (simp split: if_splits)
  qed
  have evs': "\<forall>m<length g. \<forall>eh\<in>set (md_event_handlers (mn_metadata (g ! m))).
       eh_type eh \<in> local_types g m \<and> visible_in g m event_bus_type"
    using evs unfolding check_event_handlers_Inr by (fastforce simp: enumerate_upt vis)
  have pats': "accepted (graph_handlers g) ([], []) (commands, events)"
    using check_patterns_Inr [OF pats] by (simp add: graph_handlers_def flip: map_map)
  show thesis by (rule that [OF bt exok deps' evs' pats' ce sched])
qed

lemma dependencies_available:
  assumes "discover_from prog root = Some (Inr g)" and "preflight g co = Inr out"
    and "r \<in> set (definitions g)" and "ty \<in> needs g co r"
  shows "(ty \<in> declared_types g \<and> visible_in g (rg_module r) ty) \<or>
         (ty \<notin> declared_types g \<and> container_has co ty)"
proof -
  from assms(1) discover_cases [of prog root] have "imports_below g"
    by (auto intro: graph_of_imports_below)
  from preflight_Inr [OF assms(2) this] assms(3,4) show ?thesis by metis
qed

text \<open>After a successful preflight, every dependency of every provider (the override's
  dependencies where one is pending) is the logger, or a provider that is declared in the graph and
  visible to the provider's module, or undeclared but already in the container.\<close>

theorem preflight_dependencies_available:
  assumes "discover_from prog root = Some (Inr g)" and "preflight g co = Inr out"
    and "r \<in> set (definitions g)" and "ty \<in> needs g co r"
  shows "(ty \<in> declared_types g \<and> visible_in g (rg_module r) ty) \<or>
         (ty \<notin> declared_types g \<and> container_has co ty)"
  by (rule dependencies_available [OF assms])

lemma pattern_kind:
  "h \<in> set hs \<Longrightarrow> (mh_pattern h \<in> commands_of hs \<and> mh_kind h = Command) \<or> mh_pattern h \<in> events_of hs"
  by (cases "mh_kind h") (auto simp: commands_of_def events_of_def)

text \<open>C10: after a successful preflight, no concrete message subject is matched by two of the
  message handlers declared in the graph.\<close>

theorem subject_has_one_handler:
  assumes "discover_from prog root = Some (Inr g)" and "preflight g co = Inr out"
    and "valid_nats_subject s" and "i < length (graph_handlers g)" and "j < length (graph_handlers g)"
    and "nats_pattern_matches (mh_pattern (graph_handlers g ! i)) s"
    and "nats_pattern_matches (mh_pattern (graph_handlers g ! j)) s"
  shows "i = j"
proof (rule ccontr)
  assume ij: "i \<noteq> j"
  let ?H = "graph_handlers g"
  let ?p = "mh_pattern (?H ! i)" and ?q = "mh_pattern (?H ! j)"
  from assms(1) discover_cases [of prog root] have "imports_below g"
    by (auto intro: graph_of_imports_below)
  from preflight_Inr [OF assms(2) this] obtain commands events where
    acc: "accepted ?H ([], []) (commands, events)" and
    ce: "check_commands (map fst commands) (map fst events) = Inr ()" and
    ee: "check_event_pairs (map fst events) = Inr ()" by metis
  from acc have d: "distinct (map mh_pattern ?H)"
    and v: "\<forall>h\<in>set ?H. valid_microservice_pattern (mh_pattern h) (mh_kind h = Command)"
    and c: "fst ` set commands = commands_of ?H" and e: "fst ` set events = events_of ?H"
    by (simp_all add: accepted_def)
  from d assms(4,5) ij have ne: "?p \<noteq> ?q" by (simp add: distinct_conv_nth)
  from common_subject_intersects [OF assms(3,6,7)] have int: "microservice_patterns_intersect ?p ?q" .
  have kind: "?p \<in> commands_of ?H \<and> mh_kind (?H ! i) = Command \<or> ?p \<in> events_of ?H"
    "?q \<in> commands_of ?H \<and> mh_kind (?H ! j) = Command \<or> ?q \<in> events_of ?H"
    using assms(4,5) by (auto dest!: pattern_kind [OF nth_mem])
  have "\<not> (?p \<in> events_of ?H \<and> ?q \<in> events_of ?H)"
    using check_event_pairs_Inr [OF ee, of ?p ?q] ne int by (auto simp: e)
  moreover have "\<not> (?p \<in> commands_of ?H \<and> ?q \<in> events_of ?H)" "\<not> (?p \<in> events_of ?H \<and> ?q \<in> commands_of ?H)"
    using ce int by (auto simp: check_commands_Inr c e patterns_intersect_sym [of ?q])
  ultimately have "mh_kind (?H ! i) = Command" "mh_kind (?H ! j) = Command" using kind by blast+
  with v assms(4,5) have "valid_microservice_pattern ?p True" "valid_microservice_pattern ?q True"
    by (metis nth_mem)+
  with assms(6,7) ne show False by (auto simp: command_pattern_matches_only_itself)
qed

section \<open>Construction order\<close>

lemma check_duplicates_keys:
  "check_duplicates g co rs bt = Inr bt' \<Longrightarrow> distinct (map fst bt) \<Longrightarrow> distinct (map fst bt')"
  by (induction rs arbitrary: bt)
    (auto simp: Let_def distinct_update split: option.splits if_splits)

text \<open>The declared types a registration depends on.\<close>

definition declared_deps :: "'m module_graph \<Rightarrow> by_type \<Rightarrow> container option \<Rightarrow> registration \<Rightarrow> type_id set" where
  "declared_deps g bt co r =
     dep_type ` set (pd_deps (effective co (def_of g r))) \<inter> dom (map_of bt)"

definition deps_first :: "'m module_graph \<Rightarrow> by_type \<Rightarrow> container option \<Rightarrow> registration list \<Rightarrow> bool" where
  "deps_first g bt co out \<longleftrightarrow>
     (\<forall>k<length out. declared_deps g bt co (out ! k) \<subseteq> type_of g ` set (take k out))"

lemma deps_first_snoc:
  "deps_first g bt co (out @ [r]) \<longleftrightarrow>
     deps_first g bt co out \<and> declared_deps g bt co r \<subseteq> type_of g ` set out"
proof -
  have "(\<forall>k<length (out @ [r]). P k) \<longleftrightarrow> (\<forall>k<length out. P k) \<and> P (length out)" for P
    by (auto simp: less_Suc_eq)
  then show ?thesis by (auto simp: deps_first_def nth_append)
qed

definition schedule_inv :: "'m module_graph \<Rightarrow> by_type \<Rightarrow> container option \<Rightarrow> schedule_state \<Rightarrow> bool" where
  "schedule_inv g bt co st \<longleftrightarrow>
     (case st of (states, stack, out) \<Rightarrow>
        distinct (map (type_of g) out) \<and> type_of g ` set out = {ty. states ty = Some 2} \<and>
        deps_first g bt co out)"

definition schedule_post ::
    "'m module_graph \<Rightarrow> by_type \<Rightarrow> registration list \<Rightarrow> schedule_state \<Rightarrow> schedule_state \<Rightarrow> bool" where
  "schedule_post g bt rs st st' \<longleftrightarrow>
     (case (st, st') of ((states, stack, out), (states', stack', out')) \<Rightarrow>
        stack' = stack \<and> (\<forall>ty. states' ty = Some 1 \<longleftrightarrow> states ty = Some 1) \<and>
        (\<forall>ty. states ty = Some 2 \<longrightarrow> states' ty = Some 2) \<and>
        (\<forall>r\<in>set rs. states' (type_of g r) = Some 2) \<and>
        set out' \<subseteq> set out \<union> set rs \<union> snd ` set bt)"

lemma schedule_all_correct:
  "schedule_all g bt co rs st = Inr st' \<Longrightarrow> schedule_inv g bt co st \<Longrightarrow>
   \<forall>ty r. map_of bt ty = Some r \<longrightarrow> type_of g r = ty \<Longrightarrow>
   schedule_inv g bt co st' \<and> schedule_post g bt rs st st'"
proof (induction g bt co rs st arbitrary: st' rule: schedule_all.induct)
  case (1 g bt co st)
  then show ?case by (cases st) (auto simp: schedule_post_def)
next
  case (2 g bt co r rs states stack out)
  note inv = "2.prems"(2) and bt = "2.prems"(3)
  show ?case
  proof (cases "states (type_of g r) = Some 2")
    case True
    with "2.prems"(1) have s: "schedule_all g bt co rs (states, stack, out) = Inr st'"
      by (simp add: Let_def)
    from "2.IH"(1) [OF refl True s inv bt] True show ?thesis
      by (cases st') (auto simp: schedule_post_def)
  next
    case not2: False
    show ?thesis
    proof (cases "states (type_of g r) = Some 1")
      case True
      with "2.prems"(1) not2 show ?thesis by (simp add: Let_def)
    next
      case not1: False
      let ?deps = "List.map_filter (\<lambda>d. map_of bt (dep_type d)) (pd_deps (effective co (def_of g r)))"
      from "2.prems"(1) not1 not2 obtain states1 stack1 out1 where
        a: "schedule_all g bt co ?deps (states(type_of g r \<mapsto> 1), stack @ [pd_name (def_of g r)], out) =
            Inr (states1, stack1, out1)" and
        b: "schedule_all g bt co rs (states1(type_of g r \<mapsto> 2), butlast stack1, out1 @ [r]) = Inr st'"
        by (auto simp: Let_def split: sum.splits)
      obtain states2 stack2 out2 where st': "st' = (states2, stack2, out2)" by (cases st')
      have "schedule_inv g bt co (states(type_of g r \<mapsto> 1), stack @ [pd_name (def_of g r)], out)"
        using inv not2 by (auto simp: schedule_inv_def)
      from "2.IH"(2) [OF refl not2 not1 a this bt] have
        i1: "schedule_inv g bt co (states1, stack1, out1)" and
        p1: "schedule_post g bt ?deps (states(type_of g r \<mapsto> 1), stack @ [pd_name (def_of g r)], out)
               (states1, stack1, out1)" by blast+
      have gray: "states1 (type_of g r) = Some 1" using p1 by (simp add: schedule_post_def)
      have kids: "declared_deps g bt co r \<subseteq> type_of g ` set out1"
      proof
        fix ty assume "ty \<in> declared_deps g bt co r"
        then obtain d r' where d: "d \<in> set (pd_deps (effective co (def_of g r)))" "dep_type d = ty"
          "map_of bt ty = Some r'" by (auto simp: declared_deps_def)
        then have "r' \<in> set ?deps" by (force simp: map_filter_def)
        with p1 have "states1 (type_of g r') = Some 2" by (simp add: schedule_post_def)
        with bt d i1 show "ty \<in> type_of g ` set out1" by (simp add: schedule_inv_def)
      qed
      have "schedule_inv g bt co (states1(type_of g r \<mapsto> 2), butlast stack1, out1 @ [r])"
        using i1 gray kids unfolding schedule_inv_def prod.case deps_first_snoc by auto
      from "2.IH"(3) [OF refl not2 not1 a refl refl b this bt] have
        i2: "schedule_inv g bt co st'" and
        p2: "schedule_post g bt rs (states1(type_of g r \<mapsto> 2), butlast stack1, out1 @ [r]) st'"
        by blast+
      have sub: "set ?deps \<subseteq> snd ` set bt" by (force simp: map_filter_def dest: map_of_SomeD)
      have "schedule_post g bt (r # rs) (states, stack, out) st'"
        using p1 p2 not1 not2 sub unfolding schedule_post_def st' prod.case
        by (auto split: if_splits)
      with i2 show ?thesis by blast
    qed
  qed
qed

lemma preflight_order_facts:
  assumes "discover_from prog root = Some (Inr g)" and "preflight g co = Inr out"
  shows "distinct (map (type_of g) out) \<and> type_of g ` set out = declared_types g \<and>
    set out \<subseteq> set (definitions g) \<and>
    (\<forall>k<length out. needs g co (out ! k) \<inter> declared_types g \<subseteq> type_of g ` set (take k out))"
proof -
  from assms(1) discover_cases [of prog root] have "imports_below g"
    by (auto intro: graph_of_imports_below)
  from preflight_Inr [OF assms(2) this] obtain bt states stack where
    bt: "check_duplicates g co (definitions g) [] = Inr bt" and
    s: "schedule_all g bt co (definitions g) (Map.empty, [], []) = Inr (states, stack, out)" by metis
  from check_duplicates_Inr [OF bt] have dom: "dom (map_of bt) = declared_types g" and
    btr: "\<forall>ty r. map_of bt ty = Some r \<longrightarrow> r \<in> set (definitions g) \<and> type_of g r = ty"
    by (simp_all add: declared_types_def)
  have "schedule_inv g bt co (Map.empty, [], [])" by (simp add: schedule_inv_def deps_first_def)
  from schedule_all_correct [OF s this] btr have
    i: "schedule_inv g bt co (states, stack, out)" and
    p: "schedule_post g bt (definitions g) (Map.empty, [], []) (states, stack, out)" by blast+
  have "distinct (map fst bt)" using check_duplicates_keys [OF bt] by simp
  then have "snd ` set bt \<subseteq> set (definitions g)"
    using btr by (force simp: map_of_eq_Some_iff)
  moreover from p have "set out \<subseteq> set (definitions g) \<union> snd ` set bt" by (simp add: schedule_post_def)
  ultimately have sub: "set out \<subseteq> set (definitions g)" by blast
  have "declared_types g \<subseteq> type_of g ` set out"
    using i p by (auto simp: schedule_inv_def schedule_post_def declared_types_def)
  with sub have types: "type_of g ` set out = declared_types g" by (auto simp: declared_types_def)
  have "needs g co r \<inter> declared_types g \<subseteq> declared_deps g bt co r" for r
    by (auto simp: needs_def declared_deps_def dom)
  moreover from i have "distinct (map (type_of g) out)"
    and "\<forall>k<length out. declared_deps g bt co (out ! k) \<subseteq> type_of g ` set (take k out)"
    by (simp_all add: schedule_inv_def deps_first_def)
  ultimately show ?thesis using sub types by blast
qed

text \<open>The construction order that a successful preflight returns lists every declared provider
  type exactly once, at one of its registrations, and lists the declared dependencies of each
  provider before it.\<close>

theorem preflight_order:
  assumes "discover_from prog root = Some (Inr g)" and "preflight g co = Inr out"
  shows "distinct (map (type_of g) out) \<and> type_of g ` set out = declared_types g \<and>
    set out \<subseteq> set (definitions g) \<and>
    (\<forall>k<length out. needs g co (out ! k) \<inter> declared_types g \<subseteq> type_of g ` set (take k out))"
  by (rule preflight_order_facts [OF assms])

lemma graph_of_import_step:
  assumes "graph_of prog root g" "m < length g" "c \<in> set (mn_imports (g ! m))"
  shows "(mn_type (g ! m), mn_type (g ! c)) \<in> import_rel prog" "c < m"
proof -
  have "mn_type (g ! c) \<in> set (map (\<lambda>j. mn_type (g ! j)) (mn_imports (g ! m)))" using assms(3) by auto
  then show "(mn_type (g ! m), mn_type (g ! c)) \<in> import_rel prog"
    unfolding graph_of_node(4) [OF assms(1,2)] by (simp add: import_rel_def)
  show "c < m" using graph_of_node(3) [OF assms(1,2)] assms(3) by blast
qed

lemma exported_local:
  assumes "discover_from prog root = Some (Inr g)" and "preflight g co = Inr out"
    and "m < length g" and "ty \<in> exported g m"
  shows "\<exists>k<length g. ty \<in> local_types g k \<and> (mn_type (g ! m), mn_type (g ! k)) \<in> (import_rel prog)\<^sup>*"
proof -
  from assms(1) discover_cases [of prog root] have g: "graph_of prog root g" by auto
  from preflight_Inr [OF assms(2) graph_of_imports_below [OF g]] have
    ok: "\<forall>i<length g. \<forall>ty\<in>exported g i. ty \<in> local_types g i \<or>
       (\<exists>c\<in>set (mn_imports (g ! i)). ty \<in> exported g c)" by metis
  from assms(3,4) show ?thesis
  proof (induction m rule: less_induct)
    case (less m)
    show ?case
    proof (cases "ty \<in> local_types g m")
      case False
      with ok less.prems obtain c where c: "c \<in> set (mn_imports (g ! m))" "ty \<in> exported g c" by blast
      from graph_of_import_step [OF g less.prems(1) c(1)] less.IH [of c] less.prems(1) c(2)
      show ?thesis by (meson converse_rtrancl_into_rtrancl less_trans)
    qed (use less.prems in blast)
  qed
qed

text \<open>After a successful preflight, every type that a module exports is declared by the
  module itself or by a module it imports, directly or through others: a re-export never makes a
  type available that nobody below declares.\<close>

theorem exports_are_declared:
  assumes "discover_from prog root = Some (Inr g)" and "preflight g co = Inr out"
    and "m < length g" and "ty \<in> exported g m"
  shows "\<exists>k<length g. ty \<in> local_types g k \<and> (mn_type (g ! m), mn_type (g ! k)) \<in> (import_rel prog)\<^sup>*"
  by (rule exported_local [OF assms])

lemma local_types_declared: "k < length g \<Longrightarrow> local_types g k \<subseteq> declared_types g"
  by (auto simp: local_types_def declared_types_def)

lemma visible_declared:
  assumes d: "discover_from prog root = Some (Inr g)" and p: "preflight g co = Inr out"
    and m: "m < length g" and v: "visible_in g m ty"
  shows "ty \<in> declared_types g"
proof -
  from d discover_cases [of prog root] have g: "graph_of prog root g" by auto
  from v consider "ty \<in> local_types g m" | i where "i < length g" "ty \<in> exported g i"
    using graph_of_import_step(2) [OF g m] m unfolding visible_in_def by (meson less_trans)
  then show ?thesis
  proof cases
    case 1
    with m local_types_declared show ?thesis by blast
  next
    case 2
    from exported_local [OF d p this] local_types_declared show ?thesis by blast
  qed
qed

section \<open>Gateway paths\<close>

lemma check_gateway_paths_Inr:
  "check_gateway_paths gws paths = Inr paths' \<longleftrightarrow>
   (\<forall>gw\<in>set gws. prefix ''/'' (gd_path gw)) \<and>
   distinct (map gateway_key gws) \<and>
   (\<forall>gw\<in>set gws. gateway_key gw \<notin> paths) \<and>
   paths' = paths \<union> set (map gateway_key gws)"
proof (induction gws arbitrary: paths)
  case Nil
  then show ?case by auto
next
  case (Cons gw gws)
  show ?case
  proof (cases "prefix ''/'' (gd_path gw) \<and> gateway_key gw \<notin> paths")
    case True
    then have "check_gateway_paths (gw # gws) paths =
        check_gateway_paths gws (insert (gateway_key gw) paths)" by simp
    with True show ?thesis by (auto simp: Cons.IH) (metis image_eqI)
  qed auto
qed

text \<open>The gateway paths of a graph are accepted exactly when each starts with a slash and no
  two gateways of the same kind share a path.\<close>

theorem gateway_paths_iff:
  "is_ok (validate_gateway_paths_in_graph g) \<longleftrightarrow>
   (\<forall>gw\<in>set (graph_gateways g). prefix ''/'' (gd_path gw)) \<and>
   distinct (map gateway_key (graph_gateways g))"
  unfolding validate_gateway_paths_in_graph_def
  using check_gateway_paths_Inr [of "graph_gateways g" "{}"]
  by (cases "check_gateway_paths (graph_gateways g) {}") auto

section \<open>A concrete application\<close>

text \<open>
  The database module declares and exports a repository; the users module imports it, declares a
  service that depends on the repository, and a microservice with a command and an event handler;
  the root module imports the users module.
\<close>

definition plain_provider :: "type_id \<Rightarrow> str \<Rightarrow> provider_dependency list \<Rightarrow> provider_def" where
  "plain_provider ty name deps =
     \<lparr>pd_type = ty, pd_name = name, pd_deps = deps,
      pd_build = (\<lambda>h resolve. Inr \<lparr>v_type = ty, v_data = length h\<rparr>),
      pd_init = noop_lifecycle, pd_bootstrap = noop_lifecycle, pd_shutdown = noop_lifecycle\<rparr>"

definition repo_dep :: provider_dependency where
  "repo_dep = \<lparr>dep_type = 10, dep_name = ''Repo''\<rparr>"

definition users_microservice :: microservice_def where
  "users_microservice =
     \<lparr>ms_provider = plain_provider 12 ''UsersMs'' [],
      ms_handlers = [\<lparr>mh_kind = Command, mh_pattern = ''u.get'', mh_closure = 0\<rparr>,
                     \<lparr>mh_kind = Event, mh_pattern = ''o.*'', mh_closure = 1\<rparr>]\<rparr>"

fun shop_program :: "demo program" where
  "shop_program App =
     \<lparr>mod_name = ''App'', mod_register = md_import Users ModuleMetadata_new\<rparr>"
| "shop_program Users =
     \<lparr>mod_name = ''Users'',
      mod_register = md_microservice users_microservice (md_import Db
        (ModuleMetadata_new\<lparr>md_providers := [plain_provider 11 ''Service'' [repo_dep]]\<rparr>))\<rparr>"
| "shop_program Db =
     \<lparr>mod_name = ''Db'',
      mod_register = md_export repo_dep
        (ModuleMetadata_new\<lparr>md_providers := [plain_provider 10 ''Repo'' []]\<rparr>)\<rparr>"

definition shop_graph :: "demo module_graph" where
  "shop_graph =
     [\<lparr>mn_type = Db, mn_name = ''Db'', mn_metadata = (mod_register (shop_program Db)), mn_imports = []\<rparr>,
      \<lparr>mn_type = Users, mn_name = ''Users'',
       mn_metadata = (mod_register (shop_program Users))\<lparr>md_imports := []\<rparr>, mn_imports = [0]\<rparr>,
      \<lparr>mn_type = App, mn_name = ''App'',
       mn_metadata = (mod_register (shop_program App))\<lparr>md_imports := []\<rparr>, mn_imports = [1]\<rparr>]"

lemmas shop_metadata = md_import_def md_export_def md_microservice_def ModuleMetadata_new_def

lemma shop_discovered: "discover_from shop_program App = Some (Inr shop_graph)"
  by (simp add: discover_from_def remap_of_def Let_def shop_graph_def shop_metadata)

definition shop_order :: "registration list" where
  "shop_order =
     [\<lparr>rg_module = 0, rg_slot = SlotProvider 0\<rparr>, \<lparr>rg_module = 1, rg_slot = SlotProvider 0\<rparr>,
      \<lparr>rg_module = 1, rg_slot = SlotMicroservice 0\<rparr>]"

lemma shop_definitions: "definitions shop_graph = shop_order"
  by (simp add: definitions_def shop_graph_def shop_metadata shop_order_def)

lemma shop_def_of:
  "def_of shop_graph \<lparr>rg_module = 0, rg_slot = SlotProvider 0\<rparr> = plain_provider 10 ''Repo'' []"
  "def_of shop_graph \<lparr>rg_module = Suc 0, rg_slot = SlotProvider 0\<rparr> = plain_provider 11 ''Service'' [repo_dep]"
  "def_of shop_graph \<lparr>rg_module = Suc 0, rg_slot = SlotMicroservice 0\<rparr> = plain_provider 12 ''UsersMs'' []"
  by (simp_all add: def_of_def shop_graph_def shop_metadata users_microservice_def)

lemma shop_patterns:
  "valid_microservice_pattern ''u.get'' True" "valid_microservice_pattern ''o.*'' False"
  "\<not> microservice_patterns_intersect ''u.get'' ''o.*''"
  by (simp_all add: valid_microservice_pattern_def has_whitespace_def ws_encodings_def
      sublist_Cons_right microservice_patterns_intersect_def)

lemma shop_handlers: "graph_handlers shop_graph = ms_handlers users_microservice"
  by (simp add: graph_handlers_def node_handlers_def shop_graph_def shop_metadata)

lemma shop_preflight: "preflight shop_graph None = Inr shop_order"
proof -
  have len: "length shop_graph = 3" by (simp add: shop_graph_def)
  have en: "enumerate 0 shop_graph = [(0, shop_graph ! 0), (1, shop_graph ! 1), (2, shop_graph ! 2)]"
    by (simp add: shop_graph_def)
  have up: "[0..<3] = [0, 1, 2::nat]" by (simp add: upt_rec)
  have md: "md_exports (mn_metadata (shop_graph ! 0)) = [repo_dep]"
    "md_exports (mn_metadata (shop_graph ! Suc 0)) = []" "md_exports (mn_metadata (shop_graph ! 2)) = []"
    "mn_imports (shop_graph ! Suc 0) = [0]"
    "md_event_handlers (mn_metadata (shop_graph ! 0)) = []"
    "md_event_handlers (mn_metadata (shop_graph ! Suc 0)) = []"
    "md_event_handlers (mn_metadata (shop_graph ! 2)) = []"
    "node_handlers (shop_graph ! 0) = []"
    "node_handlers (shop_graph ! Suc 0) = ms_handlers users_microservice"
    "node_handlers (shop_graph ! 2) = []"
    by (simp_all add: shop_graph_def shop_metadata node_handlers_def)
  show ?thesis
    unfolding preflight_def shop_definitions len en up
    by (simp add: shop_order_def shop_def_of plain_provider_def Let_def local_types_def shop_definitions
        md repo_dep_def visible_def effective_def users_microservice_def
        shop_patterns map_filter_simps logger_type_def)
qed

theorem preflight_dependencies_available_witness:
  "10 \<in> declared_types shop_graph \<and> visible_in shop_graph 1 10"
proof -
  let ?r = "\<lparr>rg_module = 1, rg_slot = SlotProvider 0\<rparr>"
  have "?r \<in> set (definitions shop_graph)" by (simp add: shop_definitions shop_order_def)
  moreover have "10 \<in> needs shop_graph None ?r"
    by (simp add: needs_def effective_def shop_def_of plain_provider_def repo_dep_def logger_type_def)
  ultimately show ?thesis
    using preflight_dependencies_available [OF shop_discovered shop_preflight] by (fastforce simp: container_has_def)
qed

theorem subject_has_one_handler_witness:
  "nats_pattern_matches (mh_pattern (graph_handlers shop_graph ! 1)) ''o.new'' \<and> (1 :: nat) = 1"
proof -
  have m: "nats_pattern_matches (mh_pattern (graph_handlers shop_graph ! 1)) ''o.new''"
    by (simp add: shop_handlers users_microservice_def nats_pattern_matches_def)
  have "valid_nats_subject ''o.new''"
    by (simp add: valid_nats_subject_def has_whitespace_def ws_encodings_def sublist_Cons_right)
  moreover have "1 < length (graph_handlers shop_graph)"
    by (simp add: shop_handlers users_microservice_def)
  ultimately show ?thesis
    using subject_has_one_handler [OF shop_discovered shop_preflight _ _ _ m m] m by simp
qed

theorem preflight_order_witness:
  "type_of shop_graph ` set shop_order = declared_types shop_graph \<and> distinct (map (type_of shop_graph) shop_order)"
  using preflight_order [OF shop_discovered shop_preflight] by blast

theorem exports_are_declared_witness:
  "\<exists>k<length shop_graph. 10 \<in> local_types shop_graph k \<and>
     (mn_type (shop_graph ! 0), mn_type (shop_graph ! k)) \<in> (import_rel shop_program)\<^sup>*"
  by (rule exports_are_declared [OF shop_discovered shop_preflight])
    (simp_all add: shop_graph_def exported_def shop_metadata repo_dep_def)

text \<open>A WebSocket and a Socket.IO gateway may share a path, two WebSocket gateways may not.\<close>

definition gateway_at :: "str \<Rightarrow> gateway_kind \<Rightarrow> gateway_def" where
  "gateway_at path kind = \<lparr>gd_path = path, gd_type = 20, gd_provider = plain_provider 20 ''Gw'' [], gd_kind = kind\<rparr>"

definition gateway_graph :: "gateway_def list \<Rightarrow> unit module_graph" where
  "gateway_graph gws =
     [\<lparr>mn_type = (), mn_name = ''App'', mn_metadata = ModuleMetadata_new\<lparr>md_gateways := gws\<rparr>, mn_imports = []\<rparr>]"

theorem gateway_paths_iff_witness:
  "is_ok (validate_gateway_paths_in_graph
      (gateway_graph [gateway_at ''/ws'' WebSocketGateway, gateway_at ''/ws'' SocketIoGateway])) \<and>
   \<not> is_ok (validate_gateway_paths_in_graph
      (gateway_graph [gateway_at ''/ws'' WebSocketGateway, gateway_at ''/ws'' WebSocketGateway]))"
  unfolding gateway_paths_iff
  by (simp add: graph_gateways_def gateway_graph_def ModuleMetadata_new_def gateway_at_def gateway_key_def
      is_websocket_def)

end
