(* ===== verification/Lifecycle.thy ===== *)
theory Lifecycle
  imports PreflightLaws
begin

text \<open>
  Startup and shutdown of an application: \<open>initialize_graph\<close>, \<open>bootstrap_graph\<close>,
  \<open>rollback_graph\<close> and the public operations built on them, the end of
  \<open>crates/caelix-core/src/module.rs\<close>. The state is the container and the history of calls the
  framework has made into the application; a call is appended to the history when it is made, and
  sees the calls before it. \<open>None\<close> is a panic. Log output is left out.
\<close>

section \<open>Rollback\<close>

fun shutdown_types ::
    "'m module_graph \<Rightarrow> container \<Rightarrow> type_id list \<Rightarrow> history \<Rightarrow> http_exception option \<times> history" where
  "shutdown_types g c [] h = (None, h)"
| "shutdown_types g c (ty # tys) h =
     (case def_by_type g ty of
        None \<Rightarrow> shutdown_types g c tys h
      | Some pd \<Rightarrow>
          (case run_lifecycle_from_container pd c ''on_shutdown'' (pd_shutdown pd) Shutdown h of
             (Inl e, h') \<Rightarrow> (Some e, snd (shutdown_types g c tys h'))
           | (Inr _, h') \<Rightarrow> shutdown_types g c tys h'))"

definition rollback_graph :: "'m module_graph \<Rightarrow> container \<Rightarrow> history \<Rightarrow> container \<times> history" where
  "rollback_graph g c h =
     (let (types, c') = take_initialized_providers c
      in (c', snd (shutdown_types g c' (rev types) h)))"

section \<open>Initialization\<close>

fun initialize_providers ::
    "'m module_graph \<Rightarrow> registration list \<Rightarrow> container \<Rightarrow> history \<Rightarrow> unit result \<times> container \<times> history" where
  "initialize_providers g [] c h = (Inr (), c, h)"
| "initialize_providers g (r # rs) c h =
     (let declared = def_of g r; ty = pd_type declared; c1 = mark_provider_declared ty c in
      if contains_type_id c1 ty \<or> was_overridden c1 ty then initialize_providers g rs c1 h
      else
        (let (override_def, c2) = take_pending_override ty c1;
             c3 = (if override_def \<noteq> None then mark_override_applied ty c2 else c2);
             eff = (case override_def of Some pd \<Rightarrow> pd | None \<Rightarrow> declared);
             scoped = scoped_for_provider c3 (pd_name eff) (pd_deps eff);
             h1 = h @ [Build (pd_type eff)] in
         case pd_build eff h (resolve scoped) of
           Inl error \<Rightarrow> (Inl error, rollback_graph g c3 h1)
         | Inr value \<Rightarrow>
             (let c4 = register_erased (pd_type eff) value c3;
                  h2 = h1 @ [Init (pd_type eff)] in
              case run_lifecycle eff value ''on_module_init'' (pd_init eff) h1 of
                Inl error \<Rightarrow> (Inl error, rollback_graph g c4 h2)
              | Inr _ \<Rightarrow>
                  initialize_providers g rs
                    (if override_def = None then record_initialized_provider ty c4 else c4) h2)))"

fun register_event_handlers ::
    "'m module_graph \<Rightarrow> event_handler_def list \<Rightarrow> container \<Rightarrow> history \<Rightarrow> unit result \<times> container \<times> history" where
  "register_event_handlers g [] c h = (Inr (), c, h)"
| "register_event_handlers g (eh # ehs) c h =
     (let h1 = h @ [RegisterHandler (eh_type eh)] in
      case eh_register eh h (resolve c) of
        Inl error \<Rightarrow> (Inl error, rollback_graph g c h1)
      | Inr _ \<Rightarrow> register_event_handlers g ehs c h1)"

definition graph_event_handlers :: "'m module_graph \<Rightarrow> event_handler_def list" where
  "graph_event_handlers g = concat (map (\<lambda>node. md_event_handlers (mn_metadata node)) g)"

definition initialize_graph ::
    "'m module_graph \<Rightarrow> container \<Rightarrow> history \<Rightarrow> unit result \<times> container \<times> history" where
  "initialize_graph g c h =
     (case preflight g (Some c) of
        Inl e \<Rightarrow> (Inl e, c, h)
      | Inr order \<Rightarrow>
          (case initialize_providers g order c h of
             (Inl e, c', h') \<Rightarrow> (Inl e, c', h')
           | (Inr _, c', h') \<Rightarrow> register_event_handlers g (graph_event_handlers g) c' h'))"

section \<open>Bootstrap\<close>

fun bootstrap_providers ::
    "'m module_graph \<Rightarrow> type_id set \<Rightarrow> registration list \<Rightarrow> container \<Rightarrow> history \<Rightarrow>
     unit result \<times> container \<times> history" where
  "bootstrap_providers g initialized [] c h = (Inr (), c, h)"
| "bootstrap_providers g initialized (r # rs) c h =
     (let pd = def_of g r in
      if pd_type pd \<in> initialized \<and> \<not> was_overridden c (pd_type pd) then
        (case begin_provider_bootstrap (pd_type pd) c of
           (False, c1) \<Rightarrow> bootstrap_providers g initialized rs c1 h
         | (True, c1) \<Rightarrow>
             (case run_lifecycle_from_container pd c1 ''on_bootstrap'' (pd_bootstrap pd) Bootstrap h of
                (Inl error, h1) \<Rightarrow> (Inl error, rollback_graph g c1 h1)
              | (Inr _, h1) \<Rightarrow> bootstrap_providers g initialized rs c1 h1))
      else bootstrap_providers g initialized rs c h)"

definition bootstrap_graph ::
    "'m module_graph \<Rightarrow> container \<Rightarrow> history \<Rightarrow> unit result \<times> container \<times> history" where
  "bootstrap_graph g c h =
     (case preflight g (Some c) of
        Inl e \<Rightarrow> (Inl e, c, h)
      | Inr order \<Rightarrow> bootstrap_providers g (set (initialized_providers c)) order c h)"

section \<open>Public operations\<close>

definition on_graph ::
    "('m::finite) program \<Rightarrow> 'm \<Rightarrow> container \<Rightarrow> history \<Rightarrow>
     ('m module_graph \<Rightarrow> 'a result \<times> container \<times> history) \<Rightarrow> ('a result \<times> container \<times> history) option" where
  "on_graph prog root c h f =
     (case discover_from prog root of
        None \<Rightarrow> None
      | Some (Inl e) \<Rightarrow> Some (Inl e, c, h)
      | Some (Inr g) \<Rightarrow> Some (f g))"

definition register_module ::
    "('m::finite) program \<Rightarrow> 'm \<Rightarrow> container \<Rightarrow> history \<Rightarrow> (unit result \<times> container \<times> history) option" where
  "register_module prog root c h = on_graph prog root c h (\<lambda>g. initialize_graph g c h)"

definition bootstrap_module ::
    "('m::finite) program \<Rightarrow> 'm \<Rightarrow> container \<Rightarrow> history \<Rightarrow> (unit result \<times> container \<times> history) option" where
  "bootstrap_module prog root c h = on_graph prog root c h (\<lambda>g. bootstrap_graph g c h)"

definition shutdown_module ::
    "('m::finite) program \<Rightarrow> 'm \<Rightarrow> container \<Rightarrow> history \<Rightarrow> (unit result \<times> container \<times> history) option" where
  "shutdown_module prog root c h = on_graph prog root c h (\<lambda>g.
     let (types, c') = take_initialized_providers c;
         (first, h') = shutdown_types g c' (rev types) h
     in (case first of None \<Rightarrow> Inr () | Some e \<Rightarrow> Inl e, c', h'))"

text \<open>The checks that startup runs on the graph against a container, without effects.\<close>

fun assert_all_registered :: "'m module_graph \<Rightarrow> container \<Rightarrow> registration list \<Rightarrow> unit result" where
  "assert_all_registered g c [] = Inr ()"
| "assert_all_registered g c (r # rs) =
     bind_result (assert_registered (def_of g r) c) (\<lambda>_. assert_all_registered g c rs)"

definition with_graph :: "('m::finite) program \<Rightarrow> 'm \<Rightarrow> ('m module_graph \<Rightarrow> 'a result) \<Rightarrow> 'a result option" where
  "with_graph prog root f =
     (case discover_from prog root of
        None \<Rightarrow> None | Some (Inl e) \<Rightarrow> Some (Inl e) | Some (Inr g) \<Rightarrow> Some (f g))"

definition validate_module_providers :: "('m::finite) program \<Rightarrow> 'm \<Rightarrow> container \<Rightarrow> unit result option" where
  "validate_module_providers prog root c = with_graph prog root (\<lambda>g.
     bind_result (preflight g (Some c)) (\<lambda>_. assert_all_registered g c (definitions g)))"

definition validate_gateway_paths :: "('m::finite) program \<Rightarrow> 'm \<Rightarrow> unit result option" where
  "validate_gateway_paths prog root = with_graph prog root validate_gateway_paths_in_graph"

definition validate_module :: "('m::finite) program \<Rightarrow> 'm \<Rightarrow> unit result option" where
  "validate_module prog root = with_graph prog root (\<lambda>g.
     bind_result (preflight g None) (\<lambda>_. validate_gateway_paths_in_graph g))"

definition collect_module_message_handlers_with_container ::
    "('m::finite) program \<Rightarrow> 'm \<Rightarrow> container option \<Rightarrow> message_handler list result option" where
  "collect_module_message_handlers_with_container prog root co = with_graph prog root (\<lambda>g.
     bind_result (preflight g co) (\<lambda>_. Inr (graph_handlers g)))"

text \<open>\<open>Result::and_then\<close> when the first result may be a panic.\<close>

definition and_then :: "'a result option \<Rightarrow> ('a \<Rightarrow> 'b result option) \<Rightarrow> 'b result option" where
  "and_then r f = (case r of None \<Rightarrow> None | Some (Inl e) \<Rightarrow> Some (Inl e) | Some (Inr x) \<Rightarrow> f x)"

definition finish_build ::
    "('m::finite) program \<Rightarrow> 'm \<Rightarrow> (container \<Rightarrow> unit result option) \<Rightarrow> container \<Rightarrow>
     (container result \<times> history) option" where
  "finish_build prog root checks c0 =
     (case register_module prog root c0 [] of
        None \<Rightarrow> None
      | Some (Inl e, c, h) \<Rightarrow> Some (Inl e, h)
      | Some (Inr _, c, h) \<Rightarrow>
          (case checks c of
             None \<Rightarrow> None
           | Some (Inl e) \<Rightarrow>
               (case discover_from prog root of
                  None \<Rightarrow> None
                | Some (Inl e') \<Rightarrow> Some (Inl e', h)
                | Some (Inr g) \<Rightarrow> Some (Inl e, snd (rollback_graph g c h)))
           | Some (Inr _) \<Rightarrow>
               (case bootstrap_module prog root c h of
                  None \<Rightarrow> None
                | Some (Inl e, c', h') \<Rightarrow> Some (Inl e, h')
                | Some (Inr _, c', h') \<Rightarrow> Some (Inr c', h'))))"

text \<open>\<open>setup\<close> is the application's setup closure.\<close>

definition build_container_with_setup ::
    "('m::finite) program \<Rightarrow> 'm \<Rightarrow> (container \<Rightarrow> container) \<Rightarrow> (container result \<times> history) option" where
  "build_container_with_setup prog root setup =
     finish_build prog root
       (\<lambda>c. and_then (validate_module_providers prog root c) (\<lambda>_. validate_gateway_paths prog root))
       (setup Container_new)"

definition build_container_with_overrides ::
    "('m::finite) program \<Rightarrow> 'm \<Rightarrow> overrides \<Rightarrow> (container result \<times> history) option" where
  "build_container_with_overrides prog root ovs =
     finish_build prog root
       (\<lambda>c. and_then (Some (assert_no_unused_overrides c)) (\<lambda>_.
            and_then (validate_module_providers prog root c) (\<lambda>_. validate_gateway_paths prog root)))
       (seed_overrides ovs Container_new)"

definition build_container :: "('m::finite) program \<Rightarrow> 'm \<Rightarrow> (container result \<times> history) option" where
  "build_container prog root = build_container_with_overrides prog root []"

text \<open>Controllers are registered with the router, in order; an invalid graph registers nothing.\<close>

definition register_module_controllers :: "('m::finite) program \<Rightarrow> 'm \<Rightarrow> nat list option" where
  "register_module_controllers prog root =
     (case discover_from prog root of
        None \<Rightarrow> None
      | Some (Inl e) \<Rightarrow> Some []
      | Some (Inr g) \<Rightarrow>
          Some (map cd_register (concat (map (\<lambda>node. md_controllers (mn_metadata node)) g))))"

fun distinct_gateways :: "gateway_def list \<Rightarrow> type_id set \<Rightarrow> gateway_def list" where
  "distinct_gateways [] seen = []"
| "distinct_gateways (gw # gws) seen =
     (if gd_type gw \<in> seen then distinct_gateways gws seen
      else gw # distinct_gateways gws (insert (gd_type gw) seen))"

definition visit_module_gateways :: "('m::finite) program \<Rightarrow> 'm \<Rightarrow> gateway_def list option" where
  "visit_module_gateways prog root =
     (case discover_from prog root of
        None \<Rightarrow> None
      | Some (Inl e) \<Rightarrow> Some []
      | Some (Inr g) \<Rightarrow> Some (distinct_gateways (graph_gateways g) {}))"

end
