(* ===== verification/LifecycleLaws.thy ===== *)
theory LifecycleLaws
  imports Lifecycle
begin

text \<open>
  The order of calls into the application during startup and shutdown: what a successful start has
  called, what a failed one has called and rolled back, and that shutdown is the reverse.
\<close>

section \<open>Shutdown\<close>

lemma def_by_type_declared:
  "ty \<in> declared_types g \<Longrightarrow> \<exists>pd. def_by_type g ty = Some pd \<and> pd_type pd = ty"
proof -
  assume "ty \<in> declared_types g"
  then have "\<exists>r\<in>set (definitions g). type_of g r = ty" by (auto simp: declared_types_def)
  then obtain r where "find (\<lambda>r. type_of g r = ty) (definitions g) = Some r" "type_of g r = ty"
    by (metis (mono_tags, lifting) find_None_iff find_Some_iff not_None_eq)
  then show ?thesis by (simp add: def_by_type_def)
qed

definition live :: "'m module_graph \<Rightarrow> container \<Rightarrow> type_id list \<Rightarrow> bool" where
  "live g c tys \<longleftrightarrow> (\<forall>ty\<in>set tys. ty \<in> declared_types g \<and> services c ty \<noteq> None)"

lemma shutdown_types_history:
  "live g c tys \<Longrightarrow> snd (shutdown_types g c tys h) = h @ map Shutdown tys"
proof (induction tys arbitrary: h)
  case Nil
  then show ?case by simp
next
  case (Cons ty tys)
  then obtain pd v where pd: "def_by_type g ty = Some pd" "pd_type pd = ty" and v: "services c ty = Some v"
    using def_by_type_declared [of ty g] by (auto simp: live_def)
  have "snd (run_lifecycle_from_container pd c ''on_shutdown'' (pd_shutdown pd) Shutdown h) = h @ [Shutdown ty]"
    using pd v by (simp add: run_lifecycle_from_container_def resolve_erased_def)
  with Cons pd show ?case
    by (cases "run_lifecycle_from_container pd c ''on_shutdown'' (pd_shutdown pd) Shutdown h")
      (auto simp: live_def split: sum.splits prod.splits)
qed

lemma live_cong: "services c' = services c \<Longrightarrow> live g c' tys = live g c tys"
  by (simp add: live_def)

lemma rollback_graph_live:
  "live g c (initialized_providers c) \<Longrightarrow>
   rollback_graph g c h =
     (c\<lparr>initialized_providers := []\<rparr>, h @ map Shutdown (rev (initialized_providers c)))"
  by (simp add: rollback_graph_def take_initialized_providers_def shutdown_types_history live_def)

section \<open>Initialization\<close>

text \<open>Overrides are stored under their own type, and an applied one is in the container.\<close>

definition overrides_ok :: "container \<Rightarrow> bool" where
  "overrides_ok c \<longleftrightarrow>
     applied_overrides c \<subseteq> dom (services c) \<and>
     (\<forall>ty pd. map_of (pending_overrides c) ty = Some pd \<longrightarrow> pd_type pd = ty)"

definition fresh :: "'m module_graph \<Rightarrow> container \<Rightarrow> registration list \<Rightarrow> type_id list" where
  "fresh g c rs = filter (\<lambda>ty. services c ty = None) (map (type_of g) rs)"

definition own :: "container \<Rightarrow> type_id list \<Rightarrow> type_id list" where
  "own c tys = filter (\<lambda>ty. map_of (pending_overrides c) ty = None) tys"

definition init_calls :: "type_id list \<Rightarrow> history" where
  "init_calls tys = concat (map (\<lambda>ty. [Build ty, Init ty]) tys)"

text \<open>The container after the providers of the given types were initialized.\<close>

definition init_post :: "'m module_graph \<Rightarrow> container \<Rightarrow> type_id list \<Rightarrow> container \<Rightarrow> bool" where
  "init_post g c tys c' \<longleftrightarrow>
     dom (services c') = dom (services c) \<union> set tys \<and>
     (\<forall>ty. services c ty \<noteq> None \<longrightarrow> services c' ty = services c ty) \<and>
     initialized_providers c' = initialized_providers c @ own c tys \<and>
     (\<forall>ty. map_of (pending_overrides c') ty = (if ty \<in> set tys then None else map_of (pending_overrides c) ty)) \<and>
     applied_overrides c' = applied_overrides c \<union> {ty \<in> set tys. map_of (pending_overrides c) ty \<noteq> None} \<and>
     bootstrapped_providers c' = bootstrapped_providers c \<and> dependency_scope c' = dependency_scope c"

text \<open>One provider that is not in the container yet, with the state in which its constructor runs.\<close>

definition override_of :: "container \<Rightarrow> type_id \<Rightarrow> provider_def option" where
  "override_of c ty = map_of (pending_overrides c) ty"

definition before_build :: "type_id \<Rightarrow> container \<Rightarrow> container" where
  "before_build ty c =
     (let c2 = snd (take_pending_override ty (mark_provider_declared ty c))
      in if override_of c ty \<noteq> None then mark_override_applied ty c2 else c2)"

definition after_init :: "type_id \<Rightarrow> pvalue \<Rightarrow> container \<Rightarrow> container" where
  "after_init ty v c =
     (let c4 = register_erased ty v (before_build ty c)
      in if override_of c ty = None then record_initialized_provider ty c4 else c4)"

text \<open>The initializations that were completed: for each type in turn, the constructor of the definition
  effective at the time returned a value in the container of the moment, and the init hook accepted
  that value. Providers that are in the container already are only marked as declared.\<close>

abbreviation effective_def :: "'m module_graph \<Rightarrow> container \<Rightarrow> registration \<Rightarrow> provider_def" where
  "effective_def g c r \<equiv> effective (Some c) (def_of g r)"

definition construction ::
    "'m module_graph \<Rightarrow> container \<Rightarrow> history \<Rightarrow> registration \<Rightarrow> pvalue result" where
  "construction g c h r =
     (let pd = effective_def g c r in
      pd_build pd h (resolve (scoped_for_provider (before_build (type_of g r) c) (pd_name pd) (pd_deps pd))))"

inductive completed_inits ::
    "'m module_graph \<Rightarrow> container \<Rightarrow> history \<Rightarrow> type_id list \<Rightarrow> container \<Rightarrow> bool" for g where
  no_inits: "completed_inits g c h [] c"
| present: "services c (type_of g r) \<noteq> None \<Longrightarrow> completed_inits g (mark_provider_declared (type_of g r) c) h tys c' \<Longrightarrow>
    completed_inits g c h tys c'"
| completed: "r \<in> set (definitions g) \<Longrightarrow> services c (type_of g r) = None \<Longrightarrow> construction g c h r = Inr v \<Longrightarrow>
    pd_init (effective_def g c r) (h @ [Build (type_of g r)]) v = Inr () \<Longrightarrow>
    completed_inits g (after_init (type_of g r) v c) (h @ [Build (type_of g r), Init (type_of g r)]) tys c' \<Longrightarrow>
    completed_inits g c h (type_of g r # tys) c'"

text \<open>The initialization that was not: its constructor failed, or its init hook did; with its calls.\<close>

inductive failing_init ::
    "'m module_graph \<Rightarrow> container \<Rightarrow> history \<Rightarrow> type_id \<Rightarrow> history \<Rightarrow> bool" for g c h where
  constructor_fails: "r \<in> set (definitions g) \<Longrightarrow> construction g c h r = Inl e \<Longrightarrow>
    failing_init g c h (type_of g r) [Build (type_of g r)]"
| hook_fails: "r \<in> set (definitions g) \<Longrightarrow> construction g c h r = Inr v \<Longrightarrow>
    pd_init (effective_def g c r) (h @ [Build (type_of g r)]) v = Inl e \<Longrightarrow>
    failing_init g c h (type_of g r) [Build (type_of g r), Init (type_of g r)]"

definition failed_init ::
    "'m module_graph \<Rightarrow> container \<Rightarrow> type_id list \<Rightarrow> history \<Rightarrow> container \<Rightarrow> history \<Rightarrow> bool" where
  "failed_init g c tys h c' h' \<longleftrightarrow>
     (\<exists>ok failing rest calls cm.
        tys = ok @ failing # rest \<and> completed_inits g c h ok cm \<and>
        failing_init g cm (h @ init_calls ok) failing calls \<and>
        initialized_providers c' = [] \<and>
        h' = h @ init_calls ok @ calls @ map Shutdown (rev (initialized_providers c @ own c ok)))"

lemma failed_initI:
  "completed_inits g c h ok cm \<Longrightarrow> failing_init g cm (h @ init_calls ok) failing calls \<Longrightarrow>
   initialized_providers c' = [] \<Longrightarrow>
   h' = h @ init_calls ok @ calls @ map Shutdown (rev (initialized_providers c @ own c ok)) \<Longrightarrow>
   tys = ok @ failing # rest \<Longrightarrow> failed_init g c tys h c' h'"
  unfolding failed_init_def by blast

lemma init_post_refl: "init_post g c [] c"
  by (simp add: init_post_def own_def)

lemma own_Cons: "own c (ty # tys) = (if map_of (pending_overrides c) ty = None then ty # own c tys else own c tys)"
  by (simp add: own_def)

lemma own_set: "set (own c tys) \<subseteq> set tys"
  by (auto simp: own_def)

lemmas container_ops = mark_provider_declared_def take_pending_override_def mark_override_applied_def
  register_erased_def record_initialized_provider_def contains_type_id_def was_overridden_def

lemma before_build_fields [simp]:
  "services (before_build ty c) = services c"
  "initialized_providers (before_build ty c) = initialized_providers c"
  "map_of (pending_overrides (before_build ty c)) = (map_of (pending_overrides c))(ty := None)"
  "bootstrapped_providers (before_build ty c) = bootstrapped_providers c"
  "dependency_scope (before_build ty c) = dependency_scope c"
  by (simp_all add: before_build_def override_of_def container_ops Let_def delete_conv')

lemma before_build_applied:
  "applied_overrides (before_build ty c) =
     (if override_of c ty \<noteq> None then insert ty (applied_overrides c) else applied_overrides c)"
  by (simp add: before_build_def container_ops Let_def)

lemma after_init_post:
  assumes "services c ty = None"
  shows "init_post g c [ty] (after_init ty v c)"
  using assms unfolding init_post_def after_init_def
  by (auto simp: container_ops Let_def own_def override_of_def before_build_applied)

lemma init_post_trans:
  assumes a: "init_post g c [ty] c1" and b: "init_post g c1 tys c2" and "ty \<notin> set tys"
  shows "init_post g c (ty # tys) c2"
proof -
  have "own c1 tys = own c tys"
    using a assms(3) unfolding own_def init_post_def by (intro filter_cong) auto
  with a b assms(3) show ?thesis unfolding init_post_def by (auto simp: own_Cons own_def)
qed

lemma fresh_after:
  assumes "init_post g c [ty] c1" "ty \<notin> type_of g ` set rs"
  shows "fresh g c1 rs = fresh g c rs"
  using assms unfolding fresh_def init_post_def by (intro filter_cong) (auto simp: dom_def)

lemma overrides_ok_after:
  assumes "init_post g c [ty] c1" "overrides_ok c"
  shows "overrides_ok c1"
  using assms unfolding init_post_def overrides_ok_def by (auto split: if_splits)

lemma effective_type:
  "overrides_ok c \<Longrightarrow> pd_type (effective (Some c) (def_of g r)) = type_of g r"
  by (auto simp: effective_def pending_override_def overrides_ok_def split: option.splits)

lemma initialize_providers_skip:
  "services c (type_of g r) \<noteq> None \<Longrightarrow>
   initialize_providers g (r # rs) c h = initialize_providers g rs (mark_provider_declared (type_of g r) c) h"
  by (simp add: Let_def container_ops)

lemma initialize_providers_step:
  assumes "services c (type_of g r) = None" and ok: "overrides_ok c"
    and eff: "eff = effective (Some c) (def_of g r)" and ty: "ty = type_of g r"
    and c3: "c3 = before_build ty c"
  shows "initialize_providers g (r # rs) c h =
    (case pd_build eff h (resolve (scoped_for_provider c3 (pd_name eff) (pd_deps eff))) of
       Inl e \<Rightarrow> (Inl e, rollback_graph g c3 (h @ [Build ty]))
     | Inr v \<Rightarrow>
         (case run_lifecycle eff v ''on_module_init'' (pd_init eff) (h @ [Build ty]) of
            Inl e \<Rightarrow> (Inl e, rollback_graph g (register_erased ty v c3) (h @ [Build ty, Init ty]))
          | Inr _ \<Rightarrow> initialize_providers g rs (after_init ty v c) (h @ [Build ty, Init ty])))"
proof -
  have new: "\<not> contains_type_id (mark_provider_declared ty c) ty"
    "\<not> was_overridden (mark_provider_declared ty c) ty"
    using assms(1) ok ty by (auto simp: container_ops overrides_ok_def)
  obtain c2 where c2: "c2 = snd (take_pending_override ty (mark_provider_declared ty c))" by simp
  have o: "take_pending_override ty (mark_provider_declared ty c) = (override_of c ty, c2)"
    by (simp add: c2 container_ops override_of_def)
  have e: "(case override_of c ty of None \<Rightarrow> def_of g r | Some pd \<Rightarrow> pd) = eff"
    unfolding eff by (simp add: effective_def pending_override_def override_of_def ty split: option.splits)
  have t: "pd_type eff = ty" unfolding eff ty by (rule effective_type [OF ok])
  have b: "(if override_of c ty \<noteq> None then mark_override_applied ty c2 else c2) = c3"
    by (simp add: c3 c2 before_build_def Let_def)
  show ?thesis
    unfolding initialize_providers.simps Let_def ty [symmetric] o prod.case e t b after_init_def c3 [symmetric]
    using new by (simp split: sum.splits)
qed

text \<open>The effect of initializing registrations of distinct types, on success and on failure.\<close>

lemma initialize_providers_effect:
  assumes "initialize_providers g rs c h = (res, c', h')"
    and "distinct (map (type_of g) rs)" and "set rs \<subseteq> set (definitions g)"
    and "overrides_ok c" and "live g c (initialized_providers c)"
  shows "(case res of
            Inr _ \<Rightarrow> init_post g c (fresh g c rs) c' \<and> overrides_ok c' \<and>
                     live g c' (initialized_providers c') \<and> h' = h @ init_calls (fresh g c rs) \<and>
                     completed_inits g c h (fresh g c rs) c'
          | Inl e \<Rightarrow> failed_init g c (fresh g c rs) h c' h')"
  using assms
proof (induction rs arbitrary: c h)
  case Nil
  then show ?case by (auto simp: fresh_def init_calls_def init_post_refl intro: no_inits)
next
  case (Cons r rs)
  let ?ty = "type_of g r"
  show ?case
  proof (cases "services c ?ty")
    case (Some v)
    let ?c1 = "mark_provider_declared ?ty c"
    have same: "services ?c1 = services c" "pending_overrides ?c1 = pending_overrides c"
      "initialized_providers ?c1 = initialized_providers c" "applied_overrides ?c1 = applied_overrides c"
      "bootstrapped_providers ?c1 = bootstrapped_providers c" "dependency_scope ?c1 = dependency_scope c"
      by (simp_all add: container_ops)
    have f: "fresh g c (r # rs) = fresh g ?c1 rs" using Some by (simp add: fresh_def same)
    have "initialize_providers g rs ?c1 h = (res, c', h')"
      using Cons.prems(1) initialize_providers_skip [of c g r rs h] Some by simp
    note ih = Cons.IH [OF this]
    have same_ok: "overrides_ok ?c1 = overrides_ok c" by (simp add: overrides_ok_def same)
    have same_live: "live g ?c1 = live g c" by (intro ext) (simp add: live_def same)
    have same_own: "own ?c1 = own c" by (intro ext) (simp add: own_def same)
    have same_post: "init_post g ?c1 = init_post g c"
      by (intro ext) (simp add: init_post_def same same_own)
    have skip: "completed_inits g c h tys d" if "completed_inits g ?c1 h tys d" for h tys d
      using present [of c g r] Some that by simp
    have same_failed: "failed_init g c tys h c' h'" if "failed_init g ?c1 tys h c' h'" for tys h
      using that skip unfolding failed_init_def same same_own by metis
    have "distinct (map (type_of g) rs)" "set rs \<subseteq> set (definitions g)" using Cons.prems(2,3) by simp_all
    from ih [OF this] Cons.prems(4,5) show ?thesis
      unfolding f same_ok same_live same_post same
      by (cases res) (auto intro: skip same_failed)
  next
    case None
    let ?eff = "effective (Some c) (def_of g r)"
    let ?c3 = "before_build ?ty c"
    note step = initialize_providers_step [OF None Cons.prems(4) refl refl refl, of rs h]
    have r: "r \<in> set (definitions g)" using Cons.prems(3) by simp
    have con: "construction g c h r =
        pd_build ?eff h (resolve (scoped_for_provider ?c3 (pd_name ?eff) (pd_deps ?eff)))"
      by (simp add: construction_def Let_def)
    have tyd: "?ty \<in> declared_types g" using Cons.prems(3) by (auto simp: declared_types_def)
    have f: "fresh g c (r # rs) = ?ty # fresh g c rs" using None by (simp add: fresh_def)
    show ?thesis
    proof (cases "pd_build ?eff h (resolve (scoped_for_provider ?c3 (pd_name ?eff) (pd_deps ?eff)))")
      case (Inl e)
      have "live g ?c3 (initialized_providers ?c3)"
        using Cons.prems(5) by (simp add: live_def)
      note rb = rollback_graph_live [OF this, of "h @ [Build ?ty]"]
      from Cons.prems(1) have res: "res = Inl e" "initialized_providers c' = []"
        "h' = h @ [Build ?ty] @ map Shutdown (rev (initialized_providers c))"
        unfolding step Inl sum.case rb by auto
      have "failed_init g c (?ty # fresh g c rs) h c' h'"
        by (rule failed_initI [where ok = "[]", OF no_inits constructor_fails [OF r]])
          (simp_all add: res init_calls_def own_def con Inl)
      then show ?thesis unfolding f by (simp add: res)
    next
      case (Inr v)
      let ?c4 = "register_erased ?ty v ?c3"
      show ?thesis
      proof (cases "run_lifecycle ?eff v ''on_module_init'' (pd_init ?eff) (h @ [Build ?ty])")
        case (Inl e)
        have "live g ?c4 (initialized_providers ?c4)"
          using Cons.prems(5) by (auto simp: live_def container_ops before_build_def Let_def)
        note rb = rollback_graph_live [OF this, of "h @ [Build ?ty, Init ?ty]"]
        have "initialized_providers ?c4 = initialized_providers c" by (simp add: register_erased_def)
        with Cons.prems(1) have res: "res = Inl e" "initialized_providers c' = []"
          "h' = h @ [Build ?ty, Init ?ty] @ map Shutdown (rev (initialized_providers c))"
          unfolding step Inr Inl sum.case rb by auto
        have "\<exists>e. pd_init ?eff (h @ [Build ?ty]) v = Inl e"
          using Inl by (auto simp: run_lifecycle_def split: sum.splits)
        then obtain e' where hook: "pd_init ?eff (h @ [Build ?ty]) v = Inl e'" ..
        have "failed_init g c (?ty # fresh g c rs) h c' h'"
          by (rule failed_initI [where ok = "[]", OF no_inits hook_fails [OF r, of _ _ v e']])
            (simp_all add: res init_calls_def own_def con Inr hook)
        then show ?thesis unfolding f by (simp add: res)
      next
        case ok: (Inr u)
        let ?c1 = "after_init ?ty v c"
        have hook: "pd_init ?eff (h @ [Build ?ty]) v = Inr ()"
          using ok by (auto simp: run_lifecycle_def split: sum.splits)
        have first: "completed_inits g c h (?ty # tys) d"
          if "completed_inits g ?c1 (h @ [Build ?ty, Init ?ty]) tys d" for tys d
          by (rule completed [OF r None _ hook that]) (simp add: con Inr)
        have run: "initialize_providers g rs ?c1 (h @ [Build ?ty, Init ?ty]) = (res, c', h')"
          using Cons.prems(1) unfolding step Inr ok sum.case .
        have post: "init_post g c [?ty] ?c1" by (rule after_init_post [OF None])
        have new: "?ty \<notin> type_of g ` set rs" using Cons.prems(2) by auto
        have fr: "fresh g ?c1 rs = fresh g c rs" by (rule fresh_after [OF post new])
        have newf: "?ty \<notin> set (fresh g c rs)" using new by (auto simp: fresh_def)
        have live1: "live g ?c1 (initialized_providers ?c1)"
          using Cons.prems(5) post tyd unfolding live_def init_post_def by (auto simp: own_def dom_def)
        have own1: "own ?c1 tys = own c tys" if "?ty \<notin> set tys" for tys
          using post that unfolding own_def init_post_def by (intro filter_cong) auto
        have "distinct (map (type_of g) rs)" "set rs \<subseteq> set (definitions g)" using Cons.prems(2,3) by simp_all
        from Cons.IH [OF run this overrides_ok_after [OF post Cons.prems(4)] live1]
        have ih: "(case res of
            Inr _ \<Rightarrow> init_post g ?c1 (fresh g c rs) c' \<and> overrides_ok c' \<and>
                     live g c' (initialized_providers c') \<and>
                     h' = (h @ [Build ?ty, Init ?ty]) @ init_calls (fresh g c rs) \<and>
                     completed_inits g ?c1 (h @ [Build ?ty, Init ?ty]) (fresh g c rs) c'
          | Inl e \<Rightarrow> failed_init g ?c1 (fresh g c rs) (h @ [Build ?ty, Init ?ty]) c' h')"
          unfolding fr .
        show ?thesis
        proof (cases res)
          case (Inr u')
          with ih show ?thesis
            unfolding f by (simp add: init_post_trans [OF post _ newf] init_calls_def first)
        next
          case (Inl e)
          with ih obtain ok failing rest calls cm where
            d: "fresh g c rs = ok @ failing # rest"
              "completed_inits g ?c1 (h @ [Build ?ty, Init ?ty]) ok cm"
              "failing_init g cm ((h @ [Build ?ty, Init ?ty]) @ init_calls ok) failing calls"
              "initialized_providers c' = []" and
            h': "h' = (h @ [Build ?ty, Init ?ty]) @ init_calls ok @ calls @
                   map Shutdown (rev (initialized_providers ?c1 @ own ?c1 ok))"
            unfolding failed_init_def by auto
          have "initialized_providers ?c1 @ own ?c1 ok = initialized_providers c @ own c (?ty # ok)"
            using post own1 [of ok] newf d(1) by (auto simp: init_post_def own_Cons own_def)
          with h' have h'': "h' = h @ init_calls (?ty # ok) @ calls @
              map Shutdown (rev (initialized_providers c @ own c (?ty # ok)))"
            by (simp add: init_calls_def)
          have "failed_init g c (?ty # fresh g c rs) h c' h'"
            by (rule failed_initI [OF first [OF d(2)] _ d(4) h'']) (use d(1,3) in \<open>simp_all add: init_calls_def\<close>)
          with Inl show ?thesis unfolding f by simp
        qed
      qed
    qed
  qed
qed

section \<open>Event handlers and bootstrap\<close>

text \<open>The calls made before a rollback, and the rollback of the providers that were initialized.\<close>

definition rolled_back :: "container \<Rightarrow> history \<Rightarrow> history \<Rightarrow> container \<Rightarrow> history \<Rightarrow> bool" where
  "rolled_back c h calls c' h' \<longleftrightarrow>
     initialized_providers c' = [] \<and> h' = h @ calls @ map Shutdown (rev (initialized_providers c))"

lemma register_event_handlers_effect:
  assumes "register_event_handlers g ehs c h = (res, c', h')" and "live g c (initialized_providers c)"
  shows "(case res of
            Inr _ \<Rightarrow> c' = c \<and> h' = h @ map (RegisterHandler \<circ> eh_type) ehs
          | Inl e \<Rightarrow> \<exists>k\<le>length ehs. rolled_back c h (map (RegisterHandler \<circ> eh_type) (take k ehs)) c' h')"
  using assms
proof (induction ehs arbitrary: h)
  case Nil
  then show ?case by auto
next
  case (Cons eh ehs)
  let ?h1 = "h @ [RegisterHandler (eh_type eh)]"
  show ?case
  proof (cases "eh_register eh h (resolve c)")
    case (Inl e)
    with Cons.prems rollback_graph_live [OF Cons.prems(2), of ?h1]
    have "res = Inl e" "rolled_back c h (map (RegisterHandler \<circ> eh_type) (take 1 (eh # ehs))) c' h'"
      by (auto simp: rolled_back_def Let_def)
    then show ?thesis by (auto intro!: exI [of _ "1::nat"])
  next
    case (Inr u)
    with Cons.prems(1) have "register_event_handlers g ehs c ?h1 = (res, c', h')" by (simp add: Let_def)
    note ih = Cons.IH [OF this Cons.prems(2)]
    show ?thesis
    proof (cases res)
      case (Inl e)
      with ih obtain k where "k \<le> length ehs"
        "rolled_back c ?h1 (map (RegisterHandler \<circ> eh_type) (take k ehs)) c' h'" by auto
      with Inl show ?thesis by (auto simp: rolled_back_def intro!: exI [of _ "Suc k"])
    next
      case (Inr u)
      with ih show ?thesis by simp
    qed
  qed
qed

definition boot_types :: "container \<Rightarrow> type_id set \<Rightarrow> type_id list \<Rightarrow> type_id list" where
  "boot_types c initialized tys =
     filter (\<lambda>ty. ty \<in> initialized \<and> ty \<notin> applied_overrides c \<and> ty \<notin> bootstrapped_providers c) tys"

lemma bootstrap_providers_effect:
  assumes "bootstrap_providers g (set (initialized_providers c)) rs c h = (res, c', h')"
    and "distinct (map (type_of g) rs)" and "live g c (initialized_providers c)"
  shows "(let tys = boot_types c (set (initialized_providers c)) (map (type_of g) rs) in
          case res of
            Inr _ \<Rightarrow> services c' = services c \<and> initialized_providers c' = initialized_providers c \<and>
                     applied_overrides c' = applied_overrides c \<and>
                     bootstrapped_providers c' = bootstrapped_providers c \<union>
                       {ty \<in> type_of g ` set rs. ty \<in> set (initialized_providers c) \<and> ty \<notin> applied_overrides c} \<and>
                     h' = h @ map Bootstrap tys
          | Inl e \<Rightarrow> \<exists>k\<le>length tys. rolled_back c h (map Bootstrap (take k tys)) c' h')"
  using assms
proof (induction rs arbitrary: c h)
  case Nil
  then show ?case by (auto simp: boot_types_def)
next
  case (Cons r rs)
  let ?ty = "type_of g r" and ?I = "set (initialized_providers c)"
  show ?case
  proof (cases "?ty \<in> ?I \<and> ?ty \<notin> applied_overrides c")
    case False
    with Cons.prems(1) have "bootstrap_providers g ?I rs c h = (res, c', h')"
      by (auto simp: Let_def was_overridden_def)
    from Cons.IH [OF this _ Cons.prems(3)] Cons.prems(2) False show ?thesis
      by (cases res) (auto simp: boot_types_def Let_def)
  next
    case True
    let ?c1 = "c\<lparr>bootstrapped_providers := insert ?ty (bootstrapped_providers c)\<rparr>"
    have live1: "live g ?c1 (initialized_providers ?c1)" using Cons.prems(3) by (simp add: live_def)
    have boot: "boot_types ?c1 ?I (map (type_of g) rs) = boot_types c ?I (map (type_of g) rs)"
    proof -
      from Cons.prems(2) have "?ty \<notin> set (map (type_of g) rs)" by simp
      then show ?thesis unfolding boot_types_def by (intro filter_cong) (simp_all, metis)
    qed
    have d: "distinct (map (type_of g) rs)" using Cons.prems(2) by simp
    show ?thesis
    proof (cases "?ty \<in> bootstrapped_providers c")
      case True': True
      with True Cons.prems(1) have "bootstrap_providers g ?I rs ?c1 h = (res, c', h')"
        by (simp add: Let_def was_overridden_def begin_provider_bootstrap_def)
      from Cons.IH [of ?c1, simplified, OF this d live1 [simplified]] boot True' show ?thesis
        by (cases res) (auto simp: boot_types_def Let_def rolled_back_def insert_absorb)
    next
      case False
      let ?pd = "def_of g r"
      let ?run = "run_lifecycle_from_container ?pd ?c1 ''on_bootstrap'' (pd_bootstrap ?pd) Bootstrap h"
      have "services c ?ty \<noteq> None" using True Cons.prems(3) by (auto simp: live_def)
      then have run: "snd ?run = h @ [Bootstrap ?ty]"
        by (auto simp: run_lifecycle_from_container_def resolve_erased_def)
      have tys: "boot_types c ?I (map (type_of g) (r # rs)) = ?ty # boot_types c ?I (map (type_of g) rs)"
        using True False by (simp add: boot_types_def)
      show ?thesis
      proof (cases "fst ?run")
        case (Inl e)
        with run have r: "?run = (Inl e, h @ [Bootstrap ?ty])" by (simp add: prod_eq_iff)
        from Cons.prems(1) True False have "res = Inl e" "(c', h') = rollback_graph g ?c1 (h @ [Bootstrap ?ty])"
          by (auto simp: Let_def was_overridden_def begin_provider_bootstrap_def r)
        with rollback_graph_live [OF live1] show ?thesis
          unfolding tys by (auto simp: rolled_back_def Let_def intro!: exI [of _ "1::nat"])
      next
        case (Inr u)
        with run have r: "?run = (Inr u, h @ [Bootstrap ?ty])" by (simp add: prod_eq_iff)
        from Cons.prems(1) True False have "bootstrap_providers g ?I rs ?c1 (h @ [Bootstrap ?ty]) = (res, c', h')"
          by (simp add: Let_def was_overridden_def begin_provider_bootstrap_def r)
        note ih = Cons.IH [of ?c1, simplified, OF this d live1 [simplified], folded boot_types_def, unfolded boot Let_def]
        show ?thesis
        proof (cases res)
          case (Inr u)
          with ih True show ?thesis unfolding tys by (auto simp: Let_def)
        next
          case (Inl e)
          with ih obtain k where "k \<le> length (boot_types c ?I (map (type_of g) rs))"
            "rolled_back ?c1 (h @ [Bootstrap ?ty]) (map Bootstrap (take k (boot_types c ?I (map (type_of g) rs)))) c' h'"
            by auto
          with Inl show ?thesis
            unfolding tys by (auto simp: Let_def rolled_back_def intro!: exI [of _ "Suc k"])
        qed
      qed
    qed
  qed
qed

section \<open>Building an application container\<close>

text \<open>The overrides passed to startup are stored under the type of their definition.\<close>

definition keyed :: "overrides \<Rightarrow> bool" where
  "keyed ovs \<longleftrightarrow> (\<forall>ty pd. map_of ovs ty = Some pd \<longrightarrow> pd_type pd = ty)"

lemma keyed_Nil [simp]: "keyed []" by (simp add: keyed_def)

lemma keyed_insert: "keyed ovs \<Longrightarrow> keyed (overrides_insert ovs pd)"
  by (auto simp: keyed_def overrides_insert_def update_conv' split: if_splits)

lemma seeded:
  "services (seed_overrides ovs Container_new) ty =
     (if ty = logger_type then Some \<lparr>v_type = logger_type, v_data = 0\<rparr> else None)"
  "initialized_providers (seed_overrides ovs Container_new) = []"
  "applied_overrides (seed_overrides ovs Container_new) = {}"
  "bootstrapped_providers (seed_overrides ovs Container_new) = {}"
  "pending_overrides (seed_overrides ovs Container_new) = ovs"
  by (simp_all add: seed_overrides_def Container_new_def)

lemma seeded_ok:
  "keyed ovs \<Longrightarrow> overrides_ok (seed_overrides ovs Container_new)"
  "live g (seed_overrides ovs Container_new) (initialized_providers (seed_overrides ovs Container_new))"
  by (auto simp: overrides_ok_def keyed_def seeded live_def)

text \<open>The types that are built at startup, and those of them that are not replaced.\<close>

definition built_types :: "'m module_graph \<Rightarrow> registration list \<Rightarrow> type_id list" where
  "built_types g out = filter (\<lambda>ty. ty \<noteq> logger_type) (map (type_of g) out)"

definition production :: "overrides \<Rightarrow> type_id list \<Rightarrow> type_id list" where
  "production ovs tys = filter (\<lambda>ty. map_of ovs ty = None) tys"

lemma fresh_seeded: "fresh g (seed_overrides ovs Container_new) out = built_types g out"
  by (simp add: fresh_def built_types_def seeded)

lemma own_seeded: "own (seed_overrides ovs Container_new) tys = production ovs tys"
  by (simp add: own_def production_def seeded)

lemma order_in_definitions:
  assumes "discover_from prog root = Some (Inr g)" "preflight g co = Inr out"
  shows "distinct (map (type_of g) out)" "set out \<subseteq> set (definitions g)"
    "type_of g ` set out = declared_types g"
  using preflight_order_facts [OF assms] by blast+

abbreviation handler_calls :: "event_handler_def list \<Rightarrow> history" where
  "handler_calls ehs \<equiv> map (RegisterHandler \<circ> eh_type) ehs"

lemma initialize_graph_Inr:
  assumes i: "initialize_graph g c h = (Inr u, c', h')" and d: "discover_from prog root = Some (Inr g)"
    and ok: "overrides_ok c" "live g c (initialized_providers c)"
  obtains out where "preflight g (Some c) = Inr out" "init_post g c (fresh g c out) c'"
    "overrides_ok c'" "live g c' (initialized_providers c')"
    "h' = h @ init_calls (fresh g c out) @ handler_calls (graph_event_handlers g)"
    "completed_inits g c h (fresh g c out) c'"
proof -
  from i obtain out c1 h1 where o: "preflight g (Some c) = Inr out" and
    a: "initialize_providers g out c h = (Inr (), c1, h1)" and
    b: "register_event_handlers g (graph_event_handlers g) c1 h1 = (Inr u, c', h')"
    by (auto simp: initialize_graph_def split: sum.splits prod.splits)
  note od = order_in_definitions [OF d o]
  from initialize_providers_effect [OF a od(1,2) ok] have
    e: "init_post g c (fresh g c out) c1" "overrides_ok c1" "live g c1 (initialized_providers c1)"
      "h1 = h @ init_calls (fresh g c out)" "completed_inits g c h (fresh g c out) c1" by simp_all
  from register_event_handlers_effect [OF b e(3)] have "c' = c1"
    "h' = h1 @ handler_calls (graph_event_handlers g)" by simp_all
  with e o show thesis by (intro that [of out]) simp_all
qed

lemma initialize_graph_Inl:
  assumes i: "initialize_graph g c h = (Inl e, c', h')" and d: "discover_from prog root = Some (Inr g)"
    and ok: "overrides_ok c" "live g c (initialized_providers c)"
  shows "preflight g (Some c) = Inl e \<and> c' = c \<and> h' = h \<or>
    (\<exists>out. preflight g (Some c) = Inr out \<and>
       (failed_init g c (fresh g c out) h c' h' \<or>
        (\<exists>k cm. completed_inits g c h (fresh g c out) cm \<and> h' = h @ init_calls (fresh g c out) @ handler_calls (take k (graph_event_handlers g)) @
              map Shutdown (rev (initialized_providers c @ own c (fresh g c out))))))"
proof (cases "preflight g (Some c)")
  case (Inl e')
  with i show ?thesis by (simp add: initialize_graph_def)
next
  case (Inr out)
  note od = order_in_definitions [OF d Inr]
  obtain r1 c1 h1 where a: "initialize_providers g out c h = (r1, c1, h1)" by (metis prod_cases3)
  note eff = initialize_providers_effect [OF a od(1,2) ok]
  show ?thesis
  proof (cases r1)
    case (Inl e1)
    with i a Inr have "c' = c1" "h' = h1" by (auto simp: initialize_graph_def)
    with eff Inl Inr show ?thesis by auto
  next
    case r1: (Inr u)
    with i a Inr have b: "register_event_handlers g (graph_event_handlers g) c1 h1 = (Inl e, c', h')"
      by (simp add: initialize_graph_def)
    from eff r1 have e: "init_post g c (fresh g c out) c1" "live g c1 (initialized_providers c1)"
      "h1 = h @ init_calls (fresh g c out)" "completed_inits g c h (fresh g c out) c1" by simp_all
    from register_event_handlers_effect [OF b e(2)] obtain k where
      "h' = h1 @ handler_calls (take k (graph_event_handlers g)) @ map Shutdown (rev (initialized_providers c1))"
      by (auto simp: rolled_back_def)
    moreover from e(1) have "initialized_providers c1 = initialized_providers c @ own c (fresh g c out)"
      by (simp add: init_post_def)
    ultimately show ?thesis using Inr e(3,4) by auto
  qed
qed

lemma on_graph_Inr:
  "on_graph prog root c h f = Some (r, c', h') \<Longrightarrow> discover_from prog root = Some (Inr g) \<Longrightarrow>
   f g = (r, c', h')"
  by (simp add: on_graph_def)

text \<open>What a successful build of the application container has done.\<close>

definition built ::
    "'m module_graph \<Rightarrow> overrides \<Rightarrow> registration list \<Rightarrow> registration list \<Rightarrow> container \<Rightarrow> history \<Rightarrow> bool" where
  "built g ovs out out' c h \<longleftrightarrow>
     h = init_calls (built_types g out) @ handler_calls (graph_event_handlers g) @
         map Bootstrap (production ovs (built_types g out')) \<and>
     initialized_providers c = production ovs (built_types g out) \<and>
     dom (services c) = insert logger_type (declared_types g)"

lemma build_container_Inr:
  assumes b: "build_container_with_overrides prog root ovs = Some (Inr c, h)" and k: "keyed ovs"
  obtains g out out' c1 where
    "discover_from prog root = Some (Inr g)"
    "preflight g (Some (seed_overrides ovs Container_new)) = Inr out"
    "preflight g (Some c1) = Inr out'" "services c1 = services c" "pending_overrides c1 = []"
    "built g ovs out out' c h" "live g c (initialized_providers c)"
proof -
  let ?c0 = "seed_overrides ovs Container_new"
  from b obtain c1 h1 where
    r: "register_module prog root ?c0 [] = Some (Inr (), c1, h1)" and
    pend: "assert_no_unused_overrides c1 = Inr ()" and
    boot: "bootstrap_module prog root c1 h1 = Some (Inr (), c, h)"
    by (auto simp: build_container_with_overrides_def finish_build_def and_then_def
        split: option.splits sum.splits prod.splits)
  from r obtain g where d: "discover_from prog root = Some (Inr g)" and
    i: "initialize_graph g ?c0 [] = (Inr (), c1, h1)"
    by (auto simp: register_module_def on_graph_def split: option.splits sum.splits)
  from initialize_graph_Inr [OF i d seeded_ok(1) [OF k] seeded_ok(2)] obtain out where
    o: "preflight g (Some ?c0) = Inr out" and post: "init_post g ?c0 (built_types g out) c1" and
    live1: "live g c1 (initialized_providers c1)" and
    h1: "h1 = init_calls (built_types g out) @ handler_calls (graph_event_handlers g)"
    unfolding fresh_seeded by auto
  from boot d obtain out' where o': "preflight g (Some c1) = Inr out'" and
    bp: "bootstrap_providers g (set (initialized_providers c1)) out' c1 h1 = (Inr (), c, h)"
    by (auto simp: bootstrap_module_def on_graph_def bootstrap_graph_def split: sum.splits)
  note od = order_in_definitions [OF d o] and od' = order_in_definitions [OF d o']
  from bootstrap_providers_effect [OF bp od'(1) live1] have
    s: "services c = services c1" "initialized_providers c = initialized_providers c1" and
    h: "h = h1 @ map Bootstrap (boot_types c1 (set (initialized_providers c1)) (map (type_of g) out'))"
    by (simp_all add: Let_def)
  have init1: "initialized_providers c1 = production ovs (built_types g out)"
    using post by (simp add: init_post_def own_seeded seeded)
  have app1: "applied_overrides c1 = {ty \<in> set (built_types g out). map_of ovs ty \<noteq> None}"
    "bootstrapped_providers c1 = {}"
    using post by (simp_all add: init_post_def seeded)
  have "set (built_types g out) = declared_types g - {logger_type}"
    using od(3) by (auto simp: built_types_def)
  moreover have "type_of g ` set out' = declared_types g" by (rule od'(3))
  ultimately have "boot_types c1 (set (initialized_providers c1)) (map (type_of g) out') =
      production ovs (built_types g out')"
    unfolding boot_types_def init1 app1 production_def built_types_def filter_filter
    by (intro filter_cong) auto
  moreover have "dom (services c1) = insert logger_type (declared_types g)"
    using post \<open>set (built_types g out) = _\<close> by (auto simp: init_post_def seeded dom_def split: if_splits)
  ultimately have "built g ovs out out' c h" using h h1 init1 s by (simp add: built_def)
  moreover have "pending_overrides c1 = []"
    using pend by (simp add: assert_no_unused_overrides_def Let_def split: if_splits)
  ultimately show thesis
    using d o o' s live1 by (intro that [of g out c1 out']) (simp_all add: live_def)
qed

text \<open>An order of all declared provider types, each at one of its registrations, in which everything
  that a provider depends on (besides the logger) stands before it.\<close>

definition dependency_order :: "'m module_graph \<Rightarrow> container option \<Rightarrow> registration list \<Rightarrow> bool" where
  "dependency_order g co out \<longleftrightarrow>
     set out \<subseteq> set (definitions g) \<and> distinct (map (type_of g) out) \<and>
     type_of g ` set out = declared_types g \<and>
     (\<forall>k<length out. needs g co (out ! k) \<subseteq> type_of g ` set (take k out))"

lemma preflight_dependency_order:
  assumes d: "discover_from prog root = Some (Inr g)" and p: "preflight g (Some c) = Inr out"
    and dom: "dom (services c) \<subseteq> insert logger_type (declared_types g)"
  shows "dependency_order g (Some c) out"
proof -
  note facts = preflight_order_facts [OF d p]
  have "needs g (Some c) (out ! k) \<subseteq> type_of g ` set (take k out)" if k: "k < length out" for k
  proof -
    from k facts have r: "out ! k \<in> set (definitions g)" using nth_mem by blast
    have "needs g (Some c) (out ! k) \<subseteq> declared_types g"
    proof
      fix ty assume n: "ty \<in> needs g (Some c) (out ! k)"
      then have "ty \<noteq> logger_type" by (simp add: needs_def)
      with dependencies_available [OF d p r n] dom show "ty \<in> declared_types g"
        by (auto simp: container_has_def contains_type_id_def)
    qed
    with facts k show ?thesis by blast
  qed
  with facts show ?thesis by (simp add: dependency_order_def)
qed

text \<open>C1: when building an application succeeds, the framework has called the application exactly as
  follows. Every declared provider, at one registration of its type, is built and then initialized,
  in an order in which everything that its effective definition (the replacement where there is one)
  depends on comes first; then the event handlers are registered in declaration order; then every
  provider that is not replaced is bootstrapped, in an order in which everything that it declares as
  a dependency comes first. Each declared type and the logger are in the container, and the
  providers to shut down are those that are not replaced.\<close>

theorem startup_calls:
  assumes "build_container_with_overrides prog root ovs = Some (Inr c, h)" and "keyed ovs"
  shows "\<exists>g out out'.
    discover_from prog root = Some (Inr g) \<and>
    dependency_order g (Some (seed_overrides ovs Container_new)) out \<and> dependency_order g None out' \<and>
    h = init_calls (built_types g out) @ handler_calls (graph_event_handlers g) @
        map Bootstrap (production ovs (built_types g out')) \<and>
    initialized_providers c = production ovs (built_types g out) \<and>
    dom (services c) = insert logger_type (declared_types g)"
proof -
  from build_container_Inr [OF assms] obtain g out out' c1 where
    d: "discover_from prog root = Some (Inr g)" and
    p: "preflight g (Some (seed_overrides ovs Container_new)) = Inr out" "preflight g (Some c1) = Inr out'" and
    c1: "services c1 = services c" "pending_overrides c1 = []" and
    b: "built g ovs out out' c h" by metis
  have "dependency_order g (Some (seed_overrides ovs Container_new)) out"
    by (rule preflight_dependency_order [OF d p(1)]) (auto simp: seeded split: if_splits)
  moreover have "dependency_order g (Some c1) out'"
    by (rule preflight_dependency_order [OF d p(2)]) (use b c1(1) in \<open>auto simp: built_def\<close>)
  then have "dependency_order g None out'"
    by (simp add: dependency_order_def needs_def effective_def pending_override_def c1(2))
  ultimately show ?thesis using d b unfolding built_def by blast
qed

lemma container_built:
  assumes "build_container_with_overrides prog root ovs = Some (Inr c, h)" and "keyed ovs"
  obtains g where "discover_from prog root = Some (Inr g)" "live g c (initialized_providers c)"
    "distinct (initialized_providers c)"
proof -
  from build_container_Inr [OF assms] obtain g out out' where
    d: "discover_from prog root = Some (Inr g)" and
    o: "preflight g (Some (seed_overrides ovs Container_new)) = Inr out" and
    b: "built g ovs out out' c h" and live: "live g c (initialized_providers c)" by metis
  have "distinct (initialized_providers c)"
    using b order_in_definitions(1) [OF d o] by (simp add: built_def production_def built_types_def)
  with that [OF d live] show ?thesis by blast
qed

lemma client_built:
  assumes "build_container_with_setup prog root (register_instance ty v) = Some (Inr c, h)"
  obtains g where "discover_from prog root = Some (Inr g)" "live g c (initialized_providers c)"
    "distinct (initialized_providers c)"
proof -
  let ?c0 = "register_instance ty v Container_new"
  from assms obtain c1 h1 where
    r: "register_module prog root ?c0 [] = Some (Inr (), c1, h1)" and
    boot: "bootstrap_module prog root c1 h1 = Some (Inr (), c, h)"
    by (auto simp: build_container_with_setup_def finish_build_def split: option.splits sum.splits prod.splits)
  from r obtain g where d: "discover_from prog root = Some (Inr g)" and
    i: "initialize_graph g ?c0 [] = (Inr (), c1, h1)"
    by (auto simp: register_module_def on_graph_def split: option.splits sum.splits)
  have ok: "overrides_ok ?c0" "live g ?c0 (initialized_providers ?c0)"
    "initialized_providers ?c0 = []"
    by (auto simp: overrides_ok_def live_def register_instance_def Container_new_def)
  from initialize_graph_Inr [OF i d ok(1,2)] obtain out where o: "preflight g (Some ?c0) = Inr out"
    and post: "init_post g ?c0 (fresh g ?c0 out) c1" and live1: "live g c1 (initialized_providers c1)" by metis
  from boot d obtain out' where o': "preflight g (Some c1) = Inr out'" and
    bp: "bootstrap_providers g (set (initialized_providers c1)) out' c1 h1 = (Inr (), c, h)"
    by (auto simp: bootstrap_module_def on_graph_def bootstrap_graph_def split: sum.splits)
  from bootstrap_providers_effect [OF bp order_in_definitions(1) [OF d o'] live1] have
    "services c = services c1" "initialized_providers c = initialized_providers c1" by (simp_all add: Let_def)
  moreover have "distinct (initialized_providers c1)"
    using post order_in_definitions(1) [OF d o] by (simp add: init_post_def ok(3) own_def fresh_def)
  ultimately show ?thesis using that [OF d] live1 by (simp add: live_def)
qed

lemma shutdown_built:
  assumes "discover_from prog root = Some (Inr g)" "live g c (initialized_providers c)"
  shows "\<exists>r. shutdown_module prog root c h =
    Some (r, c\<lparr>initialized_providers := []\<rparr>, h @ map Shutdown (rev (initialized_providers c)))"
proof -
  let ?c' = "c\<lparr>initialized_providers := []\<rparr>"
  have "live g ?c' (rev (initialized_providers c))" using assms(2) by (simp add: live_def)
  from shutdown_types_history [OF this, of h] show ?thesis
    by (cases "shutdown_types g ?c' (rev (initialized_providers c)) h")
      (simp add: shutdown_module_def on_graph_def assms(1) take_initialized_providers_def)
qed

text \<open>C5: shutting down a built application calls the shutdown hooks of the providers that were
  initialized and not replaced, each once, in the reverse of the order of initialization, whatever
  the hooks return; a second shutdown calls nothing.\<close>

theorem shutdown_reverses_startup:
  assumes "build_container_with_overrides prog root ovs = Some (Inr c, h)" and "keyed ovs"
  shows "\<exists>r c'. shutdown_module prog root c h2 =
      Some (r, c', h2 @ map Shutdown (rev (initialized_providers c))) \<and>
    distinct (initialized_providers c) \<and>
    shutdown_module prog root c' h3 = Some (Inr (), c', h3)"
proof -
  from container_built [OF assms] obtain g where d: "discover_from prog root = Some (Inr g)"
    and live: "live g c (initialized_providers c)" and "distinct (initialized_providers c)" by blast
  moreover have "shutdown_module prog root (c\<lparr>initialized_providers := []\<rparr>) h3 =
      Some (Inr (), c\<lparr>initialized_providers := []\<rparr>, h3)"
    by (simp add: shutdown_module_def on_graph_def d take_initialized_providers_def)
  ultimately show ?thesis using shutdown_built [OF d live, of h2] by blast
qed

section \<open>Failed startups\<close>

text \<open>The calls of a failed startup: the providers whose initialization was completed, each built and
  then initialized; then either the calls of the one that failed, or those of event handlers and
  bootstrap hooks; then the shutdown, in reverse order, of exactly the production providers whose
  initialization was completed.\<close>

definition clean_failure :: "'m module_graph \<Rightarrow> overrides \<Rightarrow> history \<Rightarrow> bool" where
  "clean_failure g ovs h \<longleftrightarrow>
     (\<exists>tys c calls. completed_inits g (seed_overrides ovs Container_new) [] tys c \<and>
        ((\<exists>ty. failing_init g c (init_calls tys) ty calls) \<or>
         (\<exists>ehs started. calls = handler_calls ehs @ map Bootstrap started)) \<and>
        h = init_calls tys @ calls @ map Shutdown (rev (production ovs tys)))"

lemma clean_failure_later:
  "completed_inits g (seed_overrides ovs Container_new) [] tys c \<Longrightarrow>
   h = init_calls tys @ (handler_calls ehs @ map Bootstrap started) @ map Shutdown (rev (production ovs tys)) \<Longrightarrow>
   clean_failure g ovs h"
  unfolding clean_failure_def by blast

lemma failed_init_clean:
  assumes "failed_init g (seed_overrides ovs Container_new) tys [] c' h'"
  shows "clean_failure g ovs h'"
  using assms unfolding failed_init_def clean_failure_def seeded own_seeded append_Nil by blast

text \<open>C2: when building an application fails, either the module graph could not be discovered and
  nothing was called, or the calls are a clean failure: exactly the production providers whose
  constructor returned a value and whose init hook accepted it have been shut down, in reverse
  order, after all other calls. A provider whose constructor or init hook failed is not among them.\<close>

theorem failed_startup_rolls_back:
  assumes "build_container_with_overrides prog root ovs = Some (Inl e, h)" and "keyed ovs"
  shows "case discover_from prog root of
      Some (Inr g) \<Rightarrow> clean_failure g ovs h
    | _ \<Rightarrow> h = []"
proof -
  let ?c0 = "seed_overrides ovs Container_new"
  have no_calls: "clean_failure g ovs []" for g :: "'a module_graph"
    by (rule clean_failure_later [where tys = "[]" and ehs = "[]" and started = "[]", OF no_inits]) (simp_all add: production_def init_calls_def)
  show ?thesis
  proof (cases "discover_from prog root")
    case None
    with assms(1) show ?thesis
      by (simp add: build_container_with_overrides_def finish_build_def register_module_def on_graph_def)
  next
    case (Some gr)
    show ?thesis
    proof (cases gr)
      case (Inl e')
      with assms(1) Some have "h = []"
        by (auto simp: build_container_with_overrides_def finish_build_def register_module_def on_graph_def)
      with Some Inl show ?thesis by simp
    next
      case (Inr g)
      with Some have d: "discover_from prog root = Some (Inr g)" by simp
      obtain r1 c1 h1 where i: "initialize_graph g ?c0 [] = (r1, c1, h1)" by (metis prod_cases3)
      have reg: "register_module prog root ?c0 [] = Some (r1, c1, h1)"
        by (simp add: register_module_def on_graph_def d i)
      have "clean_failure g ovs h"
      proof (cases r1)
        case (Inl e1)
        with assms(1) reg have "h = h1"
          by (simp add: build_container_with_overrides_def finish_build_def)
        moreover from initialize_graph_Inl [OF i [unfolded Inl] d seeded_ok(1) [OF assms(2)] seeded_ok(2)]
        consider "h1 = []" | tys where "failed_init g ?c0 tys [] c1 h1"
          | tys cm k where "completed_inits g ?c0 [] tys cm"
              "h1 = init_calls tys @ handler_calls (take k (graph_event_handlers g)) @
                 map Shutdown (rev (production ovs tys))"
          unfolding seeded own_seeded append_Nil by blast
        then have "clean_failure g ovs h1"
        proof cases
          case 3
          then show ?thesis
            by (intro clean_failure_later [where started = "[]"]) auto
        qed (use no_calls failed_init_clean in auto)
        ultimately show ?thesis by simp
      next
        case (Inr u)
        from initialize_graph_Inr [OF i [unfolded Inr] d seeded_ok(1) [OF assms(2)] seeded_ok(2)]
        obtain out where
          post: "init_post g ?c0 (built_types g out) c1" and
          live1: "live g c1 (initialized_providers c1)" and
          h1: "h1 = init_calls (built_types g out) @ handler_calls (graph_event_handlers g)" and
          inits: "completed_inits g ?c0 [] (built_types g out) c1"
          unfolding fresh_seeded by auto
        have init1: "initialized_providers c1 = production ovs (built_types g out)"
          using post by (simp add: init_post_def own_seeded seeded)
        let ?checks = "and_then (Some (assert_no_unused_overrides c1)) (\<lambda>_.
            and_then (validate_module_providers prog root c1) (\<lambda>_. validate_gateway_paths prog root))"
        have fin: "build_container_with_overrides prog root ovs =
          (case ?checks of
             None \<Rightarrow> None
           | Some (Inl e) \<Rightarrow> Some (Inl e, snd (rollback_graph g c1 h1))
           | Some (Inr _) \<Rightarrow>
               (case bootstrap_graph g c1 h1 of
                  (Inl e, c', h') \<Rightarrow> Some (Inl e, h') | (Inr _, c', h') \<Rightarrow> Some (Inr c', h')))"
          by (simp add: build_container_with_overrides_def finish_build_def reg Inr d bootstrap_module_def
              on_graph_def split: option.splits sum.splits prod.splits)
        show ?thesis
        proof (cases "\<exists>u. ?checks = Some (Inr u)")
          case False
          with assms(1) fin have "h = snd (rollback_graph g c1 h1)"
            by (auto split: option.splits sum.splits)
          then have "h = h1 @ map Shutdown (rev (production ovs (built_types g out)))"
            using rollback_graph_live [OF live1] init1 by simp
          with h1 show ?thesis
            by (intro clean_failure_later [OF inits, where started = "[]"]) auto
        next
          case True
          then obtain out' where o': "preflight g (Some c1) = Inr out'"
            by (auto simp: and_then_def validate_module_providers_def with_graph_def d bind_result_Inr
                split: option.splits sum.splits)
          from True fin assms(1) obtain c2 where
            "bootstrap_graph g c1 h1 = (Inl e, c2, h)"
            by (auto split: sum.splits prod.splits)
          with o' have "bootstrap_providers g (set (initialized_providers c1)) out' c1 h1 = (Inl e, c2, h)"
            by (simp add: bootstrap_graph_def)
          from bootstrap_providers_effect [OF this order_in_definitions(1) [OF d o'] live1] obtain tys where
            "h = h1 @ map Bootstrap tys @ map Shutdown (rev (initialized_providers c1))"
            by (auto simp: Let_def rolled_back_def)
          with h1 init1 show ?thesis
            by (intro clean_failure_later [OF inits]) auto
        qed
      qed
      with d show ?thesis by simp
    qed
  qed
qed

end
