(* ===== verification/Startup.thy ===== *)
theory Startup
  imports LifecycleLaws
begin

text \<open>
  Liveness of startup: after a successful preflight the framework itself never makes the
  initialization fail. And a case where the second validation at the end of startup rejects an
  application that the first one accepted.
\<close>

section \<open>Application code that only fails when it cannot resolve\<close>

definition cooperative :: "provider_def \<Rightarrow> bool" where
  "cooperative pd \<longleftrightarrow>
     (\<forall>h rs. (\<forall>d\<in>set (pd_deps pd). is_ok (rs (dep_type d) (dep_name d))) \<longrightarrow>
        (\<exists>v. pd_build pd h rs = Inr v \<and> v_type v = pd_type pd)) \<and>
     (\<forall>h v. v_type v = pd_type pd \<longrightarrow> is_ok (pd_init pd h v))"

definition cooperative_handler :: "event_handler_def \<Rightarrow> bool" where
  "cooperative_handler eh \<longleftrightarrow>
     (\<forall>h rs. (\<exists>n. is_ok (rs (eh_type eh) n)) \<and> (\<exists>n. is_ok (rs event_bus_type n)) \<longrightarrow>
        is_ok (eh_register eh h rs))"

definition typed :: "container \<Rightarrow> bool" where
  "typed c \<longleftrightarrow> (\<forall>ty v. services c ty = Some v \<longrightarrow> v_type v = ty)"

lemma resolve_scoped_ok:
  assumes "typed c" "services c ty \<noteq> None" "ty = logger_type \<or> ty \<in> dep_type ` set deps"
  shows "is_ok (resolve (scoped_for_provider c name deps) ty n)"
  using assms resolve_scoped [of ty deps c] by (auto simp: typed_def)

definition all_deps :: "provider_def \<Rightarrow> type_id set" where
  "all_deps pd = dep_type ` set (pd_deps pd)"

text \<open>What remains to be initialized can be: each dependency is in the container or comes earlier.\<close>

definition startable :: "'m module_graph \<Rightarrow> container \<Rightarrow> registration list \<Rightarrow> bool" where
  "startable g c rs \<longleftrightarrow>
     overrides_ok c \<and> typed c \<and> distinct (map (type_of g) rs) \<and>
     (\<forall>r\<in>set rs. cooperative (effective (Some c) (def_of g r))) \<and>
     (\<forall>i<length rs. all_deps (effective (Some c) (def_of g (rs ! i))) \<subseteq>
        dom (services c) \<union> type_of g ` set (take i rs))"

lemma effective_after:
  assumes "init_post g c [ty] c1" "pd_type pd \<noteq> ty"
  shows "effective (Some c1) pd = effective (Some c) pd"
  using assms by (simp add: effective_def pending_override_def init_post_def)

lemma startable_tail:
  assumes "startable g c (r # rs)" "type_of g r \<in> dom (services c1)" "dom (services c) \<subseteq> dom (services c1)"
    and "\<And>r'. r' \<in> set rs \<Longrightarrow> effective (Some c1) (def_of g r') = effective (Some c) (def_of g r')"
    and "overrides_ok c1" "typed c1"
  shows "startable g c1 rs"
proof -
  have "all_deps (effective (Some c1) (def_of g (rs ! i))) \<subseteq>
        dom (services c1) \<union> type_of g ` set (take i rs)" if i: "i < length rs" for i
  proof -
    have "all_deps (effective (Some c) (def_of g ((r # rs) ! Suc i))) \<subseteq>
        dom (services c) \<union> type_of g ` set (take (Suc i) (r # rs))"
      using assms(1) i unfolding startable_def by (metis Suc_less_eq length_Cons)
    then have "all_deps (effective (Some c1) (def_of g (rs ! i))) \<subseteq>
        insert (type_of g r) (dom (services c) \<union> type_of g ` set (take i rs))"
      by (simp add: assms(4) [OF nth_mem [OF i]])
    with assms(2,3) show ?thesis by blast
  qed
  with assms(1,4-6) show ?thesis by (simp add: startable_def)
qed

lemma initialize_providers_succeeds:
  "startable g c rs \<Longrightarrow> \<exists>c' h'. initialize_providers g rs c h = (Inr (), c', h') \<and> typed c'"
proof (induction rs arbitrary: c h)
  case Nil
  then show ?case by (simp add: startable_def)
next
  case (Cons r rs)
  let ?ty = "type_of g r"
  have ok: "overrides_ok c" "typed c" "distinct (map (type_of g) (r # rs))"
    using Cons.prems by (simp_all add: startable_def)
  show ?case
  proof (cases "services c ?ty")
    case (Some v)
    let ?c1 = "mark_provider_declared ?ty c"
    have "startable g ?c1 rs"
      by (rule startable_tail [OF Cons.prems])
        (use Some ok in \<open>auto simp: container_ops effective_def pending_override_def overrides_ok_def typed_def\<close>)
    from Cons.IH [OF this] show ?thesis
      using initialize_providers_skip [of c g r rs h] Some by simp
  next
    case None
    let ?eff = "effective (Some c) (def_of g r)"
    let ?scoped = "scoped_for_provider (before_build ?ty c) (pd_name ?eff) (pd_deps ?eff)"
    have coop: "cooperative ?eff" using Cons.prems by (simp add: startable_def)
    have "all_deps ?eff \<subseteq> dom (services c)"
    proof -
      have "\<forall>i<length (r # rs). all_deps (effective (Some c) (def_of g ((r # rs) ! i))) \<subseteq>
          dom (services c) \<union> type_of g ` set (take i (r # rs))"
        using Cons.prems unfolding startable_def by blast
      from this [rule_format, of 0] show ?thesis by simp
    qed
    then have "\<forall>d\<in>set (pd_deps ?eff). is_ok (resolve ?scoped (dep_type d) (dep_name d))"
      using ok(2) by (auto intro!: resolve_scoped_ok simp: typed_def all_deps_def)
    with coop obtain v where v: "pd_build ?eff h (resolve ?scoped) = Inr v" "v_type v = pd_type ?eff"
      unfolding cooperative_def by blast
    with effective_type [OF ok(1)] have vt: "v_type v = ?ty" by simp
    have "is_ok (pd_init ?eff (h @ [Build ?ty]) v)" using coop v(2) unfolding cooperative_def by blast
    then have init: "run_lifecycle ?eff v ''on_module_init'' (pd_init ?eff) (h @ [Build ?ty]) = Inr ()"
      by (cases "pd_init ?eff (h @ [Build ?ty]) v") (simp_all add: run_lifecycle_def)
    let ?c1 = "after_init ?ty v c"
    have post: "init_post g c [?ty] ?c1" by (rule after_init_post [OF None])
    have serv: "services ?c1 = (services c)(?ty \<mapsto> v)"
      by (simp add: after_init_def Let_def register_erased_def record_initialized_provider_def)
    have "startable g ?c1 rs"
    proof (rule startable_tail [OF Cons.prems])
      show "effective (Some ?c1) (def_of g r') = effective (Some c) (def_of g r')" if "r' \<in> set rs" for r'
        using ok(3) that by (intro effective_after [OF post]) (auto simp: image_iff)
    qed (use overrides_ok_after [OF post ok(1)] ok(2) vt serv in \<open>auto simp: typed_def\<close>)
    from Cons.IH [OF this] show ?thesis
      unfolding initialize_providers_step [OF None ok(1) refl refl refl] by (simp add: v(1) init)
  qed
qed

lemma register_event_handlers_succeeds:
  "\<forall>eh\<in>set ehs. \<forall>h. is_ok (eh_register eh h (resolve c)) \<Longrightarrow>
   \<exists>h'. register_event_handlers g ehs c h = (Inr (), c, h')"
proof (induction ehs arbitrary: h)
  case Nil
  then show ?case by simp
next
  case (Cons eh ehs)
  then have "is_ok (eh_register eh h (resolve c))" by simp
  then obtain u where "eh_register eh h (resolve c) = Inr u"
    by (cases "eh_register eh h (resolve c)") auto
  with Cons.IH Cons.prems show ?case by (simp add: Let_def)
qed

section \<open>Startup succeeds\<close>

lemma graph_event_handlers_node:
  "eh \<in> set (graph_event_handlers g) \<Longrightarrow>
   \<exists>m<length g. eh \<in> set (md_event_handlers (mn_metadata (g ! m)))"
  unfolding graph_event_handlers_def by (force simp: in_set_conv_nth)

text \<open>C3: once preflight has accepted a graph, initialization cannot fail by the framework's own
  doing: if each constructor succeeds whenever its declared dependencies resolve, the init hooks
  succeed, and each event handler registers whenever itself and the event bus resolve, then
  initialization succeeds. So declared dependencies are always constructed in time.\<close>

theorem startup_succeeds:
  assumes d: "discover_from prog root = Some (Inr g)" and p: "preflight g (Some c) = Inr out"
    and c: "overrides_ok c" "typed c" "services c logger_type \<noteq> None" "dependency_scope c = None"
      "live g c (initialized_providers c)"
    and coop: "\<forall>r\<in>set (definitions g). cooperative (effective (Some c) (def_of g r))"
    and ehs: "\<forall>eh\<in>set (graph_event_handlers g). cooperative_handler eh"
  shows "\<exists>c' h'. initialize_graph g c h = (Inr (), c', h')"
proof -
  note facts = preflight_order_facts [OF d p]
  have "startable g c out"
    unfolding startable_def
  proof (intro conjI ballI allI impI)
    fix i assume i: "i < length out"
    then have r: "out ! i \<in> set (definitions g)" using facts nth_mem by blast
    show "all_deps (effective (Some c) (def_of g (out ! i))) \<subseteq>
        dom (services c) \<union> type_of g ` set (take i out)"
    proof
      fix ty assume ty: "ty \<in> all_deps (effective (Some c) (def_of g (out ! i)))"
      show "ty \<in> dom (services c) \<union> type_of g ` set (take i out)"
      proof (cases "ty = logger_type")
        case True
        with c(3) show ?thesis by auto
      next
        case False
        with ty have n: "ty \<in> needs g (Some c) (out ! i)" by (simp add: needs_def all_deps_def)
        from dependencies_available [OF d p r n] show ?thesis
        proof
          assume "ty \<in> declared_types g \<and> visible_in g (rg_module (out ! i)) ty"
          with facts i n show ?thesis by blast
        next
          assume "ty \<notin> declared_types g \<and> container_has (Some c) ty"
          then show ?thesis by (auto simp: container_has_def contains_type_id_def)
        qed
      qed
    qed
  qed (use c coop facts in auto)
  from initialize_providers_succeeds [OF this, of h] obtain c' h' where
    i: "initialize_providers g out c h = (Inr (), c', h')" and t: "typed c'" by blast
  note od = order_in_definitions [OF d p]
  from initialize_providers_effect [OF i od(1,2) c(1,5)] have
    post: "init_post g c (fresh g c out) c'" by simp
  have dom: "dom (services c') = dom (services c) \<union> declared_types g"
    using post od(3) unfolding init_post_def fresh_def by auto
  have res: "is_ok (resolve c' ty n)" if "ty \<in> declared_types g" for ty n
  proof -
    from that dom obtain v where "services c' ty = Some v" by blast
    moreover have "dependency_scope c' = None" using post c(4) by (simp add: init_post_def)
    ultimately show ?thesis using t by (simp add: resolve_def typed_def)
  qed
  have "\<forall>eh\<in>set (graph_event_handlers g). \<forall>h. is_ok (eh_register eh h (resolve c'))"
  proof (intro ballI allI)
    fix eh h assume eh: "eh \<in> set (graph_event_handlers g)"
    from graph_event_handlers_node [OF eh] obtain m where
      m: "m < length g" "eh \<in> set (md_event_handlers (mn_metadata (g ! m)))" by blast
    from d discover_cases [of prog root] have "imports_below g"
      by (auto intro: graph_of_imports_below)
    from preflight_Inr [OF p this] m have "eh_type eh \<in> local_types g m" "visible_in g m event_bus_type"
      by metis+
    with m(1) local_types_declared visible_declared [OF d p] have
      "eh_type eh \<in> declared_types g" "event_bus_type \<in> declared_types g" by blast+
    with res ehs eh show "is_ok (eh_register eh h (resolve c'))"
      unfolding cooperative_handler_def by blast
  qed
  from register_event_handlers_succeeds [OF this, where h = h' and g = g] show ?thesis
    by (auto simp: initialize_graph_def p i)
qed

section \<open>Replaced providers\<close>

lemma replaced_deps:
  assumes "build_container_with_overrides prog root ovs = Some (Inr c, h)" and "keyed ovs"
  shows "\<exists>g. discover_from prog root = Some (Inr g) \<and>
    (\<forall>r\<in>set (definitions g). \<forall>ty\<in>all_deps (def_of g r) - {logger_type}.
       ty \<in> declared_types g \<and> visible_in g (rg_module r) ty)"
proof -
  from build_container_Inr [OF assms] obtain g out out' c1 where
    d: "discover_from prog root = Some (Inr g)" and p: "preflight g (Some c1) = Inr out'" and
    s: "services c1 = services c" and pend: "pending_overrides c1 = []" and
    b: "built g ovs out out' c h" by metis
  have eff: "effective (Some c1) pd = pd" for pd
    by (simp add: effective_def pending_override_def pend)
  have "ty \<in> declared_types g \<and> visible_in g (rg_module r) ty"
    if r: "r \<in> set (definitions g)" and ty: "ty \<in> all_deps (def_of g r) - {logger_type}" for r ty
  proof -
    from ty have "ty \<in> needs g (Some c1) r" by (simp add: needs_def all_deps_def eff)
    from dependencies_available [OF d p r this] show ?thesis
    proof
      assume "ty \<notin> declared_types g \<and> container_has (Some c1) ty"
      then have "ty \<in> dom (services c)" "ty \<notin> declared_types g"
        by (auto simp: container_has_def contains_type_id_def s)
      with b ty show ?thesis by (auto simp: built_def)
    qed
  qed
  with d show ?thesis by blast
qed

text \<open>A built application also has the dependencies that the replaced providers had before they
  were replaced: the second validation at the end of startup, when the overrides have been
  consumed, checks the original dependencies again, although the first one checked those of the
  overrides. So an override cannot remove a dependency that nobody declares.\<close>

theorem replaced_dependencies_still_required:
  assumes "build_container_with_overrides prog root ovs = Some (Inr c, h)" and "keyed ovs"
  shows "\<exists>g. discover_from prog root = Some (Inr g) \<and>
    (\<forall>r\<in>set (definitions g). \<forall>ty\<in>all_deps (def_of g r) - {logger_type}.
       ty \<in> declared_types g \<and> visible_in g (rg_module r) ty)"
  by (rule replaced_deps [OF assms])

text \<open>The service of this program depends on a client that no module declares; the test replaces the
  service by an instance without dependencies.\<close>

definition client_dep :: provider_dependency where
  "client_dep = \<lparr>dep_type = 99, dep_name = ''Client''\<rparr>"

definition mock_program :: "unit program" where
  "mock_program m =
     \<lparr>mod_name = ''App'',
      mod_register = ModuleMetadata_new\<lparr>md_providers := [plain_provider 11 ''Service'' [client_dep]]\<rparr>\<rparr>"

definition mock_overrides :: overrides where
  "mock_overrides = overrides_insert_instance [] 11 ''Service'' 7"

definition mock_graph :: "unit module_graph" where
  "mock_graph =
     [\<lparr>mn_type = (), mn_name = ''App'', mn_metadata = mod_register (mock_program ()), mn_imports = []\<rparr>]"

lemma mock_discovered: "discover_from mock_program () = Some (Inr mock_graph)"
  by (simp add: discover_from_def remap_of_def Let_def mock_graph_def mock_program_def ModuleMetadata_new_def)

definition mock_registration :: registration where
  "mock_registration = \<lparr>rg_module = 0, rg_slot = SlotProvider 0\<rparr>"

lemma mock_definitions: "definitions mock_graph = [mock_registration]"
  by (simp add: definitions_def mock_graph_def mock_program_def ModuleMetadata_new_def mock_registration_def)

lemma mock_def_of: "def_of mock_graph mock_registration = plain_provider 11 ''Service'' [client_dep]"
  by (simp add: def_of_def mock_graph_def mock_program_def ModuleMetadata_new_def mock_registration_def)

lemma mock_preflight:
  "preflight mock_graph (Some (seed_overrides mock_overrides Container_new)) = Inr [mock_registration]"
proof -
  have len: "length mock_graph = 1" by (simp add: mock_graph_def)
  have en: "enumerate 0 mock_graph = [(0, mock_graph ! 0)]" by (simp add: mock_graph_def)
  have md: "md_exports (mn_metadata (mock_graph ! 0)) = []"
    "md_event_handlers (mn_metadata (mock_graph ! 0)) = []" "node_handlers (mock_graph ! 0) = []"
    by (simp_all add: mock_graph_def mock_program_def ModuleMetadata_new_def node_handlers_def)
  have eff: "effective (Some (seed_overrides mock_overrides Container_new))
      (plain_provider 11 ''Service'' [client_dep]) = ProviderDef_instance 11 ''Service'' 7"
    by (simp add: effective_def pending_override_def seed_overrides_def mock_overrides_def
        overrides_insert_instance_def plain_provider_def)
  have deps: "pd_deps (ProviderDef_instance 11 ''Service'' 7) = []" by (simp add: ProviderDef_instance_def)
  show ?thesis
    unfolding preflight_def mock_definitions len en
    by (simp add: mock_def_of eff deps Let_def local_types_def mock_definitions md map_filter_simps)
qed

text \<open>The first validation accepts the program with the override, and yet the application cannot
  be built with it, whatever the replaced instance is.\<close>

theorem override_accepted_then_rejected:
  "is_ok (preflight mock_graph (Some (seed_overrides mock_overrides Container_new))) \<and>
   (\<forall>c h. build_container_with_overrides mock_program () mock_overrides \<noteq> Some (Inr c, h))"
proof -
  have k: "keyed mock_overrides"
    by (simp add: keyed_def mock_overrides_def overrides_insert_instance_def ProviderDef_instance_def)
  have "\<not> (\<forall>r\<in>set (definitions mock_graph). \<forall>ty\<in>all_deps (def_of mock_graph r) - {logger_type}.
       ty \<in> declared_types mock_graph \<and> visible_in mock_graph (rg_module r) ty)"
    by (simp add: mock_definitions mock_def_of all_deps_def plain_provider_def client_dep_def
        logger_type_def declared_types_def)
  then have "build_container_with_overrides mock_program () mock_overrides \<noteq> Some (Inr c, h)" for c h
    using replaced_deps [OF _ k, of mock_program "()"] mock_discovered by fastforce
  then show ?thesis by (simp add: mock_preflight)
qed

section \<open>The application of the preflight section, started and stopped\<close>

lemma shop_preflight_container:
  assumes "\<And>ty. map_of (pending_overrides c) ty = (if ty = 12 then p else None)"
    and "\<And>pd. p = Some pd \<Longrightarrow> pd_deps pd = []"
  shows "preflight shop_graph (Some c) = Inr shop_order"
proof -
  have len: "length shop_graph = 3" by (simp add: shop_graph_def)
  have en: "enumerate 0 shop_graph = [(0, shop_graph ! 0), (1, shop_graph ! 1), (2, shop_graph ! 2)]"
    by (simp add: shop_graph_def)
  have up: "[0..<3] = [0, 1, 2::nat]" by (simp add: upt_rec)
  have md: "md_exports (mn_metadata (shop_graph ! 0)) = [repo_dep]"
    "md_exports (mn_metadata (shop_graph ! Suc 0)) = []" "md_exports (mn_metadata (shop_graph ! 2)) = []"
    "mn_imports (shop_graph ! Suc 0) = [0]"
    "md_event_handlers (mn_metadata (shop_graph ! 0)) = []"
    "md_event_handlers (mn_metadata (shop_graph ! Suc 0)) = []"
    "md_event_handlers (mn_metadata (shop_graph ! 2)) = []"
    "node_handlers (shop_graph ! 0) = []"
    "node_handlers (shop_graph ! Suc 0) = ms_handlers users_microservice"
    "node_handlers (shop_graph ! 2) = []"
    by (simp_all add: shop_graph_def shop_metadata node_handlers_def)
  have eff: "effective (Some c) (plain_provider 10 n ds) = plain_provider 10 n ds"
    "effective (Some c) (plain_provider 11 n ds) = plain_provider 11 n ds"
    "pd_deps (effective (Some c) (plain_provider 12 n [])) = []" for n ds
    using assms by (auto simp: effective_def pending_override_def plain_provider_def split: option.splits)
  have plain: "pd_type (plain_provider ty n ds) = ty" "pd_deps (plain_provider ty n ds) = ds" for ty n ds
    by (simp_all add: plain_provider_def)
  show ?thesis
    unfolding preflight_def shop_definitions len en up
    by (simp add: shop_order_def shop_def_of plain eff Let_def local_types_def shop_definitions
        md repo_dep_def visible_def users_microservice_def shop_patterns map_filter_simps logger_type_def)
qed

lemma shop_gateways: "graph_gateways shop_graph = []" "graph_event_handlers shop_graph = []"
  by (simp_all add: graph_gateways_def graph_event_handlers_def shop_graph_def shop_metadata)

lemma shop_initialized:
  "\<exists>c. initialize_graph shop_graph (seed_overrides [] Container_new) [] =
       (Inr (), c, [Build 10, Init 10, Build 11, Init 11, Build 12, Init 12]) \<and>
     pending_overrides c = [] \<and> applied_overrides c = {} \<and> bootstrapped_providers c = {} \<and>
     initialized_providers c = [10, 11, 12] \<and> {10, 11, 12} \<subseteq> dom (services c) \<and>
     typed c \<and> dependency_scope c = None"
  using shop_preflight_container [of "seed_overrides [] Container_new" None]
  by (simp add: initialize_graph_def seeded shop_order_def shop_gateways container_ops Let_def
      shop_def_of plain_provider_def run_lifecycle_def noop_lifecycle_def logger_type_def typed_def
      seed_overrides_def Container_new_def)

lemma shop_checked:
  assumes "pending_overrides c1 = []" "applied_overrides c1 = {}" "bootstrapped_providers c1 = {}"
    and "initialized_providers c1 = [10, 11, 12]" "{10, 11, 12} \<subseteq> dom (services c1)"
  shows "validate_module_providers shop_program App c1 = Some (Inr ())"
    and "validate_gateway_paths shop_program App = Some (Inr ())"
    and "\<exists>c. bootstrap_graph shop_graph c1 h = (Inr (), c, h @ [Bootstrap 10, Bootstrap 11, Bootstrap 12]) \<and>
      services c = services c1 \<and> dependency_scope c = dependency_scope c1"
proof -
  from assms(5) obtain v10 v11 v12 where
    v: "services c1 10 = Some v10" "services c1 11 = Some v11" "services c1 12 = Some v12" by auto
  have p: "preflight shop_graph (Some c1) = Inr shop_order"
    using shop_preflight_container [of c1 None] assms(1) by simp
  show "validate_module_providers shop_program App c1 = Some (Inr ())"
    using v by (simp add: validate_module_providers_def with_graph_def shop_discovered p shop_definitions
        shop_order_def shop_def_of plain_provider_def assert_registered_def contains_type_id_def)
  show "validate_gateway_paths shop_program App = Some (Inr ())"
    by (simp add: validate_gateway_paths_def with_graph_def shop_discovered
        validate_gateway_paths_in_graph_def shop_gateways)
  show "\<exists>c. bootstrap_graph shop_graph c1 h = (Inr (), c, h @ [Bootstrap 10, Bootstrap 11, Bootstrap 12]) \<and>
      services c = services c1 \<and> dependency_scope c = dependency_scope c1"
    using v by (simp add: bootstrap_graph_def p assms(1-4) shop_order_def shop_def_of plain_provider_def Let_def
        was_overridden_def begin_provider_bootstrap_def run_lifecycle_from_container_def resolve_erased_def
        run_lifecycle_def noop_lifecycle_def)
qed

lemma shop_built_container:
  "\<exists>c. build_container shop_program App = Some (Inr c,
     [Build 10, Init 10, Build 11, Init 11, Build 12, Init 12, Bootstrap 10, Bootstrap 11, Bootstrap 12]) \<and>
     typed c \<and> dependency_scope c = None \<and> {10, 11, 12} \<subseteq> dom (services c)"
proof -
  let ?h = "[Build 10, Init 10, Build 11, Init 11, Build 12, Init 12]"
  from shop_initialized obtain c1 where
    i: "initialize_graph shop_graph (seed_overrides [] Container_new) [] = (Inr (), c1, ?h)" and
    c1: "pending_overrides c1 = []" "applied_overrides c1 = {}" "bootstrapped_providers c1 = {}"
      "initialized_providers c1 = [10, 11, 12]" "{10, 11, 12} \<subseteq> dom (services c1)" and
    typed: "typed c1" "dependency_scope c1 = None" by blast
  obtain c where b: "bootstrap_graph shop_graph c1 ?h = (Inr (), c, ?h @ [Bootstrap 10, Bootstrap 11, Bootstrap 12])"
    and c: "services c = services c1" "dependency_scope c = dependency_scope c1"
    using shop_checked(3) [OF c1] by blast
  have "build_container shop_program App = Some (Inr c,
     [Build 10, Init 10, Build 11, Init 11, Build 12, Init 12, Bootstrap 10, Bootstrap 11, Bootstrap 12])"
    using shop_checked(1,2) [OF c1] b
    by (simp add: build_container_def build_container_with_overrides_def finish_build_def
        register_module_def bootstrap_module_def on_graph_def shop_discovered i and_then_def
        assert_no_unused_overrides_def c1(1))
  with c c1(5) typed show ?thesis by (auto simp: typed_def)
qed

lemma shop_built:
  "\<exists>c. build_container shop_program App = Some (Inr c,
     [Build 10, Init 10, Build 11, Init 11, Build 12, Init 12, Bootstrap 10, Bootstrap 11, Bootstrap 12])"
  using shop_built_container by blast

text \<open>The same application built with an instance of a type 99 registered before startup.\<close>

lemma shop_built_with_setup:
  "\<exists>c h. build_container_with_setup shop_program App (register_instance 99 0) = Some (Inr c, h) \<and>
     initialized_providers c = [10, 11, 12]"
proof -
  let ?c0 = "register_instance 99 0 Container_new" and ?h = "[Build 10, Init 10, Build 11, Init 11, Build 12, Init 12]"
  have "\<exists>c1. initialize_graph shop_graph ?c0 [] = (Inr (), c1, ?h) \<and>
     pending_overrides c1 = [] \<and> applied_overrides c1 = {} \<and> bootstrapped_providers c1 = {} \<and>
     initialized_providers c1 = [10, 11, 12] \<and> {10, 11, 12} \<subseteq> dom (services c1)"
    using shop_preflight_container [of ?c0 None]
    by (simp add: initialize_graph_def shop_order_def shop_gateways container_ops Let_def register_instance_def
        Container_new_def shop_def_of plain_provider_def run_lifecycle_def noop_lifecycle_def logger_type_def)
  then obtain c1 where i: "initialize_graph shop_graph ?c0 [] = (Inr (), c1, ?h)" and
    c1: "pending_overrides c1 = []" "applied_overrides c1 = {}" "bootstrapped_providers c1 = {}"
      "initialized_providers c1 = [10, 11, 12]" "{10, 11, 12} \<subseteq> dom (services c1)" by blast
  obtain c where b: "bootstrap_graph shop_graph c1 ?h = (Inr (), c, ?h @ [Bootstrap 10, Bootstrap 11, Bootstrap 12])"
    using shop_checked(3) [OF c1] by blast
  have "initialized_providers c = initialized_providers c1"
    using b shop_preflight_container [of c1 None] c1
    by (auto simp: bootstrap_graph_def shop_order_def shop_def_of plain_provider_def Let_def was_overridden_def
        begin_provider_bootstrap_def run_lifecycle_from_container_def resolve_erased_def run_lifecycle_def
        noop_lifecycle_def)
  with b c1 shop_checked(1,2) [OF c1] show ?thesis
    by (simp add: build_container_with_setup_def finish_build_def register_module_def bootstrap_module_def
        on_graph_def shop_discovered i and_then_def)
qed

theorem startup_calls_witness:
  "\<exists>c h g out out'. build_container_with_overrides shop_program App [] = Some (Inr c, h) \<and>
    discover_from shop_program App = Some (Inr g) \<and>
    dependency_order g (Some (seed_overrides [] Container_new)) out \<and> dependency_order g None out' \<and>
    h = init_calls (built_types g out) @ handler_calls (graph_event_handlers g) @
        map Bootstrap (production [] (built_types g out')) \<and>
    initialized_providers c = production [] (built_types g out) \<and>
    dom (services c) = insert logger_type (declared_types g)"
proof -
  from shop_built obtain c h where b: "build_container_with_overrides shop_program App [] = Some (Inr c, h)"
    by (auto simp: build_container_def)
  from startup_calls [OF this keyed_Nil] b show ?thesis by blast
qed

theorem shutdown_reverses_startup_witness:
  "\<exists>c h r c'. build_container_with_overrides shop_program App [] = Some (Inr c, h) \<and>
     shutdown_module shop_program App c [] =
       Some (r, c', [] @ map Shutdown (rev (initialized_providers c))) \<and>
     distinct (initialized_providers c) \<and>
     shutdown_module shop_program App c' [] = Some (Inr (), c', [])"
proof -
  from shop_built obtain c h where b: "build_container_with_overrides shop_program App [] = Some (Inr c, h)"
    by (auto simp: build_container_def)
  from shutdown_reverses_startup [OF this, of "[]" "[]"] b show ?thesis by fastforce
qed

theorem replaced_dependencies_witness:
  "\<exists>g. discover_from shop_program App = Some (Inr g) \<and>
    (\<forall>r\<in>set (definitions g). \<forall>ty\<in>all_deps (def_of g r) - {logger_type}.
       ty \<in> declared_types g \<and> visible_in g (rg_module r) ty)"
proof -
  from shop_built obtain c h where "build_container_with_overrides shop_program App [] = Some (Inr c, h)"
    by (auto simp: build_container_def)
  from replaced_dependencies_still_required [OF this] show ?thesis by simp
qed

text \<open>The microservice replaced by a factory that fails.\<close>

definition failing_overrides :: overrides where
  "failing_overrides = overrides_insert_factory [] 12 ''UsersMs'' [] (\<lambda>h rs. Inl ''down'')"

lemma failing_pending:
  "map_of failing_overrides ty =
     (if ty = 12 then Some (ProviderDef_async_factory 12 ''UsersMs'' [] (\<lambda>h rs. Inl ''down'')) else None)"
  by (simp add: failing_overrides_def overrides_insert_factory_def)

lemma shop_failing:
  "build_container_with_overrides shop_program App failing_overrides = Some
     (Inl (startup_error ''async factory failed for UsersMs: down''),
      [Build 10, Init 10, Build 11, Init 11, Build 12, Shutdown 11, Shutdown 10])"
proof -
  have p: "preflight shop_graph (Some (seed_overrides failing_overrides Container_new)) = Inr shop_order"
    by (rule shop_preflight_container [where p =
          "Some (ProviderDef_async_factory 12 ''UsersMs'' [] (\<lambda>h rs. Inl ''down''))"])
      (auto simp: seeded failing_pending ProviderDef_async_factory_def)
  have "snd (snd (initialize_graph shop_graph (seed_overrides failing_overrides Container_new) [])) =
      [Build 10, Init 10, Build 11, Init 11, Build 12, Shutdown 11, Shutdown 10] \<and>
    fst (initialize_graph shop_graph (seed_overrides failing_overrides Container_new) []) =
      Inl (startup_error ''async factory failed for UsersMs: down'')"
    unfolding initialize_graph_def p sum.case
    by (simp add: shop_order_def seeded failing_pending container_ops Let_def
        failing_overrides_def overrides_insert_factory_def
        shop_def_of plain_provider_def run_lifecycle_def noop_lifecycle_def logger_type_def
        ProviderDef_async_factory_def rollback_graph_def take_initialized_providers_def
        def_by_type_def shop_definitions run_lifecycle_from_container_def resolve_erased_def)
  then obtain c where "initialize_graph shop_graph (seed_overrides failing_overrides Container_new) [] =
      (Inl (startup_error ''async factory failed for UsersMs: down''), c,
       [Build 10, Init 10, Build 11, Init 11, Build 12, Shutdown 11, Shutdown 10])"
    by (metis prod.collapse)
  then show ?thesis
    by (simp add: build_container_with_overrides_def finish_build_def register_module_def on_graph_def
        shop_discovered)
qed

theorem failed_startup_rolls_back_witness:
  "case discover_from shop_program App of
     Some (Inr g) \<Rightarrow> clean_failure g failing_overrides
       [Build 10, Init 10, Build 11, Init 11, Build 12, Shutdown 11, Shutdown 10]
   | _ \<Rightarrow> [Build 10, Init 10, Build 11, Init 11, Build 12, Shutdown 11, Shutdown 10] = []"
  by (rule failed_startup_rolls_back [OF shop_failing])
    (auto simp: keyed_def failing_pending ProviderDef_async_factory_def split: if_splits)

theorem startup_succeeds_witness:
  "\<exists>c' h'. initialize_graph shop_graph Container_new [] = (Inr (), c', h')"
proof (rule startup_succeeds [OF shop_discovered])
  show "preflight shop_graph (Some Container_new) = Inr shop_order"
    by (rule shop_preflight_container [where p = None]) (simp_all add: Container_new_def)
  have eff: "effective (Some Container_new) pd = pd" for pd
    by (simp add: effective_def pending_override_def Container_new_def)
  show "\<forall>r\<in>set (definitions shop_graph). cooperative (effective (Some Container_new) (def_of shop_graph r))"
    by (simp add: eff shop_definitions shop_order_def shop_def_of plain_provider_def cooperative_def
        noop_lifecycle_def)
qed (auto simp: overrides_ok_def typed_def live_def Container_new_def shop_gateways split: if_splits)

end
