(* ===== verification/NatsRuntime.thy ===== *)
theory NatsRuntime
  imports Consumers Startup
begin

text \<open>
  The NATS runtime of \<open>crates/caelix-microservices/src/lib.rs\<close>: \<open>MicroserviceRuntime\<close> with \<open>start\<close>,
  \<open>run\<close>, \<open>shutdown\<close> and \<open>cancel\<close>. The answers of the broker client are an argument, the record
  \<open>jetstream\<close>. What the scheduler decides is an argument too: which branch of the select in \<open>run\<close> is
  taken, the outcomes of the joined tasks and whether the shutdown timeout elapses. The container and
  the history of calls are those of the lifecycle model; \<open>None\<close> is a panic.
\<close>

section \<open>Subscriptions\<close>

record consumer_config =
  cc_durable_name :: "str option"
  cc_filter_subject :: str
  cc_ack_explicit :: bool
  cc_max_deliver :: int
  cc_max_ack_pending :: int
  cc_ack_wait :: nat

record jetstream =
  js_create_stream :: "str \<Rightarrow> str list \<Rightarrow> str + str list"
  js_create_consumer :: "str \<Rightarrow> consumer_config \<Rightarrow> str + consumer_config"
  js_messages :: "str \<Rightarrow> str + unit"
  js_subscribe :: "str \<Rightarrow> str \<Rightarrow> str + unit"
  js_flush :: "str + unit"

datatype transport_task = EventTask message_handler | CommandTask message_handler

text \<open>\<open>as i64\<close> reads the 64 bits as signed.\<close>

definition as_i64 :: "nat \<Rightarrow> int" where
  "as_i64 n = (if int n < 2 ^ 63 then int n else int n - 2 ^ 64)"

text \<open>The digest of the hash is a list of bytes, an argument.\<close>

definition durable_name :: "(str \<Rightarrow> nat list) \<Rightarrow> str \<Rightarrow> str \<Rightarrow> str" where
  "durable_name sha256 service subject =
     ''caelix-'' @ concat (map show_hex (sha256 (service @ [CHR 0x00] @ subject)))"

definition event_consumer_config :: "nats_options \<Rightarrow> str \<Rightarrow> message_handler \<Rightarrow> consumer_config" where
  "event_consumer_config opts durable handler =
     \<lparr>cc_durable_name = Some durable, cc_filter_subject = mh_pattern handler, cc_ack_explicit = True,
      cc_max_deliver = -1, cc_max_ack_pending = as_i64 (no_max_handler_concurrency opts),
      cc_ack_wait = no_event_ack_wait opts\<rparr>"

definition subscribe_event ::
    "(str \<Rightarrow> nat list) \<Rightarrow> jetstream \<Rightarrow> nats_options \<Rightarrow> str \<Rightarrow> message_handler \<Rightarrow> microservice_error + transport_task" where
  "subscribe_event sha256 js opts service handler =
     (let durable = durable_name sha256 service (mh_pattern handler)
      in bind_result (map_err TransportError (js_create_consumer js durable (event_consumer_config opts durable handler)))
        (\<lambda>config.
           if cc_filter_subject config \<noteq> mh_pattern handler \<or> \<not> cc_ack_explicit config \<or>
              cc_max_deliver config \<noteq> -1 \<or> cc_max_ack_pending config \<noteq> as_i64 (no_max_handler_concurrency opts) \<or>
              cc_ack_wait config \<noteq> no_event_ack_wait opts
           then Inl (ConfigurationError (''JetStream consumer '' @ durable @
                  '' is incompatible with the declared event handler''))
           else bind_result (map_err TransportError (js_messages js durable)) (\<lambda>_. Inr (EventTask handler))))"

definition subscribe_command ::
    "jetstream \<Rightarrow> str \<Rightarrow> message_handler \<Rightarrow> microservice_error + transport_task" where
  "subscribe_command js service handler =
     bind_result (map_err TransportError (js_subscribe js (mh_pattern handler) service)) (\<lambda>_. Inr (CommandTask handler))"

text \<open>Handlers exist only with a service name: the source panics otherwise.\<close>

fun subscribe_all ::
    "(str \<Rightarrow> message_handler \<Rightarrow> microservice_error + transport_task) \<Rightarrow> str option \<Rightarrow> message_handler list \<Rightarrow>
     (microservice_error + transport_task list) option" where
  "subscribe_all subscribe service [] = Some (Inr [])"
| "subscribe_all subscribe service (h # hs) =
     (case service of
        None \<Rightarrow> None
      | Some name \<Rightarrow>
          (case subscribe name h of
             Inl e \<Rightarrow> Some (Inl e)
           | Inr task \<Rightarrow> map_option (\<lambda>r. bind_result r (\<lambda>tasks. Inr (task # tasks))) (subscribe_all subscribe service hs)))"

definition check_dead_letter :: "message_handler list \<Rightarrow> nats_options \<Rightarrow> microservice_error + unit" where
  "check_dead_letter handlers opts =
     (case no_dead_letter_subject opts of
        None \<Rightarrow> Inr ()
      | Some subject \<Rightarrow>
          if \<not> valid_nats_subject subject \<or> list_ex (\<lambda>h. nats_pattern_matches (mh_pattern h) subject) handlers
          then Inl (ConfigurationError (''dead-letter subject `'' @ subject @
                 ''` must be valid and disjoint from all command and event handlers''))
          else Inr ())"

definition event_handlers_of :: "message_handler list \<Rightarrow> message_handler list" where
  "event_handlers_of handlers = filter (\<lambda>h. mh_kind h = Event) handlers"

definition command_handlers_of :: "message_handler list \<Rightarrow> message_handler list" where
  "command_handlers_of handlers = filter (\<lambda>h. mh_kind h = Command) handlers"

definition event_subjects :: "message_handler list \<Rightarrow> nats_options \<Rightarrow> str list" where
  "event_subjects handlers opts = map mh_pattern (event_handlers_of handlers) @
     (case no_dead_letter_subject opts of None \<Rightarrow> [] | Some subject \<Rightarrow> [subject])"

definition open_stream :: "jetstream \<Rightarrow> nats_options \<Rightarrow> str list \<Rightarrow> microservice_error + unit" where
  "open_stream js opts subjects =
     (case no_jetstream_stream opts of
        None \<Rightarrow> Inl (ConfigurationError ''jetstream_stream is required when registering event handlers'')
      | Some name \<Rightarrow>
          (case js_create_stream js name subjects of
             Inl e \<Rightarrow> Inl (TransportError e)
           | Inr configured \<Rightarrow>
               if list_ex (\<lambda>s. \<not> list_ex (\<lambda>c. nats_pattern_covers c s) configured) subjects
               then Inl (ConfigurationError (''JetStream stream '' @ name @
                      '' does not cover every declared event or dead-letter subject''))
               else Inr ()))"

definition service_of :: "message_handler list \<Rightarrow> nats_options \<Rightarrow> microservice_error + str option" where
  "service_of handlers opts =
     (if handlers = [] then Inr None else bind_result (queue_group opts) (\<lambda>name. Inr (Some name)))"

text \<open>\<open>?\<close> on a result that may panic later.\<close>

definition then_try :: "'e + 'a \<Rightarrow> ('a \<Rightarrow> ('e + 'b) option) \<Rightarrow> ('e + 'b) option" where
  "then_try r f = (case r of Inl e \<Rightarrow> Some (Inl e) | Inr x \<Rightarrow> f x)"

definition then_next :: "('e + 'a) option \<Rightarrow> ('a \<Rightarrow> ('e + 'b) option) \<Rightarrow> ('e + 'b) option" where
  "then_next r f = (case r of None \<Rightarrow> None | Some (Inl e) \<Rightarrow> Some (Inl e) | Some (Inr x) \<Rightarrow> f x)"

definition start_subscriptions ::
    "(str \<Rightarrow> nat list) \<Rightarrow> jetstream \<Rightarrow> nats_options \<Rightarrow> message_handler list \<Rightarrow>
     (microservice_error + transport_task list) option" where
  "start_subscriptions sha256 js opts handlers =
     then_try (service_of handlers opts) (\<lambda>service.
       (let subjects = event_subjects handlers opts in
        then_next
          (if subjects = [] then Some (Inr [])
           else then_try (check_dead_letter handlers opts) (\<lambda>_.
                then_try (open_stream js opts subjects) (\<lambda>_.
                  subscribe_all (subscribe_event sha256 js opts) service (event_handlers_of handlers))))
          (\<lambda>event_tasks.
             then_next (subscribe_all (subscribe_command js) service (command_handlers_of handlers)) (\<lambda>command_tasks.
               then_try (map_err TransportError (js_flush js)) (\<lambda>_. Some (Inr (event_tasks @ command_tasks)))))))"

section \<open>The runtime\<close>

record runtime =
  rt_container :: container
  rt_options :: nats_options
  rt_handlers :: "message_handler list"
  rt_cancelled :: bool
  rt_started :: bool
  rt_shutdown :: bool
  rt_tasks :: "transport_task list"
  rt_history :: history

definition MicroserviceRuntime_new ::
    "container \<Rightarrow> nats_options \<Rightarrow> message_handler list \<Rightarrow> history \<Rightarrow> runtime" where
  "MicroserviceRuntime_new c opts handlers h =
     \<lparr>rt_container = c, rt_options = opts, rt_handlers = handlers, rt_cancelled = False, rt_started = False,
      rt_shutdown = False, rt_tasks = [], rt_history = h\<rparr>"

definition rt_start ::
    "(str \<Rightarrow> nat list) \<Rightarrow> jetstream \<Rightarrow> runtime \<Rightarrow> ((microservice_error + unit) \<times> runtime) option" where
  "rt_start sha256 js rt =
     (if rt_cancelled rt then Some (Inl (TransportError ''microservice runtime is shutting down''), rt)
      else if rt_started rt then Some (Inr (), rt)
      else (case start_subscriptions sha256 js (rt_options rt) (rt_handlers rt) of
              None \<Rightarrow> None
            | Some (Inl e) \<Rightarrow> Some (Inl e, rt)
            | Some (Inr tasks) \<Rightarrow> Some (Inr (), rt\<lparr>rt_tasks := tasks, rt_started := True\<rparr>)))"

definition rt_cancel :: "runtime \<Rightarrow> runtime" where
  "rt_cancel rt = rt\<lparr>rt_cancelled := True\<rparr>"

text \<open>Joining the tasks: the first error of an ended task, or the missed deadline when there is none.\<close>

record join =
  jn_outcomes :: "task_outcome list"
  jn_timed_out :: bool

definition deadline_error :: microservice_error where
  "deadline_error =
     TransportError ''transport shutdown deadline elapsed; unfinished handlers were aborted''"

fun first_task_error :: "task_outcome list \<Rightarrow> microservice_error option" where
  "first_task_error [] = None"
| "first_task_error (t # ts) = (case task_result t of Inl e \<Rightarrow> Some e | Inr _ \<Rightarrow> first_task_error ts)"

definition get_or_insert :: "microservice_error option \<Rightarrow> bool \<Rightarrow> microservice_error \<Rightarrow> microservice_error option" where
  "get_or_insert e cond d = (case e of Some x \<Rightarrow> Some x | None \<Rightarrow> if cond then Some d else None)"

definition first_error :: "microservice_error option list \<Rightarrow> microservice_error + unit" where
  "first_error es = (case find (\<lambda>e. e \<noteq> None) es of Some (Some e) \<Rightarrow> Inl e | _ \<Rightarrow> Inr ())"

definition rt_shut_down ::
    "('m::finite) program \<Rightarrow> 'm \<Rightarrow> join \<Rightarrow> str + unit \<Rightarrow> runtime \<Rightarrow> ((microservice_error + unit) \<times> runtime) option" where
  "rt_shut_down prog root joined drain rt =
     (if rt_shutdown rt then Some (Inr (), rt)
      else
        (let runtime_error = get_or_insert (first_task_error (jn_outcomes joined)) (jn_timed_out joined) deadline_error
         in (case shutdown_module prog root (rt_container rt) (rt_history rt) of
               None \<Rightarrow> None
             | Some (r, c', h') \<Rightarrow>
                 (let module_error = (case r of Inl e \<Rightarrow> Some (FrameworkError (ex_message e)) | Inr _ \<Rightarrow> None);
                      drain_error = (case drain of Inl e \<Rightarrow> Some (TransportError e) | Inr _ \<Rightarrow> None)
                  in Some (first_error [runtime_error, module_error, drain_error],
                       rt\<lparr>rt_shutdown := True, rt_cancelled := True, rt_tasks := [],
                          rt_container := c', rt_history := h'\<rparr>)))))"

text \<open>The branch that ends the select of \<open>run\<close>.\<close>

datatype wake = WokenByToken | WokenBySignal "str + unit" | WokenByTask task_outcome | NoTasksLeft

definition wake_error :: "task_outcome \<Rightarrow> microservice_error" where
  "wake_error outcome = (case outcome of
     TaskEnded (Inr _) \<Rightarrow> TransportError ''transport task ended unexpectedly''
   | TaskEnded (Inl e) \<Rightarrow> e
   | TaskPanicked txt \<Rightarrow> TransportError (''transport task panicked: '' @ txt))"

definition rt_run ::
    "('m::finite) program \<Rightarrow> 'm \<Rightarrow> (str \<Rightarrow> nat list) \<Rightarrow> jetstream \<Rightarrow> wake \<Rightarrow> bool \<Rightarrow> join \<Rightarrow> str + unit \<Rightarrow> runtime \<Rightarrow>
     ((microservice_error + unit) \<times> runtime) option" where
  "rt_run prog root sha256 js woken missed joined drain rt =
     (case rt_start sha256 js rt of
        None \<Rightarrow> None
      | Some (Inl e, rt1) \<Rightarrow>
          (case rt_shut_down prog root joined drain rt1 of None \<Rightarrow> None | Some (_, rt2) \<Rightarrow> Some (Inl e, rt2))
      | Some (Inr _, rt1) \<Rightarrow>
          (let rt2 = rt1\<lparr>rt_tasks := []\<rparr>
           in (case woken of
                 WokenBySignal (Inl e) \<Rightarrow> Some (Inl (TransportError e), rt2)
               | _ \<Rightarrow>
                   (let runtime_error = (case woken of WokenByTask outcome \<Rightarrow> Some (wake_error outcome) | _ \<Rightarrow> None);
                        rt3 = (case woken of WokenByToken \<Rightarrow> rt2 | NoTasksLeft \<Rightarrow> rt2 | _ \<Rightarrow> rt_cancel rt2);
                        runtime_error' = get_or_insert runtime_error missed deadline_error
                    in (case rt_shut_down prog root joined drain rt3 of
                          None \<Rightarrow> None
                        | Some (r, rt4) \<Rightarrow>
                            Some (case runtime_error' of Some e \<Rightarrow> Inl e | None \<Rightarrow> r, rt4))))))"

section \<open>Construction\<close>

text \<open>
  A new application: the connection is the broker's answer, the client is registered as the instance
  \<open>client\<close> of its type before the modules are built.
\<close>

definition NatsMicroserviceApplication_new ::
    "('m::finite) program \<Rightarrow> 'm \<Rightarrow> str + unit \<Rightarrow> type_id \<Rightarrow> nat \<Rightarrow> nats_options \<Rightarrow>
     ((microservice_error + runtime) \<times> history) option" where
  "NatsMicroserviceApplication_new prog root connected ty client opts =
     (case connected of
        Inl e \<Rightarrow> Some (Inl (TransportError e), [])
      | Inr _ \<Rightarrow>
          (case build_container_with_setup prog root (register_instance ty client) of
             None \<Rightarrow> None
           | Some (Inl e, h) \<Rightarrow> Some (Inl (FrameworkError (ex_message e)), h)
           | Some (Inr c, h) \<Rightarrow>
               (case collect_module_message_handlers_with_container prog root (Some c) of
                  None \<Rightarrow> None
                | Some (Inl e) \<Rightarrow> Some (Inl (FrameworkError (ex_message e)), h)
                | Some (Inr handlers) \<Rightarrow> Some (Inr (MicroserviceRuntime_new c opts handlers h), h))))"

section \<open>Lemmas\<close>

lemma then_simps [simp]:
  "then_try (Inl e) f = Some (Inl e)" "then_try (Inr x) f = f x"
  "then_next None f = None" "then_next (Some (Inl e)) f = Some (Inl e)" "then_next (Some (Inr x)) f = f x"
  by (simp_all add: then_try_def then_next_def)

lemma then_try_Inr: "then_try r f = Some (Inr y) \<longleftrightarrow> (\<exists>x. r = Inr x \<and> f x = Some (Inr y))"
  by (cases r) auto

lemma then_next_Inr: "then_next r f = Some (Inr y) \<longleftrightarrow> (\<exists>x. r = Some (Inr x) \<and> f x = Some (Inr y))"
  by (cases r; cases "the r") (auto simp: then_next_def)

lemma then_try_total: "(\<And>x. r = Inr x \<Longrightarrow> f x \<noteq> None) \<Longrightarrow> then_try r f \<noteq> None"
  by (cases r) auto

lemma then_next_total: "r \<noteq> None \<Longrightarrow> (\<And>x. r = Some (Inr x) \<Longrightarrow> f x \<noteq> None) \<Longrightarrow> then_next r f \<noteq> None"
  by (cases r; cases "the r") (auto simp: then_next_def)

lemma subscribe_all_total: "hs = [] \<or> service \<noteq> None \<Longrightarrow> subscribe_all subscribe service hs \<noteq> None"
  by (induction hs) (auto split: sum.splits)

lemma service_covers: "service_of handlers opts = Inr service \<Longrightarrow> handlers = [] \<or> service \<noteq> None"
  by (auto simp: service_of_def bind_result_def split: if_splits sum.splits)

lemma start_subscriptions_total: "start_subscriptions sha256 js opts handlers \<noteq> None"
proof -
  have subs: "subscribe_all f service (event_handlers_of handlers) \<noteq> None"
      "subscribe_all f service (command_handlers_of handlers) \<noteq> None"
    if "service_of handlers opts = Inr service" for service f
    using service_covers [OF that] subscribe_all_total
    by (metis event_handlers_of_def command_handlers_of_def filter.simps(1))+
  have "(if event_subjects handlers opts = [] then Some (Inr [])
       else then_try (check_dead_letter handlers opts) (\<lambda>_.
            then_try (open_stream js opts (event_subjects handlers opts)) (\<lambda>_.
              subscribe_all (subscribe_event sha256 js opts) service (event_handlers_of handlers)))) \<noteq> None"
    if "service_of handlers opts = Inr service" for service
  proof (cases "event_subjects handlers opts = []")
    case False
    have "then_try (check_dead_letter handlers opts) (\<lambda>_.
        then_try (open_stream js opts (event_subjects handlers opts)) (\<lambda>_.
          subscribe_all (subscribe_event sha256 js opts) service (event_handlers_of handlers))) \<noteq> None"
      by (rule then_try_total, rule then_try_total, rule subs(1) [OF that])
    with False show ?thesis by simp
  qed simp
  then show ?thesis
    unfolding start_subscriptions_def Let_def
    by (rule then_try_total [OF then_next_total]) (assumption, rule then_next_total [OF subs(2)], assumption,
        rule then_try_total, simp)
qed

lemma rt_start_cases:
  assumes "rt_start sha256 js rt = Some (r, rt')"
  obtains "rt' = rt" | tasks where "rt' = rt\<lparr>rt_tasks := tasks, rt_started := True\<rparr>" "r = Inr ()"
    "start_subscriptions sha256 js (rt_options rt) (rt_handlers rt) = Some (Inr tasks)"
  using assms by (auto simp: rt_start_def split: if_splits option.splits sum.splits)

section \<open>Sequences of calls\<close>

text \<open>Other tasks may call the runtime in any order; each call runs under the runtime's start lock.\<close>

datatype runtime_call = StartCall jetstream | CancelCall | ShutdownCall join "str + unit"

definition rt_call ::
    "('m::finite) program \<Rightarrow> 'm \<Rightarrow> (str \<Rightarrow> nat list) \<Rightarrow> runtime_call \<Rightarrow> runtime \<Rightarrow> runtime option" where
  "rt_call prog root sha256 call rt =
     (case call of
        StartCall js \<Rightarrow> map_option snd (rt_start sha256 js rt)
      | CancelCall \<Rightarrow> Some (rt_cancel rt)
      | ShutdownCall joined drain \<Rightarrow> map_option snd (rt_shut_down prog root joined drain rt))"

fun rt_calls ::
    "('m::finite) program \<Rightarrow> 'm \<Rightarrow> (str \<Rightarrow> nat list) \<Rightarrow> runtime_call list \<Rightarrow> runtime \<Rightarrow> runtime option" where
  "rt_calls prog root sha256 [] rt = Some rt"
| "rt_calls prog root sha256 (call # calls) rt =
     (case rt_call prog root sha256 call rt of None \<Rightarrow> None | Some rt' \<Rightarrow> rt_calls prog root sha256 calls rt')"

definition is_shutdown :: "runtime_call \<Rightarrow> bool" where
  "is_shutdown call = (case call of ShutdownCall _ _ \<Rightarrow> True | _ \<Rightarrow> False)"

definition rt_inv :: "container \<Rightarrow> history \<Rightarrow> runtime \<Rightarrow> bool" where
  "rt_inv c h rt \<longleftrightarrow>
     (if rt_shutdown rt then rt_history rt = h @ map Shutdown (rev (initialized_providers c)) \<and>
        rt_cancelled rt \<and> rt_tasks rt = []
      else rt_history rt = h \<and> rt_container rt = c)"

lemma rt_start_total: "rt_start sha256 js rt \<noteq> None"
  using start_subscriptions_total [of sha256 js "rt_options rt" "rt_handlers rt"]
  by (auto simp: rt_start_def split: option.splits sum.splits)

lemma rt_start_inv:
  assumes "rt_inv c h rt" "rt_start sha256 js rt = Some (r, rt')"
  shows "rt_inv c h rt' \<and> rt_shutdown rt' = rt_shutdown rt"
proof (cases "rt_cancelled rt")
  case True
  with assms show ?thesis by (simp add: rt_start_def)
next
  case False
  with assms(1) have "\<not> rt_shutdown rt" by (auto simp: rt_inv_def)
  with assms show ?thesis by (auto simp: rt_inv_def elim!: rt_start_cases)
qed

lemma rt_shut_down_inv:
  assumes "rt_inv c h rt" "discover_from prog root = Some (Inr g)" "live g c (initialized_providers c)"
  shows "\<exists>r rt'. rt_shut_down prog root joined drain rt = Some (r, rt') \<and> rt_inv c h rt' \<and> rt_shutdown rt'"
proof (cases "rt_shutdown rt")
  case True
  with assms show ?thesis by (simp add: rt_shut_down_def)
next
  case False
  with assms(1) have rt: "rt_history rt = h" "rt_container rt = c" by (simp_all add: rt_inv_def)
  from shutdown_built [OF assms(2,3), of h] obtain r where
    "shutdown_module prog root c h = Some (r, c\<lparr>initialized_providers := []\<rparr>, h @ map Shutdown (rev (initialized_providers c)))"
    by blast
  with False rt show ?thesis by (simp add: rt_shut_down_def rt_inv_def)
qed

lemma rt_calls_inv:
  assumes "rt_inv c h rt" "discover_from prog root = Some (Inr g)" "live g c (initialized_providers c)"
  shows "\<exists>rt'. rt_calls prog root sha256 calls rt = Some rt' \<and> rt_inv c h rt' \<and>
    (rt_shutdown rt' \<longleftrightarrow> rt_shutdown rt \<or> list_ex is_shutdown calls)"
  using assms(1)
proof (induction calls arbitrary: rt)
  case (Cons call calls)
  have "\<exists>rt1. rt_call prog root sha256 call rt = Some rt1 \<and> rt_inv c h rt1 \<and>
      (rt_shutdown rt1 \<longleftrightarrow> rt_shutdown rt \<or> is_shutdown call)"
  proof (cases call)
    case (StartCall js)
    with rt_start_inv [OF Cons.prems] rt_start_total [of sha256 js rt] show ?thesis
      by (fastforce simp: rt_call_def is_shutdown_def)
  next
    case CancelCall
    with Cons.prems show ?thesis by (simp add: rt_call_def rt_cancel_def rt_inv_def is_shutdown_def)
  next
    case (ShutdownCall joined drain)
    with rt_shut_down_inv [OF Cons.prems assms(2,3), of joined drain] show ?thesis
      by (fastforce simp: rt_call_def is_shutdown_def)
  qed
  then obtain rt1 where rt1: "rt_call prog root sha256 call rt = Some rt1" "rt_inv c h rt1"
    "rt_shutdown rt1 \<longleftrightarrow> rt_shutdown rt \<or> is_shutdown call" by blast
  from Cons.IH [OF rt1(2)] rt1(1,3) show ?case by auto
qed simp

lemma subscribe_all_Inr:
  assumes "\<And>name h task. subscribe name h = Inr task \<Longrightarrow> task = t h"
  shows "subscribe_all subscribe service hs = Some (Inr tasks) \<Longrightarrow> tasks = map t hs"
proof (induction hs arbitrary: tasks)
  case (Cons h hs)
  then obtain name task ts where "subscribe name h = Inr task" "subscribe_all subscribe service hs = Some (Inr ts)"
    "tasks = task # ts"
    by (auto simp: result_facts split: option.splits sum.splits)
  with Cons.IH assms show ?case by simp
qed simp

lemma subscribe_event_task: "subscribe_event sha256 js opts name h = Inr task \<Longrightarrow> task = EventTask h"
  by (auto simp: subscribe_event_def Let_def result_facts split: if_splits)

lemma subscribe_command_task: "subscribe_command js name h = Inr task \<Longrightarrow> task = CommandTask h"
  by (auto simp: subscribe_command_def result_facts)

lemma start_subscriptions_Inr:
  assumes "start_subscriptions sha256 js opts handlers = Some (Inr tasks)"
  shows "tasks = map EventTask (event_handlers_of handlers) @ map CommandTask (command_handlers_of handlers)"
    and "event_subjects handlers opts \<noteq> [] \<Longrightarrow>
      check_dead_letter handlers opts = Inr () \<and> open_stream js opts (event_subjects handlers opts) = Inr ()"
proof -
  let ?s = "event_subjects handlers opts"
  from assms obtain service ets cts where
    ev: "(if ?s = [] then Some (Inr []) else then_try (check_dead_letter handlers opts) (\<lambda>_.
           then_try (open_stream js opts ?s) (\<lambda>_.
             subscribe_all (subscribe_event sha256 js opts) service (event_handlers_of handlers)))) = Some (Inr ets)"
    and co: "subscribe_all (subscribe_command js) service (command_handlers_of handlers) = Some (Inr cts)"
    and t: "tasks = ets @ cts"
    unfolding start_subscriptions_def Let_def by (auto simp: then_try_Inr then_next_Inr)
  from subscribe_all_Inr [OF subscribe_command_task co] have "cts = map CommandTask (command_handlers_of handlers)" .
  moreover have "ets = map EventTask (event_handlers_of handlers)"
  proof (cases "?s = []")
    case True
    with ev show ?thesis by (simp add: event_subjects_def)
  next
    case False
    with ev have "subscribe_all (subscribe_event sha256 js opts) service (event_handlers_of handlers) = Some (Inr ets)"
      by (auto simp: then_try_Inr)
    from subscribe_all_Inr [OF subscribe_event_task this] show ?thesis .
  qed
  ultimately show "tasks = map EventTask (event_handlers_of handlers) @ map CommandTask (command_handlers_of handlers)"
    using t by simp
  show "check_dead_letter handlers opts = Inr () \<and> open_stream js opts ?s = Inr ()" if "?s \<noteq> []"
    using ev that by (auto simp: then_try_Inr)
qed

section \<open>Properties\<close>

text \<open>A runtime that starts has one consumer per event handler and one subscription per command
  handler; no handler matches the dead-letter subject, so a dead letter is never handled as a message;
  and every subject an event handler matches is captured by the stream.\<close>

theorem start_topology_safe:
  assumes "start_subscriptions sha256 js opts handlers = Some (Inr tasks)"
  shows "tasks = map EventTask (event_handlers_of handlers) @ map CommandTask (command_handlers_of handlers) \<and>
    (\<forall>subject. no_dead_letter_subject opts = Some subject \<longrightarrow>
       (\<forall>h\<in>set handlers. \<not> nats_pattern_matches (mh_pattern h) subject)) \<and>
    (\<forall>h\<in>set handlers. \<forall>s. mh_kind h = Event \<longrightarrow> nats_pattern_matches (mh_pattern h) s \<longrightarrow>
       (\<exists>name configured. no_jetstream_stream opts = Some name \<and>
          js_create_stream js name (event_subjects handlers opts) = Inr configured \<and>
          (\<exists>c\<in>set configured. nats_pattern_matches c s)))"
proof (intro conjI allI ballI impI)
  note i = start_subscriptions_Inr [OF assms]
  show "tasks = map EventTask (event_handlers_of handlers) @ map CommandTask (command_handlers_of handlers)" by (rule i(1))
  show "\<not> nats_pattern_matches (mh_pattern h) subject"
    if "no_dead_letter_subject opts = Some subject" "h \<in> set handlers" for subject h
    using that i(2) by (auto simp: event_subjects_def check_dead_letter_def list_ex_iff split: if_splits)
  show "\<exists>name configured. no_jetstream_stream opts = Some name \<and>
      js_create_stream js name (event_subjects handlers opts) = Inr configured \<and>
      (\<exists>c\<in>set configured. nats_pattern_matches c s)"
    if h: "h \<in> set handlers" "mh_kind h = Event" "nats_pattern_matches (mh_pattern h) s" for h s
  proof -
    have p: "mh_pattern h \<in> set (event_subjects handlers opts)"
      using h(1,2) by (auto simp: event_subjects_def event_handlers_of_def)
    then have "open_stream js opts (event_subjects handlers opts) = Inr ()" using i(2) by fastforce
    then obtain name configured where n: "no_jetstream_stream opts = Some name"
      "js_create_stream js name (event_subjects handlers opts) = Inr configured"
      and cov: "\<forall>s\<in>set (event_subjects handlers opts). \<exists>c\<in>set configured. nats_pattern_covers c s"
      by (auto simp: open_stream_def list_ex_iff split: option.splits sum.splits if_splits)
    from cov p obtain c where "c \<in> set configured" "nats_pattern_covers c (mh_pattern h)" by blast
    moreover from this(2) h(3) have "nats_pattern_matches c s"
      unfolding nats_pattern_covers_def nats_pattern_matches_def using tokens_cover_sound by blast
    ultimately show ?thesis using n by blast
  qed
qed

text \<open>C8: for an application built with the transport client registered, no sequence of calls that start,
  cancel or shut down the runtime panics, and the shutdown hooks are called once, in the reverse order of
  initialization, exactly when one of the calls is a shutdown; then no subscription is left.\<close>

theorem runtime_shuts_down_once:
  assumes "build_container_with_setup prog root (register_instance ty v) = Some (Inr c, h)"
  shows "\<exists>rt. rt_calls prog root sha256 calls (MicroserviceRuntime_new c opts handlers h) = Some rt \<and>
    rt_history rt = h @ (if list_ex is_shutdown calls then map Shutdown (rev (initialized_providers c)) else []) \<and>
    distinct (initialized_providers c) \<and> (list_ex is_shutdown calls \<longrightarrow> rt_tasks rt = [])"
proof -
  from client_built [OF assms] obtain g where g: "discover_from prog root = Some (Inr g)"
    "live g c (initialized_providers c)" and d: "distinct (initialized_providers c)" .
  have "rt_inv c h (MicroserviceRuntime_new c opts handlers h)"
    by (simp add: rt_inv_def MicroserviceRuntime_new_def)
  from rt_calls_inv [OF this g, of sha256 calls] d show ?thesis
    by (auto simp: rt_inv_def MicroserviceRuntime_new_def)
qed

text \<open>C31: For an application built with the transport client registered, and after any sequence of calls on its
  runtime, \<open>run\<close> returns, and when it does the shutdown hooks have been called, once each and in the reverse
  order of initialization: also when the start fails, whose error it returns, and whatever ends the wait,
  including a task with an error or a panic. The one exception is that waiting for the interrupt signal fails
  after a successful start: then \<open>run\<close> returns that error, no shutdown hook has been called and the runtime is
  not shut down.\<close>

theorem run_shuts_down_unless_signal_fails:
  assumes "build_container_with_setup prog root (register_instance ty v) = Some (Inr c, h)"
    and "rt_calls prog root sha256 calls (MicroserviceRuntime_new c opts handlers h) = Some rt"
  shows "\<exists>started rt1 r rt'. rt_start sha256 js rt = Some (started, rt1) \<and>
    rt_run prog root sha256 js woken missed joined drain rt = Some (r, rt') \<and>
    (case (started, woken) of
       (Inr _, WokenBySignal (Inl e)) \<Rightarrow>
         r = Inl (TransportError e) \<and> \<not> rt_shutdown rt' \<and> rt_history rt' = h
     | (Inl e, _) \<Rightarrow>
         r = Inl e \<and> rt_shutdown rt' \<and> rt_history rt' = h @ map Shutdown (rev (initialized_providers c))
     | _ \<Rightarrow> rt_shutdown rt' \<and> rt_history rt' = h @ map Shutdown (rev (initialized_providers c)))"
proof -
  from client_built [OF assms(1)] obtain g where g: "discover_from prog root = Some (Inr g)"
    "live g c (initialized_providers c)" .
  have "rt_inv c h (MicroserviceRuntime_new c opts handlers h)"
    by (simp add: rt_inv_def MicroserviceRuntime_new_def)
  from rt_calls_inv [OF this g, of sha256 calls] assms(2) have inv: "rt_inv c h rt" by auto
  obtain started rt1 where st: "rt_start sha256 js rt = Some (started, rt1)"
    using rt_start_total [of sha256 js rt] by (metis option.exhaust surj_pair)
  note inv1 = rt_start_inv [OF inv st]
  have down: "\<exists>q rt2. rt_shut_down prog root joined drain rt' = Some (q, rt2) \<and> rt_shutdown rt2 \<and>
      rt_history rt2 = h @ map Shutdown (rev (initialized_providers c))" if "rt_inv c h rt'" for rt'
    using rt_shut_down_inv [OF that g, of joined drain] by (auto simp: rt_inv_def)
  show ?thesis
  proof (cases started)
    case (Inl e)
    with down [of rt1] inv1 obtain q rt2 where "rt_shut_down prog root joined drain rt1 = Some (q, rt2)"
      "rt_shutdown rt2" "rt_history rt2 = h @ map Shutdown (rev (initialized_providers c))" by blast
    with st Inl show ?thesis by (simp add: rt_run_def)
  next
    case (Inr u)
    let ?rt2 = "rt1\<lparr>rt_tasks := []\<rparr>"
    from inv1 have inv2: "rt_inv c h ?rt2" "rt_inv c h (rt_cancel ?rt2)" by (auto simp: rt_inv_def rt_cancel_def)
    show ?thesis
    proof (cases "\<exists>e. woken = WokenBySignal (Inl e)")
      case True
      then obtain e where e: "woken = WokenBySignal (Inl e)" by blast
      have "\<not> rt_cancelled rt" using st Inr by (auto simp: rt_start_def split: if_splits)
      with inv inv1 have "\<not> rt_shutdown rt1" "rt_history rt1 = h" by (auto simp: rt_inv_def split: if_splits)
      with st Inr e show ?thesis by (simp add: rt_run_def)
    next
      case False
      let ?rt3 = "case woken of WokenByToken \<Rightarrow> ?rt2 | NoTasksLeft \<Rightarrow> ?rt2 | _ \<Rightarrow> rt_cancel ?rt2"
      have "rt_inv c h ?rt3" using inv2 by (cases woken) simp_all
      from down [OF this] obtain q rt4 where d: "rt_shut_down prog root joined drain ?rt3 = Some (q, rt4)"
        "rt_shutdown rt4" "rt_history rt4 = h @ map Shutdown (rev (initialized_providers c))" by blast
      then show ?thesis
      proof (cases woken)
        case (WokenBySignal sr)
        with False obtain x where "sr = Inr x" by (cases sr) auto
        with st Inr d WokenBySignal show ?thesis by (simp add: rt_run_def Let_def)
      qed (use st Inr d in \<open>simp_all add: rt_run_def Let_def\<close>)
    qed
  qed
qed

section \<open>Witnesses\<close>

definition open_jetstream :: jetstream where
  "open_jetstream = \<lparr>js_create_stream = (\<lambda>_ subjects. Inr subjects), js_create_consumer = (\<lambda>_ config. Inr config),
     js_messages = (\<lambda>_. Inr ()), js_subscribe = (\<lambda>_ _. Inr ()), js_flush = Inr ()\<rparr>"

definition service_options :: nats_options where
  "service_options = nats_dead_letter_subject ''dead'' (nats_jetstream_stream ''events''
     (nats_service_name ''svc'' (NatsTransportOptions_new ''nats'')))"

definition two_handlers :: "message_handler list" where
  "two_handlers = [\<lparr>mh_kind = Event, mh_pattern = ''a.b'', mh_closure = 0\<rparr>,
     \<lparr>mh_kind = Command, mh_pattern = ''c.d'', mh_closure = 1\<rparr>]"

lemma two_handlers_start:
  "start_subscriptions (\<lambda>_. []) open_jetstream service_options two_handlers =
    Some (Inr [EventTask (two_handlers ! 0), CommandTask (two_handlers ! 1)])"
proof -
  have opts: "no_service_name service_options = Some ''svc''" "no_dead_letter_subject service_options = Some ''dead''"
    "no_jetstream_stream service_options = Some ''events''"
    by (simp_all add: service_options_def nats_dead_letter_subject_def nats_jetstream_stream_def nats_service_name_def)
  have "trim ''svc'' \<noteq> []" by code_simp
  then have service: "service_of two_handlers service_options = Inr (Some ''svc'')"
    by (simp add: service_of_def queue_group_def opts two_handlers_def)
  have subjects: "event_subjects two_handlers service_options = [''a.b'', ''dead'']"
    "event_handlers_of two_handlers = [two_handlers ! 0]" "command_handlers_of two_handlers = [two_handlers ! 1]"
    by (simp_all add: event_subjects_def event_handlers_of_def command_handlers_of_def opts two_handlers_def)
  have dead: "check_dead_letter two_handlers service_options = Inr ()"
    by (simp add: check_dead_letter_def opts two_handlers_def nats_pattern_matches_def valid_nats_subject_def
        has_whitespace_def ws_encodings_def sublist_Cons_right)
  have stream: "open_stream open_jetstream service_options [''a.b'', ''dead''] = Inr ()"
    by (simp add: open_stream_def opts open_jetstream_def nats_pattern_covers_def)
  have event: "subscribe_event (\<lambda>_. []) open_jetstream service_options ''svc'' h = Inr (EventTask h)" for h
    by (simp add: subscribe_event_def open_jetstream_def event_consumer_config_def Let_def)
  have command: "subscribe_command open_jetstream ''svc'' h = Inr (CommandTask h)" for h
    by (simp add: subscribe_command_def open_jetstream_def)
  have flush: "js_flush open_jetstream = Inr ()" by (simp add: open_jetstream_def)
  show ?thesis
    by (simp add: start_subscriptions_def Let_def service subjects dead stream event command flush)
qed

lemma start_topology_safe_witness:
  "\<not> nats_pattern_matches ''a.b'' ''dead'' \<and> \<not> nats_pattern_matches ''c.d'' ''dead''"
proof -
  have "no_dead_letter_subject service_options = Some ''dead''"
    by (simp add: service_options_def nats_dead_letter_subject_def)
  with start_topology_safe [OF two_handlers_start] have
    "\<forall>h\<in>set two_handlers. \<not> nats_pattern_matches (mh_pattern h) ''dead''" by blast
  then show ?thesis by (simp add: two_handlers_def)
qed

lemma runtime_shuts_down_once_witness:
  "\<exists>c h rt. build_container_with_setup shop_program App (register_instance 99 0) = Some (Inr c, h) \<and>
     rt_calls shop_program App (\<lambda>_. []) [StartCall open_jetstream, ShutdownCall \<lparr>jn_outcomes = [], jn_timed_out = False\<rparr> (Inr ()), CancelCall,
       ShutdownCall \<lparr>jn_outcomes = [], jn_timed_out = False\<rparr> (Inr ())]
       (MicroserviceRuntime_new c service_options two_handlers h) = Some rt \<and>
     rt_history rt = h @ [Shutdown 12, Shutdown 11, Shutdown 10]"
proof -
  from shop_built_with_setup obtain c h where
    b: "build_container_with_setup shop_program App (register_instance 99 0) = Some (Inr c, h)"
    and i: "initialized_providers c = [10, 11, 12]" by blast
  show ?thesis
    using runtime_shuts_down_once [OF b, of "\<lambda>_. []" "[StartCall open_jetstream,
        ShutdownCall \<lparr>jn_outcomes = [], jn_timed_out = False\<rparr> (Inr ()), CancelCall,
        ShutdownCall \<lparr>jn_outcomes = [], jn_timed_out = False\<rparr> (Inr ())]" service_options two_handlers] b i
    by (auto simp: is_shutdown_def)
qed

lemma run_shuts_down_witness:
  "\<exists>c h r rt. rt_run shop_program App (\<lambda>_. []) open_jetstream (WokenBySignal (Inl ''no signal'')) False
     \<lparr>jn_outcomes = [], jn_timed_out = False\<rparr> (Inr ()) (MicroserviceRuntime_new c service_options two_handlers h) = Some (r, rt) \<and>
     r = Inl (TransportError ''no signal'') \<and> \<not> rt_shutdown rt \<and> rt_history rt = h \<and> initialized_providers c = [10, 11, 12]"
proof -
  from shop_built_with_setup obtain c h where
    b: "build_container_with_setup shop_program App (register_instance 99 0) = Some (Inr c, h)"
    and i: "initialized_providers c = [10, 11, 12]" by blast
  let ?rt = "MicroserviceRuntime_new c service_options two_handlers h"
  have calls: "rt_calls shop_program App (\<lambda>_. []) [] ?rt = Some ?rt" by simp
  have start: "rt_start (\<lambda>_. []) open_jetstream ?rt = Some (Inr (), ?rt\<lparr>rt_tasks := [EventTask (two_handlers ! 0),
      CommandTask (two_handlers ! 1)], rt_started := True\<rparr>)"
    using two_handlers_start by (simp add: rt_start_def MicroserviceRuntime_new_def)
  from run_shuts_down_unless_signal_fails [OF b calls, of open_jetstream "WokenBySignal (Inl ''no signal'')" False
      "\<lparr>jn_outcomes = [], jn_timed_out = False\<rparr>" "Inr ()"] start i
  show ?thesis by auto
qed

end
