(* ===== verification/RedisTransport.thy ===== *)
theory RedisTransport
  imports Commands Consumers Lifecycle
begin

text \<open>
  The Redis Streams transport, \<open>crates/caelix-microservices/src/redis_transport.rs\<close>: options and
  their validation, the client, the task of a stream entry for commands and for events, names.

  The task of an entry is modelled by the requests it makes of the broker and the handler, in order;
  the answer to each request is an argument that may depend on the requests so far. Conversions of
  Redis values, the hash and the encoders are arguments. \<open>ticks\<close> is how often the heartbeat fires
  before the handler ends.
\<close>

section \<open>Options\<close>

record redis_options =
  ro_server :: str
  ro_service_name :: "str option"
  ro_event_stream :: str
  ro_dead_letter_stream :: "str option"
  ro_rpc_timeout :: nat
  ro_max_request_bytes :: nat
  ro_max_response_bytes :: nat
  ro_max_event_bytes :: nat
  ro_max_handler_concurrency :: nat
  ro_shutdown_timeout :: nat
  ro_max_event_deliveries :: nat
  ro_event_retry_delay :: nat
  ro_command_recovery_delay :: nat
  ro_approximate_max_event_entries :: "nat option"

definition RedisTransportOptions_new :: "str \<Rightarrow> redis_options" where
  "RedisTransportOptions_new server =
     \<lparr>ro_server = server, ro_service_name = None, ro_event_stream = ''caelix:events'',
      ro_dead_letter_stream = None, ro_rpc_timeout = secs 5, ro_max_request_bytes = 1024 * 1024,
      ro_max_response_bytes = 1024 * 1024, ro_max_event_bytes = 1024 * 1024,
      ro_max_handler_concurrency = 64, ro_shutdown_timeout = secs 10, ro_max_event_deliveries = 5,
      ro_event_retry_delay = secs 1, ro_command_recovery_delay = secs 30,
      ro_approximate_max_event_entries = None\<rparr>"

definition redis_service_name :: "str \<Rightarrow> redis_options \<Rightarrow> redis_options" where
  "redis_service_name v opts = opts\<lparr>ro_service_name := Some v\<rparr>"

definition redis_event_stream :: "str \<Rightarrow> redis_options \<Rightarrow> redis_options" where
  "redis_event_stream v opts = opts\<lparr>ro_event_stream := v\<rparr>"

definition redis_dead_letter_stream :: "str \<Rightarrow> redis_options \<Rightarrow> redis_options" where
  "redis_dead_letter_stream v opts = opts\<lparr>ro_dead_letter_stream := Some v\<rparr>"

definition redis_rpc_timeout :: "nat \<Rightarrow> redis_options \<Rightarrow> redis_options" where
  "redis_rpc_timeout v opts = opts\<lparr>ro_rpc_timeout := v\<rparr>"

definition redis_max_request_bytes :: "nat \<Rightarrow> redis_options \<Rightarrow> redis_options" where
  "redis_max_request_bytes v opts = opts\<lparr>ro_max_request_bytes := max v 1\<rparr>"

definition redis_max_response_bytes :: "nat \<Rightarrow> redis_options \<Rightarrow> redis_options" where
  "redis_max_response_bytes v opts = opts\<lparr>ro_max_response_bytes := max v MINIMUM_RESPONSE_ENVELOPE_BYTES\<rparr>"

definition redis_max_event_bytes :: "nat \<Rightarrow> redis_options \<Rightarrow> redis_options" where
  "redis_max_event_bytes v opts = opts\<lparr>ro_max_event_bytes := max v 1\<rparr>"

definition redis_max_handler_concurrency :: "nat \<Rightarrow> redis_options \<Rightarrow> redis_options" where
  "redis_max_handler_concurrency v opts = opts\<lparr>ro_max_handler_concurrency := max v 1\<rparr>"

definition redis_shutdown_timeout :: "nat \<Rightarrow> redis_options \<Rightarrow> redis_options" where
  "redis_shutdown_timeout v opts = opts\<lparr>ro_shutdown_timeout := v\<rparr>"

definition redis_max_event_deliveries :: "nat \<Rightarrow> redis_options \<Rightarrow> redis_options" where
  "redis_max_event_deliveries v opts = opts\<lparr>ro_max_event_deliveries := max v 1\<rparr>"

definition redis_event_retry_delay :: "nat \<Rightarrow> redis_options \<Rightarrow> redis_options" where
  "redis_event_retry_delay v opts = opts\<lparr>ro_event_retry_delay := max v (millis 10)\<rparr>"

definition redis_command_recovery_delay :: "nat \<Rightarrow> redis_options \<Rightarrow> redis_options" where
  "redis_command_recovery_delay v opts = opts\<lparr>ro_command_recovery_delay := max v (millis 10)\<rparr>"

definition redis_approximate_max_event_entries :: "nat \<Rightarrow> redis_options \<Rightarrow> redis_options" where
  "redis_approximate_max_event_entries v opts = opts\<lparr>ro_approximate_max_event_entries := Some (max v 1)\<rparr>"

definition validate_client :: "redis_options \<Rightarrow> microservice_error + unit" where
  "validate_client opts =
     (if trim (ro_server opts) = [] then Inl (ConfigurationError ''Redis server URL must not be empty'')
      else if trim (ro_event_stream opts) = [] then Inl (ConfigurationError ''event_stream must not be empty'')
      else if (case ro_dead_letter_stream opts of None \<Rightarrow> False | Some s \<Rightarrow> trim s = [])
        then Inl (ConfigurationError ''dead-letter Stream must not be empty'')
      else if ro_dead_letter_stream opts = Some (ro_event_stream opts)
        then Inl (ConfigurationError ''dead-letter Stream must differ from the event Stream'')
      else if ro_rpc_timeout opts = 0 then Inl (ConfigurationError ''rpc_timeout must be greater than zero'')
      else if ro_shutdown_timeout opts = 0 then Inl (ConfigurationError ''shutdown_timeout must be greater than zero'')
      else Inr ())"

definition validate_options :: "redis_options \<Rightarrow> message_handler list \<Rightarrow> microservice_error + str" where
  "validate_options opts handlers =
     bind_result (validate_client opts) (\<lambda>_.
       (case ro_service_name opts of
          None \<Rightarrow> Inl (ConfigurationError ''service_name is required for Redis consumers'')
        | Some service \<Rightarrow>
            if trim service = [] then Inl (ConfigurationError ''service_name is required for Redis consumers'')
            else if list_ex (\<lambda>h. trim (mh_pattern h) = []) handlers
              then Inl (ConfigurationError ''message patterns must not be empty'')
            else Inr service))"

section \<open>Names\<close>

definition stable_name :: "(str \<Rightarrow> nat list) \<Rightarrow> str \<Rightarrow> str" where
  "stable_name sha256 v =
     concat (map show_hex (take 12 (sha256 v)))"

definition command_stream :: "(str \<Rightarrow> nat list) \<Rightarrow> str \<Rightarrow> str" where
  "command_stream sha256 subject = ''caelix:commands:'' @ stable_name sha256 subject"

definition command_group :: "(str \<Rightarrow> nat list) \<Rightarrow> str \<Rightarrow> str \<Rightarrow> str" where
  "command_group sha256 service subject =
     ''caelix-command-'' @ stable_name sha256 service @ ''-'' @ stable_name sha256 subject"

definition event_group :: "(str \<Rightarrow> nat list) \<Rightarrow> str \<Rightarrow> str" where
  "event_group sha256 service = ''caelix-events-'' @ stable_name sha256 service"

section \<open>Requests\<close>

record dead_letter_envelope =
  de_version :: nat
  de_subject :: str
  de_event :: event_envelope
  de_source_stream :: str
  de_source_group :: str
  de_consumer :: str
  de_deliveries :: nat
  de_failed_at_unix_millis :: nat
  de_error :: remote_error

datatype entry_action =
    Handle message_context json
  | TouchPending
  | AckEntry
  | AckDeleteEntry
  | PublishReply str str
  | AddDeadLetter str str

type_synonym entry_broker = "entry_action list \<Rightarrow> str + unit"

type_synonym entry_run = "(microservice_error + unit) \<times> entry_action list"

text \<open>One request whose failure is the result of the task.\<close>

definition request :: "entry_broker \<Rightarrow> entry_action \<Rightarrow> entry_action list \<Rightarrow> entry_run" where
  "request broker a log = (let log' = log @ [a] in (map_err TransportError (broker log'), log'))"

abbreviation ack_entry :: "entry_broker \<Rightarrow> entry_action list \<Rightarrow> entry_run" where
  "ack_entry broker \<equiv> request broker AckEntry"

abbreviation ack_delete :: "entry_broker \<Rightarrow> entry_action list \<Rightarrow> entry_run" where
  "ack_delete broker \<equiv> request broker AckDeleteEntry"

text \<open>\<open>Result::and\<close>.\<close>

definition and_result :: "'e + unit \<Rightarrow> 'e + unit \<Rightarrow> 'e + unit" where
  "and_result r s = (case r of Inl e \<Rightarrow> Inl e | Inr _ \<Rightarrow> s)"

text \<open>A field of an entry, converted to the type the caller wants.\<close>

type_synonym 'v entry = "(str \<times> 'v) list"

definition field :: "('v \<Rightarrow> str + 'a) \<Rightarrow> 'v entry \<Rightarrow> str \<Rightarrow> microservice_error + 'a" where
  "field from_redis entry name =
     (case map_of entry name of
        None \<Rightarrow> Inl (TransportError (''Redis Stream entry is missing `'' @ name @ ''`''))
      | Some v \<Rightarrow> map_err TransportError (from_redis v))"

definition delivery_attempt :: "nat \<Rightarrow> nat" where
  "delivery_attempt times_delivered = max times_delivered 1"

text \<open>The pending entry's delivery count as the broker reports it: nothing when it is not pending.\<close>

definition pending_attempt :: "str + nat option \<Rightarrow> microservice_error + nat" where
  "pending_attempt reply =
     map_err TransportError (case reply of Inl e \<Rightarrow> Inl e
       | Inr pending \<Rightarrow> Inr (case pending of None \<Rightarrow> 1 | Some n \<Rightarrow> delivery_attempt n))"

definition deadline_elapsed :: "nat \<Rightarrow> nat \<Rightarrow> bool" where
  "deadline_elapsed now deadline \<longleftrightarrow> deadline \<le> now"

definition heartbeat_interval :: "nat \<Rightarrow> nat" where
  "heartbeat_interval reclaim_after = max (reclaim_after div 2) (millis 1)"

section \<open>Command entries\<close>

definition publish_command_response_and_complete ::
    "codec \<Rightarrow> entry_broker \<Rightarrow> redis_options \<Rightarrow> request_envelope \<Rightarrow> reply_body \<Rightarrow> entry_action list \<Rightarrow> entry_run" where
  "publish_command_response_and_complete cd broker opts req bdy log =
     (case encode_response cd (rq_correlation_id req) bdy (ro_max_response_bytes opts) of
        Inl e \<Rightarrow> (case ack_delete broker log of (completion, log') \<Rightarrow>
            (and_result completion (Inl (ConfigurationError e)), log'))
      | Inr bytes \<Rightarrow>
          (case (case rq_reply_channel req of
                   Some channel \<Rightarrow> request broker (PublishReply channel bytes) log
                 | None \<Rightarrow> (Inr (), log)) of
             (publish_result, log1) \<Rightarrow>
               (case ack_delete broker log1 of (completion, log2) \<Rightarrow>
                  (and_result completion publish_result, log2))))"

definition publish_command_error_and_complete ::
    "codec \<Rightarrow> entry_broker \<Rightarrow> redis_options \<Rightarrow> request_envelope \<Rightarrow> str \<Rightarrow> str \<Rightarrow> entry_action list \<Rightarrow> entry_run" where
  "publish_command_error_and_complete cd broker opts req code msg log =
     publish_command_response_and_complete cd broker opts req
       (Failure \<lparr>re_code = code, re_message = msg, re_details = None, re_retryable = False\<rparr>) log"

definition malformed_request :: "request_envelope \<Rightarrow> bool" where
  "malformed_request req \<longleftrightarrow>
     rq_correlation_id req = [] \<or> length (rq_correlation_id req) > 128 \<or>
     (case rq_reply_channel req of None \<Rightarrow> True | Some channel \<Rightarrow> channel = [] \<or> length channel > 256)"

definition redis_command_context :: "message_handler \<Rightarrow> nat \<Rightarrow> request_envelope \<Rightarrow> message_context" where
  "redis_command_context handler cancellation req =
     MessageContext_new (mh_pattern handler) (rq_headers req) (Some (rq_correlation_id req))
       (map_option unix_millis_to_system_time (rq_deadline_unix_millis req)) cancellation None None"

definition process_command_entry ::
    "codec \<Rightarrow> ('v \<Rightarrow> str + str) \<Rightarrow> entry_broker \<Rightarrow> closures \<Rightarrow> nat \<Rightarrow> nat \<Rightarrow> redis_options \<Rightarrow> nat \<Rightarrow>
     message_handler \<Rightarrow> 'v entry \<Rightarrow> entry_run" where
  "process_command_entry cd to_bytes broker impl now ticks opts cancellation handler entry =
     (case field to_bytes entry ''envelope'' of
        Inl _ \<Rightarrow> ack_delete broker []
      | Inr bytes \<Rightarrow>
          if length bytes > ro_max_request_bytes opts then ack_delete broker []
          else
            (case dec_request cd bytes of
               Inl _ \<Rightarrow> ack_delete broker []
             | Inr req \<Rightarrow>
                 if malformed_request req then ack_delete broker []
                 else if rq_version req \<noteq> PROTOCOL_VERSION then
                   publish_command_error_and_complete cd broker opts req ''Protocol''
                     ''unsupported request protocol version'' []
                 else if (case rq_deadline_unix_millis req of None \<Rightarrow> False | Some d \<Rightarrow> deadline_elapsed now d) then
                   publish_command_error_and_complete cd broker opts req ''Deadline Exceeded''
                     ''request deadline elapsed before handler invocation'' []
                 else
                   (let ctx = redis_command_context handler cancellation req
                    in (case repeat_request broker TouchPending ticks [Handle ctx (rq_payload req)] of
                          (Inl e, log) \<Rightarrow> (Inl e, log)
                        | (Inr _, log) \<Rightarrow>
                            publish_command_response_and_complete cd broker opts req
                              (reply_to (invoke impl handler ctx (rq_payload req))) log))))"

section \<open>Event entries\<close>

text \<open>An entry with an event, or nothing when it has to be acknowledged unhandled.\<close>

definition event_of_fields ::
    "codec \<Rightarrow> ('v \<Rightarrow> str + str) \<Rightarrow> ('v \<Rightarrow> str + str) \<Rightarrow> redis_options \<Rightarrow> message_handler list \<Rightarrow> 'v entry \<Rightarrow>
     (str \<times> event_envelope \<times> message_handler) option" where
  "event_of_fields cd to_string to_bytes opts handlers entry =
     (case (field to_string entry ''subject'', field to_bytes entry ''envelope'') of
        (Inr subject, Inr bytes) \<Rightarrow>
          if length bytes > ro_max_event_bytes opts then None
          else
            (case dec_event cd bytes of
               Inl _ \<Rightarrow> None
             | Inr event \<Rightarrow>
                 if ev_version event = PROTOCOL_VERSION \<and> ev_event_id event \<noteq> [] then
                   (case find (\<lambda>h. mh_kind h = Event \<and> nats_pattern_matches (mh_pattern h) subject) handlers of
                      None \<Rightarrow> None
                    | Some handler \<Rightarrow> Some (subject, event, handler))
                 else None)
      | _ \<Rightarrow> None)"

definition finish_event_entry ::
    "(dead_letter_envelope \<Rightarrow> str + str) \<Rightarrow> entry_broker \<Rightarrow> nat \<Rightarrow> redis_options \<Rightarrow> str \<Rightarrow> str \<Rightarrow> str \<Rightarrow>
     str \<times> event_envelope \<Rightarrow> nat \<Rightarrow> json option result \<Rightarrow> entry_action list \<Rightarrow> entry_run" where
  "finish_event_entry enc_dead broker now opts stream grp consumer subject_event attempt r log =
     (case r of
        Inr _ \<Rightarrow> ack_entry broker log
      | Inl e \<Rightarrow>
          if is_client_error (ex_status e) then ack_entry broker log
          else if attempt \<ge> ro_max_event_deliveries opts then
            (case ro_dead_letter_stream opts of
               None \<Rightarrow> ack_entry broker log
             | Some dead_stream \<Rightarrow>
                 (case enc_dead \<lparr>de_version = PROTOCOL_VERSION, de_subject = fst subject_event,
                          de_event = snd subject_event, de_source_stream = stream, de_source_group = grp,
                          de_consumer = consumer, de_deliveries = attempt, de_failed_at_unix_millis = now,
                          de_error = into_remote (remote_from_exception e)\<rparr> of
                    Inl txt \<Rightarrow> (Inl (TransportError txt), log)
                  | Inr failure \<Rightarrow>
                      (case request broker (AddDeadLetter dead_stream failure) log of
                         (Inl _, log') \<Rightarrow> (Inr (), log')
                       | (Inr _, log') \<Rightarrow> ack_entry broker log')))
          else (Inr (), log))"

definition redis_event_context ::
    "str \<Rightarrow> str \<Rightarrow> nat \<Rightarrow> nat \<Rightarrow> str \<Rightarrow> event_envelope \<Rightarrow> message_context" where
  "redis_event_context stream consumer attempt cancellation subject event =
     MessageContext_new subject (ev_headers event) None None cancellation
       (Some \<lparr>dl_stream = Some stream, dl_consumer = Some consumer, dl_attempt = attempt\<rparr>) (Some (ev_event_id event))"

definition process_event_entry ::
    "codec \<Rightarrow> (dead_letter_envelope \<Rightarrow> str + str) \<Rightarrow> ('v \<Rightarrow> str + str) \<Rightarrow> ('v \<Rightarrow> str + str) \<Rightarrow> entry_broker \<Rightarrow>
     str + nat option \<Rightarrow> closures \<Rightarrow> nat \<Rightarrow> nat \<Rightarrow> redis_options \<Rightarrow> str \<Rightarrow> str \<Rightarrow> str \<Rightarrow> nat \<Rightarrow>
     message_handler list \<Rightarrow> 'v entry \<Rightarrow> entry_run" where
  "process_event_entry cd enc_dead to_string to_bytes broker pending impl now ticks opts stream grp consumer
       cancellation handlers entry =
     (case event_of_fields cd to_string to_bytes opts handlers entry of
        None \<Rightarrow> ack_entry broker []
      | Some (subject, event, handler) \<Rightarrow>
          (case pending_attempt pending of
             Inl e \<Rightarrow> (Inl e, [])
           | Inr attempt \<Rightarrow>
               (let ctx = redis_event_context stream consumer attempt cancellation subject event
                in (case repeat_request broker TouchPending ticks [Handle ctx (ev_payload event)] of
                      (Inl e, log) \<Rightarrow> (Inl e, log)
                    | (Inr _, log) \<Rightarrow>
                        finish_event_entry enc_dead broker now opts stream grp consumer (subject, event) attempt
                          (invoke impl handler ctx (ev_payload event)) log))))"

section \<open>Lemmas\<close>

definition handled :: "entry_action list \<Rightarrow> (message_context \<times> json) list" where
  "handled log = concat (map (\<lambda>a. case a of Handle c p \<Rightarrow> [(c, p)] | _ \<Rightarrow> []) log)"

lemma handled_simps [simp]:
  "handled [] = []" "handled (xs @ ys) = handled xs @ handled ys"
  "handled (Handle c p # xs) = (c, p) # handled xs"
  "handled (TouchPending # xs) = handled xs" "handled (AckEntry # xs) = handled xs"
  "handled (AckDeleteEntry # xs) = handled xs" "handled (PublishReply ch b # xs) = handled xs"
  "handled (AddDeadLetter s b # xs) = handled xs"
  by (simp_all add: handled_def)

lemma handled_replicate [simp]: "handled (replicate n TouchPending) = []"
  by (induction n) simp_all

lemma count_replicate_other [simp]: "a \<noteq> b \<Longrightarrow> count_list (replicate n a) b = 0"
  by (induction n) auto

lemma count_append [simp]: "count_list (xs @ ys) a = count_list xs a + count_list ys a"
  by (induction xs) auto

text \<open>Completing a command adds at most one reply, then removes the entry.\<close>

lemma complete_log:
  assumes "publish_command_response_and_complete cd broker opts req bdy log = (r, log')"
  shows "\<exists>replies. log' = log @ replies @ [AckDeleteEntry] \<and>
    (replies = [] \<or> (\<exists>channel bytes. replies = [PublishReply channel bytes] \<and>
       rq_reply_channel req = Some channel \<and> length bytes \<le> ro_max_response_bytes opts))"
  using assms
  by (auto simp: publish_command_response_and_complete_def request_def Let_def encode_response_Inr
      split: sum.splits option.splits prod.splits)

lemma process_command_entry_cases:
  assumes "process_command_entry cd to_bytes broker impl now ticks opts cancellation handler entry = (r, log)"
  obtains "ack_delete broker [] = (r, log)"
  | req code msg where "publish_command_error_and_complete cd broker opts req code msg [] = (r, log)"
  | req ctx e where "repeat_request broker TouchPending ticks [Handle ctx (rq_payload req)] = (Inl e, log)" "r = Inl e"
    "ctx = redis_command_context handler cancellation req"
    "\<forall>d. rq_deadline_unix_millis req = Some d \<longrightarrow> now < d"
  | req ctx log1 where "repeat_request broker TouchPending ticks [Handle ctx (rq_payload req)] = (Inr (), log1)"
    "ctx = redis_command_context handler cancellation req"
    "\<forall>d. rq_deadline_unix_millis req = Some d \<longrightarrow> now < d" "rq_version req = PROTOCOL_VERSION"
    "publish_command_response_and_complete cd broker opts req
       (reply_to (invoke impl handler ctx (rq_payload req))) log1 = (r, log)"
proof -
  show ?thesis
  proof (cases "field to_bytes entry ''envelope''")
    case (Inl e)
    with assms that(1) show ?thesis by (simp add: process_command_entry_def)
  next
    case (Inr bytes)
    show ?thesis
    proof (cases "length bytes > ro_max_request_bytes opts \<or> \<not> is_ok (dec_request cd bytes)")
      case True
      with assms that(1) Inr show ?thesis by (cases "dec_request cd bytes") (auto simp: process_command_entry_def split: if_splits)
    next
      case False
      then obtain req where req: "dec_request cd bytes = Inr req" by (cases "dec_request cd bytes") auto
      note unfold = assms [unfolded process_command_entry_def Inr sum.case req]
      let ?ctx = "redis_command_context handler cancellation req"
      let ?beats = "repeat_request broker TouchPending ticks [Handle ?ctx (rq_payload req)]"
      show ?thesis
      proof (cases "malformed_request req \<or> rq_version req \<noteq> PROTOCOL_VERSION \<or>
          (case rq_deadline_unix_millis req of None \<Rightarrow> False | Some d \<Rightarrow> deadline_elapsed now d)")
        case True
        with unfold False that(1,2) show ?thesis by (auto split: if_splits)
      next
        case live: False
        obtain q l where b: "?beats = (q, l)" by (cases ?beats)
        show ?thesis
        proof (cases q)
          case (Inl e)
          with unfold False live b that(3) [of ?ctx req e] show ?thesis
            by (auto simp: deadline_elapsed_def split: option.splits)
        next
          case (Inr u)
          with unfold False live b that(4) [of ?ctx req l] show ?thesis
            by (auto simp: deadline_elapsed_def split: option.splits)
        qed
      qed
    qed
  qed
qed

section \<open>Properties\<close>

text \<open>C21: The entry of a command is acknowledged and deleted exactly once, as the last request, after its handler
  has returned or when it is not called at all, whatever the broker answers to the reply. The one exception
  is a heartbeat that the broker refuses while the handler runs: then that is the last request, the task ends
  with its error, nothing is answered and the entry stays pending. The handler is called at most once, as the
  first action, and not at or after the deadline.\<close>

theorem command_entry_completed_once:
  assumes "process_command_entry cd to_bytes broker impl now ticks opts cancellation handler entry = (r, log)"
  shows "((\<exists>before. log = before @ [AckDeleteEntry] \<and> AckDeleteEntry \<notin> set before \<and> AckEntry \<notin> set before) \<or>
     (\<exists>ctx payload n fault. log = Handle ctx payload # replicate (Suc n) TouchPending \<and>
        broker log = Inl fault \<and> r = Inl (TransportError fault))) \<and>
    length (handled log) \<le> 1 \<and>
    (\<forall>(ctx, payload)\<in>set (handled log). hd log = Handle ctx payload \<and>
       (\<forall>d. mc_deadline ctx = Some d \<longrightarrow> millis now < d))"
  using assms
proof (cases rule: process_command_entry_cases)
  case 1
  then show ?thesis by (auto simp: request_def Let_def)
next
  case (2 req code msg)
  from complete_log [OF this [unfolded publish_command_error_and_complete_def]] show ?thesis by auto
next
  case (3 req ctx e)
  from repeat_request_log [OF 3(1)] 3(2) obtain n fault where
    n: "log = [Handle ctx (rq_payload req)] @ replicate n TouchPending" "r = Inl (TransportError fault)" "broker log = Inl fault"
    by blast
  have "n \<noteq> 0" using repeat_request_fails [OF 3(1)] n(1) by auto
  then obtain m where "n = Suc m" by (cases n) auto
  moreover have "\<forall>d. mc_deadline ctx = Some d \<longrightarrow> millis now < d"
    using 3(3,4) by (auto simp: redis_command_context_def MessageContext_new_def unix_millis_to_system_time_def millis_def)
  ultimately show ?thesis using n by auto
next
  case (4 req ctx log1)
  from repeat_request_log [OF 4(1)] obtain n where
    log1: "log1 = Handle ctx (rq_payload req) # replicate n TouchPending" by auto
  have "\<forall>d. mc_deadline ctx = Some d \<longrightarrow> millis now < d"
    using 4(2,3) by (auto simp: redis_command_context_def MessageContext_new_def unix_millis_to_system_time_def millis_def)
  moreover obtain replies where "log = log1 @ replies @ [AckDeleteEntry]"
    "replies = [] \<or> (\<exists>channel bytes. replies = [PublishReply channel bytes])"
    using complete_log [OF 4(5)] by blast
  ultimately show ?thesis by (auto simp: log1)
qed

text \<open>C20: An event whose handler fails with anything but a client error stays pending, to be delivered again,
  unless its deliveries are used up and, with a dead-letter stream configured, the broker has accepted a
  dead letter for it, whatever other requests fail.\<close>

theorem failed_redis_event_stays_pending:
  assumes run: "process_event_entry cd enc_dead to_string to_bytes broker pending impl now ticks opts stream grp
      consumer cancellation handlers entry = (r, log)"
    and event: "event_of_fields cd to_string to_bytes opts handlers entry = Some (subject, event, handler)"
    and fails: "\<And>ctx. invoke impl handler ctx (ev_payload event) = Inl e"
    and status: "\<not> is_client_error (ex_status e)"
    and acked: "AckEntry \<in> set log"
  shows "\<exists>attempt. pending_attempt pending = Inr attempt \<and> ro_max_event_deliveries opts \<le> attempt \<and>
    (\<forall>dead. ro_dead_letter_stream opts = Some dead \<longrightarrow>
       (\<exists>bytes before. AddDeadLetter dead bytes \<in> set log \<and> is_ok (broker (before @ [AddDeadLetter dead bytes]))))"
proof (cases "pending_attempt pending")
  case (Inl err)
  with run event acked show ?thesis by (simp add: process_event_entry_def)
next
  case (Inr attempt)
  let ?ctx = "redis_event_context stream consumer attempt cancellation subject event"
  obtain q l where b: "repeat_request broker TouchPending ticks [Handle ?ctx (ev_payload event)] = (q, l)"
    by (cases "repeat_request broker TouchPending ticks [Handle ?ctx (ev_payload event)]")
  from repeat_request_log [OF b] obtain n where "l = [Handle ?ctx (ev_payload event)] @ replicate n TouchPending" by blast
  then have none: "AckEntry \<notin> set l" by auto
  show ?thesis
  proof (cases q)
    case (Inl err)
    with run event b \<open>pending_attempt pending = Inr attempt\<close> have "log = l" by (simp add: process_event_entry_def Let_def)
    with none acked show ?thesis by simp
  next
    case (Inr u)
    with run event b \<open>pending_attempt pending = Inr attempt\<close> fails have
      fin: "finish_event_entry enc_dead broker now opts stream grp consumer (subject, event) attempt (Inl e) l = (r, log)"
      by (simp add: process_event_entry_def Let_def)
    with none acked status \<open>pending_attempt pending = Inr attempt\<close> show ?thesis
      by (auto simp: finish_event_entry_def request_def Let_def split: if_splits option.splits sum.splits)
        (metis is_ok_simps(1) map_err_Inr)
  qed
qed

section \<open>An error reply that does not fit\<close>

text \<open>
  When not even the fallback error fits the response limit, the entry is removed and the task ends with a
  configuration error, which ends the consumer loop. With the smallest limit of 256 bytes this is so for
  every response to a request with a correlation identifier of 128 bytes: the text of the fallback alone
  is longer than 128 bytes.
\<close>

lemma oversized_reply_fails_task:
  assumes "encode_response cd (rq_correlation_id req) bdy (ro_max_response_bytes opts) = Inl e"
    and "is_ok (broker (log @ [AckDeleteEntry]))"
  shows "publish_command_response_and_complete cd broker opts req bdy log =
    (Inl (ConfigurationError e), log @ [AckDeleteEntry])"
  using assms
  by (cases "broker (log @ [AckDeleteEntry])")
    (simp_all add: publish_command_response_and_complete_def request_def Let_def and_result_def)

section \<open>Client\<close>

text \<open>The requests of a call: the reply channel is subscribed before the command is added.\<close>

datatype call_action =
    SubscribeReply str
  | AddCommand str str
  | AwaitReply
  | AddEvent str "nat option" str str

type_synonym call_broker = "call_action list \<Rightarrow> str + unit"

definition call_step :: "call_broker \<Rightarrow> call_action \<Rightarrow> call_action list \<Rightarrow>
     (call_action list \<Rightarrow> (client_error + 'v) \<times> call_action list) \<Rightarrow> (client_error + 'v) \<times> call_action list" where
  "call_step broker a log k =
     (let log' = log @ [a] in case broker log' of Inl e \<Rightarrow> (Inl (Transport e), log') | Inr _ \<Rightarrow> k log')"

text \<open>
  \<open>reply\<close>: the next message of the subscription, none when it ends; its payload may fail to convert.
  \<open>elapsed\<close> is the time since the call began.
\<close>

definition request_inner ::
    "codec \<Rightarrow> (str \<Rightarrow> nat list) \<Rightarrow> call_broker \<Rightarrow> (str + str) option \<Rightarrow> ('p \<Rightarrow> str + json) \<Rightarrow> (json \<Rightarrow> str + 'v) \<Rightarrow>
     redis_options \<Rightarrow> str \<Rightarrow> nat \<Rightarrow> nat \<Rightarrow> str \<Rightarrow> 'p \<Rightarrow> (client_error + 'v) \<times> call_action list" where
  "request_inner cd sha256 broker reply to_value from_value opts uuid now elapsed subject payload =
     (if \<not> valid_nats_subject subject then
        (Inl (Protocol ''command subject must contain non-empty dot-separated tokens without wildcards''), [])
      else
        (let channel = ''caelix:reply:'' @ uuid in
         call_step broker (SubscribeReply channel) [] (\<lambda>log1.
           case to_value payload of
             Inl e \<Rightarrow> (Inl (Decode e), log1)
           | Inr v \<Rightarrow>
               (case encode_limited (enc_request cd)
                   \<lparr>rq_version = PROTOCOL_VERSION, rq_correlation_id = uuid,
                    rq_deadline_unix_millis = deadline_millis now (ro_rpc_timeout opts - elapsed),
                    rq_reply_channel = Some channel, rq_headers = [], rq_payload = v\<rparr>
                   (ro_max_request_bytes opts) of
                  Inl e \<Rightarrow> (Inl (Protocol e), log1)
                | Inr bytes \<Rightarrow>
                    call_step broker (AddCommand (command_stream sha256 subject) bytes) log1 (\<lambda>log2.
                      (case reply of
                         None \<Rightarrow> Inl (Transport ''Redis reply subscription ended'')
                       | Some (Inl e) \<Rightarrow> Inl (Decode e)
                       | Some (Inr response) \<Rightarrow> decode_response cd from_value uuid (ro_max_response_bytes opts) response,
                       log2 @ [AwaitReply]))))))"

text \<open>The whole call, when its timeout does not elapse first.\<close>

definition redis_request ::
    "bool \<Rightarrow> codec \<Rightarrow> (str \<Rightarrow> nat list) \<Rightarrow> call_broker \<Rightarrow> (str + str) option \<Rightarrow> ('p \<Rightarrow> str + json) \<Rightarrow> (json \<Rightarrow> str + 'v) \<Rightarrow>
     redis_options \<Rightarrow> str \<Rightarrow> nat \<Rightarrow> nat \<Rightarrow> str \<Rightarrow> 'p \<Rightarrow> client_error + 'v" where
  "redis_request timed_out cd sha256 broker reply to_value from_value opts uuid now elapsed subject payload =
     (if timed_out then Inl Timeout
      else fst (request_inner cd sha256 broker reply to_value from_value opts uuid now elapsed subject payload))"

definition redis_emit ::
    "codec \<Rightarrow> call_broker \<Rightarrow> ('p \<Rightarrow> str + json) \<Rightarrow> redis_options \<Rightarrow> str \<Rightarrow> nat \<Rightarrow> str \<Rightarrow> 'p \<Rightarrow>
     (client_error + unit) \<times> call_action list" where
  "redis_emit cd broker to_value opts uuid now subject payload =
     (if \<not> valid_nats_subject subject then
        (Inl (Protocol ''event subject must contain non-empty dot-separated tokens without wildcards''), [])
      else
        (case to_value payload of
           Inl e \<Rightarrow> (Inl (Decode e), [])
         | Inr v \<Rightarrow>
             (case encode_limited (enc_event cd)
                 \<lparr>ev_version = PROTOCOL_VERSION, ev_event_id = uuid, ev_headers = [], ev_payload = v,
                  ev_published_at_unix_millis = now\<rparr> (ro_max_event_bytes opts) of
                Inl e \<Rightarrow> (Inl (Protocol e), [])
              | Inr bytes \<Rightarrow>
                  call_step broker (AddEvent (ro_event_stream opts) (ro_approximate_max_event_entries opts) subject bytes) []
                    (\<lambda>log. (Inr (), log)))))"

section \<open>Consumer loops\<close>

text \<open>
  \<open>command_loop\<close> and \<open>event_loop\<close>: batches of entries are reclaimed or read, at most as many as the
  free capacity (the broker's COUNT), and a task is spawned for each. Errors of a broker request end
  the loop.
\<close>

inductive entry_loop_step :: "nat \<Rightarrow> 'm consumer \<Rightarrow> 'm consumer \<Rightarrow> bool" for concurrency where
  stop: "entry_loop_step concurrency c (c\<lparr>cn_cancelled := True\<rparr>)"
| leave: "cn_phase c = Consuming \<Longrightarrow> cn_cancelled c \<Longrightarrow> entry_loop_step concurrency c (c\<lparr>cn_phase := Draining\<rparr>)"
| joined: "cn_phase c = Consuming \<Longrightarrow> m \<in> set (cn_in_flight c) \<Longrightarrow>
     entry_loop_step concurrency c (complete_task m outcome c)"
| batch: "cn_phase c = Consuming \<Longrightarrow> length (cn_in_flight c) < concurrency \<Longrightarrow>
     length entries \<le> concurrency - length (cn_in_flight c) \<Longrightarrow>
     entry_loop_step concurrency c (fold spawn_task entries c)"
| fetch_failed: "cn_phase c = Consuming \<Longrightarrow> length (cn_in_flight c) < concurrency \<Longrightarrow>
     entry_loop_step concurrency c (return_error (TransportError e) c)"
| drained: "cn_phase c = Draining \<Longrightarrow> m \<in> set (cn_in_flight c) \<Longrightarrow>
     entry_loop_step concurrency c (complete_task m outcome c)"
| returned: "cn_phase c = Draining \<Longrightarrow> cn_in_flight c = [] \<Longrightarrow>
     entry_loop_step concurrency c (c\<lparr>cn_phase := Returned (Inr ())\<rparr>)"

definition command_loop_step :: "redis_options \<Rightarrow> 'm consumer \<Rightarrow> 'm consumer \<Rightarrow> bool" where
  "command_loop_step opts = entry_loop_step (ro_max_handler_concurrency opts)"

definition event_loop_step :: "redis_options \<Rightarrow> 'm consumer \<Rightarrow> 'm consumer \<Rightarrow> bool" where
  "event_loop_step opts = entry_loop_step (ro_max_handler_concurrency opts)"

lemma spawn_batch: "cn_phase c = Consuming \<Longrightarrow> length (cn_in_flight c) + length entries \<le> n \<Longrightarrow>
   consume_steps n sub c (fold spawn_task entries c)"
proof (induction entries arbitrary: c)
  case Nil
  then show ?case by (simp add: consume_steps.refl)
next
  case (Cons m entries)
  then have "consume_step n sub c (spawn_task m c)" by (intro consume_step.received) auto
  moreover have "consume_steps n sub (spawn_task m c) (fold spawn_task entries (spawn_task m c))"
    using Cons.prems by (intro Cons.IH) (simp_all add: spawn_task_def)
  ultimately show ?case by (auto intro: consume_steps.step)
qed

lemma one_step: "consume_step n sub c c' \<Longrightarrow> consume_steps n sub c c'"
  by (rule consume_steps.step [OF _ consume_steps.refl])

lemma entry_loop_refines: "entry_loop_step n c c' \<Longrightarrow> consume_steps n EventSubscription c c'"
proof (induction rule: entry_loop_step.induct)
  case (batch c entries)
  then show ?case by (intro spawn_batch) simp_all
qed (blast intro: one_step consume_step.intros)+

lemma consume_steps_reachable: "consume_steps n sub c c' \<Longrightarrow> consumer_reachable n sub c \<Longrightarrow> consumer_reachable n sub c'"
  by (induction rule: consume_steps.induct) (auto intro: consumer_reachable.step)

text \<open>C22: The batching loops of the Redis consumers refine the NATS consumer: each of their reachable
  states is one the one-message-at-a-time consumer reaches too, so they keep its bound and its
  accounting of messages.\<close>

theorem entry_loop_refines_consumer:
  assumes "(command_loop_step opts)\<^sup>*\<^sup>* consumer_start c \<or> (event_loop_step opts)\<^sup>*\<^sup>* consumer_start c"
  shows "consumer_reachable (ro_max_handler_concurrency opts) EventSubscription c \<and>
    length (cn_in_flight c) \<le> ro_max_handler_concurrency opts"
proof -
  from assms have "(entry_loop_step (ro_max_handler_concurrency opts))\<^sup>*\<^sup>* consumer_start c"
    by (simp add: command_loop_step_def event_loop_step_def)
  then have "consumer_reachable (ro_max_handler_concurrency opts) EventSubscription c"
  proof (induction rule: rtranclp_induct)
    case base
    show ?case by (rule consumer_reachable.start)
  next
    case (step c c')
    then show ?case by (blast intro: consume_steps_reachable entry_loop_refines)
  qed
  with consumer_reachable_inv [OF this] show ?thesis by (simp add: consumer_inv_def)
qed

section \<open>Runtime\<close>

text \<open>
  \<open>create_group\<close> accepts a group that exists: \<open>reply\<close> is the broker's answer, an error with its text.
\<close>

definition create_group :: "str + unit \<Rightarrow> microservice_error + unit" where
  "create_group reply =
     (case reply of
        Inr _ \<Rightarrow> Inr ()
      | Inl e \<Rightarrow> if sublist ''BUSYGROUP'' e then Inr () else Inl (TransportError e))"

text \<open>The groups that are created and the loops that are started, up to the first error.\<close>

definition start_loops ::
    "(str \<Rightarrow> nat list) \<Rightarrow> (str \<Rightarrow> str \<Rightarrow> str + unit) \<Rightarrow> redis_options \<Rightarrow> message_handler list \<Rightarrow>
     microservice_error + message_handler list list" where
  "start_loops sha256 xgroup opts handlers =
     bind_result (validate_options opts handlers) (\<lambda>service.
       bind_result
         (try_map (\<lambda>h. bind_result
             (create_group (xgroup (command_stream sha256 (mh_pattern h)) (command_group sha256 service (mh_pattern h))))
             (\<lambda>_. Inr [h])) (filter (\<lambda>h. mh_kind h = Command) handlers))
         (\<lambda>command_loops.
            if list_ex (\<lambda>h. mh_kind h = Event) handlers then
              bind_result (create_group (xgroup (ro_event_stream opts) (event_group sha256 service)))
                (\<lambda>_. Inr (command_loops @ [handlers]))
            else Inr command_loops))"

datatype loop_wake = LoopSignal "str + unit" | LoopEnded task_outcome

definition loop_wake_result :: "loop_wake \<Rightarrow> microservice_error + unit" where
  "loop_wake_result woken = (case woken of
     LoopSignal r \<Rightarrow> map_err TransportError r
   | LoopEnded (TaskEnded (Inr _)) \<Rightarrow> Inl (TransportError ''Redis transport task ended unexpectedly'')
   | LoopEnded (TaskEnded (Inl e)) \<Rightarrow> Inl e
   | LoopEnded (TaskPanicked txt) \<Rightarrow> Inl (TransportError (''Redis transport task panicked: '' @ txt)))"

definition shutdown_redis_tasks :: "bool \<Rightarrow> microservice_error + unit" where
  "shutdown_redis_tasks timed_out =
     (if timed_out then Inl (TransportError
        ''Redis transport shutdown deadline elapsed; unfinished handlers were aborted'') else Inr ())"

text \<open>
  Whatever the transport's result, the modules are shut down. \<open>c\<close> and \<open>h\<close> are the container and the
  history of calls of the lifecycle model; \<open>None\<close> is a panic.
\<close>

definition redis_run ::
    "('m::finite) program \<Rightarrow> 'm \<Rightarrow> (str \<Rightarrow> nat list) \<Rightarrow> (str \<Rightarrow> str \<Rightarrow> str + unit) \<Rightarrow> loop_wake \<Rightarrow> bool \<Rightarrow>
     redis_options \<Rightarrow> message_handler list \<Rightarrow> container \<Rightarrow> history \<Rightarrow>
     ((microservice_error + unit) \<times> container \<times> history) option" where
  "redis_run prog root sha256 xgroup woken timed_out opts handlers c h =
     (let runtime_result = bind_result (start_loops sha256 xgroup opts handlers) (\<lambda>_. loop_wake_result woken);
          task_shutdown = shutdown_redis_tasks timed_out
      in (case shutdown_module prog root c h of
            None \<Rightarrow> None
          | Some (r, c', h') \<Rightarrow>
              Some (and_result (and_result runtime_result task_shutdown) (map_err (FrameworkError \<circ> ex_message) r), c', h')))"

text \<open>\<open>RedisRuntime::new\<close>: \<open>connected\<close> is the broker's answer to the connection.\<close>

definition RedisRuntime_new ::
    "('m::finite) program \<Rightarrow> 'm \<Rightarrow> str + unit \<Rightarrow> type_id \<Rightarrow> nat \<Rightarrow> redis_options \<Rightarrow>
     ((microservice_error + container \<times> message_handler list) \<times> history) option" where
  "RedisRuntime_new prog root connected ty client opts =
     (case bind_result (validate_options opts []) (\<lambda>_. bind_result (validate_client opts) (\<lambda>_.
             map_err TransportError connected)) of
        Inl e \<Rightarrow> Some (Inl e, [])
      | Inr _ \<Rightarrow>
          (case build_container_with_setup prog root (register_instance ty client) of
             None \<Rightarrow> None
           | Some (Inl e, h) \<Rightarrow> Some (Inl (FrameworkError (ex_message e)), h)
           | Some (Inr c, h) \<Rightarrow>
               (case collect_module_message_handlers_with_container prog root (Some c) of
                  None \<Rightarrow> None
                | Some (Inl e) \<Rightarrow> Some (Inl (FrameworkError (ex_message e)), h)
                | Some (Inr handlers) \<Rightarrow>
                    (case validate_options opts handlers of
                       Inl e \<Rightarrow> Some (Inl e, h)
                     | Inr _ \<Rightarrow> Some (Inr (c, handlers), h)))))"

section \<open>Witnesses\<close>

definition redis_sample_request :: request_envelope where
  "redis_sample_request = \<lparr>rq_version = 1, rq_correlation_id = ''id'', rq_deadline_unix_millis = Some 9000,
     rq_reply_channel = Some ''reply'', rq_headers = [], rq_payload = JNull\<rparr>"

text \<open>A handler during which the third heartbeat is refused.\<close>

definition tired_broker :: entry_broker where
  "tired_broker log = (if length (filter (\<lambda>a. a = TouchPending) log) < 3 then Inr () else Inl ''down'')"

lemma command_entry_completed_once_witness:
  "length (handled (snd (process_command_entry (sample_codec redis_sample_request sample_response) Inr tired_broker
     (\<lambda>_ _ _. Inr (Some (JBool True))) 2000 5 (RedisTransportOptions_new ''redis'') 7 sample_handler
     [(''envelope'', request_text)]))) \<le> 1"
  by (rule conjunct1 [OF conjunct2 [OF command_entry_completed_once [OF surjective_pairing]]])

definition redis_event_codec :: codec where
  "redis_event_codec =
     (sample_codec redis_sample_request sample_response)\<lparr>dec_event := \<lambda>b. if b = ''v'' then
        Inr \<lparr>ev_version = 1, ev_event_id = ''e'', ev_headers = [], ev_payload = JNull, ev_published_at_unix_millis = 5\<rparr>
        else Inl ''malformed''\<rparr>"

lemma failed_redis_event_stays_pending_witness:
  "\<exists>attempt. pending_attempt (Inr (Some 5)) = Inr attempt \<and>
     ro_max_event_deliveries (redis_dead_letter_stream ''dead'' (RedisTransportOptions_new ''redis'')) \<le> attempt"
proof -
  let ?opts = "redis_dead_letter_stream ''dead'' (RedisTransportOptions_new ''redis'')"
  let ?handler = "\<lparr>mh_kind = Event, mh_pattern = ''a.b'', mh_closure = 0\<rparr>"
  let ?event = "\<lparr>ev_version = 1, ev_event_id = ''e'', ev_headers = [], ev_payload = JNull, ev_published_at_unix_millis = 5\<rparr>"
  let ?error = "InternalServerErrorException (OtherError ''down'')"
  let ?run = "process_event_entry redis_event_codec (\<lambda>_. Inr ''d'') Inr Inr (\<lambda>_. Inr ()) (Inr (Some 5))
      (\<lambda>_ _ _. Inl ?error) 2000 1 ?opts ''s'' ''g'' ''c'' 7 [?handler] [(''subject'', ''a.b''), (''envelope'', ''v'')]"
  have event: "event_of_fields redis_event_codec Inr Inr ?opts [?handler] [(''subject'', ''a.b''), (''envelope'', ''v'')] =
      Some (''a.b'', ?event, ?handler)"
    by (simp add: event_of_fields_def field_def redis_event_codec_def PROTOCOL_VERSION_def nats_pattern_matches_def
        redis_dead_letter_stream_def RedisTransportOptions_new_def)
  have status: "\<not> is_client_error (ex_status ?error)"
    by (simp add: InternalServerErrorException_def HttpException_new_def with_source_def is_client_error_def)
  have "AckEntry \<in> set (snd ?run)"
    by (simp add: process_event_entry_def event Let_def pending_attempt_def delivery_attempt_def invoke_def
        finish_event_entry_def request_def status) (simp add: redis_dead_letter_stream_def RedisTransportOptions_new_def
          request_def)
  from failed_redis_event_stays_pending [OF surjective_pairing event _ status this]
  show ?thesis by (auto simp: invoke_def)
qed

lemma entry_loop_witness:
  "consumer_reachable 64 EventSubscription (fold spawn_task [1::nat, 2] consumer_start)"
proof -
  let ?opts = "RedisTransportOptions_new ''redis''"
  have "command_loop_step ?opts consumer_start (fold spawn_task [1::nat, 2] consumer_start)"
    unfolding command_loop_step_def
    by (rule entry_loop_step.batch) (simp_all add: consumer_start_def RedisTransportOptions_new_def)
  then have "(command_loop_step ?opts)\<^sup>*\<^sup>* consumer_start (fold spawn_task [1::nat, 2] consumer_start)" by blast
  from entry_loop_refines_consumer [OF disjI1 [OF this]] show ?thesis
    by (simp add: RedisTransportOptions_new_def)
qed

end
