(* ===== verification/Events.thy ===== *)
theory Events
  imports ModuleGraph
begin

text \<open>
  The in-process event bus, \<open>crates/caelix-core/src/events.rs\<close>. Event types are type identities,
  events and handlers are numbers. The handler code is the application's: \<open>handle\<close> gives its result and
  what it does to the bus it may hold. A broadcast channel is the sequence of the events sent to it; a
  subscription is its position in that sequence. The locks cannot be poisoned, and every handler and
  channel is stored under its own type, so the type mismatch errors do not occur in the model.
\<close>

section \<open>The bus\<close>


record event_bus =
  eb_handlers :: "type_id \<Rightarrow> nat list option"
  eb_broadcasts :: "type_id \<Rightarrow> nat list option"




definition existing_sender :: "type_id \<Rightarrow> event_bus \<Rightarrow> nat list option" where
  "existing_sender ty bus = eb_broadcasts bus ty"


definition send_event :: "type_id \<Rightarrow> nat \<Rightarrow> event_bus \<Rightarrow> event_bus" where
  "send_event ty event bus =
     (case existing_sender ty bus of
        None \<Rightarrow> bus
      | Some sent \<Rightarrow> bus\<lparr>eb_broadcasts := (eb_broadcasts bus)(ty \<mapsto> sent @ [event])\<rparr>)"

type_synonym event_code = "nat \<Rightarrow> nat \<Rightarrow> event_bus \<Rightarrow> unit result \<times> event_bus"

text \<open>The handlers, in order, up to the first error; the calls made are listed.\<close>

fun run_handlers :: "event_code \<Rightarrow> nat \<Rightarrow> nat list \<Rightarrow> event_bus \<Rightarrow> unit result \<times> event_bus \<times> nat list" where
  "run_handlers handle event [] bus = (Inr (), bus, [])"
| "run_handlers handle event (h # hs) bus =
     (case handle h event bus of
        (Inl e, bus1) \<Rightarrow> (Inl e, bus1, [h])
      | (Inr _, bus1) \<Rightarrow>
          (case run_handlers handle event hs bus1 of (r, bus2, calls) \<Rightarrow> (r, bus2, h # calls)))"

text \<open>The handlers are those registered when the emission begins.\<close>

definition bus_emit :: "event_code \<Rightarrow> type_id \<Rightarrow> nat \<Rightarrow> event_bus \<Rightarrow> unit result \<times> event_bus \<times> nat list" where
  "bus_emit handle ty event bus =
     (case run_handlers handle event (case eb_handlers bus ty of None \<Rightarrow> [] | Some hs \<Rightarrow> hs) bus of
        (Inl e, bus1, calls) \<Rightarrow> (Inl e, bus1, calls)
      | (Inr _, bus1, calls) \<Rightarrow> (Inr (), send_event ty event bus1, calls))"

definition handler_count :: "type_id \<Rightarrow> event_bus \<Rightarrow> nat" where
  "handler_count ty bus = (case eb_handlers bus ty of None \<Rightarrow> 0 | Some hs \<Rightarrow> length hs)"

section \<open>Sequences of operations\<close>






text \<open>Handlers that do not use the bus themselves.\<close>

definition bus_free :: "event_code \<Rightarrow> bool" where
  "bus_free handle \<longleftrightarrow> (\<forall>h event bus. snd (handle h event bus) = bus)"

section \<open>Lemmas\<close>

lemma run_handlers_bus_free: "bus_free handle \<Longrightarrow> fst (snd (run_handlers handle event hs bus)) = bus"
proof (induction hs)
  case (Cons h hs)
  obtain r bus1 where h: "handle h event bus = (r, bus1)" by (cases "handle h event bus")
  with Cons.prems have "bus1 = bus" by (metis bus_free_def snd_conv)
  with Cons h show ?case by (cases r) (auto split: prod.splits)
qed simp

lemma run_handlers_calls:
  assumes "run_handlers handle event hs bus = (r, bus', calls)"
  shows "prefix calls hs \<and> (is_ok r \<longrightarrow> calls = hs) \<and> (\<not> is_ok r \<longrightarrow> calls \<noteq> [])"
  using assms
proof (induction hs arbitrary: bus r bus' calls)
  case (Cons h hs)
  obtain q bus1 where h: "handle h event bus = (q, bus1)" by (cases "handle h event bus")
  show ?case
  proof (cases q)
    case (Inl e)
    with Cons.prems h show ?thesis by auto
  next
    case (Inr u)
    obtain r2 bus2 calls2 where rest: "run_handlers handle event hs bus1 = (r2, bus2, calls2)"
      by (cases "run_handlers handle event hs bus1")
    with Cons.prems h Inr Cons.IH [OF rest] show ?thesis by auto
  qed
qed simp

lemma emit_bus:
  assumes "bus_free handle" "bus_emit handle ty event bus = (r, bus', calls)"
  shows "bus' = (if is_ok r then send_event ty event bus else bus)"
proof -
  let ?run = "run_handlers handle event (case eb_handlers bus ty of None \<Rightarrow> [] | Some hs \<Rightarrow> hs) bus"
  obtain q bus1 cs where run: "?run = (q, bus1, cs)" by (cases ?run)
  with run_handlers_bus_free [OF assms(1)] have "bus1 = bus" by (metis fst_conv snd_conv)
  with assms(2) run show ?thesis by (cases q) (auto simp: bus_emit_def)
qed



section \<open>Properties\<close>


text \<open>Handlers run in the order of registration up to the first that fails, and emitting allocates no channel.\<close>

theorem emit_runs_handlers_in_order:
  assumes "bus_free handle" "bus_emit handle ty event bus = (r, bus', calls)"
  shows "prefix calls (case eb_handlers bus ty of None \<Rightarrow> [] | Some hs \<Rightarrow> hs) \<and>
    (is_ok r \<longleftrightarrow> (\<forall>h\<in>set (case eb_handlers bus ty of None \<Rightarrow> [] | Some hs \<Rightarrow> hs). is_ok (fst (handle h event bus)))) \<and>
    dom (eb_broadcasts bus') = dom (eb_broadcasts bus)"
proof -
  let ?hs = "case eb_handlers bus ty of None \<Rightarrow> [] | Some hs \<Rightarrow> hs"
  have ok: "is_ok (fst (run_handlers handle event hs bus)) \<longleftrightarrow> (\<forall>h\<in>set hs. is_ok (fst (handle h event bus)))" for hs
  proof (induction hs)
    case (Cons h hs)
    obtain q bus1 where h: "handle h event bus = (q, bus1)" by (cases "handle h event bus")
    with assms(1) have "bus1 = bus" by (metis bus_free_def snd_conv)
    with Cons h show ?case by (cases q) (auto split: prod.splits)
  qed simp
  obtain q bus1 cs where run: "run_handlers handle event ?hs bus = (q, bus1, cs)"
    by (cases "run_handlers handle event ?hs bus")
  with assms(2) have "calls = cs" "is_ok r = is_ok q" by (cases q; auto simp: bus_emit_def)+
  with run_handlers_calls [OF run] ok [of ?hs] run emit_bus [OF assms] show ?thesis
    by (auto simp: send_event_def existing_sender_def dom_def split: option.splits if_splits)
qed

section \<open>Witness\<close>



end
