(* ===== verification/Utf8.thy ===== *)
theory Utf8
  imports Prelude
begin

text \<open>
  UTF-8 as the standard library checks it (\<open>str::from_utf8\<close>, \<open>is_char_boundary\<close>): the sources cut close
  reasons at character boundaries and validate fragmented texts, raw close reasons and form fields.
\<close>

section \<open>UTF-8\<close>

abbreviation byte :: "char \<Rightarrow> nat" where "byte c \<equiv> of_char c"

definition continuation_byte :: "char \<Rightarrow> bool" where
  "continuation_byte c \<longleftrightarrow> 0x80 \<le> byte c \<and> byte c \<le> 0xBF"

definition utf8_width :: "char \<Rightarrow> nat" where
  "utf8_width a =
     (if byte a \<le> 0x7F then 1
      else if 0xC2 \<le> byte a \<and> byte a \<le> 0xDF then 2
      else if 0xE0 \<le> byte a \<and> byte a \<le> 0xEF then 3
      else if 0xF0 \<le> byte a \<and> byte a \<le> 0xF4 then 4
      else 0)"

definition second_byte :: "char \<Rightarrow> char \<Rightarrow> bool" where
  "second_byte a b \<longleftrightarrow>
     (if byte a = 0xE0 then 0xA0 \<le> byte b \<and> byte b \<le> 0xBF
      else if byte a = 0xED then 0x80 \<le> byte b \<and> byte b \<le> 0x9F
      else if byte a = 0xF0 then 0x90 \<le> byte b \<and> byte b \<le> 0xBF
      else if byte a = 0xF4 then 0x80 \<le> byte b \<and> byte b \<le> 0x8F
      else continuation_byte b)"

function valid_utf8 :: "str \<Rightarrow> bool" where
  "valid_utf8 [] = True"
| "valid_utf8 (a # xs) =
     (0 < utf8_width a \<and> utf8_width a \<le> Suc (length xs) \<and>
      (case xs of [] \<Rightarrow> True | b # _ \<Rightarrow> utf8_width a = 1 \<or> second_byte a b) \<and>
      list_all continuation_byte (take (utf8_width a - 1) xs) \<and>
      valid_utf8 (drop (utf8_width a - 1) xs))"
  by pat_completeness auto
termination by (relation "measure length") auto

declare valid_utf8.simps(2) [simp del]

definition is_char_boundary :: "str \<Rightarrow> nat \<Rightarrow> bool" where
  "is_char_boundary s i \<longleftrightarrow> i = 0 \<or> i = length s \<or> (i < length s \<and> \<not> continuation_byte (s ! i))"

lemma utf8_width_le: "utf8_width a \<le> 4"
  by (simp add: utf8_width_def)

lemma lead_byte: "0 < utf8_width a \<Longrightarrow> \<not> continuation_byte a"
  by (auto simp: utf8_width_def continuation_byte_def split: if_splits)

lemma boundary_split:
  assumes "valid_utf8 (a # xs)" "is_char_boundary (a # xs) i" "0 < i"
  shows "utf8_width a \<le> i"
proof (rule ccontr)
  assume "\<not> utf8_width a \<le> i"
  moreover from assms(1) have w: "utf8_width a \<le> Suc (length xs)"
      "list_all continuation_byte (take (utf8_width a - 1) xs)" by (simp_all add: valid_utf8.simps(2))
  ultimately have i: "i - 1 < utf8_width a - 1" "i < Suc (length xs)" using assms(3) by auto
  with w have "continuation_byte (take (utf8_width a - 1) xs ! (i - 1))"
    by (auto simp: list_all_length)
  with i assms(3) have "continuation_byte ((a # xs) ! i)" by (simp add: nth_Cons')
  with i assms(2,3) show False by (auto simp: is_char_boundary_def)
qed

lemma boundary_drop:
  assumes "is_char_boundary xs i" "n \<le> i"
  shows "is_char_boundary (drop n xs) (i - n)"
  using assms by (cases "i = n") (auto simp: is_char_boundary_def)

lemma valid_utf8_take: "valid_utf8 s \<Longrightarrow> is_char_boundary s i \<Longrightarrow> valid_utf8 (take i s)"
proof (induction s arbitrary: i rule: valid_utf8.induct)
  case (2 a xs)
  show ?case
  proof (cases "i = 0")
    case False
    let ?w = "utf8_width a"
    have w: "?w \<le> i" using boundary_split [OF "2.prems"] False by simp
    have v: "0 < ?w" "?w \<le> Suc (length xs)" "case xs of [] \<Rightarrow> True | b # _ \<Rightarrow> ?w = 1 \<or> second_byte a b"
      "list_all continuation_byte (take (?w - 1) xs)" "valid_utf8 (drop (?w - 1) xs)"
      using "2.prems"(1) by (simp_all add: valid_utf8.simps(2))
    have "is_char_boundary (drop ?w (a # xs)) (i - ?w)" by (rule boundary_drop [OF "2.prems"(2) w])
    then have b: "is_char_boundary (drop (?w - 1) xs) (i - ?w)" using v(1) by (simp add: drop_Cons')
    have i: "take i (a # xs) = a # take (i - 1) xs" using False by (simp add: take_Cons')
    have "valid_utf8 (drop (?w - 1) (take (i - 1) xs))"
      using "2.IH" [OF v(5) b] w v(1) by (simp add: drop_take)
    moreover have "take (?w - 1) (take (i - 1) xs) = take (?w - 1) xs" using w by (simp add: min_def)
    moreover have "?w \<le> Suc (length (take (i - 1) xs))" using v(2) w by simp
    moreover have "case take (i - 1) xs of [] \<Rightarrow> True | b # _ \<Rightarrow> ?w = 1 \<or> second_byte a b"
      using v(3) by (cases xs; cases "i - 1") auto
    ultimately show ?thesis unfolding i using v(1,4) by (simp add: valid_utf8.simps(2))
  qed simp
qed simp

lemma boundary_near: "valid_utf8 s \<Longrightarrow> i \<le> length s \<Longrightarrow> \<exists>j\<le>i. i \<le> j + 3 \<and> is_char_boundary s j"
proof (induction s arbitrary: i rule: valid_utf8.induct)
  case 1
  then show ?case by (auto simp: is_char_boundary_def)
next
  case (2 a xs)
  let ?w = "utf8_width a"
  have v: "0 < ?w" "?w \<le> Suc (length xs)" "valid_utf8 (drop (?w - 1) xs)"
    using "2.prems"(1) by (simp_all add: valid_utf8.simps(2))
  show ?case
  proof (cases "i < ?w")
    case True
    then have "i \<le> 3" using utf8_width_le [of a] by simp
    then show ?thesis by (auto simp: is_char_boundary_def intro: exI [of _ 0])
  next
    case False
    let ?rest = "drop (?w - 1) xs"
    have rest: "drop ?w (a # xs) = ?rest" using v(1) by (simp add: drop_Cons')
    from False "2.prems"(2) v have "i - ?w \<le> length ?rest" by simp
    from "2.IH" [OF v(3) this] obtain j where j: "j \<le> i - ?w" "i - ?w \<le> j + 3" "is_char_boundary ?rest j" by blast
    have "is_char_boundary (a # xs) (j + ?w)"
    proof (cases ?rest)
      case Nil
      with rest v(1,2) j(1,3) show ?thesis by (auto simp: is_char_boundary_def)
    next
      case (Cons b ys)
      with v(3) have "\<not> continuation_byte b" by (auto simp: valid_utf8.simps(2) dest: lead_byte)
      moreover have "?rest ! j = (a # xs) ! (j + ?w)" if "j < length ?rest"
        using that rest v(1) by (metis add.commute nth_drop v(2) length_Cons)
      moreover have "j < length ?rest \<Longrightarrow> \<not> continuation_byte (?rest ! j)"
        using j(3) calculation(1) unfolding Cons by (cases j) (auto simp: is_char_boundary_def)
      moreover have "j \<le> length ?rest" using j(3) by (auto simp: is_char_boundary_def)
      ultimately show ?thesis using v(1,2)
        by (cases "j = length ?rest") (auto simp: is_char_boundary_def)
    qed
    with j False show ?thesis by (intro exI [of _ "j + ?w"]) auto
  qed
qed

end
