(* ===== verification/WebSockets.thy ===== *)
theory WebSockets
  imports Exceptions Utf8 "HOL-Library.Word"
begin

text \<open>
  WebSocket sessions: close codes, frames and sessions of \<open>crates/caelix-core/src/websocket.rs\<close>, the
  sending half of \<open>crates/caelix-actix/src/actix_ws/session.rs\<close>, and the transport that joins them,
  \<open>ActixWebSocketTransport\<close> of \<open>crates/caelix-actix/src/websocket.rs\<close>.

  The queue of the sending half is the list of messages put into it. Its capacity makes senders wait and
  does not change the list. The numeric close codes of \<open>actix_http\<close> are their 16-bit values.
\<close>

section \<open>Close codes and frames\<close>

datatype close_code =
    Normal | GoingAway | Protocol | Unsupported | InvalidData | Policy | MessageTooBig | Internal
  | Restart | TryAgainLater | MandatoryExtension | BadGateway | Other "16 word"

fun as_u16 :: "close_code \<Rightarrow> 16 word" where
  "as_u16 Normal = 1000"
| "as_u16 GoingAway = 1001"
| "as_u16 Protocol = 1002"
| "as_u16 Unsupported = 1003"
| "as_u16 InvalidData = 1007"
| "as_u16 Policy = 1008"
| "as_u16 MessageTooBig = 1009"
| "as_u16 Internal = 1011"
| "as_u16 Restart = 1012"
| "as_u16 TryAgainLater = 1013"
| "as_u16 MandatoryExtension = 1010"
| "as_u16 BadGateway = 1014"
| "as_u16 (Other code) = code"

definition from_u16 :: "16 word \<Rightarrow> close_code option" where
  "from_u16 code =
     (if code = 1000 then Some Normal
      else if code = 1001 then Some GoingAway
      else if code = 1002 then Some Protocol
      else if code = 1003 then Some Unsupported
      else if code = 1007 then Some InvalidData
      else if code = 1008 then Some Policy
      else if code = 1009 then Some MessageTooBig
      else if code = 1010 then Some MandatoryExtension
      else if code = 1011 then Some Internal
      else if code = 1012 then Some Restart
      else if code = 1013 then Some TryAgainLater
      else if code = 1014 then Some BadGateway
      else if 3000 \<le> code \<and> code \<le> 4999 then Some (Other code)
      else None)"

definition is_valid :: "close_code \<Rightarrow> bool" where
  "is_valid c \<longleftrightarrow> from_u16 (as_u16 c) \<noteq> None"

definition is_server_sendable :: "close_code \<Rightarrow> bool" where
  "is_server_sendable c \<longleftrightarrow> is_valid c \<and> c \<noteq> MandatoryExtension"

record close_frame =
  cf_code :: close_code
  cf_reason :: str

definition WebSocketCloseFrame_new :: "close_code \<Rightarrow> str \<Rightarrow> close_frame" where
  "WebSocketCloseFrame_new code reason = \<lparr>cf_code = code, cf_reason = reason\<rparr>"

text \<open>The close reason of \<open>actix_http\<close>, and the conversions.\<close>

record close_reason =
  cr_code :: "16 word"
  cr_description :: "str option"

definition to_actix_close :: "close_frame \<Rightarrow> close_reason" where
  "to_actix_close frame = \<lparr>cr_code = as_u16 (cf_code frame), cr_description = Some (cf_reason frame)\<rparr>"

definition from_actix_close :: "close_reason \<Rightarrow> close_frame option" where
  "from_actix_close reason =
     map_option (\<lambda>code. WebSocketCloseFrame_new code (case cr_description reason of None \<Rightarrow> [] | Some d \<Rightarrow> d))
       (from_u16 (cr_code reason))"

section \<open>The sending half\<close>

datatype frame_item = FirstText str | FirstBinary str | Continue str | Last str

datatype ws_message =
    Text str | Binary str | Ping str | Pong str | Close "close_reason option" | Continuation frame_item | Nop

definition MAX_CONTROL_PAYLOAD_BYTES :: nat where "MAX_CONTROL_PAYLOAD_BYTES = 125"

definition MAX_CLOSE_REASON_BYTES :: nat where "MAX_CLOSE_REASON_BYTES = MAX_CONTROL_PAYLOAD_BYTES - 2"

text \<open>
  \<open>ch_inner\<close>: this handle still holds the sender. \<open>ch_receiver\<close>: the response body is still there to
  take messages. \<open>ch_sent\<close>: what was put into the queue.
\<close>

record ws_channel =
  ch_closed :: bool
  ch_inner :: bool
  ch_receiver :: bool
  ch_sent :: "ws_message list"

datatype closed = Closed

definition ws_channel_new :: ws_channel where
  "ws_channel_new = \<lparr>ch_closed = False, ch_inner = True, ch_receiver = True, ch_sent = []\<rparr>"

definition pre_check :: "ws_channel \<Rightarrow> ws_channel" where
  "pre_check ch = (if ch_closed ch then ch\<lparr>ch_inner := False\<rparr> else ch)"

definition send_message_inner :: "ws_message \<Rightarrow> ws_channel \<Rightarrow> (closed + unit) \<times> ws_channel" where
  "send_message_inner msg ch =
     (if ch_inner ch then
        (if ch_receiver ch then (Inr (), ch\<lparr>ch_sent := ch_sent ch @ [msg]\<rparr>) else (Inl Closed, ch))
      else (Inl Closed, ch))"

definition send_message :: "ws_message \<Rightarrow> ws_channel \<Rightarrow> (closed + unit) \<times> ws_channel" where
  "send_message msg ch = send_message_inner msg (pre_check ch)"

definition control_payload :: "str \<Rightarrow> str" where
  "control_payload msg =
     (if length msg > MAX_CONTROL_PAYLOAD_BYTES then take MAX_CONTROL_PAYLOAD_BYTES msg else msg)"

definition channel_ping :: "str \<Rightarrow> ws_channel \<Rightarrow> (closed + unit) \<times> ws_channel" where
  "channel_ping msg = send_message (Ping (control_payload msg))"

definition channel_pong :: "str \<Rightarrow> ws_channel \<Rightarrow> (closed + unit) \<times> ws_channel" where
  "channel_pong msg = send_message (Pong (control_payload msg))"

fun boundary_before :: "str \<Rightarrow> nat \<Rightarrow> nat" where
  "boundary_before s 0 = 0"
| "boundary_before s (Suc n) = (if is_char_boundary s (Suc n) then Suc n else boundary_before s n)"

definition truncate_description :: "str \<Rightarrow> str" where
  "truncate_description desc =
     (if length desc > MAX_CLOSE_REASON_BYTES then take (boundary_before desc MAX_CLOSE_REASON_BYTES) desc else desc)"

definition truncate_reason :: "close_reason option \<Rightarrow> close_reason option" where
  "truncate_reason reason =
     map_option (\<lambda>r. r\<lparr>cr_description := map_option truncate_description (cr_description r)\<rparr>) reason"

text \<open>Closing uses up a clone of the handle: only the clone loses its sender.\<close>

definition channel_close :: "close_reason option \<Rightarrow> ws_channel \<Rightarrow> (closed + unit) \<times> ws_channel" where
  "channel_close reason ch =
     (if ch_inner (pre_check ch)
      then send_message_inner (Close (truncate_reason reason)) (ch\<lparr>ch_closed := True\<rparr>)
      else (Inl Closed, ch))"

section \<open>Sessions\<close>

record ws_session =
  ws_open :: bool
  ws_close_frame :: "close_frame option"
  ws_channel :: ws_channel

definition WebSocketSession_new :: ws_session where
  "WebSocketSession_new = \<lparr>ws_open = True, ws_close_frame = None, ws_channel = ws_channel_new\<rparr>"

definition send_error :: "closed \<Rightarrow> http_exception" where
  "send_error e = HttpException_new 500 ''Internal Server Error'' ''Session is closed''"

definition ensure_open :: "ws_session \<Rightarrow> unit result" where
  "ensure_open s =
     (if ws_open s then Inr ()
      else Inl (HttpException_new 500 ''Internal Server Error'' ''websocket session is closed''))"

text \<open>The transport's sending methods: the channel operation, its error as an exception.\<close>

definition on_channel ::
    "(ws_channel \<Rightarrow> (closed + unit) \<times> ws_channel) \<Rightarrow> ws_session \<Rightarrow> unit result \<times> ws_session" where
  "on_channel f s =
     (case f (ws_channel s) of (r, ch) \<Rightarrow> (map_err send_error r, s\<lparr>ws_channel := ch\<rparr>))"

definition when_open ::
    "(ws_channel \<Rightarrow> (closed + unit) \<times> ws_channel) \<Rightarrow> ws_session \<Rightarrow> unit result \<times> ws_session" where
  "when_open f s = (case ensure_open s of Inl e \<Rightarrow> (Inl e, s) | Inr _ \<Rightarrow> on_channel f s)"

definition session_send_text :: "str \<Rightarrow> ws_session \<Rightarrow> unit result \<times> ws_session" where
  "session_send_text text = when_open (send_message (Text text))"

definition session_send_binary :: "str \<Rightarrow> ws_session \<Rightarrow> unit result \<times> ws_session" where
  "session_send_binary data = when_open (send_message (Binary data))"

definition session_ping :: "str \<Rightarrow> ws_session \<Rightarrow> unit result \<times> ws_session" where
  "session_ping data = when_open (channel_ping data)"

definition session_pong :: "str \<Rightarrow> ws_session \<Rightarrow> unit result \<times> ws_session" where
  "session_pong data = when_open (channel_pong data)"

definition transport_close :: "close_frame option \<Rightarrow> ws_session \<Rightarrow> unit result \<times> ws_session" where
  "transport_close frame s =
     (if (case frame of None \<Rightarrow> False | Some f \<Rightarrow> \<not> is_server_sendable (cf_code f))
      then (Inl (HttpException_new 400 ''Bad Request'' ''invalid websocket close code''), s)
      else on_channel (channel_close (map_option to_actix_close frame)) (s\<lparr>ws_open := False\<rparr>))"

definition session_close :: "close_frame option \<Rightarrow> ws_session \<Rightarrow> unit result \<times> ws_session" where
  "session_close frame s = transport_close frame (s\<lparr>ws_close_frame := frame\<rparr>)"

definition take_local_close_frame :: "ws_session \<Rightarrow> close_frame option \<times> ws_session" where
  "take_local_close_frame s = (ws_close_frame s, s\<lparr>ws_close_frame := None\<rparr>)"

text \<open>What the holders of a session can do with it; the response body may also be dropped.\<close>

datatype session_op =
    SendText str | SendBinary str | SendPing str | SendPong str | CloseSession "close_frame option" | DropBody

fun session_step :: "session_op \<Rightarrow> ws_session \<Rightarrow> unit result \<times> ws_session" where
  "session_step (SendText text) s = session_send_text text s"
| "session_step (SendBinary data) s = session_send_binary data s"
| "session_step (SendPing data) s = session_ping data s"
| "session_step (SendPong data) s = session_pong data s"
| "session_step (CloseSession frame) s = session_close frame s"
| "session_step DropBody s = (Inr (), s\<lparr>ws_channel := (ws_channel s)\<lparr>ch_receiver := False\<rparr>\<rparr>)"

fun session_steps :: "session_op list \<Rightarrow> ws_session \<Rightarrow> ws_session" where
  "session_steps [] s = s"
| "session_steps (op # ops) s = session_steps ops (snd (session_step op s))"

section \<open>Lemmas\<close>

lemma from_u16_Some: "from_u16 n = Some c \<Longrightarrow> as_u16 c = n"
  by (auto simp: from_u16_def split: if_splits)

lemma boundary_before_le: "boundary_before s n \<le> n"
  by (induction n) auto

lemma boundary_before_boundary: "is_char_boundary s (boundary_before s n)"
  by (induction n) (auto simp: is_char_boundary_def)

lemma boundary_before_greatest: "is_char_boundary s j \<Longrightarrow> j \<le> n \<Longrightarrow> j \<le> boundary_before s n"
  by (induction n) (auto simp: le_Suc_eq)

lemma truncate_description_fits:
  "length (truncate_description d) \<le> MAX_CLOSE_REASON_BYTES \<and> prefix (truncate_description d) d"
  using boundary_before_le [of d MAX_CLOSE_REASON_BYTES]
  by (auto simp: truncate_description_def take_is_prefix)

lemma truncate_description_valid: "valid_utf8 d \<Longrightarrow> valid_utf8 (truncate_description d)"
  by (simp add: truncate_description_def valid_utf8_take boundary_before_boundary)

lemma truncate_description_long:
  assumes "valid_utf8 d"
  shows "min (length d) (MAX_CLOSE_REASON_BYTES - 3) \<le> length (truncate_description d)"
proof (cases "length d > MAX_CLOSE_REASON_BYTES")
  case True
  then obtain j where "j \<le> MAX_CLOSE_REASON_BYTES" "MAX_CLOSE_REASON_BYTES \<le> j + 3" "is_char_boundary d j"
    using boundary_near [OF assms, of MAX_CLOSE_REASON_BYTES] by auto
  with boundary_before_greatest [of d j MAX_CLOSE_REASON_BYTES] True show ?thesis
    using boundary_before_le [of d MAX_CLOSE_REASON_BYTES] by (auto simp: truncate_description_def)
qed (simp add: truncate_description_def)

text \<open>The codes that may appear on the wire.\<close>

definition wire_codes :: "(16 word) set" where
  "wire_codes = {1000..1003} \<union> {1007..1014} \<union> {3000..4999}"

lemma wire_codes_iff: "n \<in> wire_codes \<longleftrightarrow> from_u16 n \<noteq> None"
proof -
  have "1000 \<le> n \<and> n \<le> 1003 \<longleftrightarrow> n = 1000 \<or> n = 1001 \<or> n = 1002 \<or> n = 1003"
    by unat_arith
  moreover have "1007 \<le> n \<and> n \<le> 1014 \<longleftrightarrow> n = 1007 \<or> n = 1008 \<or> n = 1009 \<or> n = 1010 \<or> n = 1011 \<or>
      n = 1012 \<or> n = 1013 \<or> n = 1014"
    by unat_arith
  ultimately show ?thesis by (auto simp: wire_codes_def from_u16_def)
qed

text \<open>Messages as they may go over the wire.\<close>

fun message_ok :: "ws_message \<Rightarrow> bool" where
  "message_ok (Text t) = valid_utf8 t"
| "message_ok (Ping d) = (length d \<le> 125)"
| "message_ok (Pong d) = (length d \<le> 125)"
| "message_ok (Close (Some r)) =
     (cr_code r \<in> wire_codes \<and>
      (case cr_description r of None \<Rightarrow> True | Some d \<Rightarrow> length d \<le> 123 \<and> valid_utf8 d))"
| "message_ok _ = True"

fun op_ok :: "session_op \<Rightarrow> bool" where
  "op_ok (SendText t) = valid_utf8 t"
| "op_ok (CloseSession (Some f)) = valid_utf8 (cf_reason f)"
| "op_ok _ = True"

definition is_close :: "ws_message \<Rightarrow> bool" where
  "is_close m \<longleftrightarrow> (case m of Close _ \<Rightarrow> True | _ \<Rightarrow> False)"

lemma is_close_simps [simp]:
  "is_close (Close r)" "\<not> is_close (Text t)" "\<not> is_close (Binary d)" "\<not> is_close (Ping d)" "\<not> is_close (Pong d)"
  by (simp_all add: is_close_def)

definition session_inv :: "ws_session \<Rightarrow> bool" where
  "session_inv s \<longleftrightarrow>
     (let sent = ch_sent (ws_channel s)
      in list_all message_ok sent \<and> list_all (Not \<circ> is_close) (butlast sent) \<and>
         (list_ex is_close sent \<longrightarrow> ch_closed (ws_channel s)) \<and> (ch_closed (ws_channel s) \<longrightarrow> \<not> ws_open s))"

lemma session_inv_send:
  assumes "session_inv s" "message_ok m" "\<not> is_close m"
  shows "session_inv (snd (when_open (send_message m) s))"
proof (cases "ws_open s")
  case True
  with assms(1) have closed: "\<not> ch_closed (ws_channel s)" by (simp add: session_inv_def Let_def)
  with assms(1) have "list_all (Not \<circ> is_close) (ch_sent (ws_channel s))"
    by (simp add: session_inv_def Let_def list_ex_iff list_all_iff)
  with assms closed True show ?thesis
    by (auto simp: session_inv_def when_open_def ensure_open_def on_channel_def send_message_def pre_check_def
        send_message_inner_def Let_def)
next
  case False
  with assms(1) show ?thesis by (simp add: when_open_def ensure_open_def)
qed

lemma close_message_ok:
  assumes "case frame of None \<Rightarrow> True | Some f \<Rightarrow> is_server_sendable (cf_code f) \<and> valid_utf8 (cf_reason f)"
  shows "message_ok (Close (truncate_reason (map_option to_actix_close frame)))"
  using assms truncate_description_fits [of "cf_reason (the frame)"]
    truncate_description_valid [of "cf_reason (the frame)"]
  by (cases frame) (simp_all add: truncate_reason_def to_actix_close_def wire_codes_iff is_server_sendable_def
      is_valid_def MAX_CLOSE_REASON_BYTES_def MAX_CONTROL_PAYLOAD_BYTES_def)

lemma session_inv_close:
  assumes "session_inv s" "case frame of None \<Rightarrow> True | Some f \<Rightarrow> valid_utf8 (cf_reason f)"
  shows "session_inv (snd (session_close frame s))"
proof (cases "case frame of None \<Rightarrow> False | Some f \<Rightarrow> \<not> is_server_sendable (cf_code f)")
  case True
  with assms show ?thesis by (simp add: session_close_def transport_close_def session_inv_def)
next
  case False
  with assms(2) have ok: "message_ok (Close (truncate_reason (map_option to_actix_close frame)))"
    by (intro close_message_ok) (auto split: option.splits)
  show ?thesis
  proof (cases "ch_closed (ws_channel s)")
    case True
    with assms(1) False show ?thesis
      by (simp add: session_close_def transport_close_def on_channel_def channel_close_def pre_check_def session_inv_def
          Let_def)
  next
    case still_open: False
    with assms(1) have "list_all (Not \<circ> is_close) (ch_sent (ws_channel s))"
      by (simp add: session_inv_def Let_def list_ex_iff list_all_iff)
    with assms(1) False still_open ok show ?thesis
      by (auto simp: session_close_def transport_close_def on_channel_def channel_close_def pre_check_def
          send_message_inner_def session_inv_def Let_def)
  qed
qed

lemma control_payload_fits: "length (control_payload d) \<le> 125"
  by (simp add: control_payload_def MAX_CONTROL_PAYLOAD_BYTES_def)

lemma session_step_inv: "session_inv s \<Longrightarrow> op_ok op \<Longrightarrow> session_inv (snd (session_step op s))"
proof (induction op s rule: session_step.induct)
  case (5 frame s)
  then show ?case by (auto intro!: session_inv_close split: option.splits)
next
  case (6 s)
  then show ?case by (simp add: session_inv_def)
qed (auto simp: session_send_text_def session_send_binary_def session_ping_def session_pong_def channel_ping_def
    channel_pong_def intro!: session_inv_send control_payload_fits)

lemma session_steps_inv: "session_inv s \<Longrightarrow> list_all op_ok ops \<Longrightarrow> session_inv (session_steps ops s)"
  by (induction ops s rule: session_steps.induct) (simp_all add: session_step_inv)

lemma session_inv_new: "session_inv WebSocketSession_new"
  by (simp add: session_inv_def WebSocketSession_new_def ws_channel_new_def)

section \<open>Properties\<close>

text \<open>Decoding a close code of the wire accepts exactly the assigned codes and 3000 to 4999 and encodes
  back to the same number; encoding and decoding a valid code gives it back unless it spells an assigned
  code as \<open>Other\<close>.\<close>

theorem close_codes_round_trip:
  "map_option as_u16 (from_u16 n) =
     (if 1000 \<le> n \<and> n \<le> 1003 \<or> 1007 \<le> n \<and> n \<le> 1014 \<or> 3000 \<le> n \<and> n \<le> 4999 then Some n else None) \<and>
   (from_u16 (as_u16 c) = Some c \<longleftrightarrow> is_valid c \<and> c \<notin> Other ` {1000..1014})"
proof (intro conjI)
  have "n \<in> wire_codes \<longleftrightarrow> from_u16 n \<noteq> None" by (rule wire_codes_iff)
  then show "map_option as_u16 (from_u16 n) =
     (if 1000 \<le> n \<and> n \<le> 1003 \<or> 1007 \<le> n \<and> n \<le> 1014 \<or> 3000 \<le> n \<and> n \<le> 4999 then Some n else None)"
    using from_u16_Some by (cases "from_u16 n") (auto simp: wire_codes_def)
  show "from_u16 (as_u16 c) = Some c \<longleftrightarrow> is_valid c \<and> c \<notin> Other ` {1000..1014}"
  proof (cases c)
    case (Other n)
    have "from_u16 n = Some (Other n) \<longleftrightarrow> 3000 \<le> n \<and> n \<le> 4999"
      by (auto simp: from_u16_def)
    moreover have "n \<in> wire_codes \<and> n \<notin> {1000..1014} \<longleftrightarrow> 3000 \<le> n \<and> n \<le> 4999"
      unfolding wire_codes_def by auto (unat_arith+)
    ultimately show ?thesis using wire_codes_iff [of n] by (auto simp: Other is_valid_def)
  qed (auto simp: is_valid_def from_u16_def)
qed

text \<open>C19: Whatever is done with a session, the messages it puts on the wire are well formed: texts are UTF-8,
  control payloads are at most 125 bytes, close codes are assigned ones with a UTF-8 reason of at most 123
  bytes, nothing follows a close message, and after a close message the session is not open.\<close>

theorem wire_messages_well_formed:
  assumes "list_all op_ok ops"
  shows "list_all message_ok (ch_sent (ws_channel (session_steps ops WebSocketSession_new))) \<and>
    list_all (Not \<circ> is_close) (butlast (ch_sent (ws_channel (session_steps ops WebSocketSession_new)))) \<and>
    \<not> (ws_open (session_steps ops WebSocketSession_new) \<and>
       list_ex is_close (ch_sent (ws_channel (session_steps ops WebSocketSession_new))))"
  using session_steps_inv [OF session_inv_new assms] by (auto simp: session_inv_def Let_def)

text \<open>Cutting a close reason leaves a UTF-8 prefix of it of at most 123 bytes, and loses at most the
  three bytes of the character that would cross the limit.\<close>

theorem truncated_reason_is_longest_prefix:
  assumes "valid_utf8 d"
  shows "prefix (truncate_description d) d \<and> valid_utf8 (truncate_description d) \<and>
    length (truncate_description d) \<le> 123 \<and> min (length d) 120 \<le> length (truncate_description d)"
  using truncate_description_fits [of d] truncate_description_valid [OF assms] truncate_description_long [OF assms]
  by (simp add: MAX_CLOSE_REASON_BYTES_def MAX_CONTROL_PAYLOAD_BYTES_def)

text \<open>
  The check for codes a server must not send recognises the mandatory-extension code by its name only: the
  same code written as a number is sent.
\<close>

lemma numeric_mandatory_extension_is_sent:
  "fst (session_close (Some (WebSocketCloseFrame_new (Other 1010) [])) WebSocketSession_new) = Inr () \<and>
   ch_sent (ws_channel (snd (session_close (Some (WebSocketCloseFrame_new (Other 1010) [])) WebSocketSession_new))) =
     [Close (Some \<lparr>cr_code = 1010, cr_description = Some []\<rparr>)]"
proof -
  have "is_server_sendable (Other 1010)" by (simp add: is_server_sendable_def is_valid_def from_u16_def)
  then show ?thesis
    by (simp add: session_close_def transport_close_def on_channel_def channel_close_def pre_check_def
        WebSocketCloseFrame_new_def WebSocketSession_new_def ws_channel_new_def send_message_inner_def
        truncate_reason_def to_actix_close_def truncate_description_def)
qed

text \<open>A close frame that was refused is still remembered as the frame the session was closed with.\<close>

lemma refused_close_is_remembered:
  "session_close (Some (WebSocketCloseFrame_new (Other 1) r)) WebSocketSession_new =
     (Inl (HttpException_new 400 ''Bad Request'' ''invalid websocket close code''),
      WebSocketSession_new\<lparr>ws_close_frame := Some (WebSocketCloseFrame_new (Other 1) r)\<rparr>)"
  by (simp add: session_close_def transport_close_def is_server_sendable_def is_valid_def from_u16_def
      WebSocketCloseFrame_new_def word_le_nat_alt)

section \<open>Witnesses\<close>

lemma wire_messages_well_formed_witness:
  "list_all message_ok (ch_sent (ws_channel (session_steps
     [SendText ''hi'', SendPing (replicate 200 (CHR ''x'')), CloseSession None, SendText ''late'']
     WebSocketSession_new)))"
proof -
  have "list_all op_ok [SendText ''hi'', SendPing (replicate 200 (CHR ''x'')), CloseSession None, SendText ''late'']"
    by (simp add: valid_utf8.simps(2) utf8_width_def)
  from wire_messages_well_formed [OF this] show ?thesis by blast
qed

lemma truncated_reason_witness:
  "length (truncate_description (replicate 200 (CHR ''x''))) \<in> {120..123}"
proof -
  have "valid_utf8 (replicate n (CHR ''x''))" for n
    by (induction n) (auto simp: valid_utf8.simps(2) utf8_width_def split: list.splits)
  from truncated_reason_is_longest_prefix [OF this [of 200]] show ?thesis by simp
qed

end
