(* ===== verification/Connections.thy ===== *)
theory Connections
  imports WebSockets Lifecycle
begin

text \<open>
  The WebSocket server side, \<open>crates/caelix-actix/src/websocket.rs\<close>: the handshake check, the request
  seen by gateways, and the task of a connection, which calls the gateway.

  A connection is described by what arrives: before each message (or protocol error) the other holders of
  the session may use it, and the list ends when the transport ends. A gateway's callback gives its result
  and what it does with the session; it may depend on all callbacks so far and on the session. Callbacks
  return, and base64 and the opening handshake proper are arguments.
\<close>

section \<open>Handshake\<close>

text \<open>Header values are \<open>None\<close> when they are not visible ASCII.\<close>

record http_upgrade =
  hu_path :: str
  hu_query :: str
  hu_peer_addr :: "str option"
  hu_headers :: "(str \<times> str option) list"

definition header_value :: "http_upgrade \<Rightarrow> str \<Rightarrow> str option option" where
  "header_value req name = map_of (map (\<lambda>(n, v). (to_ascii_lowercase n, v)) (hu_headers req)) name"

datatype handshake_error = UnsupportedVersion | InvalidKey

definition validate_rfc6455_handshake :: "(str \<Rightarrow> str option) \<Rightarrow> http_upgrade \<Rightarrow> handshake_error + unit" where
  "validate_rfc6455_handshake decode req =
     (let version = (case header_value req ''sec-websocket-version'' of None \<Rightarrow> None | Some v \<Rightarrow> v)
      in if version \<noteq> None \<and> version \<noteq> Some ''13'' then Inl UnsupportedVersion
         else
           (case header_value req ''sec-websocket-key'' of
              None \<Rightarrow> Inr ()
            | Some key \<Rightarrow>
                (case (case key of None \<Rightarrow> None | Some k \<Rightarrow> decode k) of
                   None \<Rightarrow> Inl InvalidKey
                 | Some nonce \<Rightarrow> if length nonce \<noteq> 16 then Inl InvalidKey else Inr ())))"

record ws_request =
  wr_path :: str
  wr_query :: str
  wr_peer_addr :: "str option"
  wr_headers :: "str \<Rightarrow> str option"

definition WebSocketRequest_new :: "str \<Rightarrow> str \<Rightarrow> str option \<Rightarrow> (str \<Rightarrow> str option) \<Rightarrow> ws_request" where
  "WebSocketRequest_new path query peer headers =
     \<lparr>wr_path = path, wr_query = query, wr_peer_addr = peer, wr_headers = headers\<rparr>"

definition request_header :: "ws_request \<Rightarrow> str \<Rightarrow> str option" where
  "request_header req name = wr_headers req (to_ascii_lowercase name)"

text \<open>The headers with a textual value; of several with one name the last.\<close>

fun collect_headers :: "(str \<times> str option) list \<Rightarrow> (str \<Rightarrow> str option) \<Rightarrow> str \<Rightarrow> str option" where
  "collect_headers [] m = m"
| "collect_headers ((name, v) # hs) m =
     collect_headers hs (case v of None \<Rightarrow> m | Some value \<Rightarrow> m(to_ascii_lowercase name \<mapsto> value))"

definition upgrade ::
    "(str \<Rightarrow> str option) \<Rightarrow> (http_upgrade \<Rightarrow> 'e + unit) \<Rightarrow> http_upgrade \<Rightarrow>
     (handshake_error + 'e) + ws_request \<times> ws_session" where
  "upgrade decode handshake req =
     bind_result (map_err Inl (validate_rfc6455_handshake decode req)) (\<lambda>_.
       bind_result (map_err Inr (handshake req)) (\<lambda>_.
         Inr (WebSocketRequest_new (hu_path req) (hu_query req) (hu_peer_addr req)
                (collect_headers (hu_headers req) Map.empty), WebSocketSession_new)))"

text \<open>The routes of the WebSocket gateways of a program, \<open>None\<close> when the visit panics.\<close>

definition configure_gateway_routes :: "('m::finite) program \<Rightarrow> 'm \<Rightarrow> (str \<times> type_id) list option" where
  "configure_gateway_routes prog root =
     map_option (\<lambda>gateways. map (\<lambda>gw. (gd_path gw, gd_type gw)) (filter is_websocket gateways))
       (visit_module_gateways prog root)"

section \<open>Fragments\<close>

datatype fragment = TextFragment str | BinaryFragment str

fun fragment_len :: "fragment \<Rightarrow> nat" where
  "fragment_len (TextFragment data) = length data"
| "fragment_len (BinaryFragment data) = length data"

fun fragment_extend :: "fragment \<Rightarrow> str \<Rightarrow> fragment" where
  "fragment_extend (TextFragment data) bytes = TextFragment (data @ bytes)"
| "fragment_extend (BinaryFragment data) bytes = BinaryFragment (data @ bytes)"

definition start_fragment ::
    "fragment option \<Rightarrow> fragment \<Rightarrow> nat \<Rightarrow> (close_code + fragment option) \<times> fragment option" where
  "start_fragment slot v max_size =
     (if slot \<noteq> None then (Inl Protocol, slot)
      else if fragment_len v > max_size then (Inl MessageTooBig, slot)
      else (Inr None, Some v))"

text \<open>The checked addition of the lengths fails above \<open>usize\<close>, which no \<open>max_size\<close> exceeds.\<close>

definition fragment_limit :: "nat \<Rightarrow> nat" where
  "fragment_limit max_size = min max_size usize_max"

definition append_fragment ::
    "fragment option \<Rightarrow> str \<Rightarrow> nat \<Rightarrow> (close_code + unit) \<times> fragment option" where
  "append_fragment slot data max_size =
     (case slot of
        None \<Rightarrow> (Inl Protocol, slot)
      | Some v \<Rightarrow>
          if fragment_len v + length data > fragment_limit max_size then (Inl MessageTooBig, slot)
          else (Inr (), Some (fragment_extend v data)))"

definition continue_message ::
    "frame_item \<Rightarrow> fragment option \<Rightarrow> nat \<Rightarrow> (close_code + fragment option) \<times> fragment option" where
  "continue_message item slot max_size =
     (case item of
        FirstText data \<Rightarrow> start_fragment slot (TextFragment data) max_size
      | FirstBinary data \<Rightarrow> start_fragment slot (BinaryFragment data) max_size
      | Continue data \<Rightarrow>
          (case append_fragment slot data max_size of
             (Inl code, slot') \<Rightarrow> (Inl code, slot')
           | (Inr _, slot') \<Rightarrow> (Inr None, slot'))
      | Last data \<Rightarrow>
          (case append_fragment slot data max_size of
             (Inl code, slot') \<Rightarrow> (Inl code, slot')
           | (Inr _, slot') \<Rightarrow> (Inr slot', None)))"

section \<open>The connection\<close>

datatype callback =
    OnConnect ws_request | OnText str | OnBinary str | OnError str | OnClose "close_frame option"

type_synonym gateway_code = "callback list \<Rightarrow> ws_session \<Rightarrow> unit result \<times> session_op list"

record connection =
  co_session :: ws_session
  co_calls :: "callback list"

definition call :: "gateway_code \<Rightarrow> callback \<Rightarrow> connection \<Rightarrow> unit result \<times> connection" where
  "call gw cb c =
     (let calls = co_calls c @ [cb]
      in (case gw calls (co_session c) of
            (r, ops) \<Rightarrow> (r, \<lparr>co_session = session_steps ops (co_session c), co_calls = calls\<rparr>)))"

definition interfere :: "session_op list \<Rightarrow> connection \<Rightarrow> connection" where
  "interfere ops c = c\<lparr>co_session := session_steps ops (co_session c)\<rparr>"

definition close_connection :: "close_frame option \<Rightarrow> connection \<Rightarrow> connection" where
  "close_connection frame c = c\<lparr>co_session := snd (session_close frame (co_session c))\<rparr>"

definition close_with_protocol_error ::
    "gateway_code \<Rightarrow> close_code \<Rightarrow> str \<Rightarrow> connection \<Rightarrow> close_frame \<times> connection" where
  "close_with_protocol_error gw code message c =
     (let c1 = snd (call gw (OnError message) c);
          frame = WebSocketCloseFrame_new code message
      in (frame, close_connection (Some frame) c1))"

definition fail_handler :: "gateway_code \<Rightarrow> str \<Rightarrow> connection \<Rightarrow> close_frame \<times> connection" where
  "fail_handler gw message c =
     (let c1 = snd (call gw (OnError message) c);
          frame = WebSocketCloseFrame_new Internal ''handler failed''
      in (frame, close_connection (Some frame) c1))"

text \<open>The errors of the frame codec, with their texts; an I/O error may be about invalid data.\<close>

datatype protocol_error = Overflow str | Io bool str | OtherFault str

fun show_protocol_error :: "protocol_error \<Rightarrow> str" where
  "show_protocol_error (Overflow txt) = txt"
| "show_protocol_error (Io _ txt) = txt"
| "show_protocol_error (OtherFault txt) = txt"

fun protocol_close_code :: "protocol_error \<Rightarrow> close_code" where
  "protocol_close_code (Overflow _) = MessageTooBig"
| "protocol_close_code (Io invalid_data _) = (if invalid_data then InvalidData else Protocol)"
| "protocol_close_code (OtherFault _) = Protocol"

text \<open>One turn of the loop: it goes on with the fragment collected, or ends with a close frame.\<close>

datatype turn = Next "fragment option" | Break "close_frame option"

definition deliver :: "gateway_code \<Rightarrow> callback \<Rightarrow> fragment option \<Rightarrow> connection \<Rightarrow> turn \<times> connection" where
  "deliver gw cb slot c =
     (case call gw cb c of
        (Inl e, c1) \<Rightarrow> (case fail_handler gw (ex_message e) c1 of (frame, c2) \<Rightarrow> (Break (Some frame), c2))
      | (Inr _, c1) \<Rightarrow> (Next slot, c1))"

definition violation :: "gateway_code \<Rightarrow> close_code \<Rightarrow> str \<Rightarrow> connection \<Rightarrow> turn \<times> connection" where
  "violation gw code message c =
     (case close_with_protocol_error gw code message c of (frame, c1) \<Rightarrow> (Break (Some frame), c1))"

fun handle_message :: "gateway_code \<Rightarrow> nat \<Rightarrow> fragment option \<Rightarrow> ws_message \<Rightarrow> connection \<Rightarrow> turn \<times> connection" where
  "handle_message gw max_size slot (Text text) c =
     (if slot \<noteq> None then violation gw Protocol ''data frame interleaved with fragmented message'' c
      else deliver gw (OnText text) slot c)"
| "handle_message gw max_size slot (Binary data) c =
     (if slot \<noteq> None then violation gw Protocol ''data frame interleaved with fragmented message'' c
      else deliver gw (OnBinary data) slot c)"
| "handle_message gw max_size slot (Ping data) c =
     (case session_pong data (co_session c) of
        (Inl _, s) \<Rightarrow> (Break None, c\<lparr>co_session := s\<rparr>)
      | (Inr _, s) \<Rightarrow> (Next slot, c\<lparr>co_session := s\<rparr>))"
| "handle_message gw max_size slot (Pong _) c = (Next slot, c)"
| "handle_message gw max_size slot (Close None) c = (Break None, close_connection None c)"
| "handle_message gw max_size slot (Close (Some reason)) c =
     (case from_actix_close reason of
        None \<Rightarrow> violation gw Protocol ''invalid websocket close code'' c
      | Some frame \<Rightarrow> (Break (Some frame), close_connection (Some frame) c))"
| "handle_message gw max_size slot (Continuation item) c =
     (case continue_message item slot max_size of
        (Inl code, _) \<Rightarrow> violation gw code ''invalid fragmented message'' c
      | (Inr None, slot') \<Rightarrow> (Next slot', c)
      | (Inr (Some (TextFragment data)), slot') \<Rightarrow>
          if valid_utf8 data then deliver gw (OnText data) slot' c
          else violation gw InvalidData ''invalid UTF-8 text message'' c
      | (Inr (Some (BinaryFragment data)), slot') \<Rightarrow> deliver gw (OnBinary data) slot' c)"
| "handle_message gw max_size slot Nop c = (Next slot, c)"

definition handle_arrival ::
    "gateway_code \<Rightarrow> nat \<Rightarrow> fragment option \<Rightarrow> protocol_error + ws_message \<Rightarrow> connection \<Rightarrow> turn \<times> connection" where
  "handle_arrival gw max_size slot arrival c =
     (case arrival of
        Inr msg \<Rightarrow> handle_message gw max_size slot msg c
      | Inl e \<Rightarrow>
          (let c1 = snd (call gw (OnError (show_protocol_error e)) c);
               frame = WebSocketCloseFrame_new (protocol_close_code e) ''invalid websocket frame''
           in (Break (Some frame), close_connection (Some frame) c1)))"

type_synonym arrivals = "(session_op list \<times> (protocol_error + ws_message)) list"

fun receive_loop ::
    "gateway_code \<Rightarrow> nat \<Rightarrow> fragment option \<Rightarrow> arrivals \<Rightarrow> session_op list \<Rightarrow> connection \<Rightarrow>
     close_frame option \<times> connection" where
  "receive_loop gw max_size slot [] ending c =
     (if \<not> ws_open (co_session c) then (None, c)
      else
        (let c1 = interfere ending c
         in (None, if ws_open (co_session c1)
                   then snd (call gw (OnError ''websocket transport closed unexpectedly'') c1) else c1)))"
| "receive_loop gw max_size slot ((ops, arrival) # arrivals) ending c =
     (if \<not> ws_open (co_session c) then (None, c)
      else
        (case handle_arrival gw max_size slot arrival (interfere ops c) of
           (Break frame, c1) \<Rightarrow> (frame, c1)
         | (Next slot', c1) \<Rightarrow> receive_loop gw max_size slot' arrivals ending c1))"

definition run_connection ::
    "gateway_code \<Rightarrow> nat \<Rightarrow> ws_request \<Rightarrow> arrivals \<Rightarrow> session_op list \<Rightarrow> ws_session \<Rightarrow> connection" where
  "run_connection gw max_size req arrivals ending s =
     (case (case call gw (OnConnect req) \<lparr>co_session = s, co_calls = []\<rparr> of
              (Inl e, c1) \<Rightarrow> (case fail_handler gw (ex_message e) c1 of (frame, c2) \<Rightarrow> (Some frame, c2))
            | (Inr _, c1) \<Rightarrow> receive_loop gw max_size None arrivals ending c1) of
        (frame, c) \<Rightarrow>
          (case (case frame of
                   Some f \<Rightarrow> (Some f, co_session c)
                 | None \<Rightarrow> take_local_close_frame (co_session c)) of
             (frame', s') \<Rightarrow>
               snd (call gw (OnClose frame') (c\<lparr>co_session := s'\<lparr>ws_open := False\<rparr>\<rparr>))))"

section \<open>Lemmas\<close>

lemma closed_stays_closed: "\<not> ws_open s \<Longrightarrow> \<not> ws_open (snd (session_step op s))"
  by (induction op s rule: session_step.induct)
    (simp_all add: session_send_text_def session_send_binary_def session_ping_def session_pong_def when_open_def
      ensure_open_def session_close_def transport_close_def on_channel_def split: prod.splits option.splits)

lemma closed_stays_closed_steps: "\<not> ws_open s \<Longrightarrow> \<not> ws_open (session_steps ops s)"
  by (induction ops s rule: session_steps.induct) (simp_all add: closed_stays_closed)

lemma call_simps [simp]:
  "co_calls (snd (call gw cb c)) = co_calls c @ [cb]"
  "call gw cb c = (r, c1) \<Longrightarrow> co_calls c1 = co_calls c @ [cb]"
  "co_calls (close_connection frame c) = co_calls c"
  "co_calls (interfere ops c) = co_calls c"
  by (auto simp: call_def close_connection_def interfere_def Let_def split: prod.splits)

definition is_error_call :: "callback \<Rightarrow> bool" where
  "is_error_call cb \<longleftrightarrow> (case cb of OnError _ \<Rightarrow> True | _ \<Rightarrow> False)"

lemma is_error_call_simps [simp]: "is_error_call (OnError msg)" by (simp add: is_error_call_def)

text \<open>What the frames that arrive mean, by the rules of the protocol and without the loop that handles
  them: \<open>fragments\<close> are the frames of a message that is not finished, with the data so far, and
  \<open>conversation\<close> the frames of finished messages, with the deliveries they call for. Control frames may
  stand anywhere.\<close>

fun is_control :: "ws_message \<Rightarrow> bool" where
  "is_control (Ping _) = True"
| "is_control (Pong _) = True"
| "is_control Nop = True"
| "is_control _ = False"

inductive fragments :: "bool \<Rightarrow> ws_message list \<Rightarrow> str \<Rightarrow> bool" for is_text where
  first_text: "is_text \<Longrightarrow> fragments is_text [Continuation (FirstText d)] d"
| first_binary: "\<not> is_text \<Longrightarrow> fragments is_text [Continuation (FirstBinary d)] d"
| continued: "fragments is_text fs d \<Longrightarrow> fragments is_text (fs @ [Continuation (Continue e)]) (d @ e)"
| between: "fragments is_text fs d \<Longrightarrow> is_control m \<Longrightarrow> fragments is_text (fs @ [m]) d"

inductive conversation :: "nat \<Rightarrow> ws_message list \<Rightarrow> callback list \<Rightarrow> bool" for max_size where
  silence: "conversation max_size [] []"
| control: "conversation max_size ms data \<Longrightarrow> is_control m \<Longrightarrow> conversation max_size (ms @ [m]) data"
| whole_text: "conversation max_size ms data \<Longrightarrow> conversation max_size (ms @ [Text t]) (data @ [OnText t])"
| whole_binary: "conversation max_size ms data \<Longrightarrow> conversation max_size (ms @ [Binary d]) (data @ [OnBinary d])"
| assembled_text: "conversation max_size ms data \<Longrightarrow> fragments True fs d \<Longrightarrow> valid_utf8 (d @ e) \<Longrightarrow>
    length (d @ e) \<le> max_size \<Longrightarrow>
    conversation max_size (ms @ fs @ [Continuation (Last e)]) (data @ [OnText (d @ e)])"
| assembled_binary: "conversation max_size ms data \<Longrightarrow> fragments False fs d \<Longrightarrow> length (d @ e) \<le> max_size \<Longrightarrow>
    conversation max_size (ms @ fs @ [Continuation (Last e)]) (data @ [OnBinary (d @ e)])"

text \<open>The state of the loop: the fragment collected is the unfinished message of the frames so far.\<close>

fun fragment_parts :: "fragment \<Rightarrow> bool \<times> str" where
  "fragment_parts (TextFragment d) = (True, d)"
| "fragment_parts (BinaryFragment d) = (False, d)"

definition heard :: "nat \<Rightarrow> ws_message list \<Rightarrow> fragment option \<Rightarrow> callback list \<Rightarrow> bool" where
  "heard max_size received slot data \<longleftrightarrow>
     (case slot of
        None \<Rightarrow> conversation max_size received data
      | Some v \<Rightarrow> \<exists>ms fs is_text d. received = ms @ fs \<and> conversation max_size ms data \<and>
          fragments is_text fs d \<and> fragment_parts v = (is_text, d))"

definition heard_up_to :: "nat \<Rightarrow> ws_message list \<Rightarrow> callback list \<Rightarrow> bool" where
  "heard_up_to max_size received data \<longleftrightarrow>
     (\<exists>ms fs. received = ms @ fs \<and> conversation max_size ms data \<and>
        (fs = [] \<or> (\<exists>is_text d. fragments is_text fs d)))"

lemma heard_up_toI: "heard max_size received slot data \<Longrightarrow> heard_up_to max_size received data"
proof (cases slot)
  case None
  moreover assume "heard max_size received slot data"
  ultimately show ?thesis by (simp add: heard_def heard_up_to_def exI [of _ received])
next
  case (Some v)
  moreover assume "heard max_size received slot data"
  ultimately show ?thesis by (auto simp: heard_def heard_up_to_def)
qed

lemma heard_control: "heard max_size received slot data \<Longrightarrow> is_control m \<Longrightarrow> heard max_size (received @ [m]) slot data"
  unfolding heard_def by (auto split: option.splits intro: control) (metis append_assoc between)

lemma fragment_extend_parts [simp]:
  "fragment_parts (fragment_extend v data) = (fst (fragment_parts v), snd (fragment_parts v) @ data)"
  by (cases v) simp_all

lemma fragment_len_parts: "fragment_len v = length (snd (fragment_parts v))"
  by (cases v) simp_all

lemma append_fragment_Inr:
  "append_fragment slot data max_size = (Inr u, slot') \<Longrightarrow>
   \<exists>v. slot = Some v \<and> slot' = Some (fragment_extend v data) \<and>
     length (snd (fragment_parts v) @ data) \<le> max_size"
  by (auto simp: append_fragment_def fragment_limit_def fragment_len_parts split: option.splits if_splits)

lemma fragment_len_extend [simp]: "fragment_len (fragment_extend v data) = fragment_len v + length data"
  by (cases v) simp_all

text \<open>A frame of a fragmented message: either nothing is finished yet, or the whole of it is there.\<close>

lemma continue_message_heard:
  assumes k: "continue_message item slot max_size = (Inr finished, slot')" and h: "heard max_size received slot data"
  shows "case finished of
      None \<Rightarrow> heard max_size (received @ [Continuation item]) slot' data
    | Some (TextFragment d) \<Rightarrow> slot' = None \<and>
        (valid_utf8 d \<longrightarrow> conversation max_size (received @ [Continuation item]) (data @ [OnText d]))
    | Some (BinaryFragment d) \<Rightarrow> slot' = None \<and>
        conversation max_size (received @ [Continuation item]) (data @ [OnBinary d])"
proof (cases item)
  case (FirstText d)
  with k have "slot = None" "finished = None" "slot' = Some (TextFragment d)"
    by (auto simp: continue_message_def start_fragment_def split: if_splits)
  with h FirstText show ?thesis by (auto simp: heard_def intro: first_text)
next
  case (FirstBinary d)
  with k have "slot = None" "finished = None" "slot' = Some (BinaryFragment d)"
    by (auto simp: continue_message_def start_fragment_def split: if_splits)
  with h FirstBinary show ?thesis by (auto simp: heard_def intro: first_binary)
next
  case (Continue e)
  with k obtain v where "slot = Some v" "finished = None" "slot' = Some (fragment_extend v e)"
    by (auto simp: continue_message_def split: prod.splits sum.splits dest: append_fragment_Inr)
  with h obtain ms fs is_text d where f: "received = ms @ fs" "conversation max_size ms data"
    "fragments is_text fs d" "fragment_parts v = (is_text, d)"
    by (auto simp: heard_def)
  have "\<exists>ms' fs'. received @ [Continuation item] = ms' @ fs' \<and> conversation max_size ms' data \<and>
      fragments is_text fs' (d @ e)"
    using continued [OF f(3), of e] f(1,2) Continue
    by (intro exI [of _ ms] exI [of _ "fs @ [Continuation (Continue e)]"]) simp
  with \<open>finished = None\<close> \<open>slot' = _\<close> f(4) show ?thesis by (auto simp: heard_def)
next
  case (Last e)
  with k obtain v where v: "slot = Some v" "finished = Some (fragment_extend v e)" "slot' = None"
    "length (snd (fragment_parts v) @ e) \<le> max_size"
    by (auto simp: continue_message_def split: prod.splits sum.splits dest!: append_fragment_Inr)
  with h obtain ms fs where f: "received = ms @ fs" "conversation max_size ms data"
    "fragments (fst (fragment_parts v)) fs (snd (fragment_parts v))"
    by (auto simp: heard_def)
  show ?thesis
  proof (cases v)
    case (TextFragment d)
    with v f Last assembled_text [OF f(2), of fs d e] show ?thesis by simp
  next
    case (BinaryFragment d)
    with v f Last assembled_binary [OF f(2), of fs d e] show ?thesis by simp
  qed
qed

text \<open>What one turn of the loop does: it goes on having heard one more frame, or ends after what it had
  heard, perhaps with this frame, and at most one error.\<close>

definition turn_ok ::
    "nat \<Rightarrow> callback list \<Rightarrow> ws_message list \<Rightarrow> ws_message list \<Rightarrow> turn \<Rightarrow> connection \<Rightarrow> bool" where
  "turn_ok max_size pre received now t c \<longleftrightarrow>
     (case t of
        Next slot \<Rightarrow> \<exists>data. heard max_size (received @ now) slot data \<and> co_calls c = pre @ data
      | Break _ \<Rightarrow> \<exists>ms data errs. (ms = received \<or> ms = received @ now) \<and> heard_up_to max_size ms data \<and>
          co_calls c = pre @ data @ errs \<and> list_all is_error_call errs \<and> length errs \<le> 1)"

lemma turn_ok_break:
  "heard_up_to max_size received data \<Longrightarrow> co_calls c = pre @ data @ errs \<Longrightarrow> list_all is_error_call errs \<Longrightarrow>
   length errs \<le> 1 \<Longrightarrow> turn_ok max_size pre received now (Break f) c"
  unfolding turn_ok_def by auto

lemma turn_ok_next:
  "heard max_size (received @ now) slot data \<Longrightarrow> co_calls c = pre @ data \<Longrightarrow>
   turn_ok max_size pre received now (Next slot) c"
  unfolding turn_ok_def by auto

lemma deliver_turn:
  assumes d: "deliver gw cb None c = (t, c1)" and calls: "co_calls c = pre @ data"
    and cb: "conversation max_size (received @ now) (data @ [cb])"
  shows "turn_ok max_size pre received now t c1"
proof -
  have h: "heard max_size (received @ now) None (data @ [cb])" using cb by (simp add: heard_def)
  obtain r c' where call: "call gw cb c = (r, c')" by (cases "call gw cb c")
  show ?thesis
  proof (cases r)
    case (Inl e)
    with d call calls have "co_calls c1 = pre @ (data @ [cb]) @ [OnError (ex_message e)]" "\<exists>f. t = Break f"
      by (auto simp: deliver_def fail_handler_def Let_def split: prod.splits)
    moreover have "heard_up_to max_size (received @ now) (data @ [cb])" by (rule heard_up_toI [OF h])
    moreover have "list_all is_error_call [OnError (ex_message e)]" "length [OnError (ex_message e)] \<le> 1" by simp_all
    ultimately show ?thesis unfolding turn_ok_def
      by (elim exE) (simp only: turn.case, intro exI [of _ "received @ now"] exI [of _ "data @ [cb]"]
          exI [of _ "[OnError (ex_message e)]"] conjI disjI2, simp_all)
  next
    case (Inr u)
    with d call calls have "co_calls c1 = pre @ (data @ [cb])" "t = Next None"
      by (auto simp: deliver_def)
    with h show ?thesis by (auto intro: turn_ok_next)
  qed
qed

lemma violation_turn:
  assumes "violation gw code message c = (t, c1)" "heard_up_to max_size received data" "co_calls c = pre @ data"
  shows "turn_ok max_size pre received now t c1"
proof -
  have "co_calls c1 = pre @ data @ [OnError message]" "\<exists>f. t = Break f"
    using assms(1,3) by (auto simp: violation_def close_with_protocol_error_def Let_def)
  with assms(2) show ?thesis by (auto intro: turn_ok_break)
qed

lemma handle_message_turn:
  assumes m: "handle_message gw max_size slot msg c = (t, c1)" and h: "heard max_size received slot data"
    and calls: "co_calls c = pre @ data"
  shows "turn_ok max_size pre received [msg] t c1"
proof -
  note up = heard_up_toI [OF h]
  note violation = violation_turn [OF _ up calls]
  have quiet: "turn_ok max_size pre received [msg] (Next slot) c'"
    if "is_control msg" "co_calls c' = co_calls c" for c'
    by (rule turn_ok_next [OF heard_control [OF h that(1)]]) (simp add: that(2) calls)
  have silent: "turn_ok max_size pre received [msg] (Break f) c'" if "co_calls c' = co_calls c" for f c'
    by (rule turn_ok_break [OF up, of _ _ "[]"]) (simp_all add: that calls)
  show ?thesis
  proof (cases msg)
    case (Text words)
    show ?thesis
    proof (cases slot)
      case None
      with Text m h have "deliver gw (OnText words) None c = (t, c1)" "conversation max_size received data"
        by (simp_all add: heard_def)
      then show ?thesis unfolding Text by (intro deliver_turn [OF _ calls whole_text])
    qed (use Text m violation in auto)
  next
    case (Binary bytes)
    show ?thesis
    proof (cases slot)
      case None
      with Binary m h have "deliver gw (OnBinary bytes) None c = (t, c1)" "conversation max_size received data"
        by (simp_all add: heard_def)
      then show ?thesis unfolding Binary by (intro deliver_turn [OF _ calls whole_binary])
    qed (use Binary m violation in auto)
  next
    case (Ping bytes)
    obtain r s where pong: "session_pong bytes (co_session c) = (r, s)" by (cases "session_pong bytes (co_session c)")
    with m Ping have "t = (case r of Inl _ \<Rightarrow> Break None | Inr _ \<Rightarrow> Next slot)" "co_calls c1 = co_calls c"
      by (auto split: sum.splits)
    with Ping quiet silent show ?thesis by (cases r) simp_all
  next
    case (Close reason)
    with m have "(\<exists>f. t = Break f) \<and> co_calls c1 = co_calls c \<or>
        violation gw Protocol ''invalid websocket close code'' c = (t, c1)"
      by (cases reason) (auto split: option.splits)
    then show ?thesis using silent violation by blast
  next
    case (Continuation item)
    obtain r slot' where k: "continue_message item slot max_size = (r, slot')"
      by (cases "continue_message item slot max_size")
    show ?thesis
    proof (cases r)
      case (Inl code)
      with Continuation k m show ?thesis by (auto intro: violation)
    next
      case (Inr finished)
      note heard = continue_message_heard [OF k [unfolded Inr] h]
      show ?thesis
      proof (cases finished)
        case None
        with Inr Continuation k m heard calls show ?thesis by (auto intro: turn_ok_next)
      next
        case (Some v)
        with Inr Continuation k m heard show ?thesis
          by (cases v) (auto split: if_splits intro: deliver_turn [OF _ calls] violation)
      qed
    qed
  qed (use m quiet in auto)
qed

lemma handle_arrival_turn:
  assumes "handle_arrival gw max_size slot arrival c = (t, c1)" and h: "heard max_size received slot data"
    and calls: "co_calls c = pre @ data"
  shows "turn_ok max_size pre received (case arrival of Inr msg \<Rightarrow> [msg] | Inl _ \<Rightarrow> []) t c1"
proof (cases arrival)
  case (Inl e)
  with assms(1) calls have "co_calls c1 = pre @ data @ [OnError (show_protocol_error e)]" "\<exists>f. t = Break f"
    by (auto simp: handle_arrival_def Let_def)
  with heard_up_toI [OF h] show ?thesis by (auto intro: turn_ok_break)
next
  case (Inr msg)
  with assms handle_message_turn [of gw max_size slot msg c t c1 received data pre] show ?thesis
    by (simp add: handle_arrival_def)
qed

lemma handle_arrival_error_breaks: "handle_arrival gw max_size slot (Inl e) c = (t, c1) \<Longrightarrow> \<exists>f. t = Break f"
  by (auto simp: handle_arrival_def Let_def)

lemma receive_loop_heard:
  "receive_loop gw max_size slot arrivals ending c = (frame, c1) \<Longrightarrow> heard max_size received slot data \<Longrightarrow>
   co_calls c = pre @ data \<Longrightarrow>
   \<exists>ms rest data' errs. map snd arrivals = map Inr ms @ rest \<and> heard_up_to max_size (received @ ms) data' \<and>
     co_calls c1 = pre @ data' @ errs \<and> list_all is_error_call errs \<and> length errs \<le> 1"
proof (induction arrivals arbitrary: slot c received data)
  case Nil
  from Nil.prems(1,3) obtain errs where "co_calls c1 = pre @ data @ errs" "list_all is_error_call errs" "length errs \<le> 1"
    by (auto simp: Let_def split: if_splits)
  with heard_up_toI [OF Nil.prems(2)] show ?case by auto
next
  case (Cons a arrivals)
  obtain ops arrival where a: "a = (ops, arrival)" by (cases a)
  let ?now = "case arrival of Inr msg \<Rightarrow> [msg] | Inl _ \<Rightarrow> []"
  note up = heard_up_toI [OF Cons.prems(2)]
  show ?case
  proof (cases "ws_open (co_session c)")
    case True
    obtain t c2 where h: "handle_arrival gw max_size slot arrival (interfere ops c) = (t, c2)"
      by (cases "handle_arrival gw max_size slot arrival (interfere ops c)")
    have ok: "turn_ok max_size pre received ?now t c2"
      by (rule handle_arrival_turn [OF h Cons.prems(2)]) (simp add: Cons.prems(3))
    show ?thesis
    proof (cases t)
      case (Next slot')
      with h obtain msg where msg: "arrival = Inr msg" by (cases arrival) (auto dest: handle_arrival_error_breaks)
      from ok Next msg obtain data2 where d: "heard max_size (received @ [msg]) slot' data2" "co_calls c2 = pre @ data2"
        by (auto simp: turn_ok_def)
      from Cons.prems(1) a True h Next have "receive_loop gw max_size slot' arrivals ending c2 = (frame, c1)" by simp
      from Cons.IH [OF this d] obtain ms rest data' errs where
        "map snd arrivals = map Inr ms @ rest" "heard_up_to max_size ((received @ [msg]) @ ms) data'"
        "co_calls c1 = pre @ data' @ errs" "list_all is_error_call errs" "length errs \<le> 1" by blast
      then show ?thesis
        using a msg by (intro exI [of _ "msg # ms"] exI [of _ rest] exI [of _ data'] exI [of _ errs]) simp
    next
      case (Break f)
      with Cons.prems(1) a True h have c1: "c1 = c2" by simp
      from ok Break obtain ms data' errs where
        d: "ms = received \<or> ms = received @ ?now" "heard_up_to max_size ms data'"
          "co_calls c2 = pre @ data' @ errs" "list_all is_error_call errs" "length errs \<le> 1"
        by (auto simp: turn_ok_def)
      from d(1) obtain now rest where "ms = received @ now" "map snd (a # arrivals) = map Inr now @ rest"
      proof
        assume "ms = received"
        then show thesis by (intro that [of "[]"]) simp_all
      next
        assume "ms = received @ ?now"
        then show thesis
          by (cases arrival) (simp_all add: a that [of "[]"] that [of ?now])
      qed
      with d c1 show ?thesis by auto
    qed
  next
    case False
    with Cons.prems a have "c1 = c" by simp
    with Cons.prems(3) up show ?thesis
      by (intro exI [of _ "[]"] exI [of _ "map snd (a # arrivals)"] exI [of _ data]) simp
  qed
qed

lemma handle_nil_ops [simp]: "interfere [] c = c"
  by (simp add: interfere_def)

definition continues :: "str list \<Rightarrow> arrivals" where
  "continues parts = map (\<lambda>p. ([], Inr (Continuation (Continue p)))) parts"

lemma continues_simps [simp]:
  "continues [] = []" "continues (p # ps) = ([], Inr (Continuation (Continue p))) # continues ps"
  by (simp_all add: continues_def)

lemma continue_once:
  assumes "ws_open (co_session c)" "fragment_len v + length p \<le> fragment_limit max_size"
  shows "receive_loop gw max_size (Some v) (([], Inr (Continuation (Continue p))) # rest) ending c =
    receive_loop gw max_size (Some (fragment_extend v p)) rest ending c"
  using assms by (simp add: handle_arrival_def continue_message_def append_fragment_def)

lemma fragment_extend_append [simp]: "fragment_extend (fragment_extend v p) q = fragment_extend v (p @ q)"
  by (cases v) simp_all

lemma fragment_limit_le: "n \<le> fragment_limit max_size \<Longrightarrow> n \<le> max_size"
  by (simp add: fragment_limit_def)

lemma collect_continues:
  "ws_open (co_session c) \<Longrightarrow> fragment_len v + length (concat parts) \<le> fragment_limit max_size \<Longrightarrow>
   receive_loop gw max_size (Some v) (continues parts @ rest) ending c =
     receive_loop gw max_size (Some (fragment_extend v (concat parts))) rest ending c"
proof (induction parts arbitrary: v)
  case Nil
  then show ?case by (cases v) simp_all
next
  case (Cons p parts)
  then have "fragment_len v + length p \<le> fragment_limit max_size" by simp
  moreover have "fragment_len (fragment_extend v p) + length (concat parts) \<le> fragment_limit max_size"
    using Cons.prems(2) by simp
  ultimately show ?case using continue_once [OF Cons.prems(1)] Cons.IH [OF Cons.prems(1)] by simp
qed

text \<open>The arrivals of a fragmented message, and the message it makes up.\<close>

definition fragmented :: "bool \<Rightarrow> str \<Rightarrow> str list \<Rightarrow> str \<Rightarrow> arrivals" where
  "fragmented is_text first parts final =
     ([], Inr (Continuation (if is_text then FirstText first else FirstBinary first))) # continues parts @
     [([], Inr (Continuation (Last final)))]"

definition whole_message :: "bool \<Rightarrow> str \<Rightarrow> ws_message" where
  "whole_message is_text data = (if is_text then Text data else Binary data)"

lemma fragmented_start:
  assumes "ws_open (co_session c)" "length first \<le> max_size"
  shows "receive_loop gw max_size None (fragmented is_text first parts final @ rest) ending c =
    receive_loop gw max_size (Some ((if is_text then TextFragment else BinaryFragment) first))
      (continues parts @ ([], Inr (Continuation (Last final))) # rest) ending c"
  using assms by (simp add: fragmented_def handle_arrival_def continue_message_def start_fragment_def)

lemma oversized_continues:
  "ws_open (co_session c) \<Longrightarrow> fragment_len v \<le> fragment_limit max_size \<Longrightarrow>
   fragment_limit max_size < fragment_len v + length (concat parts @ final) \<Longrightarrow>
   \<exists>c1. receive_loop gw max_size (Some v) (continues parts @ ([], Inr (Continuation (Last final))) # rest) ending c =
      (Some (WebSocketCloseFrame_new MessageTooBig ''invalid fragmented message''), c1) \<and>
     co_calls c1 = co_calls c @ [OnError ''invalid fragmented message'']"
proof (induction parts arbitrary: v)
  case Nil
  then show ?case
    by (simp add: handle_arrival_def continue_message_def append_fragment_def violation_def
        close_with_protocol_error_def Let_def)
next
  case (Cons p parts)
  show ?case
  proof (cases "fragment_len v + length p \<le> fragment_limit max_size")
    case True
    then show ?thesis
      using continue_once [OF Cons.prems(1) True] Cons.IH [OF Cons.prems(1), of "fragment_extend v p"] Cons.prems(3)
      by simp
  next
    case False
    with Cons.prems(1) show ?thesis
      by (simp add: handle_arrival_def continue_message_def append_fragment_def violation_def
          close_with_protocol_error_def Let_def)
  qed
qed

section \<open>Properties\<close>

text \<open>C17: A connection calls the gateway's \<open>on_connect\<close> first and \<open>on_close\<close> exactly once, last, with at most
  one error report, directly before it. What it delivers in between are exactly the messages of the frames
  received first, in order: those that arrived whole, and the fragmented ones, put together from all of
  their fragments, within the size limit (texts as UTF-8). The frames after them are those of one
  unfinished message at most, and what came after the loop ended. Afterwards the session is not open.\<close>

theorem connection_calls_in_order:
  "\<exists>received unfinished rest data errs frame.
     map snd arrivals = map Inr (received @ unfinished) @ rest \<and>
     conversation max_size received data \<and>
     (unfinished = [] \<or> (\<exists>is_text d. fragments is_text unfinished d)) \<and>
     co_calls (run_connection gw max_size req arrivals ending s) = OnConnect req # data @ errs @ [OnClose frame] \<and>
     list_all is_error_call errs \<and> length errs \<le> 1 \<and>
     \<not> ws_open (co_session (run_connection gw max_size req arrivals ending s))"
proof -
  obtain r c1 where connect: "call gw (OnConnect req) \<lparr>co_session = s, co_calls = []\<rparr> = (r, c1)"
    by (cases "call gw (OnConnect req) \<lparr>co_session = s, co_calls = []\<rparr>")
  then have c1: "co_calls c1 = [OnConnect req] @ []" by simp
  define loop where "loop = (case r of
      Inl e \<Rightarrow> (case fail_handler gw (ex_message e) c1 of (frame, c2) \<Rightarrow> (Some frame, c2))
    | Inr _ \<Rightarrow> receive_loop gw max_size None arrivals ending c1)"
  obtain frame c2 where loop_eq: "loop = (frame, c2)" by (cases loop)
  have start: "heard max_size [] None []" by (simp add: heard_def silence)
  have "\<exists>ms rest data errs. map snd arrivals = map Inr ms @ rest \<and> heard_up_to max_size ([] @ ms) data \<and>
      co_calls c2 = [OnConnect req] @ data @ errs \<and> list_all is_error_call errs \<and> length errs \<le> 1"
  proof (cases r)
    case (Inl e)
    with loop_eq c1 have "co_calls c2 = [OnConnect req] @ [] @ [OnError (ex_message e)]"
      by (auto simp: loop_def fail_handler_def Let_def)
    with heard_up_toI [OF start] show ?thesis
      by (intro exI [of _ "[]"] exI [of _ "map snd arrivals"] exI [of _ "[OnError (ex_message e)]"]) simp
  next
    case (Inr u)
    with loop_eq have "receive_loop gw max_size None arrivals ending c1 = (frame, c2)" by (simp add: loop_def)
    from receive_loop_heard [OF this start c1] show ?thesis .
  qed
  then obtain ms rest data errs where ms: "map snd arrivals = map Inr ms @ rest" "heard_up_to max_size ms data"
    and calls: "co_calls c2 = OnConnect req # data @ errs" and errs: "list_all is_error_call errs" "length errs \<le> 1"
    by auto
  from ms(2) obtain received unfinished where "ms = received @ unfinished" "conversation max_size received data"
      "unfinished = [] \<or> (\<exists>is_text d. fragments is_text unfinished d)"
    unfolding heard_up_to_def by blast
  with ms(1) have d: "map snd arrivals = map Inr (received @ unfinished) @ rest" "conversation max_size received data"
      "unfinished = [] \<or> (\<exists>is_text d. fragments is_text unfinished d)" by simp_all
  obtain frame' s' where final: "(case frame of Some f \<Rightarrow> (Some f, co_session c2)
      | None \<Rightarrow> take_local_close_frame (co_session c2)) = (frame', s')" by fastforce
  have run: "run_connection gw max_size req arrivals ending s =
      snd (call gw (OnClose frame') (c2\<lparr>co_session := s'\<lparr>ws_open := False\<rparr>\<rparr>))"
    using loop_eq final unfolding loop_def by (simp add: run_connection_def connect split: sum.splits prod.splits)
  have "\<not> ws_open (co_session (run_connection gw max_size req arrivals ending s))"
    unfolding run call_def Let_def by (simp add: closed_stays_closed_steps split: prod.splits)
  moreover have "co_calls (run_connection gw max_size req arrivals ending s) =
      OnConnect req # data @ errs @ [OnClose frame']"
    unfolding run by (simp add: calls)
  ultimately show ?thesis using d errs by blast
qed

text \<open>C18: Fragmentation is transparent: a message sent in fragments of at most the maximal size in total (valid
  UTF-8 if it is a text) has exactly the effect of the whole message.\<close>

theorem fragmentation_transparent:
  assumes "length (first @ concat parts @ final) \<le> fragment_limit max_size"
    and "is_text \<longrightarrow> valid_utf8 (first @ concat parts @ final)"
  shows "receive_loop gw max_size None (fragmented is_text first parts final @ rest) ending c =
    receive_loop gw max_size None (([], Inr (whole_message is_text (first @ concat parts @ final))) # rest) ending c"
proof (cases "ws_open (co_session c)")
  case True
  let ?v = "(if is_text then TextFragment else BinaryFragment) first"
  have v: "fragment_len ?v = length first" by (cases is_text) simp_all
  have "receive_loop gw max_size None (fragmented is_text first parts final @ rest) ending c =
      receive_loop gw max_size (Some (fragment_extend ?v (concat parts)))
        (([], Inr (Continuation (Last final))) # rest) ending c"
    using fragmented_start [OF True, of first max_size] collect_continues [OF True, of ?v parts max_size] v assms(1)
      fragment_limit_le [of "length first" max_size] by simp
  also have "\<dots> = receive_loop gw max_size None (([], Inr (whole_message is_text (first @ concat parts @ final))) # rest)
      ending c"
    using True v assms
    by (cases is_text) (simp_all add: handle_arrival_def continue_message_def append_fragment_def whole_message_def)
  finally show ?thesis .
next
  case False
  then show ?thesis by (simp add: fragmented_def whole_message_def)
qed

text \<open>A fragmented message that grows beyond the limit is never delivered: the gateway hears of an error
  and the connection ends with the code for a message that is too big.\<close>

theorem oversized_fragments_refused:
  assumes "ws_open (co_session c)" "length first \<le> fragment_limit max_size"
    and "fragment_limit max_size < length (first @ concat parts @ final)"
  shows "\<exists>c1. receive_loop gw max_size None (fragmented is_text first parts final @ rest) ending c =
      (Some (WebSocketCloseFrame_new MessageTooBig ''invalid fragmented message''), c1) \<and>
     co_calls c1 = co_calls c @ [OnError ''invalid fragmented message'']"
  using fragmented_start [OF assms(1), of first max_size gw is_text parts final rest ending]
    oversized_continues [OF assms(1), of "(if is_text then TextFragment else BinaryFragment) first" max_size parts final]
    fragment_limit_le [OF assms(2)] assms(2,3) by (cases is_text) simp_all

text \<open>A close frame of the client with a valid code is reported to the gateway and answered with the same
  code and the reason cut to its limit, and the session is closed. Only the mandatory-extension code gets
  no answer, and the session then still counts as open.\<close>

theorem client_close_is_answered:
  assumes "ws_open (co_session c)" "session_inv (co_session c)" "ch_receiver (ws_channel (co_session c))"
    and "ch_inner (ws_channel (co_session c))" "from_actix_close reason = Some frame"
  shows "\<exists>c1. receive_loop gw max_size slot (([], Inr (Close (Some reason))) # rest) ending c = (Some frame, c1) \<and>
    co_calls c1 = co_calls c \<and> (ws_open (co_session c1) \<longleftrightarrow> cf_code frame = MandatoryExtension) \<and>
    ch_sent (ws_channel (co_session c1)) = ch_sent (ws_channel (co_session c)) @
      (if cf_code frame = MandatoryExtension then []
       else [Close (Some \<lparr>cr_code = cr_code reason, cr_description = Some (truncate_description (cf_reason frame))\<rparr>)])"
proof -
  have code: "as_u16 (cf_code frame) = cr_code reason" "is_valid (cf_code frame)"
    using assms(5) from_u16_Some by (auto simp: from_actix_close_def WebSocketCloseFrame_new_def is_valid_def)
  have "\<not> ch_closed (ws_channel (co_session c))" using assms(1,2) by (simp add: session_inv_def Let_def)
  with assms code show ?thesis
    by (simp add: handle_arrival_def close_connection_def session_close_def transport_close_def is_server_sendable_def
        on_channel_def channel_close_def pre_check_def send_message_inner_def truncate_reason_def to_actix_close_def)
qed

section \<open>Witnesses\<close>

definition quiet_gateway :: gateway_code where
  "quiet_gateway = (\<lambda>calls s. (Inr (), []))"

definition fresh_connection :: connection where
  "fresh_connection = \<lparr>co_session = WebSocketSession_new, co_calls = []\<rparr>"

lemma fragmentation_transparent_witness:
  "receive_loop quiet_gateway 8 None (fragmented True ''ab'' [''cd''] ''ef'') [] fresh_connection =
   receive_loop quiet_gateway 8 None [([], Inr (Text ''abcdef''))] [] fresh_connection"
  using fragmentation_transparent [of "''ab''" "[''cd'']" "''ef''" 8 True quiet_gateway "[]" "[]" fresh_connection]
  by (simp add: whole_message_def valid_utf8.simps(2) utf8_width_def fragment_limit_def)

lemma oversized_fragments_witness:
  "fst (receive_loop quiet_gateway 5 None (fragmented True ''ab'' [''cd''] ''ef'' @ []) [] fresh_connection) =
     Some (WebSocketCloseFrame_new MessageTooBig ''invalid fragmented message'')"
proof -
  have "ws_open (co_session fresh_connection)" by (simp add: fresh_connection_def WebSocketSession_new_def)
  from oversized_fragments_refused [OF this, of "''ab''" 5 "[''cd'']" "''ef''" quiet_gateway True "[]" "[]"]
  show ?thesis by (auto simp: fragment_limit_def)
qed

lemma client_close_is_answered_witness:
  "fst (receive_loop quiet_gateway 5 None [([], Inr (Close (Some \<lparr>cr_code = 1000, cr_description = None\<rparr>)))] []
     fresh_connection) = Some (WebSocketCloseFrame_new Normal [])"
proof -
  let ?c = fresh_connection
  have "ws_open (co_session ?c)" "session_inv (co_session ?c)" "ch_receiver (ws_channel (co_session ?c))"
    "ch_inner (ws_channel (co_session ?c))"
    by (simp_all add: fresh_connection_def session_inv_new) (simp_all add: WebSocketSession_new_def ws_channel_new_def)
  moreover have "from_actix_close \<lparr>cr_code = 1000, cr_description = None\<rparr> = Some (WebSocketCloseFrame_new Normal [])"
    by (simp add: from_actix_close_def from_u16_def)
  ultimately show ?thesis
    using client_close_is_answered [of ?c _ _ quiet_gateway 5 None "[]" "[]"] by fastforce
qed

end
