(* ===== verification/WireFrames.thy ===== *)
theory WireFrames
  imports WebSockets
begin

unbundle bit_operations_syntax

text \<open>
  The streams between a WebSocket session and the connection, \<open>crates/caelix-actix/src/actix_ws/stream.rs\<close>:
  the response body that encodes the messages of the session, the stream of the messages received, and the
  check of close reasons on the raw bytes. The frame codec is that of \<open>actix_http\<close>: an argument, with the
  errors it raises. One definition is one poll; what the channel or the payload has ready is an argument.
\<close>

section \<open>Raw close reasons\<close>

type_synonym bytes = "8 word list"

definition to_char :: "8 word \<Rightarrow> char" where
  "to_char w = char_of (unat w)"

definition from_be_bytes :: "bytes \<Rightarrow> nat" where
  "from_be_bytes bs = foldl (\<lambda>n b. n * 256 + unat b) 0 bs"

datatype raw_error = InvalidLength nat | InvalidReason

text \<open>The length of the header before the mask and that of the payload, once the header is there.\<close>

definition header_and_payload_len :: "bytes \<Rightarrow> (nat \<times> nat) option" where
  "header_and_payload_len buf =
     (let length7 = unat (buf ! 1 AND 0x7F)
      in if length7 \<le> 125 then Some (2, length7)
         else if length7 = 126 then
           (if length buf < 4 then None else Some (4, from_be_bytes (take 2 (drop 2 buf))))
         else (if length buf < 10 then None else Some (10, from_be_bytes (take 8 (drop 2 buf)))))"

definition unmask_reason :: "bytes option \<Rightarrow> bytes \<Rightarrow> bytes" where
  "unmask_reason key reason =
     map (\<lambda>(index, b). case key of None \<Rightarrow> b | Some m \<Rightarrow> b XOR m ! ((index + 2) mod 4)) (enumerate 0 reason)"

definition validate_raw_close_reason :: "bytes \<Rightarrow> raw_error + unit" where
  "validate_raw_close_reason buf =
     (if length buf < 2 \<or> buf ! 0 AND 0x0F \<noteq> 0x08 then Inr ()
      else
        (let masked = (buf ! 1 AND 0x80 \<noteq> 0)
         in (case header_and_payload_len buf of
               None \<Rightarrow> Inr ()
             | Some (header_len, payload_len) \<Rightarrow>
                 if masked \<and> length buf < header_len + 4 then Inr ()
                 else
                   (let key = (if masked then Some (take 4 (drop header_len buf)) else None);
                        header_len' = (if masked then header_len + 4 else header_len)
                    in if length buf < saturating_add header_len' payload_len then Inr ()
                       else if payload_len = 1 then Inl (InvalidLength 1)
                       else if payload_len \<le> 2 then Inr ()
                       else
                         (let payload = take payload_len (drop header_len' buf)
                          in if valid_utf8 (map to_char (unmask_reason key (drop 2 payload)))
                             then Inr () else Inl InvalidReason)))))"

section \<open>The response body\<close>

datatype ('e, 'b) polled = Pending | Finished | Yields "'e + 'b"

record 'b streaming_body =
  sb_messages :: "ws_message list"
  sb_buf :: "'b list"
  sb_closing :: bool

definition StreamingBody_new :: "'b streaming_body" where
  "StreamingBody_new = \<lparr>sb_messages = [], sb_buf = [], sb_closing = False\<rparr>"

definition bounded_message :: "ws_message \<Rightarrow> ws_message" where
  "bounded_message msg =
     (case msg of
        Close reason \<Rightarrow> Close (truncate_reason reason)
      | Ping data \<Rightarrow> Ping (control_payload data)
      | Pong data \<Rightarrow> Pong (control_payload data)
      | _ \<Rightarrow> msg)"

text \<open>The messages are encoded up to an error or a close message, which ends the stream.\<close>

fun encode_messages ::
    "(ws_message \<Rightarrow> 'e + 'b list) \<Rightarrow> ws_message list \<Rightarrow> 'b streaming_body \<Rightarrow> ('e + unit) \<times> 'b streaming_body" where
  "encode_messages encode [] sb = (Inr (), sb\<lparr>sb_messages := []\<rparr>)"
| "encode_messages encode (msg # msgs) sb =
     (case encode (bounded_message msg) of
        Inl e \<Rightarrow> (Inl e, sb\<lparr>sb_messages := msgs\<rparr>)
      | Inr bytes \<Rightarrow>
          (let sb' = sb\<lparr>sb_buf := sb_buf sb @ bytes\<rparr>
           in if is_close msg then (Inr (), sb'\<lparr>sb_closing := True, sb_messages := []\<rparr>)
              else encode_messages encode msgs sb'))"

text \<open>\<open>ready\<close>: the messages in the channel. \<open>ended\<close>: there are none to come.\<close>

definition poll_body ::
    "(ws_message \<Rightarrow> 'e + 'b list) \<Rightarrow> ws_message list \<Rightarrow> bool \<Rightarrow> 'b streaming_body \<Rightarrow>
     ('e, 'b list) polled \<times> 'b streaming_body" where
  "poll_body encode ready ended sb =
     (if sb_closing sb \<and> sb_buf sb = [] then (Finished, sb)
      else
        (let sb1 = (if sb_closing sb then sb
                    else sb\<lparr>sb_messages := sb_messages sb @ ready, sb_closing := ended\<rparr>)
         in (case encode_messages encode (sb_messages sb1) sb1 of
               (Inl e, sb2) \<Rightarrow> (Yields (Inl e), sb2)
             | (Inr _, sb2) \<Rightarrow>
                 if sb_buf sb2 \<noteq> [] then (Yields (Inr (sb_buf sb2)), sb2\<lparr>sb_buf := []\<rparr>)
                 else if sb_closing sb2 then (Finished, sb2)
                 else (Pending, sb2))))"

section \<open>The received messages\<close>

datatype ws_frame =
    TextFrame str | BinaryFrame str | PingFrame str | PongFrame str | CloseFrame "close_reason option"
  | ContinuationFrame frame_item

record message_stream =
  mst_messages :: "ws_message list"
  mst_buf :: bytes
  mst_closing :: bool

definition MessageStream_new :: message_stream where
  "MessageStream_new = \<lparr>mst_messages = [], mst_buf = [], mst_closing = False\<rparr>"

datatype 'e stream_error = RawCloseReason raw_error | CodecError 'e | TextNotUtf8 | PayloadError str

fun message_of_frame :: "ws_frame \<Rightarrow> 'e stream_error + ws_message" where
  "message_of_frame (TextFrame data) = (if valid_utf8 data then Inr (Text data) else Inl TextNotUtf8)"
| "message_of_frame (BinaryFrame data) = Inr (Binary data)"
| "message_of_frame (PingFrame data) = Inr (Ping data)"
| "message_of_frame (PongFrame data) = Inr (Pong data)"
| "message_of_frame (CloseFrame reason) = Inr (Close reason)"
| "message_of_frame (ContinuationFrame item) = Inr (Continuation item)"

text \<open>
  The codec takes a frame off the buffer, or says that more bytes are needed. The fuel bounds the number
  of frames: one more than the bytes of the buffer is enough for a codec that takes bytes with each frame.
\<close>

type_synonym 'e decoder = "bytes \<Rightarrow> 'e + (ws_frame \<times> bytes) option"

fun decode_frames ::
    "'e decoder \<Rightarrow> nat \<Rightarrow> message_stream \<Rightarrow> ('e stream_error + unit) \<times> message_stream" where
  "decode_frames decode 0 st = (Inr (), st)"
| "decode_frames decode (Suc fuel) st =
     (case validate_raw_close_reason (mst_buf st) of
        Inl e \<Rightarrow> (Inl (RawCloseReason e), st)
      | Inr _ \<Rightarrow>
          (case decode (mst_buf st) of
             Inl e \<Rightarrow> (Inl (CodecError e), st)
           | Inr None \<Rightarrow> (Inr (), st)
           | Inr (Some (frame, rest)) \<Rightarrow>
               (case message_of_frame frame of
                  Inl e \<Rightarrow> (Inl e, st\<lparr>mst_buf := rest\<rparr>)
                | Inr msg \<Rightarrow>
                    decode_frames decode fuel (st\<lparr>mst_buf := rest, mst_messages := mst_messages st @ [msg]\<rparr>))))"

datatype payload_state = PayloadPending | PayloadEnded | PayloadFailed str

text \<open>The next message of the queue.\<close>

definition next_message :: "message_stream \<Rightarrow> ('e stream_error, ws_message) polled \<times> message_stream" where
  "next_message st =
     (case mst_messages st of
        msg # msgs \<Rightarrow> (Yields (Inr msg), st\<lparr>mst_messages := msgs\<rparr>)
      | [] \<Rightarrow> (if mst_closing st then Finished else Pending, st))"

definition poll_stream ::
    "'e decoder \<Rightarrow> bool \<Rightarrow> bytes list \<Rightarrow> payload_state \<Rightarrow> message_stream \<Rightarrow>
     ('e stream_error, ws_message) polled \<times> message_stream" where
  "poll_stream decode connection_closed chunks payload st =
     (if mst_messages st \<noteq> [] then next_message st
      else
        (let st1 = (if mst_closing st then st
                    else st\<lparr>mst_buf := mst_buf st @ concat chunks,
                            mst_closing := connection_closed \<or> payload \<noteq> PayloadPending\<rparr>)
         in (case (if mst_closing st then PayloadPending else payload) of
               PayloadFailed e \<Rightarrow> (Yields (Inl (PayloadError e)), st1)
             | _ \<Rightarrow>
                 (case decode_frames decode (Suc (length (mst_buf st1))) st1 of
                    (Inl e, st2) \<Rightarrow> (Yields (Inl e), st2)
                  | (Inr _, st2) \<Rightarrow> next_message st2))))"

section \<open>Lemmas\<close>

text \<open>
  A close frame as a client builds it: a first byte with the close opcode, the length with the mask bit, the
  mask key, and the masked payload.
\<close>

definition masked_payload :: "bytes option \<Rightarrow> bytes \<Rightarrow> bytes" where
  "masked_payload key payload =
     (case key of None \<Rightarrow> payload | Some k \<Rightarrow> map (\<lambda>(i, b). b XOR k ! (i mod 4)) (enumerate 0 payload))"

definition close_frame_bytes :: "8 word \<Rightarrow> bytes option \<Rightarrow> bytes \<Rightarrow> bytes" where
  "close_frame_bytes b0 key payload =
     b0 # word_of_nat (case key of None \<Rightarrow> length payload | Some _ \<Rightarrow> 128 + length payload) #
       (case key of None \<Rightarrow> [] | Some k \<Rightarrow> k) @ masked_payload key payload"

lemma low_bits:
  assumes "n < 256"
  shows "unat ((word_of_nat n :: 8 word) AND 0x7F) = n mod 128"
proof -
  have m: "(0x7F :: 8 word) = mask 7" by (simp add: mask_eq_exp_minus_1)
  have "unat (word_of_nat n :: 8 word) = n" using assms by (simp only: unat_of_nat) simp
  then show ?thesis
    unfolding m take_bit_eq_mask [symmetric] unsigned_take_bit_eq
    by (simp add: take_bit_eq_mod)
qed
lemma top_bit:
  assumes "n < 256"
  shows "(word_of_nat n :: 8 word) AND 0x80 = 0 \<longleftrightarrow> even (n div 128)"
proof -
  have e: "(0x80::8 word) = 2 ^ 7" by simp
  have n: "unat (word_of_nat n :: 8 word) = n" using assms by (simp only: unat_of_nat) simp
  have "bit (word_of_nat n :: 8 word) 7 \<longleftrightarrow> bit (unat (word_of_nat n :: 8 word)) 7"
    by (simp add: bit_unsigned_iff)
  then show ?thesis unfolding e and_exp_eq_0_iff_not_bit n by (simp add: bit_iff_odd)
qed
lemma length_masked [simp]: "length (masked_payload key payload) = length payload"
  by (simp add: masked_payload_def split: option.splits)

lemma unmask_masked: "unmask_reason key (drop 2 (masked_payload key payload)) = drop 2 payload"
proof (rule nth_equalityI)
  show "length (unmask_reason key (drop 2 (masked_payload key payload))) = length (drop 2 payload)"
    by (simp add: unmask_reason_def)
next
  fix i
  assume "i < length (unmask_reason key (drop 2 (masked_payload key payload)))"
  then have "i < length payload - 2" by (simp add: unmask_reason_def)
  then show "unmask_reason key (drop 2 (masked_payload key payload)) ! i = drop 2 payload ! i"
    by (cases key) (simp_all add: unmask_reason_def masked_payload_def nth_enumerate_eq xor.assoc)
qed

lemma short_header:
  assumes "length payload \<le> 125"
  shows "header_and_payload_len (close_frame_bytes b0 key payload @ rest) = Some (2, length payload)"
    and "(close_frame_bytes b0 key payload @ rest) ! 1 AND 0x80 = 0 \<longleftrightarrow> key = None"
proof -
  define n where "n = (case key of None \<Rightarrow> length payload | Some _ \<Rightarrow> 128 + length payload)"
  have n: "n < 256" "n mod 128 = length payload" "even (n div 128) \<longleftrightarrow> key = None"
    using assms by (simp_all add: n_def div_add_self1 split: option.splits)
  have at: "(close_frame_bytes b0 key payload @ rest) ! 1 = word_of_nat n"
    by (simp add: close_frame_bytes_def n_def)
  show "header_and_payload_len (close_frame_bytes b0 key payload @ rest) = Some (2, length payload)"
    unfolding header_and_payload_len_def Let_def at low_bits [OF n(1)] n(2) using assms by simp
  show "(close_frame_bytes b0 key payload @ rest) ! 1 AND 0x80 = 0 \<longleftrightarrow> key = None"
    unfolding at top_bit [OF n(1)] by (rule n(3))
qed

lemma validate_short:
  assumes "2 \<le> length buf" "buf ! 0 AND 0x0F = 0x08" "header_and_payload_len buf = Some (2, l)" "l \<le> 125"
    and "buf ! 1 AND 0x80 = 0 \<longleftrightarrow> \<not> masked"
  shows "validate_raw_close_reason buf =
    (let header = (if masked then 6 else 2)
     in if length buf < header + l then Inr ()
        else if l = 1 then Inl (InvalidLength 1)
        else if valid_utf8 (map to_char (unmask_reason (if masked then Some (take 4 (drop 2 buf)) else None)
               (drop 2 (take l (drop header buf))))) then Inr ()
        else Inl InvalidReason)"
proof -
  have empty: "drop 2 (take l xs) = []" if "l \<le> 2" for xs :: bytes using that by simp
  have "unmask_reason key [] = []" for key by (simp add: unmask_reason_def)
  with empty assms show ?thesis
    by (cases masked; cases "l \<le> 2") (auto simp: validate_raw_close_reason_def saturating_add_def Let_def)
qed

lemma frame_length: "length (close_frame_bytes b0 key payload) =
    2 + (case key of None \<Rightarrow> 0 | Some k \<Rightarrow> length k) + length payload"
  by (simp add: close_frame_bytes_def split: option.splits)

section \<open>Properties\<close>

text \<open>The check on raw bytes accepts a complete close frame, masked or not, exactly when its payload is not a
  single byte and its reason is UTF-8, whatever follows in the buffer; while the frame is incomplete it lets
  the codec wait for more.\<close>

theorem raw_close_reason_checked:
  assumes "b0 AND 0x0F = 0x08" "length payload \<le> 125" "\<forall>k\<in>set_option key. length k = 4"
  shows "validate_raw_close_reason (close_frame_bytes b0 key payload @ rest) =
      (if length payload = 1 then Inl (InvalidLength 1)
       else if valid_utf8 (map to_char (drop 2 payload)) then Inr () else Inl InvalidReason) \<and>
    (\<forall>n<length (close_frame_bytes b0 key payload).
       validate_raw_close_reason (take n (close_frame_bytes b0 key payload)) = Inr ())"
proof (intro conjI allI impI)
  let ?frame = "close_frame_bytes b0 key payload"
  let ?header = "if key = None then 2 else 6 :: nat"
  have len: "length ?frame = ?header + length payload"
    using assms(3) by (cases key) (simp_all add: frame_length)
  have first: "(?frame @ xs) ! 0 = b0" for xs by (simp add: close_frame_bytes_def)
  note whole = validate_short [of "?frame @ rest" "length payload" "key \<noteq> None"]
  have key: "(if key \<noteq> None then Some (take 4 (drop 2 (?frame @ rest))) else None) = key"
    using assms(3) by (cases key) (simp_all add: close_frame_bytes_def)
  have body: "take (length payload) (drop ?header (?frame @ rest)) = masked_payload key payload"
    using assms(3) by (cases key) (simp_all add: close_frame_bytes_def)
  show "validate_raw_close_reason (?frame @ rest) =
      (if length payload = 1 then Inl (InvalidLength 1)
       else if valid_utf8 (map to_char (drop 2 payload)) then Inr () else Inl InvalidReason)"
    using whole assms(1,2) short_header [OF assms(2), of b0 key rest] first len key body unmask_masked [of key payload]
    by (cases key) (simp_all add: Let_def)
  fix n
  assume n: "n < length ?frame"
  show "validate_raw_close_reason (take n ?frame) = Inr ()"
  proof (cases "n < 2")
    case True
    then have "length (take n ?frame) < 2" by simp
    then show ?thesis unfolding validate_raw_close_reason_def by (simp only: disj_not1 simp_thms if_True)
  next
    case False
    have nth: "take n ?frame ! 0 = b0" "take n ?frame ! 1 = (?frame @ []) ! 1"
      using False n first [of "[]"] by simp_all
    have "header_and_payload_len (take n ?frame) = Some (2, length payload)"
      using short_header(1) [OF assms(2), of b0 key "[]"] assms(2) nth(2)
      by (auto simp: header_and_payload_len_def Let_def split: if_splits)
    moreover have "take n ?frame ! 1 AND 0x80 = 0 \<longleftrightarrow> \<not> key \<noteq> None"
      using short_header(2) [OF assms(2), of b0 key "[]"] nth(2) by simp
    ultimately show ?thesis
      using validate_short [of "take n ?frame" "length payload" "key \<noteq> None"] False n nth(1) assms(1,2) len
      by (cases key) (simp_all add: Let_def)
  qed
qed

fun up_to_close :: "ws_message list \<Rightarrow> ws_message list" where
  "up_to_close [] = []"
| "up_to_close (m # ms) = (if is_close m then [m] else m # up_to_close ms)"

lemma up_to_close_append: "up_to_close (xs @ ys) = (if list_ex is_close xs then up_to_close xs else xs @ up_to_close ys)"
  by (induction xs) auto

lemma encode_messages_total:
  "encode_messages (\<lambda>m. Inr (enc m)) msgs sb =
     (Inr (), sb\<lparr>sb_messages := [],
        sb_buf := sb_buf sb @ concat (map (enc \<circ> bounded_message) (up_to_close msgs)),
        sb_closing := sb_closing sb \<or> list_ex is_close msgs\<rparr>)"
  by (induction msgs arbitrary: sb) (simp_all add: Let_def)

text \<open>Polls in a row, each with the messages that are ready: the bytes yielded.\<close>

fun poll_all :: "(ws_message \<Rightarrow> 'e + 'b list) \<Rightarrow> ws_message list list \<Rightarrow> 'b streaming_body \<Rightarrow> 'b list \<times> 'b streaming_body" where
  "poll_all encode [] sb = ([], sb)"
| "poll_all encode (ready # batches) sb =
     (case poll_body encode ready False sb of
        (out, sb1) \<Rightarrow> (case poll_all encode batches sb1 of
          (bytes, sb2) \<Rightarrow> ((case out of Yields (Inr bs) \<Rightarrow> bs | _ \<Rightarrow> []) @ bytes, sb2)))"

lemma poll_total:
  assumes "sb_messages sb = []" "sb_buf sb = []"
  shows "\<exists>out. poll_body (\<lambda>m. Inr (enc m)) ready False sb =
    (out, sb\<lparr>sb_closing := sb_closing sb \<or> list_ex is_close ready\<rparr>) \<and>
    (case out of Yields (Inr bs) \<Rightarrow> bs | _ \<Rightarrow> []) =
      (if sb_closing sb then [] else concat (map (enc \<circ> bounded_message) (up_to_close ready)))"
  using assms by (cases "sb_closing sb") (auto simp: poll_body_def encode_messages_total Let_def)

lemma poll_all_total:
  "sb_messages sb = [] \<Longrightarrow> sb_buf sb = [] \<Longrightarrow>
   poll_all (\<lambda>m. Inr (enc m) :: 'e + 'b list) batches sb =
     (if sb_closing sb then [] else concat (map (enc \<circ> bounded_message) (up_to_close (concat batches))),
      sb\<lparr>sb_closing := sb_closing sb \<or> list_ex is_close (concat batches)\<rparr>)"
proof (induction batches arbitrary: sb)
  case (Cons ready batches)
  obtain out where out: "poll_body (\<lambda>m. Inr (enc m) :: 'e + 'b list) ready False sb =
      (out, sb\<lparr>sb_closing := sb_closing sb \<or> list_ex is_close ready\<rparr>)"
    "(case out of Yields (Inr bs) \<Rightarrow> bs | _ \<Rightarrow> []) =
      (if sb_closing sb then [] else concat (map (enc \<circ> bounded_message) (up_to_close ready)))"
    using poll_total [OF Cons.prems, of enc ready] by blast
  have idle: "up_to_close ready = ready" if "\<not> list_ex is_close ready"
    using up_to_close_append [of ready "[]"] that by simp
  have "poll_all (\<lambda>m. Inr (enc m) :: 'e + 'b list) batches (sb\<lparr>sb_closing := sb_closing sb \<or> list_ex is_close ready\<rparr>) =
      (if sb_closing sb \<or> list_ex is_close ready then []
       else concat (map (enc \<circ> bounded_message) (up_to_close (concat batches))),
       sb\<lparr>sb_closing := sb_closing sb \<or> list_ex is_close (ready @ concat batches)\<rparr>)"
    using Cons.IH [of "sb\<lparr>sb_closing := sb_closing sb \<or> list_ex is_close ready\<rparr>"] Cons.prems
    by (cases "sb_closing sb"; cases "list_ex is_close ready") simp_all
  then show ?case using out idle
    by (cases "sb_closing sb"; cases "list_ex is_close ready") (simp_all add: up_to_close_append)
qed simp

text \<open>However the session's messages come in, the response body carries exactly the encodings of the
  messages up to the first close message, with control frames cut to their limits; after a close message
  the body is closing with nothing left to send.\<close>

theorem body_carries_messages:
  "poll_all (\<lambda>m. Inr (enc m)) batches StreamingBody_new =
     (concat (map (enc \<circ> bounded_message) (up_to_close (concat batches))),
      \<lparr>sb_messages = [], sb_buf = [], sb_closing = list_ex is_close (concat batches)\<rparr>)"
  by (simp add: poll_all_total StreamingBody_new_def)

text \<open>
  A fault in a later frame of a read overtakes the messages decoded before it: the error is returned while
  they are still queued, and a reader that stops at the error never sees them.
\<close>

lemma error_overtakes_messages:
  assumes "decode_frames decode (Suc (length (mst_buf st1))) st1 = (Inl e, st2)"
    and "st1 = st\<lparr>mst_buf := mst_buf st @ concat chunks, mst_closing := connection_closed\<rparr>"
    and "mst_messages st = []" "\<not> mst_closing st"
  shows "poll_stream decode connection_closed chunks PayloadPending st = (Yields (Inl e), st2)"
  using assms by (simp add: poll_stream_def Let_def del: decode_frames.simps)

lemma error_overtakes_text:
  "poll_stream (\<lambda>buf. if buf = [1, 0x82] then Inr (Some (BinaryFrame ''a'', [0x82])) else Inl ''fault'') False
      [[1, 0x82]] PayloadPending MessageStream_new =
    (Yields (Inl (CodecError ''fault'')), \<lparr>mst_messages = [Binary ''a''], mst_buf = [0x82], mst_closing = False\<rparr>)"
  by (rule error_overtakes_messages [OF _ refl])
    (simp_all add: MessageStream_new_def validate_raw_close_reason_def)

section \<open>Witness\<close>

lemma raw_close_reason_witness:
  "validate_raw_close_reason (close_frame_bytes 0x88 (Some [1, 2, 3, 4]) [3, 232, 255] @ [0]) = Inl InvalidReason"
proof -
  have "byte (to_char 255) = 255" by (simp add: to_char_def)
  then have "\<not> valid_utf8 (map to_char (drop 2 [3, 232, 255]))"
    by (simp add: valid_utf8.simps(2) utf8_width_def)
  with raw_close_reason_checked [of "0x88" "[3, 232, 255]" "Some [1, 2, 3, 4]" "[0]"] show ?thesis by simp
qed

end
