(* ===== verification/AxumConnections.thy ===== *)
theory AxumConnections
  imports Connections
begin

text \<open>
  The WebSocket side of the axum adapter, \<open>crates/caelix-axum/src/websocket.rs\<close>. Frames are assembled and
  limited by axum, so only whole messages arrive. The sink takes messages until it breaks; \<open>as_broken\<close> is
  the error text it then gives. The session itself is that of \<open>caelix-core\<close>, as in WebSockets, with this transport.
\<close>

section \<open>Sessions\<close>

record axum_close = ac_code :: "16 word" ac_reason :: str

datatype axum_message =
    AxumText str | AxumBinary str | AxumPing str | AxumPong str | AxumClose "axum_close option"

record axum_session =
  as_open :: bool
  as_close_frame :: "close_frame option"
  as_sent :: "axum_message list"
  as_broken :: "str option"

definition axum_session_new :: axum_session where
  "axum_session_new = \<lparr>as_open = True, as_close_frame = None, as_sent = [], as_broken = None\<rparr>"

definition transport_error :: "str \<Rightarrow> http_exception" where
  "transport_error e = HttpException_new 500 ''Internal Server Error'' e"

definition axum_send :: "axum_message \<Rightarrow> axum_session \<Rightarrow> unit result \<times> axum_session" where
  "axum_send msg s =
     (case as_broken s of
        Some e \<Rightarrow> (Inl (transport_error e), s)
      | None \<Rightarrow> (Inr (), s\<lparr>as_sent := as_sent s @ [msg]\<rparr>))"

definition to_axum_close :: "close_frame \<Rightarrow> axum_close" where
  "to_axum_close frame =
     \<lparr>ac_code = (if is_server_sendable (cf_code frame) then as_u16 (cf_code frame) else as_u16 Internal),
      ac_reason = cf_reason frame\<rparr>"

definition from_axum_close :: "axum_close \<Rightarrow> close_frame option" where
  "from_axum_close frame =
     map_option (\<lambda>code. WebSocketCloseFrame_new code (ac_reason frame)) (from_u16 (ac_code frame))"

definition axum_transport_close :: "close_frame option \<Rightarrow> axum_session \<Rightarrow> unit result \<times> axum_session" where
  "axum_transport_close frame s =
     (case axum_send (AxumClose (map_option to_axum_close frame)) s of
        (r, s') \<Rightarrow> (r, s'\<lparr>as_open := False\<rparr>))"

text \<open>The session's operations over this transport: those of \<open>WebSocketSession\<close>.\<close>

definition axum_ensure_open :: "axum_session \<Rightarrow> unit result" where
  "axum_ensure_open s =
     (if as_open s then Inr ()
      else Inl (HttpException_new 500 ''Internal Server Error'' ''websocket session is closed''))"

definition axum_when_open :: "axum_message \<Rightarrow> axum_session \<Rightarrow> unit result \<times> axum_session" where
  "axum_when_open msg s = (case axum_ensure_open s of Inl e \<Rightarrow> (Inl e, s) | Inr _ \<Rightarrow> axum_send msg s)"

definition axum_close_session :: "close_frame option \<Rightarrow> axum_session \<Rightarrow> unit result \<times> axum_session" where
  "axum_close_session frame s = axum_transport_close frame (s\<lparr>as_close_frame := frame\<rparr>)"

fun axum_step :: "session_op \<Rightarrow> axum_session \<Rightarrow> unit result \<times> axum_session" where
  "axum_step (SendText t) s = axum_when_open (AxumText t) s"
| "axum_step (SendBinary data) s = axum_when_open (AxumBinary data) s"
| "axum_step (SendPing data) s = axum_when_open (AxumPing data) s"
| "axum_step (SendPong data) s = axum_when_open (AxumPong data) s"
| "axum_step (CloseSession frame) s = axum_close_session frame s"
| "axum_step DropBody s = (Inr (), s\<lparr>as_broken := Some ''connection closed''\<rparr>)"

fun axum_steps :: "session_op list \<Rightarrow> axum_session \<Rightarrow> axum_session" where
  "axum_steps [] s = s"
| "axum_steps (op # ops) s = axum_steps ops (snd (axum_step op s))"

section \<open>The connection\<close>

type_synonym axum_gateway = "callback list \<Rightarrow> axum_session \<Rightarrow> unit result \<times> session_op list"

record axum_connection =
  xc_session :: axum_session
  xc_calls :: "callback list"

definition axum_call :: "axum_gateway \<Rightarrow> callback \<Rightarrow> axum_connection \<Rightarrow> unit result \<times> axum_connection" where
  "axum_call gw cb c =
     (let calls = xc_calls c @ [cb]
      in (case gw calls (xc_session c) of
            (r, ops) \<Rightarrow> (r, \<lparr>xc_session = axum_steps ops (xc_session c), xc_calls = calls\<rparr>)))"

definition axum_shut :: "close_frame option \<Rightarrow> axum_connection \<Rightarrow> axum_connection" where
  "axum_shut frame c = c\<lparr>xc_session := snd (axum_close_session frame (xc_session c))\<rparr>"

definition axum_fail_handler :: "axum_gateway \<Rightarrow> str \<Rightarrow> axum_connection \<Rightarrow> close_frame \<times> axum_connection" where
  "axum_fail_handler gw message c =
     (let c1 = snd (axum_call gw (OnError message) c);
          frame = WebSocketCloseFrame_new Internal ''handler failed''
      in (frame, axum_shut (Some frame) c1))"

datatype axum_turn = AxumNext | AxumBreak "close_frame option"

definition axum_deliver :: "axum_gateway \<Rightarrow> callback \<Rightarrow> axum_connection \<Rightarrow> axum_turn \<times> axum_connection" where
  "axum_deliver gw cb c =
     (case axum_call gw cb c of
        (Inl e, c1) \<Rightarrow> (case axum_fail_handler gw (ex_message e) c1 of (frame, c2) \<Rightarrow> (AxumBreak (Some frame), c2))
      | (Inr _, c1) \<Rightarrow> (AxumNext, c1))"

fun axum_handle :: "axum_gateway \<Rightarrow> str + axum_message \<Rightarrow> axum_connection \<Rightarrow> axum_turn \<times> axum_connection" where
  "axum_handle gw (Inr (AxumText t)) c = axum_deliver gw (OnText t) c"
| "axum_handle gw (Inr (AxumBinary data)) c = axum_deliver gw (OnBinary data) c"
| "axum_handle gw (Inr (AxumPing data)) c =
     (case axum_when_open (AxumPong data) (xc_session c) of
        (Inl _, s) \<Rightarrow> (AxumBreak None, c\<lparr>xc_session := s\<rparr>)
      | (Inr _, s) \<Rightarrow> (AxumNext, c\<lparr>xc_session := s\<rparr>))"
| "axum_handle gw (Inr (AxumPong _)) c = (AxumNext, c)"
| "axum_handle gw (Inr (AxumClose frame)) c =
     (let close_frame = (case frame of None \<Rightarrow> None | Some f \<Rightarrow> from_axum_close f)
      in (AxumBreak close_frame, axum_shut close_frame c))"
| "axum_handle gw (Inl e) c =
     (let c1 = snd (axum_call gw (OnError e) c);
          frame = WebSocketCloseFrame_new Protocol ''invalid websocket frame''
      in (AxumBreak (Some frame), axum_shut (Some frame) c1))"

fun axum_loop ::
    "axum_gateway \<Rightarrow> (session_op list \<times> (str + axum_message)) list \<Rightarrow> axum_connection \<Rightarrow>
     close_frame option \<times> axum_connection" where
  "axum_loop gw [] c = (None, c)"
| "axum_loop gw ((ops, arrival) # arrivals) c =
     (if \<not> as_open (xc_session c) then (None, c)
      else
        (case axum_handle gw arrival (c\<lparr>xc_session := axum_steps ops (xc_session c)\<rparr>) of
           (AxumBreak frame, c1) \<Rightarrow> (frame, c1)
         | (AxumNext, c1) \<Rightarrow> axum_loop gw arrivals c1))"

definition axum_run_connection ::
    "axum_gateway \<Rightarrow> ws_request \<Rightarrow> (session_op list \<times> (str + axum_message)) list \<Rightarrow> axum_connection" where
  "axum_run_connection gw req arrivals =
     (case (case axum_call gw (OnConnect req) \<lparr>xc_session = axum_session_new, xc_calls = []\<rparr> of
              (Inl e, c1) \<Rightarrow> (case axum_fail_handler gw (ex_message e) c1 of (frame, c2) \<Rightarrow> (Some frame, c2))
            | (Inr _, c1) \<Rightarrow> axum_loop gw arrivals c1) of
        (frame, c) \<Rightarrow>
          snd (axum_call gw (OnClose frame) (c\<lparr>xc_session := (xc_session c)\<lparr>as_open := False\<rparr>\<rparr>)))"

definition websocket_request :: "http_upgrade \<Rightarrow> ws_request" where
  "websocket_request req =
     WebSocketRequest_new (hu_path req) (hu_query req) None (collect_headers (hu_headers req) Map.empty)"

section \<open>Lemmas\<close>

lemma axum_call_calls [simp]: "axum_call gw cb c = (r, c1) \<Longrightarrow> xc_calls c1 = xc_calls c @ [cb]"
    "xc_calls (snd (axum_call gw cb c)) = xc_calls c @ [cb]" "xc_calls (axum_shut frame c) = xc_calls c"
  by (auto simp: axum_call_def axum_shut_def Let_def split: prod.splits)

definition whole_delivery :: "callback \<Rightarrow> bool" where
  "whole_delivery cb \<longleftrightarrow> (case cb of OnText _ \<Rightarrow> True | OnBinary _ \<Rightarrow> True | _ \<Rightarrow> False)"

lemma whole_delivery_simps [simp]: "whole_delivery (OnText t)" "whole_delivery (OnBinary d)"
  by (simp_all add: whole_delivery_def)

definition axum_extends :: "nat \<Rightarrow> axum_connection \<Rightarrow> axum_connection \<Rightarrow> bool" where
  "axum_extends n c c1 \<longleftrightarrow>
     (\<exists>data errs. xc_calls c1 = xc_calls c @ data @ errs \<and> list_all whole_delivery data \<and>
        list_all is_error_call errs \<and> length errs \<le> n)"

lemma axum_extendsI: "xc_calls c1 = xc_calls c @ data @ errs \<Longrightarrow> list_all whole_delivery data \<Longrightarrow>
   list_all is_error_call errs \<Longrightarrow> length errs \<le> n \<Longrightarrow> axum_extends n c c1"
  unfolding axum_extends_def by blast

lemma axum_extends_refl: "xc_calls c1 = xc_calls c \<Longrightarrow> axum_extends n c c1"
  by (rule axum_extendsI [of _ _ "[]" "[]"]) simp_all

lemma axum_extends_trans: "axum_extends 0 c c1 \<Longrightarrow> axum_extends n c1 c2 \<Longrightarrow> axum_extends n c c2"
proof -
  assume "axum_extends 0 c c1" "axum_extends n c1 c2"
  then obtain d1 d2 errs where "xc_calls c1 = xc_calls c @ d1" "list_all whole_delivery d1"
    "xc_calls c2 = xc_calls c1 @ d2 @ errs" "list_all whole_delivery d2" "list_all is_error_call errs" "length errs \<le> n"
    unfolding axum_extends_def by auto
  then show "axum_extends n c c2" by (intro axum_extendsI [of _ _ "d1 @ d2" errs]) simp_all
qed

lemma axum_deliver_extends:
  assumes "axum_deliver gw cb c = (t, c1)" "whole_delivery cb"
  shows "axum_extends (case t of AxumNext \<Rightarrow> 0 | AxumBreak _ \<Rightarrow> 1) c c1"
proof -
  obtain r c' where call: "axum_call gw cb c = (r, c')" by (cases "axum_call gw cb c")
  show ?thesis
  proof (cases r)
    case (Inl e)
    with assms call show ?thesis
      by (auto simp: axum_deliver_def axum_fail_handler_def Let_def
          intro: axum_extendsI [of _ _ "[cb]" "[OnError (ex_message e)]"])
  next
    case (Inr u)
    with assms call show ?thesis by (auto simp: axum_deliver_def intro: axum_extendsI [of _ _ "[cb]" "[]"])
  qed
qed

lemma axum_handle_extends:
  "axum_handle gw arrival c = (t, c1) \<Longrightarrow> axum_extends (case t of AxumNext \<Rightarrow> 0 | AxumBreak _ \<Rightarrow> 1) c c1"
proof (induction gw arrival c rule: axum_handle.induct)
  case (3 gw data c)
  then show ?case by (auto split: prod.splits sum.splits intro: axum_extends_refl)
next
  case (6 gw e c)
  then show ?case by (auto simp: Let_def intro: axum_extendsI [of _ _ "[]" "[OnError e]"])
qed (auto simp: Let_def intro: axum_extends_refl axum_deliver_extends)

lemma axum_loop_extends: "axum_loop gw arrivals c = (frame, c1) \<Longrightarrow> axum_extends 1 c c1"
proof (induction arrivals arbitrary: c)
  case (Cons a arrivals)
  obtain ops arrival where a: "a = (ops, arrival)" by (cases a)
  let ?c = "c\<lparr>xc_session := axum_steps ops (xc_session c)\<rparr>"
  obtain t c2 where h: "axum_handle gw arrival ?c = (t, c2)" by (cases "axum_handle gw arrival ?c")
  from axum_handle_extends [OF h] have e: "axum_extends (case t of AxumNext \<Rightarrow> 0 | AxumBreak _ \<Rightarrow> 1) c c2"
    by (auto simp: axum_extends_def)
  show ?case
  proof (cases "as_open (xc_session c)")
    case True
    with Cons a h e show ?thesis by (cases t) (auto intro: axum_extends_trans)
  next
    case False
    with Cons.prems a show ?thesis by (auto intro: axum_extends_refl)
  qed
qed (auto intro: axum_extends_refl)

section \<open>Properties\<close>

text \<open>A connection of the axum adapter calls the gateway in the same order as one of the actix adapter: first
  \<open>on_connect\<close>, then messages, at most one error, and \<open>on_close\<close> once and last.\<close>

theorem axum_connection_calls_in_order:
  "\<exists>data errs frame.
     xc_calls (axum_run_connection gw req arrivals) = OnConnect req # data @ errs @ [OnClose frame] \<and>
     list_all whole_delivery data \<and> list_all is_error_call errs \<and> length errs \<le> 1"
proof -
  obtain r c1 where connect: "axum_call gw (OnConnect req) \<lparr>xc_session = axum_session_new, xc_calls = []\<rparr> = (r, c1)"
    by (cases "axum_call gw (OnConnect req) \<lparr>xc_session = axum_session_new, xc_calls = []\<rparr>")
  then have c1: "xc_calls c1 = [OnConnect req]" by simp
  obtain frame c2 where loop_eq: "(case r of
      Inl e \<Rightarrow> (case axum_fail_handler gw (ex_message e) c1 of (frame, c2) \<Rightarrow> (Some frame, c2))
    | Inr _ \<Rightarrow> axum_loop gw arrivals c1) = (frame, c2)" by fastforce
  have ext: "axum_extends 1 c1 c2"
  proof (cases r)
    case (Inl e)
    with loop_eq show ?thesis
      by (auto simp: axum_fail_handler_def Let_def intro: axum_extendsI [of _ _ "[]" "[OnError (ex_message e)]"])
  next
    case (Inr u)
    with loop_eq axum_loop_extends show ?thesis by simp
  qed
  have "axum_run_connection gw req arrivals =
      snd (axum_call gw (OnClose frame) (c2\<lparr>xc_session := (xc_session c2)\<lparr>as_open := False\<rparr>\<rparr>))"
    using loop_eq by (simp add: axum_run_connection_def connect split: sum.splits prod.splits)
  then have "xc_calls (axum_run_connection gw req arrivals) = xc_calls c2 @ [OnClose frame]" by simp
  with ext c1 show ?thesis unfolding axum_extends_def by (elim exE) auto
qed

text \<open>
  The adapters differ when the server closes the session itself: the actix adapter tells the gateway's
  \<open>on_close\<close> the frame, the axum adapter does not.
\<close>

definition closing_ops :: "callback list \<Rightarrow> session_op list" where
  "closing_ops calls =
     (case last calls of OnText _ \<Rightarrow> [CloseSession (Some (WebSocketCloseFrame_new Normal ''bye''))] | _ \<Rightarrow> [])"

lemma closing_ops_simps [simp]:
  "closing_ops (cs @ [OnText t]) = [CloseSession (Some (WebSocketCloseFrame_new Normal ''bye''))]"
  "closing_ops (cs @ [OnConnect req]) = []" "closing_ops (cs @ [OnClose f]) = []"
  by (simp_all add: closing_ops_def)

definition closing_gateway :: "callback list \<Rightarrow> 's \<Rightarrow> unit result \<times> session_op list" where
  "closing_gateway calls s = (Inr (), closing_ops calls)"

declare call_simps(2) [simp del] axum_call_calls(1) [simp del]

lemma call_closing:
  "call closing_gateway cb c =
     (Inr (), \<lparr>co_session = session_steps (closing_ops (co_calls c @ [cb])) (co_session c), co_calls = co_calls c @ [cb]\<rparr>)"
  "axum_call closing_gateway cb x =
     (Inr (), \<lparr>xc_session = axum_steps (closing_ops (xc_calls x @ [cb])) (xc_session x), xc_calls = xc_calls x @ [cb]\<rparr>)"
  by (simp_all add: call_def axum_call_def closing_gateway_def Let_def)

lemma own_close_frame: "ws_close_frame (snd (session_close frame s)) = frame"
  by (simp add: session_close_def transport_close_def on_channel_def split: prod.split)

lemma own_close_open: "is_server_sendable (cf_code f) \<Longrightarrow> \<not> ws_open (snd (session_close (Some f) s))"
  by (simp add: session_close_def transport_close_def on_channel_def split: prod.split)

lemma actix_reports_own_close:
  "last (co_calls (run_connection closing_gateway 100 req [([], Inr (Text t))] [] WebSocketSession_new)) =
     OnClose (Some (WebSocketCloseFrame_new Normal ''bye''))"
proof -
  let ?f = "WebSocketCloseFrame_new Normal ''bye''"
  let ?s = "snd (session_close (Some ?f) WebSocketSession_new)"
  let ?c = "\<lparr>co_session = WebSocketSession_new, co_calls = [OnConnect req]\<rparr>"
  have sendable: "is_server_sendable (cf_code ?f)"
    by (simp add: is_server_sendable_def is_valid_def from_u16_def WebSocketCloseFrame_new_def)
  have start: "call closing_gateway (OnConnect req) \<lparr>co_session = WebSocketSession_new, co_calls = []\<rparr> = (Inr (), ?c)"
    unfolding call_closing using closing_ops_simps(2) [of "[]"] by simp
  have loop: "receive_loop closing_gateway 100 None [([], Inr (Text t))] [] ?c =
      (None, \<lparr>co_session = ?s, co_calls = [OnConnect req, OnText t]\<rparr>)"
    using closing_ops_simps(1) [of "[OnConnect req]" t] own_close_open [OF sendable]
    by (simp add: handle_arrival_def deliver_def call_closing WebSocketSession_new_def)
  show ?thesis
    unfolding run_connection_def start using loop
    by (simp add: take_local_close_frame_def own_close_frame call_closing)
qed

lemma axum_ignores_own_close:
  "last (xc_calls (axum_run_connection closing_gateway req [([], Inr (AxumText t))])) = OnClose None"
proof -
  let ?f = "WebSocketCloseFrame_new Normal ''bye''"
  let ?x = "\<lparr>xc_session = axum_session_new, xc_calls = [OnConnect req]\<rparr>"
  have start: "axum_call closing_gateway (OnConnect req) \<lparr>xc_session = axum_session_new, xc_calls = []\<rparr> = (Inr (), ?x)"
    unfolding call_closing using closing_ops_simps(2) [of "[]"] by simp
  have loop: "axum_loop closing_gateway [([], Inr (AxumText t))] ?x =
      (None, \<lparr>xc_session = snd (axum_close_session (Some ?f) axum_session_new), xc_calls = [OnConnect req, OnText t]\<rparr>)"
    using closing_ops_simps(1) [of "[OnConnect req]" t]
    by (simp add: axum_deliver_def call_closing axum_session_new_def)
  show ?thesis unfolding axum_run_connection_def start using loop by (simp add: call_closing)
qed

theorem own_close_reported_by_actix_only:
  "last (co_calls (run_connection closing_gateway 100 req [([], Inr (Text t))] [] WebSocketSession_new)) =
     OnClose (Some (WebSocketCloseFrame_new Normal ''bye'')) \<and>
   last (xc_calls (axum_run_connection closing_gateway req [([], Inr (AxumText t))])) = OnClose None"
  using actix_reports_own_close axum_ignores_own_close by simp

end
