(* ===== verification/Uploads.thy ===== *)
theory Uploads
  imports Exceptions Utf8
begin

text \<open>
  Multipart uploads, \<open>crates/caelix-core/src/upload.rs\<close>: staging of file parts in temporary files, limits,
  content types, and what becomes of the temporary files. The multipart parser (\<open>multer\<close>) gives the parts,
  each with the chunks it yields and whether it then fails; headers are carried along as text. Detection of
  content types by their bytes (\<open>infer\<close>) and form decoding (\<open>serde_html_form\<close>) are third-party.

  The disk is a map from paths to contents. \<open>io\<close> tells which operations fail and how; opening a new file
  also fails when it exists. Memory of the process, the process id and the clock enter the names of
  temporary files through \<open>tag\<close>.
\<close>

section \<open>Uploaded files\<close>

record upload_config =
  uc_temp_dir :: str

definition upload_temp_dir :: "str \<Rightarrow> upload_config \<Rightarrow> upload_config" where
  "upload_temp_dir path config = config\<lparr>uc_temp_dir := path\<rparr>"

record uploaded_file =
  uf_field_name :: str
  uf_file_name :: "str option"
  uf_content_type :: "str option"
  uf_headers :: "(str \<times> str) list"
  uf_size :: nat
  uf_temp_path :: str

datatype disk_op =
  CreateDir str | OpenNew str | OpenFile str | WriteAt str nat | Flush str | RemoveFile str | ReadFile str

type_synonym disk = "str \<Rightarrow> str option"
type_synonym disk_io = "disk_op \<Rightarrow> str option"

definition storage_error :: "str \<Rightarrow> http_exception" where
  "storage_error err = InternalServerErrorException (OtherError err)"

definition limit_error :: "nat \<Rightarrow> http_exception" where
  "limit_error limit =
     PayloadTooLargeException (''request body exceeds the configured limit of '' @ show_nat limit @ '' bytes'')"

definition normalized_mime_type :: "str \<Rightarrow> str option" where
  "normalized_mime_type v =
     (let value' = trim (hd (split_on (CHR '';'') v))
      in if value' = [] then None else Some (to_ascii_lowercase value'))"

definition validate_max_size :: "nat \<Rightarrow> uploaded_file \<Rightarrow> unit result" where
  "validate_max_size max_size f =
     (if uf_size f > max_size
      then Inl (PayloadTooLargeException
             (''uploaded file exceeds the declared limit of '' @ show_nat max_size @ '' bytes''))
      else Inr ())"

definition read_bytes :: "disk_io \<Rightarrow> disk \<Rightarrow> uploaded_file \<Rightarrow> str result" where
  "read_bytes io files f =
     (case (io (ReadFile (uf_temp_path f)), files (uf_temp_path f)) of
        (Some e, _) \<Rightarrow> Inl (storage_error e)
      | (None, None) \<Rightarrow> Inl (storage_error ''No such file or directory (os error 2)'')
      | (None, Some data) \<Rightarrow> Inr data)"

text \<open>The first read of a file returns at most \<open>MIME_SNIFF_BYTES\<close> of it.\<close>

definition MIME_SNIFF_BYTES :: nat where "MIME_SNIFF_BYTES = 8 * 1024"

definition detected_content_type :: "(str \<Rightarrow> str option) \<Rightarrow> disk_io \<Rightarrow> disk \<Rightarrow> uploaded_file \<Rightarrow> str result" where
  "detected_content_type infer io files f =
     bind_result (read_bytes io files f) (\<lambda>data.
       (case infer (take MIME_SNIFF_BYTES data) of
          None \<Rightarrow> Inl (BadRequestException ''could not determine uploaded file content type'')
        | Some kind \<Rightarrow>
            (case normalized_mime_type kind of
               None \<Rightarrow> Inl (BadRequestException ''could not determine uploaded file content type'')
             | Some mime \<Rightarrow> Inr mime)))"

definition validate_content_type ::
    "(str \<Rightarrow> str option) \<Rightarrow> disk_io \<Rightarrow> disk \<Rightarrow> str list \<Rightarrow> bool \<Rightarrow> uploaded_file \<Rightarrow> unit result" where
  "validate_content_type infer io files allowed trust_header f =
     bind_result
       (if trust_header then
          (case (case uf_content_type f of None \<Rightarrow> None | Some t \<Rightarrow> normalized_mime_type t) of
             None \<Rightarrow> Inl (BadRequestException ''uploaded file is missing a valid content type header'')
           | Some t \<Rightarrow> Inr t)
        else detected_content_type infer io files f)
       (\<lambda>actual.
          if list_ex (\<lambda>t. normalized_mime_type t = Some actual) allowed then Inr ()
          else Inl (BadRequestException (''uploaded file content type `'' @ actual @ ''` is not allowed'')))"

text \<open>Dropping the handle of an upload removes its file.\<close>

definition drop_upload :: "disk_io \<Rightarrow> uploaded_file \<Rightarrow> disk \<Rightarrow> disk" where
  "drop_upload io f files =
     (case io (RemoveFile (uf_temp_path f)) of None \<Rightarrow> files(uf_temp_path f := None) | Some _ \<Rightarrow> files)"

text \<open>
  Copying to a file that did not exist; an error on the way leaves the copy behind and drops the upload.
\<close>

definition persist_to :: "disk_io \<Rightarrow> str \<Rightarrow> uploaded_file \<Rightarrow> disk \<Rightarrow> str result \<times> disk" where
  "persist_to io destination f files =
     (let fail = (\<lambda>e files. (Inl (storage_error e), drop_upload io f files))
      in (case (io (OpenFile (uf_temp_path f)), files (uf_temp_path f)) of
            (Some e, _) \<Rightarrow> fail e files
          | (None, None) \<Rightarrow> fail ''No such file or directory (os error 2)'' files
          | (None, Some data) \<Rightarrow>
              (case (io (OpenNew destination), files destination) of
                 (Some e, _) \<Rightarrow> fail e files
               | (None, Some _) \<Rightarrow> fail ''File exists (os error 17)'' files
               | (None, None) \<Rightarrow>
                   (case io (WriteAt destination 0) of
                      Some e \<Rightarrow> fail e (files(destination \<mapsto> []))
                    | None \<Rightarrow>
                        (let files1 = files(destination \<mapsto> data)
                         in (case io (Flush destination) of
                               Some e \<Rightarrow> fail e files1
                             | None \<Rightarrow>
                                 (case io (RemoveFile (uf_temp_path f)) of
                                    Some e \<Rightarrow> fail e files1
                                  | None \<Rightarrow> (Inr destination, files1(uf_temp_path f := None)))))))))"

section \<open>Forms\<close>

record part =
  pt_name :: "str option"
  pt_file_name :: "str option"
  pt_content_type :: "str option"
  pt_headers :: "(str \<times> str) list"
  pt_chunks :: "str list"
  pt_fails :: bool

record multipart_form =
  mf_text :: "(str \<times> str list) list"
  mf_files :: "(str \<times> uploaded_file list) list"

definition MultipartForm_default :: multipart_form where
  "MultipartForm_default = \<lparr>mf_text = [], mf_files = []\<rparr>"

definition values_of :: "(str \<times> 'a list) list \<Rightarrow> str \<Rightarrow> 'a list" where
  "values_of m name = (case map_of m name of None \<Rightarrow> [] | Some xs \<Rightarrow> xs)"

definition push_to :: "str \<Rightarrow> 'a \<Rightarrow> (str \<times> 'a list) list \<Rightarrow> (str \<times> 'a list) list" where
  "push_to name x m = AList.update name (values_of m name @ [x]) m"

definition form_text :: "str \<Rightarrow> multipart_form \<Rightarrow> str list option" where
  "form_text name form = map_of (mf_text form) name"

definition form_files :: "str \<Rightarrow> multipart_form \<Rightarrow> uploaded_file list option" where
  "form_files name form = map_of (mf_files form) name"

text \<open>A single-file extractor takes the file out; several files of the name are dropped with an error.\<close>

definition take_file :: "disk_io \<Rightarrow> str \<Rightarrow> multipart_form \<Rightarrow> disk \<Rightarrow> uploaded_file option result \<times> multipart_form \<times> disk" where
  "take_file io name form files =
     (case map_of (mf_files form) name of
        None \<Rightarrow> (Inr None, form, files)
      | Some fs \<Rightarrow>
          (let form' = form\<lparr>mf_files := AList.delete name (mf_files form)\<rparr>
           in if length fs \<noteq> 1
              then (Inl (BadRequestException (''multipart field `'' @ name @ ''` must contain exactly one file'')),
                    form', fold (drop_upload io) fs files)
              else (Inr (Some (last fs)), form', files)))"

definition take_files :: "str \<Rightarrow> multipart_form \<Rightarrow> uploaded_file list \<times> multipart_form" where
  "take_files name form = (values_of (mf_files form) name, form\<lparr>mf_files := AList.delete name (mf_files form)\<rparr>)"

definition invalid_body :: http_exception where
  "invalid_body = BadRequestException ''invalid multipart request body''"

text \<open>Names of temporary files: the counter makes them distinct within a process.\<close>

definition temporary_path :: "(nat \<Rightarrow> str) \<Rightarrow> upload_config \<Rightarrow> nat \<Rightarrow> str" where
  "temporary_path tag config next_id = uc_temp_dir config @ ''/upload-'' @ tag next_id"

record upload_state =
  us_files :: disk
  us_next_id :: nat
  us_received :: nat

text \<open>The chunks of a file part are counted against the limit before they are written.\<close>

fun stage_chunks :: "disk_io \<Rightarrow> nat \<Rightarrow> str \<Rightarrow> str list \<Rightarrow> bool \<Rightarrow> nat \<Rightarrow> upload_state \<Rightarrow> nat result \<times> upload_state" where
  "stage_chunks io limit path [] fails n st = (if fails then Inl invalid_body else Inr n, st)"
| "stage_chunks io limit path (chunk # chunks) fails n st =
     (let received = saturating_add (us_received st) (length chunk); st1 = st\<lparr>us_received := received\<rparr>
      in if received > limit then (Inl (limit_error limit), st1)
         else
           (case io (WriteAt path n) of
              Some e \<Rightarrow> (Inl (storage_error e), st1)
            | None \<Rightarrow>
                stage_chunks io limit path chunks fails (n + length chunk)
                  (st1\<lparr>us_files := (us_files st)(path \<mapsto>
                     (case us_files st path of None \<Rightarrow> [] | Some data \<Rightarrow> data) @ chunk)\<rparr>)))"

definition stage_file ::
    "disk_io \<Rightarrow> (nat \<Rightarrow> str) \<Rightarrow> upload_config \<Rightarrow> nat \<Rightarrow> str \<Rightarrow> part \<Rightarrow> upload_state \<Rightarrow> uploaded_file result \<times> upload_state" where
  "stage_file io tag config limit name p st =
     (let path = temporary_path tag config (us_next_id st);
          st1 = st\<lparr>us_next_id := wrapping_add (us_next_id st) 1\<rparr>
      in (case (io (OpenNew path), us_files st path) of
            (Some e, _) \<Rightarrow> (Inl (storage_error e), st1)
          | (None, Some _) \<Rightarrow> (Inl (storage_error ''File exists (os error 17)''), st1)
          | (None, None) \<Rightarrow>
              (case stage_chunks io limit path (pt_chunks p) (pt_fails p) 0
                      (st1\<lparr>us_files := (us_files st)(path \<mapsto> [])\<rparr>) of
                 (Inl e, st2) \<Rightarrow> (Inl e, st2)
               | (Inr n, st2) \<Rightarrow>
                   (case io (Flush path) of
                      Some e \<Rightarrow> (Inl (storage_error e), st2)
                    | None \<Rightarrow>
                        (Inr \<lparr>uf_field_name = name, uf_file_name = pt_file_name p,
                              uf_content_type = pt_content_type p, uf_headers = pt_headers p, uf_size = n,
                              uf_temp_path = path\<rparr>, st2)))))"

definition text_value :: "nat \<Rightarrow> part \<Rightarrow> upload_state \<Rightarrow> str result \<times> upload_state" where
  "text_value limit p st =
     (if pt_fails p then (Inl invalid_body, st)
      else
        (let data = concat (pt_chunks p); received = saturating_add (us_received st) (length data);
             st1 = st\<lparr>us_received := received\<rparr>
         in if received > limit then (Inl (limit_error limit), st1)
            else if valid_utf8 data then (Inr data, st1)
            else (Inl (BadRequestException ''multipart text fields must be UTF-8''), st1)))"

fun parse_parts ::
    "disk_io \<Rightarrow> (nat \<Rightarrow> str) \<Rightarrow> upload_config \<Rightarrow> nat \<Rightarrow> part list \<Rightarrow> bool \<Rightarrow> multipart_form \<Rightarrow> upload_state \<Rightarrow>
     (http_exception + unit) \<times> multipart_form \<times> upload_state" where
  "parse_parts io tag config limit [] fails form st = (if fails then Inl invalid_body else Inr (), form, st)"
| "parse_parts io tag config limit (p # ps) fails form st =
     (case pt_name p of
        None \<Rightarrow> (Inl (BadRequestException ''multipart part is missing a field name''), form, st)
      | Some name \<Rightarrow>
          if pt_file_name p \<noteq> None then
            (case stage_file io tag config limit name p st of
               (Inl e, st1) \<Rightarrow> (Inl e, form, st1)
             | (Inr f, st1) \<Rightarrow>
                 parse_parts io tag config limit ps fails (form\<lparr>mf_files := push_to name f (mf_files form)\<rparr>) st1)
          else
            (case text_value limit p st of
               (Inl e, st1) \<Rightarrow> (Inl e, form, st1)
             | (Inr v, st1) \<Rightarrow>
                 parse_parts io tag config limit ps fails (form\<lparr>mf_text := push_to name v (mf_text form)\<rparr>) st1))"

text \<open>A form that is dropped drops its uploads.\<close>

definition all_uploads :: "multipart_form \<Rightarrow> uploaded_file list" where
  "all_uploads form = concat (map snd (mf_files form))"

definition drop_form :: "disk_io \<Rightarrow> multipart_form \<Rightarrow> disk \<Rightarrow> disk" where
  "drop_form io form files = fold (drop_upload io) (all_uploads form) files"

definition MultipartForm_parse ::
    "disk_io \<Rightarrow> (nat \<Rightarrow> str) \<Rightarrow> (str \<Rightarrow> str option) \<Rightarrow> (str \<Rightarrow> str \<Rightarrow> part list \<times> bool) \<Rightarrow> str \<Rightarrow> str \<Rightarrow>
     upload_config \<Rightarrow> nat \<Rightarrow> disk \<Rightarrow> nat \<Rightarrow> multipart_form result \<times> disk" where
  "MultipartForm_parse io tag parse_boundary multer content_type body config limit files next_id =
     (case parse_boundary content_type of
        None \<Rightarrow> (Inl (BadRequestException ''invalid multipart request boundary''), files)
      | Some boundary \<Rightarrow>
          if length body > limit then (Inl (limit_error limit), files)
          else
            (case io (CreateDir (uc_temp_dir config)) of
               Some e \<Rightarrow> (Inl (storage_error e), files)
             | None \<Rightarrow>
                 (case multer boundary body of
                    (parts, fails) \<Rightarrow>
                      (case parse_parts io tag config limit parts fails MultipartForm_default
                              \<lparr>us_files = files, us_next_id = next_id, us_received = 0\<rparr> of
                         (Inl e, form, st) \<Rightarrow> (Inl e, drop_form io form (us_files st))
                       | (Inr _, form, st) \<Rightarrow> (Inr form, us_files st)))))"

section \<open>Lemmas\<close>

lemma stage_chunks_files:
  "stage_chunks io limit path chunks fails n st = (r, st') \<Longrightarrow> us_files st path = Some data \<Longrightarrow>
   \<exists>data'. us_files st' = (us_files st)(path \<mapsto> data')"
proof (induction chunks arbitrary: n st data)
  case (Cons chunk chunks)
  show ?case
  proof (cases "saturating_add (us_received st) (length chunk) > limit \<or> io (WriteAt path n) \<noteq> None")
    case True
    with Cons.prems(1) have "us_files st' = us_files st" by (auto simp: Let_def split: if_splits option.splits)
    then have "us_files st' = (us_files st)(path \<mapsto> data)" using Cons.prems(2) by auto
    then show ?thesis by blast
  next
    case False
    let ?st = "st\<lparr>us_received := saturating_add (us_received st) (length chunk),
      us_files := (us_files st)(path \<mapsto> data @ chunk)\<rparr>"
    from False Cons.prems have "stage_chunks io limit path chunks fails (n + length chunk) ?st = (r, st')"
      by (auto simp: Let_def)
    moreover have "us_files ?st path = Some (data @ chunk)" by simp
    ultimately obtain data' where "us_files st' = (us_files ?st)(path \<mapsto> data')" using Cons.IH by blast
    then have "us_files st' = (us_files st)(path \<mapsto> data')" by (auto simp: fun_eq_iff)
    then show ?thesis by blast
  qed
next
  case Nil
  then have "us_files st' = (us_files st)(path \<mapsto> data)" by auto
  then show ?case by blast
qed

lemma stage_chunks_ok:
  "stage_chunks io limit path chunks fails n st = (Inr m, st') \<Longrightarrow> us_files st path = Some data \<Longrightarrow>
   limit < u64_max \<Longrightarrow> us_received st \<le> limit \<Longrightarrow>
   m = n + length (concat chunks) \<and> us_files st' = (us_files st)(path \<mapsto> data @ concat chunks) \<and>
   us_received st' = us_received st + length (concat chunks) \<and> us_received st' \<le> limit"
proof (induction chunks arbitrary: n st data)
  case (Cons chunk chunks)
  let ?st = "st\<lparr>us_received := saturating_add (us_received st) (length chunk),
    us_files := (us_files st)(path \<mapsto> data @ chunk)\<rparr>"
  from Cons.prems have step: "stage_chunks io limit path chunks fails (n + length chunk) ?st = (Inr m, st')"
      "saturating_add (us_received st) (length chunk) \<le> limit"
    by (auto simp: Let_def split: if_splits option.splits)
  then have received: "saturating_add (us_received st) (length chunk) = us_received st + length chunk"
    using Cons.prems(3) by (simp add: saturating_add_def)
  from Cons.IH [OF step(1)] Cons.prems(3) step(2) received show ?case by (auto simp: fun_eq_iff)
qed (auto split: if_splits)

lemma stage_file_files:
  assumes "stage_file io tag config limit name p st = (r, st')"
  shows "us_files st' = us_files st \<or> (\<exists>path data. us_files st path = None \<and> us_files st' = (us_files st)(path \<mapsto> data))"
proof -
  let ?path = "temporary_path tag config (us_next_id st)"
  let ?st = "st\<lparr>us_next_id := wrapping_add (us_next_id st) 1, us_files := (us_files st)(?path \<mapsto> [])\<rparr>"
  show ?thesis
  proof (cases "io (OpenNew ?path) = None \<and> us_files st ?path = None")
    case True
    obtain q st2 where chunks: "stage_chunks io limit ?path (pt_chunks p) (pt_fails p) 0 ?st = (q, st2)"
      by (cases "stage_chunks io limit ?path (pt_chunks p) (pt_fails p) 0 ?st")
    from stage_chunks_files [OF this, of "[]"] obtain data where "us_files st2 = (us_files st)(?path \<mapsto> data)"
      by (auto simp: fun_eq_iff)
    moreover have "st' = st2"
      using assms True chunks by (auto simp: stage_file_def Let_def split: sum.splits option.splits)
    ultimately show ?thesis using True by blast
  next
    case False
    with assms show ?thesis by (auto simp: stage_file_def Let_def split: option.splits)
  qed
qed

lemma stage_file_ok:
  assumes "stage_file io tag config limit name p st = (Inr f, st')" "limit < u64_max" "us_received st \<le> limit"
  shows "us_files st (uf_temp_path f) = None \<and>
    us_files st' = (us_files st)(uf_temp_path f \<mapsto> concat (pt_chunks p)) \<and>
    uf_size f = length (concat (pt_chunks p)) \<and>
    us_received st' = us_received st + length (concat (pt_chunks p)) \<and> us_received st' \<le> limit"
proof -
  let ?path = "temporary_path tag config (us_next_id st)"
  let ?st = "st\<lparr>us_next_id := wrapping_add (us_next_id st) 1, us_files := (us_files st)(?path \<mapsto> [])\<rparr>"
  have fresh: "us_files st ?path = None" and ok: "io (OpenNew ?path) = None"
    using assms(1) by (auto simp: stage_file_def Let_def split: option.splits)
  then obtain n where chunks: "stage_chunks io limit ?path (pt_chunks p) (pt_fails p) 0 ?st = (Inr n, st')"
      "uf_size f = n" "uf_temp_path f = ?path"
    using assms(1) by (auto simp: stage_file_def Let_def split: option.splits sum.splits prod.splits)
  from stage_chunks_ok [OF chunks(1), of "[]"] assms(2,3) fresh chunks(2,3) show ?thesis
    by (auto simp: fun_eq_iff)
qed

lemma text_value_ok:
  assumes "text_value limit p st = (Inr v, st')" "limit < u64_max"
  shows "v = concat (pt_chunks p) \<and> valid_utf8 v \<and> us_files st' = us_files st \<and>
    us_received st' = us_received st + length v \<and> us_received st' \<le> limit"
  using assms by (auto simp: text_value_def Let_def saturating_add_def split: if_splits)

lemma text_value_files: "text_value limit p st = (r, st') \<Longrightarrow> us_files st' = us_files st"
  by (auto simp: text_value_def Let_def split: if_splits)

lemma values_of_push: "values_of (push_to name x m) n = values_of m n @ (if n = name then [x] else [])"
  by (simp add: values_of_def push_to_def update_conv')

definition temp_paths :: "multipart_form \<Rightarrow> str set" where
  "temp_paths form = {uf_temp_path f | f n. f \<in> set (values_of (mf_files form) n)}"

lemma temp_paths_push:
  "temp_paths (form\<lparr>mf_files := push_to name f (mf_files form)\<rparr>) = insert (uf_temp_path f) (temp_paths form)"
  by (auto simp: temp_paths_def values_of_push split: if_splits)

lemma temp_paths_text [simp]: "temp_paths (form\<lparr>mf_text := m\<rparr>) = temp_paths form"
  by (simp add: temp_paths_def)

lemma all_uploads_paths:
  assumes "distinct (map fst (mf_files form))"
  shows "uf_temp_path ` set (all_uploads form) = temp_paths form"
proof -
  have "f \<in> set (all_uploads form) \<longleftrightarrow> (\<exists>name. f \<in> set (values_of (mf_files form) name))" for f
    using assms by (force simp: all_uploads_def values_of_def dest: map_of_SomeD split: option.splits)
  then show ?thesis by (auto simp: temp_paths_def)
qed

text \<open>The staged files are new and everything else on the disk is as before.\<close>

definition staged_inv :: "disk \<Rightarrow> multipart_form \<Rightarrow> disk \<Rightarrow> bool" where
  "staged_inv files0 form files \<longleftrightarrow>
     distinct (map fst (mf_files form)) \<and> temp_paths form \<inter> dom files0 = {} \<and> temp_paths form \<subseteq> dom files \<and>
     (\<forall>p. p \<notin> temp_paths form \<longrightarrow> files p = files0 p)"

lemma distinct_push: "distinct (map fst m) \<Longrightarrow> distinct (map fst (push_to name x m))"
  by (simp add: push_to_def distinct_update)

lemma staged_inv_push:
  assumes "staged_inv files0 form files" "files (uf_temp_path f) = None"
  shows "staged_inv files0 (form\<lparr>mf_files := push_to name f (mf_files form)\<rparr>) (files(uf_temp_path f \<mapsto> data))"
proof -
  have fresh: "uf_temp_path f \<notin> temp_paths form" using assms by (auto simp: staged_inv_def)
  with assms have "files0 (uf_temp_path f) = None" by (metis staged_inv_def)
  with assms fresh show ?thesis by (auto simp: staged_inv_def temp_paths_push intro: distinct_push)
qed

lemma parse_parts_inv:
  "parse_parts io tag config limit ps fails form st = (r, form', st') \<Longrightarrow> staged_inv files0 form (us_files st) \<Longrightarrow>
   limit < u64_max \<Longrightarrow> us_received st \<le> limit \<Longrightarrow>
   staged_inv files0 form' (us_files st') \<or>
   (\<not> is_ok r \<and> (\<exists>files path data. staged_inv files0 form' files \<and> files path = None \<and> us_files st' = files(path \<mapsto> data)))"
proof (induction ps arbitrary: form st)
  case Nil
  then show ?case by auto
next
  case (Cons p ps)
  show ?case
  proof (cases "pt_name p")
    case None
    with Cons.prems show ?thesis by auto
  next
    case (Some name)
    show ?thesis
    proof (cases "pt_file_name p")
      case None
      obtain q st1 where parsed: "text_value limit p st = (q, st1)" by (cases "text_value limit p st")
      show ?thesis
      proof (cases q)
        case (Inl e)
        with Cons.prems Some None parsed text_value_files [OF parsed] show ?thesis by auto
      next
        case (Inr v)
        let ?form = "form\<lparr>mf_text := push_to name v (mf_text form)\<rparr>"
        note ok = text_value_ok [OF parsed [unfolded Inr] Cons.prems(3)]
        have "parse_parts io tag config limit ps fails ?form st1 = (r, form', st')"
          using Cons.prems(1) Some None parsed Inr by simp
        moreover have "staged_inv files0 ?form (us_files st1)" using Cons.prems(2) ok by (simp add: staged_inv_def)
        ultimately show ?thesis using Cons.IH Cons.prems(3) ok by blast
      qed
    next
      case upload: (Some fname)
      obtain q st1 where stage: "stage_file io tag config limit name p st = (q, st1)"
        by (cases "stage_file io tag config limit name p st")
      show ?thesis
      proof (cases q)
        case (Inl e)
        then have "r = Inl e" "form' = form" "st' = st1" using Cons.prems(1) Some upload stage by auto
        with stage_file_files [OF stage] Cons.prems(2) show ?thesis by (metis is_ok_simps(2))
      next
        case (Inr f)
        note ok = stage_file_ok [OF stage [unfolded Inr] Cons.prems(3,4)]
        have "parse_parts io tag config limit ps fails (form\<lparr>mf_files := push_to name f (mf_files form)\<rparr>) st1 = (r, form', st')"
          using Cons.prems(1) Some upload stage Inr by simp
        moreover have "staged_inv files0 (form\<lparr>mf_files := push_to name f (mf_files form)\<rparr>) (us_files st1)"
          using staged_inv_push [OF Cons.prems(2)] ok by metis
        ultimately show ?thesis using Cons.IH Cons.prems(3) ok by blast
      qed
    qed
  qed
qed

lemma drop_uploads:
  "(\<forall>p. io (RemoveFile p) = None) \<Longrightarrow>
   fold (drop_upload io) fs files = (\<lambda>p. if p \<in> uf_temp_path ` set fs then None else files p)"
  by (induction fs arbitrary: files) (auto simp: drop_upload_def fun_eq_iff)

lemma drop_form_restores:
  assumes "staged_inv files0 form files" "\<forall>p. io (RemoveFile p) = None"
  shows "drop_form io form files = files0"
proof -
  have "distinct (map fst (mf_files form))" using assms(1) by (simp add: staged_inv_def)
  moreover have "files0 x = None" if "x \<in> temp_paths form" for x
    using assms(1) that unfolding staged_inv_def by (meson disjoint_iff domIff)
  ultimately show ?thesis using assms
    by (auto simp: drop_form_def drop_uploads all_uploads_paths staged_inv_def fun_eq_iff)
qed

lemma staged_inv_start: "staged_inv files MultipartForm_default files"
  by (simp add: staged_inv_def MultipartForm_default_def temp_paths_def values_of_def)

text \<open>The parts of a form by name.\<close>

definition text_parts :: "str \<Rightarrow> part list \<Rightarrow> str list" where
  "text_parts name ps = map (concat \<circ> pt_chunks) (filter (\<lambda>p. pt_name p = Some name \<and> pt_file_name p = None) ps)"

definition file_parts :: "str \<Rightarrow> part list \<Rightarrow> str list" where
  "file_parts name ps = map (concat \<circ> pt_chunks) (filter (\<lambda>p. pt_name p = Some name \<and> pt_file_name p \<noteq> None) ps)"

definition contents :: "disk \<Rightarrow> uploaded_file list \<Rightarrow> (str option \<times> nat) list" where
  "contents files fs = map (\<lambda>f. (files (uf_temp_path f), uf_size f)) fs"

lemma parse_parts_ok:
  "parse_parts io tag config limit ps fails form st = (Inr u, form', st') \<Longrightarrow> staged_inv files0 form (us_files st) \<Longrightarrow>
   limit < u64_max \<Longrightarrow> us_received st \<le> limit \<Longrightarrow>
   values_of (mf_text form') name = values_of (mf_text form) name @ text_parts name ps \<and>
   contents (us_files st') (values_of (mf_files form') name) =
     contents (us_files st) (values_of (mf_files form) name) @ map (\<lambda>d. (Some d, length d)) (file_parts name ps) \<and>
   us_received st + sum_list (map (length \<circ> concat \<circ> pt_chunks) ps) \<le> limit \<and> staged_inv files0 form' (us_files st')"
proof (induction ps arbitrary: form st)
  case Nil
  then show ?case by (auto simp: text_parts_def file_parts_def split: if_splits)
next
  case (Cons p ps)
  then obtain n where n: "pt_name p = Some n" by (auto split: option.splits)
  show ?case
  proof (cases "pt_file_name p")
    case None
    with Cons.prems(1) n obtain v st1 where parsed: "text_value limit p st = (Inr v, st1)"
      and rest: "parse_parts io tag config limit ps fails (form\<lparr>mf_text := push_to n v (mf_text form)\<rparr>) st1 = (Inr u, form', st')"
      by (auto split: sum.splits prod.splits)
    note ok = text_value_ok [OF parsed Cons.prems(3)]
    have "staged_inv files0 (form\<lparr>mf_text := push_to n v (mf_text form)\<rparr>) (us_files st1)"
      using Cons.prems(2) ok by (simp add: staged_inv_def)
    moreover from ok have received: "us_received st1 \<le> limit" by blast
    ultimately show ?thesis using Cons.IH [OF rest _ Cons.prems(3) received] ok n None
      by (cases "n = name") (simp_all add: values_of_push text_parts_def file_parts_def)
  next
    case (Some fname)
    with Cons.prems(1) n obtain f st1 where stage: "stage_file io tag config limit n p st = (Inr f, st1)"
      and rest: "parse_parts io tag config limit ps fails (form\<lparr>mf_files := push_to n f (mf_files form)\<rparr>) st1 = (Inr u, form', st')"
      by (auto split: sum.splits prod.splits)
    note ok = stage_file_ok [OF stage Cons.prems(3,4)]
    have inv: "staged_inv files0 (form\<lparr>mf_files := push_to n f (mf_files form)\<rparr>) (us_files st1)"
      using staged_inv_push [OF Cons.prems(2)] ok by metis
    have "uf_temp_path g \<noteq> uf_temp_path f" if "g \<in> set (values_of (mf_files form) name)" for g
    proof -
      have "uf_temp_path g \<in> temp_paths form" using that by (auto simp: temp_paths_def)
      then have "uf_temp_path g \<in> dom (us_files st)" using Cons.prems(2) by (auto simp: staged_inv_def)
      then show ?thesis using ok by auto
    qed
    then have old: "contents (us_files st1) (values_of (mf_files form) name) = contents (us_files st) (values_of (mf_files form) name)"
      using ok by (auto simp: contents_def)
    from Cons.IH [OF rest inv Cons.prems(3)] ok n Some old show ?thesis
      by (cases "n = name") (simp_all add: values_of_push text_parts_def file_parts_def contents_def)
  qed
qed

section \<open>Properties\<close>

text \<open>C24: a form that is parsed has, under every name, the texts and the files of the parts of that name in
  order; each file is on the disk with exactly the bytes received and their number as its size; and all
  parts together stay within the limit.\<close>

theorem parsed_form_is_staged:
  assumes "MultipartForm_parse io tag parse_boundary multer content_type body config limit files next_id = (Inr form, files')"
    and "parse_boundary content_type = Some boundary" "multer boundary body = (parts, fails)" "limit < u64_max"
  shows "values_of (mf_text form) name = text_parts name parts \<and>
    contents files' (values_of (mf_files form) name) = map (\<lambda>d. (Some d, length d)) (file_parts name parts) \<and>
    sum_list (map (length \<circ> concat \<circ> pt_chunks) parts) \<le> limit"
proof -
  let ?st = "\<lparr>us_files = files, us_next_id = next_id, us_received = 0\<rparr>"
  from assms(1-3) obtain u st where
    parse: "parse_parts io tag config limit parts fails MultipartForm_default ?st = (Inr u, form, st)"
    and "files' = us_files st"
    by (auto simp: MultipartForm_parse_def split: option.splits if_splits sum.splits prod.splits)
  with parse_parts_ok [OF parse, of files name] assms(4) staged_inv_start [of files] show ?thesis
    by (simp add: MultipartForm_default_def values_of_def contents_def)
qed

text \<open>When parsing fails, the disk is as before except for at most one new file, even though every
  file that can be removed is removed.\<close>

theorem failed_form_leaves_one_file:
  assumes "MultipartForm_parse io tag parse_boundary multer content_type body config limit files next_id = (Inl e, files')"
    and "\<forall>p. io (RemoveFile p) = None" "limit < u64_max"
  shows "files' = files \<or> (\<exists>path data. files path = None \<and> files' = files(path \<mapsto> data))"
proof (cases "files' = files")
  case False
  let ?st = "\<lparr>us_files = files, us_next_id = next_id, us_received = 0\<rparr>"
  from assms(1) False obtain parts fails form st where
    parse: "parse_parts io tag config limit parts fails MultipartForm_default ?st = (Inl e, form, st)"
    and files': "files' = drop_form io form (us_files st)"
    by (auto simp: MultipartForm_parse_def split: option.splits if_splits sum.splits prod.splits)
  from parse_parts_inv [OF parse, of files] staged_inv_start [of files] assms(3)
  consider "staged_inv files form (us_files st)"
    | before path data where "staged_inv files form before" "before path = None" "us_files st = before(path \<mapsto> data)"
    by auto
  then show ?thesis
  proof cases
    case 1
    with drop_form_restores [OF 1 assms(2)] files' show ?thesis by simp
  next
    case 2
    have distinct: "distinct (map fst (mf_files form))" using 2(1) by (simp add: staged_inv_def)
    have new: "path \<notin> temp_paths form" using 2 by (auto simp: staged_inv_def)
    with 2 have "files path = None" by (metis staged_inv_def)
    moreover have "drop_form io form (before(path \<mapsto> data)) = (drop_form io form before)(path \<mapsto> data)"
      using new distinct assms(2) by (auto simp: drop_form_def drop_uploads all_uploads_paths fun_eq_iff)
    ultimately show ?thesis using drop_form_restores [OF 2(1) assms(2)] 2(3) files' by auto
  qed
qed simp

text \<open>
  The file that stays: a part that breaks off leaves its temporary file behind, since the handle that would
  remove it is only made when the part is complete.
\<close>

lemma broken_part_leaks_file:
  "MultipartForm_parse (\<lambda>_. None) (\<lambda>_. ''id'') (\<lambda>_. Some ''b'')
     (\<lambda>_ _. ([\<lparr>pt_name = Some ''f'', pt_file_name = Some ''a.txt'', pt_content_type = None, pt_headers = [],
              pt_chunks = [''abc''], pt_fails = True\<rparr>], False))
     ''multipart/form-data'' ''body'' \<lparr>uc_temp_dir = ''/tmp''\<rparr> 100 (\<lambda>_. None) 0 =
   (Inl invalid_body, [''/tmp/upload-id'' \<mapsto> ''abc''])"
  by (simp add: MultipartForm_parse_def MultipartForm_default_def stage_file_def temporary_path_def saturating_add_def
      drop_form_def all_uploads_def Let_def)

section \<open>Witnesses\<close>

definition sample_part :: "str option \<Rightarrow> part" where
  "sample_part file_name = \<lparr>pt_name = Some ''f'', pt_file_name = file_name, pt_content_type = None, pt_headers = [],
     pt_chunks = [''ab'', ''c''], pt_fails = False\<rparr>"

definition sample_parse :: "bool \<Rightarrow> multipart_form result \<times> disk" where
  "sample_parse fails = MultipartForm_parse (\<lambda>_. None) (\<lambda>_. ''id'') (\<lambda>_. Some ''b'')
     (\<lambda>_ _. ([sample_part (Some ''a.txt''), sample_part None], fails))
     ''multipart/form-data'' ''body'' \<lparr>uc_temp_dir = ''/tmp''\<rparr> 100 (\<lambda>_. None) 0"

lemma parsed_form_is_staged_witness:
  "\<exists>form files'. sample_parse False = (Inr form, files') \<and> values_of (mf_text form) ''f'' = [''abc''] \<and>
     contents files' (values_of (mf_files form) ''f'') = [(Some ''abc'', 3)]"
proof -
  obtain form files' where parse: "sample_parse False = (Inr form, files')"
    by (simp add: sample_parse_def MultipartForm_parse_def stage_file_def temporary_path_def saturating_add_def
        sample_part_def text_value_def valid_utf8.simps(2) utf8_width_def Let_def)
  from parsed_form_is_staged [OF this [unfolded sample_parse_def] refl refl, of "''f''"] parse show ?thesis
    by (simp add: text_parts_def file_parts_def sample_part_def)
qed

lemma failed_form_witness:
  "\<exists>e files'. sample_parse True = (Inl e, files') \<and>
     (files' = (\<lambda>_. None) \<or> (\<exists>path data. files' = [path \<mapsto> data]))"
proof -
  obtain e files' where parse: "sample_parse True = (Inl e, files')"
    by (simp add: sample_parse_def MultipartForm_parse_def stage_file_def temporary_path_def saturating_add_def
        sample_part_def text_value_def valid_utf8.simps(2) utf8_width_def Let_def)
  from failed_form_leaves_one_file [OF this [unfolded sample_parse_def]] parse show ?thesis by auto
qed

end
