(* ===== verification/Requests.thy ===== *)
theory Requests
  imports Containers
begin

text \<open>
  What a handler sees of a request: the request context (\<open>crates/caelix-core/src/context.rs\<close>) and the buffered
  body of the two adapters (\<open>crates/caelix-actix/src/request_payload.rs\<close> and
  \<open>crates/caelix-axum/src/request_payload.rs\<close>). Decoding of cookies (the \<open>cookie\<close> crate), JSON parsing and axum's
  \<open>to_bytes\<close> are arguments. A hash map that is converted is given in its iteration order.
\<close>

section \<open>The request context\<close>

record request_context =
  rc_method :: str
  rc_path :: str
  rc_headers :: "str \<Rightarrow> str option"
  rc_peer_addr :: "str option"
  rc_extensions :: "type_id \<Rightarrow> nat option"

definition from_normalized_headers :: "str \<Rightarrow> str \<Rightarrow> (str \<Rightarrow> str option) \<Rightarrow> request_context" where
  "from_normalized_headers http_method path headers =
     \<lparr>rc_method = http_method, rc_path = path, rc_headers = headers, rc_peer_addr = None, rc_extensions = (\<lambda>_. None)\<rparr>"

definition normalize_headers :: "(str \<times> str) list \<Rightarrow> str \<Rightarrow> str option" where
  "normalize_headers headers = fold (\<lambda>(name, v) m. m(to_ascii_lowercase name \<mapsto> v)) headers (\<lambda>_. None)"

definition RequestContext_new :: "str \<Rightarrow> str \<Rightarrow> (str \<times> str) list \<Rightarrow> request_context" where
  "RequestContext_new http_method path headers = from_normalized_headers http_method path (normalize_headers headers)"

definition with_peer_addr :: "str \<Rightarrow> request_context \<Rightarrow> request_context" where
  "with_peer_addr peer ctx = ctx\<lparr>rc_peer_addr := Some peer\<rparr>"

definition is_ascii_uppercase :: "char \<Rightarrow> bool" where
  "is_ascii_uppercase c \<longleftrightarrow> 65 \<le> (of_char c :: nat) \<and> of_char c \<le> (90 :: nat)"

definition header :: "request_context \<Rightarrow> str \<Rightarrow> str option" where
  "header ctx name =
     (case rc_headers ctx name of
        Some v \<Rightarrow> Some v
      | None \<Rightarrow> if list_ex is_ascii_uppercase name then rc_headers ctx (to_ascii_lowercase name) else None)"

definition strip_prefix :: "str \<Rightarrow> str \<Rightarrow> str option" where
  "strip_prefix pre s = (if prefix pre s then Some (drop (length pre) s) else None)"

definition bearer_token :: "request_context \<Rightarrow> str option" where
  "bearer_token ctx = (case header ctx ''authorization'' of None \<Rightarrow> None | Some v \<Rightarrow> strip_prefix ''Bearer '' v)"

fun split_once :: "char \<Rightarrow> str \<Rightarrow> (str \<times> str) option" where
  "split_once c [] = None"
| "split_once c (x # xs) =
     (if x = c then Some ([], xs) else map_option (\<lambda>(a, b). (x # a, b)) (split_once c xs))"

text \<open>A name and a value as the cookie parser decodes them, or nothing for a pair that is skipped.\<close>

definition parse_cookie_pair :: "(str \<Rightarrow> str option) \<Rightarrow> (str \<Rightarrow> str option) \<Rightarrow> str \<Rightarrow> (str \<times> str) option" where
  "parse_cookie_pair decode_name decode_value pair =
     (case split_once (CHR ''='') (trim pair) of
        None \<Rightarrow> None
      | Some (name, v) \<Rightarrow>
          let name' = trim name
          in if name' = [] then None
             else
               (case decode_name name' of
                  None \<Rightarrow> None
                | Some n \<Rightarrow> (case decode_value (trim v) of None \<Rightarrow> None | Some v' \<Rightarrow> Some (n, v'))))"

fun insert_cookies :: "(str \<times> str) option list \<Rightarrow> (str \<Rightarrow> str option) \<Rightarrow> str \<Rightarrow> str option" where
  "insert_cookies [] m = m"
| "insert_cookies (None # ps) m = insert_cookies ps m"
| "insert_cookies (Some (n, v) # ps) m =
     insert_cookies ps (case m n of None \<Rightarrow> m(n \<mapsto> v) | Some _ \<Rightarrow> m)"

definition parse_cookies ::
    "(str \<Rightarrow> str option) \<Rightarrow> (str \<Rightarrow> str option) \<Rightarrow> str option \<Rightarrow> str \<Rightarrow> str option" where
  "parse_cookies decode_name decode_value header_value =
     insert_cookies
       (map (parse_cookie_pair decode_name decode_value)
          (case header_value of None \<Rightarrow> [] | Some v \<Rightarrow> split_on (CHR '';'') v)) (\<lambda>_. None)"

definition request_cookie ::
    "(str \<Rightarrow> str option) \<Rightarrow> (str \<Rightarrow> str option) \<Rightarrow> request_context \<Rightarrow> str \<Rightarrow> str option" where
  "request_cookie decode_name decode_value ctx name =
     parse_cookies decode_name decode_value (rc_headers ctx ''cookie'') name"

text \<open>Extensions are stored under their type.\<close>

definition set_extension :: "type_id \<Rightarrow> nat \<Rightarrow> request_context \<Rightarrow> unit result \<times> request_context" where
  "set_extension ty v ctx = (Inr (), ctx\<lparr>rc_extensions := (rc_extensions ctx)(ty \<mapsto> v)\<rparr>)"

definition get_extension :: "type_id \<Rightarrow> request_context \<Rightarrow> nat option result" where
  "get_extension ty ctx = Inr (rc_extensions ctx ty)"

section \<open>Bodies\<close>

definition upload_limit_error :: "nat \<Rightarrow> http_exception" where
  "upload_limit_error limit =
     PayloadTooLargeException (''request body exceeds the configured limit of '' @ show_nat limit @ '' bytes'')"

text \<open>The actix adapter reads the payload chunk by chunk; a chunk may be an error.\<close>

fun buffer_actix :: "nat \<Rightarrow> (str + str) list \<Rightarrow> str \<Rightarrow> str result" where
  "buffer_actix limit [] body = Inr body"
| "buffer_actix limit (Inl e # chunks) body = Inl (BadRequestException ''invalid request body'')"
| "buffer_actix limit (Inr chunk # chunks) body =
     (if saturating_add (length body) (length chunk) > limit then Inl (upload_limit_error limit)
      else buffer_actix limit chunks (body @ chunk))"

text \<open>The axum adapter has \<open>to_bytes\<close> do it and reports each of its errors as a body over the limit.\<close>

definition buffer_axum :: "((str + str) list \<Rightarrow> nat \<Rightarrow> 'e + str) \<Rightarrow> nat \<Rightarrow> (str + str) list \<Rightarrow> str result" where
  "buffer_axum to_bytes limit chunks = map_err (\<lambda>_. upload_limit_error limit) (to_bytes chunks limit)"

definition is_multipart :: "str option \<Rightarrow> bool" where
  "is_multipart content_type =
     (case content_type of None \<Rightarrow> False | Some v \<Rightarrow> prefix ''multipart/form-data'' (to_ascii_lowercase v))"

definition is_json_or_missing_content_type :: "str option \<Rightarrow> bool" where
  "is_json_or_missing_content_type content_type =
     (case content_type of
        None \<Rightarrow> True
      | Some v \<Rightarrow> to_ascii_lowercase (trim (hd (split_on (CHR '';'') v))) = ''application/json'')"

text \<open>\<open>find\<close> and the rest of the text after what was found.\<close>

fun after_first :: "str \<Rightarrow> str \<Rightarrow> str option" where
  "after_first sub [] = (if sub = [] then Some [] else None)"
| "after_first sub (c # s) =
     (if prefix sub (c # s) then Some (drop (length sub) (c # s)) else after_first sub s)"

definition missing_field :: "str \<Rightarrow> str option" where
  "missing_field message =
     (case after_first ''missing field `'' message of
        None \<Rightarrow> None
      | Some rest \<Rightarrow>
          let field = hd (split_on (CHR ''`'') rest)
          in if field = [] then None else Some field)"

definition json_error :: "str \<Rightarrow> http_exception" where
  "json_error message =
     (case missing_field message of
        Some field \<Rightarrow> with_errors (BadRequestException ''Validation failed'') [field \<mapsto> [''is required'']]
      | None \<Rightarrow> BadRequestException ''invalid JSON request body'')"

definition payload_json :: "(str \<Rightarrow> str + 'v) \<Rightarrow> str \<Rightarrow> 'v result" where
  "payload_json from_slice body = map_err json_error (from_slice body)"

section \<open>Lemmas\<close>

lemma ascii_lower_not_upper: "\<not> is_ascii_uppercase (ascii_lower c)"
  by (auto simp: ascii_lower_def is_ascii_uppercase_def)

lemma ascii_lower_idem: "\<not> is_ascii_uppercase c \<Longrightarrow> ascii_lower c = c"
  by (auto simp: ascii_lower_def is_ascii_uppercase_def)

lemma lowercase_idem [simp]: "to_ascii_lowercase (to_ascii_lowercase s) = to_ascii_lowercase s"
  by (simp add: to_ascii_lowercase_def ascii_lower_idem ascii_lower_not_upper)

lemma lowercase_no_upper: "\<not> list_ex is_ascii_uppercase s \<Longrightarrow> to_ascii_lowercase s = s"
  by (induction s) (auto simp: to_ascii_lowercase_def ascii_lower_idem)

lemma lowercase_not_upper: "\<not> list_ex is_ascii_uppercase (to_ascii_lowercase s)"
  by (induction s) (auto simp: to_ascii_lowercase_def ascii_lower_not_upper)

lemma normalize_headers_append:
  "normalize_headers (hs @ [(name, v)]) = (normalize_headers hs)(to_ascii_lowercase name \<mapsto> v)"
  by (simp add: normalize_headers_def)

lemma normalize_headers_upper: "normalize_headers hs name \<noteq> None \<Longrightarrow> to_ascii_lowercase name = name"
  by (induction hs rule: rev_induct)
    (auto simp: normalize_headers_append normalize_headers_def split: if_splits)

lemma normalize_headers_last:
  "normalize_headers hs name =
     map_option snd (find (\<lambda>(n, _). to_ascii_lowercase n = name) (rev hs))"
  by (induction hs rule: rev_induct) (auto simp: normalize_headers_append normalize_headers_def)

lemma header_new: "header (RequestContext_new http_method path hs) name = normalize_headers hs (to_ascii_lowercase name)"
proof (cases "list_ex is_ascii_uppercase name")
  case True
  then have "to_ascii_lowercase name \<noteq> name" using lowercase_not_upper [of name] by auto
  then have "normalize_headers hs name = None" using normalize_headers_upper by blast
  with True show ?thesis by (simp add: header_def RequestContext_new_def from_normalized_headers_def)
next
  case False
  then show ?thesis
    by (simp add: header_def RequestContext_new_def from_normalized_headers_def lowercase_no_upper split: option.split)
qed

lemma insert_cookies_first:
  "insert_cookies ps m n = (case m n of Some v \<Rightarrow> Some v | None \<Rightarrow> map_of (map the (filter (\<lambda>p. p \<noteq> None) ps)) n)"
  by (induction ps m rule: insert_cookies.induct) (auto split: option.splits)

section \<open>Properties\<close>

text \<open>A header is found under any spelling of its name in upper and lower case, and of several headers
  that differ only in case the last one taken over counts.\<close>

theorem header_ignores_case:
  "header (RequestContext_new http_method path hs) name =
     map_option snd (find (\<lambda>(n, _). to_ascii_lowercase n = to_ascii_lowercase name) (rev hs))"
  by (simp add: header_new normalize_headers_last)

text \<open>A cookie's value is that of the first pair in the cookie header that decodes to the name; pairs
  without a name or that do not decode count as absent.\<close>

theorem cookie_is_first_pair:
  "request_cookie decode_name decode_value ctx name =
     map_of (List.map_filter (parse_cookie_pair decode_name decode_value)
       (case rc_headers ctx ''cookie'' of None \<Rightarrow> [] | Some v \<Rightarrow> split_on (CHR '';'') v)) name"
  by (simp add: request_cookie_def parse_cookies_def insert_cookies_first map_filter_def filter_map comp_def)

text \<open>The actix adapter accepts a body exactly when no chunk fails and the chunks stay within the limit in
  total, and then hands on their concatenation.\<close>

theorem buffered_body_within_limit:
  assumes "limit < u64_max"
  shows "buffer_actix limit chunks [] = Inr body \<longleftrightarrow>
    (\<exists>parts. chunks = map Inr parts \<and> body = concat parts \<and> length body \<le> limit)"
proof -
  have "length start \<le> limit \<Longrightarrow> buffer_actix limit chunks start = Inr body \<longleftrightarrow>
      (\<exists>parts. chunks = map Inr parts \<and> body = start @ concat parts \<and> length body \<le> limit)" for start
  proof (induction chunks arbitrary: start)
    case Nil
    then show ?case by auto
  next
    case (Cons item chunks)
    show ?case
    proof (cases item)
      case (Inl e)
      then show ?thesis by (auto simp: Cons_eq_map_conv)
    next
      case (Inr chunk)
      show ?thesis
      proof (cases "length start + length chunk \<le> limit")
        case True
        with assms Inr have "buffer_actix limit (item # chunks) start = buffer_actix limit chunks (start @ chunk)"
          by (simp add: saturating_add_def)
        with Cons.IH [of "start @ chunk"] Inr True show ?thesis by (auto simp: Cons_eq_map_conv)
      next
        case False
        with Inr assms show ?thesis by (auto simp: saturating_add_def Cons_eq_map_conv)
      qed
    qed
  qed
  from this [of "[]"] show ?thesis by simp
qed

text \<open>A body that breaks off is a bad request with actix and too large with axum, whatever its size.\<close>

lemma broken_body_statuses:
  "buffer_actix limit [Inl e] [] = Inl (BadRequestException ''invalid request body'') \<and>
   buffer_axum (\<lambda>chunks limit. case chunks of Inl err # _ \<Rightarrow> Inl err | _ \<Rightarrow> Inr []) limit [Inl e] =
     Inl (upload_limit_error limit)"
  by (simp add: buffer_axum_def)

section \<open>Witness\<close>

lemma buffered_body_witness: "buffer_actix 4 [Inr ''ab'', Inr ''cd''] [] = Inr ''abcd''"
proof -
  have "\<exists>parts. [Inr ''ab'', Inr ''cd'' :: str + str] = map Inr parts \<and> ''abcd'' = concat parts \<and> length ''abcd'' \<le> (4 :: nat)"
    by (rule exI [of _ "[''ab'', ''cd'']"]) simp
  with buffered_body_within_limit [of 4 "[Inr ''ab'', Inr ''cd'']" "''abcd''"] show ?thesis by simp
qed

end
