(* ===== verification/Configuration.thy ===== *)
theory Configuration
  imports Exceptions
begin

text \<open>
  Typed configuration, \<open>crates/caelix-core/src/config.rs\<close>: the values of the fields from the environment file,
  the process environment and the defaults, and the errors, which never contain values. Reading and
  parsing of the file is \<open>dotenvy\<close>'s: the file is given by its entries, each of which may be unparsable.
\<close>

section \<open>Loading\<close>

record config_field =
  cf_field :: str
  cf_env :: str
  cf_default :: "str option"
  cf_optional :: bool

datatype env_file = FileNotFound str | FileFailed str | FileEntries "(str \<times> str) option list"

datatype env_var = NotPresent | NotUnicode | Present str

definition env_path :: "str option \<Rightarrow> str" where
  "env_path path = (case path of None \<Rightarrow> ''.env'' | Some p \<Rightarrow> p)"

text \<open>The entries of the file; of several for one name the last counts.\<close>

fun file_values :: "str \<Rightarrow> (str \<times> str) option list \<Rightarrow> (str \<Rightarrow> str option) \<Rightarrow> (str \<Rightarrow> str option) result" where
  "file_values path [] m = Inr m"
| "file_values path (None # entries) m = Inl (startup_error (''failed to parse environment file '' @ path))"
| "file_values path (Some (name, v) # entries) m = file_values path entries (m(name \<mapsto> v))"

definition read_env_file :: "str option \<Rightarrow> env_file \<Rightarrow> (str \<Rightarrow> str option) result" where
  "read_env_file path file =
     (case file of
        FileEntries entries \<Rightarrow> file_values (env_path path) entries (\<lambda>_. None)
      | FileNotFound e \<Rightarrow>
          if path = None then Inr (\<lambda>_. None)
          else Inl (startup_error (''failed to read environment file '' @ env_path path @ '': '' @ e))
      | FileFailed e \<Rightarrow> Inl (startup_error (''failed to read environment file '' @ env_path path @ '': '' @ e)))"

definition field_value :: "(str \<Rightarrow> env_var) \<Rightarrow> (str \<Rightarrow> str option) \<Rightarrow> config_field \<Rightarrow> str result" where
  "field_value env file_value f =
     (let names = cf_field f @ ''` (environment variable `'' @ cf_env f @ ''`)''
      in (case env (cf_env f) of
            NotUnicode \<Rightarrow> Inl (startup_error (''configuration field `'' @ names @ '' is not valid Unicode''))
          | Present v \<Rightarrow> Inr v
          | NotPresent \<Rightarrow>
              (case file_value (cf_env f) of
                 Some v \<Rightarrow> Inr v
               | None \<Rightarrow>
                   (case cf_default f of
                      Some v \<Rightarrow> Inr v
                    | None \<Rightarrow>
                        if cf_optional f then Inr []
                        else Inl (startup_error (''missing required configuration field `'' @ names))))))"

definition load_config_values ::
    "(str \<Rightarrow> env_var) \<Rightarrow> (str \<Rightarrow> env_file) \<Rightarrow> config_field list \<Rightarrow> str option \<Rightarrow> str list result" where
  "load_config_values env disk cfields path =
     bind_result (read_env_file path (disk (env_path path))) (\<lambda>file_value.
       try_map (field_value env file_value) cfields)"

definition config_conversion_error :: "str \<Rightarrow> str \<Rightarrow> http_exception" where
  "config_conversion_error field env =
     startup_error (''failed to convert configuration field `'' @ field @ ''` (environment variable `'' @ env @ ''`)'')"

definition deserialize_config_field :: "(str \<Rightarrow> 'e + 'v) \<Rightarrow> str \<Rightarrow> str \<Rightarrow> str \<Rightarrow> 'v result" where
  "deserialize_config_field from_str field env v = map_err (\<lambda>_. config_conversion_error field env) (from_str v)"

text \<open>The fields of the validator with the codes of their errors, in the validator's order.\<close>

definition config_validation_error :: "(str \<times> str list) list \<Rightarrow> http_exception" where
  "config_validation_error field_errors =
     startup_error (''configuration validation failed for '' @
       join ''; '' (sort (map (\<lambda>(field, codes). ''`'' @ field @ ''` ('' @ join '', '' codes @ '')'') field_errors)))"

section \<open>Lemmas\<close>

lemma file_values_last:
  "file_values path entries m = Inr m' \<Longrightarrow>
   m' name = (case map_of (rev (map the entries)) name of Some v \<Rightarrow> Some v | None \<Rightarrow> m name)"
  by (induction path entries m rule: file_values.induct)
    (auto simp: map_of_append map_add_def split: option.splits if_splits)

lemma file_values_parsed: "file_values path entries m = Inr m' \<Longrightarrow> None \<notin> set entries"
  by (induction path entries m rule: file_values.induct) auto

text \<open>Results that are the same up to the value of a success.\<close>

definition same_error :: "'a result \<Rightarrow> 'b result \<Rightarrow> bool" where
  "same_error r r' \<longleftrightarrow> map_err id (bind_result r (\<lambda>_. Inr ())) = map_err id (bind_result r' (\<lambda>_. Inr ()))"

lemma same_error_iff [simp]:
  "same_error (Inl e) (Inl e') \<longleftrightarrow> e = e'" "same_error (Inr x) (Inr y)"
  "\<not> same_error (Inl e) (Inr y)" "\<not> same_error (Inr x) (Inl e')"
  by (simp_all add: same_error_def)

lemma same_error_try_map:
  "(\<And>x. same_error (f x) (g x)) \<Longrightarrow> same_error (try_map f xs) (try_map g xs)"
proof (induction xs)
  case (Cons x xs)
  have "same_error (f x) (g x)" by (rule Cons.prems)
  moreover have "same_error (try_map f xs) (try_map g xs)" by (rule Cons.IH [OF Cons.prems])
  ultimately show ?case by (cases "f x"; cases "g x"; cases "try_map f xs"; cases "try_map g xs") simp_all
qed simp

lemma file_values_shape:
  "map (map_option fst) entries = map (map_option fst) entries' \<Longrightarrow> dom m = dom m' \<Longrightarrow>
   same_error (file_values path entries m) (file_values path entries' m') \<and>
   (\<forall>k k'. file_values path entries m = Inr k \<longrightarrow> file_values path entries' m' = Inr k' \<longrightarrow> dom k = dom k')"
proof (induction path entries m arbitrary: entries' m' rule: file_values.induct)
  case (1 path m)
  then show ?case by simp
next
  case (2 path entries m)
  then obtain rest where "entries' = None # rest" by (cases entries') auto
  then show ?case by simp
next
  case (3 path name v entries m)
  from "3.prems"(1) obtain entry rest where "entries' = entry # rest" "Some name = map_option fst entry"
    by (cases entries') auto
  then obtain v' where entries': "entries' = Some (name, v') # rest" by (cases entry) auto
  have "map (map_option fst) entries = map (map_option fst) rest" using "3.prems"(1) entries' by simp
  moreover have "dom (m(name \<mapsto> v)) = dom (m'(name \<mapsto> v'))" using "3.prems"(2) by simp
  ultimately show ?case unfolding entries' file_values.simps by (rule "3.IH")
qed

definition same_shape :: "(str \<Rightarrow> env_var) \<Rightarrow> (str \<Rightarrow> env_var) \<Rightarrow> bool" where
  "same_shape env env' \<longleftrightarrow>
     (\<forall>n. (env n = NotPresent \<longleftrightarrow> env' n = NotPresent) \<and> (env n = NotUnicode \<longleftrightarrow> env' n = NotUnicode))"

lemma field_value_shape:
  assumes "same_shape env env'" "dom m = dom m'"
  shows "same_error (field_value env m f) (field_value env' m' f)"
proof -
  have "m (cf_env f) = None \<longleftrightarrow> m' (cf_env f) = None" using assms(2) by (metis domIff)
  moreover have "env (cf_env f) = NotPresent \<longleftrightarrow> env' (cf_env f) = NotPresent"
    "env (cf_env f) = NotUnicode \<longleftrightarrow> env' (cf_env f) = NotUnicode"
    using assms(1) by (simp_all add: same_shape_def)
  ultimately show ?thesis
    by (cases "env (cf_env f)"; cases "env' (cf_env f)"; cases "m (cf_env f)"; cases "m' (cf_env f)")
      (simp_all add: field_value_def Let_def split: option.split)
qed

section \<open>Properties\<close>

lemma field_value_Inr:
  "field_value env m f = Inr v \<Longrightarrow>
   Some v =
     (case env (cf_env f) of Present w \<Rightarrow> Some w | _ \<Rightarrow>
       (case m (cf_env f) of Some w \<Rightarrow> Some w | None \<Rightarrow>
          (case cf_default f of Some w \<Rightarrow> Some w | None \<Rightarrow> if cf_optional f then Some [] else None)))"
  unfolding field_value_def Let_def
  by (cases "env (cf_env f)"; cases "m (cf_env f)"; cases "cf_default f") (auto split: if_splits)

text \<open>A loaded configuration has one value per field, in order: that of the process environment, else the
  last one of the environment file, else the default, else the empty text of an optional field.\<close>

theorem config_values_by_precedence:
  assumes "load_config_values env disk cfields path = Inr vs" "disk (env_path path) = FileEntries entries"
  shows "length vs = length cfields \<and> None \<notin> set entries \<and>
    (\<forall>i<length cfields. let f = cfields ! i in
       Some (vs ! i) =
         (case env (cf_env f) of Present v \<Rightarrow> Some v | _ \<Rightarrow>
           (case map_of (rev (map the entries)) (cf_env f) of Some v \<Rightarrow> Some v | None \<Rightarrow>
              (case cf_default f of Some v \<Rightarrow> Some v | None \<Rightarrow> if cf_optional f then Some [] else None))))"
proof -
  from assms obtain m where m: "file_values (env_path path) entries (\<lambda>_. None) = Inr m"
    and loaded: "try_map (field_value env m) cfields = Inr vs"
    by (auto simp: load_config_values_def read_env_file_def bind_result_Inr)
  have "None \<notin> set entries" by (rule file_values_parsed [OF m])
  moreover have "length vs = length cfields"
    and each: "\<And>i. i < length cfields \<Longrightarrow> field_value env m (cfields ! i) = Inr (vs ! i)"
    using try_map_Inr [OF loaded] by auto
  moreover have "m = map_of (rev (map the entries))"
    using file_values_last [OF m] by (auto simp: fun_eq_iff split: option.splits)
  ultimately show ?thesis
    using field_value_Inr [OF each] unfolding Let_def by blast
qed

text \<open>The errors of loading do not depend on the values in the environment and the file: with other values
  under the same names loading fails with the same error.\<close>

theorem config_errors_reveal_no_values:
  assumes "same_shape env env'" "map (map_option fst) entries = map (map_option fst) entries'"
  shows "same_error (load_config_values env (\<lambda>_. FileEntries entries) cfields path)
    (load_config_values env' (\<lambda>_. FileEntries entries') cfields path)"
proof -
  let ?r = "file_values (env_path path) entries (\<lambda>_. None)"
  let ?r' = "file_values (env_path path) entries' (\<lambda>_. None)"
  note shape = file_values_shape [OF assms(2) refl, of "env_path path" "\<lambda>_. None"]
  show ?thesis
  proof (cases ?r)
    case (Inl e)
    with shape have "?r' = Inl e" by (cases ?r') auto
    with Inl show ?thesis by (simp add: load_config_values_def read_env_file_def)
  next
    case (Inr m)
    with shape obtain m' where "?r' = Inr m'" "dom m = dom m'" by (cases ?r') auto
    with Inr show ?thesis
      by (simp add: load_config_values_def read_env_file_def same_error_try_map field_value_shape [OF assms(1)])
  qed
qed

section \<open>Witnesses\<close>

definition sample_fields :: "config_field list" where
  "sample_fields =
     [\<lparr>cf_field = ''port'', cf_env = ''PORT'', cf_default = Some ''80'', cf_optional = False\<rparr>,
      \<lparr>cf_field = ''key'', cf_env = ''KEY'', cf_default = None, cf_optional = False\<rparr>]"

lemma config_values_witness:
  "load_config_values (\<lambda>_. NotPresent) (\<lambda>_. FileEntries [Some (''KEY'', ''a''), Some (''KEY'', ''b'')]) sample_fields None =
     Inr [''80'', ''b''] \<and> length [''80'', ''b''] = length sample_fields"
proof -
  have load: "load_config_values (\<lambda>_. NotPresent) (\<lambda>_. FileEntries [Some (''KEY'', ''a''), Some (''KEY'', ''b'')])
      sample_fields None = Inr [''80'', ''b'']"
    by (simp add: load_config_values_def read_env_file_def sample_fields_def field_value_def)
  from config_values_by_precedence [OF this refl] load show ?thesis by blast
qed

lemma config_errors_witness:
  "same_error (load_config_values (\<lambda>_. NotPresent) (\<lambda>_. FileEntries [Some (''PORT'', ''1'')]) sample_fields None)
     (load_config_values (\<lambda>_. NotPresent) (\<lambda>_. FileEntries [Some (''PORT'', ''secret'')]) sample_fields None)"
  by (rule config_errors_reveal_no_values) (simp_all add: same_shape_def)

end
