(* ===== verification/Effects.thy ===== *)
theory Effects
  imports Prelude
begin

text \<open>
  Operations on an explicit state that may fail: sequencing as the question mark operator does it, and
  relations between the states before and after an operation that hold whatever its outcome, with the
  interface that lets them be proved operation by operation.
\<close>

section \<open>Sequences of fallible operations\<close>

definition do_then :: "('s \<Rightarrow> ('e + 'a) \<times> 's) \<Rightarrow> ('a \<Rightarrow> 's \<Rightarrow> ('e + 'b) \<times> 's) \<Rightarrow> 's \<Rightarrow> ('e + 'b) \<times> 's" where
  "do_then m f s = (case m s of (Inl e, s') \<Rightarrow> (Inl e, s') | (Inr x, s') \<Rightarrow> f x s')"

definition yield :: "'a \<Rightarrow> 's \<Rightarrow> ('e + 'a) \<times> 's" where
  "yield x s = (Inr x, s)"

definition lift_result :: "('e + 'a) \<Rightarrow> 's \<Rightarrow> ('e + 'a) \<times> 's" where
  "lift_result r s = (r, s)"

lemma do_then_Inr [result_facts]:
  "do_then m f s = (Inr y, t) \<longleftrightarrow> (\<exists>x u. m s = (Inr x, u) \<and> f x u = (Inr y, t))"
  by (auto simp: do_then_def split: sum.splits prod.splits)

lemma yield_Inr [result_facts]: "yield x s = (Inr y, t) \<longleftrightarrow> y = x \<and> t = s"
  by (auto simp: yield_def)

lemma lift_result_Inr [result_facts]: "lift_result r s = (Inr y, t) \<longleftrightarrow> r = Inr y \<and> t = s"
  by (auto simp: lift_result_def)

text \<open>
  A relation between the states before and after an operation, kept whatever the outcome. Such
  relations compose along a sequence of operations.
\<close>

definition framed :: "('s \<Rightarrow> 's \<Rightarrow> bool) \<Rightarrow> ('s \<Rightarrow> ('e + 'a) \<times> 's) \<Rightarrow> bool" where
  "framed R m \<longleftrightarrow> (\<forall>s. R s (snd (m s)))"

locale frame =
  fixes R :: "'s \<Rightarrow> 's \<Rightarrow> bool"
  assumes unchanged: "R s s"
    and continued: "R s t \<Longrightarrow> R t u \<Longrightarrow> R s u"
begin

lemma yield: "framed R (yield x)"
  by (simp add: framed_def yield_def unchanged)

lemma lift: "framed R (lift_result r)"
  by (simp add: framed_def lift_result_def unchanged)

lemma sequence:
  assumes "framed R m" and "\<And>x. framed R (f x)"
  shows "framed R (do_then m f)"
  unfolding framed_def
proof
  fix s
  obtain r s' where m: "m s = (r, s')" by (cases "m s")
  from assms(1) m have 1: "R s s'" by (metis framed_def snd_conv)
  show "R s (snd (do_then m f s))"
  proof (cases r)
    case (Inl e)
    with m 1 show ?thesis by (simp add: do_then_def)
  next
    case (Inr x)
    from assms(2) [of x] have "R s' (snd (f x s'))" by (simp add: framed_def)
    with m 1 Inr show ?thesis by (simp add: do_then_def continued)
  qed
qed

lemma branch: "framed R m \<Longrightarrow> framed R n \<Longrightarrow> framed R (if b then m else n)"
  by simp

end


end
