(* ===== verification/FileSystem.thy ===== *)
theory FileSystem
  imports Effects
begin

text \<open>
  The part of \<open>std::fs\<close> and \<open>std::path\<close> the command line uses: a tree of files and directories
  whose operations may be refused or break off half way, and paths as lists of components. Symbolic links are not modelled.
\<close>

section \<open>Paths\<close>

type_synonym path = "str list"

text \<open>\<open>Path::display\<close> of an absolute path, and \<open>Path::join\<close>: an absolute argument replaces the
  path, and the operating system resolves \<open>.\<close> and \<open>..\<close>.\<close>

definition display :: "path \<Rightarrow> str" where
  "display p = CHR ''/'' # join ''/'' p"

definition path_step :: "path \<Rightarrow> str \<Rightarrow> path" where
  "path_step p c = (if c = [] \<or> c = ''.'' then p else if c = ''..'' then butlast p else p @ [c])"

definition path_join :: "path \<Rightarrow> str \<Rightarrow> path" where
  "path_join p s =
     foldl path_step (case s of [] \<Rightarrow> p | c # _ \<Rightarrow> if c = CHR ''/'' then [] else p)
       (split_on CHR ''/'' s)"

definition plain_component :: "str \<Rightarrow> bool" where
  "plain_component s \<longleftrightarrow> s \<noteq> [] \<and> s \<noteq> ''.'' \<and> s \<noteq> ''..'' \<and> CHR ''/'' \<notin> set s"

lemma path_join_plain [simp]: "plain_component s \<Longrightarrow> path_join p s = p @ [s]"
  by (cases s) (auto simp: path_join_def plain_component_def path_step_def split_on_no_sep_id)

lemma plain_componentI:
  assumes "s \<noteq> []" and "CHR ''/'' \<notin> set s" and "CHR ''.'' \<notin> set s"
  shows "plain_component s"
  using assms by (auto simp: plain_component_def)

section \<open>Files and directories\<close>

datatype node = Directory | FileData str

type_synonym tree = "path \<Rightarrow> node option"

text \<open>What the operating system may do to a call: refuse it, or let it fail after some progress
  (directories made, bytes written).\<close>

datatype fault = Refused str | Broke nat str

datatype fs_call = MakeDirsAt path | WriteTo path | ReadFrom path

type_synonym fs_io = "fs_call \<Rightarrow> fault option"

definition exists_at :: "tree \<Rightarrow> path \<Rightarrow> bool" where
  "exists_at d p \<longleftrightarrow> d p \<noteq> None"

definition is_file_at :: "tree \<Rightarrow> path \<Rightarrow> bool" where
  "is_file_at d p = (case d p of Some (FileData _) \<Rightarrow> True | _ \<Rightarrow> False)"

definition add_dirs :: "path list \<Rightarrow> tree \<Rightarrow> tree" where
  "add_dirs ps d = (\<lambda>q. if q \<in> set ps \<and> d q = None then Some Directory else d q)"

definition create_dir_all :: "fs_io \<Rightarrow> path \<Rightarrow> tree \<Rightarrow> (str + unit) \<times> tree" where
  "create_dir_all io p d =
     (if list_ex (is_file_at d) (prefixes p) then (Inl ''Not a directory (os error 20)'', d)
      else (case io (MakeDirsAt p) of
         Some (Refused e) \<Rightarrow> (Inl e, d)
       | Some (Broke n e) \<Rightarrow> (Inl e, add_dirs (take n (prefixes p)) d)
       | None \<Rightarrow> (Inr (), add_dirs (prefixes p) d)))"

definition fs_write :: "fs_io \<Rightarrow> path \<Rightarrow> str \<Rightarrow> tree \<Rightarrow> (str + unit) \<times> tree" where
  "fs_write io p contents d =
     (if d p = Some Directory then (Inl ''Is a directory (os error 21)'', d)
      else if d (butlast p) \<noteq> Some Directory then (Inl ''No such file or directory (os error 2)'', d)
      else (case io (WriteTo p) of
         Some (Refused e) \<Rightarrow> (Inl e, d)
       | Some (Broke n e) \<Rightarrow> (Inl e, d(p \<mapsto> FileData (take n contents)))
       | None \<Rightarrow> (Inr (), d(p \<mapsto> FileData contents))))"

definition read_to_string :: "fs_io \<Rightarrow> path \<Rightarrow> tree \<Rightarrow> str + str" where
  "read_to_string io p d =
     (case io (ReadFrom p) of
        Some (Refused e) \<Rightarrow> Inl e
      | Some (Broke n e) \<Rightarrow> Inl e
      | None \<Rightarrow>
          (case d p of
             None \<Rightarrow> Inl ''No such file or directory (os error 2)''
           | Some Directory \<Rightarrow> Inl ''Is a directory (os error 21)''
           | Some (FileData data) \<Rightarrow> Inr data))"

section \<open>What operations keep of the tree\<close>

text \<open>Existing files keep their contents.\<close>

definition keeps_files :: "tree \<Rightarrow> tree \<Rightarrow> bool" where
  "keeps_files d d' \<longleftrightarrow> (\<forall>p. d p \<noteq> None \<longrightarrow> d' p = d p)"

text \<open>Nothing changes outside a directory, its ancestors apart (which may be created).\<close>

definition within :: "path \<Rightarrow> tree \<Rightarrow> tree \<Rightarrow> bool" where
  "within base d d' \<longleftrightarrow>
     (\<forall>p. \<not> prefix base p \<longrightarrow> d' p = d p \<or> (prefix p base \<and> d p = None \<and> d' p = Some Directory))"

interpretation keep: frame keeps_files
  by unfold_locales (auto simp: keeps_files_def)

interpretation inside: frame "within base" for base
proof
  fix s t u :: tree
  assume 1: "within base s t" and 2: "within base t u"
  show "within base s u"
    unfolding within_def
  proof (intro allI impI)
    fix p
    assume p: "\<not> prefix base p"
    with 1 have a: "t p = s p \<or> (prefix p base \<and> s p = None \<and> t p = Some Directory)"
      by (simp add: within_def)
    from 2 p have b: "u p = t p \<or> (prefix p base \<and> t p = None \<and> u p = Some Directory)"
      by (simp add: within_def)
    from a b show "u p = s p \<or> (prefix p base \<and> s p = None \<and> u p = Some Directory)" by auto
  qed
qed (simp add: within_def)

text \<open>Well-formed trees: whatever exists lies in a directory.\<close>

definition tree_ok :: "tree \<Rightarrow> bool" where
  "tree_ok d \<longleftrightarrow> d [] = Some Directory \<and> (\<forall>p c. d (p @ [c]) \<noteq> None \<longrightarrow> d p = Some Directory)"

definition keeps_tree_ok :: "tree \<Rightarrow> tree \<Rightarrow> bool" where
  "keeps_tree_ok d d' \<longleftrightarrow> (tree_ok d \<longrightarrow> tree_ok d')"

interpretation sound: frame keeps_tree_ok
  by unfold_locales (auto simp: keeps_tree_ok_def)

section \<open>Laws of the operations\<close>

lemma prefix_snoc_in_take_prefixes:
  "p @ [c] \<in> set (take n (prefixes q)) \<Longrightarrow> p \<in> set (take n (prefixes q))"
proof (induction q arbitrary: p n)
  case Nil
  then show ?case by (cases n) auto
next
  case (Cons a q)
  show ?case
  proof (cases n)
    case (Suc m)
    show ?thesis
    proof (cases p)
      case (Cons b p')
      with Cons.prems Suc have "b = a" "p' @ [c] \<in> set (take m (prefixes q))"
        by (auto simp: take_map)
      with Cons.IH [of p' m] Cons Suc show ?thesis by (auto simp: take_map)
    qed (use Suc in simp)
  qed (use Cons.prems in simp)
qed

lemma create_dir_all_keeps: "keeps_files d (snd (create_dir_all io p d))"
  by (auto simp: create_dir_all_def keeps_files_def add_dirs_def split: option.splits fault.splits)

lemma in_take_prefixes: "q \<in> set (take n (prefixes p)) \<Longrightarrow> prefix q p"
  by (meson in_set_prefixes in_set_takeD)

lemma create_dir_all_within: "within p d (snd (create_dir_all io p d))"
  by (auto simp: create_dir_all_def within_def add_dirs_def dest: in_take_prefixes
      split: option.splits fault.splits)

lemma within_sub: "within (base @ q) d d' \<Longrightarrow> within base d d'"
  unfolding within_def by (metis prefix_order.dual_order.trans prefixI prefix_same_cases)

lemma add_dirs_ok:
  assumes ok: "tree_ok d" and no: "\<not> list_ex (is_file_at d) (prefixes p)"
  shows "tree_ok (add_dirs (take n (prefixes p)) d)"
  unfolding tree_ok_def
proof (intro conjI allI impI)
  from ok show "add_dirs (take n (prefixes p)) d [] = Some Directory"
    by (simp add: add_dirs_def tree_ok_def)
next
  fix q c
  assume "add_dirs (take n (prefixes p)) d (q @ [c]) \<noteq> None"
  then consider "d (q @ [c]) \<noteq> None" | "q @ [c] \<in> set (take n (prefixes p))"
    by (auto simp: add_dirs_def split: if_splits)
  then show "add_dirs (take n (prefixes p)) d q = Some Directory"
  proof cases
    case 1
    with ok show ?thesis by (auto simp: tree_ok_def add_dirs_def)
  next
    case 2
    then have q: "q \<in> set (take n (prefixes p))" by (rule prefix_snoc_in_take_prefixes)
    with no have "\<not> is_file_at d q" by (auto simp: list_ex_iff dest: in_take_prefixes)
    with q show ?thesis
      by (auto simp: add_dirs_def is_file_at_def split: option.splits node.splits)
  qed
qed

lemma create_dir_all_ok: "keeps_tree_ok d (snd (create_dir_all io p d))"
proof -
  have "tree_ok (add_dirs (prefixes p) d)" if "tree_ok d" "\<not> list_ex (is_file_at d) (prefixes p)"
    using add_dirs_ok [OF that, of "length (prefixes p)"] by simp
  then show ?thesis
    by (auto simp: create_dir_all_def keeps_tree_ok_def add_dirs_ok split: option.splits fault.splits)
qed

lemma fs_write_keeps: "d p = None \<Longrightarrow> keeps_files d (snd (fs_write io p s d))"
  by (auto simp: fs_write_def keeps_files_def split: option.splits fault.splits)

lemma fs_write_within: "prefix base p \<Longrightarrow> within base d (snd (fs_write io p s d))"
  by (auto simp: fs_write_def within_def split: option.splits fault.splits)

lemma tree_ok_write:
  assumes "tree_ok d" and "d (butlast p) = Some Directory" and "d p \<noteq> Some Directory"
  shows "tree_ok (d(p \<mapsto> FileData s))"
proof -
  from assms have p: "p \<noteq> []" by (auto simp: tree_ok_def)
  from assms have child: "d (p @ [c]) = None" for c
    unfolding tree_ok_def by blast
  show ?thesis
    unfolding tree_ok_def
  proof (intro conjI allI impI)
    from p assms show "(d(p \<mapsto> FileData s)) [] = Some Directory" by (simp add: tree_ok_def)
  next
    fix q c
    assume "(d(p \<mapsto> FileData s)) (q @ [c]) \<noteq> None"
    with assms child have "d q = Some Directory" by (auto simp: tree_ok_def split: if_splits)
    with assms show "(d(p \<mapsto> FileData s)) q = Some Directory" by auto
  qed
qed

lemma fs_write_ok: "keeps_tree_ok d (snd (fs_write io p s d))"
  by (auto simp: fs_write_def keeps_tree_ok_def tree_ok_write split: option.splits fault.splits)

lemma create_dir_all_Inr:
  "create_dir_all io p d = (Inr (), d') \<Longrightarrow> d' = add_dirs (prefixes p) d \<and> d' p = Some Directory"
proof -
  assume made: "create_dir_all io p d = (Inr (), d')"
  then have no: "\<not> list_ex (is_file_at d) (prefixes p)" and d': "d' = add_dirs (prefixes p) d"
    by (auto simp: create_dir_all_def split: option.splits fault.splits if_splits)
  from no have "\<not> is_file_at d p" by (simp add: list_ex_iff)
  then have "d p = None \<or> d p = Some Directory"
    by (simp add: is_file_at_def split: option.splits node.splits)
  with d' show ?thesis by (auto simp: add_dirs_def)
qed

lemma fs_write_Inr:
  "fs_write io p s d = (Inr (), d') \<longleftrightarrow>
     io (WriteTo p) = None \<and> d p \<noteq> Some Directory \<and> d (butlast p) = Some Directory \<and>
     d' = d(p \<mapsto> FileData s)"
  by (auto simp: fs_write_def split: option.splits fault.splits)

end
