(* ===== verification/CommandLine.thy ===== *)
theory CommandLine
  imports FileSystem
begin

text \<open>
  The vocabulary of the command line (\<open>caelix-cli/src/lib.rs\<close>): errors with their messages, feature
  names, project names and package names. The case conversions of the \<open>heck\<close> crate are a parameter.
\<close>

section \<open>Errors\<close>

datatype cli_error =
    IoError str str
  | MissingCargoManifest path
  | AlreadyExists path
  | InvalidName str
  | TomlParse path str
  | MissingDependency str
  | UnsupportedDependencyFormat str
  | CratesIo str
  | CratesIoResponse
  | CargoUpdateFailed "int option"
  | CargoSelfUpdateFailed "int option"
  | Watcher str
  | SignalHandler str

definition exit_text :: "str \<Rightarrow> int option \<Rightarrow> str" where
  "exit_text command code =
     (case code of
        Some c \<Rightarrow> command @ '' failed with exit code '' @ show_int c
      | None \<Rightarrow> command @ '' was terminated by a signal'')"

fun cli_error_text :: "cli_error \<Rightarrow> str" where
  "cli_error_text (IoError p e) = p @ '': '' @ e"
| "cli_error_text (MissingCargoManifest p) =
     display p @ '' was not found; run `caelix generate` from a Cargo project''"
| "cli_error_text (AlreadyExists p) = display p @ '' already exists; refusing to overwrite''"
| "cli_error_text (InvalidName name) = ''invalid project or feature name `'' @ name @ ''`''"
| "cli_error_text (TomlParse p e) = display p @ '': '' @ e"
| "cli_error_text (MissingDependency name) = ''`'' @ name @ ''` dependency was not found in Cargo.toml''"
| "cli_error_text (UnsupportedDependencyFormat name) =
     ''`'' @ name @ ''` dependency uses an unsupported Cargo.toml format''"
| "cli_error_text (CratesIo e) = ''failed to fetch latest caelix version: '' @ e"
| "cli_error_text CratesIoResponse = ''crates.io response did not include max_version''"
| "cli_error_text (CargoUpdateFailed code) = exit_text ''`cargo update -p caelix`'' code"
| "cli_error_text (CargoSelfUpdateFailed code) = exit_text ''`cargo install --force caelix-cli`'' code"
| "cli_error_text (Watcher message) = message"
| "cli_error_text (SignalHandler e) = ''failed to install Ctrl+C handler: '' @ e"

text \<open>Attaching the path to an error of the file system.\<close>

definition at_path :: "path \<Rightarrow> (tree \<Rightarrow> (str + 'a) \<times> tree) \<Rightarrow> tree \<Rightarrow> (cli_error + 'a) \<times> tree" where
  "at_path p m d = (case m d of (r, d') \<Rightarrow> (map_err (IoError (display p)) r, d'))"

lemma at_path_Inr [result_facts]: "at_path p m d = (Inr x, d') \<longleftrightarrow> m d = (Inr x, d')"
  by (auto simp: at_path_def split: prod.splits)

lemma framed_at_path: "(\<And>d. R d (snd (m d))) \<Longrightarrow> framed R (at_path p m)"
  by (auto simp: framed_def at_path_def split: prod.splits) (metis snd_conv)

section \<open>Commands\<close>

datatype backend_choice = Actix | Axum

datatype generate_kind = GenerateService str | GenerateController str | GenerateModule str

datatype cli_command =
    New str backend_choice
  | Generate generate_kind
  | UpdateDependency
  | RunApplication bool "str list"
  | Doctor

datatype cli_outcome = OutputText str | ExitCode int

section \<open>Names\<close>

text \<open>The conversions of the \<open>heck\<close> crate.\<close>

record heck =
  to_snake_case :: "str \<Rightarrow> str"
  to_kebab_case :: "str \<Rightarrow> str"
  to_pascal_case :: "str \<Rightarrow> str"

record feature_name =
  fn_raw :: str
  fn_module_name :: str
  fn_route_path :: str
  fn_type_prefix :: str

definition ascii_digit :: "char \<Rightarrow> bool" where
  "ascii_digit c \<longleftrightarrow> 48 \<le> (of_char c :: nat) \<and> of_char c \<le> (57 :: nat)"

definition ascii_alphabetic :: "char \<Rightarrow> bool" where
  "ascii_alphabetic c \<longleftrightarrow>
     (65 \<le> (of_char c :: nat) \<and> of_char c \<le> (90 :: nat)) \<or>
     (97 \<le> (of_char c :: nat) \<and> of_char c \<le> (122 :: nat))"

definition ascii_alphanumeric :: "char \<Rightarrow> bool" where
  "ascii_alphanumeric c \<longleftrightarrow> ascii_alphabetic c \<or> ascii_digit c"

definition feature_parse :: "heck \<Rightarrow> str \<Rightarrow> cli_error + feature_name" where
  "feature_parse hk raw =
     (let trimmed = trim raw
      in if trimmed = [] \<or> list_ex (\<lambda>c. c = CHR ''/'' \<or> c = CHR 0x5C) trimmed then Inl (InvalidName raw)
         else
           (let module_name = to_snake_case hk trimmed;
                route_path = to_kebab_case hk trimmed;
                type_prefix = to_pascal_case hk trimmed
            in if module_name = [] \<or> route_path = [] \<or> type_prefix = [] \<or> ascii_digit (hd module_name)
               then Inl (InvalidName trimmed)
               else Inr \<lparr>fn_raw = trimmed, fn_module_name = module_name, fn_route_path = route_path,
                         fn_type_prefix = type_prefix\<rparr>))"

definition service_type :: "feature_name \<Rightarrow> str" where
  "service_type f = fn_type_prefix f @ ''Service''"

definition controller_type :: "feature_name \<Rightarrow> str" where
  "controller_type f = fn_type_prefix f @ ''Controller''"

definition module_type :: "feature_name \<Rightarrow> str" where
  "module_type f = fn_type_prefix f @ ''Module''"

definition RUST_KEYWORDS :: "str list" where
  "RUST_KEYWORDS =
     [''as'', ''break'', ''const'', ''continue'', ''crate'', ''else'', ''enum'', ''extern'', ''false'', ''fn'',
      ''for'', ''if'', ''impl'', ''in'', ''let'', ''loop'', ''match'', ''mod'', ''move'', ''mut'', ''pub'', ''ref'',
      ''return'', ''self'', ''Self'', ''static'', ''struct'', ''super'', ''trait'', ''true'', ''type'', ''unsafe'',
      ''use'', ''where'', ''while'', ''async'', ''await'', ''dyn'', ''abstract'', ''become'', ''box'', ''do'',
      ''final'', ''macro'', ''override'', ''priv'', ''typeof'', ''unsized'', ''virtual'', ''yield'', ''try'']"

definition validate_project_name :: "str \<Rightarrow> cli_error + unit" where
  "validate_project_name name =
     (let valid = (case name of [] \<Rightarrow> False | c # _ \<Rightarrow> ascii_alphabetic c) \<and>
                  list_all (\<lambda>c. ascii_alphanumeric c \<or> c = CHR ''-'' \<or> c = CHR ''_'') (drop 1 name) \<and>
                  name \<notin> set RUST_KEYWORDS
      in if valid then Inr () else Inl (InvalidName name))"

definition package_name_for_path :: "heck \<Rightarrow> path \<Rightarrow> str \<Rightarrow> cli_error + str" where
  "package_name_for_path hk p fallback =
     (let name = trim (if p = [] then fallback else last p)
      in if name = [] then Inl (InvalidName fallback) else Inr (to_kebab_case hk name))"

lemma valid_name_chars:
  assumes "validate_project_name name = Inr ()" and "c \<in> set name"
  shows "ascii_alphanumeric c \<or> c = CHR ''-'' \<or> c = CHR ''_''"
  using assms
  by (cases name)
     (auto simp: validate_project_name_def Let_def list_all_iff ascii_alphanumeric_def split: if_splits)

text \<open>A valid project name is one component of a path: it cannot leave the working directory.\<close>

lemma valid_name_plain:
  assumes valid: "validate_project_name name = Inr ()"
  shows "plain_component name"
proof (rule plain_componentI)
  from valid show "name \<noteq> []" by (auto simp: validate_project_name_def)
next
  show "CHR ''/'' \<notin> set name"
    using valid_name_chars [OF valid, of "CHR ''/''"]
    by (auto simp: ascii_alphanumeric_def ascii_alphabetic_def ascii_digit_def)
next
  show "CHR ''.'' \<notin> set name"
    using valid_name_chars [OF valid, of "CHR ''.''"]
    by (auto simp: ascii_alphanumeric_def ascii_alphabetic_def ascii_digit_def)
qed

lemma feature_parse_Inr:
  "feature_parse hk raw = Inr f \<Longrightarrow>
     f = \<lparr>fn_raw = trim raw, fn_module_name = to_snake_case hk (trim raw),
          fn_route_path = to_kebab_case hk (trim raw), fn_type_prefix = to_pascal_case hk (trim raw)\<rparr> \<and>
     fn_module_name f \<noteq> [] \<and> \<not> ascii_digit (hd (fn_module_name f))"
  by (auto simp: feature_parse_def Let_def split: if_splits)

text \<open>
  A keyword with a capital letter passes the check of project names, which looks at the name as typed;
  the crate name derived from it is the keyword.
\<close>

lemma capital_keyword_is_valid: "validate_project_name ''Match'' = Inr ()"
  by code_simp

end
