(* ===== verification/Templates.thy ===== *)
theory Templates
  imports CommandLine
begin

text \<open>
  The files the command line generates and the instructions it prints, text for text: each list holds
  the lines of a template of \<open>caelix-cli/src/lib.rs\<close>.
\<close>

definition unlines :: "str list \<Rightarrow> str" where
  "unlines ls = concat (map (\<lambda>l. l @ [CHR 0x0A]) ls)"

section \<open>A new application\<close>

definition render_app_cargo_toml_for_backend :: "str \<Rightarrow> backend_choice \<Rightarrow> str" where
  \<open>render_app_cargo_toml_for_backend package_name backend =
    (let backend_dependencies = (case backend of
        Actix \<Rightarrow> join [CHR 0x0A] [''actix-web = "4.14.0"'', ''caelix = "*"'']
      | Axum \<Rightarrow> join [CHR 0x0A]
          [''caelix = { version = "*", default-features = false, features = ["axum"] }'',
           ''tower-http = { version = "0.7", features = ["trace", "compression-full"] }''])
     in unlines
     [''[package]'',
      ''name = "'' @ package_name @ ''"'',
      ''version = "0.0.1"'',
      ''edition = "2024"'',
      [],
      ''[dependencies]'',
      backend_dependencies,
      ''serde = { version = "1.0.228", features = ["derive"] }''])\<close>

definition render_app_cargo_toml :: "str \<Rightarrow> str" where
  "render_app_cargo_toml package_name = render_app_cargo_toml_for_backend package_name Actix"

definition render_gitignore :: str where
  \<open>render_gitignore = unlines [''/target/'', ''.env'']\<close>

definition render_main_rs :: "str \<Rightarrow> str" where
  \<open>render_main_rs crate_name = unlines
     [''use caelix::Application;'',
      ''use '' @ crate_name @ ''::AppModule;'',
      [],
      ''#[caelix::main]'',
      ''async fn main() -> std::io::Result<()> {'',
      ''    Application::new::<AppModule>()'',
      ''        .await'',
      ''        .map_err(|err| std::io::Error::other(err.message))?'',
      ''        .listen("127.0.0.1:8080")'',
      ''        .await'',
      ''}'']\<close>

definition render_lib_rs :: str where
  \<open>render_lib_rs = unlines [''pub mod app;'', [], ''pub use app::AppModule;'']\<close>

definition render_app_rs :: str where
  \<open>render_app_rs = unlines
     [''use caelix::{Module, ModuleMetadata};'',
      [],
      ''pub struct AppModule;'',
      [],
      ''impl Module for AppModule {'',
      ''    fn register() -> ModuleMetadata {'',
      ''        ModuleMetadata::new()'',
      ''    }'',
      ''}'']\<close>

definition render_agents_md :: str where
  \<open>render_agents_md = unlines
     [''# Agent Instructions'',
      [],
      ''This is a Caelix application. Use this file as the quick working reference when changing generated app code.'',
      [],
      ''For fuller documentation, refer to https://ohanronnie.github.io/caelix/.'',
      [],
      ''## App Structure'',
      [],
      ''- `src/main.rs` starts the selected Caelix runtime with `Application::new::<AppModule>()`.'',
      ''- `caelix doctor` runs `src/main.rs` with `--doctor`, completing normal application startup and shutdown without binding an HTTP port.'',
      ''- `src/lib.rs` exports the root `AppModule` and should declare feature modules with `pub mod feature_name;`.'',
      ''- `src/app.rs` owns the root `AppModule`.'',
      ''- Feature folders usually contain `mod.rs`, `service.rs`, and `controller.rs`.'',
      ''- Prefer the Caelix CLI for new framework files: `caelix g module name`, `caelix g service name`, and `caelix g controller name`.'',
      [],
      ''## Registration Model'',
      [],
      ''Caelix uses explicit module metadata. Do not rely on filesystem discovery or hidden auto-registration.'',
      [],
      ''- A module implements `Module` and returns `ModuleMetadata`.'',
      ''- Add generated feature modules to `src/lib.rs`.'',
      ''- Import feature modules in `src/app.rs`.'',
      ''- Add `.import::<FeatureModule>()` inside `AppModule::register()`.'',
      ''- Register services with `.provider::<Service>()`.'',
      ''- Register controllers with `.controller::<Controller>()`.'',
      ''- Register async factory values with `.provider_async_factory::<T, _, _>(provider_dependencies![...], ...)` when construction cannot be expressed as `#[injectable]`.'',
      ''- Export a service with `.export::<Service>()` before another module may inject it; consumers must import that module unless the service is explicitly exported by a global module.'',
      [],
      ''Example:'',
      [],
      ''```rust'',
      ''use caelix::{Module, ModuleMetadata};'',
      ''use crate::users::UsersModule;'',
      [],
      ''pub struct AppModule;'',
      [],
      ''impl Module for AppModule {'',
      ''    fn register() -> ModuleMetadata {'',
      ''        ModuleMetadata::new().import::<UsersModule>()'',
      ''    }'',
      ''}'',
      ''```'',
      [],
      ''## Providers And Injection'',
      [],
      ''Prefer `#[injectable]` for services, controllers, guards, and interceptors.'',
      [],
      ''- Injectable fields must be `Arc<T>`.'',
      ''- `Arc<Logger>` is provided automatically with the struct name as context.'',
      ''- Unit structs are valid injectables.'',
      ''- Tuple structs are not supported by `#[injectable]`.'',
      ''- Manual `Injectable` implementations are acceptable for custom async construction.'',
      ''- Lifecycle hooks can be implemented on providers: `on_module_init`, `on_bootstrap`, and `on_shutdown`.'',
      [],
      ''Example:'',
      [],
      ''```rust'',
      ''use std::sync::Arc;'',
      ''use caelix::{injectable, Logger};'',
      [],
      ''#[injectable]'',
      ''pub struct UsersService {'',
      ''    logger: Arc<Logger>,'',
      ''}'',
      ''```'',
      [],
      ''## Controllers'',
      [],
      ''Use `#[controller("/base-path")]` on an impl block. Route handlers are async methods.'',
      [],
      ''- Supported route attributes: `#[get]`, `#[post]`, `#[patch]`, `#[put]`, `#[delete]`.'',
      ''- Supported extractor attributes: `#[param]`, `#[body]`, `#[query]`, `#[user]`.'',
      ''- Add `#[validate]` to extracted DTOs that implement `validator::Validate`.'',
      ''- `#[user]` reads from `RequestContext`; missing users become `UnauthorizedException`.'',
      [],
      ''Example:'',
      [],
      ''```rust'',
      ''use std::sync::Arc;'',
      ''use caelix::{controller, injectable, Result};'',
      ''use super::UsersService;'',
      [],
      ''#[injectable]'',
      ''pub struct UsersController {'',
      ''    service: Arc<UsersService>,'',
      ''}'',
      [],
      ''#[controller("/users")]'',
      ''impl UsersController {'',
      ''    #[get("/{id}")]'',
      ''    async fn find_one(&self, #[param] id: String) -> Result<String> {'',
      ''        Ok(self.service.find_one(id).await?)'',
      ''    }'',
      ''}'',
      ''```'',
      [],
      ''## Guards, Interceptors, And Context'',
      [],
      ''- Guards implement `Guard` and return whether a request may continue.'',
      ''- Interceptors implement `Interceptor` and can wrap handler execution.'',
      ''- Apply them with `#[use_guard(Type)]` or `#[use_interceptor(Type)]` at controller or method level.'',
      ''- Controller-level guards/interceptors apply before method-level ones.'',
      ''- Use `RequestContext` for request method, path, headers, and per-request values such as authenticated users.'',
      [],
      ''## Responses And Errors'',
      [],
      ''Handlers should return values that implement `IntoCaelixResponse`.'',
      [],
      ''- `Result<String>` returns `200 text/plain`.'',
      ''- `Result<Response<T>>` is the usual JSON response path.'',
      ''- `Response::Body(value)` returns `200` JSON.'',
      ''- `Response::WithStatus(status, value)` returns JSON with a custom status.'',
      ''- `Response::json`, `Response::text`, and `Response::bytes` return explicit raw payloads.'',
      ''- `Response::stream`, `Response::sse`, and `Response::file` return streaming `HttpResponse` values.'',
      ''- `Response::no_content()` returns `204`.'',
      ''- Use Caelix exception types such as `BadRequestException`, `UnauthorizedException`, `ForbiddenException`, `NotFoundException`, and `InternalServerErrorException` for errors.'',
      ''- Server error messages are intentionally hidden from HTTP responses.'',
      [],
      ''## Cache'',
      [],
      ''Cache support is explicit service-level caching.'',
      [],
      ''- Import `CacheModule` into a module that needs cache support.'',
      ''- Inject `Arc<Cache>` into services that need cache reads/writes.'',
      ''- Do not add automatic HTTP response caching.'',
      ''- If the app needs response caching, implement it with an interceptor that reads from and writes to `Cache`.'',
      [],
      ''## Checks'',
      [],
      ''- Run `cargo test` after code changes when feasible.'',
      ''- Run `caelix doctor` to validate full application startup and shutdown without binding a port.'',
      ''- Keep public app code using the `caelix` facade (`use caelix::...`) instead of internal Caelix crate paths.'',
      ''- When using CLI-generated files, keep the manual registration steps in the command output aligned with `src/lib.rs` and `src/app.rs`.'']\<close>

section \<open>Features\<close>

definition render_service :: "feature_name \<Rightarrow> str" where
  \<open>render_service feature = (let service = service_type feature in unlines
     [''use caelix::injectable;'',
      [],
      ''#[injectable]'',
      ''pub struct '' @ service @ '';'',
      [],
      ''impl '' @ service @ '' {'',
      ''    pub fn hello(&self) -> String {'',
      ''        "Hello from '' @ service @ ''".to_string()'',
      ''    }'',
      ''}''])\<close>

definition render_controller :: "feature_name \<Rightarrow> bool \<Rightarrow> str" where
  \<open>render_controller feature has_service =
    (let controller = controller_type feature; route = fn_route_path feature in
     if has_service then (let service = service_type feature in unlines
     [''use std::sync::Arc;'',
      [],
      ''use caelix::{controller, injectable, Result};'',
      [],
      ''use super::'' @ service @ '';'',
      [],
      ''#[injectable]'',
      ''pub struct '' @ controller @ '' {'',
      ''    service: Arc<'' @ service @ ''>,'',
      ''}'',
      [],
      ''#[controller("/'' @ route @ ''")]'',
      ''impl '' @ controller @ '' {'',
      ''    #[get("")]'',
      ''    pub async fn hello(&self) -> Result<String> {'',
      ''        Ok(self.service.hello())'',
      ''    }'',
      ''}''])
     else unlines
     [''use caelix::{controller, injectable, Result};'',
      [],
      ''#[injectable]'',
      ''pub struct '' @ controller @ '';'',
      [],
      ''#[controller("/'' @ route @ ''")]'',
      ''impl '' @ controller @ '' {'',
      ''    #[get("")]'',
      ''    pub async fn hello(&self) -> Result<String> {'',
      ''        Ok("Hello from '' @ controller @ ''".to_string())'',
      ''    }'',
      ''}''])\<close>

datatype feature_mod_kind = ServiceOnly | ControllerOnly | ControllerWithService

definition render_feature_mod :: "feature_name \<Rightarrow> feature_mod_kind \<Rightarrow> str" where
  \<open>render_feature_mod feature kind =
    (let service = service_type feature; controller = controller_type feature in
     case kind of
       ServiceOnly \<Rightarrow> unlines
     [''pub mod service;'',
      [],
      ''pub use service::'' @ service @ '';'']
     | ControllerOnly \<Rightarrow> unlines
     [''pub mod controller;'',
      [],
      ''pub use controller::'' @ controller @ '';'']
     | ControllerWithService \<Rightarrow> unlines
     [''pub mod controller;'',
      ''pub mod service;'',
      [],
      ''pub use controller::'' @ controller @ '';'',
      ''pub use service::'' @ service @ '';''])\<close>

definition render_feature_module :: "feature_name \<Rightarrow> str" where
  \<open>render_feature_module feature =
    (let module = module_type feature; service = service_type feature; controller = controller_type feature in unlines
     [''pub mod controller;'',
      ''pub mod service;'',
      [],
      ''pub use controller::'' @ controller @ '';'',
      ''pub use service::'' @ service @ '';'',
      [],
      ''use caelix::{Module, ModuleMetadata};'',
      [],
      ''pub struct '' @ module @ '';'',
      [],
      ''impl Module for '' @ module @ '' {'',
      ''    fn register() -> ModuleMetadata {'',
      ''        ModuleMetadata::new()'',
      ''            .provider::<'' @ service @ ''>()'',
      ''            .controller::<'' @ controller @ ''>()'',
      ''    }'',
      ''}''])\<close>

section \<open>Instructions\<close>

definition service_instructions :: "feature_name \<Rightarrow> str" where
  \<open>service_instructions feature = join [CHR 0x0A]
     [''Manual registration:'',
      ''- Ensure `src/'' @ fn_module_name feature @ ''/mod.rs` contains `pub mod service;` and `pub use service::'' @ service_type feature @ '';`.'',
      ''- Add `pub mod '' @ fn_module_name feature @ '';` to `src/lib.rs` if it is not already declared.'',
      ''- Add `use crate::'' @ fn_module_name feature @ ''::'' @ service_type feature @ '';` to the module that should own the service.'',
      ''- Add `.provider::<'' @ service_type feature @ ''>()` inside that module'' @ [CHR 0x27] @ ''s `register()`.'']\<close>

definition controller_instructions :: "feature_name \<Rightarrow> bool \<Rightarrow> str" where
  \<open>controller_instructions feature has_service =
    join [CHR 0x0A]
     [''Manual registration:'',
      ''- Ensure `src/'' @ fn_module_name feature @ ''/mod.rs` contains `pub mod controller;` and `pub use controller::'' @ controller_type feature @ '';`.'',
      ''- Add `pub mod '' @ fn_module_name feature @ '';` to `src/lib.rs` if it is not already declared.'',
      ''- Add `use crate::'' @ fn_module_name feature @ ''::'' @ controller_type feature @ '';` to the module that should own the controller.'',
      ''- Add `.controller::<'' @ controller_type feature @ ''>()` inside that module'' @ [CHR 0x27] @ ''s `register()`.''] @
    (if has_service
     then CHR 0x0A # ''- Ensure `'' @ service_type feature @ ''` is registered as a provider in the same module.''
     else [])\<close>

definition module_instructions :: "feature_name \<Rightarrow> str" where
  \<open>module_instructions feature = join [CHR 0x0A]
     [''Manual registration:'',
      ''- Add `pub mod '' @ fn_module_name feature @ '';` to `src/lib.rs`.'',
      ''- Add `use crate::'' @ fn_module_name feature @ ''::'' @ module_type feature @ '';` to `src/app.rs`.'',
      ''- Add `.import::<'' @ module_type feature @ ''>()` inside `AppModule::register()`.'']\<close>

definition created_files :: "path list \<Rightarrow> str" where
  "created_files ps = unlines (''Created files:'' # map (\<lambda>p. ''- '' @ display p) ps)"

end
