(* ===== verification/Generators.thy ===== *)
theory Generators
  imports Templates
begin

text \<open>
  The generators of the command line: a new application, and the service, controller or module of a
  feature, as sequences of operations on the file tree.
\<close>

section \<open>Generators\<close>

definition ensure_missing :: "path \<Rightarrow> tree \<Rightarrow> (cli_error + unit) \<times> tree" where
  "ensure_missing p d = (if exists_at d p then Inl (AlreadyExists p) else Inr (), d)"

definition create_file :: "fs_io \<Rightarrow> path \<Rightarrow> str \<Rightarrow> tree \<Rightarrow> (cli_error + unit) \<times> tree" where
  "create_file io p contents =
     do_then (ensure_missing p) (\<lambda>_. at_path p (fs_write io p contents))"

definition ensure_cargo_manifest :: "path \<Rightarrow> tree \<Rightarrow> (cli_error + unit) \<times> tree" where
  "ensure_cargo_manifest cwd d =
     (let p = path_join cwd ''Cargo.toml''
      in (if is_file_at d p then Inr () else Inl (MissingCargoManifest p), d))"

definition src_dir :: "path \<Rightarrow> path" where
  "src_dir cwd = path_join cwd ''src''"

fun create_files :: "fs_io \<Rightarrow> (path \<times> str) list \<Rightarrow> tree \<Rightarrow> (cli_error + unit) \<times> tree" where
  "create_files io [] = yield ()"
| "create_files io ((p, contents) # rest) = do_then (create_file io p contents) (\<lambda>_. create_files io rest)"

definition new_files :: "heck \<Rightarrow> path \<Rightarrow> str \<Rightarrow> backend_choice \<Rightarrow> (path \<times> str) list" where
  "new_files hk target package_name backend =
     (let crate_name = to_snake_case hk package_name
      in [(path_join target ''Cargo.toml'', render_app_cargo_toml_for_backend package_name backend),
          (path_join target ''.gitignore'', render_gitignore),
          (path_join target ''AGENTS.md'', render_agents_md),
          (path_join target ''src/main.rs'', render_main_rs crate_name),
          (path_join target ''src/lib.rs'', render_lib_rs),
          (path_join target ''src/app.rs'', render_app_rs)])"

definition new_output :: "str \<Rightarrow> path \<Rightarrow> str" where
  "new_output package_name target =
     unlines [''Created Caelix application `'' @ package_name @ ''` in '' @ display target, [],
              ''Next steps:'', ''- cd '' @ display target, ''- caelix run'']"

definition generate_new ::
    "heck \<Rightarrow> fs_io \<Rightarrow> str \<Rightarrow> backend_choice \<Rightarrow> path \<Rightarrow> tree \<Rightarrow> (cli_error + str) \<times> tree" where
  "generate_new hk io name backend cwd =
     do_then (lift_result (validate_project_name name)) (\<lambda>_.
       (let target = path_join cwd name
        in do_then (ensure_missing target) (\<lambda>_.
           do_then (lift_result (package_name_for_path hk target name)) (\<lambda>package_name.
           do_then (at_path (path_join target ''src'') (create_dir_all io (path_join target ''src''))) (\<lambda>_.
           do_then (create_files io (new_files hk target package_name backend)) (\<lambda>_.
           yield (new_output package_name target)))))))"

text \<open>The module file of a feature is only written when it is missing.\<close>

definition create_if_missing :: "fs_io \<Rightarrow> path \<Rightarrow> str \<Rightarrow> tree \<Rightarrow> (cli_error + path list) \<times> tree" where
  "create_if_missing io p contents d =
     (if exists_at d p then yield [] d
      else do_then (create_file io p contents) (\<lambda>_. yield [p]) d)"

definition feature_dir :: "feature_name \<Rightarrow> path \<Rightarrow> path" where
  "feature_dir feature cwd = path_join (src_dir cwd) (fn_module_name feature)"

definition generate_service :: "fs_io \<Rightarrow> feature_name \<Rightarrow> path \<Rightarrow> tree \<Rightarrow> (cli_error + str) \<times> tree" where
  "generate_service io feature cwd =
     (let dir = feature_dir feature cwd;
          service_path = path_join dir ''service.rs'';
          mod_path = path_join dir ''mod.rs''
      in do_then (ensure_missing service_path) (\<lambda>_.
         do_then (at_path dir (create_dir_all io dir)) (\<lambda>_.
         do_then (create_file io service_path (render_service feature)) (\<lambda>_.
         do_then (create_if_missing io mod_path (render_feature_mod feature ServiceOnly)) (\<lambda>more.
         yield (created_files (service_path # more) @ [CHR 0x0A, CHR 0x0A] @ service_instructions feature))))))"

definition controller_note :: "feature_name \<Rightarrow> str" where
  "controller_note feature =
     [CHR 0x0A, CHR 0x0A] @
     unlines [''Note: src/'' @ fn_module_name feature @ ''/service.rs was not found, so '' @
              controller_type feature @ '' was generated without a '' @ service_type feature @ '' dependency.'']"

definition generate_controller :: "fs_io \<Rightarrow> feature_name \<Rightarrow> path \<Rightarrow> tree \<Rightarrow> (cli_error + str) \<times> tree" where
  "generate_controller io feature cwd d =
     (let dir = feature_dir feature cwd;
          service_path = path_join dir ''service.rs'';
          controller_path = path_join dir ''controller.rs'';
          mod_path = path_join dir ''mod.rs'';
          has_service = exists_at d service_path
      in do_then (ensure_missing controller_path) (\<lambda>_.
         do_then (at_path dir (create_dir_all io dir)) (\<lambda>_.
         do_then (create_file io controller_path (render_controller feature has_service)) (\<lambda>_.
         do_then (create_if_missing io mod_path (render_feature_mod feature
                    (if has_service then ControllerWithService else ControllerOnly))) (\<lambda>more.
         yield (created_files (controller_path # more) @ [CHR 0x0A, CHR 0x0A] @
                controller_instructions feature has_service @
                (if has_service then [] else controller_note feature)))))) d)"

definition generate_module :: "fs_io \<Rightarrow> feature_name \<Rightarrow> path \<Rightarrow> tree \<Rightarrow> (cli_error + str) \<times> tree" where
  "generate_module io feature cwd =
     (let dir = feature_dir feature cwd;
          mod_path = path_join dir ''mod.rs'';
          service_path = path_join dir ''service.rs'';
          controller_path = path_join dir ''controller.rs''
      in do_then (ensure_missing mod_path) (\<lambda>_.
         do_then (ensure_missing service_path) (\<lambda>_.
         do_then (ensure_missing controller_path) (\<lambda>_.
         do_then (at_path dir (create_dir_all io dir)) (\<lambda>_.
         do_then (create_file io mod_path (render_feature_module feature)) (\<lambda>_.
         do_then (create_file io service_path (render_service feature)) (\<lambda>_.
         do_then (create_file io controller_path (render_controller feature True)) (\<lambda>_.
         yield (created_files [mod_path, service_path, controller_path] @ [CHR 0x0A, CHR 0x0A] @
                module_instructions feature)))))))))"

text \<open>The commands \<open>new\<close> and \<open>generate\<close>.\<close>

definition run_generate :: "heck \<Rightarrow> fs_io \<Rightarrow> generate_kind \<Rightarrow> path \<Rightarrow> tree \<Rightarrow> (cli_error + str) \<times> tree" where
  "run_generate hk io kind cwd =
     do_then (ensure_cargo_manifest cwd) (\<lambda>_.
       (case kind of
          GenerateService name \<Rightarrow>
            do_then (lift_result (feature_parse hk name)) (\<lambda>feature. generate_service io feature cwd)
        | GenerateController name \<Rightarrow>
            do_then (lift_result (feature_parse hk name)) (\<lambda>feature. generate_controller io feature cwd)
        | GenerateModule name \<Rightarrow>
            do_then (lift_result (feature_parse hk name)) (\<lambda>feature. generate_module io feature cwd)))"

section \<open>Frame conditions\<close>

lemma framed_at_create_dir_all:
  "framed keeps_files (at_path p (create_dir_all io q))"
  "framed keeps_tree_ok (at_path p (create_dir_all io q))"
  "framed (within q) (at_path p (create_dir_all io q))"
  by (rule framed_at_path, rule create_dir_all_keeps create_dir_all_ok create_dir_all_within)+

lemma framed_ensure_missing:
  "framed keeps_files (ensure_missing p)" "framed keeps_tree_ok (ensure_missing p)"
  "framed (within base) (ensure_missing p)"
  by (simp_all add: framed_def ensure_missing_def keep.unchanged sound.unchanged inside.unchanged)

lemma framed_ensure_cargo_manifest:
  "framed keeps_files (ensure_cargo_manifest p)" "framed keeps_tree_ok (ensure_cargo_manifest p)"
  "framed (within base) (ensure_cargo_manifest p)"
  by (simp_all add: framed_def ensure_cargo_manifest_def Let_def keep.unchanged sound.unchanged inside.unchanged)

lemma create_file_unfold:
  "create_file io p s d =
     (if exists_at d p then (Inl (AlreadyExists p), d) else at_path p (fs_write io p s) d)"
  by (simp add: create_file_def do_then_def ensure_missing_def)

lemma framed_create_file:
  "framed keeps_files (create_file io p s)"
  "framed keeps_tree_ok (create_file io p s)"
  "prefix base p \<Longrightarrow> framed (within base) (create_file io p s)"
proof -
  have at: "snd (at_path p (fs_write io p s) d) = snd (fs_write io p s d)" for d
    by (simp add: at_path_def split: prod.splits)
  show "framed keeps_files (create_file io p s)"
    by (auto simp: framed_def create_file_unfold at exists_at_def keep.unchanged intro: fs_write_keeps)
  show "framed keeps_tree_ok (create_file io p s)"
    by (auto simp: framed_def create_file_unfold at sound.unchanged intro: fs_write_ok)
  show "framed (within base) (create_file io p s)" if "prefix base p"
    using that by (auto simp: framed_def create_file_unfold at inside.unchanged intro: fs_write_within)
qed

lemma framed_create_files:
  "framed keeps_files (create_files io fs)"
  "framed keeps_tree_ok (create_files io fs)"
  "\<forall>(p, s)\<in>set fs. prefix base p \<Longrightarrow> framed (within base) (create_files io fs)"
proof (induction fs)
  case Nil
  { case 1 show ?case by (simp add: keep.yield)
  next
    case 2 show ?case by (simp add: sound.yield)
  next
    case 3 show ?case by (simp add: inside.yield) }
next
  case (Cons f fs)
  obtain p s where f: "f = (p, s)" by (cases f)
  { case 1 show ?case
      unfolding f create_files.simps by (rule keep.sequence [OF framed_create_file(1) Cons.IH(1)])
  next
    case 2 show ?case
      unfolding f create_files.simps by (rule sound.sequence [OF framed_create_file(2) Cons.IH(2)])
  next
    case 3
    then have "prefix base p" "\<forall>(p, s)\<in>set fs. prefix base p" by (auto simp: f)
    then show ?case
      unfolding f create_files.simps by (intro inside.sequence framed_create_file(3) Cons.IH(3)) }
qed

lemma framed_create_if_missing:
  "framed keeps_files (create_if_missing io p s)"
  "framed keeps_tree_ok (create_if_missing io p s)"
  "prefix base p \<Longrightarrow> framed (within base) (create_if_missing io p s)"
proof -
  have other: "framed R (create_if_missing io p s)"
    if "framed R (yield [] :: tree \<Rightarrow> (cli_error + path list) \<times> tree)"
       "framed R (do_then (create_file io p s) (\<lambda>_. yield [p]))"
    for R :: "tree \<Rightarrow> tree \<Rightarrow> bool"
    using that by (auto simp: framed_def create_if_missing_def)
  show "framed keeps_files (create_if_missing io p s)"
    by (rule other) (auto intro: keep.yield keep.sequence framed_create_file)
  show "framed keeps_tree_ok (create_if_missing io p s)"
    by (rule other) (auto intro: sound.yield sound.sequence framed_create_file)
  show "framed (within base) (create_if_missing io p s)" if "prefix base p"
    by (rule other) (use that in \<open>auto intro: inside.yield inside.sequence framed_create_file\<close>)
qed

lemma framed_at_dirs_within:
  "prefix base q \<Longrightarrow> framed (within base) (at_path p (create_dir_all io q))"
  using framed_at_create_dir_all(3) [of q p io] within_sub [of base]
  by (auto simp: framed_def prefix_def)

lemmas generator_frames =
  framed_ensure_missing framed_ensure_cargo_manifest framed_create_file framed_create_files
  framed_create_if_missing framed_at_create_dir_all(1,2) framed_at_dirs_within

end
