(* ===== verification/GeneratorLaws.thy ===== *)
theory GeneratorLaws
  imports Generators
begin

text \<open>
  What the generators promise: no file that exists is changed, nothing is written outside the directory
  the name stands for, and a generator that succeeds has written exactly its templates.
\<close>

section \<open>Frames of the generators\<close>

lemma framed_feature_result:
  assumes "framed R (lift_result (feature_parse hk name))"
    and "\<And>f. feature_parse hk name = Inr f \<Longrightarrow> framed R (g f)"
  shows "framed R (do_then (lift_result (feature_parse hk name)) g)"
  using assms
  by (cases "feature_parse hk name") (auto simp: framed_def do_then_def lift_result_def)

lemma framed_new:
  "framed keeps_files (generate_new hk io name backend cwd)"
  "framed keeps_tree_ok (generate_new hk io name backend cwd)"
  unfolding generate_new_def Let_def
  by (intro keep.sequence keep.lift keep.yield generator_frames,
      intro sound.sequence sound.lift sound.yield generator_frames)

lemma framed_service:
  "framed keeps_files (generate_service io f cwd)"
  "framed keeps_tree_ok (generate_service io f cwd)"
  "framed (within (feature_dir f cwd)) (generate_service io f cwd)"
  unfolding generate_service_def Let_def
  by (intro keep.sequence keep.lift keep.yield generator_frames,
      intro sound.sequence sound.lift sound.yield generator_frames,
      (intro inside.sequence inside.lift inside.yield generator_frames; simp add: plain_component_def))

lemma framed_module:
  "framed keeps_files (generate_module io f cwd)"
  "framed keeps_tree_ok (generate_module io f cwd)"
  "framed (within (feature_dir f cwd)) (generate_module io f cwd)"
  unfolding generate_module_def Let_def
  by (intro keep.sequence keep.lift keep.yield generator_frames,
      intro sound.sequence sound.lift sound.yield generator_frames,
      (intro inside.sequence inside.lift inside.yield generator_frames; simp add: plain_component_def))

text \<open>The controller generator looks for the service first: with the answer fixed it is a sequence too.\<close>

definition controller_steps :: "fs_io \<Rightarrow> feature_name \<Rightarrow> path \<Rightarrow> bool \<Rightarrow> tree \<Rightarrow> (cli_error + str) \<times> tree" where
  "controller_steps io feature cwd has_service =
     (let dir = feature_dir feature cwd;
          controller_path = path_join dir ''controller.rs'';
          mod_path = path_join dir ''mod.rs''
      in do_then (ensure_missing controller_path) (\<lambda>_.
         do_then (at_path dir (create_dir_all io dir)) (\<lambda>_.
         do_then (create_file io controller_path (render_controller feature has_service)) (\<lambda>_.
         do_then (create_if_missing io mod_path (render_feature_mod feature
                    (if has_service then ControllerWithService else ControllerOnly))) (\<lambda>more.
         yield (created_files (controller_path # more) @ [CHR 0x0A, CHR 0x0A] @
                controller_instructions feature has_service @
                (if has_service then [] else controller_note feature)))))))"

lemma generate_controller_steps:
  "generate_controller io f cwd d =
     controller_steps io f cwd (exists_at d (path_join (feature_dir f cwd) ''service.rs'')) d"
  by (simp add: generate_controller_def controller_steps_def Let_def)

lemma framed_controller_steps:
  "framed keeps_files (controller_steps io f cwd b)"
  "framed keeps_tree_ok (controller_steps io f cwd b)"
  "framed (within (feature_dir f cwd)) (controller_steps io f cwd b)"
  unfolding controller_steps_def Let_def
  by (intro keep.sequence keep.lift keep.yield generator_frames,
      intro sound.sequence sound.lift sound.yield generator_frames,
      (intro inside.sequence inside.lift inside.yield generator_frames; simp add: plain_component_def))

lemma framed_controller:
  "framed keeps_files (generate_controller io f cwd)"
  "framed keeps_tree_ok (generate_controller io f cwd)"
  "framed (within (feature_dir f cwd)) (generate_controller io f cwd)"
  using framed_controller_steps [where io = io and f = f and cwd = cwd] by (simp_all add: framed_def generate_controller_steps)

lemma framed_generate:
  "framed keeps_files (run_generate hk io kind cwd)"
  "framed keeps_tree_ok (run_generate hk io kind cwd)"
proof -
  show "framed keeps_files (run_generate hk io kind cwd)"
    unfolding run_generate_def
    by (intro keep.sequence generator_frames; cases kind)
       (auto intro!: keep.sequence keep.lift framed_service framed_controller framed_module)
  show "framed keeps_tree_ok (run_generate hk io kind cwd)"
    unfolding run_generate_def
    by (intro sound.sequence generator_frames; cases kind)
       (auto intro!: sound.sequence sound.lift framed_service framed_controller framed_module)
qed

text \<open>C35: No command of the generators changes what exists: whatever its outcome, after \<open>caelix new\<close> and
  \<open>caelix generate\<close> every file and directory of before is still there with the same contents, and the
  tree is well formed if it was.\<close>
theorem generators_never_overwrite:
  "keeps_files d (snd (generate_new hk io name backend cwd d)) \<and>
   keeps_files d (snd (run_generate hk io kind cwd d)) \<and>
   keeps_tree_ok d (snd (generate_new hk io name backend cwd d)) \<and>
   keeps_tree_ok d (snd (run_generate hk io kind cwd d))"
  using framed_new [where hk = hk and io = io and name = name and backend = backend and cwd = cwd] framed_generate [where hk = hk and io = io and kind = kind and cwd = cwd]
  by (simp add: framed_def)

fun kind_name :: "generate_kind \<Rightarrow> str" where
  "kind_name (GenerateService name) = name"
| "kind_name (GenerateController name) = name"
| "kind_name (GenerateModule name) = name"

lemma feature_dir_plain:
  assumes "feature_parse hk name = Inr f" and "\<And>s. CHR ''/'' \<notin> set (to_snake_case hk s) \<and> CHR ''.'' \<notin> set (to_snake_case hk s)"
  shows "feature_dir f cwd = cwd @ [''src'', to_snake_case hk (trim name)]"
proof -
  from feature_parse_Inr [OF assms(1)]
  have m: "fn_module_name f = to_snake_case hk (trim name)" "to_snake_case hk (trim name) \<noteq> []" by auto
  with assms(2) have "plain_component (to_snake_case hk (trim name))" by (simp add: plain_componentI)
  with m show ?thesis by (simp add: feature_dir_def src_dir_def plain_component_def)
qed

text \<open>Generated files stay where the name says: \<open>caelix new name\<close> changes nothing outside the directory
  \<open>name\<close> of the working directory, and \<open>caelix generate\<close> nothing outside the feature directory under
  \<open>src\<close>, whatever the name is, path separators and parent directories included, provided the snake case
  conversion leaves only word characters.\<close>
theorem generators_stay_in_directory:
  assumes "\<And>s. CHR ''/'' \<notin> set (to_snake_case hk s) \<and> CHR ''.'' \<notin> set (to_snake_case hk s)"
  shows "within (cwd @ [name]) d (snd (generate_new hk io name backend cwd d)) \<and>
    within (cwd @ [''src'', to_snake_case hk (trim (kind_name kind))]) d (snd (run_generate hk io kind cwd d))"
proof
  let ?w = "within (cwd @ [name])"
  show "?w d (snd (generate_new hk io name backend cwd d))"
  proof (cases "validate_project_name name")
    case (Inl e)
    then show ?thesis by (simp add: generate_new_def do_then_def lift_result_def inside.unchanged)
  next
    case (Inr u)
    then have j [simp]: "path_join cwd name = cwd @ [name]" by (simp add: valid_name_plain)
    have p: "prefix (cwd @ [name]) (path_join (cwd @ [name]) ''src'')"
      by (simp add: plain_component_def)
    have f: "\<forall>(p, s)\<in>set (new_files hk (cwd @ [name]) package_name backend). prefix (cwd @ [name]) p"
      for package_name
      by (simp add: new_files_def Let_def plain_component_def path_join_def path_step_def)
    have "framed ?w (generate_new hk io name backend cwd)"
      unfolding generate_new_def Let_def j
      by (intro inside.sequence inside.lift inside.yield framed_ensure_missing framed_at_dirs_within
          framed_create_files p f)
    then show ?thesis by (simp add: framed_def)
  qed
next
  let ?w = "within (cwd @ [''src'', to_snake_case hk (trim (kind_name kind))])"
  have "framed ?w (run_generate hk io kind cwd)"
  proof (cases kind)
    case (GenerateService name)
    then show ?thesis unfolding run_generate_def
      using framed_service(3) [where cwd = cwd and io = io] feature_dir_plain [OF _ assms, where name = name and cwd = cwd]
      by (auto intro!: inside.sequence framed_feature_result inside.lift framed_ensure_cargo_manifest)
        (metis)
  next
    case (GenerateController name)
    then show ?thesis unfolding run_generate_def
      using framed_controller(3) [where cwd = cwd and io = io] feature_dir_plain [OF _ assms, where name = name and cwd = cwd]
      by (auto intro!: inside.sequence framed_feature_result inside.lift framed_ensure_cargo_manifest)
        (metis)
  next
    case (GenerateModule name)
    then show ?thesis unfolding run_generate_def
      using framed_module(3) [where cwd = cwd and io = io] feature_dir_plain [OF _ assms, where name = name and cwd = cwd]
      by (auto intro!: inside.sequence framed_feature_result inside.lift framed_ensure_cargo_manifest)
        (metis)
  qed
  then show "?w d (snd (run_generate hk io kind cwd d))" by (simp add: framed_def)
qed

text \<open>A conversion for the witnesses: letters and digits in lower case.\<close>

definition demo_heck :: heck where
  "demo_heck =
     \<lparr>to_snake_case = (\<lambda>s. filter ascii_alphanumeric (to_ascii_lowercase s)),
      to_kebab_case = (\<lambda>s. filter ascii_alphanumeric (to_ascii_lowercase s)),
      to_pascal_case = (\<lambda>s. filter ascii_alphanumeric s)\<rparr>"

definition no_faults :: fs_io where
  "no_faults = (\<lambda>_. None)"

definition demo_tree :: tree where
  "demo_tree = [[] \<mapsto> Directory, [''app''] \<mapsto> Directory, [''app'', ''Cargo.toml''] \<mapsto> FileData ''[package]'']"

lemma demo_snake_clean:
  "CHR ''/'' \<notin> set (to_snake_case demo_heck s) \<and> CHR ''.'' \<notin> set (to_snake_case demo_heck s)"
  by (simp add: demo_heck_def ascii_alphanumeric_def ascii_alphabetic_def ascii_digit_def)

theorem generators_stay_in_directory_witness:
  "within [''app'', ''..''] demo_tree (snd (generate_new demo_heck no_faults ''..'' Actix [''app''] demo_tree)) \<and>
   within [''app'', ''src'', ''users''] demo_tree
     (snd (run_generate demo_heck no_faults (GenerateModule ''Users'') [''app''] demo_tree))"
proof -
  have "to_snake_case demo_heck (trim ''Users'') = ''users''" by code_simp
  then show ?thesis
    using generators_stay_in_directory [of demo_heck "[''app'']" "''..''" demo_tree no_faults Actix
        "GenerateModule ''Users''", OF demo_snake_clean] by simp
qed

section \<open>What a generator has written\<close>

definition written :: "path \<Rightarrow> (path \<times> str) list \<Rightarrow> tree \<Rightarrow> tree" where
  "written dir fs d =
     (\<lambda>q. case map_of fs q of Some s \<Rightarrow> Some (FileData s)
          | None \<Rightarrow> if prefix q dir then Some Directory else d q)"

lemma create_dir_all_written:
  assumes "create_dir_all io p d = (Inr (), d')"
  shows "d' = written p [] d"
proof
  fix q
  from assms have no: "\<not> list_ex (is_file_at d) (prefixes p)" and d': "d' = add_dirs (prefixes p) d"
    by (auto simp: create_dir_all_def split: option.splits fault.splits if_splits)
  show "d' q = written p [] d q"
  proof (cases "prefix q p")
    case True
    with no have "\<not> is_file_at d q" by (simp add: list_ex_iff)
    then have "d q = None \<or> d q = Some Directory"
      by (simp add: is_file_at_def split: option.splits node.splits)
    with True d' show ?thesis by (auto simp: add_dirs_def written_def)
  qed (simp add: d' add_dirs_def written_def)
qed

lemma create_file_Inr:
  "create_file io p s d = (Inr (), d') \<Longrightarrow> d p = None \<and> d' = d(p \<mapsto> FileData s)"
  by (auto simp: create_file_unfold exists_at_def at_path_Inr fs_write_Inr split: if_splits)

lemma create_files_Inr:
  "create_files io fs d = (Inr (), d') \<Longrightarrow>
     distinct (map fst fs) \<and> (\<forall>p\<in>fst ` set fs. d p = None) \<and>
     d' = (\<lambda>q. case map_of fs q of Some s \<Rightarrow> Some (FileData s) | None \<Rightarrow> d q)"
proof (induction fs arbitrary: d)
  case Nil
  then show ?case by (simp add: yield_def)
next
  case (Cons f fs)
  obtain p s where f: "f = (p, s)" by (cases f)
  with Cons.prems obtain d1 where 1: "create_file io p s d = (Inr (), d1)"
    and 2: "create_files io fs d1 = (Inr (), d')" by (auto simp: do_then_Inr)
  from create_file_Inr [OF 1] have d1: "d p = None" "d1 = d(p \<mapsto> FileData s)" by auto
  from Cons.IH [OF 2] have fs: "distinct (map fst fs)" "\<forall>q\<in>fst ` set fs. d1 q = None"
    "d' = (\<lambda>q. case map_of fs q of Some s \<Rightarrow> Some (FileData s) | None \<Rightarrow> d1 q)" by auto
  from fs(2) d1 have p: "p \<notin> fst ` set fs" by auto
  then have m: "map_of fs p = None" by (simp add: map_of_eq_None_iff)
  from fs(2) d1(2) have "\<forall>q\<in>fst ` set fs. d q = None" by (auto split: if_splits)
  with fs(1) d1(1) p have "distinct (map fst (f # fs)) \<and> (\<forall>q\<in>fst ` set (f # fs). d q = None)" by (simp add: f)
  moreover from fs(3) d1(2) m
  have "d' = (\<lambda>q. case map_of (f # fs) q of Some s \<Rightarrow> Some (FileData s) | None \<Rightarrow> d q)"
    by (auto simp: f fun_eq_iff split: option.splits)
  ultimately show ?case by (elim conjE) (intro conjI)
qed

lemma create_files_three:
  "do_then (create_file io p s) (\<lambda>_. do_then (create_file io q t) (\<lambda>_. do_then (create_file io r u) (\<lambda>_. yield x))) =
   do_then (create_files io [(p, s), (q, t), (r, u)]) (\<lambda>_. yield x)"
  by (auto simp: fun_eq_iff do_then_def yield_def split: prod.splits sum.splits)

lemma create_files_two:
  "do_then (create_file io p s) (\<lambda>_. do_then (create_file io q t) (\<lambda>_. yield x)) =
   do_then (create_files io [(p, s), (q, t)]) (\<lambda>_. yield x)"
  by (auto simp: fun_eq_iff do_then_def yield_def split: prod.splits sum.splits)

definition module_files :: "feature_name \<Rightarrow> path \<Rightarrow> (path \<times> str) list" where
  "module_files f cwd =
     [(feature_dir f cwd @ [''mod.rs''], render_feature_module f),
      (feature_dir f cwd @ [''service.rs''], render_service f),
      (feature_dir f cwd @ [''controller.rs''], render_controller f True)]"

lemma plain_file_names [simp]:
  "plain_component ''mod.rs''" "plain_component ''service.rs''" "plain_component ''controller.rs''"
  "plain_component ''src''" "plain_component ''Cargo.toml''"
  by (simp_all add: plain_component_def)

lemma created_then_written:
  assumes "create_dir_all io dir d = (Inr (), d1)" and "create_files io fs d1 = (Inr (), d2)"
  shows "d2 = written dir fs d \<and> (\<forall>p\<in>fst ` set fs. d p = None)"
proof -
  from create_dir_all_written [OF assms(1)] have d1: "d1 = written dir [] d" .
  from create_files_Inr [OF assms(2)] d1 show ?thesis
    by (auto simp: written_def fun_eq_iff split: option.splits if_splits)
qed

text \<open>A module generator that succeeds has written exactly the three files of the feature, with the
  contents of their templates, and made the directories that lead to them; nothing else changed, none of
  the files existed, and the report lists the three.\<close>
theorem generated_module_exact:
  assumes "generate_module io f cwd d = (Inr out, d')"
  shows "d' = written (feature_dir f cwd) (module_files f cwd) d \<and>
    (\<forall>p\<in>fst ` set (module_files f cwd). d p = None) \<and>
    out = created_files (map fst (module_files f cwd)) @ [CHR 0x0A, CHR 0x0A] @ module_instructions f"
proof -
  from assms obtain d1 d2 where dirs: "create_dir_all io (feature_dir f cwd) d = (Inr (), d1)"
    and fs: "create_files io (module_files f cwd) d1 = (Inr (), d')"
    and out: "out = created_files (map fst (module_files f cwd)) @ [CHR 0x0A, CHR 0x0A] @ module_instructions f"
    unfolding generate_module_def Let_def create_files_three
    by (auto simp del: create_files.simps
        simp: do_then_Inr module_files_def ensure_missing_def at_path_Inr yield_Inr split: if_splits)
  from created_then_written [OF dirs fs] out show ?thesis by simp
qed

lemma create_dir_all_no_faults:
  "\<not> list_ex (is_file_at d) (prefixes p) \<Longrightarrow> create_dir_all no_faults p d = (Inr (), written p [] d)"
  using create_dir_all_written [of no_faults p d] by (auto simp: create_dir_all_def no_faults_def)

lemma create_file_no_faults:
  "d p = None \<Longrightarrow> d (butlast p) = Some Directory \<Longrightarrow>
   create_file no_faults p s d = (Inr (), d(p \<mapsto> FileData s))"
  by (simp add: create_file_unfold exists_at_def at_path_def fs_write_def no_faults_def)

lemma create_files_no_faults:
  "distinct (map fst fs) \<Longrightarrow> \<forall>p\<in>fst ` set fs. d p = None \<and> p \<noteq> [] \<and> butlast p = dir \<Longrightarrow>
   d dir = Some Directory \<Longrightarrow> \<exists>d'. create_files no_faults fs d = (Inr (), d')"
proof (induction fs arbitrary: d)
  case Nil
  then show ?case by (simp add: yield_def)
next
  case (Cons f fs)
  obtain p s where f: "f = (p, s)" by (cases f)
  with Cons.prems have p: "d p = None" "butlast p = dir" "p \<noteq> dir" by (auto dest: arg_cong)
  have step: "create_file no_faults p s d = (Inr (), d(p \<mapsto> FileData s))"
    by (rule create_file_no_faults) (use p Cons.prems in simp_all)
  have "\<exists>d'. create_files no_faults fs (d(p \<mapsto> FileData s)) = (Inr (), d')"
    by (rule Cons.IH) (use Cons.prems p f in \<open>auto simp: image_iff\<close>)
  then show ?case by (auto simp: f do_then_def step)
qed

text \<open>Without faults the module generator succeeds exactly when the three files are missing and no
  file stands where a directory has to be.\<close>

lemma module_succeeds:
  assumes "\<not> list_ex (is_file_at d) (prefixes (feature_dir f cwd))"
    and "\<forall>p\<in>fst ` set (module_files f cwd). d p = None"
  shows "\<exists>out d'. generate_module no_faults f cwd d = (Inr out, d')"
proof -
  let ?d = "written (feature_dir f cwd) [] d"
  have "\<exists>d'. create_files no_faults (module_files f cwd) ?d = (Inr (), d')"
    by (rule create_files_no_faults [where dir = "feature_dir f cwd"])
       (use assms in \<open>auto simp: module_files_def written_def\<close>)
  then obtain d' where fs: "create_files no_faults (module_files f cwd) ?d = (Inr (), d')" by blast
  have "generate_module no_faults f cwd d =
      (Inr (created_files (map fst (module_files f cwd)) @ [CHR 0x0A, CHR 0x0A] @ module_instructions f), d')"
    unfolding generate_module_def Let_def create_files_three
    using assms(2) fs create_dir_all_no_faults [OF assms(1)]
    by (simp del: create_files.simps
        add: do_then_def module_files_def ensure_missing_def exists_at_def at_path_def yield_def)
  then show ?thesis by blast
qed

lemma module_needs:
  assumes "generate_module io f cwd d = (Inr out, d')"
  shows "\<not> list_ex (is_file_at d) (prefixes (feature_dir f cwd))"
  using assms unfolding generate_module_def Let_def
  by (auto simp: do_then_Inr at_path_Inr ensure_missing_def create_dir_all_def split: if_splits option.splits)

definition demo_feature :: feature_name where
  "demo_feature = \<lparr>fn_raw = ''users'', fn_module_name = ''users'', fn_route_path = ''users'', fn_type_prefix = ''Users''\<rparr>"

lemma demo_feature_dir: "feature_dir demo_feature [''app''] = [''app'', ''src'', ''users'']"
  by code_simp

theorem generated_module_exact_witness:
  "\<exists>out d'. generate_module no_faults demo_feature [''app''] demo_tree = (Inr out, d') \<and>
     d' [''app'', ''src'', ''users'', ''mod.rs''] = Some (FileData (render_feature_module demo_feature)) \<and>
     d' [''app'', ''src''] = Some Directory \<and> d' [''app'', ''Cargo.toml''] = Some (FileData ''[package]'')"
proof -
  have "\<exists>out d'. generate_module no_faults demo_feature [''app''] demo_tree = (Inr out, d')"
    by (rule module_succeeds) (simp_all add: demo_feature_dir module_files_def demo_tree_def is_file_at_def)
  then obtain out d' where g: "generate_module no_faults demo_feature [''app''] demo_tree = (Inr out, d')"
    by blast
  from generated_module_exact [OF g] have "d' = written [''app'', ''src'', ''users'']
      (module_files demo_feature [''app'']) demo_tree" by (simp add: demo_feature_dir)
  then show ?thesis using g by (auto simp: written_def module_files_def demo_feature_dir demo_tree_def)
qed

text \<open>A new application, in the same terms.\<close>

definition project_dir :: "path \<Rightarrow> str \<Rightarrow> path" where
  "project_dir cwd name = cwd @ [name, ''src'']"

lemma generated_project_exact:
  assumes "generate_new hk io name backend cwd d = (Inr out, d')"
  shows "validate_project_name name = Inr () \<and> d (cwd @ [name]) = None \<and>
    (\<exists>package_name. package_name_for_path hk (cwd @ [name]) name = Inr package_name \<and>
       d' = written (project_dir cwd name) (new_files hk (cwd @ [name]) package_name backend) d)"
proof -
  have s: "path_join t ''src'' = t @ [''src'']" for t by simp
  from assms have v: "validate_project_name name = Inr ()"
    by (auto simp: generate_new_def do_then_Inr lift_result_Inr)
  then have j: "path_join cwd name = cwd @ [name]" by (simp add: valid_name_plain)
  from assms obtain package_name d1 where missing: "d (cwd @ [name]) = None"
    and pk: "package_name_for_path hk (cwd @ [name]) name = Inr package_name"
    and dirs: "create_dir_all io (project_dir cwd name) d = (Inr (), d1)"
    and fs: "create_files io (new_files hk (cwd @ [name]) package_name backend) d1 = (Inr (), d')"
    unfolding generate_new_def j Let_def s
    by (auto simp: do_then_Inr lift_result_Inr ensure_missing_def exists_at_def at_path_Inr yield_Inr
        project_dir_def split: if_splits)
  from created_then_written [OF dirs fs] v missing pk show ?thesis by blast
qed

text \<open>
  The crate name of a new application is not checked: a keyword with a capital letter is accepted as a
  name, and the generated program imports its library under the keyword.
\<close>
lemma keyword_crate_is_generated:
  assumes "to_kebab_case hk ''Match'' = ''match''" and "to_snake_case hk ''match'' = ''match''"
    and "generate_new hk io ''Match'' backend cwd d = (Inr out, d')"
  shows "d' (cwd @ [''Match'', ''src'', ''main.rs'']) = Some (FileData (render_main_rs ''match'')) \<and>
    ''match'' \<in> set RUST_KEYWORDS"
proof -
  have t: "trim ''Match'' = ''Match''" by code_simp
  from generated_project_exact [OF assms(3)] obtain package_name where
    pk: "package_name_for_path hk (cwd @ [''Match'']) ''Match'' = Inr package_name"
    and d': "d' = written (project_dir cwd ''Match'') (new_files hk (cwd @ [''Match'']) package_name backend) d"
    by blast
  from pk t assms(1) have "package_name = ''match''" by (simp add: package_name_for_path_def)
  with d' assms(2) have "d' (cwd @ [''Match'', ''src'', ''main.rs'']) = Some (FileData (render_main_rs ''match''))"
    by (simp add: written_def new_files_def Let_def path_join_def path_step_def)
  then show ?thesis by (simp add: RUST_KEYWORDS_def)
qed

text \<open>A generator that finds one of its files in place changes nothing at all.\<close>

lemma refused_module_changes_nothing:
  assumes "\<exists>p\<in>fst ` set (module_files f cwd). exists_at d p"
  shows "\<exists>p. generate_module io f cwd d = (Inl (AlreadyExists p), d) \<and> exists_at d p"
  using assms unfolding generate_module_def Let_def
  by (auto simp: do_then_def ensure_missing_def module_files_def)

lemma refused_project_changes_nothing:
  assumes "exists_at d (cwd @ [name])"
  shows "snd (generate_new hk io name backend cwd d) = d \<and> \<not> is_ok (fst (generate_new hk io name backend cwd d))"
  using assms
  by (cases "validate_project_name name")
     (auto simp: generate_new_def do_then_def lift_result_def ensure_missing_def valid_name_plain Let_def)

text \<open>The other two generators write their file, and the module file only when it is missing.\<close>

definition feature_files :: "path \<Rightarrow> str \<Rightarrow> str \<Rightarrow> str \<Rightarrow> tree \<Rightarrow> (path \<times> str) list" where
  "feature_files dir name contents mod_contents d =
     (dir @ [name], contents) # (if exists_at d (dir @ [''mod.rs'']) then [] else [(dir @ [''mod.rs''], mod_contents)])"

lemma file_and_module_written:
  assumes made: "create_dir_all io dir d = (Inr (), d1)"
    and written1: "create_file io (dir @ [name]) contents d1 = (Inr (), d2)"
    and more: "create_if_missing io (dir @ [''mod.rs'']) mod_contents d2 = (Inr ps, d')"
    and name: "name \<noteq> ''mod.rs''"
  shows "d' = written dir (feature_files dir name contents mod_contents d) d \<and>
    (dir @ [name]) # ps = map fst (feature_files dir name contents mod_contents d)"
proof -
  from create_dir_all_written [OF made] have d1: "d1 = written dir [] d" .
  from create_file_Inr [OF written1] have d2: "d2 = d1(dir @ [name] \<mapsto> FileData contents)" by simp
  from d1 d2 name have e: "exists_at d2 (dir @ [''mod.rs'']) = exists_at d (dir @ [''mod.rs''])"
    by (auto simp: exists_at_def written_def)
  show ?thesis
  proof (cases "exists_at d (dir @ [''mod.rs''])")
    case True
    with e more have "d' = d2" "ps = []" by (simp_all add: create_if_missing_def yield_def)
    with True d1 d2 show ?thesis by (auto simp: feature_files_def written_def fun_eq_iff)
  next
    case False
    with e more have 1: "create_file io (dir @ [''mod.rs'']) mod_contents d2 = (Inr (), d')" "ps = [dir @ [''mod.rs'']]"
      by (auto simp: create_if_missing_def do_then_Inr yield_def)
    from create_file_Inr [OF 1(1)] have "d' = d2(dir @ [''mod.rs''] \<mapsto> FileData mod_contents)" by simp
    with False 1(2) d1 d2 name show ?thesis by (auto simp: feature_files_def written_def fun_eq_iff)
  qed
qed

lemma generated_service_exact:
  assumes "generate_service io f cwd d = (Inr out, d')"
  shows "d' = written (feature_dir f cwd)
           (feature_files (feature_dir f cwd) ''service.rs'' (render_service f) (render_feature_mod f ServiceOnly) d) d"
proof -
  from assms obtain d1 d2 ps where "create_dir_all io (feature_dir f cwd) d = (Inr (), d1)"
    and "create_file io (feature_dir f cwd @ [''service.rs'']) (render_service f) d1 = (Inr (), d2)"
    and "create_if_missing io (feature_dir f cwd @ [''mod.rs'']) (render_feature_mod f ServiceOnly) d2 = (Inr ps, d')"
    unfolding generate_service_def Let_def
    by (auto simp: do_then_Inr ensure_missing_def at_path_Inr yield_Inr split: if_splits)
  from file_and_module_written [OF this] show ?thesis by simp
qed

lemma generated_controller_exact:
  assumes "generate_controller io f cwd d = (Inr out, d')"
  defines "has_service \<equiv> exists_at d (feature_dir f cwd @ [''service.rs''])"
  shows "d' = written (feature_dir f cwd)
           (feature_files (feature_dir f cwd) ''controller.rs'' (render_controller f has_service)
              (render_feature_mod f (if has_service then ControllerWithService else ControllerOnly)) d) d"
proof -
  from assms(1) obtain d1 d2 ps where "create_dir_all io (feature_dir f cwd) d = (Inr (), d1)"
    and "create_file io (feature_dir f cwd @ [''controller.rs'']) (render_controller f has_service) d1 = (Inr (), d2)"
    and "create_if_missing io (feature_dir f cwd @ [''mod.rs''])
           (render_feature_mod f (if has_service then ControllerWithService else ControllerOnly)) d2 = (Inr ps, d')"
    unfolding generate_controller_steps controller_steps_def Let_def has_service_def
    by (auto simp: do_then_Inr ensure_missing_def at_path_Inr yield_Inr simp del: if_split split: if_splits)
  from file_and_module_written [OF this] show ?thesis by simp
qed

end
