(* ===== verification/ManifestUpdate.thy ===== *)
theory ManifestUpdate
  imports CommandLine
begin

text \<open>
  \<open>caelix update\<close>: the version of the dependency in \<open>Cargo.toml\<close> is read, replaced and written back, and
  cargo is run. Parsing and printing of TOML (\<open>toml_edit\<close>), the answer of crates.io and the cargo
  commands are parameters. \<open>None\<close> as a result is a panic: indexing an item of \<open>toml_edit\<close> with a key it
  has not panics.
\<close>

section \<open>TOML items\<close>

text \<open>What surrounds a value (blanks and comments), and items as far as the code tells them apart.\<close>

type_synonym decor = "str \<times> str"

datatype toml =
    TString decor str
  | TInlineTable "(str \<times> toml) list"
  | TTable "(str \<times> toml) list"
  | TOther str

record toml_edit =
  te_parse :: "str \<Rightarrow> str + toml"
  te_print :: "toml \<Rightarrow> str"

fun toml_get :: "str \<Rightarrow> toml \<Rightarrow> toml option" where
  "toml_get key (TInlineTable es) = map_of es key"
| "toml_get key (TTable es) = map_of es key"
| "toml_get key _ = None"

fun toml_at :: "str list \<Rightarrow> toml \<Rightarrow> toml option" where
  "toml_at [] t = Some t"
| "toml_at (k # ks) t = (case toml_get k t of None \<Rightarrow> None | Some sub \<Rightarrow> toml_at ks sub)"

text \<open>Assigning through a mutable reference to the item at a path.\<close>

fun toml_set :: "str \<Rightarrow> toml \<Rightarrow> toml \<Rightarrow> toml" where
  "toml_set key v (TInlineTable es) = TInlineTable (AList.update key v es)"
| "toml_set key v (TTable es) = TTable (AList.update key v es)"
| "toml_set key v t = t"

fun toml_put :: "str list \<Rightarrow> toml \<Rightarrow> toml \<Rightarrow> toml" where
  "toml_put [] v t = v"
| "toml_put (k # ks) v t =
     (case toml_get k t of None \<Rightarrow> t | Some sub \<Rightarrow> toml_set k (toml_put ks v sub) t)"

section \<open>The dependency\<close>

definition dependency_path :: "toml \<Rightarrow> str list" where
  "dependency_path doc =
     (if toml_at [''dependencies'', ''caelix''] doc \<noteq> None then [''dependencies'', ''caelix'']
      else [''workspace'', ''dependencies'', ''caelix''])"

definition find_caelix_dependency :: "toml \<Rightarrow> toml option" where
  "find_caelix_dependency doc =
     (case toml_at [''dependencies'', ''caelix''] doc of
        Some dependency \<Rightarrow> Some dependency
      | None \<Rightarrow> toml_at [''workspace'', ''dependencies'', ''caelix''] doc)"

text \<open>The mutable lookup: the item together with the place it is written back to.\<close>

definition find_caelix_dependency_mut :: "toml \<Rightarrow> (str list \<times> toml) option" where
  "find_caelix_dependency_mut doc =
     (case toml_at (dependency_path doc) doc of
        None \<Rightarrow> None | Some dependency \<Rightarrow> Some (dependency_path doc, dependency))"

definition read_caelix_version :: "toml \<Rightarrow> (cli_error + str) option" where
  "read_caelix_version doc =
     (case find_caelix_dependency doc of
        None \<Rightarrow> Some (Inl (MissingDependency ''caelix''))
      | Some (TString _ version) \<Rightarrow> Some (Inr version)
      | Some (TInlineTable es) \<Rightarrow>
          Some (case map_of es ''version'' of
                  Some (TString _ version) \<Rightarrow> Inr version
                | _ \<Rightarrow> Inl (UnsupportedDependencyFormat ''caelix''))
      | Some (TTable es) \<Rightarrow>
          (case map_of es ''version'' of
             None \<Rightarrow> None
           | Some (TString _ version) \<Rightarrow> Some (Inr version)
           | Some _ \<Rightarrow> Some (Inl (UnsupportedDependencyFormat ''caelix'')))
      | Some (TOther _) \<Rightarrow> None)"

fun replace_string_value_preserving_decor :: "toml \<Rightarrow> str \<Rightarrow> cli_error + toml" where
  "replace_string_value_preserving_decor (TString decor _) v = Inr (TString decor v)"
| "replace_string_value_preserving_decor _ v = Inl (UnsupportedDependencyFormat ''caelix'')"

text \<open>A value made from a string has no decoration of its own.\<close>

definition string_value :: "str \<Rightarrow> toml" where
  "string_value v = TString ([], []) v"

definition set_version :: "str \<Rightarrow> toml \<Rightarrow> (cli_error + toml) option" where
  "set_version latest dependency =
     (case dependency of
        TString _ _ \<Rightarrow> Some (replace_string_value_preserving_decor dependency latest)
      | TInlineTable es \<Rightarrow>
          (case map_of es ''version'' of
             Some _ \<Rightarrow> Some (Inr (TInlineTable (AList.update ''version'' (string_value latest) es)))
           | None \<Rightarrow> None)
      | TTable es \<Rightarrow>
          (case map_of es ''version'' of
             None \<Rightarrow> None
           | Some (TString decor old) \<Rightarrow>
               Some (map_sum id (\<lambda>v. TTable (AList.update ''version'' v es))
                       (replace_string_value_preserving_decor (TString decor old) latest))
           | Some _ \<Rightarrow> Some (Inl (UnsupportedDependencyFormat ''caelix'')))
      | TOther _ \<Rightarrow> None)"

definition write_caelix_version :: "toml \<Rightarrow> str \<Rightarrow> (cli_error + toml) option" where
  "write_caelix_version doc latest =
     (case find_caelix_dependency_mut doc of
        None \<Rightarrow> Some (Inl (MissingDependency ''caelix''))
      | Some (place, dependency) \<Rightarrow>
          (case set_version latest dependency of
             None \<Rightarrow> None
           | Some (Inl e) \<Rightarrow> Some (Inl e)
           | Some (Inr dependency') \<Rightarrow> Some (Inr (toml_put place dependency' doc))))"

section \<open>The manifest\<close>

datatype update_outcome = AlreadyLatest str | Updated str str

definition update_caelix_version ::
    "toml_edit \<Rightarrow> fs_io \<Rightarrow> path \<Rightarrow> str \<Rightarrow> tree \<Rightarrow> (cli_error + update_outcome) option \<times> tree" where
  "update_caelix_version te io p latest d =
     (case read_to_string io p d of
        Inl e \<Rightarrow> (Some (Inl (IoError (display p) e)), d)
      | Inr content \<Rightarrow>
          (case te_parse te content of
             Inl e \<Rightarrow> (Some (Inl (TomlParse p e)), d)
           | Inr doc \<Rightarrow>
               (case read_caelix_version doc of
                  None \<Rightarrow> (None, d)
                | Some (Inl e) \<Rightarrow> (Some (Inl e), d)
                | Some (Inr current) \<Rightarrow>
                    if current = latest then (Some (Inr (AlreadyLatest current)), d)
                    else
                      (case write_caelix_version doc latest of
                         None \<Rightarrow> (None, d)
                       | Some (Inl e) \<Rightarrow> (Some (Inl e), d)
                       | Some (Inr doc') \<Rightarrow>
                           (case fs_write io p (te_print te doc') d of
                              (Inl e, d') \<Rightarrow> (Some (Inl (IoError (display p) e)), d')
                            | (Inr _, d') \<Rightarrow> (Some (Inr (Updated current latest)), d'))))))"

section \<open>Cargo and crates.io\<close>

datatype exit_status = SpawnFailed str | Exited int | Signalled

fun status_code :: "exit_status \<Rightarrow> int option" where
  "status_code (Exited c) = Some c"
| "status_code _ = None"

definition status_success :: "exit_status \<Rightarrow> bool" where
  "status_success s \<longleftrightarrow> status_code s = Some 0"

datatype crates_response = RequestFailed str | CrateInfo "str option"

fun fetch_latest_caelix_version :: "crates_response \<Rightarrow> cli_error + str" where
  "fetch_latest_caelix_version (RequestFailed e) = Inl (CratesIo e)"
| "fetch_latest_caelix_version (CrateInfo None) = Inl CratesIoResponse"
| "fetch_latest_caelix_version (CrateInfo (Some v)) = Inr v"

type_synonym spawn = "str list \<Rightarrow> exit_status"

definition cargo_update_command :: "str list" where
  "cargo_update_command = [''cargo'', ''update'', ''-p'', ''caelix'']"

definition cargo_self_update_command :: "str list" where
  "cargo_self_update_command = [''cargo'', ''install'', ''--force'', ''caelix-cli'']"

definition run_cargo_update :: "spawn \<Rightarrow> path \<Rightarrow> cli_error + unit" where
  "run_cargo_update run cwd =
     (case run cargo_update_command of
        SpawnFailed e \<Rightarrow> Inl (IoError (display (path_join cwd ''Cargo.toml'')) e)
      | status \<Rightarrow> if status_success status then Inr () else Inl (CargoUpdateFailed (status_code status)))"

definition run_cargo_self_update :: "spawn \<Rightarrow> cli_error + unit" where
  "run_cargo_self_update run =
     (case run cargo_self_update_command of
        SpawnFailed e \<Rightarrow> Inl (IoError ''cargo'' e)
      | status \<Rightarrow> if status_success status then Inr () else Inl (CargoSelfUpdateFailed (status_code status)))"

definition already_latest_text :: "str \<Rightarrow> str" where
  "already_latest_text current =
     ''Already on the latest version ('' @ current @ '').'' @ [CHR 0x0A] @
     ''Updated the installed Caelix CLI.'' @ [CHR 0x0A]"

definition updated_text :: "str \<Rightarrow> str \<Rightarrow> str" where
  "updated_text previous new =
     ''caelix '' @ previous @ '' -> '' @ new @ [CHR 0x0A] @
     ''Updated Cargo.toml. Ran `cargo update -p caelix`.'' @ [CHR 0x0A] @
     ''Updated the installed Caelix CLI.'' @ [CHR 0x0A]"

text \<open>The commands that were started are recorded in the order they were.\<close>

definition update_caelix_dependency ::
    "toml_edit \<Rightarrow> fs_io \<Rightarrow> spawn \<Rightarrow> crates_response \<Rightarrow> path \<Rightarrow> tree \<Rightarrow> (cli_error + str) option \<times> tree \<times> str list list" where
  "update_caelix_dependency te io run response cwd d =
     (case fetch_latest_caelix_version response of
        Inl e \<Rightarrow> (Some (Inl e), d, [])
      | Inr latest \<Rightarrow>
          (case update_caelix_version te io (path_join cwd ''Cargo.toml'') latest d of
             (None, d') \<Rightarrow> (None, d', [])
           | (Some (Inl e), d') \<Rightarrow> (Some (Inl e), d', [])
           | (Some (Inr (AlreadyLatest current)), d') \<Rightarrow>
               (Some (bind_result (run_cargo_self_update run) (\<lambda>_.
                  Inr (already_latest_text current))), d', [cargo_self_update_command])
           | (Some (Inr (Updated previous new)), d') \<Rightarrow>
               (Some (bind_result (run_cargo_update run cwd) (\<lambda>_.
                  bind_result (run_cargo_self_update run) (\<lambda>_.
                  Inr (updated_text previous new)))), d',
                cargo_update_command # (if is_ok (run_cargo_update run cwd) then [cargo_self_update_command] else []))))"

section \<open>Laws\<close>

lemma map_of_alist_update: "map_of (AList.update k v es) q = (if q = k then Some v else map_of es q)"
  by (simp add: update_conv)

lemma toml_get_set:
  "toml_get k t \<noteq> None \<Longrightarrow> toml_get q (toml_set k v t) = (if q = k then Some v else toml_get q t)"
  by (cases t) (auto simp: map_of_alist_update)

text \<open>A value put at a path is found there, and paths that leave it before its end are unaffected.\<close>

lemma toml_at_put_same: "toml_at p t \<noteq> None \<Longrightarrow> toml_at (p @ q) (toml_put p v t) = toml_at q v"
  by (induction p arbitrary: t) (auto simp: toml_get_set split: option.splits)

lemma toml_at_put_other:
  "\<not> prefix p q \<Longrightarrow> \<not> prefix q p \<Longrightarrow> toml_at q (toml_put p v t) = toml_at q t"
proof (induction p arbitrary: q t)
  case Nil
  then show ?case by simp
next
  case (Cons k ks)
  then obtain k' ks' where q: "q = k' # ks'" by (cases q) auto
  show ?case
  proof (cases "toml_get k t")
    case None
    then show ?thesis by simp
  next
    case (Some sub)
    with Cons q show ?thesis by (auto simp: toml_get_set split: option.splits)
  qed
qed

lemma find_dependency_path: "find_caelix_dependency doc = toml_at (dependency_path doc) doc"
  by (auto simp: find_caelix_dependency_def dependency_path_def simp del: toml_at.simps split: option.splits)

lemma dependency_path_put:
  assumes "toml_at (dependency_path doc) doc \<noteq> None"
  shows "dependency_path (toml_put (dependency_path doc) v doc) = dependency_path doc"
proof (cases "toml_at [''dependencies'', ''caelix''] doc")
  case None
  then have p: "dependency_path doc = [''workspace'', ''dependencies'', ''caelix'']"
    by (simp add: dependency_path_def)
  have "toml_at [''dependencies'', ''caelix''] (toml_put (dependency_path doc) v doc) =
      toml_at [''dependencies'', ''caelix''] doc"
    unfolding p by (rule toml_at_put_other) simp_all
  with None p show ?thesis by (simp add: dependency_path_def del: toml_at.simps)
next
  case (Some x)
  then have p: "dependency_path doc = [''dependencies'', ''caelix'']" by (simp add: dependency_path_def)
  have "toml_at [''dependencies'', ''caelix''] (toml_put (dependency_path doc) v doc) = Some v"
    using toml_at_put_same [of "[''dependencies'', ''caelix'']" doc "[]" v] Some unfolding p by simp
  with p show ?thesis by (simp add: dependency_path_def del: toml_at.simps)
qed

text \<open>Where the version stands inside the dependency.\<close>

fun version_path :: "toml \<Rightarrow> str list" where
  "version_path (TString _ _) = []"
| "version_path _ = [''version'']"

lemma set_version_Inr:
  assumes "set_version latest dep = Some (Inr dep')"
  shows "\<exists>decor. toml_at (version_path dep) dep' = Some (TString decor latest)"
    and "version_path dep' = version_path dep"
    and "\<not> prefix (version_path dep) q \<Longrightarrow> \<not> prefix q (version_path dep) \<Longrightarrow> toml_at q dep' = toml_at q dep"
proof -
  have es: "toml_at q (T (AList.update ''version'' v es)) = toml_at q (T es)"
    if "\<not> prefix [''version''] q" "\<not> prefix q [''version'']" "T = TInlineTable \<or> T = TTable" for v es T
    using that by (cases q) (auto simp: map_of_alist_update)
  show "\<exists>decor. toml_at (version_path dep) dep' = Some (TString decor latest)"
    and "version_path dep' = version_path dep"
    and "\<not> prefix (version_path dep) q \<Longrightarrow> \<not> prefix q (version_path dep) \<Longrightarrow> toml_at q dep' = toml_at q dep"
    using assms es
    by (auto simp: set_version_def map_of_alist_update string_value_def split: toml.splits option.splits)
qed

lemma read_version_at:
  "read_caelix_version doc = Some (Inr v) \<longleftrightarrow>
     (\<exists>dep decor. toml_at (dependency_path doc) doc = Some dep \<and>
        toml_at (version_path dep) dep = Some (TString decor v))"
  unfolding read_caelix_version_def find_dependency_path
  by (auto split: option.splits toml.splits)

lemma write_version_Inr:
  assumes "write_caelix_version doc latest = Some (Inr doc')"
  shows "\<exists>dep dep'. toml_at (dependency_path doc) doc = Some dep \<and> set_version latest dep = Some (Inr dep') \<and>
    doc' = toml_put (dependency_path doc) dep' doc"
  using assms
  by (auto simp: write_caelix_version_def find_caelix_dependency_mut_def split: option.splits sum.splits)

lemma written_version_is_read:
  assumes "write_caelix_version doc latest = Some (Inr doc')"
  shows "read_caelix_version doc' = Some (Inr latest)"
proof -
  from write_version_Inr [OF assms] obtain dep dep' where dep: "toml_at (dependency_path doc) doc = Some dep"
    and set: "set_version latest dep = Some (Inr dep')" and doc': "doc' = toml_put (dependency_path doc) dep' doc"
    by blast
  have p: "dependency_path doc' = dependency_path doc" unfolding doc' by (rule dependency_path_put) (simp add: dep)
  have "toml_at (dependency_path doc') doc' = Some dep'"
    using toml_at_put_same [of "dependency_path doc" doc "[]" dep'] dep unfolding p by (simp add: doc')
  with set_version_Inr(1,2) [OF set] show ?thesis by (auto simp: read_version_at)
qed

lemma prefix_append_cases:
  assumes "\<not> prefix (p @ v) q" and "\<not> prefix q (p @ v)"
  shows "(\<not> prefix p q \<and> \<not> prefix q p) \<or> (\<exists>r. q = p @ r \<and> \<not> prefix v r \<and> \<not> prefix r v)"
proof (cases "prefix p q")
  case True
  then obtain r where "q = p @ r" by (auto simp: prefix_def)
  with assms show ?thesis by simp
next
  case False
  with assms(2) show ?thesis by (auto simp: prefix_append)
qed

lemma written_version_only:
  assumes "write_caelix_version doc latest = Some (Inr doc')" and "toml_at (dependency_path doc) doc = Some dep"
    and "\<not> prefix (dependency_path doc @ version_path dep) q" and "\<not> prefix q (dependency_path doc @ version_path dep)"
  shows "toml_at q doc' = toml_at q doc"
proof -
  from write_version_Inr [OF assms(1)] assms(2) obtain dep' where
    set: "set_version latest dep = Some (Inr dep')" and doc': "doc' = toml_put (dependency_path doc) dep' doc"
    by auto
  from prefix_append_cases [OF assms(3,4)] show ?thesis
  proof (elim disjE exE conjE)
    assume "\<not> prefix (dependency_path doc) q" "\<not> prefix q (dependency_path doc)"
    then show ?thesis unfolding doc' by (rule toml_at_put_other)
  next
    fix r
    assume q: "q = dependency_path doc @ r" and r: "\<not> prefix (version_path dep) r" "\<not> prefix r (version_path dep)"
    have at: "toml_at (p @ r) t = (case toml_at p t of None \<Rightarrow> None | Some sub \<Rightarrow> toml_at r sub)" for p t
      by (induction p arbitrary: t) (auto split: option.splits)
    from assms(2) have "toml_at q doc' = toml_at r dep'" unfolding q doc' by (simp add: toml_at_put_same)
    also have "\<dots> = toml_at r dep" by (rule set_version_Inr(3) [OF set r])
    also have "\<dots> = toml_at q doc" by (simp add: q at assms(2))
    finally show ?thesis .
  qed
qed

lemma update_version_Updated:
  assumes "update_caelix_version te io p latest d = (Some (Inr (Updated prev new)), d')"
  shows "\<exists>content doc doc'. io (ReadFrom p) = None \<and> d p = Some (FileData content) \<and> te_parse te content = Inr doc \<and>
     read_caelix_version doc = Some (Inr prev) \<and> prev \<noteq> latest \<and> new = latest \<and>
     write_caelix_version doc latest = Some (Inr doc') \<and> d' = d(p \<mapsto> FileData (te_print te doc'))"
  using assms
  by (auto simp: update_caelix_version_def read_to_string_def fs_write_Inr
      split: sum.splits option.splits fault.splits node.splits if_splits prod.splits)

text \<open>An update changes the version and nothing else: only the manifest is written, every item of it that
  does not lie on the way to the version is as before, and a second update with the same release finds
  the manifest up to date, provided what was printed parses to the document it was printed from.\<close>
theorem update_round_trip:
  assumes "update_caelix_version te io p latest d = (Some (Inr (Updated prev new)), d')"
    and "d p = Some (FileData content)" and "te_parse te content = Inr doc"
    and "write_caelix_version doc latest = Some (Inr doc')" and "te_parse te (te_print te doc') = Inr doc'"
    and "toml_at (dependency_path doc) doc = Some dep"
  shows "new = latest \<and> prev \<noteq> latest \<and> d' = d(p \<mapsto> FileData (te_print te doc')) \<and>
    (\<forall>q. \<not> prefix (dependency_path doc @ version_path dep) q \<and>
         \<not> prefix q (dependency_path doc @ version_path dep) \<longrightarrow> toml_at q doc' = toml_at q doc) \<and>
    update_caelix_version te io p latest d' = (Some (Inr (AlreadyLatest latest)), d')"
proof -
  from update_version_Updated [OF assms(1)] assms(2-4) have io: "io (ReadFrom p) = None"
    and prev: "prev \<noteq> latest" and new: "new = latest" and d': "d' = d(p \<mapsto> FileData (te_print te doc'))"
    by auto
  have "update_caelix_version te io p latest d' = (Some (Inr (AlreadyLatest latest)), d')"
    by (simp add: update_caelix_version_def read_to_string_def io d' assms(5) written_version_is_read [OF assms(4)])
  with d' prev new written_version_only [OF assms(4,6)] show ?thesis by blast
qed

definition demo_manifest :: "str \<Rightarrow> toml" where
  "demo_manifest v = TTable
     [(''package'', TTable [(''name'', TString ('' '', '''') ''app'')]),
      (''dependencies'', TTable
         [(''serde'', TString ('' '', '''') ''1''),
          (''caelix'', TInlineTable [(''version'', string_value v), (''features'', TOther ''[axum]'')])])]"

definition demo_edit :: toml_edit where
  "demo_edit =
     \<lparr>te_parse = (\<lambda>s. Inr (demo_manifest s)),
      te_print = (\<lambda>t. case toml_at [''dependencies'', ''caelix'', ''version''] t of Some (TString _ v) \<Rightarrow> v | _ \<Rightarrow> [])\<rparr>"

definition demo_disk :: "str \<Rightarrow> tree" where
  "demo_disk v = [[] \<mapsto> Directory, [''Cargo.toml''] \<mapsto> FileData v]"

theorem update_round_trip_witness:
  "update_caelix_version demo_edit (\<lambda>_. None) [''Cargo.toml''] ''2'' ((demo_disk ''1'')([''Cargo.toml''] \<mapsto> FileData ''2'')) =
     (Some (Inr (AlreadyLatest ''2'')), (demo_disk ''1'')([''Cargo.toml''] \<mapsto> FileData ''2''))"
proof -
  have w: "write_caelix_version (demo_manifest ''1'') ''2'' = Some (Inr (demo_manifest ''2''))"
    by code_simp
  have r: "read_caelix_version (demo_manifest ''1'') = Some (Inr ''1'')" by code_simp
  have p: "te_print demo_edit (demo_manifest ''2'') = ''2''" by code_simp
  have upd: "update_caelix_version demo_edit (\<lambda>_. None) [''Cargo.toml''] ''2'' (demo_disk ''1'') =
      (Some (Inr (Updated ''1'' ''2'')), (demo_disk ''1'')([''Cargo.toml''] \<mapsto> FileData ''2''))"
    unfolding update_caelix_version_def
    using w r p by (simp add: read_to_string_def demo_disk_def demo_edit_def fs_write_def)
  show ?thesis
    using update_round_trip [OF upd, of "''1''" "demo_manifest ''1''" "demo_manifest ''2''"] w p
    by (auto simp: demo_disk_def demo_edit_def demo_manifest_def dependency_path_def)
qed

text \<open>A dependency given as a table of its own that has no version, such as a path dependency, makes
  the command panic instead of reporting an unsupported format.\<close>

lemma table_without_version_panics:
  assumes "te_parse te content = Inr doc" and "io (ReadFrom p) = None" and "d p = Some (FileData content)"
    and "find_caelix_dependency doc = Some (TTable es)" and "map_of es ''version'' = None"
  shows "update_caelix_version te io p latest d = (None, d)"
  using assms by (simp add: update_caelix_version_def read_to_string_def read_caelix_version_def)

text \<open>Releases are compared as texts: any release other than the current one replaces it, an older one
  included.\<close>

lemma older_release_replaces_newer:
  "fst (update_caelix_version demo_edit (\<lambda>_. None) [''Cargo.toml''] ''0.9.0'' (demo_disk ''1.0.0'')) =
     Some (Inr (Updated ''1.0.0'' ''0.9.0''))"
  by code_simp

text \<open>Cargo is only run after the manifest was dealt with: \<open>cargo update\<close> when it was changed, and the
  command line tool is installed again last, unless the former failed.\<close>

lemma update_runs_cargo_in_order:
  assumes "update_caelix_dependency te io run response cwd d = (r, d', log)"
  shows "log \<in> {[], [cargo_self_update_command], [cargo_update_command],
                 [cargo_update_command, cargo_self_update_command]}"
    and "r = Some (Inr out) \<Longrightarrow>
      log \<noteq> [] \<and> last log = cargo_self_update_command \<and> (\<forall>command\<in>set log. status_success (run command))"
proof -
  show "log \<in> {[], [cargo_self_update_command], [cargo_update_command],
                 [cargo_update_command, cargo_self_update_command]}"
    using assms
    by (auto simp: update_caelix_dependency_def
        split: sum.splits option.splits prod.splits update_outcome.splits if_splits)
  have ok: "is_ok (run_cargo_update run cwd) \<longleftrightarrow> status_success (run cargo_update_command)"
    "is_ok (run_cargo_self_update run) \<longleftrightarrow> status_success (run cargo_self_update_command)"
    by (auto simp: run_cargo_update_def run_cargo_self_update_def status_success_def split: exit_status.splits)
  have okE: "is_ok x" if "x = Inr y" for x :: "cli_error + unit" and y using that by simp
  show "log \<noteq> [] \<and> last log = cargo_self_update_command \<and> (\<forall>command\<in>set log. status_success (run command))"
    if "r = Some (Inr out)"
    using assms that ok okE
    by (auto simp: update_caelix_dependency_def bind_result_Inr
        split: sum.splits option.splits prod.splits update_outcome.splits if_splits)
qed

end
