(* ===== verification/WatchLoop.thy ===== *)
theory WatchLoop
  imports GeneratorLaws ManifestUpdate
begin

text \<open>
  Running an application from the command line: \<open>run\<close>, \<open>run --watch\<close> and \<open>doctor\<close>, and the dispatch
  of the commands. The watch loop is a state machine whose inputs are what the file watcher, the clock,
  the signal handler and the child process do; each input carries the failures of the calls it makes.
\<close>

section \<open>Cargo commands\<close>

definition cargo_run_command :: "str list \<Rightarrow> str list" where
  "cargo_run_command app_args = [''cargo'', ''run''] @ (if app_args = [] then [] else ''--'' # app_args)"

definition cargo_doctor_command :: "str list" where
  "cargo_doctor_command = [''cargo'', ''run'', ''--'', ''--doctor'']"

definition format_cargo_run_command :: "str list \<Rightarrow> str" where
  "format_cargo_run_command app_args =
     (let parts = [''cargo'', ''run''] @ (if app_args = [] then [] else ''--'' # app_args)
      in join '' '' parts @ [CHR 0x0A])"

definition format_cargo_doctor_command :: str where
  "format_cargo_doctor_command = ''cargo run -- --doctor'' @ [CHR 0x0A]"

definition clear_screen :: "str option \<Rightarrow> cli_error + unit" where
  "clear_screen failure = (case failure of Some e \<Rightarrow> Inl (IoError ''<stdout>'' e) | None \<Rightarrow> Inr ())"

definition exit_or_one :: "exit_status \<Rightarrow> int" where
  "exit_or_one s = (case status_code s of Some c \<Rightarrow> c | None \<Rightarrow> 1)"

definition run_application_once :: "spawn \<Rightarrow> str option \<Rightarrow> path \<Rightarrow> str list \<Rightarrow> cli_error + int" where
  "run_application_once run screen cwd app_args =
     bind_result (clear_screen screen) (\<lambda>_.
       (case run (cargo_run_command app_args) of
          SpawnFailed e \<Rightarrow> Inl (IoError (display cwd) e)
        | status \<Rightarrow> Inr (exit_or_one status)))"

definition run_doctor :: "spawn \<Rightarrow> path \<Rightarrow> tree \<Rightarrow> cli_error + int" where
  "run_doctor run cwd d =
     bind_result (fst (ensure_cargo_manifest cwd d)) (\<lambda>_.
       (case run cargo_doctor_command of
          SpawnFailed e \<Rightarrow> Inl (IoError (display cwd) e)
        | status \<Rightarrow> if \<not> status_success status then Inr (exit_or_one status) else Inr 0))"

section \<open>The watched process\<close>

datatype watch_phase = Watching | WatchFailed cli_error | ExitedWith int

text \<open>
  The handle of the running process, the processes that are alive, how many were started, and the
  number of owners of the handle: the loop and the signal handler.
\<close>

record watch =
  wt_child :: "nat option"
  wt_live :: "nat list"
  wt_started :: nat
  wt_owners :: nat
  wt_phase :: watch_phase

record start_faults =
  sf_screen :: "str option"
  sf_spawn :: "str option"

definition process_new :: watch where
  "process_new = \<lparr>wt_child = None, wt_live = [], wt_started = 0, wt_owners = 1, wt_phase = Watching\<rparr>"

text \<open>Killing waits for the process, so it is gone afterwards.\<close>

definition process_kill :: "watch \<Rightarrow> watch" where
  "process_kill w =
     (case wt_child w of
        None \<Rightarrow> w
      | Some child \<Rightarrow> w\<lparr>wt_child := None, wt_live := removeAll child (wt_live w)\<rparr>)"

definition process_start :: "path \<Rightarrow> start_faults \<Rightarrow> watch \<Rightarrow> (cli_error + unit) \<times> watch" where
  "process_start cwd sf w =
     (let w1 = process_kill w
      in (case clear_screen (sf_screen sf) of
            Inl e \<Rightarrow> (Inl e, w1)
          | Inr _ \<Rightarrow>
              (case sf_spawn sf of
                 Some e \<Rightarrow> (Inl (IoError (display cwd) e), w1)
               | None \<Rightarrow>
                   (Inr (), w1\<lparr>wt_child := Some (wt_started w1), wt_live := wt_started w1 # wt_live w1,
                              wt_started := wt_started w1 + 1\<rparr>))))"

definition process_reap_finished :: "bool \<Rightarrow> watch \<Rightarrow> watch" where
  "process_reap_finished wait_fails w =
     (let finished = (case wt_child w of None \<Rightarrow> False
                      | Some child \<Rightarrow> \<not> wait_fails \<and> child \<notin> set (wt_live w))
      in if finished then w\<lparr>wt_child := None\<rparr> else w)"

text \<open>Dropping an owner: the last one kills the process.\<close>

definition process_drop :: "watch \<Rightarrow> watch" where
  "process_drop w =
     (let w1 = w\<lparr>wt_owners := wt_owners w - 1\<rparr>
      in if wt_owners w1 = 0 then process_kill w1 else w1)"

definition watch_return :: "cli_error \<Rightarrow> watch \<Rightarrow> watch" where
  "watch_return e w = process_drop (w\<lparr>wt_phase := WatchFailed e\<rparr>)"

section \<open>The watch loop\<close>

record watch_setup =
  su_signal :: "str option"
  su_start :: start_faults
  su_debouncer :: "str option"
  su_src :: "str option"
  su_manifest :: "str option"

definition start_failure :: "path \<Rightarrow> start_faults \<Rightarrow> (watch \<Rightarrow> watch) \<Rightarrow> watch \<Rightarrow> watch" where
  "start_failure cwd sf continue w =
     (case process_start cwd sf w of (Inl e, w1) \<Rightarrow> watch_return e w1 | (Inr _, w1) \<Rightarrow> continue w1)"

text \<open>Set-up: the signal handler owns the process too; then the application is started, and the watcher
  and the watched paths, as far as they exist, are registered.\<close>

definition watch_begin :: "path \<Rightarrow> tree \<Rightarrow> watch_setup \<Rightarrow> watch" where
  "watch_begin cwd d su =
     (let w0 = process_new\<lparr>wt_owners := 2\<rparr>
      in (case su_signal su of
            Some e \<Rightarrow> watch_return (SignalHandler e) (process_drop w0)
          | None \<Rightarrow>
              start_failure cwd (su_start su) (\<lambda>w1.
                (case su_debouncer su of
                   Some e \<Rightarrow> watch_return (Watcher (''failed to start file watcher: '' @ e)) w1
                 | None \<Rightarrow>
                     (let src = path_join cwd ''src''; cargo_toml = path_join cwd ''Cargo.toml''
                      in if exists_at d src \<and> su_src su \<noteq> None
                         then watch_return (Watcher (''failed to watch '' @ display src @ '': '' @ the (su_src su))) w1
                         else if exists_at d cargo_toml \<and> su_manifest su \<noteq> None
                         then watch_return (Watcher (''failed to watch '' @ display cargo_toml @ '': '' @
                                the (su_manifest su))) w1
                         else w1))) w0))"

text \<open>
  What happens while the loop waits: debounced changes, a failure of the watcher, the timeout of the
  wait, the end of the watcher, a signal, and the application ending on its own.
\<close>

datatype watch_input =
    Changes nat start_faults
  | WatchErrors str
  | Tick bool
  | WatcherGone
  | Interrupted
  | ApplicationEnds

fun watch_step :: "path \<Rightarrow> watch_input \<Rightarrow> watch \<Rightarrow> watch" where
  "watch_step cwd input w =
     (if wt_phase w \<noteq> Watching then
        (if input = ApplicationEnds then w\<lparr>wt_live := tl (wt_live w)\<rparr> else w)
      else
        (case input of
           Changes n sf \<Rightarrow> if n = 0 then w else start_failure cwd sf id w
         | WatchErrors e \<Rightarrow> watch_return (Watcher (''file watcher failed: '' @ e)) w
         | Tick wait_fails \<Rightarrow> process_reap_finished wait_fails w
         | WatcherGone \<Rightarrow> watch_return (Watcher ''file watcher stopped unexpectedly'') w
         | Interrupted \<Rightarrow> (process_kill w)\<lparr>wt_phase := ExitedWith 130\<rparr>
         | ApplicationEnds \<Rightarrow> w\<lparr>wt_live := tl (wt_live w)\<rparr>))"

definition run_watch :: "path \<Rightarrow> tree \<Rightarrow> watch_setup \<Rightarrow> watch_input list \<Rightarrow> watch" where
  "run_watch cwd d su inputs = fold (watch_step cwd) inputs (watch_begin cwd d su)"

section \<open>Commands\<close>

record cli_environment =
  ce_heck :: heck
  ce_io :: fs_io
  ce_edit :: toml_edit
  ce_run :: spawn
  ce_crates :: crates_response
  ce_screen :: "str option"

definition run_text_command ::
    "cli_environment \<Rightarrow> cli_command \<Rightarrow> path \<Rightarrow> tree \<Rightarrow> (cli_error + str) option \<times> tree" where
  "run_text_command env command cwd d =
     (let some = (\<lambda>(r, d'). (Some r, d'))
      in (case command of
            New name backend \<Rightarrow> some (generate_new (ce_heck env) (ce_io env) name backend cwd d)
          | Generate kind \<Rightarrow> some (run_generate (ce_heck env) (ce_io env) kind cwd d)
          | UpdateDependency \<Rightarrow>
              (case update_caelix_dependency (ce_edit env) (ce_io env) (ce_run env) (ce_crates env) cwd d of
                 (r, d', _) \<Rightarrow> (r, d'))
          | RunApplication _ app_args \<Rightarrow> (Some (Inr (format_cargo_run_command app_args)), d)
          | Doctor \<Rightarrow>
              some (do_then (ensure_cargo_manifest cwd) (\<lambda>_. yield format_cargo_doctor_command) d)))"

text \<open>\<open>run --watch\<close> only returns with an error, or by the signal handler: \<open>inputs\<close> is what happens until
  then (\<open>None\<close>: it is still running).\<close>

definition run_cli ::
    "cli_environment \<Rightarrow> watch_setup \<Rightarrow> watch_input list \<Rightarrow> cli_command \<Rightarrow> path \<Rightarrow> tree \<Rightarrow>
     (cli_error + cli_outcome) option \<times> tree" where
  "run_cli env su inputs command cwd d =
     (case command of
        RunApplication watching app_args \<Rightarrow>
          (if watching then
             ((case wt_phase (run_watch cwd d su inputs) of
                 Watching \<Rightarrow> None
               | WatchFailed e \<Rightarrow> Some (Inl e)
               | ExitedWith c \<Rightarrow> Some (Inr (ExitCode c))), d)
           else (Some (map_sum id ExitCode (run_application_once (ce_run env) (ce_screen env) cwd app_args)), d))
      | Doctor \<Rightarrow> (Some (map_sum id ExitCode (run_doctor (ce_run env) cwd d)), d)
      | _ \<Rightarrow>
          (case run_text_command env command cwd d of
             (r, d') \<Rightarrow> (map_option (map_sum id OutputText) r, d')))"

section \<open>Laws\<close>

text \<open>At most the process of the handle is alive.\<close>

definition one_process :: "watch \<Rightarrow> bool" where
  "one_process w \<longleftrightarrow> wt_live w = [] \<or> (\<exists>child. wt_child w = Some child \<and> wt_live w = [child])"

lemma kill_none_alive: "one_process w \<Longrightarrow> wt_live (process_kill w) = [] \<and> wt_child (process_kill w) = None"
  by (auto simp: one_process_def process_kill_def split: option.splits)

lemma kill_rest [simp]:
  "wt_started (process_kill w) = wt_started w" "wt_owners (process_kill w) = wt_owners w"
  "wt_phase (process_kill w) = wt_phase w"
  by (simp_all add: process_kill_def split: option.splits)

lemma one_process_drop: "one_process w \<Longrightarrow> one_process (process_drop w)"
  using kill_none_alive [of "w\<lparr>wt_owners := wt_owners w - 1\<rparr>"]
  by (auto simp: process_drop_def Let_def one_process_def)

lemma one_process_return: "one_process w \<Longrightarrow> one_process (watch_return e w)"
  unfolding watch_return_def by (rule one_process_drop) (simp add: one_process_def)

lemma one_process_start: "one_process w \<Longrightarrow> one_process (snd (process_start cwd sf w))"
  using kill_none_alive [of w]
  by (auto simp: process_start_def Let_def one_process_def split: sum.splits option.splits)

lemma one_process_start_failure:
  assumes "one_process w" and "\<And>w. one_process w \<Longrightarrow> one_process (continue w)"
  shows "one_process (start_failure cwd sf continue w)"
  using one_process_start [OF assms(1), of cwd sf] assms(2)
  by (auto simp: start_failure_def one_process_return split: prod.splits sum.splits)

lemma one_process_begin: "one_process (watch_begin cwd d su)"
proof -
  have new: "one_process (process_new\<lparr>wt_owners := 2\<rparr>)" by (simp add: one_process_def process_new_def)
  then show ?thesis
    by (auto simp: watch_begin_def Let_def one_process_return one_process_drop
        intro!: one_process_start_failure split: option.splits)
qed

lemma one_process_ends: "one_process w \<Longrightarrow> one_process (w\<lparr>wt_live := tl (wt_live w)\<rparr>)"
  by (auto simp: one_process_def)

lemma one_process_reap: "one_process w \<Longrightarrow> one_process (process_reap_finished b w)"
  by (auto simp: one_process_def process_reap_finished_def Let_def split: option.splits)

lemma one_process_kill: "one_process w \<Longrightarrow> one_process ((process_kill w)\<lparr>wt_phase := p\<rparr>)"
  using kill_none_alive [of w] by (simp add: one_process_def)

lemma one_process_step: "one_process w \<Longrightarrow> one_process (watch_step cwd input w)"
  by (cases input)
     (simp_all add: one_process_return one_process_start_failure one_process_ends one_process_reap
        one_process_kill)

lemma fold_invariant: "P s \<Longrightarrow> (\<And>x s. P s \<Longrightarrow> P (f x s)) \<Longrightarrow> P (fold f xs s)"
  by (induction xs arbitrary: s) auto

lemma run_watch_one_process: "one_process (run_watch cwd d su inputs)"
  unfolding run_watch_def
  by (rule fold_invariant [where P = one_process]) (simp_all only: one_process_begin one_process_step)

text \<open>C36: While an application is watched at most one process of it is alive, the one the loop holds, whatever
  changes, failures and signals arrive in whatever order: a restart never leaves the old process behind.\<close>
theorem watch_has_one_process:
  "length (wt_live (run_watch cwd d su inputs)) \<le> 1 \<and>
   set (wt_live (run_watch cwd d su inputs)) \<subseteq> set_option (wt_child (run_watch cwd d su inputs))"
  using run_watch_one_process [of cwd d su inputs] by (auto simp: one_process_def)

text \<open>Interrupting the loop stops the application.\<close>

lemma watch_step_ended: "wt_phase w \<noteq> Watching \<Longrightarrow> wt_phase (watch_step cwd input w) = wt_phase w"
  by simp

theorem interrupt_stops_application:
  assumes "wt_phase (run_watch cwd d su inputs) = Watching"
  shows "wt_live (run_watch cwd d su (inputs @ [Interrupted])) = [] \<and>
    wt_phase (run_watch cwd d su (inputs @ [Interrupted])) = ExitedWith 130"
  using kill_none_alive [OF run_watch_one_process] assms by (simp add: run_watch_def)

text \<open>
  The signal handler keeps an owner of the process for the life of the program, so returning from the
  loop with an error never drops the last one: the application goes on running.
\<close>

definition quiet_setup :: watch_setup where
  "quiet_setup = \<lparr>su_signal = None, su_start = \<lparr>sf_screen = None, sf_spawn = None\<rparr>, su_debouncer = None,
                  su_src = None, su_manifest = None\<rparr>"

lemma watcher_failure_leaves_application:
  "wt_phase (run_watch cwd d quiet_setup [WatcherGone]) =
     WatchFailed (Watcher ''file watcher stopped unexpectedly'') \<and>
   wt_live (run_watch cwd d quiet_setup [WatcherGone]) = [0]"
  by (simp add: run_watch_def watch_begin_def Let_def quiet_setup_def start_failure_def process_start_def
      process_kill_def process_new_def clear_screen_def watch_return_def process_drop_def)

text \<open>
  The doctor command reports success exactly when a manifest is there and the validation run was
  successful; a failed or interrupted run gives an exit code other than zero.
\<close>
theorem doctor_reports_the_validation:
  "run_doctor run cwd d = Inr 0 \<longleftrightarrow>
     is_file_at d (path_join cwd ''Cargo.toml'') \<and> run cargo_doctor_command = Exited 0"
  by (auto simp: run_doctor_def ensure_cargo_manifest_def Let_def status_success_def exit_or_one_def
      split: exit_status.splits option.splits)

end
