(* ===== verification/Calendar.thy ===== *)
theory Calendar
  imports Prelude "HOL-Library.Signed_Division"
begin

text \<open>
  The date computation of the logger (\<open>civil_from_days\<close> in \<open>caelix-core/src/logging.rs\<close>) and its
  correctness against a calendar that counts days one by one.
\<close>

section \<open>The code\<close>

text \<open>\<open>i64\<close> division truncates; only the first dividend may be negative.\<close>

definition civil_from_days :: "int \<Rightarrow> int \<times> int \<times> int" where
  "civil_from_days days_since_epoch =
     (let z = days_since_epoch + 719468;
          era = (if 0 \<le> z then z else z - 146096) sdiv 146097;
          doe = z - era * 146097;
          yoe = (doe - doe div 1460 + doe div 36524 - doe div 146096) div 365;
          year = yoe + era * 400;
          doy = doe - (365 * yoe + yoe div 4 - yoe div 100);
          mp = (5 * doy + 2) div 153;
          day = doy - (153 * mp + 2) div 5 + 1;
          month = mp + (if mp < 10 then 3 else -9);
          year' = year + (if month \<le> 2 then 1 else 0)
      in (year', month, day))"

section \<open>The calendar\<close>

definition leap_year :: "int \<Rightarrow> bool" where
  "leap_year y \<longleftrightarrow> y mod 4 = 0 \<and> (y mod 100 \<noteq> 0 \<or> y mod 400 = 0)"

definition month_length :: "int \<Rightarrow> int \<Rightarrow> int" where
  "month_length y m =
     (if m = 2 then (if leap_year y then 29 else 28)
      else if m \<in> {4, 6, 9, 11} then 30 else 31)"

fun next_day :: "int \<times> int \<times> int \<Rightarrow> int \<times> int \<times> int" where
  "next_day (y, m, d) =
     (if d < month_length y m then (y, m, d + 1)
      else if m < 12 then (y, m + 1, 1) else (y + 1, 1, 1))"

section \<open>Years that begin in March\<close>

definition march_date :: "int \<Rightarrow> int \<Rightarrow> int \<times> int \<times> int" where
  "march_date y doy =
     (let mp = (5 * doy + 2) div 153;
          day = doy - (153 * mp + 2) div 5 + 1;
          month = mp + (if mp < 10 then 3 else -9)
      in (y + (if month \<le> 2 then 1 else 0), month, day))"

definition year_of_era :: "int \<Rightarrow> int" where
  "year_of_era doe = (doe - doe div 1460 + doe div 36524 - doe div 146096) div 365"

definition day_of_year :: "int \<Rightarrow> int" where
  "day_of_year doe =
     doe - (365 * year_of_era doe + year_of_era doe div 4 - year_of_era doe div 100)"

lemma civil_march:
  assumes "0 \<le> era" and "0 \<le> doe" and "doe < 146097"
  shows "civil_from_days (era * 146097 + doe - 719468) =
    march_date (year_of_era doe + era * 400) (day_of_year doe)"
proof -
  from assms have e: "(era * 146097 + doe) sdiv 146097 = era" by (simp add: signed_divide_int_def sgn_if)
  have z: "era * 146097 + doe - 719468 + 719468 = era * 146097 + doe" by simp
  from assms have nonneg: "0 \<le> era * 146097 + doe" by simp
  have d: "era * 146097 + doe - era * 146097 = doe" by simp
  show ?thesis
    unfolding civil_from_days_def Let_def z if_P [OF nonneg] e d march_date_def year_of_era_def day_of_year_def
    by (rule refl)
qed

definition in_era :: "int \<Rightarrow> int \<Rightarrow> int \<Rightarrow> int \<Rightarrow> bool" where
  "in_era c q r s \<longleftrightarrow> 0 \<le> c \<and> c \<le> 3 \<and> 0 \<le> q \<and> q \<le> 24 \<and> 0 \<le> r \<and> r \<le> 3 \<and> 0 \<le> s \<and>
     (if r = 3 \<and> (q < 24 \<or> c = 3) then s \<le> 365 else s \<le> 364)"

lemma div_is: "k * q \<le> x \<Longrightarrow> x < k * q + k \<Longrightarrow> x div k = q" for k q x :: int
  by (rule int_div_pos_eq [where r = "x - k * q"]) auto

lemma year_of_era_parts:
  assumes "in_era c q r s"
  shows "year_of_era (36524 * c + 1461 * q + 365 * r + s) = 100 * c + 4 * q + r"
    and "day_of_year (36524 * c + 1461 * q + 365 * r + s) = s"
proof -
  let ?doe = "36524 * c + 1461 * q + 365 * r + s"
  define \<delta> :: int where "\<delta> = (if 1460 \<le> 24 * c + q + 365 * r + s then 1 else 0)"
  define \<gamma> :: int where "\<gamma> = (if c = 3 \<and> q = 24 \<and> r = 3 \<and> s = 365 then 1 else 0)"
  have b: "0 \<le> c" "c \<le> 3" "0 \<le> q" "q \<le> 24" "0 \<le> r" "r \<le> 3" "0 \<le> s" "s \<le> 365"
    "r < 3 \<longrightarrow> s \<le> 364" "q = 24 \<and> c < 3 \<longrightarrow> s \<le> 364"
    using assms by (auto simp: in_era_def split: if_splits)
  have 1: "?doe div 1460 = 25 * c + q + \<delta>"
    by (rule div_is) (use b in \<open>auto simp: \<delta>_def\<close>)
  have 2: "?doe div 36524 = c + \<gamma>"
    by (rule div_is) (use b in \<open>auto simp: \<gamma>_def\<close>)
  have 3: "?doe div 146096 = \<gamma>"
    by (rule div_is) (use b in \<open>auto simp: \<gamma>_def\<close>)
  have n: "?doe - ?doe div 1460 + ?doe div 36524 - ?doe div 146096 = 365 * (100 * c + 4 * q + r) + (s - \<delta>)"
    unfolding 1 2 3 by simp
  have y: "year_of_era ?doe = 100 * c + 4 * q + r"
    unfolding year_of_era_def n
    by (rule div_is) (use b in \<open>auto simp: \<delta>_def\<close>)
  show "year_of_era ?doe = 100 * c + 4 * q + r" by (rule y)
  have "(100 * c + 4 * q + r) div 4 = 25 * c + q" by (rule div_is) (use b in auto)
  moreover have "(100 * c + 4 * q + r) div 100 = c" by (rule div_is) (use b in auto)
  ultimately show "day_of_year ?doe = s" unfolding day_of_year_def y by simp
qed

lemma era_parts:
  assumes "0 \<le> doe" and "doe < 146097"
  shows "\<exists>c q r s. in_era c q r s \<and> doe = 36524 * c + 1461 * q + 365 * r + s"
proof -
  define c where "c = min 3 (doe div 36524)"
  define u where "u = doe - 36524 * c"
  define q where "q = u div 1461"
  define t where "t = u - 1461 * q"
  define r where "r = min 3 (t div 365)"
  define s where "s = t - 365 * r"
  have c: "0 \<le> c" "c \<le> 3" and u: "0 \<le> u" "u \<le> 36524" "c < 3 \<longrightarrow> u < 36524"
    using assms by (auto simp: c_def u_def min_def)
  have q: "0 \<le> q" "q \<le> 24" and t: "0 \<le> t" "t < 1461" using u by (auto simp: q_def t_def)
  have u': "u = 1461 * q + t" by (simp add: t_def)
  have r: "0 \<le> r" "r \<le> 3" and s: "0 \<le> s" "s \<le> 365" "r < 3 \<longrightarrow> s \<le> 364"
    using t by (auto simp: r_def s_def min_def)
  have s': "t = 365 * r + s" by (simp add: s_def)
  have "in_era c q r s" using c q r s u u' s' by (auto simp: in_era_def)
  moreover have "doe = 36524 * c + 1461 * q + 365 * r + s" using u' s' by (simp add: u_def)
  ultimately show ?thesis by blast
qed


section \<open>Day by day\<close>

lemma march_date_in_month:
  assumes "0 \<le> mp" and "153 * mp \<le> 5 * s + 2" and "5 * s + 2 < 153 * mp + 153"
  shows "march_date y s =
    (let month = mp + (if mp < 10 then 3 else -9)
     in (y + (if month \<le> 2 then 1 else 0), month, s - (153 * mp + 2) div 5 + 1))"
proof -
  have "(5 * s + 2) div 153 = mp" by (rule div_is) (use assms in auto)
  then show ?thesis by (simp add: march_date_def Let_def)
qed

lemma month_cases:
  assumes "0 \<le> s" and "s \<le> 365"
  obtains mp :: int where "mp \<in> {0, 1, 2, 3, 4, 5, 6, 7, 8, 9, 10, 11}"
    and "153 * mp \<le> 5 * s + 2" and "5 * s + 2 < 153 * mp + 153"
proof -
  define mp where "mp = (5 * s + 2) div 153"
  have "0 \<le> mp" "mp \<le> 11" using assms by (auto simp: mp_def)
  then have "mp = 0 \<or> mp = 1 \<or> mp = 2 \<or> mp = 3 \<or> mp = 4 \<or> mp = 5 \<or> mp = 6 \<or> mp = 7 \<or> mp = 8 \<or>
    mp = 9 \<or> mp = 10 \<or> mp = 11" by presburger
  then have "mp \<in> {0, 1, 2, 3, 4, 5, 6, 7, 8, 9, 10, 11}" by simp
  moreover have "153 * mp \<le> 5 * s + 2" "5 * s + 2 < 153 * mp + 153" by (auto simp: mp_def)
  ultimately show ?thesis by (rule that)
qed

lemma next_march_date:
  assumes "0 \<le> s" and "s < 365" and "s = 364 \<longrightarrow> leap_year (y + 1)"
  shows "march_date y (s + 1) = next_day (march_date y s)"
proof -
  from assms have "0 \<le> s" "s \<le> 365" by simp_all
  then obtain mp where mp: "mp \<in> {0, 1, 2, 3, 4, 5, 6, 7, 8, 9, 10, 11 :: int}"
    and b: "153 * mp \<le> 5 * s + 2" "5 * s + 2 < 153 * mp + 153" by (rule month_cases)
  have this_date: "march_date y s =
    (let month = mp + (if mp < 10 then 3 else -9)
     in (y + (if month \<le> 2 then 1 else 0), month, s - (153 * mp + 2) div 5 + 1))"
    by (rule march_date_in_month) (use mp b in auto)
  show ?thesis
  proof (cases "5 * (s + 1) + 2 < 153 * mp + 153")
    case True
    have next_date: "march_date y (s + 1) =
      (let month = mp + (if mp < 10 then 3 else -9)
       in (y + (if month \<le> 2 then 1 else 0), month, s + 1 - (153 * mp + 2) div 5 + 1))"
      by (rule march_date_in_month) (use mp b True in auto)
    show ?thesis unfolding this_date next_date
      using mp b True assms by (auto simp: month_length_def Let_def)
  next
    case False
    with mp assms have "mp < 11" by auto
    have next_date: "march_date y (s + 1) =
      (let month = mp + 1 + (if mp + 1 < 10 then 3 else -9)
       in (y + (if month \<le> 2 then 1 else 0), month, s + 1 - (153 * (mp + 1) + 2) div 5 + 1))"
      by (rule march_date_in_month) (use mp b False in auto)
    show ?thesis unfolding this_date next_date
      using mp b False assms \<open>mp < 11\<close> by (auto simp: month_length_def Let_def)
  qed
qed

lemma last_march_date:
  "leap_year (y + 1) \<Longrightarrow> next_day (march_date y 365) = march_date (y + 1) 0"
  "\<not> leap_year (y + 1) \<Longrightarrow> next_day (march_date y 364) = march_date (y + 1) 0"
  by (simp_all add: march_date_def month_length_def Let_def)

definition last_day :: "int \<Rightarrow> int" where
  "last_day y = (if leap_year (y + 1) then 365 else 364)"

lemma leap_in_era:
  assumes "0 \<le> c" "c \<le> 3" "0 \<le> q" "q \<le> 24" "0 \<le> r" "r \<le> 3"
  shows "leap_year (100 * c + 4 * q + r + era * 400 + 1) \<longleftrightarrow> r = 3 \<and> (q < 24 \<or> c = 3)"
proof -
  have 4: "(100 * c + 4 * q + r + era * 400 + 1) mod 4 = (r + 1) mod 4"
  proof -
    have "100 * c + 4 * q + r + era * 400 + 1 = (r + 1) + 4 * (25 * c + q + 100 * era)" by simp
    then show ?thesis by (simp only: mod_mult_self2)
  qed
  show ?thesis
  proof (cases "r = 3")
    case False
    with assms have "(r + 1) mod 4 \<noteq> 0" by (simp add: zmod_trivial_iff)
    with 4 False show ?thesis by (simp add: leap_year_def)
  next
    case True
    have e: "100 * c + 4 * q + r + era * 400 + 1 = 4 * (q + 1) + 100 * (c + 4 * era)"
      "100 * c + 4 * q + r + era * 400 + 1 = (100 * c + 4 * (q + 1)) + 400 * era" by (simp_all add: True)
    have 100: "(100 * c + 4 * q + r + era * 400 + 1) mod 100 = (4 * (q + 1)) mod 100"
      unfolding e(1) by (rule mod_mult_self2)
    have 400: "(100 * c + 4 * q + r + era * 400 + 1) mod 400 = (100 * c + 4 * (q + 1)) mod 400"
      unfolding e(2) by (rule mod_mult_self2)
    have q: "(4 * (q + 1)) mod 100 = 0 \<longleftrightarrow> q = 24"
      using assms by (cases "q = 24") (auto simp: mod_pos_pos_trivial)
    have c: "(100 * c + 4 * (q + 1)) mod 400 = 0 \<longleftrightarrow> c = 3" if "q = 24"
      using assms that by (cases "c = 3") (auto simp: mod_pos_pos_trivial)
    show ?thesis unfolding leap_year_def 4 100 400 using q c True assms by auto
  qed
qed

text \<open>The days since the first of March of the year 0, as a year and a day of it.\<close>

definition march_day :: "int \<Rightarrow> int \<times> int" where
  "march_day z = (let era = z div 146097; doe = z mod 146097 in (year_of_era doe + era * 400, day_of_year doe))"

lemma civil_from_march_day:
  assumes "0 \<le> z"
  shows "civil_from_days (z - 719468) = (case march_day z of (y, s) \<Rightarrow> march_date y s)"
  using civil_march [of "z div 146097" "z mod 146097"] assms
  by (simp add: march_day_def Let_def pos_imp_zdiv_nonneg_iff)

lemma era_bounds:
  "in_era c q r s \<Longrightarrow> 0 \<le> 36524 * c + 1461 * q + 365 * r + s \<and> 36524 * c + 1461 * q + 365 * r + s < 146097"
  by (auto simp: in_era_def split: if_splits)

lemma march_day_parts:
  assumes "in_era c q r s"
  shows "march_day (era * 146097 + (36524 * c + 1461 * q + 365 * r + s)) = (100 * c + 4 * q + r + era * 400, s)"
proof -
  let ?doe = "36524 * c + 1461 * q + 365 * r + s"
  from era_bounds [OF assms] have "(era * 146097 + ?doe) div 146097 = era" "(era * 146097 + ?doe) mod 146097 = ?doe"
    by simp_all
  then show ?thesis by (simp only: march_day_def Let_def year_of_era_parts [OF assms])
qed

lemma era_day_obtain:
  obtains era c q r s where "in_era c q r s" "z = era * 146097 + (36524 * c + 1461 * q + 365 * r + s)"
proof -
  from era_parts [of "z mod 146097"] obtain c q r s where p: "in_era c q r s"
    "z mod 146097 = 36524 * c + 1461 * q + 365 * r + s" by auto
  have "z = (z div 146097) * 146097 + z mod 146097" by simp
  with p show ?thesis using that by metis
qed

lemma last_day_parts:
  assumes "in_era c q r s"
  shows "last_day (100 * c + 4 * q + r + era * 400) = (if r = 3 \<and> (q < 24 \<or> c = 3) then 365 else 364)"
  using assms leap_in_era [of c q r era] by (simp add: last_day_def in_era_def)

lemma march_day_bounds: "case march_day z of (y, s) \<Rightarrow> 0 \<le> s \<and> s \<le> last_day y"
proof -
  obtain era c q r s where p: "in_era c q r s" and z: "z = era * 146097 + (36524 * c + 1461 * q + 365 * r + s)"
    by (rule era_day_obtain)
  show ?thesis unfolding z march_day_parts [OF p] using p by (simp add: last_day_parts [OF p] in_era_def)
qed

lemma march_day_next:
  "march_day (z + 1) = (case march_day z of (y, s) \<Rightarrow> if s < last_day y then (y, s + 1) else (y + 1, 0))"
proof -
  obtain era c q r s where p: "in_era c q r s" and z: "z = era * 146097 + (36524 * c + 1461 * q + 365 * r + s)"
    by (rule era_day_obtain)
  note this_day = march_day_parts [OF p, of era, folded z] and last_of = last_day_parts [OF p, of era]
  have to: "march_day (z + 1) = (100 * c' + 4 * q' + r' + era' * 400, s')"
    if "in_era c' q' r' s'" "z + 1 = era' * 146097 + (36524 * c' + 1461 * q' + 365 * r' + s')" for era' c' q' r' s'
    unfolding that(2) by (rule march_day_parts [OF that(1)])
  show ?thesis
  proof (cases "s < last_day (100 * c + 4 * q + r + era * 400)")
    case True
    with p last_of have "in_era c q r (s + 1)" by (auto simp: in_era_def split: if_splits)
    from to [OF this, of era] True this_day show ?thesis by (simp add: z)
  next
    case False
    with p last_of have s: "s = (if r = 3 \<and> (q < 24 \<or> c = 3) then 365 else 364)"
      by (auto simp: in_era_def split: if_splits)
    have r: "0 \<le> c" "c \<le> 3" "0 \<le> q" "q \<le> 24" "0 \<le> r" "r \<le> 3" using p by (simp_all add: in_era_def)
    consider "r < 3" | "r = 3" "q < 24" | "r = 3" "q = 24" "c < 3" | "r = 3" "q = 24" "c = 3" using r by linarith
    then have "march_day (z + 1) = (100 * c + 4 * q + r + era * 400 + 1, 0)"
    proof cases
      case 1
      with r have "in_era c q (r + 1) 0" by (simp add: in_era_def)
      from to [OF this, of era] 1 s show ?thesis by (simp add: z)
    next
      case 2
      with r have "in_era c (q + 1) 0 0" by (simp add: in_era_def)
      from to [OF this, of era] 2 s show ?thesis by (simp add: z)
    next
      case 3
      with r have "in_era (c + 1) 0 0 0" by (simp add: in_era_def)
      from to [OF this, of era] 3 s show ?thesis by (simp add: z)
    next
      case 4
      have "in_era 0 0 0 0" by (simp add: in_era_def)
      from to [OF this, of "era + 1"] 4 s show ?thesis by (simp add: z)
    qed
    with False this_day show ?thesis by simp
  qed
qed

lemma civil_next_day:
  assumes "-719468 \<le> days"
  shows "civil_from_days (days + 1) = next_day (civil_from_days days)"
proof -
  obtain y s where d: "march_day (days + 719468) = (y, s)" by (cases "march_day (days + 719468)")
  with march_day_bounds [of "days + 719468"] have s: "0 \<le> s" "s \<le> last_day y" by auto
  have now: "civil_from_days days = march_date y s"
    using civil_from_march_day [of "days + 719468"] assms d by simp
  have "civil_from_days (days + 1) = (case march_day (days + 719468 + 1) of (y, s) \<Rightarrow> march_date y s)"
    using civil_from_march_day [of "days + 719468 + 1"] assms by (simp add: add.commute add.left_commute)
  also have "march_day (days + 719468 + 1) = (if s < last_day y then (y, s + 1) else (y + 1, 0))"
    by (simp only: march_day_next d prod.case)
  also have "(case (if s < last_day y then (y, s + 1) else (y + 1, 0)) of (y, s) \<Rightarrow> march_date y s) =
      next_day (march_date y s)"
  proof (cases "s < last_day y")
    case True
    with s show ?thesis
      using next_march_date [of s y] by (auto simp: last_day_def split: if_splits)
  next
    case False
    with s have "s = last_day y" by simp
    then show ?thesis
      using last_march_date [of y] by (auto simp: last_day_def split: if_splits)
  qed
  finally show ?thesis by (simp add: now)
qed

text \<open>The date of a log line is right: for every day since the epoch the computation gives the date that
  counting day by day from the first of January 1970 arrives at, leap years and centuries included.\<close>
theorem civil_from_days_follows_calendar:
  "civil_from_days (int n) = (next_day ^^ n) (1970, 1, 1)"
proof (induction n)
  case 0
  have "civil_from_days 0 = (1970, 1, 1)" by code_simp
  then show ?case by simp
next
  case (Suc n)
  have "int (Suc n) = int n + 1" by simp
  moreover have "civil_from_days (int n + 1) = next_day (civil_from_days (int n))"
    by (rule civil_next_day) simp
  ultimately show ?case by (simp only: Suc funpow.simps comp_apply)
qed

end
