(* ===== verification/Logging.thy ===== *)
theory Logging
  imports Calendar Configuration
begin

text \<open>
  The logger of \<open>caelix-core/src/logging.rs\<close>: levels and the threshold read from the environment, the
  text of log lines, and where a line goes. The clock is an argument (nanoseconds since the epoch).
\<close>

section \<open>Levels\<close>

datatype log_level = LogInfo | LogLog | LogWarn | LogError | LogDebug

definition ansi :: "str \<Rightarrow> str" where
  "ansi code = [CHR 0x1B, CHR ''[''] @ code @ ''m''"

definition RESET_COLOR :: str where "RESET_COLOR = ansi ''0''"
definition TIMESTAMP_COLOR :: str where "TIMESTAMP_COLOR = ansi ''38;5;245''"
definition INFO_COLOR :: str where "INFO_COLOR = ansi ''38;5;82''"
definition DEBUG_COLOR :: str where "DEBUG_COLOR = ansi ''38;5;177''"
definition WARN_COLOR :: str where "WARN_COLOR = ansi ''38;5;214''"
definition ERROR_COLOR :: str where "ERROR_COLOR = ansi ''38;5;203''"
definition TARGET_COLOR :: str where "TARGET_COLOR = ansi ''38;5;45''"
definition OK_STATUS_COLOR :: str where "OK_STATUS_COLOR = ansi ''38;5;82''"

fun level_label :: "log_level \<Rightarrow> str" where
  "level_label LogInfo = ''INFO''"
| "level_label LogLog = ''INFO''"
| "level_label LogWarn = ''WARN''"
| "level_label LogError = ''ERROR''"
| "level_label LogDebug = ''DEBUG''"

fun level_color :: "log_level \<Rightarrow> str" where
  "level_color LogInfo = INFO_COLOR"
| "level_color LogLog = INFO_COLOR"
| "level_color LogWarn = WARN_COLOR"
| "level_color LogError = ERROR_COLOR"
| "level_color LogDebug = DEBUG_COLOR"

fun level_priority :: "log_level \<Rightarrow> nat" where
  "level_priority LogError = 1"
| "level_priority LogWarn = 2"
| "level_priority LogInfo = 3"
| "level_priority LogLog = 3"
| "level_priority LogDebug = 4"

section \<open>Configuration from the environment\<close>

type_synonym environment = "str \<Rightarrow> env_var"

definition env_ok :: "environment \<Rightarrow> str \<Rightarrow> str option" where
  "env_ok env name = (case env name of Present v \<Rightarrow> Some v | _ \<Rightarrow> None)"

definition parse_log_level :: "str \<Rightarrow> nat option" where
  "parse_log_level v =
     (let level = to_ascii_lowercase (trim v)
      in if level \<in> {''debug'', ''trace''} then Some (level_priority LogDebug)
         else if level \<in> {''info'', ''log''} then Some (level_priority LogInfo)
         else if level \<in> {''warn'', ''warning''} then Some (level_priority LogWarn)
         else if level = ''error'' then Some (level_priority LogError)
         else if level = ''off'' then Some 0
         else None)"

definition parse_bool :: "str \<Rightarrow> bool option" where
  "parse_bool v =
     (let word = to_ascii_lowercase (trim v)
      in if word \<in> {''1'', ''true'', ''yes'', ''y'', ''on''} then Some True
         else if word \<in> {''0'', ''false'', ''no'', ''n'', ''off''} then Some False
         else None)"

text \<open>\<open>split_once\<close> at the first equals sign.\<close>

definition split_once :: "char \<Rightarrow> str \<Rightarrow> (str \<times> str) option" where
  "split_once c s =
     (case dropWhile (\<lambda>x. x \<noteq> c) s of
        [] \<Rightarrow> None | _ # rest \<Rightarrow> Some (takeWhile (\<lambda>x. x \<noteq> c) s, rest))"

definition rust_log_directive :: "str \<Rightarrow> nat option" where
  "rust_log_directive directive =
     (let d = trim directive
      in (case split_once CHR ''='' d of
            Some (target, level) \<Rightarrow>
              if trim target \<in> {''caelix'', ''caelix_core'', ''caelix-core''} then parse_log_level level else None
          | None \<Rightarrow> parse_log_level d))"

fun find_map :: "('a \<Rightarrow> 'b option) \<Rightarrow> 'a list \<Rightarrow> 'b option" where
  "find_map f [] = None"
| "find_map f (x # xs) = (case f x of Some y \<Rightarrow> Some y | None \<Rightarrow> find_map f xs)"

definition parse_rust_log_level :: "str \<Rightarrow> nat option" where
  "parse_rust_log_level v = find_map rust_log_directive (split_on CHR '','' v)"

definition or_else :: "'a option \<Rightarrow> 'a option \<Rightarrow> 'a option" where
  "or_else a b = (case a of Some x \<Rightarrow> Some x | None \<Rightarrow> b)"

definition log_priority_from :: "environment \<Rightarrow> nat" where
  "log_priority_from env =
     (case or_else (Option.bind (env_ok env ''CAELIX_LOG'') parse_log_level)
                   (Option.bind (env_ok env ''RUST_LOG'') parse_rust_log_level) of
        Some p \<Rightarrow> p | None \<Rightarrow> level_priority LogDebug)"

definition http_request_logging_from :: "environment \<Rightarrow> bool" where
  "http_request_logging_from env =
     (case Option.bind (or_else (env_ok env ''CAELIX_HTTP_LOG'') (env_ok env ''CAELIX_ACCESS_LOG'')) parse_bool of
        Some b \<Rightarrow> b | None \<Rightarrow> False)"

definition configured_metadata_value :: "environment \<Rightarrow> str list \<Rightarrow> str \<Rightarrow> str" where
  "configured_metadata_value env names fallback =
     (case find_map (env_ok env) names of
        None \<Rightarrow> fallback
      | Some v \<Rightarrow> if trim v = [] then fallback else trim v)"

definition configured_service_name :: "environment \<Rightarrow> str" where
  "configured_service_name env =
     configured_metadata_value env [''CAELIX_SERVICE_NAME'', ''OTEL_SERVICE_NAME''] ''application''"

definition configured_environment :: "environment \<Rightarrow> str" where
  "configured_environment env =
     configured_metadata_value env [''CAELIX_ENVIRONMENT'', ''APP_ENV'', ''ENVIRONMENT''] ''development''"

section \<open>The text of a line\<close>

definition pad_zero :: "nat \<Rightarrow> str \<Rightarrow> str" where
  "pad_zero n s = replicate (n - length s) CHR ''0'' @ s"

definition pad_right :: "nat \<Rightarrow> str \<Rightarrow> str" where
  "pad_right n s = s @ replicate (n - length s) CHR '' ''"

definition current_timestamp :: "nat \<Rightarrow> str" where
  "current_timestamp now =
     (let total_seconds = now div 1000000000;
          days = int (total_seconds div 86400);
          seconds_of_day = total_seconds mod 86400;
          (year, month, day) = civil_from_days days;
          hour = seconds_of_day div 3600;
          minute = (seconds_of_day mod 3600) div 60;
          second = seconds_of_day mod 60
      in pad_zero 4 (show_int year) @ ''-'' @ pad_zero 2 (show_int month) @ ''-'' @ pad_zero 2 (show_int day) @
         ''T'' @ pad_zero 2 (show_nat hour) @ '':'' @ pad_zero 2 (show_nat minute) @ '':'' @
         pad_zero 2 (show_nat second) @ ''.'' @ pad_zero 3 (show_nat (now mod 1000000000 div 1000000)))"

text \<open>Durations are nanoseconds; the micro sign is two bytes.\<close>

definition format_elapsed :: "nat \<Rightarrow> str" where
  "format_elapsed duration =
     (let milliseconds = duration div 1000000
      in if 0 < milliseconds then show_nat milliseconds @ ''ms''
         else show_nat (duration div 1000) @ [CHR 0xC2, CHR 0xB5] @ ''s'')"

definition log_target :: "str \<Rightarrow> str" where
  "log_target scope =
     (if scope \<in> {''bootstrap'', ''routes'', ''server'', ''openapi'', ''module'', ''provider'', ''controller'',
                  ''route'', ''HTTP''} then ''caelix::'' @ to_ascii_lowercase scope
      else if scope = ''ExceptionHandler'' then ''caelix::error''
      else if sublist ''::'' scope then scope
      else ''app::'' @ scope)"

definition format_log_line :: "nat \<Rightarrow> str \<Rightarrow> log_level \<Rightarrow> str \<Rightarrow> nat option \<Rightarrow> str" where
  "format_log_line now scope level message elapsed =
     TIMESTAMP_COLOR @ ''['' @ current_timestamp now @ ''Z'' @ RESET_COLOR @ '' '' @
     level_color level @ pad_right 5 (level_label level) @ RESET_COLOR @ '' '' @
     TARGET_COLOR @ log_target scope @ TIMESTAMP_COLOR @ '']'' @ RESET_COLOR @ '' '' @ message @
     (case elapsed of None \<Rightarrow> [] | Some d \<Rightarrow> '' in '' @ format_elapsed d)"

text \<open>The debug form of a string: quoted, with control characters, quotes and backslashes escaped (the
  escapes of unprintable characters beyond ASCII are not modelled).\<close>

fun hex_digits :: "nat \<Rightarrow> str" where
  "hex_digits n =
     (if n < 16 then [''0123456789abcdef'' ! n] else hex_digits (n div 16) @ [''0123456789abcdef'' ! (n mod 16)])"

declare hex_digits.simps [simp del]

definition debug_char :: "char \<Rightarrow> str" where
  "debug_char c =
     (let n = of_char c :: nat; backslash = CHR 0x5C
      in if n = 0 then [backslash, CHR ''0'']
         else if n = 9 then [backslash, CHR ''t'']
         else if n = 10 then [backslash, CHR ''n'']
         else if n = 13 then [backslash, CHR ''r'']
         else if n = 34 \<or> n = 92 then [backslash, c]
         else if n < 32 \<or> n = 127 then [backslash, CHR ''u'', CHR ''{''] @ hex_digits n @ ''}''
         else [c])"

definition debug_str :: "str \<Rightarrow> str" where
  "debug_str s = [CHR 0x22] @ concat (map debug_char s) @ [CHR 0x22]"

fun causes_text :: "nat \<Rightarrow> str list \<Rightarrow> str" where
  "causes_text index [] = []"
| "causes_text index (cause # causes) =
     [CHR 0x0A] @ ''    '' @ show_nat index @ '': '' @ cause @ causes_text (index + 1) causes"

text \<open>The message of a server error; \<open>chain\<close> gives the texts of an error and its causes.\<close>

definition format_http_exception_message ::
    "(any_error \<Rightarrow> str list) \<Rightarrow> environment \<Rightarrow> http_exception \<Rightarrow> (str \<times> str) option \<Rightarrow> str" where
  "format_http_exception_message chain env e request =
     show_nat (ex_status e) @ '' '' @ ex_error e @ [CHR 0x0A] @ ''  message: '' @ ex_message e @
     (case ex_source e of
        None \<Rightarrow> [] | Some err \<Rightarrow> [CHR 0x0A] @ ''  caused by:'' @ causes_text 0 (chain err)) @
     (case request of
        None \<Rightarrow> []
      | Some (request_method, request_path) \<Rightarrow>
          [CHR 0x0A] @ ''  request: '' @ request_method @ '' '' @ debug_str request_path @ [CHR 0x0A] @
          ''  deployment: service='' @ debug_str (configured_service_name env) @
          '' environment='' @ debug_str (configured_environment env))"

text \<open>The payload of a panic is a text or something else; the location is file, line and column.\<close>

definition panic_message :: "str option \<Rightarrow> (str \<times> nat \<times> nat) option \<Rightarrow> str" where
  "panic_message payload location =
     (let p = (case payload of Some m \<Rightarrow> m | None \<Rightarrow> ''panic occurred'')
      in (case location of
            Some (path, line, column) \<Rightarrow>
              ''panic: '' @ p @ '' (at '' @ path @ '':'' @ show_nat line @ '':'' @ show_nat column @ '')''
          | None \<Rightarrow> ''panic: '' @ p))"

section \<open>Where lines go\<close>

datatype tracing_level = TracingInfo | TracingWarn | TracingError

datatype output_stream = Stdout | Stderr

text \<open>
  The process-wide cells of the logger: the threshold and the access log switch once they were read,
  whether the subscriber and the panic hook were installed, whether the program has a subscriber of its
  own, what that subscriber received and what Caelix printed.
\<close>

record log_state =
  lg_priority :: "nat option"
  lg_http :: "bool option"
  lg_tracing :: bool
  lg_hook :: bool
  lg_foreign :: bool
  lg_subscriber :: bool
  lg_events :: "(tracing_level \<times> str) list"
  lg_printed :: "(output_stream \<times> str) list"

definition log_initial :: "bool \<Rightarrow> log_state" where
  "log_initial foreign =
     \<lparr>lg_priority = None, lg_http = None, lg_tracing = False, lg_hook = False, lg_foreign = foreign,
      lg_subscriber = False, lg_events = [], lg_printed = []\<rparr>"

definition configured_log_priority :: "environment \<Rightarrow> log_state \<Rightarrow> nat \<times> log_state" where
  "configured_log_priority env s =
     (case lg_priority s of
        Some p \<Rightarrow> (p, s)
      | None \<Rightarrow> (let p = log_priority_from env in (p, s\<lparr>lg_priority := Some p\<rparr>)))"

definition log_level_enabled :: "environment \<Rightarrow> log_level \<Rightarrow> log_state \<Rightarrow> bool \<times> log_state" where
  "log_level_enabled env level s =
     (case configured_log_priority env s of (p, s') \<Rightarrow> (level_priority level \<le> p, s'))"

definition http_request_logging_enabled :: "environment \<Rightarrow> log_state \<Rightarrow> bool \<times> log_state" where
  "http_request_logging_enabled env s =
     (case lg_http s of
        Some b \<Rightarrow> (b, s)
      | None \<Rightarrow> (let b = http_request_logging_from env in (b, s\<lparr>lg_http := Some b\<rparr>)))"

definition install_panic_hook :: "log_state \<Rightarrow> log_state" where
  "install_panic_hook s = (if lg_hook s then s else s\<lparr>lg_hook := True\<rparr>)"

text \<open>Installing the subscriber fails when the program installed one before.\<close>

definition init_tracing :: "log_state \<Rightarrow> log_state" where
  "init_tracing s =
     (if lg_tracing s then s
      else s\<lparr>lg_tracing := True, lg_subscriber := (if lg_foreign s then lg_subscriber s else True)\<rparr>)"

definition init_logging :: "log_state \<Rightarrow> log_state" where
  "init_logging s = init_tracing (install_panic_hook s)"

text \<open>The writer of the subscriber sends errors to the standard error stream; its maximal level lets
  all of these levels through, and its formatter prints events of the target \<open>caelix\<close>, which these are.\<close>

definition make_writer_for :: "tracing_level \<Rightarrow> output_stream" where
  "make_writer_for level = (if level = TracingError then Stderr else Stdout)"

definition emit_event :: "tracing_level \<Rightarrow> str \<Rightarrow> log_state \<Rightarrow> log_state" where
  "emit_event level line s =
     (if lg_subscriber s then s\<lparr>lg_printed := lg_printed s @ [(make_writer_for level, line)]\<rparr>
      else s\<lparr>lg_events := lg_events s @ [(level, line)]\<rparr>)"

fun tracing_level_of :: "log_level \<Rightarrow> tracing_level" where
  "tracing_level_of LogInfo = TracingInfo"
| "tracing_level_of LogLog = TracingInfo"
| "tracing_level_of LogWarn = TracingWarn"
| "tracing_level_of LogError = TracingError"
| "tracing_level_of LogDebug = TracingInfo"

definition write_inner ::
    "environment \<Rightarrow> nat \<Rightarrow> str \<Rightarrow> log_level \<Rightarrow> str \<Rightarrow> nat option \<Rightarrow> bool \<Rightarrow> log_state \<Rightarrow> log_state" where
  "write_inner env now scope level message elapsed force s =
     (case (if force then (True, s) else log_level_enabled env level s) of
        (enabled, s1) \<Rightarrow>
          if \<not> enabled then s1
          else emit_event (tracing_level_of level) (format_log_line now scope level message elapsed)
                 (init_logging s1))"

definition log_line :: "environment \<Rightarrow> nat \<Rightarrow> str \<Rightarrow> log_level \<Rightarrow> str \<Rightarrow> nat option \<Rightarrow> log_state \<Rightarrow> log_state" where
  "log_line env now scope level message elapsed s = write_inner env now scope level message elapsed False s"

definition log_panic :: "environment \<Rightarrow> nat \<Rightarrow> str option \<Rightarrow> (str \<times> nat \<times> nat) option \<Rightarrow> log_state \<Rightarrow> log_state" where
  "log_panic env now payload location s =
     write_inner env now ''ExceptionHandler'' LogError (panic_message payload location) None True s"

definition log_http_exception_message ::
    "(any_error \<Rightarrow> str list) \<Rightarrow> environment \<Rightarrow> nat \<Rightarrow> http_exception \<Rightarrow> (str \<times> str) option \<Rightarrow> log_state \<Rightarrow> log_state" where
  "log_http_exception_message chain env now e request s =
     (if \<not> is_server_error (ex_status e) then s
      else log_line env now ''ExceptionHandler'' LogError (format_http_exception_message chain env e request) None s)"

section \<open>Lines of the framework\<close>

definition short_type_delimiter :: "char \<Rightarrow> bool" where
  "short_type_delimiter c \<longleftrightarrow>
     c \<in> set ''<>,()[]&*'' \<or> of_char c \<in> {9, 10, 11, 12, 13, 32 :: nat}"

text \<open>Type names are ASCII as far as blanks are concerned. The start of the last path segment, what was
  kept, and the rest of the name.\<close>

function short_type_go :: "nat \<Rightarrow> str \<Rightarrow> str \<Rightarrow> str" where
  "short_type_go start shortened [] = shortened"
| "short_type_go start shortened (c # cs) =
     (if c = CHR '':'' \<and> cs \<noteq> [] \<and> hd cs = CHR '':'' then
        (let shortened' = take start shortened in short_type_go (length shortened') shortened' (tl cs))
      else
        (let shortened' = shortened @ [c]
         in short_type_go (if short_type_delimiter c then length shortened' else start) shortened' cs))"
  by pat_completeness auto

termination short_type_go
  by (relation "measure (\<lambda>(start, shortened, rest). length rest)") auto

definition short_type_name :: "str \<Rightarrow> str" where
  "short_type_name name = short_type_go 0 [] name"

definition ascii_upper :: "char \<Rightarrow> char" where
  "ascii_upper c = (if 97 \<le> (of_char c :: nat) \<and> of_char c \<le> (122 :: nat)
                    then char_of ((of_char c :: nat) - 32) else c)"

definition log_application_starting :: "environment \<Rightarrow> nat \<Rightarrow> log_state \<Rightarrow> log_state" where
  "log_application_starting env now = log_line env now ''bootstrap'' LogInfo ''Building application'' None"

definition log_ready :: "environment \<Rightarrow> nat \<Rightarrow> str \<Rightarrow> nat \<Rightarrow> log_state \<Rightarrow> log_state" where
  "log_ready env now addr elapsed =
     log_line env now ''server'' LogInfo (''Listening on http://'' @ addr) (Some elapsed)"

definition trim_end_slashes :: "str \<Rightarrow> str" where
  "trim_end_slashes s = rev (dropWhile (\<lambda>c. c = CHR ''/'') (rev s))"

definition openapi_ui_url :: "str \<Rightarrow> str \<Rightarrow> str" where
  "openapi_ui_url addr ui_path =
     (let p = trim_end_slashes ui_path
      in if p = [] then ''http://'' @ addr @ ''/'' else ''http://'' @ addr @ p @ ''/'')"

definition log_openapi_ready :: "environment \<Rightarrow> nat \<Rightarrow> str \<Rightarrow> str \<Rightarrow> str \<Rightarrow> log_state \<Rightarrow> log_state" where
  "log_openapi_ready env now addr json_path ui_path =
     log_line env now ''openapi'' LogInfo
       (''Swagger UI: '' @ openapi_ui_url addr ui_path @ '' | OpenAPI JSON: http://'' @ addr @ json_path) None"

definition log_module_initialized :: "environment \<Rightarrow> nat \<Rightarrow> str \<Rightarrow> log_state \<Rightarrow> log_state" where
  "log_module_initialized env now module =
     log_line env now ''module'' LogDebug (short_type_name module @ '' initialized'') None"

definition log_provider_initialized :: "environment \<Rightarrow> nat \<Rightarrow> str \<Rightarrow> nat \<Rightarrow> log_state \<Rightarrow> log_state" where
  "log_provider_initialized env now provider elapsed =
     log_line env now ''provider'' LogDebug (short_type_name provider @ '' initialized'') (Some elapsed)"

text \<open>A route is a method and a path.\<close>

definition log_route_mapped :: "environment \<Rightarrow> nat \<Rightarrow> str \<times> str \<Rightarrow> log_state \<Rightarrow> log_state" where
  "log_route_mapped env now route =
     log_line env now ''route'' LogDebug (pad_right 6 (map ascii_upper (fst route)) @ '' '' @ snd route) None"

record controller_routes =
  cr_name :: str
  cr_base_path :: str
  cr_routes :: "(str \<times> str) list"

definition log_controller_routes :: "environment \<Rightarrow> nat \<Rightarrow> controller_routes \<Rightarrow> log_state \<Rightarrow> log_state" where
  "log_controller_routes env now c s =
     (if cr_routes c = [] then s
      else fold (log_route_mapped env now) (cr_routes c)
             (log_line env now ''controller'' LogDebug (short_type_name (cr_name c) @ '' '' @ cr_base_path c) None s))"

section \<open>Laws of the logger\<close>

text \<open>One call of the logger: what the environment and the clock say then, and the line.\<close>

record log_call =
  lc_env :: environment
  lc_now :: nat
  lc_scope :: str
  lc_level :: log_level
  lc_message :: str
  lc_elapsed :: "nat option"

definition run_call :: "log_call \<Rightarrow> log_state \<Rightarrow> log_state" where
  "run_call c = log_line (lc_env c) (lc_now c) (lc_scope c) (lc_level c) (lc_message c) (lc_elapsed c)"

definition call_line :: "log_call \<Rightarrow> output_stream \<times> str" where
  "call_line c =
     (make_writer_for (tracing_level_of (lc_level c)),
      format_log_line (lc_now c) (lc_scope c) (lc_level c) (lc_message c) (lc_elapsed c))"

text \<open>A state in which Caelix prints: no foreign subscriber, and its own once tracing is set up.\<close>

definition log_ok :: "log_state \<Rightarrow> bool" where
  "log_ok s \<longleftrightarrow> \<not> lg_foreign s \<and> (lg_subscriber s \<longleftrightarrow> lg_tracing s)"

lemma init_logging_ok:
  "log_ok s \<Longrightarrow> log_ok (init_logging s) \<and> lg_subscriber (init_logging s) \<and>
     lg_printed (init_logging s) = lg_printed s \<and> lg_priority (init_logging s) = lg_priority s"
  by (simp add: log_ok_def init_logging_def init_tracing_def install_panic_hook_def)

lemma emit_event_ok:
  "log_ok s \<Longrightarrow> lg_subscriber s \<Longrightarrow>
   log_ok (emit_event level line s) \<and> lg_priority (emit_event level line s) = lg_priority s \<and>
   lg_printed (emit_event level line s) = lg_printed s @ [(make_writer_for level, line)]"
  by (simp add: log_ok_def emit_event_def)

lemma run_call_fixed:
  assumes "log_ok s" and "lg_priority s = Some p"
  shows "log_ok (run_call c s) \<and> lg_priority (run_call c s) = Some p \<and>
    lg_printed (run_call c s) = lg_printed s @ (if level_priority (lc_level c) \<le> p then [call_line c] else [])"
  using assms init_logging_ok [OF assms(1)] emit_event_ok [of "init_logging s"]
  by (simp add: run_call_def log_line_def write_inner_def log_level_enabled_def configured_log_priority_def
      call_line_def)

lemma run_calls_fixed:
  "log_ok s \<Longrightarrow> lg_priority s = Some p \<Longrightarrow>
   lg_printed (fold run_call cs s) =
     lg_printed s @ map call_line (filter (\<lambda>c. level_priority (lc_level c) \<le> p) cs)"
proof (induction cs arbitrary: s)
  case Nil
  then show ?case by simp
next
  case (Cons c cs)
  from run_call_fixed [OF Cons.prems, of c] Cons.IH [of "run_call c s"] show ?case by simp
qed

lemma run_call_first:
  "run_call c (log_initial foreign) =
     run_call c ((log_initial foreign)\<lparr>lg_priority := Some (log_priority_from (lc_env c))\<rparr>)"
  by (simp add: run_call_def log_line_def write_inner_def log_level_enabled_def configured_log_priority_def
      log_initial_def Let_def)

text \<open>What a program prints through the logger: exactly the lines whose level the threshold lets through, in
  the order of the calls, errors on the standard error stream and the others on standard output. The
  threshold is what the environment said at the first call; later changes of the environment are without
  effect.\<close>
theorem log_prints_enabled_lines:
  "lg_printed (fold run_call (c # cs) (log_initial False)) =
     map call_line (filter (\<lambda>d. level_priority (lc_level d) \<le> log_priority_from (lc_env c)) (c # cs))"
proof -
  let ?s = "(log_initial False)\<lparr>lg_priority := Some (log_priority_from (lc_env c))\<rparr>"
  have ok: "log_ok ?s" "lg_priority ?s = Some (log_priority_from (lc_env c))" "lg_printed ?s = []"
    by (simp_all add: log_ok_def log_initial_def)
  have "fold run_call (c # cs) (log_initial False) = fold run_call (c # cs) ?s"
    using run_call_first [of c False] by simp
  then show ?thesis using run_calls_fixed [OF ok(1,2), of "c # cs"] ok(3) by simp
qed

text \<open>A panic is printed whatever the threshold.\<close>

lemma panics_are_printed:
  "log_ok s \<Longrightarrow> \<exists>line. lg_printed (log_panic env now payload location s) = lg_printed s @ [(Stderr, line)]"
  using init_logging_ok [of s] emit_event_ok [of "init_logging s"]
  by (simp add: log_panic_def write_inner_def make_writer_for_def)

text \<open>Responses that are no server errors leave the log alone.\<close>

lemma client_errors_are_not_logged:
  "\<not> is_server_error (ex_status e) \<Longrightarrow> log_http_exception_message chain env now e request s = s"
  by (simp add: log_http_exception_message_def)

text \<open>
  A bare level before the directive for Caelix wins over it, and a first variable that is set but blank
  hides the ones that follow.
\<close>

lemma first_directive_wins: "parse_rust_log_level ''warn,caelix=debug'' = Some (level_priority LogWarn)"
  by code_simp

lemma blank_variable_hides_fallback:
  "configured_environment (\<lambda>name. if name = ''CAELIX_ENVIRONMENT'' then Present []
     else if name = ''APP_ENV'' then Present ''production'' else NotPresent) = ''development''"
  by code_simp

section \<open>Short type names\<close>

definition short_ok :: "nat \<Rightarrow> str \<Rightarrow> str \<Rightarrow> bool" where
  "short_ok start kept rest \<longleftrightarrow>
     \<not> sublist ''::'' kept \<and> (kept \<noteq> [] \<and> last kept = CHR '':'' \<longrightarrow> rest = [] \<or> hd rest \<noteq> CHR '':'') \<and>
     start \<le> length kept \<and> (start = 0 \<or> short_type_delimiter (kept ! (start - 1)))"

lemma colon_no_delimiter: "\<not> short_type_delimiter CHR '':''"
  by (simp add: short_type_delimiter_def)

lemma double_colon_snoc:
  "sublist ''::'' (s @ [c]) \<longleftrightarrow> sublist ''::'' s \<or> (c = CHR '':'' \<and> s \<noteq> [] \<and> last s = CHR '':'')"
proof -
  have "suffix ''::'' (s @ [c]) \<longleftrightarrow> c = CHR '':'' \<and> s \<noteq> [] \<and> last s = CHR '':''"
  proof (cases s rule: rev_cases)
    case (snoc t d)
    have "suffix ([CHR '':''] @ [CHR '':'']) ((t @ [d]) @ [c]) \<longleftrightarrow> c = CHR '':'' \<and> d = CHR '':''"
      unfolding suffix_def by auto
    with snoc show ?thesis by simp
  qed (simp add: suffix_def)
  then show ?thesis by (auto simp: sublist_snoc)
qed

lemma short_type_go_clean:
  "short_ok start kept rest \<Longrightarrow> \<not> sublist ''::'' (short_type_go start kept rest)"
proof (induction start kept rest rule: short_type_go.induct)
  case (1 start kept)
  then show ?case by (simp add: short_ok_def)
next
  case (2 start kept c cs)
  show ?case
  proof (cases "c = CHR '':'' \<and> cs \<noteq> [] \<and> hd cs = CHR '':''")
    case True
    from "2.prems" have "\<not> sublist ''::'' (take start kept)"
      unfolding short_ok_def by (meson sublist_order.order.trans sublist_take)
    moreover have "start = 0 \<or> last (take start kept) \<noteq> CHR '':''"
    proof (cases "start = 0")
      case nonzero: False
      with "2.prems" have d: "short_type_delimiter (kept ! (start - 1))" "start \<le> length kept"
        by (simp_all add: short_ok_def)
      from nonzero d(2) have ne: "take start kept \<noteq> []" by auto
      from last_conv_nth [OF ne] nonzero d(2) have "last (take start kept) = kept ! (start - 1)" by simp
      with d colon_no_delimiter show ?thesis by auto
    qed simp
    ultimately have "short_ok (length (take start kept)) (take start kept) (tl cs)"
      using "2.prems" by (auto simp: short_ok_def)
    with "2.IH"(1) [OF True refl] True show ?thesis by simp
  next
    case False
    have "short_ok (if short_type_delimiter c then length (kept @ [c]) else start) (kept @ [c]) cs"
      using "2.prems" False by (auto simp: short_ok_def double_colon_snoc nth_append)
    from "2.IH"(2) [OF False refl this] show ?thesis unfolding short_type_go.simps if_not_P [OF False] Let_def .
  qed
qed

lemma short_type_go_plain: "\<not> sublist ''::'' s \<Longrightarrow> short_type_go start kept s = kept @ s"
proof (induction s arbitrary: start kept)
  case (Cons c cs)
  have no: "\<not> (c = CHR '':'' \<and> cs \<noteq> [] \<and> hd cs = CHR '':'')"
  proof
    assume "c = CHR '':'' \<and> cs \<noteq> [] \<and> hd cs = CHR '':''"
    then have "prefix ''::'' (c # cs)" by (cases cs) auto
    with Cons.prems show False by auto
  qed
  from Cons.prems have "\<not> sublist ''::'' cs" by (auto simp: sublist_Cons_right)
  with Cons.IH have "short_type_go start' (kept @ [c]) cs = kept @ c # cs" for start' by simp
  then show ?case unfolding short_type_go.simps if_not_P [OF no] Let_def by simp
qed simp

text \<open>
  A shortened type name has no path left in it: it contains no double colon, and shortening it again
  changes nothing; a name without a path is its own short form.
\<close>
theorem short_type_name_has_no_path:
  "\<not> sublist ''::'' (short_type_name name) \<and> short_type_name (short_type_name name) = short_type_name name"
proof
  show no: "\<not> sublist ''::'' (short_type_name name)"
    unfolding short_type_name_def by (rule short_type_go_clean) (simp add: short_ok_def)
  show "short_type_name (short_type_name name) = short_type_name name"
    using short_type_go_plain [OF no, of 0 "[]"] by (simp add: short_type_name_def)
qed

end
