(* ===== verification/AccessLog.thy ===== *)
theory AccessLog
  imports Logging
begin

text \<open>
  The access log of \<open>caelix-core/src/logging.rs\<close>: the text of its entries, the decision whether a
  request is logged, and the bounded queue between the request workers and the writer thread as a step
  relation. The writer lives as long as the program, so the end of its channel is not modelled.
  Formatting of floating-point seconds is an argument.
\<close>

section \<open>Entries\<close>

record access_info =
  ai_client_address :: str
  ai_method :: str
  ai_path_and_query :: str
  ai_protocol :: str
  ai_status :: nat
  ai_response_size :: "nat option"
  ai_referrer :: str
  ai_user_agent :: str
  ai_elapsed :: nat

datatype access_event = CompactEntry str nat nat | InfoEntry access_info

definition log_level_for_status :: "nat \<Rightarrow> log_level" where
  "log_level_for_status status = (if 500 \<le> status \<and> status \<le> 599 then LogError else LogInfo)"

definition color_status :: "nat \<Rightarrow> str" where
  "color_status status =
     (let color = (if 500 \<le> status \<and> status \<le> 599 then ERROR_COLOR
                   else if 400 \<le> status \<and> status \<le> 499 then WARN_COLOR
                   else OK_STATUS_COLOR)
      in color @ show_nat status @ RESET_COLOR)"

definition format_http_request_info :: "(nat \<Rightarrow> str) \<Rightarrow> access_info \<Rightarrow> str" where
  "format_http_request_info seconds_text i =
     (let request = (if ai_path_and_query i = [] then ai_method i
                     else ai_method i @ '' '' @ ai_path_and_query i);
          response_size = (case ai_response_size i of Some n \<Rightarrow> show_nat n | None \<Rightarrow> ''-'')
      in ai_client_address i @ '' '' @ [CHR 0x22] @ request @ '' '' @ ai_protocol i @ [CHR 0x22] @ '' '' @
         color_status (ai_status i) @ '' '' @ response_size @ '' '' @ [CHR 0x22] @ ai_referrer i @ [CHR 0x22] @
         '' '' @ [CHR 0x22] @ ai_user_agent i @ [CHR 0x22] @ '' '' @ seconds_text (ai_elapsed i))"

fun entry_status :: "access_event \<Rightarrow> nat" where
  "entry_status (CompactEntry _ status _) = status"
| "entry_status (InfoEntry i) = ai_status i"

fun entry_text :: "(nat \<Rightarrow> str) \<Rightarrow> access_event \<Rightarrow> str \<times> nat option" where
  "entry_text seconds_text (CompactEntry request status elapsed) =
     (request @ '' '' @ color_status status, Some elapsed)"
| "entry_text seconds_text (InfoEntry i) = (format_http_request_info seconds_text i, None)"

text \<open>The line of an entry and its stream.\<close>

definition access_line :: "(nat \<Rightarrow> str) \<Rightarrow> nat \<times> access_event \<Rightarrow> str" where
  "access_line seconds_text written =
     (case written of (now, event) \<Rightarrow>
        format_log_line now ''HTTP'' (log_level_for_status (entry_status event))
          (fst (entry_text seconds_text event)) (snd (entry_text seconds_text event)))"

definition is_error_entry :: "access_event \<Rightarrow> bool" where
  "is_error_entry event \<longleftrightarrow> log_level_for_status (entry_status event) = LogError"

section \<open>Requests\<close>

text \<open>Logging a request: the state of the logger afterwards, and the entry for the writer, if any.\<close>

definition log_http_request ::
    "environment \<Rightarrow> nat \<Rightarrow> str \<Rightarrow> str \<Rightarrow> nat \<Rightarrow> nat \<Rightarrow> log_state \<Rightarrow> log_state \<times> access_event option" where
  "log_http_request env now request_method request_path status elapsed s =
     (let level = log_level_for_status status
      in (case log_level_enabled env level s of
            (enabled, s1) \<Rightarrow>
              if \<not> enabled then (s1, None)
              else
                (let s2 = init_logging s1
                 in if lg_subscriber s2 then (s2, Some (CompactEntry (request_method @ '' '' @ request_path) status elapsed))
                    else (log_line env now ''HTTP'' level
                            (request_method @ '' '' @ request_path @ '' '' @ color_status status) (Some elapsed) s2, None))))"

definition log_http_request_info ::
    "(nat \<Rightarrow> str) \<Rightarrow> environment \<Rightarrow> nat \<Rightarrow> access_info \<Rightarrow> log_state \<Rightarrow> log_state \<times> access_event option" where
  "log_http_request_info seconds_text env now i s =
     (let level = log_level_for_status (ai_status i)
      in (case log_level_enabled env level s of
            (enabled, s1) \<Rightarrow>
              if \<not> enabled then (s1, None)
              else
                (let s2 = init_logging s1
                 in if lg_subscriber s2 then (s2, Some (InfoEntry i))
                    else (log_line env now ''HTTP'' level (format_http_request_info seconds_text i) None s2, None))))"

section \<open>The queue\<close>

definition ACCESS_LOG_QUEUE_CAPACITY :: nat where "ACCESS_LOG_QUEUE_CAPACITY = 65536"
definition ACCESS_LOG_BATCH_SIZE :: nat where "ACCESS_LOG_BATCH_SIZE = 1024"

text \<open>The writer waits for an entry, works off a batch (with so many entries left of it), or is about to
  report drops and flush.\<close>

datatype writer_phase = Receiving | InBatch nat | Flushing

text \<open>
  Producers that found room and are about to send, and those that have counted a drop in the public
  counter but not yet in the one of the report, are part of the state. The last five fields record what
  happened and are not part of the program.
\<close>

record access_log =
  al_queue :: "access_event list"
  al_dropped :: nat
  al_pending :: nat
  al_sending :: "access_event list"
  al_counting :: nat
  al_writer :: writer_phase
  al_stdout :: "str list"
  al_stderr :: "str list"
  al_offered :: nat
  al_accepted :: "access_event list"
  al_written :: "(nat \<times> access_event) list"
  al_drops :: nat
  al_reported :: nat

definition access_log_new :: access_log where
  "access_log_new =
     \<lparr>al_queue = [], al_dropped = 0, al_pending = 0, al_sending = [], al_counting = 0, al_writer = Receiving,
      al_stdout = [], al_stderr = [], al_offered = 0, al_accepted = [], al_written = [], al_drops = 0,
      al_reported = 0\<rparr>"

definition queue_full :: "access_log \<Rightarrow> bool" where
  "queue_full s \<longleftrightarrow> ACCESS_LOG_QUEUE_CAPACITY \<le> length (al_queue s)"

text \<open>\<open>fetch_add\<close> wraps around.\<close>

definition record_drop :: "access_log \<Rightarrow> access_log" where
  "record_drop s =
     s\<lparr>al_dropped := wrapping_add (al_dropped s) 1, al_counting := al_counting s + 1, al_drops := al_drops s + 1\<rparr>"

definition write_access_log :: "(nat \<Rightarrow> str) \<Rightarrow> nat \<Rightarrow> access_event \<Rightarrow> access_log \<Rightarrow> access_log" where
  "write_access_log seconds_text now event s =
     (let line = access_line seconds_text (now, event);
          s' = s\<lparr>al_written := al_written s @ [(now, event)]\<rparr>
      in if is_error_entry event then s'\<lparr>al_stderr := al_stderr s @ [line]\<rparr>
         else s'\<lparr>al_stdout := al_stdout s @ [line]\<rparr>)"

definition report_dropped_access_logs :: "access_log \<Rightarrow> access_log" where
  "report_dropped_access_logs s =
     (let dropped = al_pending s; s' = s\<lparr>al_pending := 0, al_reported := al_reported s + dropped\<rparr>
      in if 0 < dropped
         then s'\<lparr>al_stderr := al_stderr s @
                [''[Caelix] access-log writer queue was full; dropped '' @ show_nat dropped @ '' entries'']\<rparr>
         else s')"

inductive access_step :: "(nat \<Rightarrow> str) \<Rightarrow> access_log \<Rightarrow> access_log \<Rightarrow> bool" for seconds_text where
  offer_full: "queue_full s \<Longrightarrow>
    access_step seconds_text s ((record_drop s)\<lparr>al_offered := al_offered s + 1\<rparr>)"
| offer_room: "\<not> queue_full s \<Longrightarrow>
    access_step seconds_text s (s\<lparr>al_sending := e # al_sending s, al_offered := al_offered s + 1\<rparr>)"
| send_full: "e \<in> set (al_sending s) \<Longrightarrow> queue_full s \<Longrightarrow>
    access_step seconds_text s ((record_drop s)\<lparr>al_sending := remove1 e (al_sending s)\<rparr>)"
| send_room: "e \<in> set (al_sending s) \<Longrightarrow> \<not> queue_full s \<Longrightarrow>
    access_step seconds_text s
      (s\<lparr>al_sending := remove1 e (al_sending s), al_queue := al_queue s @ [e], al_accepted := al_accepted s @ [e]\<rparr>)"
| count_drop: "al_counting s = Suc n \<Longrightarrow>
    access_step seconds_text s (s\<lparr>al_counting := n, al_pending := wrapping_add (al_pending s) 1\<rparr>)"
| receive: "al_writer s = Receiving \<Longrightarrow> al_queue s = e # q \<Longrightarrow>
    access_step seconds_text s
      ((write_access_log seconds_text now e s)\<lparr>al_queue := q, al_writer := InBatch (ACCESS_LOG_BATCH_SIZE - 1)\<rparr>)"
| more: "al_writer s = InBatch (Suc n) \<Longrightarrow> al_queue s = e # q \<Longrightarrow>
    access_step seconds_text s ((write_access_log seconds_text now e s)\<lparr>al_queue := q, al_writer := InBatch n\<rparr>)"
| batch_end: "al_writer s = InBatch n \<Longrightarrow> n = 0 \<or> al_queue s = [] \<Longrightarrow>
    access_step seconds_text s (s\<lparr>al_writer := Flushing\<rparr>)"
| timed_out: "al_writer s = Receiving \<Longrightarrow> al_queue s = [] \<Longrightarrow>
    access_step seconds_text s (s\<lparr>al_writer := Flushing\<rparr>)"
| report: "al_writer s = Flushing \<Longrightarrow>
    access_step seconds_text s ((report_dropped_access_logs s)\<lparr>al_writer := Receiving\<rparr>)"
| flush: "al_writer s = Flushing \<Longrightarrow> access_step seconds_text s (s\<lparr>al_writer := Receiving\<rparr>)"

inductive_cases access_stepE: "access_step seconds_text s t"

section \<open>Accounting\<close>

definition access_ok :: "(nat \<Rightarrow> str) \<Rightarrow> access_log \<Rightarrow> bool" where
  "access_ok seconds_text s \<longleftrightarrow>
     length (al_queue s) \<le> ACCESS_LOG_QUEUE_CAPACITY \<and>
     al_accepted s = map snd (al_written s) @ al_queue s \<and>
     al_offered s = length (al_accepted s) + al_drops s + length (al_sending s) \<and>
     al_dropped s = al_drops s mod (u64_max + 1) \<and>
     (al_reported s + al_pending s + al_counting s) mod (u64_max + 1) = al_drops s mod (u64_max + 1) \<and>
     al_stdout s = map (access_line seconds_text) (filter (\<lambda>w. \<not> is_error_entry (snd w)) (al_written s))"

lemma write_access_log_rest [simp]:
  "al_queue (write_access_log st now e s) = al_queue s" "al_dropped (write_access_log st now e s) = al_dropped s"
  "al_pending (write_access_log st now e s) = al_pending s" "al_sending (write_access_log st now e s) = al_sending s"
  "al_counting (write_access_log st now e s) = al_counting s" "al_offered (write_access_log st now e s) = al_offered s"
  "al_accepted (write_access_log st now e s) = al_accepted s" "al_drops (write_access_log st now e s) = al_drops s"
  "al_reported (write_access_log st now e s) = al_reported s"
  "al_written (write_access_log st now e s) = al_written s @ [(now, e)]"
  by (simp_all add: write_access_log_def Let_def)

lemma write_access_log_stdout [simp]:
  "al_stdout (write_access_log st now e s) =
     al_stdout s @ (if is_error_entry e then [] else [access_line st (now, e)])"
  by (simp add: write_access_log_def Let_def)

lemma wrapping_add_mod: "wrapping_add (a mod (u64_max + 1)) b = (a + b) mod (u64_max + 1)"
  by (simp add: wrapping_add_def mod_add_left_eq)

lemma access_ok_new: "access_ok st access_log_new"
  by (simp add: access_ok_def access_log_new_def)

lemma access_ok_drop:
  assumes "access_ok st s"
  shows "al_dropped (record_drop s) = al_drops (record_drop s) mod (u64_max + 1)"
    and "(al_reported s + al_pending s + (al_counting s + 1)) mod (u64_max + 1) = (al_drops s + 1) mod (u64_max + 1)"
proof -
  show "al_dropped (record_drop s) = al_drops (record_drop s) mod (u64_max + 1)"
    using assms unfolding access_ok_def record_drop_def by (simp only: wrapping_add_mod) simp
  from assms have "(al_reported s + al_pending s + al_counting s) mod (u64_max + 1) = al_drops s mod (u64_max + 1)"
    by (simp only: access_ok_def)
  then have "((al_reported s + al_pending s + al_counting s) + 1) mod (u64_max + 1) = (al_drops s + 1) mod (u64_max + 1)"
    by (rule mod_add_cong) (rule refl)
  then show "(al_reported s + al_pending s + (al_counting s + 1)) mod (u64_max + 1) = (al_drops s + 1) mod (u64_max + 1)"
    by (simp only: add.assoc)
qed

lemma report_dropped_rest [simp]:
  "al_queue (report_dropped_access_logs s) = al_queue s" "al_dropped (report_dropped_access_logs s) = al_dropped s"
  "al_sending (report_dropped_access_logs s) = al_sending s" "al_counting (report_dropped_access_logs s) = al_counting s"
  "al_offered (report_dropped_access_logs s) = al_offered s" "al_accepted (report_dropped_access_logs s) = al_accepted s"
  "al_written (report_dropped_access_logs s) = al_written s" "al_drops (report_dropped_access_logs s) = al_drops s"
  "al_stdout (report_dropped_access_logs s) = al_stdout s"
  "al_pending (report_dropped_access_logs s) = 0"
  "al_reported (report_dropped_access_logs s) = al_reported s + al_pending s"
  by (simp_all add: report_dropped_access_logs_def Let_def)

lemma record_drop_rest [simp]:
  "al_queue (record_drop s) = al_queue s" "al_pending (record_drop s) = al_pending s"
  "al_sending (record_drop s) = al_sending s" "al_counting (record_drop s) = al_counting s + 1"
  "al_offered (record_drop s) = al_offered s" "al_accepted (record_drop s) = al_accepted s"
  "al_written (record_drop s) = al_written s" "al_drops (record_drop s) = al_drops s + 1"
  "al_stdout (record_drop s) = al_stdout s" "al_reported (record_drop s) = al_reported s"
  by (simp_all add: record_drop_def)

lemma access_ok_unchanged:
  assumes "access_ok st s" and "al_dropped t = al_dropped s" and "al_drops t = al_drops s"
    and "al_reported t + al_pending t + al_counting t = al_reported s + al_pending s + al_counting s"
    and "length (al_queue t) \<le> ACCESS_LOG_QUEUE_CAPACITY"
    and "al_accepted t = map snd (al_written t) @ al_queue t"
    and "al_offered t = length (al_accepted t) + al_drops t + length (al_sending t)"
    and "al_stdout t = map (access_line st) (filter (\<lambda>w. \<not> is_error_entry (snd w)) (al_written t))"
  shows "access_ok st t"
  using assms unfolding access_ok_def by metis

lemma access_ok_dropped:
  assumes "access_ok st s" and "al_dropped t = al_dropped (record_drop s)" and "al_drops t = al_drops s + 1"
    and "al_reported t = al_reported s" "al_pending t = al_pending s" "al_counting t = al_counting s + 1"
    and "al_queue t = al_queue s" "al_accepted t = al_accepted s" "al_written t = al_written s"
    and "al_stdout t = al_stdout s"
    and "al_offered t = length (al_accepted t) + al_drops t + length (al_sending t)"
  shows "access_ok st t"
  unfolding access_ok_def assms(2-10)
  using assms(1) assms(11)[unfolded assms(2-10)] access_ok_drop [OF assms(1)]
  by (simp only: access_ok_def record_drop_rest simp_thms)

lemma mod_mid: "(a + b mod m + c) mod m = (a + b + c) mod (m :: nat)"
  by (metis add.commute add.left_commute mod_add_left_eq)

lemma remove1_length: "e \<in> set xs \<Longrightarrow> Suc (length (remove1 e xs)) = length xs"
  by (induction xs) auto

lemma access_ok_step:
  assumes "access_step st s t" and "access_ok st s"
  shows "access_ok st t"
  using assms
proof (induction rule: access_step.induct)
  case (offer_full s)
  show ?case by (rule access_ok_dropped [OF offer_full(2)]) (use offer_full(2) in \<open>simp_all add: access_ok_def\<close>)
next
  case (offer_room s e)
  show ?case
    by (rule access_ok_unchanged [OF offer_room(2)]) (use offer_room(2) in \<open>simp_all add: access_ok_def\<close>)
next
  case (send_full e s)
  show ?case
    by (rule access_ok_dropped [OF send_full(3)])
       (use send_full(1,3) remove1_length [OF send_full(1)] in \<open>simp_all add: access_ok_def\<close>)
next
  case (send_room e s)
  show ?case
    by (rule access_ok_unchanged [OF send_room(3)])
       (use send_room remove1_length [OF send_room(1)] in \<open>simp_all add: access_ok_def queue_full_def\<close>)
next
  case (count_drop s n)
  then have "(al_reported s + (al_pending s + 1) + n) mod (u64_max + 1) = al_drops s mod (u64_max + 1)"
    by (simp add: access_ok_def)
  then have "(al_reported s + wrapping_add (al_pending s) 1 + n) mod (u64_max + 1) = al_drops s mod (u64_max + 1)"
    unfolding wrapping_add_def mod_mid .
  with count_drop show ?case unfolding access_ok_def by (simp only: access_log.simps) auto
next
  case (receive s e q now)
  show ?case
    by (rule access_ok_unchanged [OF receive(3)]) (use receive in \<open>simp_all add: access_ok_def\<close>)
next
  case (more s n e q now)
  show ?case by (rule access_ok_unchanged [OF more(3)]) (use more in \<open>simp_all add: access_ok_def\<close>)
next
  case (batch_end s n)
  show ?case
    by (rule access_ok_unchanged [OF batch_end(3)]) (use batch_end(3) in \<open>simp_all add: access_ok_def\<close>)
next
  case (timed_out s)
  show ?case
    by (rule access_ok_unchanged [OF timed_out(3)]) (use timed_out(3) in \<open>simp_all add: access_ok_def\<close>)
next
  case (report s)
  show ?case by (rule access_ok_unchanged [OF report(2)]) (use report(2) in \<open>simp_all add: access_ok_def\<close>)
next
  case (flush s)
  show ?case by (rule access_ok_unchanged [OF flush(2)]) (use flush(2) in \<open>simp_all add: access_ok_def\<close>)
qed

text \<open>C37: The books of the access log balance in every reachable state, whatever the interleaving of request
  workers and writer: the queue never exceeds its capacity; entries are written in the order they were
  accepted and none is lost or written twice; every entry that was offered was accepted, dropped or is
  about to be sent; the public counter is the number of drops (modulo its width), as are the drops
  reported, pending and being counted together; and standard output holds exactly the lines of the
  written entries that are no server errors, in order.\<close>
theorem access_log_accounts_for_every_entry:
  assumes "(access_step st)\<^sup>*\<^sup>* access_log_new s"
  shows "length (al_queue s) \<le> 65536 \<and>
    al_accepted s = map snd (al_written s) @ al_queue s \<and>
    al_offered s = length (al_accepted s) + al_drops s + length (al_sending s) \<and>
    al_dropped s = al_drops s mod 2 ^ 64 \<and>
    (al_reported s + al_pending s + al_counting s) mod 2 ^ 64 = al_drops s mod 2 ^ 64 \<and>
    al_stdout s = map (access_line st) (filter (\<lambda>w. \<not> is_error_entry (snd w)) (al_written s))"
proof -
  from assms have "access_ok st s"
    by (induction rule: rtranclp_induct) (simp_all add: access_ok_new access_ok_step)
  then show ?thesis by (simp add: access_ok_def ACCESS_LOG_QUEUE_CAPACITY_def)
qed

text \<open>An entry that is offered, accepted and written.\<close>

definition demo_entry :: access_event where
  "demo_entry = CompactEntry ''GET /'' 200 0"

lemma demo_run:
  "\<exists>s. (access_step st)\<^sup>*\<^sup>* access_log_new s \<and> map snd (al_written s) = [demo_entry] \<and> al_offered s = 1"
proof -
  define s1 where "s1 = access_log_new\<lparr>al_sending := [demo_entry], al_offered := 1\<rparr>"
  define s2 where "s2 = s1\<lparr>al_sending := [], al_queue := [demo_entry], al_accepted := [demo_entry]\<rparr>"
  define s3 where "s3 =
    (write_access_log st 0 demo_entry s2)\<lparr>al_queue := [], al_writer := InBatch (ACCESS_LOG_BATCH_SIZE - 1)\<rparr>"
  have room: "\<not> queue_full access_log_new" "\<not> queue_full s1"
    by (simp_all add: queue_full_def access_log_new_def ACCESS_LOG_QUEUE_CAPACITY_def s1_def)
  have 1: "access_step st access_log_new s1"
    using access_step.offer_room [OF room(1), of st demo_entry] by (simp add: access_log_new_def s1_def)
  have 2: "access_step st s1 s2"
    using access_step.send_room [of demo_entry s1 st] room(2) by (simp add: access_log_new_def s1_def s2_def)
  have 3: "access_step st s2 s3"
    unfolding s3_def by (rule access_step.receive) (simp_all add: access_log_new_def s1_def s2_def)
  from 1 2 3 have "(access_step st)\<^sup>*\<^sup>* access_log_new s3" by (meson converse_rtranclp_into_rtranclp rtranclp.rtrancl_refl)
  moreover have "map snd (al_written s3) = [demo_entry]" "al_offered s3 = 1"
    by (simp_all add: access_log_new_def s1_def s2_def s3_def)
  ultimately show ?thesis by (intro exI conjI)
qed

theorem access_log_accounts_for_every_entry_witness:
  "\<exists>s :: access_log. map snd (al_written s) = [demo_entry] \<and> al_accepted s = [demo_entry] @ al_queue s \<and>
     length (al_accepted s) + al_drops s + length (al_sending s) = 1"
proof -
  obtain s where s: "(access_step (\<lambda>_. []))\<^sup>*\<^sup>* access_log_new s" "map snd (al_written s) = [demo_entry]"
    "al_offered s = 1" using demo_run [of "\<lambda>_. []"] by (elim exE conjE)
  from access_log_accounts_for_every_entry [OF s(1)]
  have "al_accepted s = map snd (al_written s) @ al_queue s"
    "al_offered s = length (al_accepted s) + al_drops s + length (al_sending s)" by blast+
  with s(2,3) have "map snd (al_written s) = [demo_entry]" "al_accepted s = [demo_entry] @ al_queue s"
    "length (al_accepted s) + al_drops s + length (al_sending s) = 1" by (simp_all only:)
  then show ?thesis by (intro exI [of _ s] conjI)
qed

text \<open>
  A drop is only ever caused by a full queue, and the writer takes the request workers no time: it can
  always make a step while there is anything to write.
\<close>

lemma drop_means_full:
  "access_step st s t \<Longrightarrow> al_drops s < al_drops t \<Longrightarrow> queue_full s"
  by (erule access_stepE) auto

lemma writer_never_stuck:
  assumes "al_queue s \<noteq> []"
  shows "\<exists>t. access_step st s t \<and> al_sending t = al_sending s \<and> al_offered t = al_offered s"
proof -
  from assms obtain e q where q: "al_queue s = e # q" by (cases "al_queue s") auto
  show ?thesis
  proof (cases "al_writer s")
    case Receiving
    show ?thesis by (rule exI, rule conjI, rule access_step.receive [OF Receiving q]) simp
  next
    case (InBatch n)
    show ?thesis
    proof (cases n)
      case 0
      show ?thesis by (rule exI, rule conjI, rule access_step.batch_end [OF InBatch]) (simp_all add: 0)
    next
      case (Suc k)
      show ?thesis by (rule exI, rule conjI, rule access_step.more [OF InBatch [unfolded Suc] q]) simp
    qed
  next
    case Flushing
    show ?thesis by (rule exI, rule conjI, rule access_step.flush [OF Flushing]) simp
  qed
qed

end
