(* ===== verification/RouteLog.thy ===== *)
theory RouteLog
  imports Logging ModuleGraph
begin

text \<open>
  The route summary of \<open>log_module_routes\<close>: a walk over the imports of the root module that logs and
  counts the controllers of every module once. The loop over the imports of a module is the recursion
  over the list of pending imports; the state is the set of modules seen. What \<open>route_log_fn\<close> prints is
  given by the list of controllers it was called for.
\<close>

section \<open>The walk\<close>

function log_routes_for ::
    "('m::finite) program \<Rightarrow> (controller_def \<Rightarrow> nat) \<Rightarrow> 'm list \<Rightarrow> 'm set \<Rightarrow>
     (nat \<times> nat) \<times> controller_def list \<times> 'm set"
where
  "log_routes_for prog route_count [] seen = ((0, 0), [], seen)"
| "log_routes_for prog route_count (m # ms) seen =
     (if m \<in> seen then log_routes_for prog route_count ms seen
      else
        (case log_routes_for prog route_count (md_imports (mod_register (prog m))) (insert m seen) of
           ((routes, controllers), logged, seen1) \<Rightarrow>
             (let own = md_controllers (mod_register (prog m))
              in (case log_routes_for prog route_count ms seen1 of
                    ((routes', controllers'), logged', seen2) \<Rightarrow>
                      ((routes + sum_list (map route_count own) + routes', controllers + length own + controllers'),
                       logged @ own @ logged', seen2)))))"
  by pat_completeness auto

lemma log_routes_for_seen_mono:
  "log_routes_for_dom (prog, route_count, ms, seen) \<Longrightarrow>
   seen \<subseteq> snd (snd (log_routes_for prog route_count ms seen))"
proof (induction prog route_count ms seen rule: log_routes_for.pinduct)
  case (1 prog route_count seen)
  then show ?case by (simp add: log_routes_for.psimps)
next
  case (2 prog route_count m ms seen)
  show ?case
  proof (cases "m \<in> seen")
    case True
    with 2 show ?thesis by (simp add: log_routes_for.psimps)
  next
    case False
    obtain r c l s1 where a: "log_routes_for prog route_count (md_imports (mod_register (prog m))) (insert m seen) = ((r, c), l, s1)"
      by (metis prod.exhaust)
    with "2.IH"(2) [OF False] have "seen \<subseteq> s1" by simp
    moreover from "2.IH"(3) [OF False a [symmetric] refl refl refl]
    have "s1 \<subseteq> snd (snd (log_routes_for prog route_count ms s1))" .
    ultimately show ?thesis using "2.hyps" False a
      by (auto simp: log_routes_for.psimps Let_def split: prod.splits)
  qed
qed

termination log_routes_for
proof (relation "inv_image (finite_psubset <*lex*> less_than)
    (\<lambda>(prog, route_count, ms, seen). (UNIV - seen, length ms))", goal_cases)
  case 1
  show ?case by (intro wf_inv_image wf_lex_prod wf_finite_psubset wf_less_than)
next
  case (2 prog route_count m ms seen)
  then show ?case by simp
next
  case (3 prog route_count m ms seen)
  then show ?case by (auto simp: finite_psubset_def)
next
  case (4 prog route_count m ms seen x y xa ya xb yb own)
  then have "insert m seen \<subseteq> yb" using log_routes_for_seen_mono by (metis snd_conv)
  with 4 show ?case by (auto simp: finite_psubset_def)
qed

definition log_module_routes ::
    "environment \<Rightarrow> nat \<Rightarrow> ('m::finite) program \<Rightarrow> (controller_def \<Rightarrow> nat) \<Rightarrow>
     (controller_def \<Rightarrow> controller_routes) \<Rightarrow> 'm \<Rightarrow> log_state \<Rightarrow> log_state" where
  "log_module_routes env now prog route_count routes_of root s =
     (case log_routes_for prog route_count (md_imports (mod_register (prog root))) {} of
        ((routes, controllers), logged, _) \<Rightarrow>
          (let own = md_controllers (mod_register (prog root));
               total_routes = routes + sum_list (map route_count own);
               total_controllers = controllers + length own;
               route_label = (if total_routes = 1 then ''route'' else ''routes'');
               controller_label = (if total_controllers = 1 then ''controller'' else ''controllers'')
           in log_line env now ''routes'' LogInfo
                (show_nat total_routes @ '' '' @ route_label @ '' registered across '' @
                 show_nat total_controllers @ '' '' @ controller_label) None
                (fold (\<lambda>c. log_controller_routes env now (routes_of c)) (logged @ own) s)))"

section \<open>What is counted\<close>

lemma log_routes_for_walk:
  "log_routes_for prog route_count ms seen = ((r, c), logged, seen') \<Longrightarrow>
   \<exists>L. distinct L \<and> set L = seen' - seen \<and> seen \<union> set ms \<subseteq> seen' \<and>
     logged = concat (map (\<lambda>m. md_controllers (mod_register (prog m))) L) \<and>
     r = sum_list (map route_count logged) \<and> c = length logged \<and>
     (\<forall>m\<in>seen' - seen. set (imports_of prog m) \<subseteq> seen') \<and>
     seen' \<subseteq> seen \<union> (import_rel prog)\<^sup>* `` set ms"
proof (induction prog route_count ms seen arbitrary: r c logged seen' rule: log_routes_for.induct)
  case (1 prog route_count seen)
  then show ?case by (auto intro!: exI [of _ "[]"])
next
  case (2 prog route_count m ms seen)
  show ?case
  proof (cases "m \<in> seen")
    case True
    with "2.prems" have "log_routes_for prog route_count ms seen = ((r, c), logged, seen')" by simp
    from "2.IH"(1) [OF True this] obtain L where "distinct L" "set L = seen' - seen" "seen \<union> set ms \<subseteq> seen'"
      "logged = concat (map (\<lambda>m. md_controllers (mod_register (prog m))) L)"
      "r = sum_list (map route_count logged)" "c = length logged"
      "\<forall>m\<in>seen' - seen. set (imports_of prog m) \<subseteq> seen'"
      "seen' \<subseteq> seen \<union> (import_rel prog)\<^sup>* `` set ms" by blast
    moreover from this(3) True have "seen \<union> set (m # ms) \<subseteq> seen'" by auto
    moreover from calculation(8) have "seen' \<subseteq> seen \<union> (import_rel prog)\<^sup>* `` set (m # ms)" by auto
    ultimately show ?thesis by blast
  next
    case False
    let ?own = "md_controllers (mod_register (prog m))"
    obtain r1 c1 l1 s1 where a: "log_routes_for prog route_count (md_imports (mod_register (prog m))) (insert m seen) = ((r1, c1), l1, s1)"
      by (metis prod.exhaust)
    obtain r2 c2 l2 s2 where b: "log_routes_for prog route_count ms s1 = ((r2, c2), l2, s2)"
      by (metis prod.exhaust)
    from "2.prems" False a b have res: "r = r1 + sum_list (map route_count ?own) + r2" "c = c1 + length ?own + c2"
      "logged = l1 @ ?own @ l2" "seen' = s2" by (simp_all add: Let_def)
    from "2.IH"(2) [OF False a] obtain L1 where L1: "distinct L1" "set L1 = s1 - insert m seen"
      "insert m seen \<union> set (imports_of prog m) \<subseteq> s1"
      "l1 = concat (map (\<lambda>m. md_controllers (mod_register (prog m))) L1)"
      "r1 = sum_list (map route_count l1)" "c1 = length l1"
      "\<forall>k\<in>s1 - insert m seen. set (imports_of prog k) \<subseteq> s1"
      "s1 \<subseteq> insert m seen \<union> (import_rel prog)\<^sup>* `` set (imports_of prog m)"
      unfolding imports_of_def by blast
    from "2.IH"(3) [OF False a [symmetric] refl refl refl b] obtain L2 where L2: "distinct L2"
      "set L2 = s2 - s1" "s1 \<union> set ms \<subseteq> s2"
      "l2 = concat (map (\<lambda>m. md_controllers (mod_register (prog m))) L2)"
      "r2 = sum_list (map route_count l2)" "c2 = length l2"
      "\<forall>k\<in>s2 - s1. set (imports_of prog k) \<subseteq> s2" "s2 \<subseteq> s1 \<union> (import_rel prog)\<^sup>* `` set ms"
      by blast
    have below: "(import_rel prog)\<^sup>* `` set (imports_of prog m) \<subseteq> (import_rel prog)\<^sup>* `` {m}"
      by (auto simp: import_rel_def intro: converse_rtrancl_into_rtrancl)
    have self: "m \<in> (import_rel prog)\<^sup>* `` {m}" by simp
    have split: "(import_rel prog)\<^sup>* `` set (m # ms) = (import_rel prog)\<^sup>* `` {m} \<union> (import_rel prog)\<^sup>* `` set ms"
      by auto
    have "insert m seen \<union> (import_rel prog)\<^sup>* `` set (imports_of prog m) \<subseteq> seen \<union> (import_rel prog)\<^sup>* `` {m}"
      using below self by (intro Un_least insert_subsetI) (simp_all add: le_supI2)
    with L1(8) have "s1 \<subseteq> seen \<union> (import_rel prog)\<^sup>* `` {m}" by (rule order_trans)
    with L2(8) have reach: "s2 \<subseteq> seen \<union> (import_rel prog)\<^sup>* `` set (m # ms)"
      unfolding split by (meson Un_mono order_refl order_trans Un_assoc [THEN equalityD1])
    have closed: "\<forall>k\<in>s2 - seen. set (imports_of prog k) \<subseteq> s2"
      using L1(3,7) L2(3,7) by blast
    have set: "set (L1 @ [m] @ L2) = s2 - seen" using L1(2,3) L2(2,3) False by auto
    have dist: "distinct (L1 @ [m] @ L2)" using L1(1,2,3) L2(1,2) by auto
    have sub: "seen \<union> set (m # ms) \<subseteq> s2" using L1(3) L2(3) by auto
    have logged: "l1 @ ?own @ l2 = concat (map (\<lambda>m. md_controllers (mod_register (prog m))) (L1 @ [m] @ L2))"
      by (simp add: L1(4) L2(4))
    have sums: "r1 + sum_list (map route_count ?own) + r2 = sum_list (map route_count (l1 @ ?own @ l2))"
      "c1 + length ?own + c2 = length (l1 @ ?own @ l2)"
      by (simp_all add: L1(5,6) L2(5,6))
    show ?thesis unfolding res
      by (intro exI [of _ "L1 @ [m] @ L2"] conjI dist set sub logged sums closed reach)
  qed
qed

text \<open>The summary counts every module of the graph once, however often it is imported: the controllers that
  are logged and counted are those of the modules reachable from the root through imports, each module
  once, and the number of routes is the sum of theirs.\<close>
theorem route_summary_counts_modules_once:
  "\<exists>L. distinct L \<and> set L = (import_rel prog)\<^sup>+ `` {root} \<and>
     (case log_routes_for prog route_count (md_imports (mod_register (prog root))) {} of
        ((routes, controllers), logged, _) \<Rightarrow>
          logged = concat (map (\<lambda>m. md_controllers (mod_register (prog m))) L) \<and>
          routes = sum_list (map route_count logged) \<and> controllers = length logged)"
proof -
  let ?ms = "md_imports (mod_register (prog root))"
  obtain r c logged s where w: "log_routes_for prog route_count ?ms {} = ((r, c), logged, s)"
    by (metis prod.exhaust)
  from log_routes_for_walk [OF w] obtain L where L: "distinct L" "set L = s" "set ?ms \<subseteq> s"
    "logged = concat (map (\<lambda>m. md_controllers (mod_register (prog m))) L)"
    "r = sum_list (map route_count logged)" "c = length logged"
    "\<forall>m\<in>s. set (imports_of prog m) \<subseteq> s" "s \<subseteq> (import_rel prog)\<^sup>* `` set ?ms"
    by auto
  have "s = (import_rel prog)\<^sup>+ `` {root}"
  proof
    have "(import_rel prog)\<^sup>* `` set ?ms \<subseteq> (import_rel prog)\<^sup>+ `` {root}"
      by (auto simp: import_rel_def imports_of_def intro: rtrancl_into_trancl2)
    with L(8) show "s \<subseteq> (import_rel prog)\<^sup>+ `` {root}" by blast
    show "(import_rel prog)\<^sup>+ `` {root} \<subseteq> s"
    proof
      fix k
      assume "k \<in> (import_rel prog)\<^sup>+ `` {root}"
      then have "(root, k) \<in> (import_rel prog)\<^sup>+" by simp
      then show "k \<in> s"
        by (induction rule: trancl_induct) (use L(3,7) in \<open>auto simp: import_rel_def imports_of_def\<close>)
    qed
  qed
  with L w show ?thesis by auto
qed

end
