(* ===== verification/ResponseAdapters.thy ===== *)
theory ResponseAdapters
  imports Requests Responses AccessLog
begin

text \<open>
  What the two HTTP adapters make of a response and of the errors of their extractors:
  \<open>to_actix_response\<close> and the error handlers of \<open>crates/caelix-actix/src/application.rs\<close>,
  \<open>to_axum_response\<close> of \<open>crates/caelix-axum/src/application.rs\<close>, and the text of a cookie,
  \<open>crates/caelix-core/src/cookie.rs\<close>.

  The header maps of the HTTP libraries are arguments with the laws of \<open>insert\<close> and \<open>append\<close> as a
  hypothesis; what counts as a valid status or header, and the response of a builder that has failed, are
  arguments too, as are the functions of the cookie crate.
\<close>

section \<open>Cookies\<close>

text \<open>The builder methods of a cookie besides those with values of time.\<close>

definition cookie_set_http_only :: "cookie \<Rightarrow> bool \<Rightarrow> cookie" where
  "cookie_set_http_only c v = c\<lparr>ck_http_only := v\<rparr>"

definition cookie_set_secure :: "cookie \<Rightarrow> bool \<Rightarrow> cookie" where
  "cookie_set_secure c v = c\<lparr>ck_secure := v\<rparr>"

definition cookie_set_same_site :: "cookie \<Rightarrow> same_site \<Rightarrow> cookie" where
  "cookie_set_same_site c v = c\<lparr>ck_same_site := v\<rparr>"

definition cookie_set_path :: "cookie \<Rightarrow> str \<Rightarrow> cookie" where
  "cookie_set_path c v = c\<lparr>ck_path := Some v\<rparr>"

definition cookie_set_domain :: "cookie \<Rightarrow> str \<Rightarrow> cookie" where
  "cookie_set_domain c v = c\<lparr>ck_domain := Some v\<rparr>"

text \<open>A cookie of the cookie crate: what its setters were called with.\<close>

record 'd crate_cookie =
  kc_name :: str
  kc_value :: str
  kc_http_only :: "bool option"
  kc_secure :: "bool option"
  kc_same_site :: "same_site option"
  kc_path :: "str option"
  kc_domain :: "str option"
  kc_max_age :: "'d option"
  kc_expires :: "int option"

record 'd cookie_crate =
  kl_duration :: "nat \<Rightarrow> 'd option"
  kl_duration_max :: 'd
  kl_encoded :: "'d crate_cookie \<Rightarrow> str"

definition crate_cookie_new :: "str \<Rightarrow> str \<Rightarrow> 'd crate_cookie" where
  "crate_cookie_new name v =
     \<lparr>kc_name = name, kc_value = v, kc_http_only = None, kc_secure = None, kc_same_site = None, kc_path = None,
      kc_domain = None, kc_max_age = None, kc_expires = None\<rparr>"

definition unwrap_or :: "'a option \<Rightarrow> 'a \<Rightarrow> 'a" where
  "unwrap_or x d = (case x of None \<Rightarrow> d | Some v \<Rightarrow> v)"

definition to_header_value :: "'d cookie_crate \<Rightarrow> cookie \<Rightarrow> str" where
  "to_header_value kl c =
     (let k0 = (crate_cookie_new (ck_name c) (ck_value c))
                 \<lparr>kc_http_only := Some (ck_http_only c), kc_secure := Some (ck_secure c),
                  kc_same_site := Some (case ck_same_site c of Strict \<Rightarrow> Strict | Lax \<Rightarrow> Lax | SameSiteNone \<Rightarrow> SameSiteNone)\<rparr>;
          k1 = (case ck_path c of None \<Rightarrow> k0 | Some p \<Rightarrow> k0\<lparr>kc_path := Some p\<rparr>);
          k2 = (case ck_domain c of None \<Rightarrow> k1 | Some d \<Rightarrow> k1\<lparr>kc_domain := Some d\<rparr>);
          k3 = (case ck_max_age c of None \<Rightarrow> k2
                | Some m \<Rightarrow> k2\<lparr>kc_max_age := Some (unwrap_or (kl_duration kl m) (kl_duration_max kl))\<rparr>);
          k4 = (case ck_expires c of None \<Rightarrow> k3 | Some e \<Rightarrow> k3\<lparr>kc_expires := Some e\<rparr>)
      in kl_encoded kl k4)"

text \<open>The actix adapter converts the cookie field by field as well.\<close>

definition actix_cookie_text :: "'d cookie_crate \<Rightarrow> cookie \<Rightarrow> str" where
  "actix_cookie_text kl c =
     (let r0 = crate_cookie_new (ck_name c) (ck_value c);
          r1 = r0\<lparr>kc_http_only := Some (ck_http_only c)\<rparr>;
          r2 = r1\<lparr>kc_secure := Some (ck_secure c)\<rparr>;
          r3 = r2\<lparr>kc_same_site := Some (case ck_same_site c of Strict \<Rightarrow> Strict | Lax \<Rightarrow> Lax | SameSiteNone \<Rightarrow> SameSiteNone)\<rparr>;
          r4 = (case ck_path c of None \<Rightarrow> r3 | Some p \<Rightarrow> r3\<lparr>kc_path := Some p\<rparr>);
          r5 = (case ck_domain c of None \<Rightarrow> r4 | Some d \<Rightarrow> r4\<lparr>kc_domain := Some d\<rparr>);
          r6 = (case ck_max_age c of None \<Rightarrow> r5
                | Some m \<Rightarrow> r5\<lparr>kc_max_age := Some (unwrap_or (kl_duration kl m) (kl_duration_max kl))\<rparr>);
          r7 = (case ck_expires c of None \<Rightarrow> r6 | Some e \<Rightarrow> r6\<lparr>kc_expires := Some e\<rparr>)
      in kl_encoded kl r7)"

section \<open>Responses of the HTTP libraries\<close>

record 'h header_lib =
  hl_empty :: 'h
  hl_insert :: "'h \<Rightarrow> str \<Rightarrow> str \<Rightarrow> 'h"
  hl_append :: "'h \<Rightarrow> str \<Rightarrow> str \<Rightarrow> 'h"
  hl_get_all :: "'h \<Rightarrow> str \<Rightarrow> str list"

text \<open>What a body consists of: bytes, or the chunks of a stream, of which some may be errors.\<close>

datatype wire_body = Whole bytes | Chunked "(str + bytes) list"

record 'h wire_response =
  wr_status :: nat
  wr_headers :: 'h
  wr_body :: wire_body

text \<open>Conversion of one item of a stream: the error that is logged, and the item.\<close>

fun actix_chunk :: "bytes result \<Rightarrow> http_exception option \<times> (str + bytes)" where
  "actix_chunk (Inr chunk) = (None, Inr chunk)"
| "actix_chunk (Inl err) = (Some err, Inl ''Internal Server Error'')"

fun axum_chunk :: "bytes result \<Rightarrow> http_exception option \<times> (str + bytes) option" where
  "axum_chunk (Inr chunk) = (None, Some (Inr chunk))"
| "axum_chunk (Inl err) = (Some err, None)"

definition header_pairs :: "http_response \<Rightarrow> (cookie \<Rightarrow> str) \<Rightarrow> (str \<times> str) list" where
  "header_pairs r cookie_text =
     (''content-type'', hr_content_type r) # hr_headers r @ map (\<lambda>c. (''set-cookie'', cookie_text c)) (hr_cookies r)"

text \<open>A builder that was given an invalid header ends in \<open>failed\<close>.\<close>

definition to_actix_response ::
    "'h header_lib \<Rightarrow> (nat \<Rightarrow> bool) \<Rightarrow> (str \<times> str \<Rightarrow> bool) \<Rightarrow> 'h wire_response \<Rightarrow> 'd cookie_crate \<Rightarrow> http_response \<Rightarrow>
     'h wire_response" where
  "to_actix_response hl status_ok header_ok failed kl r =
     (let status = (if status_ok (hr_status r) then hr_status r else 500);
          h1 = hl_insert hl (hl_empty hl) ''content-type'' (hr_content_type r);
          h2 = fold (\<lambda>(name, v) h. hl_insert hl h name v) (hr_headers r) h1;
          h3 = fold (\<lambda>c h. hl_append hl h ''set-cookie'' (actix_cookie_text kl c)) (hr_cookies r) h2
      in if \<not> list_all header_ok (header_pairs r (actix_cookie_text kl)) then failed
         else \<lparr>wr_status = status, wr_headers = h3,
               wr_body = (case hr_body r of
                            Buffered bytes \<Rightarrow> Whole bytes
                          | Streaming stream \<Rightarrow> Chunked (map (snd \<circ> actix_chunk) stream))\<rparr>)"

definition response_new :: "'h header_lib \<Rightarrow> bytes \<Rightarrow> 'h wire_response" where
  "response_new hl bytes = \<lparr>wr_status = 200, wr_headers = hl_empty hl, wr_body = Whole bytes\<rparr>"

definition to_axum_response ::
    "'h header_lib \<Rightarrow> (str \<times> str \<Rightarrow> bool) \<Rightarrow> 'd cookie_crate \<Rightarrow> http_response \<Rightarrow> 'h wire_response" where
  "to_axum_response hl header_ok kl r =
     (let h1 = hl_append hl (hl_empty hl) ''content-type'' (hr_content_type r);
          h2 = fold (\<lambda>(name, v) h. hl_append hl h name v) (hr_headers r) h1;
          h3 = fold (\<lambda>c h. hl_append hl h ''set-cookie'' (to_header_value kl c)) (hr_cookies r) h2;
          body = (case hr_body r of
                    Buffered bytes \<Rightarrow> Whole bytes
                  | Streaming stream \<Rightarrow> Chunked (List.map_filter (snd \<circ> axum_chunk) stream))
      in if list_all header_ok (header_pairs r (to_header_value kl))
         then \<lparr>wr_status = hr_status r, wr_headers = h3, wr_body = body\<rparr>
         else response_new hl ''Internal Server Error'')"

section \<open>Errors of the actix extractors\<close>

datatype json_payload_error = Overflow | OverflowKnownLength | Deserialize str | OtherPayloadError

text \<open>Unlike the buffered payload, this asks for the backtick that closes the name.\<close>

definition missing_field_name :: "str \<Rightarrow> str option" where
  "missing_field_name message =
     (case after_first ''missing field `'' message of
        None \<Rightarrow> None
      | Some rest \<Rightarrow>
          (if CHR ''`'' \<notin> set rest then None
           else (let field = takeWhile (\<lambda>c. c \<noteq> CHR ''`'') rest in if field = [] then None else Some field)))"

definition missing_field_exception :: "str \<Rightarrow> http_exception option" where
  "missing_field_exception message =
     map_option (\<lambda>field. with_errors (BadRequestException ''Validation failed'')
                   (Map.empty(field \<mapsto> [''is required''])))
       (missing_field_name message)"

definition json_exception :: "json_payload_error \<Rightarrow> nat \<Rightarrow> http_exception" where
  "json_exception err body_limit =
     (if err = Overflow \<or> err = OverflowKnownLength
      then PayloadTooLargeException
             (''request body exceeds the configured limit of '' @ show_nat body_limit @ '' bytes'')
      else
        (case (case err of Deserialize source_text \<Rightarrow> missing_field_exception source_text | _ \<Rightarrow> None) of
           Some exception \<Rightarrow> exception
         | None \<Rightarrow> BadRequestException ''invalid JSON request body''))"

text \<open>The handlers of the path and query extractors are given the text of the error.\<close>

definition path_exception :: "str \<Rightarrow> http_exception" where
  "path_exception err = unwrap_or (missing_field_exception err) (BadRequestException err)"

definition query_exception :: "str \<Rightarrow> http_exception" where
  "query_exception err = unwrap_or (missing_field_exception err) (BadRequestException err)"

definition not_found :: "str \<Rightarrow> str \<Rightarrow> http_exception" where
  "not_found verb request_path = NotFoundException (''Cannot '' @ verb @ '' '' @ request_path)"

section \<open>Access log\<close>

datatype access_log_format = Compact | Info

record logging =
  lo_access_log :: bool
  lo_format :: access_log_format

definition Logging_default :: logging where
  "Logging_default = \<lparr>lo_access_log = True, lo_format = Compact\<rparr>"

definition Logging_info :: logging where
  "Logging_info = \<lparr>lo_access_log = True, lo_format = Info\<rparr>"

definition Logging_access_log :: "logging \<Rightarrow> bool \<Rightarrow> logging" where
  "Logging_access_log l enabled = l\<lparr>lo_access_log := enabled\<rparr>"

datatype body_size = SizeNone | Sized nat | SizeStream

text \<open>A request as the middleware sees it: method, path, query, version, peer address and headers.\<close>

record http_request =
  rq_method :: str
  rq_path :: str
  rq_query :: str
  rq_version :: str
  rq_peer_addr :: "str option"
  rq_header :: "str \<Rightarrow> str option"

definition request_header :: "http_request \<Rightarrow> str \<Rightarrow> str" where
  "request_header request name = unwrap_or (rq_header request name) ''-''"

definition log_access_request ::
    "(nat \<Rightarrow> str) \<Rightarrow> environment \<Rightarrow> nat \<Rightarrow> access_log_format \<Rightarrow> http_request \<Rightarrow> nat \<Rightarrow> body_size \<Rightarrow> nat \<Rightarrow> log_state \<Rightarrow>
     log_state \<times> access_event option" where
  "log_access_request seconds_text env now format request status body elapsed s =
     (case format of
        Compact \<Rightarrow> log_http_request env now (rq_method request) (rq_path request) status elapsed s
      | Info \<Rightarrow>
          (let path_and_query =
                 (if rq_query request = [] then rq_path request
                  else rq_path request @ ''?'' @ rq_query request);
               response_size = (case body of SizeNone \<Rightarrow> Some 0 | Sized n \<Rightarrow> Some n | SizeStream \<Rightarrow> None)
           in log_http_request_info seconds_text env now
                \<lparr>ai_client_address = unwrap_or (rq_peer_addr request) ''-'', ai_method = rq_method request,
                 ai_path_and_query = path_and_query, ai_protocol = rq_version request, ai_status = status,
                 ai_response_size = response_size, ai_referrer = request_header request ''referer'',
                 ai_user_agent = request_header request ''user-agent'', ai_elapsed = elapsed\<rparr> s))"

section \<open>The adapters agree\<close>

text \<open>The cookie of the core and the one the actix adapter builds have the same text.\<close>

lemma cookie_texts_agree: "actix_cookie_text kl c = to_header_value kl c"
  by (simp add: actix_cookie_text_def to_header_value_def Let_def crate_cookie_new_def split: option.splits)

definition same_name :: "str \<Rightarrow> str \<Rightarrow> bool" where
  "same_name n m \<longleftrightarrow> to_ascii_lowercase n = to_ascii_lowercase m"

text \<open>The documented behaviour of a header map: names ignore case, \<open>insert\<close> replaces the values of a name,
  \<open>append\<close> keeps them.\<close>

definition header_laws :: "'h header_lib \<Rightarrow> bool" where
  "header_laws hl \<longleftrightarrow>
     (\<forall>m. hl_get_all hl (hl_empty hl) m = []) \<and>
     (\<forall>h n m. same_name n m \<longrightarrow> hl_get_all hl h n = hl_get_all hl h m) \<and>
     (\<forall>h n v m. hl_get_all hl (hl_insert hl h n v) m = (if same_name n m then [v] else hl_get_all hl h m)) \<and>
     (\<forall>h n v m. hl_get_all hl (hl_append hl h n v) m =
        hl_get_all hl h m @ (if same_name n m then [v] else []))"

definition header_values :: "'h header_lib \<Rightarrow> (str \<times> str) list \<Rightarrow> 'h \<Rightarrow> str \<Rightarrow> str list" where
  "header_values hl hs h m = hl_get_all hl h m @ map snd (filter (\<lambda>(n, v). same_name n m) hs)"

lemma appended_values:
  assumes "header_laws hl"
  shows "hl_get_all hl (fold (\<lambda>(n, v) h. hl_append hl h n v) hs h) m = header_values hl hs h m"
  using assms by (induction hs arbitrary: h) (auto simp: header_values_def header_laws_def)

lemma inserted_values:
  assumes "header_laws hl" and "distinct (map (to_ascii_lowercase \<circ> fst) hs)"
    and "\<forall>(n, v)\<in>set hs. hl_get_all hl h n = []"
  shows "hl_get_all hl (fold (\<lambda>(n, v) h. hl_insert hl h n v) hs h) m = header_values hl hs h m"
  using assms(2,3)
proof (induction hs arbitrary: h)
  case (Cons x hs)
  obtain n v where x: "x = (n, v)" by force
  let ?h = "hl_insert hl h n v"
  have get: "hl_get_all hl ?h k = (if same_name n k then [v] else hl_get_all hl h k)" for k
    using assms(1) by (simp add: header_laws_def)
  have other: "\<not> same_name n k" if "(k, w) \<in> set hs" for k w
    using Cons.prems(1) that by (force simp: x same_name_def)
  have "\<forall>(k, w)\<in>set hs. hl_get_all hl ?h k = []"
    using Cons.prems(2) other by (auto simp: get)
  moreover have "distinct (map (to_ascii_lowercase \<circ> fst) hs)" using Cons.prems(1) by (simp add: comp_def)
  ultimately have "hl_get_all hl (fold (\<lambda>(n, v) h. hl_insert hl h n v) hs ?h) m = header_values hl hs ?h m"
    by (rule Cons.IH [rotated])
  moreover have "hl_get_all hl h n = []" using Cons.prems(2) by (simp add: x)
  then have "hl_get_all hl h m = []" if "same_name n m"
    using assms(1) that unfolding header_laws_def by metis
  ultimately show ?case by (auto simp: x header_values_def get)
qed (simp add: header_values_def)

text \<open>What reaches the client of a body: the library sends the chunks up to the first error, at which it
  aborts the connection.\<close>

fun sent_chunks :: "(str + bytes) list \<Rightarrow> bytes \<times> bool" where
  "sent_chunks [] = ([], True)"
| "sent_chunks (Inl e # chunks) = ([], False)"
| "sent_chunks (Inr b # chunks) = (case sent_chunks chunks of (bs, complete) \<Rightarrow> (b @ bs, complete))"

fun sent :: "wire_body \<Rightarrow> bytes \<times> bool" where
  "sent (Whole bytes) = (bytes, True)"
| "sent (Chunked chunks) = sent_chunks chunks"

fun ok_chunks :: "bytes result list \<Rightarrow> bytes" where
  "ok_chunks [] = []"
| "ok_chunks (Inr b # stream) = b @ ok_chunks stream"
| "ok_chunks (Inl e # stream) = ok_chunks stream"

lemma axum_stream_sent: "sent_chunks (List.map_filter (snd \<circ> axum_chunk) stream) = (ok_chunks stream, True)"
  by (induction stream rule: ok_chunks.induct) (simp_all add: List.map_filter_simps)

text \<open>Of a stream the actix adapter sends the chunks before the first error and then aborts.\<close>

lemma actix_stream_sent:
  "sent_chunks (map (snd \<circ> actix_chunk) stream) =
     (ok_chunks (takeWhile is_ok stream), list_all is_ok stream)"
  by (induction stream rule: ok_chunks.induct) auto

text \<open>The axum adapter skips an error and sends what follows it as if nothing was missing.\<close>

lemma axum_stream_continues:
  "sent (wr_body (to_axum_response hl (\<lambda>_. True) kl (Response_stream ct (pre @ Inl e # rest)))) =
     (ok_chunks (pre @ rest), True)"
proof -
  have "ok_chunks (pre @ Inl e # rest) = ok_chunks (pre @ rest)"
    by (induction pre rule: ok_chunks.induct) simp_all
  then show ?thesis
    by (simp add: to_axum_response_def Response_stream_def axum_stream_sent Let_def list.pred_True del: sent_chunks.simps)
qed

definition body_intact :: "response_body \<Rightarrow> bool" where
  "body_intact b = (case b of Buffered _ \<Rightarrow> True | Streaming stream \<Rightarrow> list_all is_ok stream)"

lemma takeWhile_all: "list_all P xs \<Longrightarrow> takeWhile P xs = xs"
  by (induction xs) simp_all

lemma fold_cookies:
  "fold (\<lambda>c h. hl_append hl h ''set-cookie'' (text c)) cs h =
   fold (\<lambda>(n, v) h. hl_append hl h n v) (map (\<lambda>c. (''set-cookie'', text c)) cs) h"
  by (induction cs arbitrary: h) simp_all

text \<open>C39: The adapters agree on a response with valid headers, none of which is repeated or the content type,
  whose body does not fail: status, the values of every header and what the client receives are the same.\<close>

theorem adapters_agree:
  assumes "header_laws ha" and "header_laws hx" and "status_ok (hr_status r)"
    and "list_all header_ok (header_pairs r (to_header_value kl))"
    and "distinct (map (to_ascii_lowercase \<circ> fst) ((''content-type'', hr_content_type r) # hr_headers r))"
    and "body_intact (hr_body r)"
  shows "wr_status (to_actix_response ha status_ok header_ok failed kl r) = hr_status r \<and>
    wr_status (to_axum_response hx header_ok kl r) = hr_status r \<and>
    hl_get_all ha (wr_headers (to_actix_response ha status_ok header_ok failed kl r)) name =
      hl_get_all hx (wr_headers (to_axum_response hx header_ok kl r)) name \<and>
    sent (wr_body (to_actix_response ha status_ok header_ok failed kl r)) =
      sent (wr_body (to_axum_response hx header_ok kl r))"
proof -
  have cookies: "actix_cookie_text kl = to_header_value kl" by (rule ext) (rule cookie_texts_agree)
  let ?hs = "(''content-type'', hr_content_type r) # hr_headers r"
  let ?ha = "fold (\<lambda>(n, v) h. hl_insert ha h n v) ?hs (hl_empty ha)"
  let ?hx = "fold (\<lambda>(n, v) h. hl_append hx h n v) ?hs (hl_empty hx)"
  have none: "hl_get_all ha (hl_empty ha) m = []" "hl_get_all hx (hl_empty hx) m = []" for m
    using assms(1,2) by (simp_all add: header_laws_def)
  have "hl_get_all ha ?ha m = hl_get_all hx ?hx m" for m
    using inserted_values [OF assms(1,5), of "hl_empty ha" m] appended_values [OF assms(2), of ?hs "hl_empty hx" m]
    by (simp only: header_values_def none) simp
  then have headers: "hl_get_all ha (wr_headers (to_actix_response ha status_ok header_ok failed kl r)) name =
      hl_get_all hx (wr_headers (to_axum_response hx header_ok kl r)) name"
    using assms(4)
    by (simp add: to_actix_response_def to_axum_response_def cookies fold_cookies appended_values [OF assms(1)]
        appended_values [OF assms(2)] header_values_def Let_def)
  have "sent (wr_body (to_actix_response ha status_ok header_ok failed kl r)) =
      sent (wr_body (to_axum_response hx header_ok kl r))"
    using assms(4,6) actix_stream_sent axum_stream_sent
    by (cases "hr_body r") (simp_all add: to_actix_response_def to_axum_response_def cookies body_intact_def
        takeWhile_all del: sent_chunks.simps)
  with headers assms(3,4) show ?thesis
    by (simp add: to_actix_response_def to_axum_response_def cookies)
qed

section \<open>Where the adapters differ\<close>

definition list_headers :: "(str \<times> str) list header_lib" where
  "list_headers =
     \<lparr>hl_empty = [], hl_insert = (\<lambda>h n v. filter (\<lambda>(k, _). \<not> same_name k n) h @ [(n, v)]),
      hl_append = (\<lambda>h n v. h @ [(n, v)]), hl_get_all = (\<lambda>h n. map snd (filter (\<lambda>(k, _). same_name k n) h))\<rparr>"

lemma list_headers_laws: "header_laws list_headers"
proof -
  have "filter (\<lambda>(k, _). same_name k n) h = filter (\<lambda>(k, _). same_name k m) h" if "same_name n m"
    for n m and h :: "(str \<times> str) list"
    using that by (simp add: same_name_def)
  moreover have "filter (\<lambda>(k, _). same_name k m) (filter (\<lambda>(k, _). \<not> same_name k n) h) =
      (if same_name n m then [] else filter (\<lambda>(k, _). same_name k m) h)" for n m and h :: "(str \<times> str) list"
    by (induction h) (auto simp: same_name_def)
  ultimately show ?thesis by (auto simp: header_laws_def list_headers_def)
qed

definition plain_cookies :: "nat cookie_crate" where
  "plain_cookies = \<lparr>kl_duration = Some, kl_duration_max = 0, kl_encoded = (\<lambda>k. kc_name k @ ''='' @ kc_value k)\<rparr>"

definition demo_response :: http_response where
  "demo_response =
     insert_cookie (insert_header (HttpResponse_text 201 ''made'') ''X-Request-Id'' ''7'') (Cookie_new ''session'' ''s'')"

theorem adapters_agree_witness:
  "wr_status (to_actix_response list_headers (\<lambda>_. True) (\<lambda>_. True) (response_new list_headers []) plain_cookies demo_response) = 201 \<and>
   hl_get_all list_headers
     (wr_headers (to_actix_response list_headers (\<lambda>_. True) (\<lambda>_. True) (response_new list_headers []) plain_cookies demo_response))
     ''x-request-id'' = [''7'']"
proof -
  have "list_all (\<lambda>_. True) (header_pairs demo_response (to_header_value plain_cookies))"
    by (simp add: list.pred_True)
  moreover have "distinct (map (to_ascii_lowercase \<circ> fst)
      ((''content-type'', hr_content_type demo_response) # hr_headers demo_response))"
    by code_simp
  moreover have "body_intact (hr_body demo_response)" by code_simp
  ultimately have
    "wr_status (to_actix_response list_headers (\<lambda>_. True) (\<lambda>_. True) (response_new list_headers []) plain_cookies demo_response) =
       hr_status demo_response"
    "hl_get_all list_headers
       (wr_headers (to_actix_response list_headers (\<lambda>_. True) (\<lambda>_. True) (response_new list_headers []) plain_cookies demo_response))
       ''x-request-id'' =
     hl_get_all list_headers (wr_headers (to_axum_response list_headers (\<lambda>_. True) plain_cookies demo_response)) ''x-request-id''"
    using adapters_agree [OF list_headers_laws list_headers_laws, where status_ok = "\<lambda>_. True"
        and header_ok = "\<lambda>_. True" and kl = plain_cookies and r = demo_response] by blast+
  moreover have "hl_get_all list_headers (wr_headers (to_axum_response list_headers (\<lambda>_. True) plain_cookies demo_response))
      ''x-request-id'' = [''7'']"
    by code_simp
  moreover have "hr_status demo_response = 201" by code_simp
  ultimately show ?thesis by simp
qed

text \<open>Of a repeated header actix keeps the last value, axum all; and a content type given as a header replaces
  the content type of the response in actix, and is sent beside it by axum.\<close>

lemma repeated_header_differs:
  assumes "header_laws ha" and "header_laws hx"
  shows "hl_get_all ha (wr_headers (to_actix_response ha (\<lambda>_. True) (\<lambda>_. True) failed kl
      (insert_header (insert_header (HttpResponse_text 200 t) ''Vary'' v) ''Vary'' w))) ''Vary'' = [w]"
    and "hl_get_all hx (wr_headers (to_axum_response hx (\<lambda>_. True) kl
      (insert_header (insert_header (HttpResponse_text 200 t) ''Vary'' v) ''Vary'' w))) ''Vary'' = [v, w]"
proof -
  have "\<not> same_name ''content-type'' ''Vary''" "same_name ''Vary'' ''Vary''" by code_simp+
  with assms show "hl_get_all ha (wr_headers (to_actix_response ha (\<lambda>_. True) (\<lambda>_. True) failed kl
      (insert_header (insert_header (HttpResponse_text 200 t) ''Vary'' v) ''Vary'' w))) ''Vary'' = [w]"
    "hl_get_all hx (wr_headers (to_axum_response hx (\<lambda>_. True) kl
      (insert_header (insert_header (HttpResponse_text 200 t) ''Vary'' v) ''Vary'' w))) ''Vary'' = [v, w]"
    by (simp_all add: to_actix_response_def to_axum_response_def header_laws_def insert_header_def
        HttpResponse_text_def HttpResponse_new_def Let_def list.pred_True)
qed

lemma content_type_header_differs:
  assumes "header_laws ha" and "header_laws hx"
  shows "hl_get_all ha (wr_headers (to_actix_response ha (\<lambda>_. True) (\<lambda>_. True) failed kl
      (insert_header (HttpResponse_text 200 t) ''Content-Type'' v))) ''content-type'' = [v]"
    and "hl_get_all hx (wr_headers (to_axum_response hx (\<lambda>_. True) kl
      (insert_header (HttpResponse_text 200 t) ''Content-Type'' v))) ''content-type'' = [''text/plain'', v]"
proof -
  have "same_name ''Content-Type'' ''content-type''" "same_name ''content-type'' ''content-type''" by code_simp+
  with assms show "hl_get_all ha (wr_headers (to_actix_response ha (\<lambda>_. True) (\<lambda>_. True) failed kl
      (insert_header (HttpResponse_text 200 t) ''Content-Type'' v))) ''content-type'' = [v]"
    "hl_get_all hx (wr_headers (to_axum_response hx (\<lambda>_. True) kl
      (insert_header (HttpResponse_text 200 t) ''Content-Type'' v))) ''content-type'' = [''text/plain'', v]"
    by (simp_all add: to_actix_response_def to_axum_response_def header_laws_def insert_header_def
        HttpResponse_text_def HttpResponse_new_def Let_def list.pred_True)
qed

text \<open>A response with an invalid header leaves axum as a success whose body is the text of an error.\<close>

lemma axum_invalid_header_succeeds:
  assumes "\<not> list_all header_ok (header_pairs r (to_header_value kl))"
  shows "wr_status (to_axum_response hl header_ok kl r) = 200"
    and "wr_body (to_axum_response hl header_ok kl r) = Whole ''Internal Server Error''"
  using assms by (simp_all add: to_axum_response_def response_new_def Let_def)

section \<open>Extractor errors\<close>

text \<open>A field that is reported as missing is named in the validation errors of the answer, 400; the
  extractors look for the closing backtick, the buffered payload does not, and they agree when it is there.\<close>

lemma missing_field_reported:
  assumes "missing_field_name message = Some field"
  shows "path_exception message = query_exception message"
    and "json_exception (Deserialize message) limit = path_exception message"
    and "ex_status (path_exception message) = 400"
    and "ex_errors (path_exception message) = Some [field \<mapsto> [''is required'']]"
  using assms by (simp_all add: path_exception_def query_exception_def json_exception_def missing_field_exception_def
      unwrap_or_def with_errors_def BadRequestException_def HttpException_new_def)

lemma takeWhile_split_on: "hd (split_on c s) = takeWhile (\<lambda>x. x \<noteq> c) s"
  by (induction s) (auto simp: hd_append split: list.splits)

lemma missing_field_agrees:
  "missing_field_name message = Some field \<Longrightarrow> missing_field message = Some field"
  by (auto simp: missing_field_name_def missing_field_def takeWhile_split_on Let_def split: option.splits if_splits)

lemma oversized_json_rejected:
  "ex_status (json_exception Overflow limit) = 413" "ex_status (json_exception OverflowKnownLength limit) = 413"
  "json_exception OtherPayloadError limit = BadRequestException ''invalid JSON request body''"
  by (simp_all add: json_exception_def PayloadTooLargeException_def HttpException_new_def)

end
