(* ===== verification/OpenApi.thy ===== *)
theory OpenApi
  imports Logging Responses Discovery
begin

text \<open>
  The OpenAPI document of an application, \<open>crates/caelix-core/src/openapi.rs\<close>: security requirements
  and the configuration with its security schemes, the assembly of the document from the routes of a
  module graph, and the checks that reject a document.

  The document is a value of the \<open>utoipa\<close> crate. The public fields the source reads and writes are
  record fields; the items of a path, schemas and security schemes are type parameters, and the
  functions of the crate (\<open>add_path_operation\<close>, \<open>SecurityRequirement::add\<close>, the scheme builders and
  the serialization \<open>to_value\<close>) are arguments. What the routes of a controller add to the document is
  code generated by the controller macro, an argument as well.
\<close>

section \<open>Security\<close>

datatype security =
    SecBearerAuth
  | SecApiKeyAuth
  | SecCookieAuth
  | SecOAuth2 "str list"
  | SecCustom str "str list"

fun name_and_scopes :: "security \<Rightarrow> str \<times> str list" where
  "name_and_scopes SecBearerAuth = (''BearerAuth'', [])"
| "name_and_scopes SecApiKeyAuth = (''ApiKeyAuth'', [])"
| "name_and_scopes SecCookieAuth = (''CookieAuth'', [])"
| "name_and_scopes (SecOAuth2 scopes) = (''OAuth2'', scopes)"
| "name_and_scopes (SecCustom name scopes) = (name, scopes)"

datatype security_kind = KindBearerAuth | KindApiKeyAuth | KindCookieAuth | KindOAuth2 | KindCustom

record 'scheme configured_scheme =
  cs_scheme :: 'scheme
  cs_kind :: security_kind

text \<open>The builders of security schemes.\<close>

record ('scheme, 'flow) scheme_lib =
  sl_http_bearer :: "str \<Rightarrow> 'scheme"
  sl_api_key_header :: "str \<Rightarrow> 'scheme"
  sl_api_key_cookie :: "str \<Rightarrow> 'scheme"
  sl_oauth2 :: "'flow \<Rightarrow> 'scheme"

section \<open>Configuration\<close>

record 'scheme openapi_config =
  oc_title :: str
  oc_version :: str
  oc_json_path :: str
  oc_ui_path :: str
  oc_schemes :: "(str \<times> 'scheme configured_scheme) list"

definition OpenApiConfig_new :: "str \<Rightarrow> str \<Rightarrow> 'scheme openapi_config" where
  "OpenApiConfig_new title version =
     \<lparr>oc_title = title, oc_version = version, oc_json_path = ''/openapi.json'', oc_ui_path = ''/docs'',
      oc_schemes = []\<rparr>"

definition normalize_path :: "str \<Rightarrow> str" where
  "normalize_path p = (if \<not> prefix ''/'' p then CHR ''/'' # p else p)"

definition insert_security_scheme ::
    "str \<Rightarrow> 'scheme \<Rightarrow> security_kind \<Rightarrow> 'scheme openapi_config \<Rightarrow> 'scheme openapi_config" where
  "insert_security_scheme name scheme kind cfg =
     cfg\<lparr>oc_schemes := AList.update name \<lparr>cs_scheme = scheme, cs_kind = kind\<rparr> (oc_schemes cfg)\<rparr>"

text \<open>The methods of the builder; a configuration is what a sequence of them makes of a new one.\<close>

datatype ('scheme, 'flow) config_call =
    SetJsonPath str
  | SetUiPath str
  | WithBearerAuth
  | WithApiKeyAuth str
  | WithCookieAuth str
  | WithOAuth2 'flow
  | WithSecurityScheme str 'scheme

fun apply_config_call ::
    "('scheme, 'flow) scheme_lib \<Rightarrow> ('scheme, 'flow) config_call \<Rightarrow> 'scheme openapi_config \<Rightarrow>
     'scheme openapi_config" where
  "apply_config_call sl (SetJsonPath p) cfg = cfg\<lparr>oc_json_path := normalize_path p\<rparr>"
| "apply_config_call sl (SetUiPath p) cfg = cfg\<lparr>oc_ui_path := normalize_path p\<rparr>"
| "apply_config_call sl WithBearerAuth cfg =
     insert_security_scheme ''BearerAuth'' (sl_http_bearer sl ''JWT'') KindBearerAuth cfg"
| "apply_config_call sl (WithApiKeyAuth header_name) cfg =
     insert_security_scheme ''ApiKeyAuth'' (sl_api_key_header sl header_name) KindApiKeyAuth cfg"
| "apply_config_call sl (WithCookieAuth cookie_name) cfg =
     insert_security_scheme ''CookieAuth'' (sl_api_key_cookie sl cookie_name) KindCookieAuth cfg"
| "apply_config_call sl (WithOAuth2 flow) cfg =
     insert_security_scheme ''OAuth2'' (sl_oauth2 sl flow) KindOAuth2 cfg"
| "apply_config_call sl (WithSecurityScheme name scheme) cfg = insert_security_scheme name scheme KindCustom cfg"

definition configure ::
    "('scheme, 'flow) scheme_lib \<Rightarrow> str \<Rightarrow> str \<Rightarrow> ('scheme, 'flow) config_call list \<Rightarrow> 'scheme openapi_config" where
  "configure sl title version calls = fold (apply_config_call sl) calls (OpenApiConfig_new title version)"

section \<open>The document\<close>

record ('schema, 'scheme) components =
  cp_schemas :: "(str \<times> 'schema) list"
  cp_security_schemes :: "(str \<times> 'scheme) list"

definition Components_new :: "('schema, 'scheme) components" where
  "Components_new = \<lparr>cp_schemas = [], cp_security_schemes = []\<rparr>"

record ('entry, 'schema, 'scheme) openapi =
  od_title :: str
  od_version :: str
  od_paths :: "(str \<times> 'entry) list"
  od_components :: "('schema, 'scheme) components option"

definition OpenApi_new :: "str \<Rightarrow> str \<Rightarrow> ('entry, 'schema, 'scheme) openapi" where
  "OpenApi_new title version = \<lparr>od_title = title, od_version = version, od_paths = [], od_components = None\<rparr>"

definition get_or_insert_components ::
    "('entry, 'schema, 'scheme) openapi \<Rightarrow> ('schema, 'scheme) components" where
  "get_or_insert_components doc = (case od_components doc of None \<Rightarrow> Components_new | Some cs \<Rightarrow> cs)"

definition add_security_schemes ::
    "'scheme openapi_config \<Rightarrow> ('entry, 'schema, 'scheme) openapi \<Rightarrow> ('entry, 'schema, 'scheme) openapi" where
  "add_security_schemes cfg doc =
     (if oc_schemes cfg = [] then doc
      else (let components = get_or_insert_components doc
            in doc\<lparr>od_components := Some (components\<lparr>cp_security_schemes :=
                 fold (\<lambda>(name, configured). AList.update name (cs_scheme configured)) (oc_schemes cfg)
                   (cp_security_schemes components)\<rparr>)\<rparr>))"

section \<open>Checks\<close>

definition openapi_configuration_error :: "str \<Rightarrow> http_exception" where
  "openapi_configuration_error msg = HttpException_new 500 ''OpenAPI Configuration Error'' msg"

fun as_object :: "json \<Rightarrow> (str \<times> json) list option" where
  "as_object (JObject members) = Some members"
| "as_object _ = None"

fun as_array :: "json \<Rightarrow> json list option" where
  "as_array (JArray vs) = Some vs"
| "as_array _ = None"

definition json_get :: "str \<Rightarrow> json \<Rightarrow> json option" where
  "json_get key v = Option.bind (as_object v) (\<lambda>members. map_of members key)"

text \<open>A loop whose body may return an error.\<close>

fun try_for :: "('a \<Rightarrow> unit result) \<Rightarrow> 'a list \<Rightarrow> unit result" where
  "try_for f [] = Inr ()"
| "try_for f (x # xs) = bind_result (f x) (\<lambda>_. try_for f xs)"

definition expected_kind :: "str \<Rightarrow> security_kind option" where
  "expected_kind name =
     (if name = ''BearerAuth'' then Some KindBearerAuth
      else if name = ''ApiKeyAuth'' then Some KindApiKeyAuth
      else if name = ''CookieAuth'' then Some KindCookieAuth
      else if name = ''OAuth2'' then Some KindOAuth2
      else None)"

definition check_requirement_name :: "'scheme openapi_config \<Rightarrow> str \<Rightarrow> str \<Rightarrow> str \<Rightarrow> unit result" where
  "check_requirement_name cfg p verb name =
     (case map_of (oc_schemes cfg) name of
        None \<Rightarrow> Inl (openapi_configuration_error
          (''OpenAPI security requirement `'' @ name @ ''` on '' @ verb @ '' '' @ p @ '' has no registered scheme''))
      | Some configured \<Rightarrow>
          if (case expected_kind name of None \<Rightarrow> False | Some expected \<Rightarrow> cs_kind configured \<noteq> expected)
          then Inl (openapi_configuration_error
            (''OpenAPI security requirement `'' @ name @ ''` on '' @ verb @ '' '' @ p @
             '' does not match its registered scheme''))
          else Inr ())"

definition check_requirement :: "'scheme openapi_config \<Rightarrow> str \<Rightarrow> str \<Rightarrow> json \<Rightarrow> unit result" where
  "check_requirement cfg p verb requirement =
     (case as_object requirement of
        None \<Rightarrow> Inr ()
      | Some members \<Rightarrow> try_for (check_requirement_name cfg p verb) (map fst members))"

definition check_operation :: "'scheme openapi_config \<Rightarrow> str \<Rightarrow> str \<times> json \<Rightarrow> unit result" where
  "check_operation cfg p = (\<lambda>(verb, op).
     (case Option.bind (json_get ''security'' op) as_array of
        None \<Rightarrow> Inr ()
      | Some requirements \<Rightarrow> try_for (check_requirement cfg p verb) requirements))"

definition check_path_item :: "'scheme openapi_config \<Rightarrow> str \<times> json \<Rightarrow> unit result" where
  "check_path_item cfg = (\<lambda>(p, entry).
     (case as_object entry of None \<Rightarrow> Inr () | Some members \<Rightarrow> try_for (check_operation cfg p) members))"

text \<open>\<open>to_value\<close> is \<open>serde_json::to_value\<close>: the value, or the text of the error.\<close>

definition validate_security_requirements ::
    "(('entry, 'schema, 'scheme) openapi \<Rightarrow> str + json) \<Rightarrow> ('entry, 'schema, 'scheme) openapi \<Rightarrow>
     'scheme openapi_config \<Rightarrow> unit result" where
  "validate_security_requirements to_value doc cfg =
     (case to_value doc of
        Inl err \<Rightarrow> Inl (openapi_configuration_error (''failed to serialize OpenAPI security requirements: '' @ err))
      | Inr v \<Rightarrow>
          (case Option.bind (json_get ''paths'' v) as_object of
             None \<Rightarrow> Inr ()
           | Some paths \<Rightarrow> try_for (check_path_item cfg) paths))"

definition validate_document_paths ::
    "('entry, 'schema, 'scheme) openapi \<Rightarrow> 'scheme openapi_config \<Rightarrow> unit result" where
  "validate_document_paths doc cfg =
     (if list_ex (\<lambda>p. p = oc_json_path cfg \<or> p = oc_ui_path cfg \<or>
                    prefix (trim_end_slashes (oc_ui_path cfg) @ ''/'') p)
           (map fst (od_paths doc))
      then Inl (openapi_configuration_error ''OpenAPI paths must not collide with controller routes'')
      else Inr ())"

section \<open>Building\<close>

definition module_registers_provider :: "('m::finite) program \<Rightarrow> 'm \<Rightarrow> type_id \<Rightarrow> bool option" where
  "module_registers_provider prog root ty =
     (case discover_from prog root of
        None \<Rightarrow> None
      | Some (Inl e) \<Rightarrow> Some False
      | Some (Inr g) \<Rightarrow>
          Some (list_ex (\<lambda>node. list_ex (\<lambda>pd. pd_type pd = ty) (md_providers (mn_metadata node))) g))"

text \<open>The documented routes of a program: all routes of the controllers of every module, in the order of
  the graph; an invalid graph has none.\<close>

definition openapi_routes ::
    "('m::finite) program \<Rightarrow> 'm \<Rightarrow> (controller_def \<Rightarrow> 'r list) \<Rightarrow> 'r list option" where
  "openapi_routes prog root routes_fn =
     (case discover_from prog root of
        None \<Rightarrow> None
      | Some (Inl e) \<Rightarrow> Some []
      | Some (Inr g) \<Rightarrow>
          Some (concat (map (\<lambda>node. concat (map routes_fn (md_controllers (mn_metadata node)))) g)))"

definition build_openapi ::
    "(('entry, 'schema, 'scheme) openapi \<Rightarrow> str + json) \<Rightarrow> type_id \<Rightarrow> ('m::finite) program \<Rightarrow> 'm \<Rightarrow>
     (controller_def \<Rightarrow> (bool \<Rightarrow> ('entry, 'schema, 'scheme) openapi \<Rightarrow> ('entry, 'schema, 'scheme) openapi) list) \<Rightarrow>
     'scheme openapi_config \<Rightarrow> ('entry, 'schema, 'scheme) openapi result option" where
  "build_openapi to_value throttle_type prog root routes_fn cfg =
     Option.bind (module_registers_provider prog root throttle_type) (\<lambda>throttle_enabled.
     Option.bind (openapi_routes prog root routes_fn) (\<lambda>routes.
       (let doc = add_security_schemes cfg
              (fold (\<lambda>document. document throttle_enabled) routes (OpenApi_new (oc_title cfg) (oc_version cfg)))
        in Some (bind_result (validate_security_requirements to_value doc cfg) (\<lambda>_.
             bind_result (validate_document_paths doc cfg) (\<lambda>_. Inr doc))))))"

section \<open>Operations of a route\<close>

record ('request, 'entry) operation =
  op_security :: "'request list option"
  op_rest :: 'entry

text \<open>\<open>none_required\<close> and \<open>add\<close> are \<open>SecurityRequirement::default\<close> and \<open>SecurityRequirement::add\<close>.\<close>

definition apply_security ::
    "'request \<Rightarrow> ('request \<Rightarrow> str \<Rightarrow> str list \<Rightarrow> 'request) \<Rightarrow> security list \<Rightarrow>
     ('request, 'entry) operation \<Rightarrow> ('request, 'entry) operation" where
  "apply_security none_required add securities op =
     (if securities = [] then op
      else op\<lparr>op_security :=
        Some [fold (\<lambda>s requirement. case name_and_scopes s of (name, scopes) \<Rightarrow> add requirement name scopes)
                securities none_required]\<rparr>)"

datatype http_method = MethodGet | MethodPost | MethodPut | MethodPatch | MethodDelete

definition method_of :: "str \<Rightarrow> http_method option" where
  "method_of verb =
     (if verb = ''get'' then Some MethodGet
      else if verb = ''post'' then Some MethodPost
      else if verb = ''put'' then Some MethodPut
      else if verb = ''patch'' then Some MethodPatch
      else if verb = ''delete'' then Some MethodDelete
      else None)"

definition document_operation ::
    "(str \<Rightarrow> http_method list \<Rightarrow> 'op \<Rightarrow> (str \<times> 'entry) list \<Rightarrow> (str \<times> 'entry) list) \<Rightarrow> str \<Rightarrow> str \<Rightarrow> 'op \<Rightarrow>
     ('entry, 'schema, 'scheme) openapi \<Rightarrow> ('entry, 'schema, 'scheme) openapi" where
  "document_operation add_path_operation verb p op doc =
     (case method_of verb of
        None \<Rightarrow> doc
      | Some m \<Rightarrow> doc\<lparr>od_paths := add_path_operation p [m] op (od_paths doc)\<rparr>)"

datatype parameter_in = InPath | InQuery | InHeader | InCookie

record 'schema api_parameter =
  pm_name :: str
  pm_in :: parameter_in
  pm_description :: "str option"
  pm_required :: bool
  pm_schema :: "'schema option"

definition parameter ::
    "str \<Rightarrow> parameter_in \<Rightarrow> bool \<Rightarrow> str option \<Rightarrow> 'schema \<Rightarrow> 'schema api_parameter" where
  "parameter name location required description schema =
     \<lparr>pm_name = name, pm_in = location, pm_description = description,
      pm_required = (if location = InPath then True else required), pm_schema = Some schema\<rparr>"

text \<open>Bodies and responses have a schema for each content type.\<close>

record 'schema body_spec =
  rb_required :: bool
  rb_content :: "(str \<times> 'schema option) list"

definition request_body :: "'schema \<Rightarrow> 'schema body_spec" where
  "request_body schema = \<lparr>rb_required = True, rb_content = [(''application/json'', Some schema)]\<rparr>"

record 'schema api_response =
  ar_description :: str
  ar_content :: "(str \<times> 'schema option) list"

definition response :: "str option \<Rightarrow> 'schema option \<Rightarrow> 'schema api_response" where
  "response content_type schema =
     \<lparr>ar_description = ''Successful response'',
      ar_content = (case content_type of None \<Rightarrow> [] | Some t \<Rightarrow> [(t, schema)])\<rparr>"

text \<open>Schemas as the builders put them together; other schemas and references are \<open>Given\<close>.\<close>

datatype 'schema upload_schema =
    Given 'schema
  | BinaryString "nat option" "str option"
  | ArrayOf "'schema upload_schema"
  | ObjectOf "(str \<times> 'schema upload_schema) list" "str list"
  | AllOf "'schema upload_schema list"

record upload_field =
  uf_name :: str
  uf_repeated :: bool
  uf_required :: bool
  uf_max_size :: "nat option"
  uf_content_types :: "str list"

definition file_schema :: "upload_field \<Rightarrow> 'schema upload_schema" where
  "file_schema f =
     (let content_type_description =
            (if uf_content_types f \<noteq> [] then Some (''Allowed MIME types: '' @ join '', '' (uf_content_types f) @ ''.'')
             else None);
          binary = BinaryString (case uf_max_size f of None \<Rightarrow> None | Some n \<Rightarrow> if n \<le> usize_max then Some n else None)
                     content_type_description
      in if uf_repeated f then ArrayOf binary else binary)"

fun add_file_property ::
    "upload_field \<Rightarrow> (str \<times> 'schema upload_schema) list \<times> str list \<Rightarrow>
     (str \<times> 'schema upload_schema) list \<times> str list" where
  "add_file_property f (properties, required) =
     (AList.update (uf_name f) (file_schema f) properties,
      if uf_required f then required @ [uf_name f] else required)"

definition file_properties :: "upload_field list \<Rightarrow> (str \<times> 'schema upload_schema) list \<times> str list" where
  "file_properties files = fold add_file_property files ([], [])"

definition multipart_request_body :: "'schema option \<Rightarrow> upload_field list \<Rightarrow> 'schema upload_schema body_spec" where
  "multipart_request_body dto_schema files =
     (let (properties, required) = file_properties files;
          object = ObjectOf properties required;
          schema = (case dto_schema of Some dto \<Rightarrow> AllOf [Given dto, object] | None \<Rightarrow> object)
      in \<lparr>rb_required = True, rb_content = [(''multipart/form-data'', Some schema)]\<rparr>)"

text \<open>\<open>schemas\<close> lists the schema of a type with its name, then the schemas it refers to; a schema that is
  already a component is kept (\<open>entry(name).or_insert(schema)\<close>).\<close>

definition or_insert :: "str \<times> 'schema \<Rightarrow> (str \<times> 'schema) list \<Rightarrow> (str \<times> 'schema) list" where
  "or_insert = (\<lambda>(name, schema) entries.
     (case map_of entries name of None \<Rightarrow> AList.update name schema entries | Some _ \<Rightarrow> entries))"

definition add_schema ::
    "(str \<times> 'schema) list \<Rightarrow> ('entry, 'schema, 'scheme) openapi \<Rightarrow> ('entry, 'schema, 'scheme) openapi" where
  "add_schema schemas doc =
     (let components = get_or_insert_components doc
      in doc\<lparr>od_components := Some (components\<lparr>cp_schemas := fold or_insert schemas (cp_schemas components)\<rparr>)\<rparr>)"

section \<open>Documented errors\<close>

datatype exception_type =
    ExBadRequest | ExUnauthorized | ExPaymentRequired | ExForbidden | ExNotFound | ExMethodNotAllowed
  | ExNotAcceptable | ExProxyAuthenticationRequired | ExRequestTimeout | ExConflict | ExGone
  | ExLengthRequired | ExPreconditionFailed | ExPayloadTooLarge | ExUriTooLong | ExUnsupportedMediaType
  | ExRangeNotSatisfiable | ExExpectationFailed | ExImATeapot | ExMisdirectedRequest
  | ExUnprocessableEntity | ExLocked | ExFailedDependency | ExTooEarly | ExUpgradeRequired
  | ExPreconditionRequired | ExTooManyRequests | ExRequestHeaderFieldsTooLarge
  | ExUnavailableForLegalReasons | ExInternalServerError | ExNotImplemented | ExBadGateway
  | ExServiceUnavailable | ExGatewayTimeout | ExHttpVersionNotSupported | ExVariantAlsoNegotiates
  | ExInsufficientStorage | ExLoopDetected

fun documented_status :: "exception_type \<Rightarrow> nat" where
  "documented_status ExBadRequest = 400"
| "documented_status ExUnauthorized = 401"
| "documented_status ExPaymentRequired = 402"
| "documented_status ExForbidden = 403"
| "documented_status ExNotFound = 404"
| "documented_status ExMethodNotAllowed = 405"
| "documented_status ExNotAcceptable = 406"
| "documented_status ExProxyAuthenticationRequired = 407"
| "documented_status ExRequestTimeout = 408"
| "documented_status ExConflict = 409"
| "documented_status ExGone = 410"
| "documented_status ExLengthRequired = 411"
| "documented_status ExPreconditionFailed = 412"
| "documented_status ExPayloadTooLarge = 413"
| "documented_status ExUriTooLong = 414"
| "documented_status ExUnsupportedMediaType = 415"
| "documented_status ExRangeNotSatisfiable = 416"
| "documented_status ExExpectationFailed = 417"
| "documented_status ExImATeapot = 418"
| "documented_status ExMisdirectedRequest = 421"
| "documented_status ExUnprocessableEntity = 422"
| "documented_status ExLocked = 423"
| "documented_status ExFailedDependency = 424"
| "documented_status ExTooEarly = 425"
| "documented_status ExUpgradeRequired = 426"
| "documented_status ExPreconditionRequired = 428"
| "documented_status ExTooManyRequests = 429"
| "documented_status ExRequestHeaderFieldsTooLarge = 431"
| "documented_status ExUnavailableForLegalReasons = 451"
| "documented_status ExInternalServerError = 500"
| "documented_status ExNotImplemented = 501"
| "documented_status ExBadGateway = 502"
| "documented_status ExServiceUnavailable = 503"
| "documented_status ExGatewayTimeout = 504"
| "documented_status ExHttpVersionNotSupported = 505"
| "documented_status ExVariantAlsoNegotiates = 506"
| "documented_status ExInsufficientStorage = 507"
| "documented_status ExLoopDetected = 508"

text \<open>\<open>reference\<close> is what \<open>schema_ref\<close> returns for the envelope: its schemas and the reference to it. The
  description is the default of the trait unless the exception type overrides it.\<close>

definition error_response ::
    "(str \<times> 'schema) list \<Rightarrow> 'schema \<Rightarrow> nat \<Rightarrow> str \<Rightarrow> ('entry, 'schema, 'scheme) openapi \<Rightarrow>
     (str \<times> 'schema api_response) \<times> ('entry, 'schema, 'scheme) openapi" where
  "error_response schemas reference status description doc =
     ((show_nat status,
       \<lparr>ar_description = description, ar_content = [(''application/json'', Some reference)]\<rparr>),
      add_schema schemas doc)"

definition validation_error_response ::
    "(str \<times> 'schema) list \<Rightarrow> 'schema \<Rightarrow> ('entry, 'schema, 'scheme) openapi \<Rightarrow>
     (str \<times> 'schema api_response) \<times> ('entry, 'schema, 'scheme) openapi" where
  "validation_error_response schemas reference doc =
     ((show_nat 400,
       \<lparr>ar_description = ''Validation error response'', ar_content = [(''application/json'', Some reference)]\<rparr>),
      add_schema schemas doc)"

section \<open>An accepted document\<close>

lemma try_for_Inr: "try_for f xs = Inr () \<longleftrightarrow> (\<forall>x\<in>set xs. f x = Inr ())"
  by (induction xs) (auto simp: result_facts)

definition registered :: "'scheme openapi_config \<Rightarrow> str \<Rightarrow> bool" where
  "registered cfg name \<longleftrightarrow>
     (\<exists>c. map_of (oc_schemes cfg) name = Some c \<and> (\<forall>k. expected_kind name = Some k \<longrightarrow> cs_kind c = k))"

text \<open>The serialized document requires a scheme for a method of a path.\<close>

definition requires :: "json \<Rightarrow> str \<Rightarrow> str \<Rightarrow> str \<Rightarrow> bool" where
  "requires v p verb name \<longleftrightarrow>
     (\<exists>paths members op requirements names.
        json_get ''paths'' v = Some (JObject paths) \<and> (p, JObject members) \<in> set paths \<and>
        (verb, op) \<in> set members \<and> json_get ''security'' op = Some (JArray requirements) \<and>
        JObject names \<in> set requirements \<and> name \<in> fst ` set names)"

lemma check_requirement_name_Inr: "check_requirement_name cfg p verb name = Inr () \<longleftrightarrow> registered cfg name"
  by (auto simp: check_requirement_name_def registered_def split: option.splits)

lemma check_requirement_Inr:
  "check_requirement cfg p verb r = Inr () \<longleftrightarrow> (\<forall>ns n. r = JObject ns \<longrightarrow> n \<in> fst ` set ns \<longrightarrow> registered cfg n)"
  by (cases r) (auto simp: check_requirement_def try_for_Inr check_requirement_name_Inr)

lemma as_array_Some: "Option.bind x as_array = Some vs \<longleftrightarrow> x = Some (JArray vs)"
  by (cases x) (auto elim: as_array.elims)

lemma as_object_Some: "Option.bind x as_object = Some vs \<longleftrightarrow> x = Some (JObject vs)"
  by (cases x) (auto elim: as_object.elims)

lemma as_object_iff: "as_object v = Some ms \<longleftrightarrow> v = JObject ms"
  by (cases v) auto

lemma check_operation_Inr:
  "check_operation cfg p (verb, op) = Inr () \<longleftrightarrow>
     (\<forall>rs ns n. json_get ''security'' op = Some (JArray rs) \<longrightarrow> JObject ns \<in> set rs \<longrightarrow> n \<in> fst ` set ns \<longrightarrow>
        registered cfg n)"
proof (cases "Option.bind (json_get ''security'' op) as_array")
  case None
  then have "\<nexists>rs. json_get ''security'' op = Some (JArray rs)" using as_array_Some by fastforce
  then show ?thesis by (simp add: check_operation_def None)
next
  case (Some rs)
  then have "json_get ''security'' op = Some (JArray rs)" by (simp only: as_array_Some)
  then show ?thesis by (simp add: check_operation_def try_for_Inr check_requirement_Inr) blast
qed

lemma check_path_item_Inr:
  "check_path_item cfg (p, entry) = Inr () \<longleftrightarrow>
     (\<forall>ms m. entry = JObject ms \<longrightarrow> m \<in> set ms \<longrightarrow> check_operation cfg p m = Inr ())"
proof (cases "as_object entry")
  case None
  then show ?thesis by (simp add: check_path_item_def) (metis as_object.simps(1) option.distinct(1))
next
  case (Some ms)
  then have "entry = JObject ms" by (simp only: as_object_iff)
  then show ?thesis by (auto simp: check_path_item_def try_for_Inr)
qed

lemma check_paths_Inr:
  "(\<forall>x\<in>set paths. check_path_item cfg x = Inr ()) \<longleftrightarrow>
     (\<forall>p ms verb op rs ns n. (p, JObject ms) \<in> set paths \<longrightarrow> (verb, op) \<in> set ms \<longrightarrow>
        json_get ''security'' op = Some (JArray rs) \<longrightarrow> JObject ns \<in> set rs \<longrightarrow> n \<in> fst ` set ns \<longrightarrow>
        registered cfg n)"
  (is "?l \<longleftrightarrow> ?r")
proof
  assume ?l
  show ?r
  proof (intro allI impI)
    fix p ms verb op rs ns n
    assume "(p, JObject ms) \<in> set paths" and m: "(verb, op) \<in> set ms"
      and s: "json_get ''security'' op = Some (JArray rs)" "JObject ns \<in> set rs" "n \<in> fst ` set ns"
    with \<open>?l\<close> have "check_path_item cfg (p, JObject ms) = Inr ()" by blast
    with m have "check_operation cfg p (verb, op) = Inr ()" by (simp add: check_path_item_Inr)
    with s show "registered cfg n" unfolding check_operation_Inr by blast
  qed
next
  assume ?r
  show ?l
  proof
    fix x assume x: "x \<in> set paths"
    obtain p entry where p: "x = (p, entry)" by force
    have "check_operation cfg p m = Inr ()" if "entry = JObject ms" "m \<in> set ms" for ms m
    proof -
      obtain verb op where m: "m = (verb, op)" by force
      have "(p, JObject ms) \<in> set paths" "(verb, op) \<in> set ms" using x p that m by auto
      with \<open>?r\<close> show ?thesis unfolding m check_operation_Inr by blast
    qed
    then show "check_path_item cfg x = Inr ()" by (simp add: p check_path_item_Inr)
  qed
qed

text \<open>The check of the security requirements accepts a document exactly when every scheme its
  serialization requires is registered, a standard name with its own kind of scheme.\<close>

lemma validate_security_requirements_Inr:
  assumes "to_value doc = Inr v"
  shows "validate_security_requirements to_value doc cfg = Inr () \<longleftrightarrow>
    (\<forall>p verb name. requires v p verb name \<longrightarrow> registered cfg name)"
proof (cases "Option.bind (json_get ''paths'' v) as_object")
  case None
  then have "\<not> requires v p verb name" for p verb name
    using as_object_Some unfolding requires_def by fastforce
  then show ?thesis by (simp add: validate_security_requirements_def assms None)
next
  case (Some paths)
  then have paths: "json_get ''paths'' v = Some (JObject paths)" by (simp only: as_object_Some)
  have "validate_security_requirements to_value doc cfg = Inr () \<longleftrightarrow>
      (\<forall>x\<in>set paths. check_path_item cfg x = Inr ())"
    by (simp add: validate_security_requirements_def assms Some try_for_Inr)
  also have "\<dots> \<longleftrightarrow> (\<forall>p verb name. requires v p verb name \<longrightarrow> registered cfg name)"
    unfolding check_paths_Inr requires_def paths option.inject json.inject by blast
  finally show ?thesis .
qed

text \<open>A configuration made by the builder registers each name once, and its paths are absolute.\<close>

definition config_ok :: "'scheme openapi_config \<Rightarrow> bool" where
  "config_ok cfg \<longleftrightarrow> distinct (map fst (oc_schemes cfg)) \<and> prefix ''/'' (oc_json_path cfg) \<and> prefix ''/'' (oc_ui_path cfg)"

lemma prefix_normalize_path: "prefix ''/'' (normalize_path p)"
  by (simp add: normalize_path_def)

lemma config_ok_call: "config_ok cfg \<Longrightarrow> config_ok (apply_config_call sl call cfg)"
  by (cases call) (simp_all add: config_ok_def insert_security_scheme_def distinct_update prefix_normalize_path)

lemma config_ok_configure: "config_ok (configure sl title version calls)"
proof -
  have "config_ok (fold (apply_config_call sl) calls cfg)" if "config_ok cfg" for cfg
    using that by (induction calls arbitrary: cfg) (simp_all add: config_ok_call)
  moreover have "config_ok (OpenApiConfig_new title version)"
    by (simp add: config_ok_def OpenApiConfig_new_def)
  ultimately show ?thesis by (simp add: configure_def)
qed

text \<open>Adding the schemes gives the document the scheme of each registered name.\<close>

lemma schemes_kept:
  "(name :: str) \<notin> fst ` set schemes \<Longrightarrow>
   map_of (fold (\<lambda>(n, configured). AList.update n (cs_scheme configured)) schemes entries) name = map_of entries name"
  by (induction schemes arbitrary: entries) (auto simp: update_conv')

lemma schemes_added:
  assumes "distinct (map fst schemes)" and "map_of schemes (name :: str) = Some c"
  shows "map_of (fold (\<lambda>(n, configured). AList.update n (cs_scheme configured)) schemes entries) name = Some (cs_scheme c)"
  using assms
proof (induction schemes arbitrary: entries)
  case (Cons x schemes)
  obtain n d where x: "x = (n, d)" by force
  show ?case
  proof (cases "n = name")
    case True
    with Cons.prems x have "name \<notin> fst ` set schemes" "d = c" by auto
    then show ?thesis using True by (simp add: x schemes_kept update_conv')
  next
    case False
    with Cons.prems x show ?thesis by (simp add: Cons.IH)
  qed
qed simp

definition documented_scheme :: "('entry, 'schema, 'scheme) openapi \<Rightarrow> str \<Rightarrow> 'scheme option" where
  "documented_scheme doc name =
     Option.bind (od_components doc) (\<lambda>components. map_of (cp_security_schemes components) name)"

lemma documented_scheme_added:
  assumes "distinct (map fst (oc_schemes cfg))" and "map_of (oc_schemes cfg) name = Some c"
  shows "documented_scheme (add_security_schemes cfg doc) name = Some (cs_scheme c)"
proof -
  from assms(2) have "oc_schemes cfg \<noteq> []" by auto
  then show ?thesis using schemes_added [OF assms] by (simp add: add_security_schemes_def documented_scheme_def Let_def)
qed

lemma build_openapi_Inr:
  assumes "build_openapi to_value ty prog root routes_fn cfg = Some (Inr doc)"
  shows "\<exists>doc0. doc = add_security_schemes cfg doc0" and "validate_security_requirements to_value doc cfg = Inr ()"
    and "validate_document_paths doc cfg = Inr ()"
  using assms by (auto simp: build_openapi_def Let_def result_facts Option.bind_eq_Some_conv)

text \<open>C38: A document that was built is consistent: every security scheme that its serialization requires is a
  component of it, of the registered kind; no documented path is the path of the document, of its user
  interface or below the latter; and these paths are absolute.\<close>

theorem openapi_document_consistent:
  assumes "build_openapi to_value throttle_type prog root routes_fn (configure sl title version calls) = Some (Inr doc)"
  shows "\<exists>v. to_value doc = Inr v \<and>
    (\<forall>p verb name. requires v p verb name \<longrightarrow>
       (\<exists>c. map_of (oc_schemes (configure sl title version calls)) name = Some c \<and>
            documented_scheme doc name = Some (cs_scheme c) \<and>
            (\<forall>k. expected_kind name = Some k \<longrightarrow> cs_kind c = k))) \<and>
    (\<forall>p\<in>fst ` set (od_paths doc).
       p \<noteq> oc_json_path (configure sl title version calls) \<and> p \<noteq> oc_ui_path (configure sl title version calls) \<and>
       \<not> prefix (trim_end_slashes (oc_ui_path (configure sl title version calls)) @ ''/'') p)"
proof -
  let ?cfg = "configure sl title version calls"
  note built = build_openapi_Inr [OF assms]
  obtain v where v: "to_value doc = Inr v"
    using built(2) by (auto simp: validate_security_requirements_def split: sum.splits)
  have "\<exists>c. map_of (oc_schemes ?cfg) name = Some c \<and> documented_scheme doc name = Some (cs_scheme c) \<and>
      (\<forall>k. expected_kind name = Some k \<longrightarrow> cs_kind c = k)" if "requires v p verb name" for p verb name
  proof -
    from built(2) that have "registered ?cfg name" by (simp only: validate_security_requirements_Inr [where to_value = to_value, OF v])
    then obtain c where c: "map_of (oc_schemes ?cfg) name = Some c" "\<forall>k. expected_kind name = Some k \<longrightarrow> cs_kind c = k"
      by (auto simp: registered_def)
    have "distinct (map fst (oc_schemes ?cfg))"
      using config_ok_configure [of sl title version calls] by (simp only: config_ok_def)
    with c built(1) show ?thesis by (auto simp: documented_scheme_added)
  qed
  moreover have "\<forall>p\<in>fst ` set (od_paths doc). p \<noteq> oc_json_path ?cfg \<and> p \<noteq> oc_ui_path ?cfg \<and>
      \<not> prefix (trim_end_slashes (oc_ui_path ?cfg) @ ''/'') p"
    using built(3) by (auto simp: validate_document_paths_def list_ex_iff split: if_splits)
  ultimately show ?thesis using v by blast
qed

section \<open>A documented application\<close>

definition demo_schemes :: "(str, unit) scheme_lib" where
  "demo_schemes =
     \<lparr>sl_http_bearer = (\<lambda>format. ''bearer '' @ format), sl_api_key_header = (\<lambda>name. ''header '' @ name),
      sl_api_key_cookie = (\<lambda>name. ''cookie '' @ name), sl_oauth2 = (\<lambda>_. ''oauth2'')\<rparr>"

definition secured_entry :: json where
  "secured_entry = JObject [(''get'', JObject [(''security'', JArray [JObject [(''BearerAuth'', JArray [])]])])]"

definition demo_document :: "bool \<Rightarrow> (json, unit, str) openapi \<Rightarrow> (json, unit, str) openapi" where
  "demo_document throttle doc = doc\<lparr>od_paths := od_paths doc @ [(''/users'', secured_entry)]\<rparr>"

definition demo_to_value :: "(json, unit, str) openapi \<Rightarrow> str + json" where
  "demo_to_value doc = Inr (JObject [(''paths'', JObject (od_paths doc))])"

definition documented_program :: "demo program" where
  "documented_program m =
     \<lparr>mod_name = ''App'', mod_register = ModuleMetadata_new
       \<lparr>md_controllers := [\<lparr>cd_provider = ProviderDef_async_factory 12 ''Users'' [] (\<lambda>h rs. Inl ''down''),
                           cd_validate_routes = Inr (), cd_register = 0\<rparr>]\<rparr>\<rparr>"

definition documented :: "(json, unit, str) openapi" where
  "documented =
     \<lparr>od_title = ''Users'', od_version = ''1'', od_paths = [(''/users'', secured_entry)],
      od_components = Some \<lparr>cp_schemas = [], cp_security_schemes = [(''BearerAuth'', ''bearer JWT'')]\<rparr>\<rparr>"

definition demo_config :: "str openapi_config" where
  "demo_config = configure demo_schemes ''Users'' ''1'' [WithBearerAuth]"

lemma demo_config_fields:
  "oc_schemes demo_config = [(''BearerAuth'', \<lparr>cs_scheme = ''bearer JWT'', cs_kind = KindBearerAuth\<rparr>)]"
  "oc_json_path demo_config = ''/openapi.json''" "oc_ui_path demo_config = ''/docs''"
  "oc_title demo_config = ''Users''" "oc_version demo_config = ''1''"
  by (simp_all add: demo_config_def configure_def OpenApiConfig_new_def insert_security_scheme_def demo_schemes_def)

lemma documented_discovered:
  "openapi_routes documented_program App (\<lambda>_. [d]) = Some [d]"
  "module_registers_provider documented_program App 5 = Some False"
  by (simp_all add: openapi_routes_def module_registers_provider_def documented_program_def discover_eval)

lemma documented_assembled:
  "add_security_schemes demo_config (demo_document b (OpenApi_new ''Users'' ''1'')) = documented"
  by (simp add: add_security_schemes_def demo_config_fields demo_document_def OpenApi_new_def documented_def
      get_or_insert_components_def Components_new_def)

lemma documented_requires:
  "requires (JObject [(''paths'', JObject (od_paths documented))]) p verb name \<longleftrightarrow>
     p = ''/users'' \<and> verb = ''get'' \<and> name = ''BearerAuth''"
  by (auto simp: requires_def json_get_def documented_def secured_entry_def)

lemma documented_accepted:
  "validate_security_requirements demo_to_value documented demo_config = Inr ()"
  "validate_document_paths documented demo_config = Inr ()"
proof -
  have "registered demo_config ''BearerAuth''"
    by (simp add: registered_def demo_config_fields expected_kind_def)
  moreover have v: "demo_to_value documented = Inr (JObject [(''paths'', JObject (od_paths documented))])"
    by (simp add: demo_to_value_def)
  ultimately show "validate_security_requirements demo_to_value documented demo_config = Inr ()"
    unfolding validate_security_requirements_Inr [where to_value = demo_to_value, OF v] documented_requires by blast
  show "validate_document_paths documented demo_config = Inr ()"
    by (simp add: validate_document_paths_def documented_def demo_config_fields trim_end_slashes_def)
qed

lemma documented_built:
  "build_openapi demo_to_value 5 documented_program App (\<lambda>_. [demo_document]) demo_config = Some (Inr documented)"
  by (simp add: build_openapi_def documented_discovered(1) [of demo_document] documented_discovered(2)
      demo_config_fields(4,5) documented_assembled documented_accepted)

theorem openapi_document_consistent_witness:
  "documented_scheme documented ''BearerAuth'' = Some ''bearer JWT''"
  using openapi_document_consistent [OF documented_built [unfolded demo_config_def], folded demo_config_def]
proof (elim exE conjE)
  fix v
  assume v: "demo_to_value documented = Inr v"
    and "\<forall>p verb name. requires v p verb name \<longrightarrow>
      (\<exists>c. map_of (oc_schemes demo_config) name = Some c \<and> documented_scheme documented name = Some (cs_scheme c) \<and>
        (\<forall>k. expected_kind name = Some k \<longrightarrow> cs_kind c = k))"
  moreover from v have "v = JObject [(''paths'', JObject (od_paths documented))]" by (simp add: demo_to_value_def)
  then have "requires v ''/users'' ''get'' ''BearerAuth''" by (simp only: documented_requires simp_thms)
  ultimately obtain c where c: "map_of (oc_schemes demo_config) ''BearerAuth'' = Some c"
    "documented_scheme documented ''BearerAuth'' = Some (cs_scheme c)" by blast
  from c(1) have "cs_scheme c = ''bearer JWT''" by (auto simp: demo_config_fields)
  with c(2) show ?thesis by (simp only:)
qed

text \<open>A standard name that is registered as a custom scheme is rejected when a route requires it.\<close>

lemma custom_scheme_of_standard_name:
  "check_requirement_name (configure sl t v [WithSecurityScheme ''BearerAuth'' s]) p verb ''BearerAuth'' =
     Inl (openapi_configuration_error
       (''OpenAPI security requirement `BearerAuth` on '' @ verb @ '' '' @ p @ '' does not match its registered scheme''))"
  by (simp add: check_requirement_name_def configure_def insert_security_scheme_def OpenApiConfig_new_def
      expected_kind_def)

text \<open>The check compares the paths of a document with the path of the user interface as configured: when
  that ends with a slash, a route at the path without the slash is accepted, where the actix adapter puts
  its redirect; and the document and its user interface may have the same path.\<close>

lemma redirect_path_unchecked:
  assumes "map fst (od_paths doc) = [''/docs'']"
  shows "validate_document_paths doc (configure sl t v [SetUiPath ''/docs/'']) = Inr ()"
  by (simp add: validate_document_paths_def assms configure_def OpenApiConfig_new_def normalize_path_def
      trim_end_slashes_def)

lemma same_paths_unchecked:
  assumes "od_paths doc = []"
  shows "validate_document_paths doc (configure sl t v [SetUiPath ''/docs'', SetJsonPath ''docs'']) = Inr ()"
  by (simp add: validate_document_paths_def assms)

section \<open>Documented errors are the errors that are sent\<close>

fun thrown :: "exception_type \<Rightarrow> str \<Rightarrow> http_exception" where
  "thrown ExBadRequest msg = BadRequestException msg"
| "thrown ExUnauthorized msg = UnauthorizedException msg"
| "thrown ExPaymentRequired msg = PaymentRequiredException msg"
| "thrown ExForbidden msg = ForbiddenException msg"
| "thrown ExNotFound msg = NotFoundException msg"
| "thrown ExMethodNotAllowed msg = MethodNotAllowedException msg"
| "thrown ExNotAcceptable msg = NotAcceptableException msg"
| "thrown ExProxyAuthenticationRequired msg = ProxyAuthenticationRequiredException msg"
| "thrown ExRequestTimeout msg = RequestTimeoutException msg"
| "thrown ExConflict msg = ConflictException msg"
| "thrown ExGone msg = GoneException msg"
| "thrown ExLengthRequired msg = LengthRequiredException msg"
| "thrown ExPreconditionFailed msg = PreconditionFailedException msg"
| "thrown ExPayloadTooLarge msg = PayloadTooLargeException msg"
| "thrown ExUriTooLong msg = UriTooLongException msg"
| "thrown ExUnsupportedMediaType msg = UnsupportedMediaTypeException msg"
| "thrown ExRangeNotSatisfiable msg = RangeNotSatisfiableException msg"
| "thrown ExExpectationFailed msg = ExpectationFailedException msg"
| "thrown ExImATeapot msg = ImATeapotException msg"
| "thrown ExMisdirectedRequest msg = MisdirectedRequestException msg"
| "thrown ExUnprocessableEntity msg = UnprocessableEntityException msg"
| "thrown ExLocked msg = LockedException msg"
| "thrown ExFailedDependency msg = FailedDependencyException msg"
| "thrown ExTooEarly msg = TooEarlyException msg"
| "thrown ExUpgradeRequired msg = UpgradeRequiredException msg"
| "thrown ExPreconditionRequired msg = PreconditionRequiredException msg"
| "thrown ExTooManyRequests msg = TooManyRequestsException msg"
| "thrown ExRequestHeaderFieldsTooLarge msg = RequestHeaderFieldsTooLargeException msg"
| "thrown ExUnavailableForLegalReasons msg = UnavailableForLegalReasonsException msg"
| "thrown ExInternalServerError msg = InternalServerErrorException (OtherError msg)"
| "thrown ExNotImplemented msg = NotImplementedException msg"
| "thrown ExBadGateway msg = BadGatewayException msg"
| "thrown ExServiceUnavailable msg = ServiceUnavailableException msg"
| "thrown ExGatewayTimeout msg = GatewayTimeoutException msg"
| "thrown ExHttpVersionNotSupported msg = HttpVersionNotSupportedException msg"
| "thrown ExVariantAlsoNegotiates msg = VariantAlsoNegotiatesException msg"
| "thrown ExInsufficientStorage msg = InsufficientStorageException msg"
| "thrown ExLoopDetected msg = LoopDetectedException msg"

lemmas exception_statuses = HttpException_new_def with_source_def
  BadRequestException_def UnauthorizedException_def PaymentRequiredException_def ForbiddenException_def
  NotFoundException_def MethodNotAllowedException_def NotAcceptableException_def
  ProxyAuthenticationRequiredException_def RequestTimeoutException_def ConflictException_def GoneException_def
  LengthRequiredException_def PreconditionFailedException_def PayloadTooLargeException_def
  UriTooLongException_def UnsupportedMediaTypeException_def RangeNotSatisfiableException_def
  ExpectationFailedException_def ImATeapotException_def MisdirectedRequestException_def
  UnprocessableEntityException_def LockedException_def FailedDependencyException_def TooEarlyException_def
  UpgradeRequiredException_def PreconditionRequiredException_def TooManyRequestsException_def
  RequestHeaderFieldsTooLargeException_def UnavailableForLegalReasonsException_def NotImplementedException_def
  BadGatewayException_def ServiceUnavailableException_def GatewayTimeoutException_def
  HttpVersionNotSupportedException_def VariantAlsoNegotiatesException_def InsufficientStorageException_def
  LoopDetectedException_def InternalServerErrorException_def

text \<open>For every exception type the status documented for it is the status of the exception it constructs,
  and of the response it is sent as when its body can be serialized; a body that cannot is sent as 500.\<close>

theorem documented_status_is_sent:
  "hr_status (exception_into_response to_vec (thrown t msg)) \<in> {documented_status t, 500} \<and>
   (hr_status (exception_into_response (\<lambda>b. Some (encode b)) (thrown t msg)) = documented_status t) \<and>
   ex_status (thrown t msg) = documented_status t"
proof -
  have "ex_status (thrown t msg) = documented_status t"
    by (cases t) (simp_all add: exception_statuses)
  then show ?thesis
    by (auto simp: exception_into_response_def HttpResponse_json_def HttpResponse_new_def
        json_serialization_error_response_def split: option.splits if_splits)
qed

text \<open>Path parameters are always required, whatever the caller says.\<close>

lemma path_parameter_required: "pm_required (parameter name InPath required description schema)"
  by (simp add: parameter_def)

text \<open>Adding schemas changes no component there is, and adds every schema that was missing.\<close>

definition component_schema :: "('entry, 'schema, 'scheme) openapi \<Rightarrow> str \<Rightarrow> 'schema option" where
  "component_schema doc name =
     Option.bind (od_components doc) (\<lambda>components. map_of (cp_schemas components) name)"

lemma or_insert_all:
  "map_of (fold or_insert schemas entries) name =
     (case map_of entries name of Some s \<Rightarrow> Some s | None \<Rightarrow> map_of schemas name)"
  by (induction schemas arbitrary: entries)
    (auto simp: or_insert_def update_conv' split: option.splits prod.splits)

lemma add_schema_keeps_components:
  "component_schema (add_schema schemas doc) name =
     (case component_schema doc name of Some s \<Rightarrow> Some s | None \<Rightarrow> map_of schemas name)"
  by (cases "od_components doc")
    (simp_all add: add_schema_def component_schema_def get_or_insert_components_def Components_new_def or_insert_all)

text \<open>A multipart body requires exactly the files that are required, in order, and describes every one.\<close>

lemma add_file_properties:
  "snd (fold add_file_property files start) = snd start @ map uf_name (filter uf_required files) \<and>
   fst ` set (fst (fold add_file_property files start)) = fst ` set (fst start) \<union> uf_name ` set files"
proof (induction files arbitrary: start)
  case (Cons f files)
  show ?case by (cases start) (simp add: Cons.IH dom_update)
qed simp

lemma file_properties_fields:
  "snd (file_properties files) = map uf_name (filter uf_required files)"
  "fst ` set (fst (file_properties files)) = uf_name ` set files"
  by (simp_all add: file_properties_def add_file_properties)

end
