(* ===== verification/Applications.thy ===== *)
theory Applications
  imports ResponseAdapters OpenApi RouteLog Startup Connections Uploads
begin

text \<open>
  Applications of the two adapters, \<open>crates/caelix-actix/src/application.rs\<close> and
  \<open>crates/caelix-axum/src/application.rs\<close>: construction, configuration, the services that are registered
  with the HTTP library, and \<open>listen\<close> with its ends (doctor mode, an address that cannot be bound, a
  server that stops). Binding and serving are the library's: their outcomes are arguments, and a server
  that never stops is one. The container, the calls of the lifecycle hooks and the logger are those of the
  other theories. \<open>None\<close> is a panic. The native middleware of an application is left out, layers of the
  axum router are numbers; so is Socket.IO.
\<close>

section \<open>Services\<close>

datatype service =
    JsonLimit nat
  | UploadData upload_config nat
  | PathErrors
  | QueryErrors
  | BodyLimit nat
  | Controller nat
  | Gateway str type_id nat
  | Document str str
  | Ui str str
  | UiRedirect str str
  | NotFoundFallback
  | Layer nat

text \<open>\<open>to_string\<close> is \<open>serde_json::to_string\<close> of a path.\<close>

definition quoted :: "str \<Rightarrow> str" where
  "quoted s = CHR 0x22 # s @ [CHR 0x22]"

definition swagger_ui_html :: "(str \<Rightarrow> str) \<Rightarrow> str \<Rightarrow> str" where
  "swagger_ui_html to_string json_path =
     ''<!doctype html><html><head><meta charset='' @ quoted ''utf-8'' @ ''><title>Swagger UI</title><link rel='' @
     quoted ''stylesheet'' @ '' href='' @ quoted ''https://unpkg.com/swagger-ui-dist@5/swagger-ui.css'' @
     ''></head><body><div id='' @ quoted ''swagger-ui'' @ ''></div><script src='' @
     quoted ''https://unpkg.com/swagger-ui-dist@5/swagger-ui-bundle.js'' @
     ''></script><script>SwaggerUIBundle({url:'' @ to_string json_path @ '',dom_id:'' @ [CHR 0x27] @
     ''#swagger-ui'' @ [CHR 0x27] @ ''});</script></body></html>''"

record 'scheme openapi_services =
  os_config :: "'scheme openapi_config"
  os_document :: str

definition actix_openapi_services :: "(str \<Rightarrow> str) \<Rightarrow> 'scheme openapi_services option \<Rightarrow> service list" where
  "actix_openapi_services to_string openapi =
     (case openapi of
        None \<Rightarrow> []
      | Some os \<Rightarrow>
          (let ui_base = trim_end_slashes (oc_ui_path (os_config os)); ui_redirect = ui_base @ ''/''
           in [Document (oc_json_path (os_config os)) (os_document os),
               Ui (ui_base @ ''/'') (swagger_ui_html to_string (oc_json_path (os_config os))),
               UiRedirect ui_base ui_redirect]))"

definition mount_openapi :: "(str \<Rightarrow> str) \<Rightarrow> 'scheme openapi_config \<Rightarrow> str \<Rightarrow> service list" where
  "mount_openapi to_string cfg document =
     (let html = swagger_ui_html to_string (oc_json_path cfg)
      in [Document (oc_json_path cfg) document, Ui (oc_ui_path cfg) html,
          Ui (trim_end_slashes (oc_ui_path cfg) @ ''/'') html])"

section \<open>Applications\<close>

definition DEFAULT_BODY_LIMIT_BYTES :: nat where "DEFAULT_BODY_LIMIT_BYTES = 1024 * 1024"
definition DEFAULT_WEBSOCKET_MAX_MESSAGE_SIZE :: nat where "DEFAULT_WEBSOCKET_MAX_MESSAGE_SIZE = 1024 * 1024"

record 'scheme actix_app =
  aa_container :: container
  aa_body_limit :: nat
  aa_upload :: upload_config
  aa_websocket_max :: nat
  aa_workers :: nat
  aa_logging :: "logging option"
  aa_openapi :: "'scheme openapi_services option"

record 'scheme axum_app =
  xa_container :: container
  xa_body_limit :: nat
  xa_upload :: upload_config
  xa_websocket_max :: nat
  xa_layers :: "nat list"
  xa_openapi :: "'scheme openapi_services option"

text \<open>The environment of a process: its variables, the clock, the number of processors, the default
  directory for uploads, and what the macros generate for the log of the routes.\<close>

record process =
  ps_env :: environment
  ps_now :: nat
  ps_elapsed :: nat
  ps_cpus :: nat
  ps_upload :: upload_config
  ps_route_count :: "controller_def \<Rightarrow> nat"
  ps_routes_of :: "controller_def \<Rightarrow> controller_routes"

definition with_container ::
    "process \<Rightarrow> ('m::finite) program \<Rightarrow> 'm \<Rightarrow> (container result \<times> history) option \<Rightarrow> (container \<Rightarrow> 'a) \<Rightarrow> log_state \<Rightarrow>
     ('a result \<times> history \<times> log_state) option" where
  "with_container ps prog root build_result construct log =
     (case build_result of
        None \<Rightarrow> None
      | Some (Inl e, h) \<Rightarrow> Some (Inl e, h, log)
      | Some (Inr c, h) \<Rightarrow>
          Some (Inr (construct c), h,
            log_module_routes (ps_env ps) (ps_now ps) prog (ps_route_count ps) (ps_routes_of ps) root log))"

definition actix_new ::
    "process \<Rightarrow> ('m::finite) program \<Rightarrow> 'm \<Rightarrow> log_state \<Rightarrow> ('scheme actix_app result \<times> history \<times> log_state) option" where
  "actix_new ps prog root log =
     with_container ps prog root (build_container prog root)
       (\<lambda>c. \<lparr>aa_container = c, aa_body_limit = DEFAULT_BODY_LIMIT_BYTES, aa_upload = ps_upload ps,
             aa_websocket_max = DEFAULT_WEBSOCKET_MAX_MESSAGE_SIZE, aa_workers = ps_cpus ps, aa_logging = None,
             aa_openapi = None\<rparr>)
       (log_application_starting (ps_env ps) (ps_now ps) log)"

text \<open>With the Socket.IO feature the axum adapter registers the handle, given by its type and value, before the
  providers are built.\<close>

definition axum_new ::
    "process \<Rightarrow> (type_id \<times> nat) option \<Rightarrow> ('m::finite) program \<Rightarrow> 'm \<Rightarrow> log_state \<Rightarrow>
     ('scheme axum_app result \<times> history \<times> log_state) option" where
  "axum_new ps socket_io prog root log =
     with_container ps prog root
       (case socket_io of
          None \<Rightarrow> build_container prog root
        | Some (ty, handle) \<Rightarrow> build_container_with_setup prog root (register_instance ty handle))
       (\<lambda>c. \<lparr>xa_container = c, xa_body_limit = DEFAULT_BODY_LIMIT_BYTES, xa_upload = ps_upload ps,
             xa_websocket_max = DEFAULT_WEBSOCKET_MAX_MESSAGE_SIZE, xa_layers = [], xa_openapi = None\<rparr>)
       (log_application_starting (ps_env ps) (ps_now ps) log)"

section \<open>Configuration\<close>

datatype app_setting =
    SetBodyLimit nat
  | SetUploadTempDir str
  | SetWebsocketMaxMessageSize nat
  | SetWorkers nat
  | SetLogging logging
  | AddLayer nat

text \<open>The actix application has no layers, the axum application neither workers nor logging.\<close>

fun actix_setting :: "app_setting \<Rightarrow> 'scheme actix_app \<Rightarrow> 'scheme actix_app" where
  "actix_setting (SetBodyLimit n) app = app\<lparr>aa_body_limit := n\<rparr>"
| "actix_setting (SetUploadTempDir p) app = app\<lparr>aa_upload := upload_temp_dir p (aa_upload app)\<rparr>"
| "actix_setting (SetWebsocketMaxMessageSize n) app = app\<lparr>aa_websocket_max := max n 1\<rparr>"
| "actix_setting (SetWorkers n) app = app\<lparr>aa_workers := max n 1\<rparr>"
| "actix_setting (SetLogging l) app = app\<lparr>aa_logging := Some l\<rparr>"
| "actix_setting (AddLayer l) app = app"

fun axum_setting :: "app_setting \<Rightarrow> 'scheme axum_app \<Rightarrow> 'scheme axum_app" where
  "axum_setting (SetBodyLimit n) app = app\<lparr>xa_body_limit := n\<rparr>"
| "axum_setting (SetUploadTempDir p) app = app\<lparr>xa_upload := upload_temp_dir p (xa_upload app)\<rparr>"
| "axum_setting (SetWebsocketMaxMessageSize n) app = app\<lparr>xa_websocket_max := max n 1\<rparr>"
| "axum_setting (AddLayer l) app = app\<lparr>xa_layers := xa_layers app @ [l]\<rparr>"
| "axum_setting (SetWorkers n) app = app"
| "axum_setting (SetLogging l) app = app"

text \<open>\<open>build\<close> is \<open>build_openapi\<close> of the root module, \<open>to_json\<close> the serialization of a document, which must
  succeed. An error consumes the application.\<close>

definition openapi_services_for ::
    "('scheme openapi_config \<Rightarrow> 'doc result option) \<Rightarrow> ('doc \<Rightarrow> str option) \<Rightarrow> 'scheme openapi_config \<Rightarrow>
     'scheme openapi_services result option" where
  "openapi_services_for build to_json cfg =
     (case build cfg of
        None \<Rightarrow> None
      | Some (Inl e) \<Rightarrow> Some (Inl e)
      | Some (Inr doc) \<Rightarrow> map_option (\<lambda>text. Inr \<lparr>os_config = cfg, os_document = text\<rparr>) (to_json doc))"

definition actix_with_openapi ::
    "('scheme openapi_config \<Rightarrow> 'doc result option) \<Rightarrow> ('doc \<Rightarrow> str option) \<Rightarrow> 'scheme openapi_config \<Rightarrow>
     'scheme actix_app \<Rightarrow> 'scheme actix_app result option" where
  "actix_with_openapi build to_json cfg app =
     map_option (\<lambda>r. bind_result r (\<lambda>os. Inr (app\<lparr>aa_openapi := Some os\<rparr>))) (openapi_services_for build to_json cfg)"

definition axum_with_openapi ::
    "('scheme openapi_config \<Rightarrow> 'doc result option) \<Rightarrow> ('doc \<Rightarrow> str option) \<Rightarrow> 'scheme openapi_config \<Rightarrow>
     'scheme axum_app \<Rightarrow> 'scheme axum_app result option" where
  "axum_with_openapi build to_json cfg app =
     map_option (\<lambda>r. bind_result r (\<lambda>os. Inr (app\<lparr>xa_openapi := Some os\<rparr>))) (openapi_services_for build to_json cfg)"

section \<open>Registration\<close>

definition configure_caelix_services ::
    "(str \<Rightarrow> str) \<Rightarrow> ('m::finite) program \<Rightarrow> 'm \<Rightarrow> nat \<Rightarrow> upload_config \<Rightarrow> 'scheme openapi_services option \<Rightarrow>
     service list option" where
  "configure_caelix_services to_string prog root limit upload openapi =
     map_option (\<lambda>controllers.
         [JsonLimit limit, UploadData upload limit, PathErrors, QueryErrors] @ map Controller controllers @
         actix_openapi_services to_string openapi @ [NotFoundFallback])
       (register_module_controllers prog root)"

definition gateway_services :: "('m::finite) program \<Rightarrow> 'm \<Rightarrow> nat \<Rightarrow> service list option" where
  "gateway_services prog root max_size =
     map_option (map (\<lambda>(p, ty). Gateway p ty max_size)) (configure_gateway_routes prog root)"

text \<open>What the factory of the actix server configures, for every worker.\<close>

definition actix_services ::
    "(str \<Rightarrow> str) \<Rightarrow> ('m::finite) program \<Rightarrow> 'm \<Rightarrow> 'scheme actix_app \<Rightarrow> service list option" where
  "actix_services to_string prog root app =
     Option.bind (configure_caelix_services to_string prog root (aa_body_limit app) (aa_upload app) (aa_openapi app))
       (\<lambda>svcs. map_option (\<lambda>gateways. svcs @ gateways) (gateway_services prog root (aa_websocket_max app)))"

definition into_router ::
    "(str \<Rightarrow> str) \<Rightarrow> ('m::finite) program \<Rightarrow> 'm \<Rightarrow> 'scheme axum_app \<Rightarrow> service list option" where
  "into_router to_string prog root app =
     Option.bind (register_module_controllers prog root) (\<lambda>controllers.
     map_option (\<lambda>gateways.
         map Controller controllers @ gateways @
         (case xa_openapi app of None \<Rightarrow> [] | Some os \<Rightarrow> mount_openapi to_string (os_config os) (os_document os)) @
         [UploadData (xa_upload app) (xa_body_limit app), BodyLimit (xa_body_limit app), NotFoundFallback] @
         map Layer (xa_layers app))
       (gateway_services prog root (xa_websocket_max app)))"

section \<open>Listening\<close>

datatype server_event =
    Prepared "service list"
  | Bound str
  | Serving nat bool "service list"
  | Called app_call

record server =
  sv_container :: container
  sv_calls :: history
  sv_events :: "server_event list"
  sv_log :: log_state

text \<open>A call of \<open>listen\<close> returns, or it is still serving.\<close>

datatype outcome = Returned "str + unit" | StillServing

definition event :: "server_event \<Rightarrow> server \<Rightarrow> server" where
  "event e sv = sv\<lparr>sv_events := sv_events sv @ [e]\<rparr>"

definition app_shutdown :: "('m::finite) program \<Rightarrow> 'm \<Rightarrow> server \<Rightarrow> (unit result \<times> server) option" where
  "app_shutdown prog root sv =
     (case shutdown_module prog root (sv_container sv) (sv_calls sv) of
        None \<Rightarrow> None
      | Some (r, c, h) \<Rightarrow>
          Some (r, sv\<lparr>sv_container := c, sv_calls := h,
                      sv_events := sv_events sv @ map Called (drop (length (sv_calls sv)) h)\<rparr>))"

definition has_doctor_argument :: "str list \<Rightarrow> bool" where
  "has_doctor_argument args = list_ex (\<lambda>a. a = ''--doctor'') args"

definition to_io_error :: "http_exception \<Rightarrow> str" where
  "to_io_error e = ex_message e"

text \<open>After the server: shutting down, whose error comes first, then the result of serving. \<open>served\<close> is
  None when the server does not stop.\<close>

definition shutdown_after_serving ::
    "('m::finite) program \<Rightarrow> 'm \<Rightarrow> (str + unit) option \<Rightarrow> server \<Rightarrow> (outcome \<times> server) option" where
  "shutdown_after_serving prog root served sv =
     (case served of
        None \<Rightarrow> Some (StillServing, sv)
      | Some result \<Rightarrow>
          map_option (\<lambda>(r, sv'). (Returned (bind_result (map_err to_io_error r) (\<lambda>_. result)), sv'))
            (app_shutdown prog root sv))"

definition log_listening :: "process \<Rightarrow> str \<Rightarrow> 'scheme openapi_services option \<Rightarrow> server \<Rightarrow> server" where
  "log_listening ps addr openapi sv =
     (let log1 = log_ready (ps_env ps) (ps_now ps) addr (ps_elapsed ps) (sv_log sv)
      in sv\<lparr>sv_log :=
           (case openapi of
              None \<Rightarrow> log1
            | Some os \<Rightarrow> log_openapi_ready (ps_env ps) (ps_now ps) addr (oc_json_path (os_config os))
                           (oc_ui_path (os_config os)) log1)\<rparr>)"

definition doctor_run :: "('m::finite) program \<Rightarrow> 'm \<Rightarrow> service list \<Rightarrow> server \<Rightarrow> (outcome \<times> server) option" where
  "doctor_run prog root svcs sv =
     map_option (\<lambda>(r, sv'). (Returned (map_err to_io_error r), sv')) (app_shutdown prog root (event (Prepared svcs) sv))"

definition bind_failed :: "('m::finite) program \<Rightarrow> 'm \<Rightarrow> str \<Rightarrow> server \<Rightarrow> (outcome \<times> server) option" where
  "bind_failed prog root error sv = map_option (\<lambda>(r, sv'). (Returned (Inl error), sv')) (app_shutdown prog root sv)"

definition actix_listen ::
    "process \<Rightarrow> (str \<Rightarrow> str) \<Rightarrow> ('m::finite) program \<Rightarrow> 'm \<Rightarrow> 'scheme actix_app \<Rightarrow> str \<Rightarrow> str list \<Rightarrow> str + unit \<Rightarrow>
     (str + unit) option \<Rightarrow> server \<Rightarrow> (outcome \<times> server) option" where
  "actix_listen ps to_string prog root app addr args bound served sv =
     (if has_doctor_argument args then
        Option.bind (actix_services to_string prog root app) (\<lambda>svcs. doctor_run prog root svcs sv)
      else
        (case http_request_logging_enabled (ps_env ps) (sv_log sv) of
           (enabled, log1) \<Rightarrow>
             (let logging = unwrap_or (aa_logging app) \<lparr>lo_access_log = enabled, lo_format = Compact\<rparr>;
                  sv1 = sv\<lparr>sv_log := log1\<rparr>
              in (case bound of
                    Inl error \<Rightarrow> bind_failed prog root error sv1
                  | Inr _ \<Rightarrow>
                      Option.bind (actix_services to_string prog root app) (\<lambda>svcs.
                        shutdown_after_serving prog root served
                          (event (Serving (aa_workers app) (lo_access_log logging) svcs)
                             (log_listening ps addr (aa_openapi app) (event (Bound addr) sv1))))))))"

text \<open>The axum server has one set of services and no access log.\<close>

definition axum_listen ::
    "process \<Rightarrow> (str \<Rightarrow> str) \<Rightarrow> ('m::finite) program \<Rightarrow> 'm \<Rightarrow> 'scheme axum_app \<Rightarrow> str \<Rightarrow> str list \<Rightarrow> str + unit \<Rightarrow>
     (str + unit) option \<Rightarrow> server \<Rightarrow> (outcome \<times> server) option" where
  "axum_listen ps to_string prog root app addr args bound served sv =
     (if has_doctor_argument args then
        Option.bind (into_router to_string prog root app) (\<lambda>svcs. doctor_run prog root svcs sv)
      else
        (case bound of
           Inl error \<Rightarrow> bind_failed prog root error sv
         | Inr _ \<Rightarrow>
             Option.bind (into_router to_string prog root app) (\<lambda>svcs.
               shutdown_after_serving prog root served
                 (event (Serving 1 False svcs)
                    (log_listening ps addr (xa_openapi app) (event (Bound addr) sv))))))"

section \<open>Listening ends with one shutdown\<close>

lemma configured_container:
  "aa_container (fold actix_setting settings app) = aa_container app"
  "xa_container (fold axum_setting settings app') = xa_container app'"
proof -
  have "aa_container (actix_setting s a) = aa_container a" for s and a :: "'a actix_app" by (cases s) simp_all
  then show "aa_container (fold actix_setting settings app) = aa_container app"
    by (induction settings arbitrary: app) simp_all
  have "xa_container (axum_setting s a) = xa_container a" for s and a :: "'b axum_app" by (cases s) simp_all
  then show "xa_container (fold axum_setting settings app') = xa_container app'"
    by (induction settings arbitrary: app') simp_all
qed

lemma actix_new_built:
  assumes "actix_new ps prog root log = Some (Inr app, h, log')"
  obtains g where "discover_from prog root = Some (Inr g)"
    "live g (aa_container app) (initialized_providers (aa_container app))"
    "distinct (initialized_providers (aa_container app))"
proof -
  from assms have "build_container_with_overrides prog root [] = Some (Inr (aa_container app), h)"
    by (auto simp: actix_new_def with_container_def build_container_def split: option.splits sum.splits prod.splits)
  then show ?thesis by (rule container_built) (use that in \<open>auto simp: keyed_def\<close>)
qed

lemma axum_new_built:
  assumes "axum_new ps socket_io prog root log = Some (Inr app, h, log')"
  obtains g where "discover_from prog root = Some (Inr g)"
    "live g (xa_container app) (initialized_providers (xa_container app))"
    "distinct (initialized_providers (xa_container app))"
proof (cases socket_io)
  case None
  with assms have "build_container_with_overrides prog root [] = Some (Inr (xa_container app), h)"
    by (auto simp: axum_new_def with_container_def build_container_def split: option.splits sum.splits prod.splits)
  then show ?thesis by (rule container_built) (use that in \<open>auto simp: keyed_def\<close>)
next
  case (Some handle)
  with assms have "build_container_with_setup prog root (register_instance (fst handle) (snd handle)) =
      Some (Inr (xa_container app), h)"
    by (auto simp: axum_new_def with_container_def split: option.splits sum.splits prod.splits)
  then show ?thesis by (rule client_built) (use that in blast)
qed

lemma registered_services:
  assumes "discover_from prog root = Some (Inr g)"
  shows "\<exists>svcs. actix_services to_string prog root app = Some svcs"
    and "\<exists>svcs. into_router to_string prog root app' = Some svcs"
  using assms by (simp_all add: actix_services_def into_router_def configure_caelix_services_def gateway_services_def
      register_module_controllers_def configure_gateway_routes_def visit_module_gateways_def)

definition shutdown_calls :: "server \<Rightarrow> history" where
  "shutdown_calls sv = map Shutdown (rev (initialized_providers (sv_container sv)))"

definition shut_down :: "server \<Rightarrow> server \<Rightarrow> bool" where
  "shut_down sv sv' \<longleftrightarrow>
     sv_container sv' = (sv_container sv)\<lparr>initialized_providers := []\<rparr> \<and>
     sv_calls sv' = sv_calls sv @ shutdown_calls sv \<and>
     sv_events sv' = sv_events sv @ map Called (shutdown_calls sv)"

lemma app_shutdown_built:
  assumes "discover_from prog root = Some (Inr g)" and "live g (sv_container sv) (initialized_providers (sv_container sv))"
  obtains r sv' where "app_shutdown prog root sv = Some (r, sv')" "shut_down sv sv'"
  using shutdown_built [OF assms, of "sv_calls sv"] that
  by (auto simp: app_shutdown_def shut_down_def shutdown_calls_def)

lemma app_shutdown_again:
  assumes "discover_from prog root = Some (Inr g)" and "initialized_providers (sv_container sv) = []"
  shows "app_shutdown prog root sv = Some (Inr (), sv)"
  by (simp add: app_shutdown_def shutdown_module_def on_graph_def assms take_initialized_providers_def)

text \<open>What a call of \<open>listen\<close> does: in doctor mode everything is prepared and shut down without binding; when
  the address cannot be bound only the shutdown happens; otherwise the server runs before the shutdown, if
  it stops.\<close>

definition listen_events ::
    "bool \<Rightarrow> str + unit \<Rightarrow> (str + unit) option \<Rightarrow> server_event \<Rightarrow> server_event \<Rightarrow> server_event \<Rightarrow> history \<Rightarrow>
     server_event list" where
  "listen_events doctor bound served prepared bound_event serving calls =
     (if doctor then prepared # map Called calls
      else if \<not> is_ok bound then map Called calls
      else [bound_event, serving] @ (if served = None then [] else map Called calls))"

definition listen_calls :: "bool \<Rightarrow> str + unit \<Rightarrow> (str + unit) option \<Rightarrow> history \<Rightarrow> history" where
  "listen_calls doctor bound served calls = (if \<not> doctor \<and> is_ok bound \<and> served = None then [] else calls)"

text \<open>The error of binding is returned; so is that of serving, unless the shutdown failed.\<close>

definition listen_outcome_ok :: "bool \<Rightarrow> str + unit \<Rightarrow> (str + unit) option \<Rightarrow> outcome \<Rightarrow> bool" where
  "listen_outcome_ok doctor bound served out \<longleftrightarrow>
     (if doctor then \<exists>r. out = Returned r
      else case bound of
             Inl e \<Rightarrow> out = Returned (Inl e)
           | Inr _ \<Rightarrow> (case served of None \<Rightarrow> out = StillServing
                      | Some r \<Rightarrow> out = Returned r \<or> (\<exists>e. out = Returned (Inl e))))"

lemma shutdown_steps:
  assumes d: "discover_from prog root = Some (Inr g)" and live: "live g (sv_container sv) (initialized_providers (sv_container sv))"
  shows "\<exists>r sv'. doctor_run prog root svcs sv = Some (Returned r, sv') \<and> shut_down (event (Prepared svcs) sv) sv'"
    and "\<exists>sv'. bind_failed prog root error sv = Some (Returned (Inl error), sv') \<and> shut_down sv sv'"
    and "\<exists>r' sv'. shutdown_after_serving prog root (Some result) sv = Some (Returned r', sv') \<and>
      (r' = result \<or> (\<exists>e. r' = Inl e)) \<and> shut_down sv sv'"
proof -
  have "live g (sv_container (event (Prepared svcs) sv)) (initialized_providers (sv_container (event (Prepared svcs) sv)))"
    using live by (simp add: event_def)
  from app_shutdown_built [OF d this]
  show "\<exists>r sv'. doctor_run prog root svcs sv = Some (Returned r, sv') \<and> shut_down (event (Prepared svcs) sv) sv'"
    by (metis doctor_run_def option.simps(9) old.prod.case)
  obtain r sv' where s: "app_shutdown prog root sv = Some (r, sv')" "shut_down sv sv'"
    using app_shutdown_built [OF d live] by blast
  then show "\<exists>sv'. bind_failed prog root error sv = Some (Returned (Inl error), sv') \<and> shut_down sv sv'"
    by (simp add: bind_failed_def)
  show "\<exists>r' sv'. shutdown_after_serving prog root (Some result) sv = Some (Returned r', sv') \<and>
      (r' = result \<or> (\<exists>e. r' = Inl e)) \<and> shut_down sv sv'"
    using s by (cases r) (simp_all add: shutdown_after_serving_def)
qed

lemma event_simps [simp]:
  "sv_container (event e sv) = sv_container sv" "sv_calls (event e sv) = sv_calls sv"
  "sv_events (event e sv) = sv_events sv @ [e]"
  "sv_container (log_listening ps addr os sv) = sv_container sv" "sv_calls (log_listening ps addr os sv) = sv_calls sv"
  "sv_events (log_listening ps addr os sv) = sv_events sv"
  by (simp_all add: event_def log_listening_def Let_def)

text \<open>A call of \<open>listen\<close> with the given events and calls, after which another shutdown calls nothing.\<close>

definition listens ::
    "('m::finite) program \<Rightarrow> 'm \<Rightarrow> bool \<Rightarrow> str + unit \<Rightarrow> (str + unit) option \<Rightarrow> server_event \<Rightarrow> server_event \<Rightarrow> server_event \<Rightarrow>
     server \<Rightarrow> outcome \<Rightarrow> server \<Rightarrow> bool" where
  "listens prog root doctor bound served prepared bound_event serving sv out sv' \<longleftrightarrow>
     listen_outcome_ok doctor bound served out \<and>
     sv_events sv' = sv_events sv @ listen_events doctor bound served prepared bound_event serving (shutdown_calls sv) \<and>
     sv_calls sv' = sv_calls sv @ listen_calls doctor bound served (shutdown_calls sv) \<and>
     (out = StillServing \<or> app_shutdown prog root sv' = Some (Inr (), sv'))"

lemma listens_cases:
  assumes d: "discover_from prog root = Some (Inr g)" and live: "live g (sv_container sv) (initialized_providers (sv_container sv))"
    and same: "sv_container sv1 = sv_container sv" "sv_calls sv1 = sv_calls sv" "sv_events sv1 = sv_events sv"
    and serving: "sv_container sv2 = sv_container sv" "sv_calls sv2 = sv_calls sv"
      "sv_events sv2 = sv_events sv @ [bound_event, serve_event]"
  shows "\<exists>out sv'. doctor_run prog root svcs sv = Some (out, sv') \<and>
      listens prog root True bound served (Prepared svcs) bound_event serve_event sv out sv'"
    and "\<exists>out sv'. bind_failed prog root error sv1 = Some (out, sv') \<and>
      listens prog root False (Inl error) served (Prepared svcs) bound_event serve_event sv out sv'"
    and "\<exists>out sv'. shutdown_after_serving prog root served sv2 = Some (out, sv') \<and>
      listens prog root False (Inr ()) served (Prepared svcs) bound_event serve_event sv out sv'"
proof -
  note again = app_shutdown_again [OF d]
  note defs = listens_def listen_outcome_ok_def listen_events_def listen_calls_def shut_down_def shutdown_calls_def
  from shutdown_steps(1) [OF d live, of svcs]
  show "\<exists>out sv'. doctor_run prog root svcs sv = Some (out, sv') \<and>
      listens prog root True bound served (Prepared svcs) bound_event serve_event sv out sv'"
    by (auto simp: defs again)
  from live same have "live g (sv_container sv1) (initialized_providers (sv_container sv1))" by simp
  from shutdown_steps(2) [OF d this, of error] same
  show "\<exists>out sv'. bind_failed prog root error sv1 = Some (out, sv') \<and>
      listens prog root False (Inl error) served (Prepared svcs) bound_event serve_event sv out sv'"
    by (auto simp: defs again)
  show "\<exists>out sv'. shutdown_after_serving prog root served sv2 = Some (out, sv') \<and>
      listens prog root False (Inr ()) served (Prepared svcs) bound_event serve_event sv out sv'"
  proof (cases served)
    case None
    then show ?thesis using serving by (simp add: shutdown_after_serving_def defs)
  next
    case (Some result)
    from live serving have "live g (sv_container sv2) (initialized_providers (sv_container sv2))" by simp
    from shutdown_steps(3) [OF d this, of result] serving Some show ?thesis by (auto simp: defs again)
  qed
qed

definition opened :: "container \<Rightarrow> history \<Rightarrow> log_state \<Rightarrow> server" where
  "opened c h log = \<lparr>sv_container = c, sv_calls = h, sv_events = [], sv_log = log\<rparr>"

text \<open>C40: Whatever happens to the server, a call of \<open>listen\<close> of an actix application that was built ends, if
  the server does, with the shutdown hooks of the initialized providers, each called once and in reverse
  order, after everything else; nothing is bound in doctor mode and nothing served unless the address was
  bound; and shutting down again calls nothing.\<close>

theorem actix_listen_shuts_down_once:
  assumes "actix_new ps prog root log = Some (Inr app0, h, log')" and "app = fold actix_setting settings app0"
  shows "\<exists>svcs out sv' access_log.
    actix_listen ps to_string prog root app addr args bound served (opened (aa_container app) h log') = Some (out, sv') \<and>
    distinct (initialized_providers (aa_container app)) \<and>
    listens prog root (has_doctor_argument args) bound served (Prepared svcs) (Bound addr)
      (Serving (aa_workers app) access_log svcs) (opened (aa_container app) h log') out sv'"
proof -
  let ?sv = "opened (aa_container app) h log'"
  have c: "aa_container app = aa_container app0" by (simp add: assms(2) configured_container)
  from actix_new_built [OF assms(1)] obtain g where d: "discover_from prog root = Some (Inr g)"
    and live: "live g (sv_container ?sv) (initialized_providers (sv_container ?sv))"
    and dist: "distinct (initialized_providers (aa_container app))" by (auto simp: c opened_def)
  obtain svcs where s: "actix_services to_string prog root app = Some svcs"
    using registered_services(1) [OF d] by blast
  obtain enabled log1 where l: "http_request_logging_enabled (ps_env ps) (sv_log ?sv) = (enabled, log1)" by force
  let ?acc = "lo_access_log (unwrap_or (aa_logging app) \<lparr>lo_access_log = enabled, lo_format = Compact\<rparr>)"
  let ?sv1 = "?sv\<lparr>sv_log := log1\<rparr>"
  let ?serving = "Serving (aa_workers app) ?acc svcs"
  let ?sv2 = "event ?serving (log_listening ps addr (aa_openapi app) (event (Bound addr) ?sv1))"
  have "\<exists>out sv'. actix_listen ps to_string prog root app addr args bound served ?sv = Some (out, sv') \<and>
      listens prog root (has_doctor_argument args) bound served (Prepared svcs) (Bound addr) ?serving ?sv out sv'"
  proof (cases "has_doctor_argument args")
    case True
    with listens_cases(1) [OF d live, of ?sv1 ?sv2 "Bound addr" ?serving svcs bound served] s
    show ?thesis by (simp add: actix_listen_def)
  next
    case False
    with listens_cases(2) [OF d live, of ?sv1 ?sv2 "Bound addr" ?serving _ served svcs]
      listens_cases(3) [OF d live, of ?sv1 ?sv2 "Bound addr" ?serving served svcs] s l
    show ?thesis by (cases bound) (simp_all add: actix_listen_def Let_def)
  qed
  with dist show ?thesis by blast
qed

theorem axum_listen_shuts_down_once:
  assumes "axum_new ps socket_io prog root log = Some (Inr app0, h, log')" and "app = fold axum_setting settings app0"
  shows "\<exists>svcs out sv'.
    axum_listen ps to_string prog root app addr args bound served (opened (xa_container app) h log') = Some (out, sv') \<and>
    distinct (initialized_providers (xa_container app)) \<and>
    listens prog root (has_doctor_argument args) bound served (Prepared svcs) (Bound addr)
      (Serving 1 False svcs) (opened (xa_container app) h log') out sv'"
proof -
  let ?sv = "opened (xa_container app) h log'"
  have c: "xa_container app = xa_container app0" by (simp add: assms(2) configured_container)
  from axum_new_built [OF assms(1)] obtain g where d: "discover_from prog root = Some (Inr g)"
    and live: "live g (sv_container ?sv) (initialized_providers (sv_container ?sv))"
    and dist: "distinct (initialized_providers (xa_container app))" by (auto simp: c opened_def)
  obtain svcs where s: "into_router to_string prog root app = Some svcs"
    using registered_services(2) [OF d] by blast
  let ?serving = "Serving 1 False svcs"
  let ?sv2 = "event ?serving (log_listening ps addr (xa_openapi app) (event (Bound addr) ?sv))"
  have "\<exists>out sv'. axum_listen ps to_string prog root app addr args bound served ?sv = Some (out, sv') \<and>
      listens prog root (has_doctor_argument args) bound served (Prepared svcs) (Bound addr) ?serving ?sv out sv'"
  proof (cases "has_doctor_argument args")
    case True
    with listens_cases(1) [OF d live, of ?sv ?sv2 "Bound addr" ?serving svcs bound served] s
    show ?thesis by (simp add: axum_listen_def)
  next
    case False
    with listens_cases(2) [OF d live, of ?sv ?sv2 "Bound addr" ?serving _ served svcs]
      listens_cases(3) [OF d live, of ?sv ?sv2 "Bound addr" ?serving served svcs] s
    show ?thesis by (cases bound) (simp_all add: axum_listen_def)
  qed
  with dist show ?thesis by blast
qed

section \<open>The shop behind actix\<close>

definition demo_process :: process where
  "demo_process =
     \<lparr>ps_env = (\<lambda>_. NotPresent), ps_now = 0, ps_elapsed = 0, ps_cpus = 4, ps_upload = \<lparr>uc_temp_dir = ''/tmp''\<rparr>,
      ps_route_count = (\<lambda>_. 0), ps_routes_of = (\<lambda>_. \<lparr>cr_name = [], cr_base_path = [], cr_routes = []\<rparr>)\<rparr>"

theorem actix_listen_shuts_down_once_witness:
  "\<exists>c svcs out sv'.
    build_container shop_program App = Some (Inr c,
      [Build 10, Init 10, Build 11, Init 11, Build 12, Init 12, Bootstrap 10, Bootstrap 11, Bootstrap 12]) \<and>
    sv_events sv' = Prepared svcs # map Called (map Shutdown (rev (initialized_providers c))) \<and>
    app_shutdown shop_program App sv' = Some (Inr (), sv') \<and> out \<noteq> StillServing"
proof -
  let ?h = "[Build 10, Init 10, Build 11, Init 11, Build 12, Init 12, Bootstrap 10, Bootstrap 11, Bootstrap 12]"
  obtain c where b: "build_container shop_program App = Some (Inr c, ?h)" using shop_built by blast
  obtain app :: "unit actix_app" and log where
    n: "actix_new demo_process shop_program App (log_initial False) = Some (Inr app, ?h, log)" and c: "aa_container app = c"
    by (simp add: actix_new_def with_container_def b)
  from actix_listen_shuts_down_once [OF n, of app "[]", where args = "[''--doctor'']" and bound = "Inr ()"
      and served = None and addr = "''localhost:3000''" and to_string = id]
  obtain svcs out sv' access_log where
    l: "listens shop_program App (has_doctor_argument [''--doctor'']) (Inr ()) None (Prepared svcs)
          (Bound ''localhost:3000'') (Serving (aa_workers app) access_log svcs) (opened (aa_container app) ?h log) out sv'"
    by auto
  have "has_doctor_argument [''--doctor'']" by (simp add: has_doctor_argument_def)
  with l b show ?thesis
    by (auto simp: listens_def listen_events_def listen_outcome_ok_def opened_def shutdown_calls_def c)
qed

section \<open>Configuration\<close>

text \<open>There is at least one worker and room for one byte in a message, whatever is asked for.\<close>

definition settings_ok :: "'scheme actix_app \<Rightarrow> bool" where
  "settings_ok app \<longleftrightarrow> 1 \<le> aa_workers app \<and> 1 \<le> aa_websocket_max app"

lemma settings_ok_setting: "settings_ok app \<Longrightarrow> settings_ok (actix_setting s app)"
  by (cases s) (simp_all add: settings_ok_def)

lemma settings_positive:
  assumes "1 \<le> ps_cpus ps" and "actix_new ps prog root log = Some (Inr app, h, log')"
  shows "settings_ok (fold actix_setting settings app)"
proof -
  have "settings_ok app"
    using assms by (auto simp: settings_ok_def actix_new_def with_container_def DEFAULT_WEBSOCKET_MAX_MESSAGE_SIZE_def
        split: option.splits sum.splits prod.splits)
  then show ?thesis by (induction settings arbitrary: app) (simp_all add: settings_ok_setting)
qed

text \<open>Logging that was configured is used whatever the environment says.\<close>

lemma explicit_logging_wins: "unwrap_or (aa_logging (actix_setting (SetLogging l) app)) fallback = l"
  by (simp add: unwrap_or_def)

text \<open>The paths of the OpenAPI services. With a path of the user interface that ends in a slash the axum
  router is given the same path twice, which it refuses with a panic; with the same path for the document
  both adapters register it for both.\<close>

fun service_path :: "service \<Rightarrow> str option" where
  "service_path (Document p _) = Some p"
| "service_path (Ui p _) = Some p"
| "service_path (UiRedirect p _) = Some p"
| "service_path _ = None"

lemma openapi_service_paths:
  "map service_path (mount_openapi to_string cfg document) =
     [Some (oc_json_path cfg), Some (oc_ui_path cfg), Some (trim_end_slashes (oc_ui_path cfg) @ ''/'')]"
  "map service_path (actix_openapi_services to_string (Some \<lparr>os_config = cfg, os_document = document\<rparr>)) =
     [Some (oc_json_path cfg), Some (trim_end_slashes (oc_ui_path cfg) @ ''/''), Some (trim_end_slashes (oc_ui_path cfg))]"
  by (simp_all add: mount_openapi_def actix_openapi_services_def Let_def)

lemma slash_mounts_twice:
  "\<not> distinct (map service_path (mount_openapi to_string (configure sl t v [SetUiPath ''/docs/'']) document))"
  by (simp add: openapi_service_paths configure_def OpenApiConfig_new_def normalize_path_def trim_end_slashes_def)

text \<open>An axum server does not stop (\<open>axum::serve\<close> without a shutdown signal), and then no hook is called.\<close>

lemma axum_server_never_shuts_down:
  assumes "axum_listen ps to_string prog root app addr args (Inr ()) None sv = Some (out, sv')"
    and "\<not> has_doctor_argument args"
  shows "out = StillServing \<and> sv_calls sv' = sv_calls sv"
  using assms by (auto simp: axum_listen_def shutdown_after_serving_def Option.bind_eq_Some_conv)

end
