(* ===== verification/RouteMacro.thy ===== *)
theory RouteMacro
  imports Throttling "HOL-Library.Word"
begin

unbundle bit_operations_syntax

text \<open>
  The controller macro, \<open>crates/caelix-macros/src/controller.rs\<close>, up to the code it generates: the
  attributes of a controller, its methods and their arguments, and the routes they describe. Syntax is what
  \<open>syn\<close> has parsed: paths as lists of segments, the arguments of an attribute, expressions and types as
  far as the macro looks into them. An error is the message of the macro or one of \<open>syn\<close> itself. All
  features of the crate are taken to be enabled.
\<close>

section \<open>Syntax\<close>

datatype macro_error = Message str | SynError

type_synonym 'a parsed = "macro_error + 'a"

text \<open>Types: the segments of a path with their angle-bracketed arguments, of which only types matter.\<close>

datatype rust_type =
    PathType "(str \<times> generic list option) list"
  | RefType bool rust_type
  | TupleType "rust_type list"
  | OtherType str
and generic = GenericType rust_type | GenericOther

datatype expr =
    StrLit str
  | IntLit nat
  | BoolLit bool
  | PathExpr "str list"
  | TupleExpr "expr list"
  | OtherExpr str

text \<open>An argument with arguments of its own has them parsed as expressions, if they are such.\<close>

datatype meta =
    MetaPath "str list"
  | MetaNameValue "str list" expr
  | MetaList "str list" "expr list option"

text \<open>The meta of an attribute: a path alone, a list whose tokens are its arguments or do not parse, or a
  value.\<close>

datatype attr_meta = AttrPath | AttrList "meta list option" | AttrValue expr

record attribute =
  at_path :: "str list"
  at_meta :: attr_meta
  at_types :: "rust_type list option"
  at_literal :: "str option"
  at_expr :: "expr option"

text \<open>The last three fields are the arguments of the attribute parsed as a list of types, as a string
  literal and as an expression, for the attributes that take such.\<close>

definition is_ident :: "str list \<Rightarrow> str \<Rightarrow> bool" where
  "is_ident p name \<longleftrightarrow> p = [name]"

definition attr_named :: "attribute \<Rightarrow> str \<Rightarrow> bool" where
  "attr_named a name \<longleftrightarrow> at_path a \<noteq> [] \<and> last (at_path a) = name"

definition require_args :: "attribute \<Rightarrow> meta list parsed" where
  "require_args a = (case at_meta a of AttrList (Some args) \<Rightarrow> Inr args | _ \<Rightarrow> Inl SynError)"

section \<open>Identifiers\<close>

definition FNV_OFFSET_BASIS :: "64 word" where "FNV_OFFSET_BASIS = 0xcbf29ce484222325"
definition FNV_PRIME :: "64 word" where "FNV_PRIME = 0x100000001b3"

definition stable_identifier_hash :: "str \<Rightarrow> 64 word" where
  "stable_identifier_hash v =
     fold (\<lambda>byte hash. (hash XOR word_of_nat (of_char byte)) * FNV_PRIME) v FNV_OFFSET_BASIS"

section \<open>Throttling\<close>

datatype throttle_annotation = Policy nat nat | Skip

definition throttle_argument_error :: macro_error where
  "throttle_argument_error = Message ''throttle arguments must use `limit` and `window_seconds`''"

definition positive_integer_error :: macro_error where
  "positive_integer_error = Message ''throttle arguments must be positive integer literals''"

definition throttle_integer :: "expr \<Rightarrow> nat parsed" where
  "throttle_integer e =
     (case e of
        IntLit n \<Rightarrow>
          if n > u64_max then Inl SynError
          else if n = 0 then Inl (Message ''throttle arguments must be greater than zero'')
          else Inr n
      | _ \<Rightarrow> Inl positive_integer_error)"

fun throttle_arguments :: "meta list \<Rightarrow> nat option \<times> nat option \<Rightarrow> (nat option \<times> nat option) parsed" where
  "throttle_arguments [] found = Inr found"
| "throttle_arguments (MetaNameValue p e # args) (limit, window) =
     (if is_ident p ''limit'' then
        (if limit \<noteq> None then Inl (Message ''duplicate throttle argument'')
         else bind_result (throttle_integer e) (\<lambda>n. throttle_arguments args (Some n, window)))
      else if is_ident p ''window_seconds'' then
        (if window \<noteq> None then Inl (Message ''duplicate throttle argument'')
         else bind_result (throttle_integer e) (\<lambda>n. throttle_arguments args (limit, Some n)))
      else Inl throttle_argument_error)"
| "throttle_arguments (_ # args) found = Inl throttle_argument_error"

definition parse_throttle :: "attribute \<Rightarrow> throttle_annotation parsed" where
  "parse_throttle a =
     bind_result (require_args a) (\<lambda>args.
     bind_result (throttle_arguments args (None, None)) (\<lambda>found.
       (case found of
          (None, _) \<Rightarrow> Inl (Message ''missing throttle `limit`'')
        | (Some limit, None) \<Rightarrow> Inl (Message ''missing throttle `window_seconds`'')
        | (Some limit, Some window) \<Rightarrow> Inr (Policy limit window))))"

text \<open>On a controller the attribute becomes a documentation comment that the controller macro reads back;
  \<open>skip\<close> is whether the attribute is \<open>skip_throttle\<close>, \<open>args\<close> what it was given.\<close>

definition doc_attribute :: "str \<Rightarrow> attribute" where
  "doc_attribute s =
     \<lparr>at_path = [''doc''], at_meta = AttrValue (StrLit s), at_types = None, at_literal = None, at_expr = None\<rparr>"

fun throttle_marker :: "throttle_annotation \<Rightarrow> str" where
  "throttle_marker (Policy limit window) = ''__caelix_throttle:'' @ show_nat limit @ '':'' @ show_nat window"
| "throttle_marker Skip = ''__caelix_skip_throttle''"

definition expand_controller_throttle_marker ::
    "bool \<Rightarrow> meta list option \<Rightarrow> attribute list \<Rightarrow> attribute list parsed" where
  "expand_controller_throttle_marker skip args attrs =
     bind_result
       (if skip then
          (if args \<noteq> Some [] then Inl (Message ''skip_throttle does not accept arguments'') else Inr Skip)
        else parse_throttle \<lparr>at_path = [''throttle''], at_meta = AttrList args, at_types = None, at_literal = None, at_expr = None\<rparr>)
       (\<lambda>annotation. Inr (attrs @ [doc_attribute (throttle_marker annotation)]))"

text \<open>\<open>str::parse\<close> for \<open>u64\<close>: an optional plus sign and digits.\<close>

definition parse_u64 :: "str \<Rightarrow> nat option" where
  "parse_u64 s =
     (let digits = (case s of CHR ''+'' # rest \<Rightarrow> rest | _ \<Rightarrow> s)
      in if digits = [] \<or> \<not> list_all (\<lambda>c. 48 \<le> (of_char c :: nat) \<and> (of_char c :: nat) \<le> 57) digits
            \<or> digits_value digits > u64_max
         then None else Some (digits_value digits))"

definition throttle_doc_marker :: "attribute \<Rightarrow> throttle_annotation option" where
  "throttle_doc_marker a =
     (if \<not> is_ident (at_path a) ''doc'' then None
      else
        (case at_meta a of
           AttrValue (StrLit raw) \<Rightarrow>
             if raw = ''__caelix_skip_throttle'' then Some Skip
             else if \<not> prefix ''__caelix_throttle:'' raw then None
             else
               (case split_on (CHR '':'') (drop (length ''__caelix_throttle:'') raw) of
                  [l, w] \<Rightarrow>
                    (case (parse_u64 l, parse_u64 w) of
                       (Some limit, Some window) \<Rightarrow> Some (Policy limit window)
                     | _ \<Rightarrow> None)
                | _ \<Rightarrow> None)
         | _ \<Rightarrow> None))"

section \<open>Upload fields\<close>

record upload_options =
  up_name :: "str option"
  up_max_size :: "nat option"
  up_content_types :: "str list"
  up_trust_header :: bool
  up_validator :: "str option"

definition no_upload_options :: upload_options where
  "no_upload_options =
     \<lparr>up_name = None, up_max_size = None, up_content_types = [], up_trust_header = False, up_validator = None\<rparr>"

definition string_lit :: "expr \<Rightarrow> str parsed" where
  "string_lit e = (case e of StrLit s \<Rightarrow> Inr s | _ \<Rightarrow> Inl (Message ''expected a string literal''))"

definition size_units :: "(str \<times> nat) list" where
  "size_units =
     [(''KiB'', 1024), (''MiB'', 1024 * 1024), (''GiB'', 1024 * 1024 * 1024), (''KB'', 1000), (''MB'', 1000 * 1000),
      (''GB'', 1000 * 1000 * 1000), (''B'', 1)]"

definition strip_suffix :: "str \<Rightarrow> str \<Rightarrow> str option" where
  "strip_suffix suff s = (if suffix suff s then Some (take (length s - length suff) s) else None)"

fun first_unit :: "(str \<times> nat) list \<Rightarrow> str \<Rightarrow> (str \<times> nat) option" where
  "first_unit [] raw = None"
| "first_unit ((suff, multiplier) # units) raw =
     (case strip_suffix suff raw of Some digits \<Rightarrow> Some (digits, multiplier) | None \<Rightarrow> first_unit units raw)"

definition is_digit :: "char \<Rightarrow> bool" where
  "is_digit c \<longleftrightarrow> 48 \<le> (of_char c :: nat) \<and> (of_char c :: nat) \<le> 57"

definition upload_size_error :: macro_error where
  "upload_size_error =
     Message ''max_size must be a whole-number value ending in B, KB, MB, GB, KiB, MiB, or GiB''"

definition parse_upload_size :: "str \<Rightarrow> nat parsed" where
  "parse_upload_size raw =
     (case first_unit size_units raw of
        None \<Rightarrow> Inl upload_size_error
      | Some (digits, multiplier) \<Rightarrow>
          if digits = [] \<or> \<not> list_all is_digit digits then Inl upload_size_error
          else
            (case Option.bind (parse_u64 digits)
                    (\<lambda>n. if n * multiplier \<le> u64_max then Some (n * multiplier) else None) of
               None \<Rightarrow> Inl (Message ''max_size exceeds the maximum supported byte limit'')
             | Some n \<Rightarrow> Inr n))"

fun add_content_types :: "str list \<Rightarrow> str list \<Rightarrow> str list parsed" where
  "add_content_types [] found = Inr found"
| "add_content_types (t # ts) found =
     (let normalized = to_ascii_lowercase (trim t)
      in if normalized = [] then Inl (Message ''content_type must not contain empty MIME type entries'')
         else add_content_types ts (if normalized \<in> set found then found else found @ [normalized]))"

definition parse_content_types :: "str \<Rightarrow> str list parsed" where
  "parse_content_types v = add_content_types (split_on (CHR '','') v) []"

definition upload_argument_error :: macro_error where
  "upload_argument_error = Message (''file extractor arguments must use `name`, `max_size`, `content_type`, '' @
     ''`trust_content_type_header`, or `validate`'')"

definition upload_argument :: "meta \<Rightarrow> upload_options \<Rightarrow> upload_options parsed" where
  "upload_argument m opts =
     (case m of
        MetaNameValue p e \<Rightarrow>
          if is_ident p ''name'' then
            (if up_name opts \<noteq> None then Inl (Message ''duplicate file extractor `name`'')
             else bind_result (string_lit e) (\<lambda>s. Inr (opts\<lparr>up_name := Some s\<rparr>)))
          else if is_ident p ''max_size'' then
            (if up_max_size opts \<noteq> None then Inl (Message ''duplicate file extractor `max_size`'')
             else bind_result (bind_result (string_lit e) parse_upload_size) (\<lambda>n. Inr (opts\<lparr>up_max_size := Some n\<rparr>)))
          else if is_ident p ''content_type'' then
            (if up_content_types opts \<noteq> [] then Inl (Message ''duplicate file extractor `content_type`'')
             else bind_result (bind_result (string_lit e) parse_content_types) (\<lambda>ts. Inr (opts\<lparr>up_content_types := ts\<rparr>)))
          else if is_ident p ''trust_content_type_header'' then
            (if up_trust_header opts then Inl (Message ''duplicate file extractor `trust_content_type_header`'')
             else if e = BoolLit True then Inr (opts\<lparr>up_trust_header := True\<rparr>)
             else Inl (Message ''trust_content_type_header must be `true`''))
          else if is_ident p ''validate'' then
            (if up_validator opts \<noteq> None then Inl (Message ''duplicate file extractor `validate`'')
             else
               (case e of
                  PathExpr [v] \<Rightarrow> Inr (opts\<lparr>up_validator := Some v\<rparr>)
                | _ \<Rightarrow> Inl (Message ''file extractor `validate` must name a controller method'')))
          else Inl upload_argument_error
      | _ \<Rightarrow> Inl upload_argument_error)"

definition parse_upload_field_options :: "attribute \<Rightarrow> upload_options parsed" where
  "parse_upload_field_options a =
     (if at_meta a = AttrPath then Inr no_upload_options
      else
        bind_result (require_args a) (\<lambda>args.
        bind_result (try_fold upload_argument args no_upload_options) (\<lambda>opts.
          if up_trust_header opts \<and> up_content_types opts = []
          then Inl (Message (''trust_content_type_header requires `content_type = '' @ [CHR 0x22] @ ''...'' @ [CHR 0x22] @ ''`''))
          else Inr opts)))"

section \<open>Types the macro looks for\<close>

definition is_named_type :: "rust_type \<Rightarrow> str \<Rightarrow> bool" where
  "is_named_type ty name = (case ty of PathType segs \<Rightarrow> segs \<noteq> [] \<and> fst (last segs) = name | _ \<Rightarrow> False)"

fun generic_named :: "str \<Rightarrow> generic \<Rightarrow> bool" where
  "generic_named name (GenericType inner) = is_named_type inner name"
| "generic_named name GenericOther = False"

text \<open>The last segment is \<open>outer\<close> with an argument that is the named type.\<close>

definition is_generic_of :: "str \<Rightarrow> rust_type \<Rightarrow> str \<Rightarrow> bool" where
  "is_generic_of outer ty name =
     (case ty of
        PathType segs \<Rightarrow>
          segs \<noteq> [] \<and> fst (last segs) = outer \<and>
          (case snd (last segs) of None \<Rightarrow> False | Some args \<Rightarrow> list_ex (generic_named name) args)
      | _ \<Rightarrow> False)"

definition is_option_of :: "rust_type \<Rightarrow> str \<Rightarrow> bool" where
  "is_option_of ty name = is_generic_of ''Option'' ty name"

definition is_option_uploaded_file :: "rust_type \<Rightarrow> bool" where
  "is_option_uploaded_file ty = is_generic_of ''Option'' ty ''UploadedFile''"

definition is_vec_uploaded_file :: "rust_type \<Rightarrow> bool" where
  "is_vec_uploaded_file ty = is_generic_of ''Vec'' ty ''UploadedFile''"

section \<open>Methods\<close>

datatype receiver = ByReference | ByMutableReference | ByValue

record typed_argument =
  ta_ident :: "str option"
  ta_type :: rust_type
  ta_attrs :: "attribute list"

datatype fn_arg = Receiver receiver | Typed typed_argument

record impl_method =
  im_name :: str
  im_async :: bool
  im_inputs :: "fn_arg list"
  im_output :: "rust_type option"
  im_attrs :: "attribute list"

record controller_block =
  cb_type :: str
  cb_attrs :: "attribute list"
  cb_methods :: "impl_method list"

definition is_upload_validator_signature :: "impl_method \<Rightarrow> bool" where
  "is_upload_validator_signature m =
     (case im_inputs m of
        [Receiver ByReference, Typed file] \<Rightarrow>
          im_async m \<and>
          (case ta_type file of RefType is_mut elem \<Rightarrow> \<not> is_mut \<and> is_named_type elem ''UploadedFile'' | _ \<Rightarrow> False) \<and>
          (case im_output m of
             Some (PathType segs) \<Rightarrow>
               segs \<noteq> [] \<and> fst (last segs) = ''Result'' \<and> snd (last segs) = Some [GenericType (TupleType [])]
           | _ \<Rightarrow> False)
      | _ \<Rightarrow> False)"

definition upload_validator_error :: "str \<Rightarrow> macro_error" where
  "upload_validator_error v =
     Message (''upload validator `'' @ v @ ''` must be declared as `async fn '' @ v @
       ''(&self, file: &UploadedFile) -> Result<()>`'')"

definition validate_upload_validator :: "controller_block \<Rightarrow> str \<Rightarrow> unit parsed" where
  "validate_upload_validator block v =
     (case List.find (\<lambda>m. im_name m = v) (cb_methods block) of
        None \<Rightarrow> Inl (Message (''upload validator `'' @ v @ ''` was not found on this controller''))
      | Some m \<Rightarrow> if \<not> is_upload_validator_signature m then Inl (upload_validator_error v) else Inr ())"

section \<open>Settings of a controller\<close>

record controller_settings =
  cs_guards :: "rust_type list"
  cs_interceptors :: "rust_type list"
  cs_throttle :: "throttle_annotation option"
  cs_errors :: "macro_error list"

definition parse_type_list :: "attribute \<Rightarrow> rust_type list parsed" where
  "parse_type_list a = (case at_types a of None \<Rightarrow> Inl SynError | Some types \<Rightarrow> Inr types)"

definition note_error :: "macro_error \<Rightarrow> controller_settings \<Rightarrow> controller_settings" where
  "note_error e cs = cs\<lparr>cs_errors := cs_errors cs @ [e]\<rparr>"

definition add_guards :: "attribute \<Rightarrow> controller_settings \<Rightarrow> controller_settings" where
  "add_guards a cs =
     (case parse_type_list a of
        Inr types \<Rightarrow> cs\<lparr>cs_guards := cs_guards cs @ types\<rparr> | Inl e \<Rightarrow> note_error e cs)"

definition add_interceptors :: "attribute \<Rightarrow> controller_settings \<Rightarrow> controller_settings" where
  "add_interceptors a cs =
     (case parse_type_list a of
        Inr types \<Rightarrow> cs\<lparr>cs_interceptors := cs_interceptors cs @ types\<rparr> | Inl e \<Rightarrow> note_error e cs)"

text \<open>\<open>level\<close> is the word for the controller or the method in the message about two settings.\<close>

definition add_throttle :: "str \<Rightarrow> throttle_annotation parsed \<Rightarrow> controller_settings \<Rightarrow> controller_settings" where
  "add_throttle level annotation cs =
     (if cs_throttle cs \<noteq> None then note_error (Message (''conflicting '' @ level @ '' throttle settings'')) cs
      else
        (case annotation of Inr t \<Rightarrow> cs\<lparr>cs_throttle := Some t\<rparr> | Inl e \<Rightarrow> note_error e cs))"

definition add_skip :: "str \<Rightarrow> attribute \<Rightarrow> controller_settings \<Rightarrow> controller_settings" where
  "add_skip level a cs =
     add_throttle level (Inr Skip)
       (if at_meta a \<noteq> AttrPath then note_error (Message ''skip_throttle does not accept arguments'') cs else cs)"

definition controller_attribute :: "attribute \<Rightarrow> controller_settings \<Rightarrow> controller_settings" where
  "controller_attribute a cs =
     (case throttle_doc_marker a of
        Some annotation \<Rightarrow> add_throttle ''controller'' (Inr annotation) cs
      | None \<Rightarrow>
          if is_ident (at_path a) ''use_guard'' then add_guards a cs
          else if is_ident (at_path a) ''use_interceptor'' then add_interceptors a cs
          else if attr_named a ''throttle'' then add_throttle ''controller'' (parse_throttle a) cs
          else if attr_named a ''skip_throttle'' then add_skip ''controller'' a cs
          else cs)"

definition no_settings :: controller_settings where
  "no_settings = \<lparr>cs_guards = [], cs_interceptors = [], cs_throttle = None, cs_errors = []\<rparr>"

definition controller_settings_of :: "controller_block \<Rightarrow> controller_settings" where
  "controller_settings_of block = fold controller_attribute (cb_attrs block) no_settings"

section \<open>Documentation attributes\<close>

record header_spec =
  hs_name :: str
  hs_schema :: rust_type
  hs_required :: bool
  hs_description :: "str option"

record response_header_spec =
  rh_name :: str
  rh_schema :: rust_type
  rh_description :: "str option"

record response_spec =
  rs_status :: "str option"
  rs_body :: "rust_type option"
  rs_content_type :: "str option"
  rs_headers :: "response_header_spec list"

text \<open>\<open>type_value\<close> reads an expression as a type.\<close>

record header_draft =
  hd_name :: "str option"
  hd_schema :: "rust_type option"
  hd_required :: bool
  hd_description :: "str option"

definition header_argument :: "(expr \<Rightarrow> rust_type parsed) \<Rightarrow> meta \<Rightarrow> header_draft \<Rightarrow> header_draft parsed" where
  "header_argument type_value m d =
     (case m of
        MetaPath p \<Rightarrow>
          if is_ident p ''required'' then Inr (d\<lparr>hd_required := True\<rparr>)
          else Inl (Message ''unsupported request_header argument'')
      | MetaNameValue p e \<Rightarrow>
          if is_ident p ''name'' then bind_result (string_lit e) (\<lambda>s. Inr (d\<lparr>hd_name := Some s\<rparr>))
          else if is_ident p ''schema'' then bind_result (type_value e) (\<lambda>t. Inr (d\<lparr>hd_schema := Some t\<rparr>))
          else if is_ident p ''description'' then bind_result (string_lit e) (\<lambda>s. Inr (d\<lparr>hd_description := Some s\<rparr>))
          else Inl (Message ''unsupported request_header argument'')
      | MetaList p es \<Rightarrow> Inl (Message ''unsupported request_header argument''))"

definition parse_request_header :: "(expr \<Rightarrow> rust_type parsed) \<Rightarrow> attribute \<Rightarrow> header_spec parsed" where
  "parse_request_header type_value a =
     bind_result (require_args a) (\<lambda>args.
     bind_result (try_fold (header_argument type_value) args
         \<lparr>hd_name = None, hd_schema = None, hd_required = False, hd_description = None\<rparr>) (\<lambda>d.
       (case hd_name d of
          None \<Rightarrow> Inl (Message ''request_header requires `name`'')
        | Some name \<Rightarrow>
            (case hd_schema d of
               None \<Rightarrow> Inl (Message ''request_header requires `schema`'')
             | Some schema \<Rightarrow>
                 Inr \<lparr>hs_name = name, hs_schema = schema, hs_required = hd_required d,
                      hs_description = hd_description d\<rparr>))))"

definition response_header :: "(expr \<Rightarrow> rust_type parsed) \<Rightarrow> expr \<Rightarrow> response_header_spec parsed" where
  "response_header type_value e =
     (case e of
        TupleExpr [] \<Rightarrow> Inl (Message ''response header requires a name'')
      | TupleExpr [name] \<Rightarrow> Inl (Message ''response header requires a schema'')
      | TupleExpr (name # schema # rest) \<Rightarrow>
          bind_result (case rest of [] \<Rightarrow> Inr None | d # _ \<Rightarrow> bind_result (string_lit d) (\<lambda>s. Inr (Some s))) (\<lambda>description.
            if length rest > 1 then Inl (Message ''response header accepts at most three values'')
            else
              bind_result (string_lit name) (\<lambda>n.
              bind_result (type_value schema) (\<lambda>t.
                Inr \<lparr>rh_name = n, rh_schema = t, rh_description = description\<rparr>)))
      | _ \<Rightarrow> Inl (Message ''response headers must be tuples''))"

definition parse_response_headers ::
    "(expr \<Rightarrow> rust_type parsed) \<Rightarrow> expr list option \<Rightarrow> response_header_spec list parsed" where
  "parse_response_headers type_value es =
     (case es of None \<Rightarrow> Inl SynError | Some values \<Rightarrow> try_map (response_header type_value) values)"

definition response_argument :: "(expr \<Rightarrow> rust_type parsed) \<Rightarrow> meta \<Rightarrow> response_spec \<Rightarrow> response_spec parsed" where
  "response_argument type_value m spec =
     (case m of
        MetaPath p \<Rightarrow> Inr (spec\<lparr>rs_body := Some (PathType (map (\<lambda>s. (s, None)) p))\<rparr>)
      | MetaNameValue p e \<Rightarrow>
          if is_ident p ''status'' then
            (case e of
               IntLit n \<Rightarrow> Inr (spec\<lparr>rs_status := Some (show_nat n)\<rparr>)
             | _ \<Rightarrow> Inl (Message ''response status must be an integer''))
          else if is_ident p ''body'' then bind_result (type_value e) (\<lambda>t. Inr (spec\<lparr>rs_body := Some t\<rparr>))
          else if is_ident p ''content_type'' then
            bind_result (string_lit e) (\<lambda>s. Inr (spec\<lparr>rs_content_type := Some s\<rparr>))
          else Inl (Message ''unsupported response argument'')
      | MetaList p es \<Rightarrow>
          if is_ident p ''headers'' then
            bind_result (parse_response_headers type_value es) (\<lambda>hs. Inr (spec\<lparr>rs_headers := hs\<rparr>))
          else Inl (Message ''unsupported response argument''))"

definition parse_response :: "(expr \<Rightarrow> rust_type parsed) \<Rightarrow> attribute \<Rightarrow> response_spec parsed" where
  "parse_response type_value a =
     bind_result (require_args a) (\<lambda>args.
       try_fold (response_argument type_value) args
         \<lparr>rs_status = None, rs_body = None, rs_content_type = None, rs_headers = []\<rparr>)"

definition method_summary :: "attribute list \<Rightarrow> str option" where
  "method_summary attrs =
     (case List.find (\<lambda>a. is_ident (at_path a) ''doc'' \<and>
                (case at_meta a of AttrValue (StrLit s) \<Rightarrow> trim s \<noteq> [] | _ \<Rightarrow> False)) attrs of
        Some a \<Rightarrow> (case at_meta a of AttrValue (StrLit s) \<Rightarrow> Some (trim s) | _ \<Rightarrow> None)
      | None \<Rightarrow> None)"

text \<open>The type a result carries, inside \<open>Response\<close> if it is one.\<close>

fun first_type :: "generic list \<Rightarrow> rust_type option" where
  "first_type [] = None"
| "first_type (GenericType t # gs) = Some t"
| "first_type (GenericOther # gs) = first_type gs"

definition inferred_response_type :: "rust_type option \<Rightarrow> rust_type option" where
  "inferred_response_type output =
     (case output of
        Some (PathType segs) \<Rightarrow>
          if segs = [] \<or> fst (last segs) \<noteq> ''Result'' then None
          else
            (case Option.bind (snd (last segs)) first_type of
               None \<Rightarrow> None
             | Some inner \<Rightarrow>
                 (case inner of
                    PathType inner_segs \<Rightarrow>
                      if inner_segs = [] then None
                      else if fst (last inner_segs) \<noteq> ''Response'' then Some inner
                      else
                        (case snd (last inner_segs) of
                           None \<Rightarrow> Some inner
                         | Some args \<Rightarrow> first_type args)
                  | _ \<Rightarrow> Some inner))
      | _ \<Rightarrow> None)"

section \<open>Settings of a method\<close>

record method_settings =
  mt_settings :: controller_settings
  mt_route :: "(str \<times> str) option"
  mt_upload_limit :: "expr option"
  mt_headers :: "header_spec list"
  mt_response :: "response_spec option"
  mt_errors :: "rust_type list"
  mt_security :: "expr list"

definition on_settings :: "(controller_settings \<Rightarrow> controller_settings) \<Rightarrow> method_settings \<Rightarrow> method_settings" where
  "on_settings f mt = mt\<lparr>mt_settings := f (mt_settings mt)\<rparr>"

definition upload_limit_attribute :: "attribute \<Rightarrow> method_settings \<Rightarrow> method_settings" where
  "upload_limit_attribute a mt =
     (case require_args a of
        Inr [MetaNameValue p e] \<Rightarrow>
          if is_ident p ''limit'' then mt\<lparr>mt_upload_limit := Some e\<rparr>
          else on_settings (note_error (Message ''upload requires `limit = ...`'')) mt
      | _ \<Rightarrow> on_settings (note_error (Message ''upload requires `limit = ...`'')) mt)"

definition route_verbs :: "str list" where
  "route_verbs = [''get'', ''post'', ''patch'', ''put'', ''delete'']"

definition or_note :: "'a parsed \<Rightarrow> ('a \<Rightarrow> method_settings \<Rightarrow> method_settings) \<Rightarrow> method_settings \<Rightarrow> method_settings" where
  "or_note r f mt = (case r of Inr x \<Rightarrow> f x mt | Inl e \<Rightarrow> on_settings (note_error e) mt)"

definition expected :: "'a option \<Rightarrow> 'a parsed" where
  "expected x = (case x of None \<Rightarrow> Inl SynError | Some v \<Rightarrow> Inr v)"

definition method_attribute :: "(expr \<Rightarrow> rust_type parsed) \<Rightarrow> attribute \<Rightarrow> method_settings \<Rightarrow> method_settings" where
  "method_attribute type_value a mt =
     (case List.find (is_ident (at_path a)) route_verbs of
        Some verb \<Rightarrow> or_note (expected (at_literal a)) (\<lambda>path mt. mt\<lparr>mt_route := Some (verb, path)\<rparr>) mt
      | None \<Rightarrow>
          if is_ident (at_path a) ''use_guard'' then on_settings (add_guards a) mt
          else if is_ident (at_path a) ''use_interceptor'' then on_settings (add_interceptors a) mt
          else if is_ident (at_path a) ''upload'' then upload_limit_attribute a mt
          else if attr_named a ''throttle'' then on_settings (add_throttle ''method'' (parse_throttle a)) mt
          else if attr_named a ''skip_throttle'' then on_settings (add_skip ''method'' a) mt
          else if is_ident (at_path a) ''request_header'' then
            or_note (parse_request_header type_value a) (\<lambda>h mt. mt\<lparr>mt_headers := mt_headers mt @ [h]\<rparr>) mt
          else if is_ident (at_path a) ''response'' then
            or_note (parse_response type_value a) (\<lambda>r mt. mt\<lparr>mt_response := Some r\<rparr>) mt
          else if is_ident (at_path a) ''errors'' then
            or_note (parse_type_list a) (\<lambda>types mt. mt\<lparr>mt_errors := mt_errors mt @ types\<rparr>) mt
          else if is_ident (at_path a) ''security'' then
            or_note (expected (at_expr a)) (\<lambda>e mt. mt\<lparr>mt_security := mt_security mt @ [e]\<rparr>) mt
          else mt)"

definition method_settings_of :: "(expr \<Rightarrow> rust_type parsed) \<Rightarrow> impl_method \<Rightarrow> method_settings" where
  "method_settings_of type_value m =
     fold (method_attribute type_value) (im_attrs m)
       \<lparr>mt_settings = no_settings, mt_route = None, mt_upload_limit = None, mt_headers = [], mt_response = None,
        mt_errors = [], mt_security = []\<rparr>"

section \<open>Arguments\<close>

datatype extractor = Param | Body | Query | User | Cookie str | Multipart | File | Files

record upload_field_spec =
  us_name :: str
  us_max_size :: "nat option"
  us_content_types :: "str list"
  us_trust_header :: bool
  us_validator :: "str option"

record extractor_arg =
  ea_extractor :: extractor
  ea_name :: str
  ea_type :: rust_type
  ea_validate :: bool
  ea_upload :: "upload_field_spec option"

record arg_draft =
  ad_found :: "extractor option"
  ad_validate :: bool
  ad_upload :: "upload_options option"
  ad_errors :: "macro_error list"

definition draft_error :: "macro_error \<Rightarrow> arg_draft \<Rightarrow> arg_draft" where
  "draft_error e d = d\<lparr>ad_errors := ad_errors d @ [e]\<rparr>"

definition cookie_attribute :: "attribute \<Rightarrow> arg_draft \<Rightarrow> arg_draft" where
  "cookie_attribute a d =
     (case at_literal a of
        Some name \<Rightarrow>
          if name \<noteq> [] then d\<lparr>ad_found := Some (Cookie name)\<rparr>
          else draft_error (Message ''cookie name must not be empty'') d
      | None \<Rightarrow>
          draft_error (Message (''#[cookie] requires a non-empty string literal, for example #[cookie('' @
            [CHR 0x22] @ ''session'' @ [CHR 0x22] @ '')]'')) d)"

definition upload_attribute :: "extractor \<Rightarrow> attribute \<Rightarrow> arg_draft \<Rightarrow> arg_draft" where
  "upload_attribute x a d =
     (let d' = d\<lparr>ad_found := Some x\<rparr>
      in (case parse_upload_field_options a of
            Inr options \<Rightarrow> d'\<lparr>ad_upload := Some options\<rparr> | Inl e \<Rightarrow> draft_error e d'))"

definition argument_attribute :: "attribute \<Rightarrow> arg_draft \<Rightarrow> arg_draft" where
  "argument_attribute a d =
     (if is_ident (at_path a) ''param'' then d\<lparr>ad_found := Some Param\<rparr>
      else if is_ident (at_path a) ''body'' then d\<lparr>ad_found := Some Body\<rparr>
      else if is_ident (at_path a) ''query'' then d\<lparr>ad_found := Some Query\<rparr>
      else if is_ident (at_path a) ''user'' then d\<lparr>ad_found := Some User\<rparr>
      else if is_ident (at_path a) ''cookie'' then cookie_attribute a d
      else if is_ident (at_path a) ''multipart'' then d\<lparr>ad_found := Some Multipart\<rparr>
      else if is_ident (at_path a) ''file'' then upload_attribute File a d
      else if is_ident (at_path a) ''files'' then upload_attribute Files a d
      else if is_ident (at_path a) ''validate'' then d\<lparr>ad_validate := True\<rparr>
      else d)"

definition is_cookie :: "extractor \<Rightarrow> bool" where
  "is_cookie x = (case x of Cookie _ \<Rightarrow> True | _ \<Rightarrow> False)"

definition type_errors :: "extractor \<Rightarrow> rust_type \<Rightarrow> macro_error list" where
  "type_errors x ty =
     (if is_cookie x \<and> \<not> (is_named_type ty ''String'' \<or> is_option_of ty ''String'')
      then [Message ''#[cookie] requires String or Option<String>''] else []) @
     (if x = File \<and> \<not> (is_named_type ty ''UploadedFile'' \<or> is_option_uploaded_file ty)
      then [Message ''#[file] requires UploadedFile or Option<UploadedFile>''] else []) @
     (if x = Files \<and> \<not> is_vec_uploaded_file ty
      then [Message ''#[files] requires Vec<UploadedFile>''] else [])"

definition upload_field_of :: "str set \<Rightarrow> str \<Rightarrow> upload_options option \<Rightarrow> upload_field_spec" where
  "upload_field_of invalid name options =
     (let opts = (case options of None \<Rightarrow> no_upload_options | Some x \<Rightarrow> x)
      in \<lparr>us_name = (case up_name opts of None \<Rightarrow> name | Some n \<Rightarrow> n), us_max_size = up_max_size opts,
          us_content_types = up_content_types opts, us_trust_header = up_trust_header opts,
          us_validator = (case up_validator opts of None \<Rightarrow> None | Some v \<Rightarrow> if v \<in> invalid then None else Some v)\<rparr>)"

text \<open>The extractor of an argument, if it has one, and the errors found.\<close>

definition extractor_of :: "str set \<Rightarrow> typed_argument \<Rightarrow> extractor_arg option \<times> macro_error list" where
  "extractor_of invalid ta =
     (let d = fold argument_attribute (ta_attrs ta)
                \<lparr>ad_found = None, ad_validate = False, ad_upload = None, ad_errors = []\<rparr>
      in (case ad_found d of
            None \<Rightarrow> (None, ad_errors d)
          | Some x \<Rightarrow>
              (case ta_ident ta of
                 None \<Rightarrow>
                   (None, ad_errors d @ [Message ''expected a simple identifier for extractor argument''])
               | Some name \<Rightarrow>
                   (Some \<lparr>ea_extractor = x, ea_name = name, ea_type = ta_type ta, ea_validate = ad_validate d,
                          ea_upload = (if x = File \<or> x = Files
                                       then Some (upload_field_of invalid name (ad_upload d)) else None)\<rparr>,
                    ad_errors d @ type_errors x (ta_type ta)))))"

fun typed_arguments :: "fn_arg list \<Rightarrow> typed_argument list" where
  "typed_arguments [] = []"
| "typed_arguments (Receiver r # inputs) = typed_arguments inputs"
| "typed_arguments (Typed ta # inputs) = ta # typed_arguments inputs"

definition extractors_of :: "str set \<Rightarrow> impl_method \<Rightarrow> extractor_arg list \<times> macro_error list" where
  "extractors_of invalid m =
     (let found = map (extractor_of invalid) (typed_arguments (im_inputs m))
      in (List.map_filter fst found, concat (map snd found)))"

text \<open>The validators that are missing or have another signature, and an error for each use of one.\<close>

definition named_validator :: "attribute \<Rightarrow> str option" where
  "named_validator a =
     (if is_ident (at_path a) ''file'' \<or> is_ident (at_path a) ''files'' then
        (case parse_upload_field_options a of Inr options \<Rightarrow> up_validator options | Inl e \<Rightarrow> None)
      else None)"

definition invalid_validators :: "controller_block \<Rightarrow> (str \<times> macro_error) list" where
  "invalid_validators block =
     List.map_filter
       (\<lambda>a. Option.bind (named_validator a) (\<lambda>v.
             (case validate_upload_validator block v of Inl e \<Rightarrow> Some (v, e) | Inr _ \<Rightarrow> None)))
       (concat (map (\<lambda>m. concat (map ta_attrs (typed_arguments (im_inputs m)))) (cb_methods block)))"

section \<open>Routes\<close>

record route =
  ro_verb :: str
  ro_full_path :: str
  ro_display_path :: str
  ro_handler :: str
  ro_guards :: "rust_type list"
  ro_interceptors :: "rust_type list"
  ro_throttle :: "throttle_annotation option"
  ro_args :: "extractor_arg list"
  ro_upload_limit :: "expr option"
  ro_state_hash :: "64 word"
  ro_method :: method_settings
  ro_output :: "rust_type option"
  ro_summary :: "str option"

definition is_payload :: "extractor \<Rightarrow> bool" where
  "is_payload x \<longleftrightarrow> x = Body \<or> x = Multipart \<or> x = File \<or> x = Files"

definition has_payload :: "extractor_arg list \<Rightarrow> bool" where
  "has_payload args = list_ex (\<lambda>a. is_payload (ea_extractor a)) args"

definition payload_errors :: "extractor_arg list \<Rightarrow> macro_error list" where
  "payload_errors args =
     (if list_ex (\<lambda>a. ea_extractor a = Multipart) args \<and>
         list_ex (\<lambda>a. ea_extractor a = Body \<or> ea_extractor a = File \<or> ea_extractor a = Files) args
      then [Message ''#[multipart] cannot be combined with #[body], #[file], or #[files]''] else []) @
     (if length (filter (\<lambda>a. ea_extractor a = Body) args) > 1
      then [Message ''a route may have only one #[body] argument''] else [])"

definition display_path :: "str \<Rightarrow> str" where
  "display_path p = filter (\<lambda>c. c \<noteq> CHR ''}'') (map (\<lambda>c. if c = CHR ''{'' then CHR '':'' else c) p)"

definition route_identity :: "str \<Rightarrow> str \<Rightarrow> str \<Rightarrow> str \<Rightarrow> str" where
  "route_identity ty method_name verb full_path =
     ty @ ''::'' @ method_name @ ''::'' @ verb @ ''::'' @ full_path"

text \<open>What the expansion of a controller collects.\<close>

record expansion =
  ex_routes :: "route list"
  ex_policies :: "(nat \<times> nat) list"
  ex_dependencies :: "rust_type list"
  ex_macro_errors :: "macro_error list"

definition throttle_dependency :: rust_type where
  "throttle_dependency = PathType [(''caelix'', None), (''Throttle'', None)]"

definition expand_method ::
    "(expr \<Rightarrow> rust_type parsed) \<Rightarrow> str \<Rightarrow> controller_block \<Rightarrow> controller_settings \<Rightarrow> str set \<Rightarrow> impl_method \<Rightarrow>
     expansion \<Rightarrow> expansion" where
  "expand_method type_value base_path block cs invalid m ex =
     (let mt = method_settings_of type_value m;
          (args, arg_errors) = extractors_of invalid m;
          ex1 = ex\<lparr>ex_macro_errors := ex_macro_errors ex @ cs_errors (mt_settings mt) @ arg_errors\<rparr>
      in (case mt_route mt of
            None \<Rightarrow> ex1
          | Some (verb, path) \<Rightarrow>
              (let effective = (case cs_throttle (mt_settings mt) of Some t \<Rightarrow> Some t | None \<Rightarrow> cs_throttle cs);
                   policies = (case effective of Some (Policy limit window) \<Rightarrow> [(limit, window)] | _ \<Rightarrow> []);
                   full_path = base_path @ path;
                   guards = cs_guards cs @ cs_guards (mt_settings mt);
                   interceptors = cs_interceptors cs @ cs_interceptors (mt_settings mt)
               in ex1\<lparr>ex_routes := ex_routes ex1 @
                       [\<lparr>ro_verb = verb, ro_full_path = full_path, ro_display_path = display_path full_path,
                         ro_handler = im_name m, ro_guards = guards, ro_interceptors = interceptors,
                         ro_throttle = effective, ro_args = args, ro_upload_limit = mt_upload_limit mt,
                         ro_state_hash = stable_identifier_hash (route_identity (cb_type block) (im_name m) verb full_path),
                         ro_method = mt, ro_output = im_output m, ro_summary = method_summary (im_attrs m)\<rparr>],
                      ex_policies := ex_policies ex1 @ policies,
                      ex_dependencies := ex_dependencies ex1 @
                        (if policies \<noteq> [] then [throttle_dependency] else []) @ guards @ interceptors,
                      ex_macro_errors := ex_macro_errors ex1 @ payload_errors args\<rparr>)))"

definition expand :: "(expr \<Rightarrow> rust_type parsed) \<Rightarrow> str \<Rightarrow> controller_block \<Rightarrow> expansion" where
  "expand type_value base_path block =
     (let cs = controller_settings_of block;
          invalid = invalid_validators block
      in fold (expand_method type_value base_path block cs (fst ` set invalid)) (cb_methods block)
           \<lparr>ex_routes = [], ex_policies = [], ex_dependencies = [],
            ex_macro_errors = cs_errors cs @ map snd invalid\<rparr>)"

text \<open>\<open>validate_routes\<close> of the controller, called when the module graph is discovered.\<close>

definition validate_routes :: "nat \<Rightarrow> nat \<Rightarrow> expansion \<Rightarrow> unit result" where
  "validate_routes clock_max now ex =
     (case try_map (\<lambda>(limit, window). validate_policy clock_max now (ThrottlePolicy_new limit window)) (ex_policies ex) of
        Inl e \<Rightarrow> Inl e | Inr _ \<Rightarrow> Inr ())"

section \<open>What a route needs is declared\<close>

text \<open>The guards and interceptors of a route are dependencies of the controller, an explicit limit makes the
  throttle service one and is among the policies to be validated, and a route that is accepted has consistent
  payload arguments.\<close>

definition route_declared :: "expansion \<Rightarrow> route \<Rightarrow> bool" where
  "route_declared ex r \<longleftrightarrow>
     set (ro_guards r) \<union> set (ro_interceptors r) \<subseteq> set (ex_dependencies ex) \<and>
     (case ro_throttle r of
        Some (Policy limit window) \<Rightarrow>
          throttle_dependency \<in> set (ex_dependencies ex) \<and> (limit, window) \<in> set (ex_policies ex)
      | _ \<Rightarrow> True) \<and>
     (ex_macro_errors ex = [] \<longrightarrow> payload_errors (ro_args r) = [])"

definition expansion_grows :: "expansion \<Rightarrow> expansion \<Rightarrow> bool" where
  "expansion_grows ex ex' \<longleftrightarrow>
     set (ex_dependencies ex) \<subseteq> set (ex_dependencies ex') \<and> set (ex_policies ex) \<subseteq> set (ex_policies ex') \<and>
     (ex_macro_errors ex' = [] \<longrightarrow> ex_macro_errors ex = [])"

lemma route_declared_grows: "route_declared ex r \<Longrightarrow> expansion_grows ex ex' \<Longrightarrow> route_declared ex' r"
  by (auto simp: route_declared_def expansion_grows_def split: option.splits throttle_annotation.splits)

lemma expand_method_declared:
  fixes type_value base_path block cs invalid m
  assumes "\<forall>r\<in>set (ex_routes ex). route_declared ex r"
  defines "ex' \<equiv> expand_method type_value base_path block cs invalid m ex"
  shows "\<forall>r\<in>set (ex_routes ex'). route_declared ex' r"
proof -
  have grows: "expansion_grows ex ex'"
    by (auto simp: ex'_def expand_method_def expansion_grows_def Let_def split: option.splits prod.splits)
  have new: "r \<in> set (ex_routes ex) \<or> route_declared ex' r" if "r \<in> set (ex_routes ex')" for r
    using that
    by (auto simp: ex'_def expand_method_def route_declared_def Let_def
        split: option.splits prod.splits throttle_annotation.splits if_splits)
  from assms(1) new route_declared_grows [OF _ grows] show ?thesis by blast
qed

lemma expand_declared: "r \<in> set (ex_routes (expand type_value base_path block)) \<Longrightarrow> route_declared (expand type_value base_path block) r"
proof -
  have "\<forall>r\<in>set (ex_routes (fold (expand_method type_value base_path block cs invalid) ms ex)).
      route_declared (fold (expand_method type_value base_path block cs invalid) ms ex) r"
    if "\<forall>r\<in>set (ex_routes ex). route_declared ex r" for cs invalid ms ex
    using that by (induction ms arbitrary: ex) (simp_all add: expand_method_declared)
  then show "r \<in> set (ex_routes (expand type_value base_path block)) \<Longrightarrow>
      route_declared (expand type_value base_path block) r"
    by (simp add: expand_def Let_def)
qed

section \<open>Markers are read back\<close>

lemma show_nat_all_digits: "list_all (\<lambda>c. 48 \<le> (of_char c :: nat) \<and> (of_char c :: nat) \<le> 57) (show_nat n)"
proof (induction n rule: show_nat.induct)
  case (1 n)
  have "n mod 10 \<le> 9" by simp
  with 1 show ?case by (subst show_nat.simps) (simp add: of_char_of)
qed

lemma show_nat_not_Nil: "show_nat n \<noteq> []"
  by (subst show_nat.simps) simp

lemma show_nat_no_plus: "show_nat n \<noteq> CHR ''+'' # rest"
  using show_nat_all_digits [of n] by (cases "show_nat n") auto

lemma parse_u64_show: "n \<le> u64_max \<Longrightarrow> parse_u64 (show_nat n) = Some n"
proof -
  assume n: "n \<le> u64_max"
  have "(case show_nat n of CHR ''+'' # rest \<Rightarrow> rest | _ \<Rightarrow> show_nat n) = show_nat n"
    using show_nat_no_plus [of n] by (auto split: list.splits char.splits bool.splits)
  then show ?thesis
    using n show_nat_all_digits [of n] by (simp add: parse_u64_def show_nat_not_Nil Let_def)
qed

lemma throttle_doc_marker_marker:
  assumes "\<And>limit window. annotation = Policy limit window \<Longrightarrow> limit \<le> u64_max \<and> window \<le> u64_max"
  shows "throttle_doc_marker (doc_attribute (throttle_marker annotation)) = Some annotation"
proof (cases annotation)
  case Skip
  then show ?thesis by (simp add: throttle_doc_marker_def doc_attribute_def is_ident_def)
next
  case (Policy limit window)
  have "split_on (CHR '':'') (show_nat limit @ CHR '':'' # show_nat window) = [show_nat limit, show_nat window]"
    using colon_not_digit by (simp add: split_on_append_sep split_on_no_sep_id)
  with assms [OF Policy] Policy show ?thesis
    by (simp add: throttle_doc_marker_def doc_attribute_def is_ident_def parse_u64_show)
qed

lemma throttle_integer_bound: "throttle_integer e = Inr n \<Longrightarrow> 0 < n \<and> n \<le> u64_max"
  by (auto simp: throttle_integer_def split: expr.splits if_splits)

definition positive_u64 :: "nat option \<Rightarrow> bool" where
  "positive_u64 x \<longleftrightarrow> (case x of None \<Rightarrow> True | Some n \<Rightarrow> 0 < n \<and> n \<le> u64_max)"

lemma throttle_arguments_bound:
  "throttle_arguments args found = Inr (l, w) \<Longrightarrow> positive_u64 (fst found) \<Longrightarrow> positive_u64 (snd found) \<Longrightarrow>
   positive_u64 l \<and> positive_u64 w"
proof (induction args found rule: throttle_arguments.induct)
  case (2 p e args limit window)
  from "2.prems"(1) obtain n where n: "throttle_integer e = Inr n"
    by (auto simp: result_facts split: if_splits)
  then have pos: "positive_u64 (Some n)" using throttle_integer_bound by (simp add: positive_u64_def)
  show ?case
  proof (cases "is_ident p ''limit''")
    case True
    with "2.prems"(1) n have l: "limit = None" "throttle_arguments args (Some n, window) = Inr (l, w)"
      by (simp_all split: if_splits)
    with "2.IH"(1) [OF True _ this(2)] pos "2.prems"(3) show ?thesis by simp
  next
    case False
    with "2.prems"(1) n have w: "is_ident p ''window_seconds''" "window = None"
      "throttle_arguments args (limit, Some n) = Inr (l, w)"
      by (simp_all split: if_splits)
    with "2.IH"(2) [OF False w(1) _ this(3)] pos "2.prems"(2) show ?thesis by simp
  qed
qed simp_all

lemma parse_throttle_Inr:
  assumes "parse_throttle a = Inr t"
  obtains limit window where "t = Policy limit window" "positive_u64 (Some limit)" "positive_u64 (Some window)"
proof -
  from assms obtain args l w where r: "throttle_arguments args (None, None) = Inr (l, w)"
    and t: "(case (l, w) of (None, _) \<Rightarrow> Inl (Message ''missing throttle `limit`'')
        | (Some limit, None) \<Rightarrow> Inl (Message ''missing throttle `window_seconds`'')
        | (Some limit, Some window) \<Rightarrow> Inr (Policy limit window)) = Inr t"
    by (auto simp: parse_throttle_def result_facts)
  from throttle_arguments_bound [OF r] have "positive_u64 l" "positive_u64 w" by (simp_all add: positive_u64_def)
  with t show ?thesis by (auto split: option.splits intro: that)
qed

text \<open>What the throttle attributes of a controller leave in its documentation is read back by the controller
  macro as what the attribute says, with positive limits that fit 64 bits.\<close>

theorem throttle_marker_read_back:
  assumes "expand_controller_throttle_marker skip args attrs = Inr attrs'"
  shows "\<exists>annotation marker. attrs' = attrs @ [marker] \<and> throttle_doc_marker marker = Some annotation \<and>
    (if skip then args = Some [] \<and> annotation = Skip
     else \<exists>limit window. annotation = Policy limit window \<and>
       parse_throttle \<lparr>at_path = [''throttle''], at_meta = AttrList args, at_types = None, at_literal = None, at_expr = None\<rparr> =
         Inr annotation \<and>
       0 < limit \<and> limit \<le> u64_max \<and> 0 < window \<and> window \<le> u64_max)"
proof (cases skip)
  case True
  with assms have "args = Some []" "attrs' = attrs @ [doc_attribute (throttle_marker Skip)]"
    by (auto simp: expand_controller_throttle_marker_def split: if_splits)
  with True throttle_doc_marker_marker [of Skip] show ?thesis by auto
next
  case False
  with assms obtain t where t: "parse_throttle \<lparr>at_path = [''throttle''], at_meta = AttrList args, at_types = None,
      at_literal = None, at_expr = None\<rparr> = Inr t" and a: "attrs' = attrs @ [doc_attribute (throttle_marker t)]"
    by (auto simp: expand_controller_throttle_marker_def result_facts)
  from t obtain limit window where p: "t = Policy limit window"
    and b: "0 < limit \<and> limit \<le> u64_max \<and> 0 < window \<and> window \<le> u64_max"
    by (rule parse_throttle_Inr) (auto simp: positive_u64_def)
  then have "throttle_doc_marker (doc_attribute (throttle_marker t)) = Some t"
    using b by (intro throttle_doc_marker_marker) (simp add: p)
  with False t a p b show ?thesis by auto
qed

theorem throttle_marker_read_back_witness:
  "\<exists>annotation marker. throttle_doc_marker marker = Some annotation \<and> annotation = Policy 10 60"
proof -
  let ?args = "Some [MetaNameValue [''limit''] (IntLit 10), MetaNameValue [''window_seconds''] (IntLit 60)]"
  have e: "expand_controller_throttle_marker False ?args [] = Inr [doc_attribute (throttle_marker (Policy 10 60))]"
    by (simp add: expand_controller_throttle_marker_def parse_throttle_def require_args_def is_ident_def
        throttle_integer_def)
  show ?thesis
    using throttle_marker_read_back [OF e]
    by (auto simp: parse_throttle_def require_args_def is_ident_def throttle_integer_def)
qed

section \<open>Upload sizes\<close>

lemma size_unit_no_digits: "(u, m) \<in> set size_units \<Longrightarrow> \<not> list_ex is_digit u \<and> 0 < m \<and> u \<noteq> []"
  by (auto simp: size_units_def is_digit_def)

lemma suffix_of_digits:
  assumes "list_all is_digit d" and "\<not> list_ex is_digit u'"
  shows "suffix u' (d @ u) \<longleftrightarrow> suffix u' u"
proof
  assume "suffix u' (d @ u)"
  then consider "suffix u' u" | x where "u' = x @ u" "suffix x d"
    unfolding suffix_append by blast
  then show "suffix u' u"
  proof cases
    case 2
    show ?thesis
    proof (cases x)
      case Nil
      with 2 show ?thesis by simp
    next
      case (Cons c cs)
      with 2(2) assms(1) have "is_digit c" by (auto simp: suffix_def list_all_iff)
      with 2(1) Cons assms(2) show ?thesis by simp
    qed
  qed
next
  assume "suffix u' u"
  then show "suffix u' (d @ u)" by (simp add: suffix_appendI)
qed

lemma first_unit_digits:
  assumes "list_all is_digit d" and "(u, m) \<in> set size_units"
  shows "first_unit size_units (d @ u) = Some (d, m)"
proof -
  have no: "\<not> list_ex is_digit u'" if "u' \<in> {''KiB'', ''MiB'', ''GiB'', ''KB'', ''MB'', ''GB'', ''B''}" for u'
    using that by (auto simp: is_digit_def)
  have s: "strip_suffix u' (d @ v) = (if suffix u' v then Some (d @ take (length v - length u') v) else None)"
    if "u' \<in> {''KiB'', ''MiB'', ''GiB'', ''KB'', ''MB'', ''GB'', ''B''}" for u' v
    using suffix_of_digits [OF assms(1) no [OF that], of v] suffix_length_le [of u' v]
    by (auto simp: strip_suffix_def)
  show ?thesis
    using assms(2) unfolding size_units_def set_simps insert_iff empty_iff prod.inject
    by (elim disjE conjE) (simp_all add: s suffix_to_prefix)
qed

lemma first_unit_Some:
  "first_unit units raw = Some (d, m) \<Longrightarrow> \<exists>u. (u, m) \<in> set units \<and> raw = d @ u"
  by (induction units raw rule: first_unit.induct)
    (auto simp: strip_suffix_def suffix_def split: option.splits if_splits)

lemma parse_u64_digits:
  assumes "list_all is_digit d" and "d \<noteq> []"
  shows "parse_u64 d = (if digits_value d \<le> u64_max then Some (digits_value d) else None)"
proof -
  obtain c cs where d: "d = c # cs" using assms(2) by (cases d) auto
  from assms(1) have "is_digit c" by (simp add: d)
  then have "c \<noteq> CHR ''+''" by (auto simp: is_digit_def)
  then have "(case d of CHR ''+'' # rest \<Rightarrow> rest | _ \<Rightarrow> d) = d"
    by (auto simp: d split: char.splits bool.splits)
  with assms show ?thesis by (simp add: parse_u64_def Let_def is_digit_def [abs_def])
qed

text \<open>A size is accepted exactly when it is digits followed by one of the units, and then it is their product,
  which must fit 64 bits.\<close>

theorem upload_size_exact:
  "parse_upload_size raw = Inr n \<longleftrightarrow>
     (\<exists>d u m. (u, m) \<in> set size_units \<and> raw = d @ u \<and> d \<noteq> [] \<and> list_all is_digit d \<and>
        n = digits_value d * m \<and> n \<le> u64_max)"
proof
  assume "parse_upload_size raw = Inr n"
  then obtain d m where f: "first_unit size_units raw = Some (d, m)" and d: "d \<noteq> []" "list_all is_digit d"
    and n: "Option.bind (parse_u64 d) (\<lambda>k. if k * m \<le> u64_max then Some (k * m) else None) = Some n"
    by (auto simp: parse_upload_size_def split: option.splits if_splits)
  from first_unit_Some [OF f] obtain u where "(u, m) \<in> set size_units" "raw = d @ u" by blast
  moreover have "n = digits_value d * m \<and> n \<le> u64_max"
    using n parse_u64_digits [OF d(2,1)] by (auto split: if_splits)
  ultimately show "\<exists>d u m. (u, m) \<in> set size_units \<and> raw = d @ u \<and> d \<noteq> [] \<and> list_all is_digit d \<and>
      n = digits_value d * m \<and> n \<le> u64_max" using d by blast
next
  assume "\<exists>d u m. (u, m) \<in> set size_units \<and> raw = d @ u \<and> d \<noteq> [] \<and> list_all is_digit d \<and>
      n = digits_value d * m \<and> n \<le> u64_max"
  then obtain d u m where u: "(u, m) \<in> set size_units" and raw: "raw = d @ u" and d: "d \<noteq> []" "list_all is_digit d"
    and n: "n = digits_value d * m" "n \<le> u64_max" by blast
  from size_unit_no_digits [OF u] have "digits_value d \<le> n" using n(1) by simp
  then have "digits_value d \<le> u64_max" using n(2) by simp
  with first_unit_digits [OF d(2) u] n d show "parse_upload_size raw = Inr n"
    by (simp add: parse_upload_size_def raw parse_u64_digits)
qed

end
