(* ===== verification/RoutePayload.thy ===== *)
theory RoutePayload
  imports RouteMacro Uploads Requests Effects
begin

text \<open>
  The payload of a route as the controller macro generates it (\<open>crates/caelix-macros/src/controller.rs\<close>): the
  slots of the body and file arguments, filled from a multipart form or from JSON, the checks of uploaded
  files, and the arguments of the handler in order. A panic is \<open>None\<close>. Values that go out of scope when an
  error returns early are dropped, and with them their temporary files.
\<close>

section \<open>What the libraries and the application give\<close>

text \<open>
  Deserialisation by type, detection of content types, the disk, the multipart parser, and the upload
  validators of the controller, which may change the state of the application \<open>'w\<close>.
\<close>

record ('v, 'w) payload_lib =
  pl_from_slice :: "rust_type \<Rightarrow> str \<Rightarrow> str + 'v"
  pl_from_form :: "rust_type \<Rightarrow> (str \<times> str) list \<Rightarrow> str + 'v"
  pl_infer :: "str \<Rightarrow> str option"
  pl_io :: disk_io
  pl_tag :: "nat \<Rightarrow> str"
  pl_boundary :: "str \<Rightarrow> str option"
  pl_multer :: "str \<Rightarrow> str \<Rightarrow> part list \<times> bool"
  pl_next_id :: nat
  pl_validator :: "str \<Rightarrow> disk \<Rightarrow> uploaded_file \<Rightarrow> 'w \<Rightarrow> unit result \<times> 'w"

text \<open>\<open>RequestPayload\<close>: the buffered body with the content type of the request and the upload settings.\<close>

record request_payload =
  py_content_type :: "str option"
  py_body :: str
  py_config :: upload_config
  py_body_limit :: nat

definition payload_multipart ::
    "('v, 'w) payload_lib \<Rightarrow> nat option \<Rightarrow> request_payload \<Rightarrow> disk \<Rightarrow> multipart_form result \<times> disk" where
  "payload_multipart lib route_limit p files =
     MultipartForm_parse (pl_io lib) (pl_tag lib) (pl_boundary lib) (pl_multer lib)
       (case py_content_type p of None \<Rightarrow> [] | Some t \<Rightarrow> t) (py_body p) (py_config p)
       (case route_limit of None \<Rightarrow> py_body_limit p | Some limit \<Rightarrow> limit) files (pl_next_id lib)"

text \<open>The text fields are in the order of their names.\<close>

definition MultipartForm_deserialize ::
    "('v, 'w) payload_lib \<Rightarrow> rust_type \<Rightarrow> multipart_form \<Rightarrow> 'v result" where
  "MultipartForm_deserialize lib ty form =
     map_err (\<lambda>_. BadRequestException ''invalid multipart form fields'')
       (pl_from_form lib ty
          (concat (map (\<lambda>(name, values). map (\<lambda>v. (name, v)) values) (sort_key fst (mf_text form)))))"

section \<open>Values and slots\<close>

datatype 'v arg_value =
    Decoded 'v
  | UserValue nat
  | CookieText str
  | OptionalText "str option"
  | FormValue multipart_form
  | OneFile uploaded_file
  | OptionalFile "uploaded_file option"
  | ManyFiles "uploaded_file list"

fun value_uploads :: "'v arg_value \<Rightarrow> uploaded_file list" where
  "value_uploads (FormValue form) = all_uploads form"
| "value_uploads (OneFile f) = [f]"
| "value_uploads (OptionalFile f) = (case f of None \<Rightarrow> [] | Some x \<Rightarrow> [x])"
| "value_uploads (ManyFiles fs) = fs"
| "value_uploads _ = []"

definition slot_uploads :: "(str \<times> 'v arg_value) list \<Rightarrow> uploaded_file list" where
  "slot_uploads slots = concat (map (value_uploads \<circ> snd) slots)"

definition drop_slots :: "disk_io \<Rightarrow> (str \<times> 'v arg_value) list \<Rightarrow> disk \<Rightarrow> disk" where
  "drop_slots io slots files = fold (drop_upload io) (slot_uploads slots) files"

record ('v, 'w) payload_state =
  ps_form :: multipart_form
  ps_slots :: "(str \<times> 'v arg_value) list"
  ps_files :: disk
  ps_world :: 'w

definition set_slot :: "str \<Rightarrow> 'v arg_value \<Rightarrow> ('v, 'w) payload_state \<Rightarrow> unit result \<times> ('v, 'w) payload_state" where
  "set_slot name v st = (Inr (), st\<lparr>ps_slots := (name, v) # ps_slots st\<rparr>)"

section \<open>Checks of an uploaded file\<close>

definition upload_validation ::
    "('v, 'w) payload_lib \<Rightarrow> upload_field_spec \<Rightarrow> uploaded_file \<Rightarrow> ('v, 'w) payload_state \<Rightarrow>
     unit result \<times> ('v, 'w) payload_state" where
  "upload_validation lib upload f =
     do_then (lift_result (case us_max_size upload of None \<Rightarrow> Inr () | Some n \<Rightarrow> validate_max_size n f)) (\<lambda>_.
     do_then (\<lambda>st. (if us_content_types upload = [] then Inr ()
                     else validate_content_type (pl_infer lib) (pl_io lib) (ps_files st) (us_content_types upload)
                            (us_trust_header upload) f, st)) (\<lambda>_ st.
       (case us_validator upload of
          None \<Rightarrow> (Inr (), st)
        | Some v \<Rightarrow>
            (case pl_validator lib v (ps_files st) f (ps_world st) of (r, w) \<Rightarrow> (r, st\<lparr>ps_world := w\<rparr>)))))"

primrec do_each :: "('a \<Rightarrow> 's \<Rightarrow> ('e + unit) \<times> 's) \<Rightarrow> 'a list \<Rightarrow> 's \<Rightarrow> ('e + unit) \<times> 's" where
  "do_each f [] = yield ()"
| "do_each f (x # xs) = do_then (f x) (\<lambda>_. do_each f xs)"

text \<open>Files held by the code that fails are dropped.\<close>

definition or_drop ::
    "('v, 'w) payload_lib \<Rightarrow> uploaded_file list \<Rightarrow> (('v, 'w) payload_state \<Rightarrow> unit result \<times> ('v, 'w) payload_state) \<Rightarrow>
     ('v, 'w) payload_state \<Rightarrow> unit result \<times> ('v, 'w) payload_state" where
  "or_drop lib fs m st =
     (case m st of
        (Inl e, st1) \<Rightarrow> (Inl e, st1\<lparr>ps_files := fold (drop_upload (pl_io lib)) fs (ps_files st1)\<rparr>)
      | (Inr u, st1) \<Rightarrow> (Inr u, st1))"

section \<open>Slots are filled\<close>

definition take_file_from ::
    "('v, 'w) payload_lib \<Rightarrow> str \<Rightarrow> ('v, 'w) payload_state \<Rightarrow> uploaded_file option result \<times> ('v, 'w) payload_state" where
  "take_file_from lib name st =
     (case take_file (pl_io lib) name (ps_form st) (ps_files st) of
        (r, form, files) \<Rightarrow> (r, st\<lparr>ps_form := form, ps_files := files\<rparr>))"

definition multipart_file ::
    "('v, 'w) payload_lib \<Rightarrow> extractor_arg \<Rightarrow> upload_field_spec \<Rightarrow> ('v, 'w) payload_state \<Rightarrow>
     unit result \<times> ('v, 'w) payload_state" where
  "multipart_file lib a upload =
     do_then (take_file_from lib (us_name upload)) (\<lambda>taken.
       (case taken of
          Some f \<Rightarrow>
            do_then (or_drop lib [f] (upload_validation lib upload f)) (\<lambda>_.
              set_slot (ea_name a) (if is_option_uploaded_file (ea_type a) then OptionalFile (Some f) else OneFile f))
        | None \<Rightarrow>
            if is_option_uploaded_file (ea_type a) then set_slot (ea_name a) (OptionalFile None)
            else lift_result (Inl (BadRequestException (''missing required file field `'' @ us_name upload @ ''`'')))))"

definition multipart_files ::
    "('v, 'w) payload_lib \<Rightarrow> extractor_arg \<Rightarrow> upload_field_spec \<Rightarrow> ('v, 'w) payload_state \<Rightarrow>
     unit result \<times> ('v, 'w) payload_state" where
  "multipart_files lib a upload st =
     (case take_files (us_name upload) (ps_form st) of
        (fs, form) \<Rightarrow>
          do_then (or_drop lib fs (do_each (upload_validation lib upload) fs)) (\<lambda>_. set_slot (ea_name a) (ManyFiles fs))
            (st\<lparr>ps_form := form\<rparr>))"

definition multipart_assignment ::
    "('v, 'w) payload_lib \<Rightarrow> extractor_arg \<Rightarrow> ('v, 'w) payload_state \<Rightarrow> unit result \<times> ('v, 'w) payload_state" where
  "multipart_assignment lib a =
     (case ea_extractor a of
        Body \<Rightarrow>
          do_then (\<lambda>st. (MultipartForm_deserialize lib (ea_type a) (ps_form st), st)) (\<lambda>v. set_slot (ea_name a) (Decoded v))
      | File \<Rightarrow> multipart_file lib a (the (ea_upload a))
      | Files \<Rightarrow> multipart_files lib a (the (ea_upload a))
      | _ \<Rightarrow> yield ())"

definition json_assignment ::
    "('v, 'w) payload_lib \<Rightarrow> str \<Rightarrow> extractor_arg \<Rightarrow> ('v, 'w) payload_state \<Rightarrow> unit result \<times> ('v, 'w) payload_state" where
  "json_assignment lib body a =
     (case ea_extractor a of
        Body \<Rightarrow>
          do_then (lift_result (payload_json (pl_from_slice lib (ea_type a)) body)) (\<lambda>v. set_slot (ea_name a) (Decoded v))
      | File \<Rightarrow> if is_option_uploaded_file (ea_type a) then set_slot (ea_name a) (OptionalFile None) else yield ()
      | _ \<Rightarrow> yield ())"

definition force_multipart :: "extractor_arg list \<Rightarrow> bool" where
  "force_multipart args =
     list_ex (\<lambda>a. ea_extractor a = Multipart \<or> ea_extractor a = Files \<or>
       ea_extractor a = File \<and> \<not> is_option_uploaded_file (ea_type a)) args"

text \<open>Every slot must have been filled by then.\<close>

definition payload_values ::
    "extractor_arg list \<Rightarrow> (str \<times> 'v arg_value) list \<Rightarrow> disk \<Rightarrow> 'w \<Rightarrow>
     ((str \<times> 'v arg_value) list result \<times> disk \<times> 'w) option" where
  "payload_values args slots files w =
     (if list_all (\<lambda>a. is_payload (ea_extractor a) \<longrightarrow> map_of slots (ea_name a) \<noteq> None) args
      then Some (Inr slots, files, w) else None)"

definition fill_slots ::
    "('v, 'w) payload_lib \<Rightarrow> extractor_arg list \<Rightarrow>
     (extractor_arg \<Rightarrow> ('v, 'w) payload_state \<Rightarrow> unit result \<times> ('v, 'w) payload_state) \<Rightarrow>
     multipart_form \<Rightarrow> disk \<Rightarrow> 'w \<Rightarrow> ((str \<times> 'v arg_value) list result \<times> disk \<times> 'w) option" where
  "fill_slots lib args assignment form files w =
     (case do_each assignment args \<lparr>ps_form = form, ps_slots = [], ps_files = files, ps_world = w\<rparr> of
        (Inl e, st) \<Rightarrow>
          Some (Inl e, drop_slots (pl_io lib) (ps_slots st) (drop_form (pl_io lib) (ps_form st) (ps_files st)), ps_world st)
      | (Inr _, st) \<Rightarrow>
          payload_values args (ps_slots st) (drop_form (pl_io lib) (ps_form st) (ps_files st)) (ps_world st))"

definition payload_setup ::
    "('v, 'w) payload_lib \<Rightarrow> extractor_arg list \<Rightarrow> nat option \<Rightarrow> request_payload \<Rightarrow> disk \<Rightarrow> 'w \<Rightarrow>
     ((str \<times> 'v arg_value) list result \<times> disk \<times> 'w) option" where
  "payload_setup lib args route_limit p files w =
     (case List.find (\<lambda>a. ea_extractor a = Multipart) args of
        Some direct \<Rightarrow>
          if \<not> is_multipart (py_content_type p)
          then Some (Inl (UnsupportedMediaTypeException ''multipart/form-data is required''), files, w)
          else
            (case payload_multipart lib route_limit p files of
               (Inl e, files1) \<Rightarrow> Some (Inl e, files1, w)
             | (Inr form, files1) \<Rightarrow> payload_values args [(ea_name direct, FormValue form)] files1 w)
      | None \<Rightarrow>
          if is_multipart (py_content_type p) then
            (case payload_multipart lib route_limit p files of
               (Inl e, files1) \<Rightarrow> Some (Inl e, files1, w)
             | (Inr form, files1) \<Rightarrow> fill_slots lib args (multipart_assignment lib) form files1 w)
          else if force_multipart args \<or> \<not> is_json_or_missing_content_type (py_content_type p)
          then Some (Inl (UnsupportedMediaTypeException ''unsupported request content type''), files, w)
          else fill_slots lib args (json_assignment lib (py_body p)) MultipartForm_default files w)"

section \<open>The arguments of the handler\<close>

text \<open>\<open>type_id\<close> is the type of a user value, and \<open>validate\<close> what the \<open>validator\<close> crate finds. The path and query
  arguments were extracted by the HTTP library when the generated function was called; \<open>extracted\<close> has their
  values by the names of the parameters.\<close>

record 'v argument_lib =
  al_type_id :: "rust_type \<Rightarrow> type_id"
  al_decode_name :: "str \<Rightarrow> str option"
  al_decode_value :: "str \<Rightarrow> str option"
  al_validate :: "rust_type \<Rightarrow> 'v arg_value \<Rightarrow> verrors option"
  al_json_text :: "json \<Rightarrow> str"

definition user_value :: "'v argument_lib \<Rightarrow> rust_type \<Rightarrow> request_context \<Rightarrow> 'v arg_value result" where
  "user_value al ty ctx =
     bind_result (get_extension (al_type_id al ty) ctx) (\<lambda>found.
       (case found of None \<Rightarrow> Inl (UnauthorizedException ''Not authenticated'') | Some v \<Rightarrow> Inr (UserValue v)))"

definition cookie_value :: "'v argument_lib \<Rightarrow> rust_type \<Rightarrow> str \<Rightarrow> request_context \<Rightarrow> 'v arg_value result" where
  "cookie_value al ty name ctx =
     (let found = request_cookie (al_decode_name al) (al_decode_value al) ctx name
      in if is_option_of ty ''String'' then Inr (OptionalText found)
         else
           (case found of
              None \<Rightarrow> Inl (BadRequestException (''missing required cookie '' @ [CHR 0x27] @ name @ [CHR 0x27]))
            | Some v \<Rightarrow> Inr (CookieText v)))"

definition validated :: "'v argument_lib \<Rightarrow> extractor_arg \<Rightarrow> 'v arg_value \<Rightarrow> 'v arg_value result" where
  "validated al a v =
     (if ea_validate a then
        (case al_validate al (ea_type a) v of
           None \<Rightarrow> Inr v | Some ve \<Rightarrow> Inl (exception_from (al_json_text al) (ValidationFailure ve)))
      else Inr v)"

definition call_arg ::
    "'v argument_lib \<Rightarrow> (str \<Rightarrow> 'v) \<Rightarrow> request_context option \<Rightarrow> (str \<times> 'v arg_value) list \<Rightarrow> extractor_arg \<Rightarrow>
     'v arg_value result option" where
  "call_arg al extracted ctx values a =
     map_option (\<lambda>base. bind_result base (validated al a))
       (case ea_extractor a of
          Param \<Rightarrow> Some (Inr (Decoded (extracted (ea_name a))))
        | Query \<Rightarrow> Some (Inr (Decoded (extracted (ea_name a))))
        | User \<Rightarrow> map_option (user_value al (ea_type a)) ctx
        | Cookie name \<Rightarrow> map_option (cookie_value al (ea_type a) name) ctx
        | _ \<Rightarrow> map_option Inr (map_of values (ea_name a)))"

fun call_args ::
    "'v argument_lib \<Rightarrow> (str \<Rightarrow> 'v) \<Rightarrow> request_context option \<Rightarrow> (str \<times> 'v arg_value) list \<Rightarrow> extractor_arg list \<Rightarrow>
     'v arg_value list result option" where
  "call_args al extracted ctx values [] = Some (Inr [])"
| "call_args al extracted ctx values (a # args) =
     (case call_arg al extracted ctx values a of
        None \<Rightarrow> None
      | Some (Inl e) \<Rightarrow> Some (Inl e)
      | Some (Inr v) \<Rightarrow>
          (case call_args al extracted ctx values args of
             None \<Rightarrow> None
           | Some (Inl e) \<Rightarrow> Some (Inl e)
           | Some (Inr vs) \<Rightarrow> Some (Inr (v # vs))))"

text \<open>Everything before the handler: the payload, if the route has one, then the arguments in order.\<close>

definition prepare ::
    "('v, 'w) payload_lib \<Rightarrow> 'v argument_lib \<Rightarrow> (str \<Rightarrow> 'v) \<Rightarrow> extractor_arg list \<Rightarrow> nat option \<Rightarrow> request_context option \<Rightarrow>
     request_payload \<Rightarrow> disk \<Rightarrow> 'w \<Rightarrow> ('v arg_value list result \<times> disk \<times> 'w) option" where
  "prepare lib al extracted args route_limit ctx p files w =
     (case (if has_payload args then payload_setup lib args route_limit p files w else Some (Inr [], files, w)) of
        None \<Rightarrow> None
      | Some (Inl e, files1, w1) \<Rightarrow> Some (Inl e, files1, w1)
      | Some (Inr values, files1, w1) \<Rightarrow>
          (case call_args al extracted ctx values args of
             None \<Rightarrow> None
           | Some (Inl e) \<Rightarrow> Some (Inl e, drop_slots (pl_io lib) values files1, w1)
           | Some (Inr vs) \<Rightarrow> Some (Inr vs, files1, w1)))"

section \<open>Temporary files\<close>

text \<open>The disk is as at the start but for the temporary files of the uploads held.\<close>

definition holds_uploads :: "disk \<Rightarrow> uploaded_file set \<Rightarrow> disk \<Rightarrow> bool" where
  "holds_uploads base fs files \<longleftrightarrow>
     uf_temp_path ` fs \<inter> dom base = {} \<and> (\<forall>p. p \<notin> uf_temp_path ` fs \<longrightarrow> files p = base p)"

lemma holds_none [simp]: "holds_uploads base {} files \<longleftrightarrow> files = base"
  by (auto simp: holds_uploads_def)

lemma drop_held:
  assumes "holds_uploads base (set dropped \<union> rest) files" and "\<forall>p. io (RemoveFile p) = None"
  shows "holds_uploads base rest (fold (drop_upload io) dropped files)"
  unfolding holds_uploads_def
proof (intro conjI allI impI)
  show "uf_temp_path ` rest \<inter> dom base = {}"
    using assms(1) by (auto simp: holds_uploads_def)
  fix p
  assume p: "p \<notin> uf_temp_path ` rest"
  show "fold (drop_upload io) dropped files p = base p"
  proof (cases "p \<in> uf_temp_path ` set dropped")
    case True
    with assms(1) have "base p = None" by (auto simp: holds_uploads_def)
    with True show ?thesis by (simp add: drop_uploads [OF assms(2)])
  next
    case False
    with p assms(1) have "files p = base p" by (auto simp: holds_uploads_def image_Un)
    with False show ?thesis by (simp add: drop_uploads [OF assms(2)])
  qed
qed

definition state_uploads :: "('v, 'w) payload_state \<Rightarrow> uploaded_file set" where
  "state_uploads st = set (all_uploads (ps_form st)) \<union> set (slot_uploads (ps_slots st))"

text \<open>Every step keeps the temporary files with the uploads that a form, a slot or the code that runs holds.\<close>

definition payload_inv :: "disk \<Rightarrow> uploaded_file list \<Rightarrow> ('v, 'w) payload_state \<Rightarrow> bool" where
  "payload_inv base held st \<longleftrightarrow>
     distinct (map fst (mf_files (ps_form st))) \<and> holds_uploads base (set held \<union> state_uploads st) (ps_files st)"

lemma slot_uploads_simps [simp]:
  "slot_uploads [] = []" "slot_uploads ((n, v) # slots) = value_uploads v @ slot_uploads slots"
  by (simp_all add: slot_uploads_def)

lemma payload_inv_slot:
  assumes "payload_inv base (value_uploads v) st" and "set_slot name v st = (r, st')"
  shows "payload_inv base [] st'"
  using assms by (auto simp: set_slot_def payload_inv_def state_uploads_def Un_assoc Un_left_commute)

lemma payload_inv_world: "payload_inv base held (st\<lparr>ps_world := w\<rparr>) = payload_inv base held st"
  by (simp add: payload_inv_def state_uploads_def)

lemma upload_validation_files:
  assumes "upload_validation lib upload f st = (r, st')"
  shows "\<exists>w. st' = st\<lparr>ps_world := w\<rparr>"
proof -
  have same: "\<exists>w. st = st\<lparr>ps_world := w\<rparr>" by (rule exI [of _ "ps_world st"]) simp
  from assms same show ?thesis
    by (auto simp: upload_validation_def do_then_def lift_result_def split: sum.splits option.splits prod.splits if_splits)
qed

lemma payload_inv_validation:
  "upload_validation lib upload f st = (r, st') \<Longrightarrow> payload_inv base held st \<Longrightarrow> payload_inv base held st'"
  by (drule upload_validation_files) (auto simp: payload_inv_world)

lemma payload_inv_validations:
  "do_each (upload_validation lib upload) fs st = (r, st') \<Longrightarrow> payload_inv base held st \<Longrightarrow> payload_inv base held st'"
  by (induction fs arbitrary: st)
    (auto simp: yield_def do_then_def split: sum.splits prod.splits dest: payload_inv_validation)

lemma payload_inv_or_drop:
  assumes "or_drop lib fs m st = (r, st')" and "payload_inv base fs st" and io: "\<forall>p. pl_io lib (RemoveFile p) = None"
    and m: "\<And>r st'. m st = (r, st') \<Longrightarrow> payload_inv base fs st'"
  shows "payload_inv base (if is_ok r then fs else []) st'"
proof -
  obtain r1 st1 where m1: "m st = (r1, st1)" by (cases "m st")
  with m have inv: "payload_inv base fs st1" by blast
  show ?thesis
  proof (cases r1)
    case (Inl e)
    with m1 assms(1) have "r = Inl e" "st' = st1\<lparr>ps_files := fold (drop_upload (pl_io lib)) fs (ps_files st1)\<rparr>"
      by (simp_all add: or_drop_def)
    with inv drop_held [OF _ io, of base fs "state_uploads st1" "ps_files st1"] show ?thesis
      by (simp add: payload_inv_def state_uploads_def)
  next
    case (Inr u)
    with m1 assms(1) have "r = Inr u" "st' = st1" by (simp_all add: or_drop_def)
    with inv show ?thesis by simp
  qed
qed

lemma all_uploads_delete:
  assumes "distinct (map fst m)"
  shows "set (concat (map snd m)) = set (values_of m name) \<union> set (concat (map snd (AList.delete name m)))"
  using assms
proof (induction m)
  case (Cons e m)
  obtain n fs where e: "e = (n, fs)" by (cases e)
  show ?case
  proof (cases "n = name")
    case True
    with Cons.prems e have "name \<notin> fst ` set m" by simp
    with Cons e True show ?thesis by (simp add: values_of_def)
  next
    case False
    with Cons e show ?thesis by (auto simp: values_of_def)
  qed
qed (simp add: values_of_def)

lemma distinct_delete_keys: "distinct (map fst m) \<Longrightarrow> distinct (map fst (AList.delete name m))"
  by (rule distinct_delete)

lemma payload_inv_take_files:
  assumes "payload_inv base [] st" and "take_files name (ps_form st) = (fs, form)"
  shows "payload_inv base fs (st\<lparr>ps_form := form\<rparr>)"
proof -
  have "distinct (map fst (mf_files (ps_form st)))" using assms(1) by (simp add: payload_inv_def)
  with all_uploads_delete [OF this, of name] assms show ?thesis
    by (auto simp: payload_inv_def state_uploads_def take_files_def all_uploads_def distinct_delete_keys Un_assoc)
qed

definition taken_files :: "uploaded_file option result \<Rightarrow> uploaded_file list" where
  "taken_files r = (case r of Inr (Some f) \<Rightarrow> [f] | _ \<Rightarrow> [])"

lemma payload_inv_take_file:
  assumes "payload_inv base [] st" and "take_file_from lib name st = (r, st')"
    and io: "\<forall>p. pl_io lib (RemoveFile p) = None"
  shows "payload_inv base (taken_files r) st'"
proof (cases "map_of (mf_files (ps_form st)) name")
  case None
  with assms(1,2) show ?thesis
    by (auto simp: take_file_from_def take_file_def taken_files_def payload_inv_def state_uploads_def)
next
  case (Some fs)
  let ?form = "ps_form st\<lparr>mf_files := AList.delete name (mf_files (ps_form st))\<rparr>"
  have "take_files name (ps_form st) = (fs, ?form)" by (simp add: take_files_def values_of_def Some)
  from payload_inv_take_files [OF assms(1) this]
  have inv: "payload_inv base fs (st\<lparr>ps_form := ?form\<rparr>)" .
  show ?thesis
  proof (cases "length fs = 1")
    case True
    then obtain f where "fs = [f]" by (cases fs) auto
    with assms(2) Some inv show ?thesis
      by (auto simp: take_file_from_def take_file_def taken_files_def payload_inv_def state_uploads_def Let_def)
  next
    case False
    with assms(2) Some have "taken_files r = []"
      "st' = st\<lparr>ps_form := ?form, ps_files := fold (drop_upload (pl_io lib)) fs (ps_files st)\<rparr>"
      by (auto simp: take_file_from_def take_file_def taken_files_def Let_def)
    with inv drop_held [OF _ io, of base fs "state_uploads (st\<lparr>ps_form := ?form\<rparr>)" "ps_files st"] show ?thesis
      by (simp add: payload_inv_def state_uploads_def)
  qed
qed

lemma payload_inv_lift: "payload_inv base [] st \<Longrightarrow> lift_result r st = (q, st') \<Longrightarrow> payload_inv base [] st'"
  by (simp add: lift_result_def)

lemma payload_inv_checked_slot:
  assumes "do_then (or_drop lib fs m) (\<lambda>_. set_slot name v) st = (r, st')"
    and "payload_inv base fs st" and io: "\<forall>p. pl_io lib (RemoveFile p) = None"
    and "\<And>r st'. m st = (r, st') \<Longrightarrow> payload_inv base fs st'" and "value_uploads v = fs"
  shows "payload_inv base [] st'"
proof -
  obtain r1 st1 where 1: "or_drop lib fs m st = (r1, st1)" by (cases "or_drop lib fs m st")
  from payload_inv_or_drop [OF 1 assms(2) io assms(4)] have inv: "payload_inv base (if is_ok r1 then fs else []) st1" .
  show ?thesis
  proof (cases r1)
    case (Inl e)
    with 1 assms(1) have "st' = st1" by (simp add: do_then_def)
    with inv Inl show ?thesis by simp
  next
    case (Inr u)
    with 1 assms(1) have "set_slot name v st1 = (r, st')" by (simp add: do_then_def)
    with inv Inr assms(5) show ?thesis by (auto intro: payload_inv_slot)
  qed
qed

lemma payload_inv_multipart_file:
  assumes "multipart_file lib a upload st = (r, st')" and "payload_inv base [] st"
    and io: "\<forall>p. pl_io lib (RemoveFile p) = None"
  shows "payload_inv base [] st'"
proof -
  obtain q st1 where 1: "take_file_from lib (us_name upload) st = (q, st1)"
    by (cases "take_file_from lib (us_name upload) st")
  from payload_inv_take_file [OF assms(2) 1 io] have inv: "payload_inv base (taken_files q) st1" .
  consider e where "q = Inl e" | "q = Inr None" | f where "q = Inr (Some f)" by (metis sum.exhaust option.exhaust)
  then show ?thesis
  proof cases
    case 1
    with \<open>take_file_from lib (us_name upload) st = (q, st1)\<close> assms(1) inv show ?thesis
      by (simp add: multipart_file_def do_then_def taken_files_def)
  next
    case 2
    with \<open>take_file_from lib (us_name upload) st = (q, st1)\<close> assms(1) inv show ?thesis
      by (auto simp: multipart_file_def do_then_def taken_files_def lift_result_def split: if_splits
          intro: payload_inv_slot [where v = "OptionalFile None"])
  next
    case 3
    with \<open>take_file_from lib (us_name upload) st = (q, st1)\<close> assms(1)
    have "do_then (or_drop lib [f] (upload_validation lib upload f)) (\<lambda>_.
              set_slot (ea_name a) (if is_option_uploaded_file (ea_type a) then OptionalFile (Some f) else OneFile f)) st1 = (r, st')"
      by (simp add: multipart_file_def do_then_def)
    moreover have "payload_inv base [f] st1" using inv 3 by (simp add: taken_files_def)
    ultimately show ?thesis
      by (rule payload_inv_checked_slot [OF _ _ io]) (auto intro: payload_inv_validation inv [unfolded 3 taken_files_def, simplified])
  qed
qed

lemma payload_inv_multipart_files:
  assumes "multipart_files lib a upload st = (r, st')" and "payload_inv base [] st"
    and io: "\<forall>p. pl_io lib (RemoveFile p) = None"
  shows "payload_inv base [] st'"
proof -
  obtain fs form where 1: "take_files (us_name upload) (ps_form st) = (fs, form)"
    by (cases "take_files (us_name upload) (ps_form st)")
  from payload_inv_take_files [OF assms(2) 1] have inv: "payload_inv base fs (st\<lparr>ps_form := form\<rparr>)" .
  from assms(1) 1 have "do_then (or_drop lib fs (do_each (upload_validation lib upload) fs))
      (\<lambda>_. set_slot (ea_name a) (ManyFiles fs)) (st\<lparr>ps_form := form\<rparr>) = (r, st')"
    by (simp add: multipart_files_def)
  then show ?thesis
    by (rule payload_inv_checked_slot [OF _ inv io]) (auto intro: payload_inv_validations inv)
qed

lemma payload_inv_decoded:
  assumes "do_then (\<lambda>st. (g st, st)) (\<lambda>v. set_slot name (Decoded v)) st = (r, st')" and "payload_inv base [] st"
  shows "payload_inv base [] st'"
  using assms by (auto simp: do_then_def split: sum.splits intro: payload_inv_slot [where v = "Decoded v" for v])

lemma payload_inv_multipart:
  assumes "multipart_assignment lib a st = (r, st')" and "payload_inv base [] st"
    and "\<forall>p. pl_io lib (RemoveFile p) = None"
  shows "payload_inv base [] st'"
  using assms payload_inv_decoded [of "\<lambda>st. MultipartForm_deserialize lib (ea_type a) (ps_form st)"]
  by (cases "ea_extractor a")
    (auto simp: multipart_assignment_def yield_def intro: payload_inv_multipart_file payload_inv_multipart_files)

lemma payload_inv_json:
  assumes "json_assignment lib body a st = (r, st')" and "payload_inv base [] st"
  shows "payload_inv base [] st'"
  using assms payload_inv_decoded [of "\<lambda>st. payload_json (pl_from_slice lib (ea_type a)) body"]
  by (cases "ea_extractor a")
    (auto simp: json_assignment_def yield_def lift_result_def [abs_def] split: if_splits
      intro: payload_inv_slot [where v = "OptionalFile None"])

lemma payload_inv_each:
  assumes "\<And>a st r st'. assignment a st = (r, st') \<Longrightarrow> payload_inv base [] st \<Longrightarrow> payload_inv base [] st'"
  shows "do_each assignment args st = (r, st') \<Longrightarrow> payload_inv base [] st \<Longrightarrow> payload_inv base [] st'"
  by (induction args arbitrary: st)
    (auto simp: yield_def do_then_def split: sum.splits prod.splits dest: assms)

lemma staged_payload_inv:
  assumes "staged_inv base form files"
  shows "payload_inv base [] \<lparr>ps_form = form, ps_slots = [], ps_files = files, ps_world = w\<rparr>"
  using assms all_uploads_paths [of form]
  by (auto simp: payload_inv_def state_uploads_def holds_uploads_def staged_inv_def)

lemma fill_slots_held:
  assumes "fill_slots lib args assignment form files w = Some (r, files', w')" and "staged_inv base form files"
    and io: "\<forall>p. pl_io lib (RemoveFile p) = None"
    and step: "\<And>a st r st'. assignment a st = (r, st') \<Longrightarrow> payload_inv base [] st \<Longrightarrow> payload_inv base [] st'"
  shows "case r of Inl e \<Rightarrow> files' = base | Inr values \<Rightarrow> holds_uploads base (set (slot_uploads values)) files'"
proof -
  let ?st = "\<lparr>ps_form = form, ps_slots = [], ps_files = files, ps_world = w\<rparr>"
  obtain q st where 1: "do_each assignment args ?st = (q, st)" by (cases "do_each assignment args ?st")
  have "payload_inv base [] st"
    by (rule payload_inv_each [OF _ 1 staged_payload_inv [OF assms(2)]]) (erule (1) step)
  then have "holds_uploads base (set (all_uploads (ps_form st)) \<union> set (slot_uploads (ps_slots st))) (ps_files st)"
    by (simp add: payload_inv_def state_uploads_def)
  from drop_held [OF this io] have
    held: "holds_uploads base (set (slot_uploads (ps_slots st))) (drop_form (pl_io lib) (ps_form st) (ps_files st))"
    by (simp add: drop_form_def)
  show ?thesis
  proof (cases q)
    case (Inl e)
    with 1 assms(1) have "r = Inl e"
      "files' = drop_slots (pl_io lib) (ps_slots st) (drop_form (pl_io lib) (ps_form st) (ps_files st))"
      by (simp_all add: fill_slots_def)
    moreover have "holds_uploads base {} (drop_slots (pl_io lib) (ps_slots st) (drop_form (pl_io lib) (ps_form st) (ps_files st)))"
      unfolding drop_slots_def by (rule drop_held [OF _ io]) (simp add: held)
    ultimately show ?thesis by simp
  next
    case (Inr u)
    with 1 assms(1) have "r = Inr (ps_slots st)" "files' = drop_form (pl_io lib) (ps_form st) (ps_files st)"
      by (simp_all add: fill_slots_def payload_values_def split: if_splits)
    with held show ?thesis by simp
  qed
qed

lemma parsed_form_staged:
  assumes "MultipartForm_parse io tag parse_boundary multer content_type body config limit files next_id = (Inr form, files')"
    and "limit < u64_max"
  shows "staged_inv files form files'"
proof -
  let ?st = "\<lparr>us_files = files, us_next_id = next_id, us_received = 0\<rparr>"
  from assms(1) obtain parts fails u st where
    parse: "parse_parts io tag config limit parts fails MultipartForm_default ?st = (Inr u, form, st)"
    and "files' = us_files st"
    by (auto simp: MultipartForm_parse_def split: option.splits if_splits sum.splits prod.splits)
  with parse_parts_ok [OF parse, of files] assms(2) staged_inv_start [of files] show ?thesis by simp
qed

text \<open>What a refused request may leave: nothing, or the one file of a form that broke off with the very error
  that the request is refused with.\<close>

definition left_by_broken_form ::
    "('v, 'w) payload_lib \<Rightarrow> nat option \<Rightarrow> request_payload \<Rightarrow> http_exception \<Rightarrow> disk \<Rightarrow> disk \<Rightarrow> bool" where
  "left_by_broken_form lib route_limit p e files files' \<longleftrightarrow>
     is_multipart (py_content_type p) \<and> payload_multipart lib route_limit p files = (Inl e, files') \<and>
     (\<exists>path data. files path = None \<and> files' = files(path \<mapsto> data))"

definition effective_limit :: "nat option \<Rightarrow> request_payload \<Rightarrow> nat" where
  "effective_limit route_limit p = (case route_limit of None \<Rightarrow> py_body_limit p | Some limit \<Rightarrow> limit)"

lemma payload_setup_held:
  assumes "payload_setup lib args route_limit p files w = Some (r, files', w')"
    and io: "\<forall>p. pl_io lib (RemoveFile p) = None" and limit: "effective_limit route_limit p < u64_max"
  shows "case r of Inl e \<Rightarrow> files' = files \<or> left_by_broken_form lib route_limit p e files files'
    | Inr values \<Rightarrow> holds_uploads files (set (slot_uploads values)) files'"
proof (cases "is_multipart (py_content_type p)")
  case True
  obtain q files1 where parse: "payload_multipart lib route_limit p files = (q, files1)"
    by (cases "payload_multipart lib route_limit p files")
  note parse' = parse [unfolded payload_multipart_def effective_limit_def [symmetric]]
  show ?thesis
  proof (cases q)
    case (Inl e)
    with assms(1) True parse have "r = Inl e" "files' = files1"
      by (auto simp: payload_setup_def split: option.splits)
    moreover from failed_form_leaves_one_file [OF parse' [unfolded Inl] io limit]
    have "files1 = files \<or> left_by_broken_form lib route_limit p e files files1"
      using parse Inl True unfolding left_by_broken_form_def by blast
    ultimately show ?thesis by simp
  next
    case (Inr form)
    from parsed_form_staged [OF parse' [unfolded Inr] limit] have staged: "staged_inv files form files1" .
    show ?thesis
    proof (cases "List.find (\<lambda>a. ea_extractor a = Multipart) args")
      case None
      with assms(1) True parse Inr
      have "fill_slots lib args (multipart_assignment lib) form files1 w = Some (r, files', w')"
        by (simp add: payload_setup_def)
      then have "case r of Inl e \<Rightarrow> files' = files | Inr values \<Rightarrow> holds_uploads files (set (slot_uploads values)) files'"
        by (rule fill_slots_held [OF _ staged io]) (erule (1) payload_inv_multipart, rule io)
      then show ?thesis by (cases r) simp_all
    next
      case (Some direct)
      with assms(1) True parse Inr have "r = Inr [(ea_name direct, FormValue form)]" "files' = files1"
        by (auto simp: payload_setup_def payload_values_def split: if_splits)
      moreover have "holds_uploads files (set (all_uploads form)) files1"
        using staged_payload_inv [OF staged] by (simp add: payload_inv_def state_uploads_def)
      ultimately show ?thesis by simp
    qed
  qed
next
  case False
  show ?thesis
  proof (cases "List.find (\<lambda>a. ea_extractor a = Multipart) args = None \<and> \<not> (force_multipart args \<or>
      \<not> is_json_or_missing_content_type (py_content_type p))")
    case True
    with assms(1) False
    have "fill_slots lib args (json_assignment lib (py_body p)) MultipartForm_default files w = Some (r, files', w')"
      by (simp add: payload_setup_def)
    then have "case r of Inl e \<Rightarrow> files' = files | Inr values \<Rightarrow> holds_uploads files (set (slot_uploads values)) files'"
      by (rule fill_slots_held [OF _ staged_inv_start io]) (erule (1) payload_inv_json)
    then show ?thesis by (cases r) simp_all
  next
    case refused: False
    with assms(1) False show ?thesis
      by (auto simp: payload_setup_def split: option.splits if_splits)
  qed
qed

section \<open>Properties\<close>

text \<open>C25: A request refused before its handler runs - by an extractor, a check of a file, a validation or the
  payload - leaves the disk as it was, if files can be removed. The only exception is a form that breaks off
  while it is parsed: then the request is refused with the error of the parser, and the disk may have the one
  file that was being written.\<close>

theorem refused_request_leaves_no_upload:
  assumes "prepare lib al extracted args route_limit ctx p files w = Some (Inl e, files', w')"
    and "\<forall>p. pl_io lib (RemoveFile p) = None" and "effective_limit route_limit p < u64_max"
  shows "files' = files \<or>
    is_multipart (py_content_type p) \<and> payload_multipart lib route_limit p files = (Inl e, files') \<and>
    (\<exists>path data. files path = None \<and> files' = files(path \<mapsto> data))"
proof (cases "has_payload args")
  case False
  with assms(1) show ?thesis
    by (auto simp: prepare_def drop_slots_def split: option.splits sum.splits)
next
  case True
  with assms(1) obtain r files1 w1 where payload: "payload_setup lib args route_limit p files w = Some (r, files1, w1)"
    by (auto simp: prepare_def split: option.splits)
  from payload_setup_held [OF payload assms(2,3)] have
    held: "case r of Inl e \<Rightarrow> files1 = files \<or> left_by_broken_form lib route_limit p e files files1
      | Inr values \<Rightarrow> holds_uploads files (set (slot_uploads values)) files1" .
  show ?thesis
  proof (cases r)
    case (Inl e1)
    with assms(1) True payload held show ?thesis by (auto simp: prepare_def left_by_broken_form_def)
  next
    case (Inr vs)
    with assms(1) True payload have "files' = drop_slots (pl_io lib) vs files1"
      by (auto simp: prepare_def split: option.splits sum.splits)
    with held Inr drop_held [OF _ assms(2), of files "slot_uploads vs" "{}" files1] show ?thesis
      by (simp add: drop_slots_def)
  qed
qed

section \<open>Slots are filled before they are read\<close>

definition slots_kept :: "('v, 'w) payload_state \<Rightarrow> ('v, 'w) payload_state \<Rightarrow> bool" where
  "slots_kept st st' \<longleftrightarrow> fst ` set (ps_slots st) \<subseteq> fst ` set (ps_slots st')"

interpretation slots: frame slots_kept
  by unfold_locales (auto simp: slots_kept_def)

lemma kept_set_slot: "framed slots_kept (set_slot name v)"
  by (auto simp: framed_def set_slot_def slots_kept_def)

lemma kept_validation: "framed slots_kept (upload_validation lib upload f)"
  unfolding framed_def
proof
  fix st
  obtain w where "snd (upload_validation lib upload f st) = st\<lparr>ps_world := w\<rparr>"
    using upload_validation_files [of lib upload f st] by (cases "upload_validation lib upload f st") auto
  then show "slots_kept st (snd (upload_validation lib upload f st))" by (simp add: slots_kept_def)
qed

lemma kept_each: "(\<And>a. framed slots_kept (f a)) \<Longrightarrow> framed slots_kept (do_each f xs)"
  by (induction xs) (auto intro: slots.yield slots.sequence)

lemma kept_or_drop:
  assumes "framed slots_kept m" shows "framed slots_kept (or_drop lib fs m)"
  unfolding framed_def
proof
  fix st
  obtain r st1 where m: "m st = (r, st1)" by (cases "m st")
  with assms have "slots_kept st st1" by (metis framed_def snd_conv)
  with m show "slots_kept st (snd (or_drop lib fs m st))"
    by (cases r) (simp_all add: or_drop_def slots_kept_def)
qed

lemma kept_read: "framed slots_kept (\<lambda>st. (g st, st))"
  by (simp add: framed_def slots_kept_def)

lemma kept_take: "framed slots_kept (take_file_from lib name)"
  by (auto simp: framed_def take_file_from_def slots_kept_def split: prod.splits)

lemmas kept = kept_set_slot kept_validation kept_or_drop kept_read kept_take slots.yield slots.lift

lemma kept_multipart_files: "framed slots_kept (multipart_files lib a upload)"
  unfolding framed_def
proof
  fix st :: "('a, 'b) payload_state"
  obtain fs form where t: "take_files (us_name upload) (ps_form st) = (fs, form)"
    by (cases "take_files (us_name upload) (ps_form st)")
  have "framed slots_kept (do_then (or_drop lib fs (do_each (upload_validation lib upload) fs))
      (\<lambda>_. set_slot (ea_name a) (ManyFiles fs)))"
    by (intro slots.sequence kept kept_each)
  then have "slots_kept (st\<lparr>ps_form := form\<rparr>) (snd (multipart_files lib a upload st))"
    by (simp add: framed_def multipart_files_def t)
  then show "slots_kept st (snd (multipart_files lib a upload st))" by (simp add: slots_kept_def)
qed

lemma kept_multipart: "framed slots_kept (multipart_assignment lib a)"
proof -
  have "framed slots_kept (multipart_file lib a upload)" for upload
    unfolding multipart_file_def
    by (intro slots.sequence kept) (auto intro!: slots.sequence kept split: option.split)
  then show ?thesis
    by (cases "ea_extractor a")
      (auto simp: multipart_assignment_def intro: slots.sequence kept kept_multipart_files)
qed

lemma kept_json: "framed slots_kept (json_assignment lib body a)"
  by (cases "ea_extractor a") (auto simp: json_assignment_def intro: slots.sequence kept)

lemma set_slot_fills: "set_slot name v st = (r, st') \<Longrightarrow> name \<in> fst ` set (ps_slots st')"
  by (auto simp: set_slot_def)

lemma multipart_fills:
  assumes "multipart_assignment lib a st = (Inr u, st')" and "is_payload (ea_extractor a)" "ea_extractor a \<noteq> Multipart"
  shows "ea_name a \<in> fst ` set (ps_slots st')"
proof -
  have one: "ea_name a \<in> fst ` set (ps_slots st')" if "multipart_file lib a upload st = (Inr u, st')" for upload
    using that by (auto simp: multipart_file_def result_facts split: option.splits if_splits dest: set_slot_fills)
  have many: "ea_name a \<in> fst ` set (ps_slots st')" if "multipart_files lib a upload st = (Inr u, st')" for upload
    using that by (auto simp: multipart_files_def result_facts split: prod.splits dest: set_slot_fills)
  from assms one many show ?thesis
    by (cases "ea_extractor a")
      (auto simp: multipart_assignment_def is_payload_def result_facts dest: set_slot_fills)
qed

lemma json_fills:
  assumes "json_assignment lib body a st = (Inr u, st')" and "is_payload (ea_extractor a)"
    and "\<not> force_multipart [a]"
  shows "ea_name a \<in> fst ` set (ps_slots st')"
  using assms
  by (cases "ea_extractor a")
    (auto simp: json_assignment_def is_payload_def force_multipart_def result_facts dest: set_slot_fills split: if_splits)

lemma do_each_fills:
  assumes "do_each assignment args st = (Inr u, st')" and "\<And>a. framed slots_kept (assignment a)"
    and "\<And>a st u st'. a \<in> set args \<Longrightarrow> P a \<Longrightarrow> assignment a st = (Inr u, st') \<Longrightarrow> ea_name a \<in> fst ` set (ps_slots st')"
  shows "\<forall>a\<in>set args. P a \<longrightarrow> ea_name a \<in> fst ` set (ps_slots st')"
  using assms(1,3)
proof (induction args arbitrary: st)
  case (Cons a args)
  then obtain st1 where 1: "assignment a st = (Inr (), st1)" and 2: "do_each assignment args st1 = (Inr u, st')"
    by (auto simp: result_facts)
  have "framed slots_kept (do_each assignment args)" by (rule kept_each) (rule assms(2))
  with 2 have "fst ` set (ps_slots st1) \<subseteq> fst ` set (ps_slots st')"
    by (metis framed_def slots_kept_def snd_conv)
  with Cons.prems(2) [OF _ _ 1] Cons.IH [OF 2] Cons.prems(2) show ?case by auto
qed simp

lemma fill_slots_returns:
  assumes "\<And>a. framed slots_kept (assignment a)"
    and "\<And>a st u st'. a \<in> set args \<Longrightarrow> is_payload (ea_extractor a) \<Longrightarrow> assignment a st = (Inr u, st') \<Longrightarrow>
      ea_name a \<in> fst ` set (ps_slots st')"
  shows "fill_slots lib args assignment form files w \<noteq> None"
proof -
  let ?st = "\<lparr>ps_form = form, ps_slots = [], ps_files = files, ps_world = w\<rparr>"
  obtain q st where 1: "do_each assignment args ?st = (q, st)" by (cases "do_each assignment args ?st")
  show ?thesis
  proof (cases q)
    case (Inl e)
    with 1 show ?thesis by (simp add: fill_slots_def)
  next
    case (Inr u)
    from do_each_fills [OF 1 [unfolded Inr] assms(1), where P = "\<lambda>a. is_payload (ea_extractor a)"] assms(2)
    have "\<forall>a\<in>set args. is_payload (ea_extractor a) \<longrightarrow> ea_name a \<in> fst ` set (ps_slots st)" by blast
    with 1 Inr show ?thesis
      by (auto simp: fill_slots_def payload_values_def list_all_iff map_of_eq_None_iff)
  qed
qed

text \<open>With the errors the macro reports excluded, the slots are always filled, provided that at most one
  argument is the form itself.\<close>

lemma payload_setup_returns:
  assumes "payload_errors args = []"
    and one: "length (filter (\<lambda>a. ea_extractor a = Multipart) args) \<le> 1"
  shows "payload_setup lib args route_limit p files w \<noteq> None"
proof (cases "List.find (\<lambda>a. ea_extractor a = Multipart) args")
  case None
  then have none: "ea_extractor a \<noteq> Multipart" if "a \<in> set args" for a using that by (auto simp: find_None_iff)
  have multipart: "fill_slots lib args (multipart_assignment lib) form files1 w \<noteq> None" for form files1
    by (rule fill_slots_returns [OF kept_multipart]) (erule multipart_fills, assumption, erule none)
  have json: "fill_slots lib args (json_assignment lib (py_body p)) MultipartForm_default files w \<noteq> None"
    if "\<not> force_multipart args"
    by (rule fill_slots_returns)
      (use that in \<open>auto intro!: kept_json json_fills simp: force_multipart_def list_ex_iff\<close>)
  from None multipart json show ?thesis
    by (auto simp: payload_setup_def split: prod.splits sum.splits)
next
  case (Some direct)
  then have direct: "direct \<in> set args" "ea_extractor direct = Multipart"
    by (auto simp: find_Some_iff)
  with assms(1) have only: "ea_extractor a = Multipart" if "a \<in> set args" "is_payload (ea_extractor a)" for a
    using that by (auto simp: payload_errors_def is_payload_def list_ex_iff split: if_splits)
  have same: "a = direct" if "a \<in> set args" "ea_extractor a = Multipart" for a
  proof -
    obtain x where x: "filter (\<lambda>a. ea_extractor a = Multipart) args = [x]"
      using one direct by (cases "filter (\<lambda>a. ea_extractor a = Multipart) args") (auto simp: filter_empty_conv)
    have "a \<in> set (filter (\<lambda>a. ea_extractor a = Multipart) args)"
      "direct \<in> set (filter (\<lambda>a. ea_extractor a = Multipart) args)"
      using that direct by simp_all
    then show ?thesis by (simp only: x) simp
  qed
  have "payload_values args [(ea_name direct, FormValue form)] files1 w \<noteq> None" for form files1
    using only same by (auto simp: payload_values_def list_all_iff)
  with Some show ?thesis by (auto simp: payload_setup_def split: prod.splits sum.splits)
qed

text \<open>Two arguments that are the form pass the checks of the macro, and only the first is filled: the handler of
  such a route panics on every form that parses.\<close>

lemma two_forms_panic:
  assumes "ea_extractor a = Multipart" "ea_extractor b = Multipart" "ea_name a \<noteq> ea_name b"
    and "is_multipart (py_content_type p)" "payload_multipart lib route_limit p files = (Inr form, files1)"
  shows "payload_errors [a, b] = [] \<and> payload_setup lib [a, b] route_limit p files w = None"
  using assms by (simp add: payload_errors_def payload_setup_def payload_values_def is_payload_def)

text \<open>A list of files is documented as required; a form without such files is accepted.\<close>

lemma missing_files_accepted:
  assumes "ea_extractor a = Files" "values_of (mf_files (ps_form st)) (us_name (the (ea_upload a))) = []"
  shows "\<exists>st'. multipart_assignment lib a st = (Inr (), st') \<and> map_of (ps_slots st') (ea_name a) = Some (ManyFiles [])"
  using assms by (simp add: multipart_assignment_def multipart_files_def take_files_def do_then_def or_drop_def yield_def
      set_slot_def)

section \<open>Witness\<close>

definition demo_payload_lib :: "(str, unit) payload_lib" where
  "demo_payload_lib =
     \<lparr>pl_from_slice = (\<lambda>_ _. Inl ''''), pl_from_form = (\<lambda>_ _. Inl ''''), pl_infer = (\<lambda>_. None), pl_io = (\<lambda>_. None),
      pl_tag = (\<lambda>_. ''id''), pl_boundary = (\<lambda>_. Some ''b''), pl_multer = (\<lambda>_ _. ([sample_part (Some ''a.txt'')], False)),
      pl_next_id = 0, pl_validator = (\<lambda>_ _ _ w. (Inr (), w))\<rparr>"

definition demo_argument_lib :: "str argument_lib" where
  "demo_argument_lib =
     \<lparr>al_type_id = (\<lambda>_. 0), al_decode_name = Some, al_decode_value = Some,
      al_validate = (\<lambda>_ _. None), al_json_text = (\<lambda>_. '''')\<rparr>"

definition demo_file_arg :: extractor_arg where
  "demo_file_arg =
     \<lparr>ea_extractor = File, ea_name = ''f'', ea_type = PathType [(''UploadedFile'', None)], ea_validate = False,
      ea_upload = Some \<lparr>us_name = ''f'', us_max_size = Some 1, us_content_types = [], us_trust_header = False,
                       us_validator = None\<rparr>\<rparr>"

definition demo_payload :: request_payload where
  "demo_payload =
     \<lparr>py_content_type = Some ''multipart/form-data'', py_body = ''body'', py_config = \<lparr>uc_temp_dir = ''/tmp''\<rparr>,
      py_body_limit = 100\<rparr>"

lemma demo_form:
  "\<exists>f. uf_size f = 3 \<and> payload_multipart demo_payload_lib None demo_payload (\<lambda>_. None) =
     (Inr \<lparr>mf_text = [], mf_files = [(''f'', [f])]\<rparr>, [uf_temp_path f \<mapsto> ''abc''])"
  by (simp add: payload_multipart_def demo_payload_lib_def demo_payload_def MultipartForm_parse_def stage_file_def
      temporary_path_def saturating_add_def sample_part_def MultipartForm_default_def push_to_def values_of_def Let_def)

lemma demo_payload_multipart: "is_multipart (py_content_type demo_payload)"
  by (simp add: demo_payload_def is_multipart_def to_ascii_lowercase_def ascii_lower_def)

text \<open>A file of three bytes where one is allowed: the request is refused and the file removed.\<close>

theorem refused_request_leaves_no_upload_witness:
  "\<exists>files'. prepare demo_payload_lib demo_argument_lib (\<lambda>_. []) [demo_file_arg] None None demo_payload (\<lambda>_. None) () =
      Some (Inl (PayloadTooLargeException (''uploaded file exceeds the declared limit of '' @ show_nat 1 @ '' bytes'')), files', ()) \<and>
    files' = (\<lambda>_. None)"
proof -
  obtain f where f: "uf_size f = 3" and form: "payload_multipart demo_payload_lib None demo_payload (\<lambda>_. None) =
      (Inr \<lparr>mf_text = [], mf_files = [(''f'', [f])]\<rparr>, [uf_temp_path f \<mapsto> ''abc''])"
    using demo_form by blast
  have option: "\<not> is_option_uploaded_file (PathType [(''UploadedFile'', None)])"
    by (simp add: is_option_uploaded_file_def is_generic_of_def)
  obtain files' where r: "prepare demo_payload_lib demo_argument_lib (\<lambda>_. []) [demo_file_arg] None None demo_payload (\<lambda>_. None) () =
      Some (Inl (PayloadTooLargeException (''uploaded file exceeds the declared limit of '' @ show_nat 1 @ '' bytes'')), files', ())"
    using f option
    by (simp add: prepare_def has_payload_def is_payload_def demo_file_arg_def payload_setup_def demo_payload_multipart
        form fill_slots_def multipart_assignment_def multipart_file_def take_file_from_def take_file_def do_then_def
        upload_validation_def lift_result_def validate_max_size_def or_drop_def del: show_nat.simps)
  have "files' = (\<lambda>_. None)"
    using refused_request_leaves_no_upload [OF r] form
    by (auto simp: demo_payload_lib_def demo_payload_def effective_limit_def)
  with r show ?thesis by blast
qed

end
