(* ===== verification/RoutePipeline.thy ===== *)
theory RoutePipeline
  imports RoutePayload
begin

text \<open>
  The handler that the controller macro generates for a route (\<open>crates/caelix-macros/src/controller.rs\<close>), with
  the guards and interceptors it calls (\<open>crates/caelix-core/src/guard.rs\<close>, \<open>interceptor.rs\<close>): the
  extraction of path and query arguments by the HTTP library, which may answer the request, the request
  context, the throttle check, the guards, the payload, the interceptors around the handler, and what an
  error becomes. The response is the framework's, before the adapter of the backend. A panic is \<open>None\<close>.
\<close>

section \<open>Requests\<close>

text \<open>Headers as the HTTP library has them, names in lower case; a value that is not text is \<open>None\<close>. The body
  comes in chunks, each of which may be an error.\<close>

record http_request =
  hq_method :: str
  hq_path :: str
  hq_headers :: "(str \<times> str option) list"
  hq_peer :: "str option"
  hq_content_type :: "str option"
  hq_chunks :: "(str + str) list"
  hq_config :: upload_config
  hq_body_limit :: nat

text \<open>What a request changes: its context, the throttle store, the disk, the application and the errors logged
  with the method and path of the request.\<close>

record ('s, 'w) run =
  rn_ctx :: "request_context option"
  rn_store :: 's
  rn_files :: disk
  rn_world :: 'w
  rn_log :: "(http_exception \<times> str \<times> str) list"

definition log_http_exception_with_request :: "http_exception \<Rightarrow> http_request \<Rightarrow> ('s, 'w) run \<Rightarrow> ('s, 'w) run" where
  "log_http_exception_with_request e req run = run\<lparr>rn_log := rn_log run @ [(e, hq_method req, hq_path req)]\<rparr>"

section \<open>Guards and interceptors\<close>

text \<open>
  Code that is given the context may change its extensions, and the application. An interceptor gets the
  rest of the request as \<open>Next\<close>, which it can run at most once: it is what it does before, which may end the
  request with a result of its own, and what it does after, with what it kept from before.
\<close>

type_synonym ('w, 'a) on_request = "request_context \<Rightarrow> 'w \<Rightarrow> 'a \<times> (type_id \<Rightarrow> nat option) \<times> 'w"

type_synonym 'w guard = "('w, bool result) on_request"

record ('w, 'k) interceptor =
  it_before :: "('w, http_response result + 'k) on_request"
  it_after :: "'k \<Rightarrow> http_response result \<Rightarrow> ('w, http_response result) on_request"

definition with_context :: "('w, 'a) on_request \<Rightarrow> ('s, 'w) run \<Rightarrow> ('a \<times> ('s, 'w) run) option" where
  "with_context f run =
     (case rn_ctx run of
        None \<Rightarrow> None
      | Some ctx \<Rightarrow>
          (case f ctx (rn_world run) of
             (x, extensions, w) \<Rightarrow> Some (x, run\<lparr>rn_ctx := Some (ctx\<lparr>rc_extensions := extensions\<rparr>), rn_world := w\<rparr>)))"

type_synonym ('s, 'w) next_fn = "('s, 'w) run \<Rightarrow> (http_response result \<times> ('s, 'w) run) option"

definition intercept :: "('w, 'k) interceptor \<Rightarrow> ('s, 'w) next_fn \<Rightarrow> ('s, 'w) next_fn" where
  "intercept i next_run run =
     (case with_context (it_before i) run of
        None \<Rightarrow> None
      | Some (Inl r, run1) \<Rightarrow> Some (r, run1)
      | Some (Inr k, run1) \<Rightarrow>
          (case next_run run1 of
             None \<Rightarrow> None
           | Some (r, run2) \<Rightarrow> with_context (it_after i k r) run2))"

text \<open>The chain is built from the last interceptor outwards.\<close>

definition interceptor_chain :: "('w, 'k) interceptor list \<Rightarrow> ('s, 'w) next_fn \<Rightarrow> ('s, 'w) next_fn" where
  "interceptor_chain interceptors handler = fold intercept (rev interceptors) handler"

section \<open>The state of a route\<close>

record 's throttle_service =
  sv_options :: throttle_options
  sv_incr :: "nat \<Rightarrow> str \<Rightarrow> nat \<Rightarrow> 's \<Rightarrow> (throttle_store_record result \<times> 's) option"
  sv_track :: "request_context \<Rightarrow> str result"
  sv_clock_max :: nat
  sv_clocks :: "nat \<times> nat"

record ('s, 'w, 'k) route_state =
  st_controller :: nat
  st_throttle :: "'s throttle_service option"
  st_guards :: "'w guard list"
  st_interceptors :: "('w, 'k) interceptor list"

definition throttle_enabled :: "route \<Rightarrow> bool" where
  "throttle_enabled r \<longleftrightarrow> ro_throttle r \<noteq> Some Skip"

text \<open>\<open>ids\<close> gives the identity and the name of a type; the other functions say what an instance is.\<close>

definition resolve_type :: "container \<Rightarrow> (rust_type \<Rightarrow> type_id \<times> str) \<Rightarrow> rust_type \<Rightarrow> nat option" where
  "resolve_type c ids ty = (case resolve c (fst (ids ty)) (snd (ids ty)) of Inl e \<Rightarrow> None | Inr v \<Rightarrow> Some v)"

definition route_state_new ::
    "container \<Rightarrow> (rust_type \<Rightarrow> type_id \<times> str) \<Rightarrow> (nat \<Rightarrow> 's throttle_service) \<Rightarrow> (nat \<Rightarrow> 'w guard) \<Rightarrow>
     (nat \<Rightarrow> ('w, 'k) interceptor) \<Rightarrow> rust_type \<Rightarrow> route \<Rightarrow> ('s, 'w, 'k) route_state option" where
  "route_state_new c ids throttle_of guard_of interceptor_of controller r =
     (case resolve_type c ids controller of
        None \<Rightarrow> None
      | Some instance_id \<Rightarrow>
          (case those (map (resolve_type c ids) (ro_guards r)) of
             None \<Rightarrow> None
           | Some guards \<Rightarrow>
               (case those (map (resolve_type c ids) (ro_interceptors r)) of
                  None \<Rightarrow> None
                | Some interceptors \<Rightarrow>
                    Some \<lparr>st_controller = instance_id,
                          st_throttle = (if throttle_enabled r
                                         then map_option throttle_of (resolve_type c ids throttle_dependency) else None),
                          st_guards = map guard_of guards, st_interceptors = map interceptor_of interceptors\<rparr>)))"

section \<open>The context of a request\<close>

definition header_separator :: "str \<Rightarrow> str option" where
  "header_separator name =
     (if name = ''cookie'' then Some ''; '' else if name = ''x-forwarded-for'' then Some '', '' else None)"

fun collect_headers :: "(str \<times> str option) list \<Rightarrow> (str \<Rightarrow> str option) \<Rightarrow> (str \<Rightarrow> str option) result" where
  "collect_headers [] m = Inr m"
| "collect_headers ((name, None) # hs) m = Inl (BadRequestException ''invalid request header value'')"
| "collect_headers ((name, Some v) # hs) m =
     collect_headers hs
       (m(name \<mapsto> (case header_separator name of
                     None \<Rightarrow> v
                   | Some sep \<Rightarrow> (case m name of None \<Rightarrow> v | Some existing \<Rightarrow> existing @ sep @ v))))"

definition needs_request_context :: "route \<Rightarrow> bool" where
  "needs_request_context r \<longleftrightarrow>
     ro_guards r \<noteq> [] \<or> ro_interceptors r \<noteq> [] \<or>
     list_ex (\<lambda>a. ea_extractor a = User \<or> is_cookie (ea_extractor a)) (ro_args r)"

definition request_context_of :: "http_request \<Rightarrow> (str \<Rightarrow> str option) \<Rightarrow> request_context" where
  "request_context_of req headers =
     (let context = from_normalized_headers (hq_method req) (hq_path req) headers
      in (case hq_peer req of None \<Rightarrow> context | Some peer \<Rightarrow> with_peer_addr peer context))"

text \<open>The steps before the handler either answer the request or let it go on.\<close>

type_synonym ('s, 'w, 'a) admission = "('s, 'w) run \<Rightarrow> ((http_response + 'a) \<times> ('s, 'w) run) option"

definition request_context_setup ::
    "(error_body \<Rightarrow> bytes option) \<Rightarrow> route \<Rightarrow> http_request \<Rightarrow> ('s, 'w, unit) admission" where
  "request_context_setup to_vec r req run =
     (if needs_request_context r \<or> throttle_enabled r then
        (case collect_headers (hq_headers req) (\<lambda>_. None) of
           Inl e \<Rightarrow> Some (Inl (exception_into_response to_vec e), run)
         | Inr headers \<Rightarrow> Some (Inr (), run\<lparr>rn_ctx := Some (request_context_of req headers)\<rparr>))
      else Some (Inr (), run\<lparr>rn_ctx := None\<rparr>))"

section \<open>Throttling and guards\<close>

definition route_policy :: "route \<Rightarrow> 's throttle_service option \<Rightarrow> throttle_policy option" where
  "route_policy r service =
     (case ro_throttle r of
        Some (Policy limit window) \<Rightarrow> Some (ThrottlePolicy_new limit window)
      | Some Skip \<Rightarrow> None
      | None \<Rightarrow> map_option (to_policy \<circ> sv_options) service)"

definition missing_throttle_module :: http_exception where
  "missing_throttle_module = InternalServerErrorException (OtherError ''throttled route requires ThrottleModule'')"

definition route_throttle_check ::
    "(error_body \<Rightarrow> bytes option) \<Rightarrow> route \<Rightarrow> 's throttle_service option \<Rightarrow> ('s, 'w, unit) admission" where
  "route_throttle_check to_vec r service run =
     (if \<not> throttle_enabled r then Some (Inr (), run)
      else
        (case route_policy r service of
           None \<Rightarrow> Some (Inr (), run)
         | Some policy \<Rightarrow>
             (case service of
                None \<Rightarrow> Some (Inl (exception_into_response to_vec missing_throttle_module), run)
              | Some sv \<Rightarrow>
                  (case rn_ctx run of
                     None \<Rightarrow> None
                   | Some ctx \<Rightarrow>
                       (case throttle_check to_vec (sv_incr sv) (sv_track sv) (sv_clock_max sv) (sv_options sv)
                               (sv_clocks sv) ctx (ro_verb r) (ro_full_path r) policy (rn_store run) of
                          None \<Rightarrow> None
                        | Some (Inr (Some response), s) \<Rightarrow> Some (Inl response, run\<lparr>rn_store := s\<rparr>)
                        | Some (Inr None, s) \<Rightarrow> Some (Inr (), run\<lparr>rn_store := s\<rparr>)
                        | Some (Inl e, s) \<Rightarrow> Some (Inl (exception_into_response to_vec e), run\<lparr>rn_store := s\<rparr>))))))"

fun guard_checks ::
    "(error_body \<Rightarrow> bytes option) \<Rightarrow> http_request \<Rightarrow> 'w guard list \<Rightarrow> ('s, 'w, unit) admission" where
  "guard_checks to_vec req [] run = Some (Inr (), run)"
| "guard_checks to_vec req (g # gs) run =
     (case with_context g run of
        None \<Rightarrow> None
      | Some (Inr True, run1) \<Rightarrow> guard_checks to_vec req gs run1
      | Some (Inr False, run1) \<Rightarrow>
          Some (Inl (exception_into_response to_vec (ForbiddenException ''Access denied'')), run1)
      | Some (Inl e, run1) \<Rightarrow>
          Some (Inl (exception_into_response to_vec e), log_http_exception_with_request e req run1))"

section \<open>The handler\<close>

text \<open>The application and the libraries: what the extractors of the HTTP library for the path and query arguments
  do with a request, which is to answer it themselves (as when a value does not parse) or to give a value for
  every argument; the handler of a controller instance, what its values become, how a body is buffered by the
  backend and the value of a route's upload limit.\<close>

record ('v, 't, 'w) route_env =
  re_extract :: "extractor_arg list \<Rightarrow> http_request \<Rightarrow> http_response + (str \<Rightarrow> 'v)"
  re_payload :: "('v, 'w) payload_lib"
  re_arguments :: "'v argument_lib"
  re_handler :: "nat \<Rightarrow> 'v arg_value list \<Rightarrow> disk \<Rightarrow> 'w \<Rightarrow> 't result \<times> disk \<times> 'w"
  re_into :: "'t \<Rightarrow> http_response"
  re_to_vec :: "error_body \<Rightarrow> bytes option"
  re_buffer :: "nat \<Rightarrow> (str + str) list \<Rightarrow> str result"
  re_limit :: "expr \<Rightarrow> nat"

text \<open>The body is read only if an argument needs it.\<close>

definition payload_buffering :: "('v, 't, 'w) route_env \<Rightarrow> route \<Rightarrow> http_request \<Rightarrow> ('s, 'w, request_payload) admission" where
  "payload_buffering env r req run =
     (case (if has_payload (ro_args r) then re_buffer env (hq_body_limit req) (hq_chunks req) else Inr []) of
        Inl e \<Rightarrow> Some (Inl (exception_into_response (re_to_vec env) e), run)
      | Inr body \<Rightarrow>
          Some (Inr \<lparr>py_content_type = hq_content_type req, py_body = body, py_config = hq_config req,
                     py_body_limit = hq_body_limit req\<rparr>, run))"

definition handler_block ::
    "('v, 't, 'w) route_env \<Rightarrow> route \<Rightarrow> ('s, 'w, 'k) route_state \<Rightarrow> (str \<Rightarrow> 'v) \<Rightarrow> request_payload \<Rightarrow> ('s, 'w) next_fn" where
  "handler_block env r st extracted p run =
     (case prepare (re_payload env) (re_arguments env) extracted (ro_args r)
             (map_option (re_limit env) (ro_upload_limit r)) (rn_ctx run) p (rn_files run) (rn_world run) of
        None \<Rightarrow> None
      | Some (Inl e, files, w) \<Rightarrow> Some (Inl e, run\<lparr>rn_files := files, rn_world := w\<rparr>)
      | Some (Inr vs, files, w) \<Rightarrow>
          (case re_handler env (st_controller st) vs files w of
             (value, files1, w1) \<Rightarrow>
               Some (map_sum id (re_into env) value, run\<lparr>rn_files := files1, rn_world := w1\<rparr>)))"

definition finish :: "('v, 't, 'w) route_env \<Rightarrow> http_request \<Rightarrow> http_response result \<times> ('s, 'w) run \<Rightarrow> http_response \<times> ('s, 'w) run" where
  "finish env req outcome =
     (case outcome of
        (Inr response, run) \<Rightarrow> (response, run)
      | (Inl e, run) \<Rightarrow> (exception_into_response (re_to_vec env) e, log_http_exception_with_request e req run))"

definition admit_then ::
    "('s, 'w, 'a) admission \<Rightarrow> ('a \<Rightarrow> ('s, 'w) run \<Rightarrow> (http_response \<times> ('s, 'w) run) option) \<Rightarrow> ('s, 'w) run \<Rightarrow>
     (http_response \<times> ('s, 'w) run) option" where
  "admit_then m f run =
     (case m run of
        None \<Rightarrow> None
      | Some (Inl response, run1) \<Rightarrow> Some (response, run1)
      | Some (Inr x, run1) \<Rightarrow> f x run1)"

text \<open>The checks of a request, in the order of the generated code, and the rest of it.\<close>

definition checked_request ::
    "(error_body \<Rightarrow> bytes option) \<Rightarrow> route \<Rightarrow> 's throttle_service option \<Rightarrow> 'w guard list \<Rightarrow> http_request \<Rightarrow>
     (('s, 'w) run \<Rightarrow> (http_response \<times> ('s, 'w) run) option) \<Rightarrow> ('s, 'w) run \<Rightarrow>
     (http_response \<times> ('s, 'w) run) option" where
  "checked_request to_vec r service guards req rest =
     admit_then (request_context_setup to_vec r req) (\<lambda>_.
     admit_then (route_throttle_check to_vec r service) (\<lambda>_.
     admit_then (guard_checks to_vec req guards) (\<lambda>_. rest)))"

definition answer_request ::
    "('v, 't, 'w) route_env \<Rightarrow> route \<Rightarrow> ('s, 'w, 'k) route_state \<Rightarrow> (str \<Rightarrow> 'v) \<Rightarrow> http_request \<Rightarrow> ('s, 'w) run \<Rightarrow>
     (http_response \<times> ('s, 'w) run) option" where
  "answer_request env r st extracted req =
     admit_then (payload_buffering env r req) (\<lambda>p run.
       map_option (finish env req) (interceptor_chain (st_interceptors st) (handler_block env r st extracted p) run))"

text \<open>The path and query arguments are parameters of the generated function, so the HTTP library extracts them
  before any of its code runs.\<close>

definition wrapper_params :: "extractor_arg list \<Rightarrow> extractor_arg list" where
  "wrapper_params args = filter (\<lambda>a. ea_extractor a = Param \<or> ea_extractor a = Query) args"

definition handle_request ::
    "('v, 't, 'w) route_env \<Rightarrow> route \<Rightarrow> ('s, 'w, 'k) route_state \<Rightarrow> http_request \<Rightarrow> ('s, 'w) run \<Rightarrow>
     (http_response \<times> ('s, 'w) run) option" where
  "handle_request env r st req run =
     (case re_extract env (wrapper_params (ro_args r)) req of
        Inl response \<Rightarrow> Some (response, run)
      | Inr extracted \<Rightarrow>
          checked_request (re_to_vec env) r (st_throttle st) (st_guards st) req
            (answer_request env r st extracted req) run)"

section \<open>Guards come first\<close>

inductive guards_pass :: "'w guard list \<Rightarrow> ('s, 'w) run \<Rightarrow> ('s, 'w) run \<Rightarrow> bool" where
  none: "guards_pass [] run run"
| pass: "with_context g run = Some (Inr True, run1) \<Longrightarrow> guards_pass gs run1 run2 \<Longrightarrow> guards_pass (g # gs) run run2"

inductive_simps guards_pass_simps: "guards_pass [] run run2" "guards_pass (g # gs) run run2"

lemma guard_checks_pass: "guard_checks to_vec req gs run = Some (Inr (), run') \<longleftrightarrow> guards_pass gs run run'"
proof (induction gs arbitrary: run)
  case Nil
  show ?case by (auto simp: guards_pass_simps)
next
  case (Cons g gs)
  show ?case
  proof (cases "with_context g run")
    case None
    then show ?thesis by (simp add: guards_pass_simps)
  next
    case (Some outcome)
    obtain x run1 where x: "outcome = (x, run1)" by (cases outcome)
    consider e where "x = Inl e" | "x = Inr True" | "x = Inr False" by (cases x) auto
    then show ?thesis by cases (simp_all add: Some x guards_pass_simps Cons.IH)
  qed
qed

lemma admit_then_differs:
  assumes "admit_then m f run \<noteq> admit_then m g run"
  obtains x run1 where "m run = Some (Inr x, run1)" "f x run1 \<noteq> g x run1"
  using assms by (auto simp: admit_then_def split: option.splits prod.splits sum.splits)

lemma checked_request_differs:
  assumes "checked_request to_vec r service guards req f run \<noteq> checked_request to_vec r service guards req g run"
  shows "\<exists>run1 run2 run3. request_context_setup to_vec r req run = Some (Inr (), run1) \<and>
    route_throttle_check to_vec r service run1 = Some (Inr (), run2) \<and> guards_pass guards run2 run3 \<and> f run3 \<noteq> g run3"
  using assms unfolding checked_request_def
  by (elim admit_then_differs) (auto simp: guard_checks_pass)

lemma request_context_setup_passes:
  assumes "request_context_setup to_vec r req run = Some (Inr u, run1)"
  shows "if needs_request_context r \<or> throttle_enabled r
    then \<exists>headers. collect_headers (hq_headers req) (\<lambda>_. None) = Inr headers \<and>
      run1 = run\<lparr>rn_ctx := Some (request_context_of req headers)\<rparr>
    else run1 = run\<lparr>rn_ctx := None\<rparr>"
  using assms by (auto simp: request_context_setup_def split: if_splits sum.splits)

text \<open>C13: The handler, the interceptors and the code that reads the payload and the other arguments matter for a
  request only when the HTTP library has extracted its path and query arguments; when its headers are text, if
  the route needs a context for guards, interceptors, arguments or throttling; when the throttle lets it through;
  and when every guard, asked in order, returns true. Where the library answers the request itself, that is the
  answer, and nothing else happens.\<close>

theorem handler_reached_only_through_guards:
  assumes "re_extract env1 = re_extract env2" and "re_to_vec env1 = re_to_vec env2"
    and "st_throttle st1 = st_throttle st2" and "st_guards st1 = st_guards st2"
    and "handle_request env1 r st1 req run \<noteq> handle_request env2 r st2 req run"
  shows "\<exists>extracted run1 run2 run3.
    re_extract env1 (wrapper_params (ro_args r)) req = Inr extracted \<and>
    (if needs_request_context r \<or> throttle_enabled r
     then \<exists>headers. collect_headers (hq_headers req) (\<lambda>_. None) = Inr headers \<and>
       run1 = run\<lparr>rn_ctx := Some (request_context_of req headers)\<rparr>
     else run1 = run\<lparr>rn_ctx := None\<rparr>) \<and>
    route_throttle_check (re_to_vec env1) r (st_throttle st1) run1 = Some (Inr (), run2) \<and>
    guards_pass (st_guards st1) run2 run3"
proof (cases "re_extract env1 (wrapper_params (ro_args r)) req")
  case (Inl response)
  with assms(1,5) show ?thesis by (simp add: handle_request_def flip: assms(1))
next
  case (Inr extracted)
  with assms have "checked_request (re_to_vec env1) r (st_throttle st1) (st_guards st1) req
        (answer_request env1 r st1 extracted req) run \<noteq>
      checked_request (re_to_vec env1) r (st_throttle st1) (st_guards st1) req
        (answer_request env2 r st2 extracted req) run"
    by (simp add: handle_request_def flip: assms(1))
  from checked_request_differs [OF this] Inr request_context_setup_passes show ?thesis by blast
qed

text \<open>When the library answers the request, that is all that happens.\<close>

lemma rejected_extraction_answers:
  "re_extract env (wrapper_params (ro_args r)) req = Inl response \<Longrightarrow>
   handle_request env r st req run = Some (response, run)"
  by (simp add: handle_request_def)

section \<open>Interceptors are nested\<close>

text \<open>A machine with a stack: interceptors are entered in order until one ends the request or all are entered and
  the handler runs; then those that were entered are left in reverse.\<close>

fun enter ::
    "('w, 'k) interceptor list \<Rightarrow> (('w, 'k) interceptor \<times> 'k) list \<Rightarrow> ('s, 'w) run \<Rightarrow>
     ((('w, 'k) interceptor \<times> 'k) list \<times> http_response result option \<times> ('s, 'w) run) option" where
  "enter [] entered run = Some (entered, None, run)"
| "enter (i # is) entered run =
     (case with_context (it_before i) run of
        None \<Rightarrow> None
      | Some (Inl r, run1) \<Rightarrow> Some (entered, Some r, run1)
      | Some (Inr k, run1) \<Rightarrow> enter is ((i, k) # entered) run1)"

fun leave :: "(('w, 'k) interceptor \<times> 'k) list \<Rightarrow> http_response result \<Rightarrow> ('s, 'w) next_fn" where
  "leave [] r run = Some (r, run)"
| "leave ((i, k) # entered) r run =
     (case with_context (it_after i k r) run of None \<Rightarrow> None | Some (r1, run1) \<Rightarrow> leave entered r1 run1)"

definition run_entered ::
    "('s, 'w) next_fn \<Rightarrow> ((('w, 'k) interceptor \<times> 'k) list \<times> http_response result option \<times> ('s, 'w) run) option \<Rightarrow>
     (http_response result \<times> ('s, 'w) run) option" where
  "run_entered handler e =
     (case e of
        None \<Rightarrow> None
      | Some (entered, Some r, run) \<Rightarrow> leave entered r run
      | Some (entered, None, run) \<Rightarrow>
          (case handler run of None \<Rightarrow> None | Some (r, run1) \<Rightarrow> leave entered r run1))"

lemma interceptor_chain_simps [simp]:
  "interceptor_chain [] handler = handler"
  "interceptor_chain (i # is) handler = intercept i (interceptor_chain is handler)"
  by (simp_all add: interceptor_chain_def)

lemma run_entered_chain:
  "run_entered handler (enter is entered run) =
     (case interceptor_chain is handler run of None \<Rightarrow> None | Some (r, run1) \<Rightarrow> leave entered r run1)"
proof (induction "is" arbitrary: entered run)
  case Nil
  show ?case by (simp add: run_entered_def)
next
  case (Cons i "is")
  show ?case
  proof (cases "with_context (it_before i) run")
    case None
    then show ?thesis by (simp add: run_entered_def intercept_def)
  next
    case (Some outcome)
    obtain x run1 where x: "outcome = (x, run1)" by (cases outcome)
    show ?thesis
    proof (cases x)
      case (Inl r)
      with Some x show ?thesis by (simp add: run_entered_def intercept_def)
    next
      case (Inr k)
      with Some x Cons.IH [of "(i, k) # entered" run1] show ?thesis
        by (simp add: intercept_def split: option.split prod.split)
    qed
  qed
qed

text \<open>C15: The nested closures of the generated code do what the machine does: the handler runs at most once, after
  every interceptor was entered, and exactly the entered interceptors see the result, the last one first.\<close>

theorem interceptors_nest:
  "interceptor_chain is handler run = run_entered handler (enter is [] run)"
  by (simp add: run_entered_chain split: option.split prod.split)

section \<open>No panic\<close>

text \<open>The context is there whenever the generated code expects it.\<close>

definition context_set :: "route \<Rightarrow> ('s, 'w) run \<Rightarrow> bool" where
  "context_set r run \<longleftrightarrow> (needs_request_context r \<or> throttle_enabled r \<longrightarrow> rn_ctx run \<noteq> None)"

definition returns_in :: "('r \<Rightarrow> bool) \<Rightarrow> ('r \<Rightarrow> ('a \<times> 'r) option) \<Rightarrow> bool" where
  "returns_in P m \<longleftrightarrow> (\<forall>run. P run \<longrightarrow> (\<exists>x run1. m run = Some (x, run1) \<and> P run1))"

lemma returns_in_admit:
  assumes "returns_in P m" and "\<And>x. returns_in P (f x)"
  shows "returns_in P (admit_then m f)"
  unfolding returns_in_def
proof (intro allI impI)
  fix run
  assume "P run"
  with assms(1) obtain x run1 where 1: "m run = Some (x, run1)" "P run1" unfolding returns_in_def by blast
  show "\<exists>y run2. admit_then m f run = Some (y, run2) \<and> P run2"
  proof (cases x)
    case (Inl response)
    with 1 show ?thesis by (simp add: admit_then_def)
  next
    case (Inr v)
    with 1 assms(2) [of v] show ?thesis by (auto simp: admit_then_def returns_in_def)
  qed
qed

lemma with_context_returns:
  assumes "context_set r run" and "needs_request_context r"
  shows "\<exists>x run1. with_context f run = Some (x, run1) \<and> context_set r run1"
  using assms by (auto simp: context_set_def with_context_def split: prod.splits)

lemma context_set_log [simp]: "context_set r (log_http_exception_with_request e req run) = context_set r run"
  by (simp add: context_set_def log_http_exception_with_request_def)

lemma guard_checks_return:
  fixes gs :: "'w guard list"
  assumes "gs \<noteq> [] \<longrightarrow> needs_request_context r"
  shows "returns_in (context_set r :: ('s, 'w) run \<Rightarrow> bool) (guard_checks to_vec req gs)"
  using assms
proof (induction gs)
  case Nil
  show ?case by (simp add: returns_in_def)
next
  case (Cons g gs)
  then have needs: "needs_request_context r" by simp
  show ?case unfolding returns_in_def
  proof (intro allI impI)
    fix run :: "('s, 'w) run"
    assume "context_set r run"
    from with_context_returns [OF this needs, of g] obtain x run1
      where 1: "with_context g run = Some (x, run1)" "context_set r run1" by blast
    have go: "\<exists>y run2. guard_checks to_vec req gs run1 = Some (y, run2) \<and> context_set r run2"
    proof -
      have "returns_in (context_set r :: ('s, 'w) run \<Rightarrow> bool) (guard_checks to_vec req gs)"
        by (rule Cons.IH) (rule impI, rule needs)
      then show ?thesis using 1(2) unfolding returns_in_def by blast
    qed
    consider e where "x = Inl e" | "x = Inr True" | "x = Inr False" by (cases x) auto
    then show "\<exists>y run2. guard_checks to_vec req (g # gs) run = Some (y, run2) \<and> context_set r run2"
      by cases (simp_all add: 1 go)
  qed
qed

lemma throttle_check_returns:
  assumes "\<forall>now key window s. incr now key window s \<noteq> None"
  shows "throttle_check to_vec incr track clock_max opts clocks ctx verb path policy s \<noteq> None"
  using assms by (auto simp: throttle_check_def Let_def split: prod.splits sum.splits option.splits)
    (metis option.distinct(1))

lemma route_throttle_returns:
  assumes "\<And>sv. service = Some sv \<Longrightarrow> \<forall>now key window s. sv_incr sv now key window s \<noteq> None"
  shows "returns_in (context_set r) (route_throttle_check to_vec r service)"
  unfolding returns_in_def
proof (intro allI impI)
  fix run :: "('a, 'c) run"
  assume ctx: "context_set r run"
  show "\<exists>x run1. route_throttle_check to_vec r service run = Some (x, run1) \<and> context_set r run1"
  proof (cases "\<not> throttle_enabled r \<or> route_policy r service = None \<or> service = None")
    case True
    then show ?thesis using ctx by (auto simp: route_throttle_check_def split: option.splits)
  next
    case False
    then obtain policy sv where p: "throttle_enabled r" "route_policy r service = Some policy" "service = Some sv" by auto
    with ctx obtain c where c: "rn_ctx run = Some c" by (auto simp: context_set_def)
    obtain x s where t: "throttle_check to_vec (sv_incr sv) (sv_track sv) (sv_clock_max sv) (sv_options sv) (sv_clocks sv) c
        (ro_verb r) (ro_full_path r) policy (rn_store run) = Some (x, s)"
      using throttle_check_returns [OF assms [OF p(3)]] by (metis option.exhaust surj_pair)
    have "context_set r (run\<lparr>rn_store := s\<rparr>)" using ctx by (simp add: context_set_def)
    with p c t show ?thesis
      by (auto simp: route_throttle_check_def split: sum.split option.split)
  qed
qed

lemma call_arg_returns:
  assumes "ea_extractor a = User \<or> is_cookie (ea_extractor a) \<longrightarrow> ctx \<noteq> None"
    and "is_payload (ea_extractor a) \<longrightarrow> map_of vs (ea_name a) \<noteq> None"
  shows "call_arg al extracted ctx vs a \<noteq> None"
  using assms by (cases "ea_extractor a") (auto simp: call_arg_def is_cookie_def is_payload_def)

lemma call_args_return:
  assumes "\<And>a. a \<in> set args \<Longrightarrow> call_arg al extracted ctx vs a \<noteq> None"
  shows "call_args al extracted ctx vs args \<noteq> None"
  using assms
proof (induction args)
  case (Cons a args)
  then have "call_args al extracted ctx vs args \<noteq> None" "call_arg al extracted ctx vs a \<noteq> None" by simp_all
  then show ?case by (auto split: sum.splits)
qed simp

lemma payload_setup_values:
  assumes "payload_setup lib args route_limit p files w = Some (Inr vs, files1, w1)" and "a \<in> set args"
    and "is_payload (ea_extractor a)"
  shows "map_of vs (ea_name a) \<noteq> None"
  using assms
  by (auto simp: payload_setup_def fill_slots_def payload_values_def list_all_iff
      split: option.splits if_splits prod.splits sum.splits)

lemma prepare_returns:
  assumes "payload_errors args = []" and "length (filter (\<lambda>a. ea_extractor a = Multipart) args) \<le> 1"
    and ctx: "list_ex (\<lambda>a. ea_extractor a = User \<or> is_cookie (ea_extractor a)) args \<longrightarrow> ctx \<noteq> None"
  shows "prepare lib al extracted args route_limit ctx p files w \<noteq> None"
proof -
  have args: "call_args al extracted ctx vs args \<noteq> None"
    if "\<And>a. a \<in> set args \<Longrightarrow> is_payload (ea_extractor a) \<Longrightarrow> map_of vs (ea_name a) \<noteq> None" for vs
    using that ctx by (intro call_args_return call_arg_returns) (auto simp: list_ex_iff)
  show ?thesis
  proof (cases "has_payload args")
    case False
    then have "\<not> is_payload (ea_extractor a)" if "a \<in> set args" for a
      using that by (auto simp: has_payload_def list_ex_iff)
    with args [of "[]"] False show ?thesis by (auto simp: prepare_def split: sum.splits)
  next
    case True
    obtain q files1 w1 where s: "payload_setup lib args route_limit p files w = Some (q, files1, w1)"
      using payload_setup_returns [OF assms(1,2)] by (metis option.exhaust prod_cases3)
    show ?thesis
    proof (cases q)
      case (Inl e)
      with s True show ?thesis by (simp add: prepare_def)
    next
      case (Inr vs)
      from args [OF payload_setup_values [OF s [unfolded Inr]]] have "call_args al extracted ctx vs args \<noteq> None" by blast
      with s True Inr show ?thesis by (auto simp: prepare_def split: sum.splits)
    qed
  qed
qed

lemma interceptor_chain_returns:
  fixes handler :: "('s, 'w) next_fn" and interceptors :: "('w, 'k) interceptor list"
  assumes "interceptors \<noteq> [] \<longrightarrow> needs_request_context r" and handler: "returns_in (context_set r) handler"
  shows "returns_in (context_set r) (interceptor_chain interceptors handler)"
  using assms(1)
proof (induction interceptors)
  case Nil
  show ?case using handler by simp
next
  case (Cons i interceptors)
  then have needs: "needs_request_context r" by simp
  have ih: "returns_in (context_set r) (interceptor_chain interceptors handler)"
    by (rule Cons.IH) (rule impI, rule needs)
  show ?case unfolding returns_in_def
  proof (intro allI impI)
    fix run :: "('s, 'w) run"
    assume "context_set r run"
    from with_context_returns [OF this needs, of "it_before i"] obtain x run1
      where 1: "with_context (it_before i) run = Some (x, run1)" "context_set r run1" by blast
    show "\<exists>y run2. interceptor_chain (i # interceptors) handler run = Some (y, run2) \<and> context_set r run2"
    proof (cases x)
      case (Inl result)
      with 1 show ?thesis by (simp add: intercept_def)
    next
      case (Inr k)
      from ih 1(2) obtain q run2 where 2: "interceptor_chain interceptors handler run1 = Some (q, run2)" "context_set r run2"
        unfolding returns_in_def by blast
      from with_context_returns [OF 2(2) needs, of "it_after i k q"] 1 2 Inr show ?thesis
        by (auto simp: intercept_def)
    qed
  qed
qed

lemma handler_block_returns:
  fixes env :: "('v, 't, 'w) route_env" and st :: "('s, 'w, 'k) route_state"
  assumes "payload_errors (ro_args r) = []" and "length (filter (\<lambda>a. ea_extractor a = Multipart) (ro_args r)) \<le> 1"
  shows "returns_in (context_set r) (handler_block env r st extracted p)"
  unfolding returns_in_def
proof (intro allI impI)
  fix run :: "('s, 'w) run"
  assume ctx: "context_set r run"
  then have "list_ex (\<lambda>a. ea_extractor a = User \<or> is_cookie (ea_extractor a)) (ro_args r) \<longrightarrow> rn_ctx run \<noteq> None"
    by (auto simp: context_set_def needs_request_context_def)
  from prepare_returns [OF assms this] obtain q files w
    where 1: "prepare (re_payload env) (re_arguments env) extracted (ro_args r) (map_option (re_limit env) (ro_upload_limit r))
        (rn_ctx run) p (rn_files run) (rn_world run) = Some (q, files, w)"
    by (metis option.exhaust prod_cases3)
  have same: "context_set r (run\<lparr>rn_files := f, rn_world := v\<rparr>)" for f v
    using ctx by (simp add: context_set_def)
  show "\<exists>x run1. handler_block env r st extracted p run = Some (x, run1) \<and> context_set r run1"
  proof (cases q)
    case (Inl e)
    with 1 same show ?thesis by (simp add: handler_block_def)
  next
    case (Inr vs)
    obtain v f1 w1 where "re_handler env (st_controller st) vs files w = (v, f1, w1)"
      by (metis prod_cases3)
    with 1 same Inr show ?thesis by (simp add: handler_block_def)
  qed
qed

lemma payload_buffering_returns: "returns_in (context_set r) (payload_buffering env r req)"
  by (auto simp: returns_in_def payload_buffering_def split: sum.split)

lemma answer_request_returns:
  fixes env :: "('v, 't, 'w) route_env" and st :: "('s, 'w, 'k) route_state"
  assumes "payload_errors (ro_args r) = []" and "length (filter (\<lambda>a. ea_extractor a = Multipart) (ro_args r)) \<le> 1"
    and "st_interceptors st \<noteq> [] \<longrightarrow> needs_request_context r"
  shows "returns_in (context_set r) (answer_request env r st extracted req)"
  unfolding answer_request_def
proof (rule returns_in_admit [OF payload_buffering_returns])
  fix p
  have chain: "returns_in (context_set r) (interceptor_chain (st_interceptors st) (handler_block env r st extracted p))"
    by (rule interceptor_chain_returns [OF assms(3) handler_block_returns [OF assms(1,2)]])
  show "returns_in (context_set r)
      (\<lambda>run. map_option (finish env req) (interceptor_chain (st_interceptors st) (handler_block env r st extracted p) run))"
    unfolding returns_in_def
  proof (intro allI impI)
    fix run :: "('s, 'w) run"
    assume "context_set r run"
    with chain obtain q run1 where 1: "interceptor_chain (st_interceptors st) (handler_block env r st extracted p) run = Some (q, run1)"
      "context_set r run1" unfolding returns_in_def by blast
    then show "\<exists>x run2. map_option (finish env req) (interceptor_chain (st_interceptors st) (handler_block env r st extracted p) run) =
        Some (x, run2) \<and> context_set r run2"
      by (cases q) (simp_all add: finish_def)
  qed
qed

lemma handle_request_returns:
  fixes env :: "('v, 't, 'w) route_env" and st :: "('s, 'w, 'k) route_state"
  assumes "payload_errors (ro_args r) = []" and "length (filter (\<lambda>a. ea_extractor a = Multipart) (ro_args r)) \<le> 1"
    and "st_interceptors st \<noteq> [] \<longrightarrow> needs_request_context r" and "st_guards st \<noteq> [] \<longrightarrow> needs_request_context r"
    and "\<And>sv. st_throttle st = Some sv \<Longrightarrow> \<forall>now key window s. sv_incr sv now key window s \<noteq> None"
  shows "handle_request env r st req run \<noteq> None"
proof (cases "re_extract env (wrapper_params (ro_args r)) req")
  case (Inl response)
  then show ?thesis by (simp add: handle_request_def)
next
  case extracted: (Inr extracted)
  let ?rest = "admit_then (route_throttle_check (re_to_vec env) r (st_throttle st)) (\<lambda>_.
     admit_then (guard_checks (re_to_vec env) req (st_guards st)) (\<lambda>_. answer_request env r st extracted req))"
  have rest: "returns_in (context_set r) ?rest"
    by (intro returns_in_admit route_throttle_returns guard_checks_return answer_request_returns assms)
  have "handle_request env r st req run = admit_then (request_context_setup (re_to_vec env) r req) (\<lambda>_. ?rest) run"
    by (simp add: handle_request_def checked_request_def extracted)
  also have "\<dots> \<noteq> None"
  proof (cases "needs_request_context r \<or> throttle_enabled r")
    case True
    show ?thesis
    proof (cases "collect_headers (hq_headers req) (\<lambda>_. None)")
      case (Inl e)
      with True show ?thesis by (simp add: admit_then_def request_context_setup_def)
    next
      case (Inr headers)
      have "context_set r (run\<lparr>rn_ctx := Some (request_context_of req headers)\<rparr>)" by (simp add: context_set_def)
      with rest have "?rest (run\<lparr>rn_ctx := Some (request_context_of req headers)\<rparr>) \<noteq> None"
        unfolding returns_in_def by blast
      with True Inr show ?thesis by (simp add: admit_then_def [of "request_context_setup (re_to_vec env) r req"] request_context_setup_def)
    qed
  next
    case False
    then have "context_set r (run\<lparr>rn_ctx := None\<rparr>)" by (simp add: context_set_def)
    with rest have "?rest (run\<lparr>rn_ctx := None\<rparr>) \<noteq> None" unfolding returns_in_def by blast
    with False show ?thesis by (simp add: admit_then_def [of "request_context_setup (re_to_vec env) r req"] request_context_setup_def)
  qed
  finally show ?thesis .
qed

lemma those_resolved: "(\<forall>x\<in>set xs. f x \<noteq> None) \<Longrightarrow> \<exists>ys. those (map f xs) = Some ys \<and> length ys = length xs"
  by (induction xs) auto

text \<open>C14: A controller the macro accepts and whose dependencies are registered: the state of each of its routes is
  built, a limit of its own finds the throttle service, and no request makes the generated code panic, as
  long as the route takes the form at most once and the throttle store does not panic.\<close>

theorem validated_routes_do_not_panic:
  assumes "ex = expand type_value base_path block" and "ex_macro_errors ex = []" and "r \<in> set (ex_routes ex)"
    and "\<forall>ty\<in>set (ex_dependencies ex). resolve_type c ids ty \<noteq> None" and "resolve_type c ids controller \<noteq> None"
    and "length (filter (\<lambda>a. ea_extractor a = Multipart) (ro_args r)) \<le> 1"
    and "\<forall>i now key window s. sv_incr (throttle_of i) now key window s \<noteq> None"
  shows "\<exists>st. route_state_new c ids throttle_of guard_of interceptor_of controller r = Some st \<and>
    (\<forall>limit window. ro_throttle r \<noteq> Some (Policy limit window) \<or> st_throttle st \<noteq> None) \<and>
    (\<forall>req run. handle_request env r st req run \<noteq> None)"
proof -
  from assms(1,3) expand_declared have declared: "route_declared ex r" by blast
  then have guards: "\<forall>ty\<in>set (ro_guards r). resolve_type c ids ty \<noteq> None"
    and interceptors: "\<forall>ty\<in>set (ro_interceptors r). resolve_type c ids ty \<noteq> None"
    using assms(4) by (auto simp: route_declared_def)
  from declared assms(2) have payload: "payload_errors (ro_args r) = []" by (simp add: route_declared_def)
  have throttle: "resolve_type c ids throttle_dependency \<noteq> None" if "ro_throttle r = Some (Policy limit window)" for limit window
    using that declared assms(4) by (simp add: route_declared_def)
  from those_resolved [OF guards] obtain gs where
    gs: "those (map (resolve_type c ids) (ro_guards r)) = Some gs" "length gs = length (ro_guards r)" by blast
  from those_resolved [OF interceptors] obtain ins where
    ins: "those (map (resolve_type c ids) (ro_interceptors r)) = Some ins" "length ins = length (ro_interceptors r)" by blast
  from assms(5) obtain k where k: "resolve_type c ids controller = Some k" by blast
  define st where "st = \<lparr>st_controller = k,
    st_throttle = (if throttle_enabled r then map_option throttle_of (resolve_type c ids throttle_dependency) else None),
    st_guards = map guard_of gs, st_interceptors = map interceptor_of ins\<rparr>"
  have st: "route_state_new c ids throttle_of guard_of interceptor_of controller r = Some st"
    by (simp add: route_state_new_def k gs(1) ins(1) st_def)
  have "handle_request env r st req run \<noteq> None" for req run
  proof (rule handle_request_returns [OF payload assms(6)])
    show "st_interceptors st \<noteq> [] \<longrightarrow> needs_request_context r"
      using ins(2) by (auto simp: st_def needs_request_context_def)
    show "st_guards st \<noteq> [] \<longrightarrow> needs_request_context r"
      using gs(2) by (auto simp: st_def needs_request_context_def)
    show "\<forall>now key window s. sv_incr sv now key window s \<noteq> None" if "st_throttle st = Some sv" for sv
    proof -
      from that obtain i where "sv = throttle_of i" by (auto simp: st_def split: if_splits)
      with assms(7) show ?thesis by simp
    qed
  qed
  moreover have "st_throttle st \<noteq> None" if "ro_throttle r = Some (Policy limit window)" for limit window
    using throttle [OF that] that by (simp add: st_def throttle_enabled_def)
  ultimately show ?thesis using st by blast
qed

section \<open>Witnesses\<close>

definition demo_attribute :: "str \<Rightarrow> attribute" where
  "demo_attribute name =
     \<lparr>at_path = [name], at_meta = AttrList (Some [MetaNameValue [''limit''] (IntLit 10), MetaNameValue [''window_seconds''] (IntLit 60)]),
      at_types = Some [PathType [(''AuthGuard'', None)]], at_literal = Some ''/list'', at_expr = None\<rparr>"

definition demo_handler_method :: impl_method where
  "demo_handler_method =
     \<lparr>im_name = ''list'', im_async = True, im_inputs = [Receiver ByReference], im_output = None,
      im_attrs = [demo_attribute ''get'', demo_attribute ''throttle'']\<rparr>"

definition demo_block :: controller_block where
  "demo_block = \<lparr>cb_type = ''Users'', cb_attrs = [demo_attribute ''use_guard''], cb_methods = [demo_handler_method]\<rparr>"

definition demo_expansion :: expansion where
  "demo_expansion = expand (\<lambda>_. Inl SynError) ''/users'' demo_block"

lemma demo_parse_throttle: "parse_throttle (demo_attribute ''throttle'') = Inr (Policy 10 60)"
  by (simp add: parse_throttle_def require_args_def demo_attribute_def is_ident_def throttle_integer_def)

lemma demo_settings:
  "controller_settings_of demo_block = no_settings\<lparr>cs_guards := [PathType [(''AuthGuard'', None)]]\<rparr>"
  by (simp add: controller_settings_of_def demo_block_def controller_attribute_def throttle_doc_marker_def demo_attribute_def
      is_ident_def add_guards_def parse_type_list_def no_settings_def)

lemma demo_method:
  "method_settings_of (\<lambda>_. Inl SynError) demo_handler_method =
     \<lparr>mt_settings = no_settings\<lparr>cs_throttle := Some (Policy 10 60)\<rparr>, mt_route = Some (''get'', ''/list''),
      mt_upload_limit = None, mt_headers = [], mt_response = None, mt_errors = [], mt_security = []\<rparr>"
proof -
  have verbs: "List.find (is_ident (at_path (demo_attribute ''get''))) route_verbs = Some ''get''"
    "List.find (is_ident (at_path (demo_attribute ''throttle''))) route_verbs = None"
    by (simp_all add: demo_attribute_def is_ident_def route_verbs_def)
  have literal: "at_literal (demo_attribute ''get'') = Some ''/list''" by (simp add: demo_attribute_def)
  have names: "\<not> is_ident (at_path (demo_attribute ''throttle'')) ''use_guard''"
    "\<not> is_ident (at_path (demo_attribute ''throttle'')) ''use_interceptor''"
    "\<not> is_ident (at_path (demo_attribute ''throttle'')) ''upload''"
    "attr_named (demo_attribute ''throttle'') ''throttle''"
    by (simp_all add: demo_attribute_def is_ident_def attr_named_def)
  show ?thesis
    by (simp add: method_settings_of_def demo_handler_method_def method_attribute_def verbs literal names expected_def
        or_note_def on_settings_def add_throttle_def demo_parse_throttle no_settings_def)
qed

lemma demo_expansion_facts:
  "\<exists>r. ex_routes demo_expansion = [r] \<and> ro_guards r = [PathType [(''AuthGuard'', None)]] \<and> ro_interceptors r = [] \<and>
     ro_throttle r = Some (Policy 10 60) \<and> ro_args r = []"
  "ex_macro_errors demo_expansion = []"
proof -
  have invalid: "invalid_validators demo_block = []"
    by (simp add: invalid_validators_def demo_block_def demo_handler_method_def map_filter_def)
  have methods: "cb_methods demo_block = [demo_handler_method]" by (simp add: demo_block_def)
  have args: "extractors_of {} demo_handler_method = ([], [])"
    by (simp add: extractors_of_def demo_handler_method_def map_filter_def)
  show "\<exists>r. ex_routes demo_expansion = [r] \<and> ro_guards r = [PathType [(''AuthGuard'', None)]] \<and> ro_interceptors r = [] \<and>
     ro_throttle r = Some (Policy 10 60) \<and> ro_args r = []"
    "ex_macro_errors demo_expansion = []"
    by (simp_all add: demo_expansion_def expand_def invalid demo_settings methods expand_method_def demo_method args
        no_settings_def payload_errors_def Let_def)
qed

definition demo_ids :: "rust_type \<Rightarrow> type_id \<times> str" where
  "demo_ids ty = (if ty = throttle_dependency then (1, ''Throttle'') else (2, ''other''))"

definition demo_container :: container where
  "demo_container = register_instance 1 0 (register_instance 2 0 Container_new)"

lemma demo_resolves: "resolve_type demo_container demo_ids ty = Some 0"
  by (simp add: resolve_type_def demo_ids_def demo_container_def register_instance_def Container_new_def resolve_def)

definition demo_throttle :: "unit throttle_service" where
  "demo_throttle =
     \<lparr>sv_options = ThrottleOptions_default, sv_incr = (\<lambda>now key window s. Some (Inr \<lparr>tr_count = 1, tr_retry_after = window\<rparr>, s)),
      sv_track = (\<lambda>_. Inr ''client''), sv_clock_max = u64_max, sv_clocks = (0, 0)\<rparr>"

definition demo_env :: "nat \<Rightarrow> (str, nat, unit) route_env" where
  "demo_env status =
     \<lparr>re_extract = (\<lambda>_ _. Inr (\<lambda>_. [])), re_payload = demo_payload_lib, re_arguments = demo_argument_lib,
      re_handler = (\<lambda>_ _ files w. (Inr status, files, w)), re_into = (\<lambda>n. HttpResponse_new n [] ''text/plain''),
      re_to_vec = (\<lambda>b. Some (eb_message b)), re_buffer = (\<lambda>_ _. Inr []), re_limit = (\<lambda>_. 0)\<rparr>"

definition demo_guard :: "bool \<Rightarrow> unit guard" where
  "demo_guard allowed = (\<lambda>ctx w. (Inr allowed, rc_extensions ctx, w))"

definition demo_interceptor :: "(unit, unit) interceptor" where
  "demo_interceptor =
     \<lparr>it_before = (\<lambda>ctx w. (Inr (), rc_extensions ctx, w)), it_after = (\<lambda>k r ctx w. (r, rc_extensions ctx, w))\<rparr>"

definition demo_route_state :: "(unit, unit, unit) route_state" where
  "demo_route_state =
     \<lparr>st_controller = 0, st_throttle = Some demo_throttle, st_guards = [demo_guard True], st_interceptors = [demo_interceptor]\<rparr>"

definition demo_request :: http_request where
  "demo_request =
     \<lparr>hq_method = ''GET'', hq_path = ''/users/list'', hq_headers = [], hq_peer = None, hq_content_type = None,
      hq_chunks = [], hq_config = \<lparr>uc_temp_dir = ''/tmp''\<rparr>, hq_body_limit = 100\<rparr>"

definition demo_run :: "(unit, unit) run" where
  "demo_run = \<lparr>rn_ctx = None, rn_store = (), rn_files = (\<lambda>_. None), rn_world = (), rn_log = []\<rparr>"

theorem validated_routes_do_not_panic_witness:
  "\<exists>r st. ex_routes demo_expansion = [r] \<and> ro_throttle r = Some (Policy 10 60) \<and>
     route_state_new demo_container demo_ids (\<lambda>_. demo_throttle) (\<lambda>_. demo_guard True) (\<lambda>_. demo_interceptor)
       (PathType [(''Users'', None)]) r = Some st \<and>
     st_throttle st \<noteq> None \<and> handle_request (demo_env 200) r st demo_request demo_run \<noteq> None"
proof -
  obtain r where r: "ex_routes demo_expansion = [r]" "ro_throttle r = Some (Policy 10 60)" "ro_args r = []"
    using demo_expansion_facts(1) by blast
  have "\<exists>st. route_state_new demo_container demo_ids (\<lambda>_. demo_throttle) (\<lambda>_. demo_guard True) (\<lambda>_. demo_interceptor)
        (PathType [(''Users'', None)]) r = Some st \<and>
      (\<forall>limit window. ro_throttle r \<noteq> Some (Policy limit window) \<or> st_throttle st \<noteq> None) \<and>
      (\<forall>req run. handle_request (demo_env 200) r st req run \<noteq> None)"
    by (rule validated_routes_do_not_panic [OF demo_expansion_def demo_expansion_facts(2)])
      (simp_all add: r demo_resolves demo_throttle_def)
  with r show ?thesis by blast
qed

lemma demo_answer:
  assumes "ro_guards r = [PathType [(''AuthGuard'', None)]]" "ro_throttle r = Some (Policy 10 60)" "ro_args r = []"
  shows "map_option (hr_status \<circ> fst) (handle_request (demo_env n) r demo_route_state demo_request demo_run) = Some n"
proof -
  let ?run = "demo_run\<lparr>rn_ctx := Some (request_context_of demo_request (\<lambda>_. None))\<rparr>"
  have entry: "request_context_setup to_vec r demo_request demo_run = Some (Inr (), ?run)" for to_vec
    using assms by (simp add: request_context_setup_def needs_request_context_def demo_request_def)
  have throttle: "route_throttle_check to_vec r (Some demo_throttle) ?run = Some (Inr (), ?run)" for to_vec
    using assms
    by (simp add: route_throttle_check_def throttle_enabled_def route_policy_def throttle_check_def demo_throttle_def
        validate_policy_def ThrottlePolicy_new_def checked_add_instant_def demo_run_def)
  have same: "with_context f ?run = Some (x, ?run)"
    if "f (request_context_of demo_request (\<lambda>_. None)) () = (x, rc_extensions (request_context_of demo_request (\<lambda>_. None)), ())"
    for f :: "(unit, 'a) on_request" and x
    using that by (simp add: with_context_def)
  have guard: "guard_checks to_vec demo_request [demo_guard True] ?run = Some (Inr (), ?run)" for to_vec
    using same [of "demo_guard True"] by (simp add: demo_guard_def)
  have block: "handler_block (demo_env n) r demo_route_state x p ?run = Some (Inr (HttpResponse_new n [] ''text/plain''), ?run)" for x p
    using assms by (simp add: handler_block_def prepare_def has_payload_def demo_env_def demo_run_def)
  have chain: "interceptor_chain [demo_interceptor] (handler_block (demo_env n) r demo_route_state x p) ?run =
      Some (Inr (HttpResponse_new n [] ''text/plain''), ?run)" for x p
    using same [of "it_before demo_interceptor"] same [of "it_after demo_interceptor k q" for k q]
    by (simp add: intercept_def block demo_interceptor_def)
  have params: "re_extract (demo_env n) xs demo_request = Inr (\<lambda>_. [])" for xs
    by (simp add: demo_env_def)
  have state: "st_throttle demo_route_state = Some demo_throttle" "st_guards demo_route_state = [demo_guard True]"
    "st_interceptors demo_route_state = [demo_interceptor]"
    by (simp_all add: demo_route_state_def)
  have answer: "map_option (hr_status \<circ> fst) (answer_request (demo_env n) r demo_route_state (\<lambda>_. []) demo_request ?run) = Some n"
    using assms
    by (simp add: answer_request_def admit_then_def payload_buffering_def has_payload_def state chain finish_def
        HttpResponse_new_def del: interceptor_chain_simps)
  have "handle_request (demo_env n) r demo_route_state demo_request demo_run =
      answer_request (demo_env n) r demo_route_state (\<lambda>_. []) demo_request ?run"
    by (simp add: handle_request_def params checked_request_def state entry throttle guard admit_then_def del: guard_checks.simps)
  with answer show ?thesis by simp
qed

theorem handler_reached_only_through_guards_witness:
  "\<exists>r extracted run1 run2 run3. ex_routes demo_expansion = [r] \<and>
     re_extract (demo_env 200) (wrapper_params (ro_args r)) demo_request = Inr extracted \<and>
     (if needs_request_context r \<or> throttle_enabled r
      then \<exists>headers. collect_headers (hq_headers demo_request) (\<lambda>_. None) = Inr headers \<and>
        run1 = demo_run\<lparr>rn_ctx := Some (request_context_of demo_request headers)\<rparr>
      else run1 = demo_run\<lparr>rn_ctx := None\<rparr>) \<and>
     route_throttle_check (re_to_vec (demo_env 200)) r (st_throttle demo_route_state) run1 = Some (Inr (), run2) \<and>
     guards_pass (st_guards demo_route_state) run2 run3"
proof -
  obtain r where r: "ex_routes demo_expansion = [r]" "ro_guards r = [PathType [(''AuthGuard'', None)]]"
    "ro_throttle r = Some (Policy 10 60)" "ro_args r = []"
    using demo_expansion_facts(1) by blast
  have differ: "handle_request (demo_env 200) r demo_route_state demo_request demo_run \<noteq>
      handle_request (demo_env 404) r demo_route_state demo_request demo_run"
    using demo_answer [OF r(2-4), of 200] demo_answer [OF r(2-4), of 404] by auto
  have same: "re_extract (demo_env 200) = re_extract (demo_env 404)" "re_to_vec (demo_env 200) = re_to_vec (demo_env 404)"
    by (simp_all add: demo_env_def)
  from handler_reached_only_through_guards [OF same refl refl differ] r(1) show ?thesis by blast
qed

end
