(* ===== verification/RouteDocs.thy ===== *)
theory RouteDocs
  imports RoutePipeline OpenApi Startup
begin

text \<open>
  The OpenAPI operation that the controller macro generates for a route
  (\<open>crates/caelix-macros/src/controller.rs\<close>): its parameters, request body and responses, built with the
  functions of \<open>crates/caelix-core/src/openapi.rs\<close>, and how it agrees with what the route does. Schemas of
  types and what the macro takes from types and expressions are arguments.
\<close>

section \<open>The libraries\<close>

text \<open>
  \<open>dl_schemas\<close> lists the schemas that a reference to a type adds, \<open>dl_error\<close> gives the status and description
  of an error type; the two envelopes are the types of error bodies.
\<close>

record ('schema, 'request) docs_lib =
  dl_inline :: "rust_type \<Rightarrow> 'schema"
  dl_untyped :: 'schema
  dl_schemas :: "rust_type \<Rightarrow> (str \<times> 'schema) list"
  dl_ref :: "rust_type \<Rightarrow> 'schema"
  dl_error :: "rust_type \<Rightarrow> nat \<times> str"
  dl_envelope :: rust_type
  dl_validation_envelope :: rust_type
  dl_security :: "expr \<Rightarrow> security"
  dl_none_required :: 'request
  dl_add :: "'request \<Rightarrow> str \<Rightarrow> str list \<Rightarrow> 'request"

definition schema_ref ::
    "('schema, 'request) docs_lib \<Rightarrow> rust_type \<Rightarrow> ('entry, 'schema, 'scheme) openapi \<Rightarrow>
     'schema \<times> ('entry, 'schema, 'scheme) openapi" where
  "schema_ref lib ty doc = (dl_ref lib ty, add_schema (dl_schemas lib ty) doc)"

record 'schema documented_response =
  dr_response :: "'schema api_response"
  dr_headers :: "str \<Rightarrow> ('schema \<times> str option) option"

record 'schema route_operation =
  dp_id :: "str option"
  dp_summary :: "str option"
  dp_parameters :: "'schema api_parameter list option"
  dp_body :: "'schema upload_schema body_spec option"
  dp_responses :: "str \<Rightarrow> 'schema documented_response option"

definition no_headers :: "'schema api_response \<Rightarrow> 'schema documented_response" where
  "no_headers r = \<lparr>dr_response = r, dr_headers = (\<lambda>_. None)\<rparr>"

section \<open>Parameters\<close>

text \<open>Types are documented only for routes that opt in with an attribute.\<close>

definition typed_openapi :: "route \<Rightarrow> bool" where
  "typed_openapi r \<longleftrightarrow>
     mt_response (ro_method r) \<noteq> None \<or> mt_headers (ro_method r) \<noteq> [] \<or> mt_errors (ro_method r) \<noteq> [] \<or>
     mt_security (ro_method r) \<noteq> []"

definition string_type :: rust_type where
  "string_type = PathType [(''String'', None)]"

definition extractor_parameter ::
    "('schema, 'request) docs_lib \<Rightarrow> bool \<Rightarrow> extractor_arg \<Rightarrow> 'schema api_parameter option" where
  "extractor_parameter lib is_typed a =
     (let schema = (if is_typed then dl_inline lib (ea_type a) else dl_untyped lib)
      in (case ea_extractor a of
            Param \<Rightarrow> Some (parameter (ea_name a) InPath True None schema)
          | Query \<Rightarrow> Some (parameter (ea_name a) InQuery False None schema)
          | Cookie name \<Rightarrow>
              Some (parameter name InCookie (\<not> is_option_of (ea_type a) ''String'') None (dl_inline lib string_type))
          | _ \<Rightarrow> None))"

definition header_parameter :: "('schema, 'request) docs_lib \<Rightarrow> header_spec \<Rightarrow> 'schema api_parameter" where
  "header_parameter lib h = parameter (hs_name h) InHeader (hs_required h) (hs_description h) (dl_inline lib (hs_schema h))"

definition push_parameter :: "'schema api_parameter \<Rightarrow> 'schema api_parameter list option \<Rightarrow> 'schema api_parameter list option" where
  "push_parameter p params = Some ((case params of None \<Rightarrow> [] | Some ps \<Rightarrow> ps) @ [p])"

definition operation_parameters :: "('schema, 'request) docs_lib \<Rightarrow> route \<Rightarrow> 'schema api_parameter list option" where
  "operation_parameters lib r =
     fold push_parameter (map (header_parameter lib) (mt_headers (ro_method r)))
       (fold push_parameter (List.map_filter (extractor_parameter lib (typed_openapi r)) (ro_args r)) None)"

section \<open>Request bodies\<close>

definition multipart_field :: "extractor_arg \<Rightarrow> upload_field option" where
  "multipart_field a =
     (case ea_extractor a of
        File \<Rightarrow>
          Some \<lparr>uf_name = us_name (the (ea_upload a)), uf_repeated = False,
                uf_required = \<not> is_option_uploaded_file (ea_type a),
                uf_max_size = us_max_size (the (ea_upload a)), uf_content_types = us_content_types (the (ea_upload a))\<rparr>
      | Files \<Rightarrow>
          Some \<lparr>uf_name = us_name (the (ea_upload a)), uf_repeated = True, uf_required = True,
                uf_max_size = us_max_size (the (ea_upload a)), uf_content_types = us_content_types (the (ea_upload a))\<rparr>
      | _ \<Rightarrow> None)"

definition all_files_optional :: "extractor_arg list \<Rightarrow> bool" where
  "all_files_optional args =
     list_all (\<lambda>a. ea_extractor a = File \<and> is_option_uploaded_file (ea_type a))
       (filter (\<lambda>a. ea_extractor a = File \<or> ea_extractor a = Files) args)"

definition json_and_multipart :: "'schema \<Rightarrow> 'schema \<Rightarrow> upload_field list \<Rightarrow> 'schema upload_schema body_spec" where
  "json_and_multipart json multipart files =
     (let request = request_body (Given json)
      in request\<lparr>rb_content := rb_content request @ rb_content (multipart_request_body (Some multipart) files)\<rparr>)"

definition operation_body ::
    "('schema, 'request) docs_lib \<Rightarrow> route \<Rightarrow> ('entry, 'schema, 'scheme) openapi \<Rightarrow>
     'schema upload_schema body_spec option \<times> ('entry, 'schema, 'scheme) openapi" where
  "operation_body lib r doc =
     (let args = ro_args r; files = List.map_filter multipart_field args;
          body = map_option ea_type (List.find (\<lambda>a. ea_extractor a = Body) args)
      in if list_ex (\<lambda>a. ea_extractor a = Multipart) args then (Some (multipart_request_body None []), doc)
         else
           (case body of
              None \<Rightarrow> (if files \<noteq> [] then Some (multipart_request_body None files) else None, doc)
            | Some ty \<Rightarrow>
                if \<not> typed_openapi r then
                  (Some (if files \<noteq> [] then multipart_request_body (Some (dl_untyped lib)) files
                         else json_and_multipart (dl_untyped lib) (dl_untyped lib) []), doc)
                else if files \<noteq> [] \<and> \<not> all_files_optional args then
                  (let (s, doc1) = schema_ref lib ty doc in (Some (multipart_request_body (Some s) files), doc1))
                else
                  (let (s, doc1) = schema_ref lib ty doc; (s', doc2) = schema_ref lib ty doc1
                   in (Some (json_and_multipart s s' files), doc2))))"

section \<open>Responses\<close>

definition success_spec :: "route \<Rightarrow> response_spec" where
  "success_spec r =
     (case mt_response (ro_method r) of
        Some spec \<Rightarrow> spec
      | None \<Rightarrow> \<lparr>rs_status = None, rs_body = inferred_response_type (ro_output r), rs_content_type = None, rs_headers = []\<rparr>)"

definition success_status :: "route \<Rightarrow> str" where
  "success_status r = (case rs_status (success_spec r) of None \<Rightarrow> ''200'' | Some status \<Rightarrow> status)"

definition success_response ::
    "('schema, 'request) docs_lib \<Rightarrow> route \<Rightarrow> ('entry, 'schema, 'scheme) openapi \<Rightarrow>
     'schema documented_response \<times> ('entry, 'schema, 'scheme) openapi" where
  "success_response lib r doc =
     (let spec = success_spec r;
          content_type = (case rs_content_type spec of None \<Rightarrow> ''application/json'' | Some t \<Rightarrow> t);
          (schema, doc1) = (case rs_body spec of
             None \<Rightarrow> (None, doc)
           | Some ty \<Rightarrow>
               if typed_openapi r then (case schema_ref lib ty doc of (s, doc1) \<Rightarrow> (Some s, doc1))
               else (Some (dl_untyped lib), doc))
      in (\<lparr>dr_response = OpenApi.response (Some content_type) schema,
           dr_headers = fold (\<lambda>h m. m(rh_name h \<mapsto> (dl_inline lib (rh_schema h), rh_description h))) (rs_headers spec) (\<lambda>_. None)\<rparr>,
          doc1))"

type_synonym 'schema responses = "str \<Rightarrow> 'schema documented_response option"

definition insert_response ::
    "(str \<times> 'schema api_response) \<times> ('entry, 'schema, 'scheme) openapi \<Rightarrow> 'schema responses \<Rightarrow>
     'schema responses \<times> ('entry, 'schema, 'scheme) openapi" where
  "insert_response made rs = (case made of ((status, r), doc) \<Rightarrow> (rs(status \<mapsto> no_headers r), doc))"

definition add_error ::
    "('schema, 'request) docs_lib \<Rightarrow> nat \<times> str \<Rightarrow> 'schema responses \<times> ('entry, 'schema, 'scheme) openapi \<Rightarrow>
     'schema responses \<times> ('entry, 'schema, 'scheme) openapi" where
  "add_error lib e st =
     insert_response (error_response (dl_schemas lib (dl_envelope lib)) (dl_ref lib (dl_envelope lib)) (fst e) (snd e) (snd st))
       (fst st)"

definition documented_throttle :: "route \<Rightarrow> bool \<Rightarrow> bool" where
  "documented_throttle r global_throttle =
     (case ro_throttle r of Some (Policy limit window) \<Rightarrow> True | Some Skip \<Rightarrow> False | None \<Rightarrow> global_throttle)"

definition operation_responses ::
    "('schema, 'request) docs_lib \<Rightarrow> route \<Rightarrow> bool \<Rightarrow> ('entry, 'schema, 'scheme) openapi \<Rightarrow>
     'schema responses \<times> ('entry, 'schema, 'scheme) openapi" where
  "operation_responses lib r global_throttle doc =
     (let (success, doc1) = success_response lib r doc;
          st = ([success_status r \<mapsto> success], doc1);
          st = fold (\<lambda>ty. add_error lib (dl_error lib ty)) (mt_errors (ro_method r)) st;
          st = (if list_ex ea_validate (ro_args r)
                then insert_response (validation_error_response (dl_schemas lib (dl_validation_envelope lib))
                       (dl_ref lib (dl_validation_envelope lib)) (snd st)) (fst st)
                else st)
      in if documented_throttle r global_throttle
         then add_error lib (documented_status ExTooManyRequests, ''Error response'') st else st)"

section \<open>The operation\<close>

definition route_operation_of ::
    "('schema, 'request) docs_lib \<Rightarrow> route \<Rightarrow> bool \<Rightarrow> ('entry, 'schema, 'scheme) openapi \<Rightarrow>
     ('request, 'schema route_operation) operation \<times> ('entry, 'schema, 'scheme) openapi" where
  "route_operation_of lib r global_throttle doc =
     (let (body, doc1) = operation_body lib r doc;
          (responses, doc2) = operation_responses lib r global_throttle doc1
      in (apply_security (dl_none_required lib) (dl_add lib) (map (dl_security lib) (mt_security (ro_method r)))
            \<lparr>op_security = None,
             op_rest = \<lparr>dp_id = Some (ro_handler r), dp_summary = ro_summary r,
                        dp_parameters = operation_parameters lib r, dp_body = body, dp_responses = responses\<rparr>\<rparr>,
          doc2))"

definition document_route ::
    "('schema, 'request) docs_lib \<Rightarrow>
     (str \<Rightarrow> http_method list \<Rightarrow> ('request, 'schema route_operation) operation \<Rightarrow> (str \<times> 'entry) list \<Rightarrow> (str \<times> 'entry) list) \<Rightarrow>
     route \<Rightarrow> bool \<Rightarrow> ('entry, 'schema, 'scheme) openapi \<Rightarrow> ('entry, 'schema, 'scheme) openapi" where
  "document_route lib add_path_operation r global_throttle doc =
     (case route_operation_of lib r global_throttle doc of
        (op, doc1) \<Rightarrow> document_operation add_path_operation (ro_verb r) (ro_full_path r) op doc1)"

section \<open>Lemmas\<close>

lemma push_parameters:
  "fold push_parameter ps params =
     (if ps = [] then params else Some ((case params of None \<Rightarrow> [] | Some qs \<Rightarrow> qs) @ ps))"
  by (induction ps arbitrary: params) (auto simp: push_parameter_def)

lemma apply_security_rest: "op_rest (apply_security none_required add securities op) = op_rest op"
  by (simp add: apply_security_def)

lemma add_errors_responses:
  "dom (fst (fold (\<lambda>ty. add_error lib (dl_error lib ty)) tys st)) =
     dom (fst st) \<union> (\<lambda>ty. show_nat (fst (dl_error lib ty))) ` set tys"
proof (induction tys arbitrary: st)
  case (Cons ty tys)
  show ?case
    by (simp add: Cons.IH) (auto simp: add_error_def insert_response_def error_response_def)
qed simp

text \<open>The statuses of a documented route.\<close>

lemma operation_responses_dom:
  "dom (fst (operation_responses lib r global_throttle doc)) =
     {success_status r} \<union> (\<lambda>ty. show_nat (fst (dl_error lib ty))) ` set (mt_errors (ro_method r)) \<union>
     (if list_ex ea_validate (ro_args r) then {show_nat 400} else {}) \<union>
     (if documented_throttle r global_throttle then {show_nat 429} else {})"
proof -
  obtain success doc1 where s: "success_response lib r doc = (success, doc1)" by (cases "success_response lib r doc")
  define st where "st = fold (\<lambda>ty. add_error lib (dl_error lib ty)) (mt_errors (ro_method r)) ([success_status r \<mapsto> success], doc1)"
  have st: "dom (fst st) = {success_status r} \<union> (\<lambda>ty. show_nat (fst (dl_error lib ty))) ` set (mt_errors (ro_method r))"
    by (simp add: st_def add_errors_responses)
  show ?thesis
    using st
    by (auto simp: operation_responses_def s Let_def st_def [symmetric] add_error_def insert_response_def error_response_def
        validation_error_response_def simp del: show_nat.simps)
qed

lemma documented_throttle_iff:
  assumes "ro_throttle r = None \<Longrightarrow> global_throttle \<longleftrightarrow> service \<noteq> None"
  shows "documented_throttle r global_throttle \<longleftrightarrow> route_policy r service \<noteq> None"
  using assms by (auto simp: documented_throttle_def route_policy_def split: option.splits throttle_annotation.splits)

text \<open>The lookup of the documentation finds a type if a module lists it among its providers.\<close>

lemma registers_provider_declared:
  assumes d: "discover_from prog root = Some (Inr g)"
    and slot: "\<forall>x\<in>set (definitions g). type_of g x = ty \<longrightarrow> (\<exists>i. rg_slot x = SlotProvider i)"
  shows "module_registers_provider prog root ty = Some (ty \<in> declared_types g)"
proof -
  have "(\<exists>node\<in>set g. \<exists>pd\<in>set (md_providers (mn_metadata node)). pd_type pd = ty) \<longleftrightarrow> ty \<in> declared_types g"
  proof
    assume "\<exists>node\<in>set g. \<exists>pd\<in>set (md_providers (mn_metadata node)). pd_type pd = ty"
    then obtain m i where m: "m < length g" "i < length (md_providers (mn_metadata (g ! m)))"
      "pd_type (md_providers (mn_metadata (g ! m)) ! i) = ty"
      by (metis in_set_conv_nth)
    let ?x = "\<lparr>rg_module = m, rg_slot = SlotProvider i\<rparr>"
    have "(m, g ! m) \<in> set (enumerate 0 g)" using m(1) by (simp add: in_set_enumerate_eq)
    moreover have "?x \<in> set (node_registrations (m, g ! m))" using m(2) by simp
    ultimately have "?x \<in> set (definitions g)" unfolding definitions_def by (auto simp del: node_registrations.simps)
    moreover have "type_of g ?x = ty" using m(3) by (simp add: def_of_def)
    ultimately show "ty \<in> declared_types g" unfolding declared_types_def by blast
  next
    assume "ty \<in> declared_types g"
    then obtain x where x: "x \<in> set (definitions g)" "type_of g x = ty" unfolding declared_types_def by blast
    with slot obtain i where i: "rg_slot x = SlotProvider i" by blast
    from x(1) obtain m where "m < length g" "x \<in> set (node_registrations (m, g ! m))"
      unfolding definitions_def by (auto simp: in_set_enumerate_eq simp del: node_registrations.simps)
    with i have "rg_module x = m" "i < length (md_providers (mn_metadata (g ! m)))" by auto
    with x(2) i \<open>m < length g\<close> show "\<exists>node\<in>set g. \<exists>pd\<in>set (md_providers (mn_metadata node)). pd_type pd = ty"
      by (auto simp: def_of_def Let_def intro!: bexI [of _ "g ! m"] bexI [of _ "md_providers (mn_metadata (g ! m)) ! i"])
  qed
  then show ?thesis by (simp add: module_registers_provider_def d list_ex_iff)
qed

section \<open>The document and the route\<close>

text \<open>C16: In an application that was built, a route documents status 429 exactly when its own attributes name
  the status, as its success status or as one of its errors, or when its handler applies a limit: one of its
  own, or that of the throttle service that the modules register. The documentation looks the service up in the
  module graph and the handler in the container. A handler without a limit lets every request through
  unseen.\<close>

theorem throttling_documented:
  assumes "build_container_with_overrides prog root ovs = Some (Inr c, h)" and "keyed ovs"
    and "typed c" and "dependency_scope c = None"
    and "fst (ids throttle_dependency) \<noteq> logger_type"
    and "\<forall>g. discover_from prog root = Some (Inr g) \<longrightarrow>
      (\<forall>x\<in>set (definitions g). type_of g x = fst (ids throttle_dependency) \<longrightarrow> (\<exists>i. rg_slot x = SlotProvider i))"
    and "module_registers_provider prog root (fst (ids throttle_dependency)) = Some global_throttle"
    and "route_state_new c ids throttle_of guard_of interceptor_of controller r = Some st"
  shows "(dp_responses (op_rest (fst (route_operation_of lib r global_throttle doc))) (show_nat 429) \<noteq> None) =
      (success_status r = show_nat 429 \<or>
       (\<exists>ty\<in>set (mt_errors (ro_method r)). show_nat (fst (dl_error lib ty)) = show_nat 429) \<or>
       route_policy r (st_throttle st) \<noteq> None) \<and>
    (route_policy r (st_throttle st) \<noteq> None \<or>
     route_throttle_check to_vec r (st_throttle st) run = Some (Inr (), run))"
proof
  let ?ty = "fst (ids throttle_dependency)"
  from build_container_Inr [OF assms(1,2)] obtain g out out' c1 where
    d: "discover_from prog root = Some (Inr g)" and "built g ovs out out' c h" by metis
  then have dom: "dom (services c) = insert logger_type (declared_types g)" by (simp add: built_def)
  have flag: "global_throttle \<longleftrightarrow> ?ty \<in> declared_types g"
    using registers_provider_declared [OF d] assms(6,7) d by auto
  have "resolve_type c ids throttle_dependency \<noteq> None \<longleftrightarrow> services c ?ty \<noteq> None"
    using assms(3,4) by (auto simp: resolve_type_def resolve_def typed_def split: option.splits)
  also have "\<dots> \<longleftrightarrow> ?ty \<in> declared_types g" using dom assms(5) by auto
  finally have "ro_throttle r = None \<Longrightarrow> global_throttle \<longleftrightarrow> st_throttle st \<noteq> None"
    using assms(8) flag by (auto simp: route_state_new_def throttle_enabled_def split: option.splits)
  then have limits: "documented_throttle r global_throttle \<longleftrightarrow> route_policy r (st_throttle st) \<noteq> None"
    by (rule documented_throttle_iff)
  have other: "show_nat 400 \<noteq> show_nat 429" by code_simp
  obtain body doc1 where b: "operation_body lib r doc = (body, doc1)" by (cases "operation_body lib r doc")
  have responses: "dp_responses (op_rest (fst (route_operation_of lib r global_throttle doc))) =
      fst (operation_responses lib r global_throttle doc1)"
    by (simp add: route_operation_of_def b apply_security_rest split: prod.split)
  have "show_nat 429 \<in> dom (fst (operation_responses lib r global_throttle doc1)) \<longleftrightarrow>
      success_status r = show_nat 429 \<or>
       (\<exists>ty\<in>set (mt_errors (ro_method r)). show_nat (fst (dl_error lib ty)) = show_nat 429) \<or>
      documented_throttle r global_throttle"
    using other unfolding operation_responses_dom
    by (auto simp: image_iff eq_commute [of "show_nat 429"] simp del: show_nat.simps)
  then show "(dp_responses (op_rest (fst (route_operation_of lib r global_throttle doc))) (show_nat 429) \<noteq> None) =
      (success_status r = show_nat 429 \<or>
       (\<exists>ty\<in>set (mt_errors (ro_method r)). show_nat (fst (dl_error lib ty)) = show_nat 429) \<or>
       route_policy r (st_throttle st) \<noteq> None)"
    unfolding responses limits by (simp add: dom_def del: show_nat.simps)
  show "route_policy r (st_throttle st) \<noteq> None \<or> route_throttle_check to_vec r (st_throttle st) run = Some (Inr (), run)"
    by (cases "route_policy r (st_throttle st)") (simp_all add: route_throttle_check_def)
qed

section \<open>Witness\<close>

definition demo_docs_lib :: "(str, unit) docs_lib" where
  "demo_docs_lib =
     \<lparr>dl_inline = (\<lambda>_. ''''), dl_untyped = ''object'', dl_schemas = (\<lambda>_. []), dl_ref = (\<lambda>_. ''ref''), dl_error = (\<lambda>_. (500, '''')),
      dl_envelope = string_type, dl_validation_envelope = string_type, dl_security = (\<lambda>_. SecBearerAuth),
      dl_none_required = (), dl_add = (\<lambda>r _ _. r)\<rparr>"

lemma demo_method_settings:
  "\<exists>r. ex_routes demo_expansion = [r] \<and> ro_throttle r = Some (Policy 10 60) \<and> mt_response (ro_method r) = None \<and>
     mt_errors (ro_method r) = []"
proof -
  have invalid: "invalid_validators demo_block = []"
    by (simp add: invalid_validators_def demo_block_def demo_handler_method_def map_filter_def)
  have methods: "cb_methods demo_block = [demo_handler_method]" by (simp add: demo_block_def)
  have args: "extractors_of {} demo_handler_method = ([], [])"
    by (simp add: extractors_of_def demo_handler_method_def map_filter_def)
  show ?thesis
    by (simp add: demo_expansion_def expand_def invalid demo_settings methods expand_method_def demo_method args
        no_settings_def payload_errors_def Let_def)
qed

text \<open>The application of the preflight section, with its second provider as the throttle service.\<close>

definition shop_ids :: "rust_type \<Rightarrow> type_id \<times> str" where
  "shop_ids ty = (if ty = throttle_dependency then (11, ''Throttle'') else (10, ''other''))"

lemma shop_registers: "module_registers_provider shop_program App (fst (shop_ids throttle_dependency)) = Some True"
  by (simp add: module_registers_provider_def shop_discovered shop_ids_def shop_graph_def shop_metadata plain_provider_def)

theorem throttling_documented_witness:
  "\<exists>r c h st. ex_routes demo_expansion = [r] \<and> build_container shop_program App = Some (Inr c, h) \<and>
     route_state_new c shop_ids (\<lambda>_. demo_throttle) (\<lambda>_. demo_guard True) (\<lambda>_. demo_interceptor)
       (PathType [(''Users'', None)]) r = Some st \<and>
     dp_responses (op_rest (fst (route_operation_of demo_docs_lib r True
       (OpenApi_new ''api'' ''1'' :: (unit, str, unit) openapi)))) (show_nat 429) \<noteq> None"
proof -
  obtain r where r: "ex_routes demo_expansion = [r]" "ro_throttle r = Some (Policy 10 60)"
    using demo_method_settings by blast
  obtain c h where b: "build_container shop_program App = Some (Inr c, h)" "typed c" "dependency_scope c = None"
    "{10, 11, 12} \<subseteq> dom (services c)"
    using shop_built_container by blast
  have resolves: "resolve_type c shop_ids ty \<noteq> None" for ty
    using b(2-4) by (auto simp: resolve_type_def resolve_def typed_def shop_ids_def split: option.splits)
  obtain gs ins where "those (map (resolve_type c shop_ids) (ro_guards r)) = Some gs"
    "those (map (resolve_type c shop_ids) (ro_interceptors r)) = Some ins"
    using those_resolved [of "ro_guards r" "resolve_type c shop_ids"]
      those_resolved [of "ro_interceptors r" "resolve_type c shop_ids"] resolves by blast
  then obtain st where st: "route_state_new c shop_ids (\<lambda>_. demo_throttle) (\<lambda>_. demo_guard True) (\<lambda>_. demo_interceptor)
      (PathType [(''Users'', None)]) r = Some st"
    using resolves [of "PathType [(''Users'', None)]"] by (auto simp: route_state_new_def)
  have slots: "\<forall>g. discover_from shop_program App = Some (Inr g) \<longrightarrow>
      (\<forall>x\<in>set (definitions g). type_of g x = fst (shop_ids throttle_dependency) \<longrightarrow> (\<exists>i. rg_slot x = SlotProvider i))"
    by (simp add: shop_discovered shop_definitions shop_order_def shop_def_of shop_ids_def plain_provider_def)
  have "route_policy r (st_throttle st) \<noteq> None" using r by (simp add: route_policy_def)
  with throttling_documented [OF b(1) [unfolded build_container_def] keyed_Nil b(2,3) _ slots shop_registers st,
      of demo_docs_lib "OpenApi_new ''api'' ''1'' :: (unit, str, unit) openapi" "\<lambda>_. None" demo_run] r(1) b(1) st
  show ?thesis by (auto simp: shop_ids_def logger_type_def simp del: show_nat.simps)
qed

end
