(* ===== verification/ProviderMacros.thy ===== *)
theory ProviderMacros
  imports RouteMacro Configuration Containers
begin

text \<open>
  The macros that make providers: \<open>injectable\<close> and \<open>guard\<close> (\<open>crates/caelix-macros/src/injectable.rs\<close>) and
  the derivation of \<open>Config\<close> (\<open>crates/caelix-macros/src/config.rs\<close>), from the syntax of a struct to the
  code they generate, and what that code does with the container and with the loaded values. Output with an
  error does not compile, so the result of an expansion is either its errors or its code.
\<close>

section \<open>Injectables\<close>

record struct_field =
  sf_name :: str
  sf_type :: rust_type

datatype 'f shape = NamedFields "'f list" | UnitFields | TupleFields | NotStruct

definition arc_inner_type :: "rust_type \<Rightarrow> rust_type option" where
  "arc_inner_type ty =
     (case ty of
        PathType segs \<Rightarrow>
          if segs = [] \<or> fst (last segs) \<noteq> ''Arc'' then None
          else (case snd (last segs) of Some (GenericType inner # _) \<Rightarrow> Some inner | _ \<Rightarrow> None)
      | _ \<Rightarrow> None)"

definition is_logger_type :: "rust_type \<Rightarrow> bool" where
  "is_logger_type ty = (case ty of PathType segs \<Rightarrow> segs \<noteq> [] \<and> fst (last segs) = ''Logger'' | _ \<Rightarrow> False)"

text \<open>How the generated \<open>create\<close> fills a field.\<close>

datatype resolution = ResolveLogger str | Resolve rust_type

record injectable_code =
  ic_fields :: "(str \<times> resolution) list"
  ic_dependencies :: "rust_type list"

definition field_resolution :: "str \<Rightarrow> struct_field \<Rightarrow> macro_error + resolution" where
  "field_resolution struct_name f =
     (case arc_inner_type (sf_type f) of
        None \<Rightarrow> Inl (Message ''#[injectable] fields must be std::sync::Arc<T>'')
      | Some resolved \<Rightarrow>
          if is_logger_type resolved then Inr (ResolveLogger struct_name) else Inr (Resolve resolved))"

definition injectable_errors :: "str \<Rightarrow> struct_field shape \<Rightarrow> macro_error list" where
  "injectable_errors struct_name sh =
     (case sh of
        NamedFields fs \<Rightarrow>
          List.map_filter (\<lambda>f. case field_resolution struct_name f of Inl e \<Rightarrow> Some e | Inr _ \<Rightarrow> None) fs
      | UnitFields \<Rightarrow> []
      | TupleFields \<Rightarrow> [Message ''#[injectable] only supports named-field or unit structs'']
      | NotStruct \<Rightarrow> [Message ''#[injectable] can only be applied to structs''])"

definition field_resolutions :: "str \<Rightarrow> struct_field shape \<Rightarrow> (str \<times> resolution) list" where
  "field_resolutions struct_name sh =
     (case sh of
        NamedFields fs \<Rightarrow>
          List.map_filter
            (\<lambda>f. case field_resolution struct_name f of Inl _ \<Rightarrow> None | Inr r \<Rightarrow> Some (sf_name f, r)) fs
      | _ \<Rightarrow> [])"

definition injectable_dependencies :: "struct_field shape \<Rightarrow> rust_type list" where
  "injectable_dependencies sh =
     (case sh of
        NamedFields fs \<Rightarrow>
          List.map_filter
            (\<lambda>f. case arc_inner_type (sf_type f) of
                    None \<Rightarrow> None
                  | Some resolved \<Rightarrow> if \<not> is_logger_type resolved then Some resolved else None) fs
      | _ \<Rightarrow> [])"

definition expand_injectable :: "str \<Rightarrow> struct_field shape \<Rightarrow> macro_error list + injectable_code" where
  "expand_injectable struct_name sh =
     (let errs = injectable_errors struct_name sh
      in if errs \<noteq> [] then Inl errs
         else Inr \<lparr>ic_fields = field_resolutions struct_name sh, ic_dependencies = injectable_dependencies sh\<rparr>)"

text \<open>
  The generated \<open>create\<close> fills the fields in the order of the struct and stops at the first that does not
  resolve. A logger is made for the name of the struct, whatever the container holds. \<open>ids\<close> gives the
  identity and the name of a type, \<open>construct\<close> the object with the given fields.
\<close>

datatype injected = NewLogger str | Shared nat

fun create_fields ::
    "(rust_type \<Rightarrow> type_id \<times> str) \<Rightarrow> resolver \<Rightarrow> (str \<times> resolution) list \<Rightarrow> (str \<times> injected) list result" where
  "create_fields ids res [] = Inr []"
| "create_fields ids res ((name, ResolveLogger ctx) # fs) =
     bind_result (create_fields ids res fs) (\<lambda>vs. Inr ((name, NewLogger ctx) # vs))"
| "create_fields ids res ((name, Resolve ty) # fs) =
     bind_result (res (fst (ids ty)) (snd (ids ty))) (\<lambda>d.
     bind_result (create_fields ids res fs) (\<lambda>vs. Inr ((name, Shared d) # vs)))"

definition dependencies_of :: "(rust_type \<Rightarrow> type_id \<times> str) \<Rightarrow> injectable_code \<Rightarrow> provider_dependency list" where
  "dependencies_of ids code = map (\<lambda>ty. \<lparr>dep_type = fst (ids ty), dep_name = snd (ids ty)\<rparr>) (ic_dependencies code)"

text \<open>The hooks of the trait are the defaults: the generated implementation has none of its own.\<close>

definition injectable_impl ::
    "(rust_type \<Rightarrow> type_id \<times> str) \<Rightarrow> ((str \<times> injected) list \<Rightarrow> nat) \<Rightarrow> rust_type \<Rightarrow> injectable_code \<Rightarrow> injectable" where
  "injectable_impl ids construct self_ty code =
     \<lparr>inj_type = fst (ids self_ty), inj_name = snd (ids self_ty), inj_dependencies = dependencies_of ids code,
      inj_create = (\<lambda>h res. bind_result (create_fields ids res (ic_fields code)) (\<lambda>vs. Inr (construct vs))),
      inj_on_module_init = (\<lambda>h d. Inr ()), inj_on_bootstrap = (\<lambda>h d. Inr ()), inj_on_shutdown = (\<lambda>h d. Inr ())\<rparr>"

section \<open>Configuration\<close>

text \<open>An attribute \<open>config\<close> is the items \<open>parse_nested_meta\<close> meets: a path with the string literal assigned to
  it, if there is one, or tokens it cannot read. The other attributes matter for \<open>serde\<close>.\<close>

datatype nested_item = Item "str list" "str option" | Unreadable

record config_syntax =
  cx_name :: str
  cx_type :: rust_type
  cx_config :: "nested_item list list"
  cx_attrs :: "attribute list"

record initializer =
  in_index :: nat
  in_type :: rust_type
  in_env :: str
  in_custom :: "str list option"

record config_code =
  cc_metadata :: "config_field list"
  cc_initializers :: "(str \<times> initializer) list"

fun config_items :: "nested_item list \<Rightarrow> str option \<times> str option \<Rightarrow> (str option \<times> str option) \<times> macro_error list" where
  "config_items [] found = (found, [])"
| "config_items (Unreadable # items) found = (found, [SynError])"
| "config_items (Item p v # items) (env, dflt) =
     (if is_ident p ''env'' then
        (if env \<noteq> None then ((env, dflt), [Message ''duplicate `env` argument''])
         else (case v of None \<Rightarrow> ((env, dflt), [SynError]) | Some s \<Rightarrow> config_items items (Some s, dflt)))
      else if is_ident p ''default'' then
        (if dflt \<noteq> None then ((env, dflt), [Message ''duplicate `default` argument''])
         else (case v of None \<Rightarrow> ((env, dflt), [SynError]) | Some s \<Rightarrow> config_items items (env, Some s)))
      else ((env, dflt), [Message ''unknown config argument; expected `env` or `default`'']))"

fun config_attributes ::
    "nested_item list list \<Rightarrow> str option \<times> str option \<Rightarrow> (str option \<times> str option) \<times> macro_error list" where
  "config_attributes [] found = (found, [])"
| "config_attributes (a # attrs) found =
     (let (found', errs) = config_items a found; (found'', errs') = config_attributes attrs found'
      in (found'', errs @ errs'))"

definition mapping_errors :: "nested_item list list \<Rightarrow> macro_error list" where
  "mapping_errors attrs =
     (if attrs = []
      then [Message (''missing #[config(env = '' @ [CHR 0x22] @ ''NAME'' @ [CHR 0x22] @ '')] mapping'')] else []) @
     (if length attrs > 1 then [Message ''duplicate #[config(...)] attribute''] else [])"

text \<open>The deserializer a \<open>serde\<close> attribute names; \<open>parse_path\<close> reads a path from a string.\<close>

fun named_deserializer :: "(str \<Rightarrow> str list option) \<Rightarrow> meta list \<Rightarrow> str list option" where
  "named_deserializer parse_path [] = None"
| "named_deserializer parse_path (MetaNameValue p (StrLit s) # items) =
     (if is_ident p ''deserialize_with'' \<and> parse_path s \<noteq> None then parse_path s
      else if is_ident p ''with'' \<and> parse_path s \<noteq> None
      then map_option (\<lambda>path. path @ [''deserialize'']) (parse_path s)
      else named_deserializer parse_path items)"
| "named_deserializer parse_path (_ # items) = named_deserializer parse_path items"

fun custom_deserializer :: "(str \<Rightarrow> str list option) \<Rightarrow> attribute list \<Rightarrow> str list option" where
  "custom_deserializer parse_path [] = None"
| "custom_deserializer parse_path (a # attrs) =
     (if \<not> is_ident (at_path a) ''serde'' then custom_deserializer parse_path attrs
      else (case at_meta a of
              AttrList (Some items) \<Rightarrow>
                (case named_deserializer parse_path items of
                   Some path \<Rightarrow> Some path
                 | None \<Rightarrow> custom_deserializer parse_path attrs)
            | _ \<Rightarrow> custom_deserializer parse_path attrs))"

definition is_option :: "rust_type \<Rightarrow> bool" where
  "is_option ty = (case ty of PathType segs \<Rightarrow> segs \<noteq> [] \<and> fst (last segs) = ''Option'' | _ \<Rightarrow> False)"

definition config_metadata :: "config_syntax \<Rightarrow> str \<Rightarrow> str option \<Rightarrow> config_field" where
  "config_metadata f env dflt =
     \<lparr>cf_field = cx_name f, cf_env = env, cf_default = dflt, cf_optional = is_option (cx_type f)\<rparr>"

text \<open>The loop over the fields. A field without a name of a variable is skipped, but keeps its index.\<close>

fun config_loop ::
    "(str \<Rightarrow> str list option) \<Rightarrow> str set \<Rightarrow> nat \<Rightarrow> config_syntax list \<Rightarrow>
     macro_error list \<times> config_field list \<times> (str \<times> initializer) list" where
  "config_loop parse_path seen i [] = ([], [], [])"
| "config_loop parse_path seen i (f # fs) =
     (let ((env, dflt), attr_errs) = config_attributes (cx_config f) (None, None);
          errs = mapping_errors (cx_config f) @ attr_errs
      in (case env of
            None \<Rightarrow>
              (let (errs', rest) = config_loop parse_path seen (i + 1) fs in (errs @ errs', rest))
          | Some name \<Rightarrow>
              (let dup = (if name \<in> seen
                          then [Message (''duplicate environment variable mapping `'' @ name @ ''`'')] else []);
                   (errs', metadata, inits) = config_loop parse_path (insert name seen) (i + 1) fs
               in (errs @ dup @ errs', config_metadata f name dflt # metadata,
                   (cx_name f, \<lparr>in_index = i, in_type = cx_type f, in_env = name,
                                in_custom = custom_deserializer parse_path (cx_attrs f)\<rparr>) # inits))))"

definition generic_errors :: "bool \<Rightarrow> macro_error list" where
  "generic_errors has_generics =
     (if has_generics then [Message ''#[derive(Config)] does not support generic structs''] else [])"

definition expand_config ::
    "(str \<Rightarrow> str list option) \<Rightarrow> bool \<Rightarrow> config_syntax shape \<Rightarrow> macro_error list + config_code" where
  "expand_config parse_path has_generics sh =
     (case sh of
        NamedFields fs \<Rightarrow>
          (let (errs, metadata, inits) = config_loop parse_path {} 0 fs
           in if generic_errors has_generics @ errs \<noteq> [] then Inl (generic_errors has_generics @ errs)
              else Inr \<lparr>cc_metadata = metadata, cc_initializers = inits\<rparr>)
      | NotStruct \<Rightarrow>
          Inl (generic_errors has_generics @ [Message ''#[derive(Config)] can only be used on a struct''])
      | _ \<Rightarrow> Inl (generic_errors has_generics @ [Message ''#[derive(Config)] requires a named-field struct'']))"

text \<open>The struct expression of the generated code compiles if it gives a value to every field.\<close>

definition initializes_all :: "config_syntax list \<Rightarrow> config_code \<Rightarrow> bool" where
  "initializes_all fs code \<longleftrightarrow> set (map cx_name fs) \<subseteq> set (map fst (cc_initializers code))"

text \<open>The code under the derivation: how a type and a named deserializer read a text, and the validation.\<close>

record 'v config_lib =
  cl_from_str :: "rust_type \<Rightarrow> str \<Rightarrow> unit + 'v"
  cl_custom :: "str list \<Rightarrow> str \<Rightarrow> unit + 'v"
  cl_validate :: "(str \<times> 'v) list \<Rightarrow> (str \<times> str list) list option"

definition convert_field :: "'v config_lib \<Rightarrow> str \<Rightarrow> initializer \<Rightarrow> str \<Rightarrow> 'v result" where
  "convert_field lib name ini v =
     (case in_custom ini of
        Some path \<Rightarrow> map_err (\<lambda>_. config_conversion_error name (in_env ini)) (cl_custom lib path v)
      | None \<Rightarrow> deserialize_config_field (cl_from_str lib (in_type ini)) name (in_env ini) v)"

text \<open>An index beyond the loaded values is a panic.\<close>

fun initialize ::
    "'v config_lib \<Rightarrow> str list \<Rightarrow> (str \<times> initializer) list \<Rightarrow> (str \<times> 'v) list result option" where
  "initialize lib vs [] = Some (Inr [])"
| "initialize lib vs ((name, ini) # inits) =
     (if in_index ini \<ge> length vs then None
      else (case convert_field lib name ini (vs ! in_index ini) of
              Inl e \<Rightarrow> Some (Inl e)
            | Inr x \<Rightarrow> map_option (\<lambda>r. bind_result r (\<lambda>xs. Inr ((name, x) # xs))) (initialize lib vs inits)))"

definition caelix_load_config ::
    "'v config_lib \<Rightarrow> (str \<Rightarrow> env_var) \<Rightarrow> (str \<Rightarrow> env_file) \<Rightarrow> config_code \<Rightarrow> str option \<Rightarrow>
     (str \<times> 'v) list result option" where
  "caelix_load_config lib env disk code path =
     (case load_config_values env disk (cc_metadata code) path of
        Inl e \<Rightarrow> Some (Inl e)
      | Inr vs \<Rightarrow>
          map_option
            (\<lambda>r. bind_result r (\<lambda>config.
                   case cl_validate lib config of
                     Some errs \<Rightarrow> Inl (config_validation_error errs) | None \<Rightarrow> Inr config))
            (initialize lib vs (cc_initializers code)))"

definition config_load ::
    "'v config_lib \<Rightarrow> (str \<Rightarrow> env_var) \<Rightarrow> (str \<Rightarrow> env_file) \<Rightarrow> config_code \<Rightarrow> (str \<times> 'v) list result option" where
  "config_load lib env disk code = caelix_load_config lib env disk code None"

definition config_load_from ::
    "'v config_lib \<Rightarrow> (str \<Rightarrow> env_var) \<Rightarrow> (str \<Rightarrow> env_file) \<Rightarrow> config_code \<Rightarrow> str \<Rightarrow> (str \<times> 'v) list result option" where
  "config_load_from lib env disk code path = caelix_load_config lib env disk code (Some path)"

text \<open>As a provider a configuration depends on nothing.\<close>

definition config_dependencies :: "provider_dependency list" where
  "config_dependencies = []"

section \<open>Lemmas on injectables\<close>

lemma map_filter_Cons:
  "List.map_filter f (x # xs) = (case f x of None \<Rightarrow> List.map_filter f xs | Some y \<Rightarrow> y # List.map_filter f xs)"
  by (simp add: map_filter_def split: option.split)

lemma map_filter_Nil [simp]: "List.map_filter f [] = []"
  by (simp add: map_filter_def)

lemma map_filter_empty: "List.map_filter f xs = [] \<longleftrightarrow> (\<forall>x\<in>set xs. f x = None)"
  by (induction xs) (simp_all add: map_filter_Cons split: option.split)

text \<open>What a field of the given type must hold: a new logger, or the object the container has.\<close>

definition injected_value :: "(rust_type \<Rightarrow> type_id \<times> str) \<Rightarrow> container \<Rightarrow> str \<Rightarrow> struct_field \<Rightarrow> injected" where
  "injected_value ids c struct_name f =
     (case field_resolution struct_name f of
        Inr (Resolve ty) \<Rightarrow> Shared (v_data (the (services c (fst (ids ty)))))
      | _ \<Rightarrow> NewLogger struct_name)"

lemma field_resolution_cases:
  assumes "field_resolution n f = Inr r"
  shows "(r = ResolveLogger n \<and> (\<exists>ty. arc_inner_type (sf_type f) = Some ty \<and> is_logger_type ty)) \<or>
    (\<exists>ty. r = Resolve ty \<and> arc_inner_type (sf_type f) = Some ty \<and> \<not> is_logger_type ty)"
  using assms by (auto simp: field_resolution_def split: option.splits if_splits)

lemma expand_injectable_named:
  assumes "expand_injectable n (NamedFields fs) = Inr code"
  shows "\<exists>rs. map (field_resolution n) fs = map Inr rs \<and> ic_fields code = zip (map sf_name fs) rs \<and>
    ic_dependencies code = List.map_filter (\<lambda>r. case r of Resolve ty \<Rightarrow> Some ty | _ \<Rightarrow> None) rs"
proof -
  from assms have no_errors: "injectable_errors n (NamedFields fs) = []"
    and code: "code = \<lparr>ic_fields = field_resolutions n (NamedFields fs), ic_dependencies = injectable_dependencies (NamedFields fs)\<rparr>"
    by (auto simp: expand_injectable_def Let_def split: if_splits)
  from no_errors have "\<forall>f\<in>set fs. \<exists>r. field_resolution n f = Inr r"
    by (auto simp: injectable_errors_def map_filter_empty split: sum.split_asm)
      (metis sum.exhaust)
  then have "\<exists>rs. map (field_resolution n) fs = map Inr rs \<and> field_resolutions n (NamedFields fs) = zip (map sf_name fs) rs \<and>
    injectable_dependencies (NamedFields fs) = List.map_filter (\<lambda>r. case r of Resolve ty \<Rightarrow> Some ty | _ \<Rightarrow> None) rs"
  proof (induction fs)
    case Nil
    then show ?case by (simp add: field_resolutions_def injectable_dependencies_def)
  next
    case (Cons f fs)
    then obtain rs where rs: "map (field_resolution n) fs = map Inr rs"
      "field_resolutions n (NamedFields fs) = zip (map sf_name fs) rs"
      "injectable_dependencies (NamedFields fs) = List.map_filter (\<lambda>r. case r of Resolve ty \<Rightarrow> Some ty | _ \<Rightarrow> None) rs"
      by auto
    from Cons.prems obtain r where r: "field_resolution n f = Inr r" by auto
    have "map (field_resolution n) (f # fs) = map Inr (r # rs)" using rs r by simp
    moreover have "field_resolutions n (NamedFields (f # fs)) = zip (map sf_name (f # fs)) (r # rs)"
      using rs r by (simp add: field_resolutions_def map_filter_Cons)
    moreover have "injectable_dependencies (NamedFields (f # fs)) =
        List.map_filter (\<lambda>r. case r of Resolve ty \<Rightarrow> Some ty | _ \<Rightarrow> None) (r # rs)"
      using rs(3) field_resolution_cases [OF r] by (auto simp: injectable_dependencies_def map_filter_Cons)
    ultimately show ?case by blast
  qed
  with code show ?thesis by simp
qed

lemma expand_injectable_other:
  assumes "expand_injectable n sh = Inr code" "\<And>fs. sh \<noteq> NamedFields fs"
  shows "ic_fields code = [] \<and> ic_dependencies code = []"
  using assms
  by (cases sh) (auto simp: expand_injectable_def injectable_errors_def field_resolutions_def injectable_dependencies_def)

lemma resolved_is_declared:
  assumes "expand_injectable n sh = Inr code" "(name, Resolve ty) \<in> set (ic_fields code)"
  shows "ty \<in> set (ic_dependencies code)"
proof (cases sh)
  case (NamedFields fs)
  then obtain rs where "ic_fields code = zip (map sf_name fs) rs"
    "ic_dependencies code = List.map_filter (\<lambda>r. case r of Resolve ty \<Rightarrow> Some ty | _ \<Rightarrow> None) rs"
    using expand_injectable_named assms(1) by blast
  moreover from this assms(2) have "Resolve ty \<in> set rs" by (auto dest: set_zip_rightD)
  ultimately show ?thesis by (force simp: map_filter_def)
qed (use expand_injectable_other [OF assms(1)] assms(2) in auto)

lemma create_fields_cong:
  assumes "\<And>name ty. (name, Resolve ty) \<in> set fs \<Longrightarrow> res (fst (ids ty)) (snd (ids ty)) = res' (fst (ids ty)) (snd (ids ty))"
  shows "create_fields ids res fs = create_fields ids res' fs"
  using assms
proof (induction fs)
  case (Cons f fs)
  have rest: "create_fields ids res fs = create_fields ids res' fs"
  proof (rule Cons.IH)
    fix name ty
    assume "(name, Resolve ty) \<in> set fs"
    then show "res (fst (ids ty)) (snd (ids ty)) = res' (fst (ids ty)) (snd (ids ty))"
      by (intro Cons.prems [of name]) simp
  qed
  obtain name r where f: "f = (name, r)" by (cases f)
  show ?case
  proof (cases r)
    case (Resolve ty)
    with f have "res (fst (ids ty)) (snd (ids ty)) = res' (fst (ids ty)) (snd (ids ty))"
      by (intro Cons.prems [of name]) simp
    with f rest Resolve show ?thesis by simp
  qed (use f rest in simp)
qed simp

lemma scoped_resolves_declared:
  assumes "ty \<in> dep_type ` set deps"
  shows "resolve (scoped_for_provider c name deps) ty n = resolve (c\<lparr>dependency_scope := None\<rparr>) ty n"
  using assms by (simp add: resolve_def scoped_for_provider_def container_clone_def split: option.split)

lemma declared_type:
  "ty \<in> set (ic_dependencies code) \<Longrightarrow> fst (ids ty) \<in> dep_type ` set (dependencies_of ids code)"
  by (force simp: dependencies_of_def)

section \<open>Properties of injectables\<close>

text \<open>C4: The \<open>create\<close> of an injectable never resolves what the macro did not declare: in the container scoped to
  its dependencies it gives what it gives in the whole container, value or error.\<close>

theorem injectable_needs_only_its_declarations:
  assumes "expand_injectable struct_name sh = Inr code"
  shows "inj_create (injectable_impl ids construct self_ty code) h
      (resolve (scoped_for_provider c (inj_name (injectable_impl ids construct self_ty code))
         (inj_dependencies (injectable_impl ids construct self_ty code)))) =
    inj_create (injectable_impl ids construct self_ty code) h (resolve (c\<lparr>dependency_scope := None\<rparr>))"
proof -
  have "create_fields ids (resolve (scoped_for_provider c name (dependencies_of ids code))) (ic_fields code) =
      create_fields ids (resolve (c\<lparr>dependency_scope := None\<rparr>)) (ic_fields code)" for name
    by (rule create_fields_cong) (rule scoped_resolves_declared, rule declared_type, rule resolved_is_declared [OF assms])
  then show ?thesis by (simp add: injectable_impl_def)
qed

lemma create_fields_registered:
  assumes "map (field_resolution n) fs = map Inr rs"
    and "\<And>ty. Resolve ty \<in> set rs \<Longrightarrow>
      res (fst (ids ty)) (snd (ids ty)) = Inr (v_data (the (services c (fst (ids ty)))))"
  shows "create_fields ids res (zip (map sf_name fs) rs) =
    Inr (map (\<lambda>f. (sf_name f, injected_value ids c n f)) fs)"
  using assms
proof (induction fs arbitrary: rs)
  case (Cons f fs)
  then obtain r rs' where rs: "rs = r # rs'" "field_resolution n f = Inr r" "map (field_resolution n) fs = map Inr rs'"
    by (cases rs) auto
  have rest: "create_fields ids res (zip (map sf_name fs) rs') = Inr (map (\<lambda>f. (sf_name f, injected_value ids c n f)) fs)"
    by (rule Cons.IH [OF rs(3)]) (rule Cons.prems(2), simp add: rs(1))
  have resolved: "res (fst (ids ty)) (snd (ids ty)) = Inr (v_data (the (services c (fst (ids ty)))))" if "r = Resolve ty" for ty
    by (rule Cons.prems(2)) (simp add: rs(1) that)
  from field_resolution_cases [OF rs(2)] show ?case
    using rs rest resolved by (auto simp: injected_value_def)
qed simp

text \<open>When the dependencies the macro declared are registered, the injectable is created, every field with the
  object registered under the type inside its \<open>Arc\<close>, or with a logger for the struct.\<close>

theorem injectable_gets_registered_objects:
  assumes "expand_injectable struct_name (NamedFields fs) = Inr code"
    and "list_all (\<lambda>ty. \<exists>v. services c (fst (ids ty)) = Some v \<and> v_type v = fst (ids ty)) (ic_dependencies code)"
  shows "inj_create (injectable_impl ids construct self_ty code) h
      (resolve (scoped_for_provider c (snd (ids self_ty)) (dependencies_of ids code))) =
    Inr (construct (map (\<lambda>f. (sf_name f, injected_value ids c struct_name f)) fs))"
proof -
  from expand_injectable_named [OF assms(1)] obtain rs where
    rs: "map (field_resolution struct_name) fs = map Inr rs" "ic_fields code = zip (map sf_name fs) rs"
    and deps: "ic_dependencies code = List.map_filter (\<lambda>r. case r of Resolve ty \<Rightarrow> Some ty | _ \<Rightarrow> None) rs" by blast
  let ?res = "resolve (scoped_for_provider c (snd (ids self_ty)) (dependencies_of ids code))"
  have "?res (fst (ids ty)) (snd (ids ty)) = Inr (v_data (the (services c (fst (ids ty)))))" if "Resolve ty \<in> set rs" for ty
  proof -
    have declared: "ty \<in> set (ic_dependencies code)" using that deps by (force simp: map_filter_def)
    then obtain v where "services c (fst (ids ty)) = Some v" "v_type v = fst (ids ty)"
      using assms(2) by (auto simp: list_all_iff)
    with declared_type [OF declared] show ?thesis by (simp add: resolve_scoped)
  qed
  then have "create_fields ids ?res (zip (map sf_name fs) rs) =
      Inr (map (\<lambda>f. (sf_name f, injected_value ids c struct_name f)) fs)"
    by (rule create_fields_registered [OF rs(1)])
  with rs(2) show ?thesis by (simp add: injectable_impl_def)
qed

section \<open>Lemmas on configurations\<close>

definition mapped_env :: "config_syntax \<Rightarrow> str option" where
  "mapped_env f = fst (fst (config_attributes (cx_config f) (None, None)))"

definition mapped_default :: "config_syntax \<Rightarrow> str option" where
  "mapped_default f = snd (fst (config_attributes (cx_config f) (None, None)))"

definition initializer_of :: "(str \<Rightarrow> str list option) \<Rightarrow> nat \<Rightarrow> config_syntax \<Rightarrow> initializer" where
  "initializer_of parse_path i f =
     \<lparr>in_index = i, in_type = cx_type f, in_env = the (mapped_env f),
      in_custom = custom_deserializer parse_path (cx_attrs f)\<rparr>"

text \<open>What the loop gives when it finds no error: the mapped fields, their variables all different.\<close>

definition mapped_fields :: "nat \<Rightarrow> config_syntax list \<Rightarrow> (nat \<times> config_syntax) list" where
  "mapped_fields i fs = filter (\<lambda>(_, f). mapped_env f \<noteq> None) (enumerate i fs)"

lemma mapped_fields_Cons:
  "mapped_fields i (f # fs) = (if mapped_env f = None then [] else [(i, f)]) @ mapped_fields (i + 1) fs"
  by (simp add: mapped_fields_def)

lemma config_loop_result:
  assumes "config_loop parse_path seen i fs = ([], metadata, inits)"
  shows "metadata = map (\<lambda>(_, f). config_metadata f (the (mapped_env f)) (mapped_default f)) (mapped_fields i fs) \<and>
    inits = map (\<lambda>(k, f). (cx_name f, initializer_of parse_path k f)) (mapped_fields i fs) \<and>
    distinct (map cf_env metadata) \<and> seen \<inter> set (map cf_env metadata) = {}"
  using assms
proof (induction fs arbitrary: seen i metadata inits)
  case Nil
  then show ?case by (simp add: mapped_fields_def)
next
  case (Cons f fs)
  obtain env dflt errs where found: "config_attributes (cx_config f) (None, None) = ((env, dflt), errs)"
    by (metis surj_pair)
  then have mapped: "mapped_env f = env" "mapped_default f = dflt" by (simp_all add: mapped_env_def mapped_default_def)
  show ?case
  proof (cases env)
    case None
    with Cons.prems found have "config_loop parse_path seen (i + 1) fs = ([], metadata, inits)"
      by (auto simp: Let_def split: prod.splits)
    moreover have "mapped_fields i (f # fs) = mapped_fields (i + 1) fs" using None mapped by (simp add: mapped_fields_Cons)
    ultimately show ?thesis using Cons.IH by presburger
  next
    case (Some name)
    obtain errs' metadata' inits' where rest: "config_loop parse_path (insert name seen) (i + 1) fs = (errs', metadata', inits')"
      by (metis surj_pair)
    with Cons.prems found Some have fresh: "name \<notin> seen" and none: "errs' = []"
      and result: "metadata = config_metadata f name dflt # metadata'"
        "inits = (cx_name f, initializer_of parse_path i f) # inits'"
      using mapped by (auto simp: initializer_of_def split: if_splits)
    from rest none have "config_loop parse_path (insert name seen) (i + 1) fs = ([], metadata', inits')" by simp
    from Cons.IH [OF this] have
      tail: "metadata' = map (\<lambda>(_, f). config_metadata f (the (mapped_env f)) (mapped_default f)) (mapped_fields (i + 1) fs)"
        "inits' = map (\<lambda>(k, f). (cx_name f, initializer_of parse_path k f)) (mapped_fields (i + 1) fs)"
      and envs: "distinct (map cf_env metadata')" "insert name seen \<inter> set (map cf_env metadata') = {}" by blast+
    have head: "mapped_fields i (f # fs) = (i, f) # mapped_fields (i + 1) fs"
      using Some mapped by (simp add: mapped_fields_Cons)
    have names: "map cf_env metadata = name # map cf_env metadata'" by (simp add: result config_metadata_def)
    have "metadata = map (\<lambda>(_, f). config_metadata f (the (mapped_env f)) (mapped_default f)) (mapped_fields i (f # fs))"
      "inits = map (\<lambda>(k, f). (cx_name f, initializer_of parse_path k f)) (mapped_fields i (f # fs))"
      unfolding head result using tail Some mapped by simp_all
    moreover have "distinct (map cf_env metadata)" "seen \<inter> set (map cf_env metadata) = {}"
      unfolding names using envs fresh by auto
    ultimately show ?thesis by blast
  qed
qed

lemma all_mapped:
  assumes "distinct (map cx_name fs)" "set (map cx_name fs) \<subseteq> cx_name ` snd ` set (mapped_fields i fs)"
  shows "mapped_fields i fs = enumerate i fs"
proof -
  have "mapped_env f \<noteq> None" if "f \<in> set fs" for f
  proof -
    from that assms(2) obtain k g where g: "(k, g) \<in> set (mapped_fields i fs)" "cx_name g = cx_name f" by auto
    then have "g \<in> set fs" by (auto simp: mapped_fields_def dest: set_zip_rightD simp: enumerate_eq_zip)
    with g(2) that assms(1) have "g = f" by (auto simp: distinct_map inj_on_def)
    with g(1) show ?thesis by (auto simp: mapped_fields_def)
  qed
  then show ?thesis
    unfolding mapped_fields_def by (intro filter_True) (auto simp: enumerate_eq_zip dest: set_zip_rightD)
qed

lemma initialize_enumerate:
  assumes "i + length fs \<le> length vs"
  shows "\<exists>r. initialize lib vs (map (\<lambda>(k, f). (cx_name f, initializer_of parse_path k f)) (enumerate i fs)) = Some r \<and>
    (\<forall>config. r = Inr config \<longrightarrow> length config = length fs \<and>
       (\<forall>k<length fs. fst (config ! k) = cx_name (fs ! k) \<and>
          convert_field lib (cx_name (fs ! k)) (initializer_of parse_path (i + k) (fs ! k)) (vs ! (i + k)) =
            Inr (snd (config ! k))))"
  using assms
proof (induction fs arbitrary: i)
  case (Cons f fs)
  let ?inits = "map (\<lambda>(k, f). (cx_name f, initializer_of parse_path k f)) (enumerate (i + 1) fs)"
  from Cons.prems have "i + 1 + length fs \<le> length vs" "i < length vs" by simp_all
  note bound = this(2)
  from Cons.IH [OF \<open>i + 1 + length fs \<le> length vs\<close>] obtain r where
    r: "initialize lib vs ?inits = Some r" and
    each: "\<And>config. r = Inr config \<Longrightarrow> length config = length fs \<and>
       (\<forall>k<length fs. fst (config ! k) = cx_name (fs ! k) \<and>
          convert_field lib (cx_name (fs ! k)) (initializer_of parse_path (i + 1 + k) (fs ! k)) (vs ! (i + 1 + k)) =
            Inr (snd (config ! k)))" by blast
  have index: "in_index (initializer_of parse_path i f) = i" by (simp add: initializer_of_def)
  show ?case
  proof (cases "convert_field lib (cx_name f) (initializer_of parse_path i f) (vs ! i)")
    case (Inl e)
    with bound index show ?thesis by simp
  next
    case (Inr x)
    show ?thesis
    proof (intro exI [of _ "bind_result r (\<lambda>xs. Inr ((cx_name f, x) # xs))"] conjI allI impI)
      show "initialize lib vs (map (\<lambda>(k, f). (cx_name f, initializer_of parse_path k f)) (enumerate i (f # fs))) =
          Some (bind_result r (\<lambda>xs. Inr ((cx_name f, x) # xs)))"
        using Inr r bound index by simp
    next
      fix config
      assume "bind_result r (\<lambda>xs. Inr ((cx_name f, x) # xs)) = Inr config"
      then obtain xs where xs: "r = Inr xs" "config = (cx_name f, x) # xs" by (auto simp: bind_result_Inr)
      show "length config = length (f # fs)" using each [OF xs(1)] xs(2) by simp
      fix k
      assume k: "k < length (f # fs)"
      show "fst (config ! k) = cx_name ((f # fs) ! k)"
        using each [OF xs(1)] xs(2) k by (cases k) simp_all
      show "convert_field lib (cx_name ((f # fs) ! k)) (initializer_of parse_path (i + k) ((f # fs) ! k)) (vs ! (i + k)) =
          Inr (snd (config ! k))"
        using each [OF xs(1)] xs(2) k Inr by (cases k) simp_all
    qed
  qed
qed simp

lemma load_config_values_Inr:
  assumes "load_config_values env disk cfields path = Inr vs"
  shows "\<exists>m. read_env_file path (disk (env_path path)) = Inr m \<and> length vs = length cfields \<and>
    (\<forall>i<length cfields. field_value env m (cfields ! i) = Inr (vs ! i))"
proof -
  from assms obtain m where "read_env_file path (disk (env_path path)) = Inr m"
    "try_map (field_value env m) cfields = Inr vs"
    by (auto simp: load_config_values_def bind_result_Inr)
  with try_map_Inr [OF this(2)] show ?thesis by auto
qed

lemma map_enumerate: "map (\<lambda>(_, x). g x) (enumerate i xs) = map g xs"
  by (induction xs arbitrary: i) simp_all

lemma expand_config_complete:
  assumes "expand_config parse_path has_generics (NamedFields fs) = Inr code" "initializes_all fs code"
    "distinct (map cx_name fs)"
  shows "cc_metadata code = map (\<lambda>f. config_metadata f (the (mapped_env f)) (mapped_default f)) fs \<and>
    cc_initializers code = map (\<lambda>(k, f). (cx_name f, initializer_of parse_path k f)) (enumerate 0 fs) \<and>
    distinct (map cf_env (cc_metadata code)) \<and> \<not> has_generics"
proof -
  obtain errs metadata inits where loop: "config_loop parse_path {} 0 fs = (errs, metadata, inits)" by (metis surj_pair)
  with assms(1) have none: "generic_errors has_generics = []" "errs = []"
    and code: "cc_metadata code = metadata" "cc_initializers code = inits"
    by (auto simp: expand_config_def split: if_splits)
  from config_loop_result [OF loop [unfolded none(2)]] have
    metadata: "metadata = map (\<lambda>(_, f). config_metadata f (the (mapped_env f)) (mapped_default f)) (mapped_fields 0 fs)"
    and inits: "inits = map (\<lambda>(k, f). (cx_name f, initializer_of parse_path k f)) (mapped_fields 0 fs)"
    and envs: "distinct (map cf_env metadata)" by blast+
  have "set (map fst inits) = cx_name ` snd ` set (mapped_fields 0 fs)" unfolding inits by force
  with assms(2) code(2) have "set (map cx_name fs) \<subseteq> cx_name ` snd ` set (mapped_fields 0 fs)"
    unfolding initializes_all_def by blast
  from all_mapped [OF assms(3) this] have all: "mapped_fields 0 fs = enumerate 0 fs" .
  have "\<not> has_generics" using none(1) by (simp add: generic_errors_def split: if_splits)
  moreover have "metadata = map (\<lambda>f. config_metadata f (the (mapped_env f)) (mapped_default f)) fs"
    unfolding metadata all by (rule map_enumerate)
  ultimately show ?thesis using inits envs unfolding code all by (intro conjI)
qed

section \<open>Properties of configurations\<close>

text \<open>The value field \<open>i\<close> must have: the text of its own variable, converted for its own type.\<close>

definition field_conversion ::
    "'v config_lib \<Rightarrow> (str \<Rightarrow> str list option) \<Rightarrow> (str \<Rightarrow> env_var) \<Rightarrow> (str \<Rightarrow> str option) \<Rightarrow> nat \<Rightarrow> config_syntax \<Rightarrow> 'v result" where
  "field_conversion lib parse_path env m i f =
     bind_result (field_value env m (config_metadata f (the (mapped_env f)) (mapped_default f)))
       (convert_field lib (cx_name f) (initializer_of parse_path i f))"

text \<open>C26: Loading a derived configuration never indexes past the loaded values, and a loaded configuration has for
  every field of the struct, in order, the value of the field's own variable or default, converted as the field
  says, and passes the validation.\<close>

theorem config_fields_get_their_values:
  assumes "expand_config parse_path has_generics (NamedFields fs) = Inr code" "initializes_all fs code"
    "distinct (map cx_name fs)"
  shows "\<exists>r. caelix_load_config lib env disk code path = Some r \<and>
    (\<forall>config. r = Inr config \<longrightarrow>
       cl_validate lib config = None \<and> map fst config = map cx_name fs \<and>
       (\<exists>m. read_env_file path (disk (env_path path)) = Inr m \<and>
         (\<forall>i<length fs. field_conversion lib parse_path env m i (fs ! i) = Inr (snd (config ! i)))))"
proof -
  from expand_config_complete [OF assms] have
    metadata: "cc_metadata code = map (\<lambda>f. config_metadata f (the (mapped_env f)) (mapped_default f)) fs"
    and inits: "cc_initializers code = map (\<lambda>(k, f). (cx_name f, initializer_of parse_path k f)) (enumerate 0 fs)"
    by blast+
  show ?thesis
  proof (cases "load_config_values env disk (cc_metadata code) path")
    case (Inl e)
    then show ?thesis by (simp add: caelix_load_config_def)
  next
    case (Inr vs)
    from load_config_values_Inr [OF Inr] obtain m where m: "read_env_file path (disk (env_path path)) = Inr m"
      and len: "length vs = length fs"
      and loaded: "\<And>i. i < length fs \<Longrightarrow>
        field_value env m (config_metadata (fs ! i) (the (mapped_env (fs ! i))) (mapped_default (fs ! i))) = Inr (vs ! i)"
      unfolding metadata by auto
    have "0 + length fs \<le> length vs" using len by simp
    from initialize_enumerate [OF this, of lib parse_path] obtain r where
      r: "initialize lib vs (cc_initializers code) = Some r" and
      each: "\<And>config. r = Inr config \<Longrightarrow> length config = length fs \<and>
        (\<forall>k<length fs. fst (config ! k) = cx_name (fs ! k) \<and>
           convert_field lib (cx_name (fs ! k)) (initializer_of parse_path (0 + k) (fs ! k)) (vs ! (0 + k)) =
             Inr (snd (config ! k)))"
      unfolding inits by blast
    let ?r = "bind_result r (\<lambda>config. case cl_validate lib config of
        Some errs \<Rightarrow> Inl (config_validation_error errs) | None \<Rightarrow> Inr config)"
    have load: "caelix_load_config lib env disk code path = Some ?r"
      using Inr r by (simp add: caelix_load_config_def)
    have "cl_validate lib config = None \<and> map fst config = map cx_name fs \<and>
        (\<exists>m. read_env_file path (disk (env_path path)) = Inr m \<and>
          (\<forall>i<length fs. field_conversion lib parse_path env m i (fs ! i) = Inr (snd (config ! i))))"
      if ok: "?r = Inr config" for config
    proof -
      from ok have "r = Inr config" and valid: "cl_validate lib config = None"
        by (auto simp: bind_result_Inr split: option.splits)
      from each [OF this(1)] have "map fst config = map cx_name fs"
        by (intro nth_equalityI) simp_all
      moreover have "field_conversion lib parse_path env m i (fs ! i) = Inr (snd (config ! i))" if "i < length fs" for i
        using each [OF \<open>r = Inr config\<close>] loaded [OF that] that by (simp add: field_conversion_def)
      ultimately show ?thesis using valid m by blast
    qed
    with load show ?thesis by blast
  qed
qed

section \<open>Witnesses\<close>

definition arc_of :: "str \<Rightarrow> rust_type" where
  "arc_of name = PathType [(''Arc'', Some [GenericType (PathType [(name, None)])])]"

definition service_fields :: "struct_field list" where
  "service_fields =
     [\<lparr>sf_name = ''users'', sf_type = arc_of ''Users''\<rparr>, \<lparr>sf_name = ''logger'', sf_type = arc_of ''Logger''\<rparr>]"

definition service_code :: injectable_code where
  "service_code =
     \<lparr>ic_fields = [(''users'', Resolve (PathType [(''Users'', None)])), (''logger'', ResolveLogger ''Service'')],
      ic_dependencies = [PathType [(''Users'', None)]]\<rparr>"

lemma service_expansion: "expand_injectable ''Service'' (NamedFields service_fields) = Inr service_code"
  by (simp add: expand_injectable_def injectable_errors_def field_resolutions_def injectable_dependencies_def
      service_fields_def service_code_def arc_of_def field_resolution_def arc_inner_type_def is_logger_type_def map_filter_def)

definition service_ids :: "rust_type \<Rightarrow> type_id \<times> str" where
  "service_ids ty = (if ty = PathType [(''Users'', None)] then (5, ''Users'') else (6, ''Service''))"

definition service_type :: rust_type where
  "service_type = PathType [(''Service'', None)]"

lemma injectable_needs_only_its_declarations_witness:
  "inj_create (injectable_impl service_ids length service_type service_code) []
     (resolve (scoped_for_provider Container_new (inj_name (injectable_impl service_ids length service_type service_code))
        (inj_dependencies (injectable_impl service_ids length service_type service_code)))) =
   inj_create (injectable_impl service_ids length service_type service_code) []
     (resolve (Container_new\<lparr>dependency_scope := None\<rparr>))"
  by (rule injectable_needs_only_its_declarations [OF service_expansion])

lemma injectable_gets_registered_objects_witness:
  "inj_create (injectable_impl service_ids length service_type service_code) []
     (resolve (scoped_for_provider (register_instance 5 9 Container_new) (snd (service_ids service_type))
        (dependencies_of service_ids service_code))) = Inr 2"
proof -
  have "list_all (\<lambda>ty. \<exists>v. services (register_instance 5 9 Container_new) (fst (service_ids ty)) = Some v \<and>
      v_type v = fst (service_ids ty)) (ic_dependencies service_code)"
    by (simp add: service_code_def service_ids_def register_instance_def)
  from injectable_gets_registered_objects [OF service_expansion this] show ?thesis by (simp add: service_fields_def)
qed

definition port_field :: config_syntax where
  "port_field =
     \<lparr>cx_name = ''port'', cx_type = PathType [(''u16'', None)],
      cx_config = [[Item [''env''] (Some ''PORT''), Item [''default''] (Some ''80'')]], cx_attrs = []\<rparr>"

definition port_code :: config_code where
  "port_code =
     \<lparr>cc_metadata = [\<lparr>cf_field = ''port'', cf_env = ''PORT'', cf_default = Some ''80'', cf_optional = False\<rparr>],
      cc_initializers = [(''port'', \<lparr>in_index = 0, in_type = PathType [(''u16'', None)], in_env = ''PORT'', in_custom = None\<rparr>)]\<rparr>"

definition text_lib :: "str config_lib" where
  "text_lib = \<lparr>cl_from_str = (\<lambda>_ s. Inr s), cl_custom = (\<lambda>_ s. Inr s), cl_validate = (\<lambda>_. None)\<rparr>"

lemma port_expansion: "expand_config (\<lambda>_. None) False (NamedFields [port_field]) = Inr port_code"
  by (simp add: expand_config_def port_field_def port_code_def is_ident_def mapping_errors_def config_metadata_def
      is_option_def generic_errors_def)

lemma port_loads:
  "caelix_load_config text_lib (\<lambda>_. Present ''8080'') (\<lambda>_. FileEntries []) port_code None = Some (Inr [(''port'', ''8080'')])"
  by (simp add: caelix_load_config_def load_config_values_def read_env_file_def port_code_def field_value_def Let_def
      convert_field_def deserialize_config_field_def map_err_def text_lib_def)

lemma config_fields_get_their_values_witness:
  "\<exists>m. field_conversion text_lib (\<lambda>_. None) (\<lambda>_. Present ''8080'') m 0 port_field = Inr ''8080''"
proof -
  have "initializes_all [port_field] port_code" "distinct (map cx_name [port_field])"
    by (simp_all add: initializes_all_def port_field_def port_code_def)
  from config_fields_get_their_values [OF port_expansion this, of text_lib "\<lambda>_. Present ''8080''" "\<lambda>_. FileEntries []" None]
  show ?thesis unfolding port_loads by auto
qed

end
