(* ===== verification/MessageMacros.thy ===== *)
theory MessageMacros
  imports RouteMacro Messages
begin

text \<open>
  The macros of message handlers: \<open>microservice\<close> (\<open>crates/caelix-macros/src/microservice.rs\<close>) and
  \<open>gateway\<close> (\<open>crates/caelix-macros/src/gateway.rs\<close>, with the errors of \<open>crates/caelix-socketio\<close>), from the
  methods of an \<open>impl\<close> block to the closures they generate. The identifiers of generated code are those the
  macro spells, and a parameter of the handler keeps its own name in the closure, so it may capture them: what
  an identifier means is looked up in the bindings in scope.
\<close>

section \<open>Subjects\<close>

definition in_quotes :: "str \<Rightarrow> str" where
  "in_quotes s = [CHR 0x22] @ s @ [CHR 0x22]"

definition NUL :: char where "NUL = CHR 0x00"

definition validate_subject :: "str \<Rightarrow> bool \<Rightarrow> unit parsed" where
  "validate_subject v command =
     (if v = [] \<or> hd v = CHR ''.'' \<or> last v = CHR ''.'' \<or> list_ex (\<lambda>token. token = []) (tokens v)
      then Inl (Message ''microservice subjects must contain non-empty dot-separated tokens'')
      else if has_whitespace v \<or> NUL \<in> set v
      then Inl (Message ''microservice subjects cannot contain whitespace or control characters'')
      else if list_ex (\<lambda>(index, token).
                (CHR ''*'' \<in> set token \<and> (command \<or> token \<noteq> ''*'')) \<or>
                (CHR ''>'' \<in> set token \<and> (command \<or> token \<noteq> ''>'' \<or> index + 1 \<noteq> length (tokens v))))
              (enumerate 0 (tokens v))
      then Inl (Message ''invalid microservice wildcard pattern; `*` matches one token and terminal `>` matches one or more tokens'')
      else Inr ())"

section \<open>Methods\<close>

text \<open>A receiver that is neither \<open>&self\<close> nor \<open>&mut self\<close> counts as one by value.\<close>

record message_method = impl_method +
  mm_generic :: bool

text \<open>The pattern attributes of a method: one is taken as it is, more than one or one without a string literal
  leave the marker that becomes an error.\<close>

definition is_pattern_attribute :: "attribute \<Rightarrow> bool" where
  "is_pattern_attribute a \<longleftrightarrow> attr_named a ''message_pattern'' \<or> attr_named a ''event_pattern''"

definition pattern_attribute :: "attribute \<Rightarrow> (handler_kind \<times> str) option \<Rightarrow> (handler_kind \<times> str) option" where
  "pattern_attribute a found =
     (if \<not> is_pattern_attribute a then found
      else (case at_literal a of
              None \<Rightarrow> Some (Event, [NUL])
            | Some v \<Rightarrow>
                if found \<noteq> None then Some (Event, [NUL])
                else Some (if attr_named a ''message_pattern'' then Command else Event, v)))"

definition handler_pattern :: "attribute list \<Rightarrow> (handler_kind \<times> str) option" where
  "handler_pattern attrs = fold pattern_attribute attrs None"

datatype message_marker = PayloadMarker | ContextMarker

definition marker_attribute :: "attribute \<Rightarrow> message_marker option \<times> bool \<Rightarrow> message_marker option \<times> bool" where
  "marker_attribute a d =
     (let (found, invalid) = d;
          mark = (\<lambda>k. if at_meta a \<noteq> AttrPath \<or> found \<noteq> None then (found, True) else (Some k, invalid))
      in if attr_named a ''payload'' then mark PayloadMarker
         else if attr_named a ''context'' then mark ContextMarker
         else d)"

definition is_message_context :: "rust_type \<Rightarrow> bool" where
  "is_message_context ty = (case ty of PathType segs \<Rightarrow> segs \<noteq> [] \<and> fst (last segs) = ''MessageContext'' | _ \<Rightarrow> False)"

definition is_unit :: "rust_type \<Rightarrow> bool" where
  "is_unit ty \<longleftrightarrow> ty = TupleType []"

definition result_type :: "rust_type option \<Rightarrow> rust_type parsed" where
  "result_type output =
     (case output of
        Some (PathType segs) \<Rightarrow>
          if segs \<noteq> [] \<and> fst (last segs) = ''Result'' then
            (case snd (last segs) of
               Some (GenericType v # _) \<Rightarrow> Inr v
             | _ \<Rightarrow> Inl (Message ''microservice handlers must return Result<T>''))
          else Inl (Message ''microservice handlers must return Result<T>'')
      | _ \<Rightarrow> Inl (Message ''microservice handlers must return Result<T>''))"

section \<open>Arguments\<close>

record message_draft =
  mg_payload :: "(str \<times> rust_type) option"
  mg_context :: "str option"
  mg_context_after_payload :: bool

definition message_argument :: "typed_argument \<Rightarrow> message_draft \<Rightarrow> message_draft parsed" where
  "message_argument ta d =
     (let (found, invalid) = fold marker_attribute (ta_attrs ta) (None, False)
      in if invalid
         then Inl (Message ''microservice parameters require exactly one bare #[payload] or #[context] marker'')
         else (case found of
             None \<Rightarrow> Inl (Message ''microservice parameters require #[payload] or #[context]'')
           | Some marker \<Rightarrow>
               (case ta_ident ta of
                  None \<Rightarrow> Inl (Message ''microservice parameters must be named'')
                | Some name \<Rightarrow>
                    (case marker of
                       PayloadMarker \<Rightarrow>
                         if mg_payload d \<noteq> None
                         then Inl (Message ''a microservice handler can have only one #[payload] parameter'')
                         else Inr (d\<lparr>mg_payload := Some (name, ta_type ta)\<rparr>)
                     | ContextMarker \<Rightarrow>
                         if mg_context d \<noteq> None \<or> \<not> is_message_context (ta_type ta)
                         then Inl (Message ''#[context] must be a single MessageContext parameter'')
                         else Inr (d\<lparr>mg_context := Some name, mg_context_after_payload := (mg_payload d \<noteq> None)\<rparr>)))))"

fun message_arguments :: "fn_arg list \<Rightarrow> message_draft \<Rightarrow> message_draft parsed" where
  "message_arguments [] d = Inr d"
| "message_arguments (Receiver r # inputs) d =
     Inl (Message ''microservice handlers support only &self as a receiver'')"
| "message_arguments (Typed ta # inputs) d = bind_result (message_argument ta d) (message_arguments inputs)"

definition no_arguments :: message_draft where
  "no_arguments = \<lparr>mg_payload = None, mg_context = None, mg_context_after_payload = False\<rparr>"

section \<open>Handlers\<close>

text \<open>The generated code of a handler: the name and type of the decoded payload, the method it calls and the
  identifiers it passes.\<close>

record handler_code =
  hc_kind :: handler_kind
  hc_subject :: str
  hc_payload :: str
  hc_payload_type :: rust_type
  hc_response :: rust_type
  hc_method :: str
  hc_arguments :: "str list"

definition invocation_arguments :: "message_draft \<Rightarrow> str \<Rightarrow> str list" where
  "invocation_arguments d payload_name =
     (if mg_context d = None then [payload_name]
      else if mg_context_after_payload d then [payload_name, ''context'']
      else [''context'', payload_name])"

definition check_receiver :: "fn_arg list \<Rightarrow> unit parsed" where
  "check_receiver inputs =
     (case inputs of
        Receiver ByReference # _ \<Rightarrow> Inr ()
      | _ \<Rightarrow> Inl (Message ''microservice handlers require an &self receiver''))"

definition parse_handler :: "message_method \<Rightarrow> handler_code option parsed" where
  "parse_handler m =
     (case handler_pattern (im_attrs m) of
        None \<Rightarrow> Inr None
      | Some (kind, subject) \<Rightarrow>
          if subject = [NUL]
          then Inl (Message (''a microservice method must have exactly one #[message_pattern('' @ in_quotes ''...'' @
                 '')] or #[event_pattern('' @ in_quotes ''...'' @ '')]''))
          else bind_result (validate_subject subject (kind = Command)) (\<lambda>_.
            if \<not> im_async m then Inl (Message ''microservice handlers must be async'')
            else if mm_generic m then Inl (Message ''microservice handlers cannot be generic'')
            else bind_result (check_receiver (im_inputs m)) (\<lambda>_.
            bind_result (message_arguments (tl (im_inputs m)) no_arguments) (\<lambda>d.
              (case mg_payload d of
                 None \<Rightarrow> Inl (Message ''microservice handlers require exactly one #[payload] parameter'')
               | Some (payload_name, payload_type) \<Rightarrow>
                   bind_result (result_type (im_output m)) (\<lambda>response.
                     if kind = Event \<and> \<not> is_unit response
                     then Inl (Message ''event handlers must return Result<()>'')
                     else Inr (Some
                       \<lparr>hc_kind = kind, hc_subject = subject, hc_payload = payload_name, hc_payload_type = payload_type,
                        hc_response = response, hc_method = im_name m,
                        hc_arguments = invocation_arguments d payload_name\<rparr>)))))))"

text \<open>The whole block: errors in the order they are found, and the handlers that are well-formed.\<close>

record microservice_code =
  mx_errors :: "macro_error list"
  mx_handlers :: "handler_code list"

definition expand_microservice :: "bool \<Rightarrow> bool \<Rightarrow> message_method list \<Rightarrow> microservice_code" where
  "expand_microservice has_arguments is_trait_impl methods =
     (let errs = (if has_arguments then [Message ''#[microservice] does not accept arguments''] else [])
      in if is_trait_impl
         then \<lparr>mx_errors = errs @ [Message ''#[microservice] only supports inherent impl blocks''], mx_handlers = []\<rparr>
         else \<lparr>mx_errors = errs @ List.map_filter (\<lambda>m. case parse_handler m of Inl e \<Rightarrow> Some e | Inr _ \<Rightarrow> None) methods,
               mx_handlers = List.map_filter (\<lambda>m. case parse_handler m of Inl e \<Rightarrow> None | Inr h \<Rightarrow> h) methods\<rparr>)"

section \<open>The generated closure\<close>

text \<open>What the identifiers in scope are bound to: the parameters of the closure \<open>|container, context, payload|\<close>,
  then the decoded payload under the name the handler gives it, then \<open>service\<close>. The first binding is the
  innermost.\<close>

datatype binding = TheContainer | TheContext | RawPayload | DecodedPayload | TheService

definition closure_bindings :: "str \<Rightarrow> (str \<times> binding) list" where
  "closure_bindings payload_name =
     [(payload_name, DecodedPayload), (''container'', TheContainer), (''context'', TheContext), (''payload'', RawPayload)]"

definition call_bindings :: "str \<Rightarrow> (str \<times> binding) list" where
  "call_bindings payload_name = (''service'', TheService) # closure_bindings payload_name"

text \<open>The closure compiles if \<open>container\<close> and \<open>service\<close> are what their methods are called on, and the
  arguments have the types of the parameters.\<close>

definition parameter_binding :: "typed_argument \<Rightarrow> binding" where
  "parameter_binding ta =
     (if fst (fold marker_attribute (ta_attrs ta) (None, False)) = Some PayloadMarker then DecodedPayload else TheContext)"

definition closure_compiles :: "message_method \<Rightarrow> handler_code \<Rightarrow> bool" where
  "closure_compiles m code \<longleftrightarrow>
     map_of (closure_bindings (hc_payload code)) ''container'' = Some TheContainer \<and>
     map (map_of (call_bindings (hc_payload code))) (hc_arguments code) =
       map (Some \<circ> parameter_binding) (typed_arguments (tl (im_inputs m)))"

text \<open>The code below: how a payload is decoded and a result encoded, the identity of the service, its methods.\<close>

datatype 'p call_argument = PassPayload 'p | PassContext message_context

record ('p, 'r) service_lib =
  sl_from_value :: "rust_type \<Rightarrow> json \<Rightarrow> str + 'p"
  sl_to_value :: "'r \<Rightarrow> str + json"
  sl_self :: "type_id \<times> str"
  sl_call :: "nat \<Rightarrow> str \<Rightarrow> 'p call_argument list \<Rightarrow> 'r result"

definition argument_values :: "handler_code \<Rightarrow> 'p \<Rightarrow> message_context \<Rightarrow> 'p call_argument list" where
  "argument_values code p ctx =
     List.map_filter
       (\<lambda>a. case map_of (call_bindings (hc_payload code)) a of
               Some DecodedPayload \<Rightarrow> Some (PassPayload p)
             | Some TheContext \<Rightarrow> Some (PassContext ctx)
             | _ \<Rightarrow> None) (hc_arguments code)"

definition handler_closure ::
    "('p, 'r) service_lib \<Rightarrow> handler_code \<Rightarrow> container \<Rightarrow> message_context \<Rightarrow> json \<Rightarrow> json option result" where
  "handler_closure lib code c ctx raw =
     bind_result (map_err (\<lambda>e. BadRequestException (''invalid message payload: '' @ e)) (sl_from_value lib (hc_payload_type code) raw)) (\<lambda>p.
     bind_result (resolve c (fst (sl_self lib)) (snd (sl_self lib))) (\<lambda>service.
     bind_result (sl_call lib service (hc_method code) (argument_values code p ctx)) (\<lambda>result.
       (case hc_kind code of
          Event \<Rightarrow> Inr None
        | Command \<Rightarrow>
            bind_result (map_err (HttpException_new 500 ''Internal Server Error'') (sl_to_value lib result))
              (\<lambda>response. Inr (Some response))))))"

text \<open>The definition of the service: its handlers in the order of the block.\<close>

definition microservice_definition :: "provider_def \<Rightarrow> microservice_code \<Rightarrow> microservice_def" where
  "microservice_definition provider code =
     \<lparr>ms_provider = provider,
      ms_handlers = map (\<lambda>(i, h). \<lparr>mh_kind = hc_kind h, mh_pattern = hc_subject h, mh_closure = i\<rparr>)
        (enumerate 0 (mx_handlers code))\<rparr>"

definition microservice_closures :: "('p, 'r) service_lib \<Rightarrow> microservice_code \<Rightarrow> container \<Rightarrow> closures" where
  "microservice_closures lib code c i = handler_closure lib (mx_handlers code ! i) c"

section \<open>Gateways\<close>

definition is_websocket_impl :: "str list option \<Rightarrow> bool" where
  "is_websocket_impl trait_path =
     (case trait_path of None \<Rightarrow> False | Some p \<Rightarrow> p \<noteq> [] \<and> last p = ''WebSocketGateway'')"

record socket_handler =
  sk_event :: str
  sk_method :: str
  sk_payload :: str
  sk_payload_type :: rust_type
  sk_passes_socket :: bool

text \<open>The last well-formed \<open>on_message\<close> names the event, each malformed one is an error.\<close>

fun on_message_attributes :: "attribute list \<Rightarrow> str option \<Rightarrow> str option \<times> macro_error list" where
  "on_message_attributes [] event = (event, [])"
| "on_message_attributes (a # attrs) event =
     (if is_ident (at_path a) ''on_message'' then
        (case at_literal a of
           Some name \<Rightarrow> on_message_attributes attrs (Some name)
         | None \<Rightarrow> (let (event', errs) = on_message_attributes attrs event in (event', SynError # errs)))
      else on_message_attributes attrs event)"

definition socket_payload :: "typed_argument list \<Rightarrow> (typed_argument option \<times> typed_argument) option" where
  "socket_payload typed =
     (case typed of [payload] \<Rightarrow> Some (None, payload) | [socket, payload] \<Rightarrow> Some (Some socket, payload) | _ \<Rightarrow> None)"

definition socket_method :: "impl_method \<Rightarrow> macro_error list \<times> socket_handler option" where
  "socket_method m =
     (let (event, errs) = on_message_attributes (im_attrs m) None
      in (case event of
            None \<Rightarrow> (errs, None)
          | Some name \<Rightarrow>
              if \<not> im_async m then (errs @ [Message ''Socket.IO message handlers must be async''], None)
              else (case socket_payload (typed_arguments (im_inputs m)) of
                  None \<Rightarrow>
                    (errs @ [Message ''Socket.IO handlers must accept `payload: T` or `socket: SocketRef, payload: T`''], None)
                | Some (socket, payload) \<Rightarrow>
                    (case ta_ident payload of
                       None \<Rightarrow> (errs @ [Message ''expected a simple identifier for the Socket.IO payload''], None)
                     | Some payload_name \<Rightarrow>
                         if (case socket of None \<Rightarrow> False | Some s \<Rightarrow> ta_ident s = None)
                         then (errs @ [Message ''expected a simple identifier for the Socket.IO socket''], None)
                         else (errs, Some
                           \<lparr>sk_event = name, sk_method = im_name m, sk_payload = payload_name,
                            sk_payload_type = ta_type payload, sk_passes_socket = (socket \<noteq> None)\<rparr>)))))"

datatype gateway_expansion =
    RawWebSocket str
  | SocketIoNamespace str "macro_error list" "socket_handler list"

definition expand_socket_io :: "str \<Rightarrow> impl_method list \<Rightarrow> gateway_expansion" where
  "expand_socket_io path methods =
     (let found = map socket_method methods;
          errs = concat (map fst found);
          handlers = List.map_filter snd found
      in SocketIoNamespace path
           (if handlers = [] \<and> errs = []
            then [Message (''a Socket.IO gateway must declare at least one #[on_message('' @ in_quotes ''event'' @ '')] handler'')]
            else errs)
           handlers)"

definition expand_gateway :: "str \<Rightarrow> str list option \<Rightarrow> impl_method list \<Rightarrow> gateway_expansion" where
  "expand_gateway path trait_path methods =
     (if is_websocket_impl trait_path then RawWebSocket path else expand_socket_io path methods)"

definition gateway_definition :: "injectable \<Rightarrow> gateway_expansion \<Rightarrow> gateway_def" where
  "gateway_definition t ex =
     (case ex of RawWebSocket path \<Rightarrow> GatewayDef_websocket t path | SocketIoNamespace path _ _ \<Rightarrow> GatewayDef_socket_io t path)"

text \<open>Registration downcasts the handle the application passes, and registers the namespace with Socket.IO's
  server in it; an application without Socket.IO has another.\<close>

definition gateway_register :: "'io option \<Rightarrow> 'io result" where
  "gateway_register handle =
     (case handle of
        None \<Rightarrow> Inl (HttpException_new 500 ''Internal Server Error'' ''Socket.IO gateway was registered without a Socket.IO handle'')
      | Some io \<Rightarrow> Inr io)"

text \<open>What a registered closure sends for an event.\<close>

record socket_io_error =
  se_error :: str
  se_message :: str

definition SocketIoError_from :: "http_exception \<Rightarrow> socket_io_error" where
  "SocketIoError_from e = \<lparr>se_error = ex_error e, se_message = ex_message e\<rparr>"

datatype 'r socket_output = AckValue 'r | AckError socket_io_error | EmitError str socket_io_error

definition socket_event ::
    "('p \<Rightarrow> nat \<Rightarrow> nat option \<Rightarrow> str \<Rightarrow> 'r result) \<Rightarrow> type_id \<times> str \<Rightarrow> socket_handler \<Rightarrow> container \<Rightarrow> nat \<Rightarrow> 'p \<Rightarrow>
     'r socket_output list" where
  "socket_event call self h c socket p =
     (case bind_result (resolve c (fst self) (snd self))
             (\<lambda>gateway. call p gateway (if sk_passes_socket h then Some socket else None) (sk_method h)) of
        Inr v \<Rightarrow> [AckValue v]
      | Inl e \<Rightarrow> [AckError (SocketIoError_from e), EmitError ''error'' (SocketIoError_from e)])"

section \<open>Lemmas\<close>

lemma split_on_first: "v \<noteq> [] \<Longrightarrow> hd v = c \<Longrightarrow> [] \<in> set (split_on c v)"
  by (cases v) simp_all

lemma split_on_last: "v \<noteq> [] \<Longrightarrow> last v = c \<Longrightarrow> \<exists>p ps. split_on c v = p # ps @ [[]]"
proof (induction v)
  case (Cons x v)
  show ?case
  proof (cases "v = []")
    case True
    with Cons.prems show ?thesis by (auto intro: exI [of _ "[]"])
  next
    case False
    with Cons obtain p ps where "split_on c v = p # ps @ [[]]" by auto
    then show ?thesis by (cases "x = c") (auto intro: exI [of _ "p # ps"])
  qed
qed simp

lemma list_ex_list_all: "\<not> list_ex P xs \<longleftrightarrow> list_all (\<lambda>x. \<not> P x) xs"
  by (simp add: list_ex_iff list_all_iff)

lemma list_all_conj: "list_all P xs \<and> list_all Q xs \<longleftrightarrow> list_all (\<lambda>x. P x \<and> Q x) xs"
  by (auto simp: list_all_iff)

lemma list_all_enumerate: "list_all (\<lambda>(i, x). P x) (enumerate n xs) \<longleftrightarrow> list_all P xs"
  by (induction xs arbitrary: n) simp_all

text \<open>The subjects the macro accepts are the patterns the module graph accepts, without the NUL character.\<close>

lemma validate_subject_iff:
  "validate_subject v command = Inr () \<longleftrightarrow> valid_microservice_pattern v command \<and> NUL \<notin> set v"
proof -
  let ?W = "\<lambda>(index, token). (CHR ''*'' \<in> set token \<and> (command \<or> token \<noteq> ''*'')) \<or>
    (CHR ''>'' \<in> set token \<and> (command \<or> token \<noteq> ''>'' \<or> index + 1 \<noteq> length (tokens v)))"
  have edges: "list_all (\<lambda>t. t \<noteq> []) (tokens v) \<Longrightarrow> v \<noteq> [] \<and> hd v \<noteq> CHR ''.'' \<and> last v \<noteq> CHR ''.''"
    using split_on_first [of v] split_on_last [of v] by (cases "v = []") (auto simp: list_all_iff)
  have "validate_subject v command = Inr () \<longleftrightarrow>
      list_all (\<lambda>t. t \<noteq> []) (tokens v) \<and> \<not> has_whitespace v \<and> NUL \<notin> set v \<and>
      list_all (\<lambda>x. \<not> ?W x) (enumerate 0 (tokens v))"
    using edges by (auto simp: validate_subject_def list_ex_list_all [symmetric] list_ex_iff list_all_iff)
  also have "\<dots> \<longleftrightarrow> NUL \<notin> set v \<and> \<not> has_whitespace v \<and>
      list_all (\<lambda>x. (case x of (i, t) \<Rightarrow> t \<noteq> []) \<and> \<not> ?W x) (enumerate 0 (tokens v))"
    unfolding list_all_conj [symmetric] list_all_enumerate by blast
  also have "\<dots> \<longleftrightarrow> valid_microservice_pattern v command \<and> NUL \<notin> set v"
  proof (cases "v = []")
    case True
    then show ?thesis by (simp add: valid_microservice_pattern_def)
  next
    case False
    have "list_all (\<lambda>x. (case x of (i, t) \<Rightarrow> t \<noteq> []) \<and> \<not> ?W x) (enumerate 0 (tokens v)) \<longleftrightarrow>
        list_all (\<lambda>(index, token). token \<noteq> [] \<and> (CHR ''*'' \<notin> set token \<or> (\<not> command \<and> token = ''*'')) \<and>
            (CHR ''>'' \<notin> set token \<or> (\<not> command \<and> token = ''>'' \<and> index + 1 = length (tokens v))))
          (enumerate 0 (tokens v))"
      by (intro arg_cong2 [of _ _ _ _ list_all] ext refl) (simp split: prod.split; blast)
    with False show ?thesis unfolding valid_microservice_pattern_def Let_def by (simp, blast)
  qed
  finally show ?thesis .
qed

lemma parse_handler_parts:
  assumes "parse_handler m = Inr (Some code)"
  shows "\<exists>d ty. handler_pattern (im_attrs m) = Some (hc_kind code, hc_subject code) \<and>
    validate_subject (hc_subject code) (hc_kind code = Command) = Inr () \<and>
    message_arguments (tl (im_inputs m)) no_arguments = Inr d \<and> mg_payload d = Some (hc_payload code, ty) \<and>
    hc_arguments code = invocation_arguments d (hc_payload code) \<and>
    (hc_kind code = Event \<longrightarrow> is_unit (hc_response code))"
  using assms
  by (auto simp: parse_handler_def bind_result_Inr split: option.splits if_splits prod.splits)

text \<open>The parameters read so far, in order.\<close>

definition draft_bindings :: "message_draft \<Rightarrow> binding list" where
  "draft_bindings d =
     (case (mg_payload d, mg_context d) of
        (None, None) \<Rightarrow> []
      | (Some _, None) \<Rightarrow> [DecodedPayload]
      | (None, Some _) \<Rightarrow> [TheContext]
      | (Some _, Some _) \<Rightarrow>
          if mg_context_after_payload d then [DecodedPayload, TheContext] else [TheContext, DecodedPayload])"

definition draft_ok :: "message_draft \<Rightarrow> bool" where
  "draft_ok d \<longleftrightarrow> (mg_context_after_payload d \<longrightarrow> mg_payload d \<noteq> None)"

lemma message_argument_bindings:
  assumes "message_argument ta d = Inr d'" "draft_ok d"
  shows "draft_bindings d' = draft_bindings d @ [parameter_binding ta] \<and> draft_ok d'"
proof -
  obtain found invalid where fold: "fold marker_attribute (ta_attrs ta) (None, False) = (found, invalid)" by (metis surj_pair)
  from assms(1) fold obtain marker name where marker: "found = Some marker" "\<not> invalid" "ta_ident ta = Some name"
    by (auto simp: message_argument_def split: if_splits option.splits)
  show ?thesis
  proof (cases marker)
    case PayloadMarker
    with assms(1) fold marker have "mg_payload d = None" and d': "d' = d\<lparr>mg_payload := Some (name, ta_type ta)\<rparr>"
      by (cases "mg_payload d"; simp add: message_argument_def split: if_splits)+
    moreover from this assms(2) have "\<not> mg_context_after_payload d" by (simp add: draft_ok_def)
    ultimately show ?thesis using fold marker PayloadMarker
      by (simp add: draft_bindings_def draft_ok_def parameter_binding_def split: option.split)
  next
    case ContextMarker
    with assms(1) fold marker have "mg_context d = None"
      and d': "d' = d\<lparr>mg_context := Some name, mg_context_after_payload := (mg_payload d \<noteq> None)\<rparr>"
      by (simp_all add: message_argument_def split: if_splits)
    then show ?thesis using fold marker ContextMarker
      by (simp add: draft_bindings_def draft_ok_def parameter_binding_def split: option.split)
  qed
qed

lemma message_arguments_bindings:
  "message_arguments inputs d = Inr d' \<Longrightarrow> draft_ok d \<Longrightarrow>
   draft_bindings d' = draft_bindings d @ map parameter_binding (typed_arguments inputs)"
proof (induction inputs d rule: message_arguments.induct)
  case (3 ta inputs d)
  then obtain d1 where d1: "message_argument ta d = Inr d1" "message_arguments inputs d1 = Inr d'"
    by (auto simp: bind_result_Inr)
  note step = message_argument_bindings [OF d1(1) "3.prems"(2)]
  have "draft_bindings d' = draft_bindings d1 @ map parameter_binding (typed_arguments inputs)"
    using "3.IH" [OF d1(2)] step by blast
  with step show ?case by simp
qed simp_all

lemma parsed_parameters:
  assumes "parse_handler m = Inr (Some code)"
  shows "\<exists>d. hc_arguments code = invocation_arguments d (hc_payload code) \<and> mg_payload d \<noteq> None \<and>
    map parameter_binding (typed_arguments (tl (im_inputs m))) = draft_bindings d"
proof -
  from parse_handler_parts [OF assms] obtain d ty where
    d: "message_arguments (tl (im_inputs m)) no_arguments = Inr d" "mg_payload d = Some (hc_payload code, ty)"
      "hc_arguments code = invocation_arguments d (hc_payload code)" by blast
  have "draft_bindings d = draft_bindings no_arguments @ map parameter_binding (typed_arguments (tl (im_inputs m)))"
    by (rule message_arguments_bindings [OF d(1)]) (simp add: draft_ok_def no_arguments_def)
  then have "map parameter_binding (typed_arguments (tl (im_inputs m))) = draft_bindings d"
    by (simp add: draft_bindings_def no_arguments_def)
  with d show ?thesis by blast
qed

section \<open>Properties\<close>

text \<open>C11: A macro-generated service declares only patterns the module graph accepts, and its handlers reply exactly
  to commands: whenever the closure of a handler succeeds, it has a reply if the handler is a command and none
  if it is an event.\<close>

theorem generated_handlers_fit_the_runtime:
  assumes "h \<in> set (ms_handlers (microservice_definition provider (expand_microservice has_arguments is_trait methods)))"
  shows "valid_microservice_pattern (mh_pattern h) (mh_kind h = Command) \<and>
    (\<forall>reply. invoke (microservice_closures lib (expand_microservice has_arguments is_trait methods) c) h ctx raw = Inr reply \<longrightarrow>
       (reply \<noteq> None \<longleftrightarrow> mh_kind h = Command))"
proof -
  let ?code = "expand_microservice has_arguments is_trait methods"
  from assms obtain i code where code: "(i, code) \<in> set (enumerate 0 (mx_handlers ?code))"
    and h: "h = \<lparr>mh_kind = hc_kind code, mh_pattern = hc_subject code, mh_closure = i\<rparr>"
    by (auto simp: microservice_definition_def)
  then have i: "i < length (mx_handlers ?code)" "mx_handlers ?code ! i = code"
    by (auto simp: in_set_enumerate_eq)
  then have "code \<in> set (mx_handlers ?code)" by auto
  then obtain m where "parse_handler m = Inr (Some code)"
    by (auto simp: expand_microservice_def Let_def map_filter_def split: if_splits sum.splits)
  from parse_handler_parts [OF this] have "valid_microservice_pattern (hc_subject code) (hc_kind code = Command)"
    by (auto simp: validate_subject_iff)
  moreover have "reply \<noteq> None \<longleftrightarrow> hc_kind code = Command" if "handler_closure lib code c ctx raw = Inr reply" for reply
    using that by (cases "hc_kind code") (auto simp: handler_closure_def bind_result_Inr)
  ultimately show ?thesis using h i(2) by (simp add: invoke_def microservice_closures_def)
qed

text \<open>C12: The generated closure compiles unless the payload parameter captures a name the macro uses - \<open>container\<close>,
  \<open>service\<close>, or \<open>context\<close> in a handler that takes its context - and then it calls the method with the decoded
  payload and the context in the order of its parameters.\<close>

theorem handler_arguments_in_order:
  assumes "parse_handler m = Inr (Some code)"
  shows "(closure_compiles m code \<longleftrightarrow>
      hc_payload code \<noteq> ''container'' \<and> hc_payload code \<noteq> ''service'' \<and>
      \<not> (hc_payload code = ''context'' \<and> TheContext \<in> set (map parameter_binding (typed_arguments (tl (im_inputs m)))))) \<and>
    (closure_compiles m code \<longrightarrow>
      argument_values code p ctx =
        map (\<lambda>ta. if parameter_binding ta = DecodedPayload then PassPayload p else PassContext ctx)
          (typed_arguments (tl (im_inputs m))))"
proof -
  let ?typed = "typed_arguments (tl (im_inputs m))"
  from parsed_parameters [OF assms] obtain d where args: "hc_arguments code = invocation_arguments d (hc_payload code)"
    and payload: "mg_payload d \<noteq> None" and params: "map parameter_binding ?typed = draft_bindings d" by blast
  have some: "map (Some \<circ> parameter_binding) ?typed = map Some (draft_bindings d)"
    unfolding params [symmetric] by simp
  have pass: "map (\<lambda>ta. if parameter_binding ta = DecodedPayload then PassPayload p else PassContext ctx) ?typed =
      map (\<lambda>b. if b = DecodedPayload then PassPayload p else PassContext ctx) (draft_bindings d)"
    unfolding params [symmetric] by simp
  show ?thesis
    unfolding closure_compiles_def some pass params argument_values_def args using payload
    by (cases "mg_context d"; cases "mg_context_after_payload d")
      (auto simp: draft_bindings_def invocation_arguments_def closure_bindings_def call_bindings_def map_filter_def
        split: if_splits)
qed

section \<open>Witnesses\<close>

definition marker_of :: "str \<Rightarrow> attribute" where
  "marker_of name = \<lparr>at_path = [name], at_meta = AttrPath, at_types = None, at_literal = None, at_expr = None\<rparr>"

definition find_user :: "str \<Rightarrow> message_method" where
  "find_user payload_name =
     \<lparr>im_name = ''find'', im_async = True,
      im_inputs =
        [Receiver ByReference,
         Typed \<lparr>ta_ident = Some ''ctx'', ta_type = PathType [(''MessageContext'', None)], ta_attrs = [marker_of ''context'']\<rparr>,
         Typed \<lparr>ta_ident = Some payload_name, ta_type = PathType [(''FindUser'', None)], ta_attrs = [marker_of ''payload'']\<rparr>],
      im_output = Some (PathType [(''Result'', Some [GenericType (PathType [(''User'', None)])])]),
      im_attrs = [(marker_of ''message_pattern'')\<lparr>at_literal := Some ''users.find''\<rparr>], mm_generic = False\<rparr>"

definition find_user_code :: "str \<Rightarrow> handler_code" where
  "find_user_code payload_name =
     \<lparr>hc_kind = Command, hc_subject = ''users.find'', hc_payload = payload_name,
      hc_payload_type = PathType [(''FindUser'', None)], hc_response = PathType [(''User'', None)],
      hc_method = ''find'', hc_arguments = [''context'', payload_name]\<rparr>"

lemma find_user_parsed: "parse_handler (find_user name) = Inr (Some (find_user_code name))"
proof -
  have subject: "validate_subject ''users.find'' (Command = Command) = Inr ()"
    by (simp add: validate_subject_iff valid_microservice_pattern_def has_whitespace_def ws_encodings_def NUL_def
        sublist_Cons_right)
  have arguments: "message_arguments (tl (im_inputs (find_user name))) no_arguments =
      Inr \<lparr>mg_payload = Some (name, PathType [(''FindUser'', None)]), mg_context = Some ''ctx'', mg_context_after_payload = False\<rparr>"
    by (simp add: find_user_def message_argument_def marker_attribute_def marker_of_def attr_named_def is_message_context_def
        no_arguments_def)
  have pattern: "handler_pattern (im_attrs (find_user name)) = Some (Command, ''users.find'')"
    by (simp add: find_user_def handler_pattern_def pattern_attribute_def is_pattern_attribute_def marker_of_def attr_named_def)
  show ?thesis unfolding parse_handler_def pattern arguments
    using subject by (simp add: find_user_def find_user_code_def check_receiver_def result_type_def invocation_arguments_def)
qed

lemma handler_arguments_in_order_witness:
  "closure_compiles (find_user ''query'') (find_user_code ''query'') \<and>
   \<not> closure_compiles (find_user ''context'') (find_user_code ''context'')"
proof
  show "closure_compiles (find_user ''query'') (find_user_code ''query'')"
    using handler_arguments_in_order [OF find_user_parsed [of "''query''"], THEN conjunct1] by (simp add: find_user_code_def)
  show "\<not> closure_compiles (find_user ''context'') (find_user_code ''context'')"
    using handler_arguments_in_order [OF find_user_parsed [of "''context''"], THEN conjunct1]
    by (simp add: find_user_code_def find_user_def parameter_binding_def marker_attribute_def marker_of_def attr_named_def)
qed

definition echo_lib :: "(json, json) service_lib" where
  "echo_lib =
     \<lparr>sl_from_value = (\<lambda>_ v. Inr v), sl_to_value = (\<lambda>v. Inr v), sl_self = (logger_type, ''Service''),
      sl_call = (\<lambda>_ _ _. Inr JNull)\<rparr>"

definition users_provider :: provider_def where
  "users_provider = ProviderDef_instance 5 ''Users'' 0"

lemma generated_handlers_fit_the_runtime_witness:
  "valid_microservice_pattern ''users.find'' True \<and>
   ms_handlers (microservice_definition users_provider (expand_microservice False False [find_user ''query''])) =
     [\<lparr>mh_kind = Command, mh_pattern = ''users.find'', mh_closure = 0\<rparr>]"
proof
  show handlers: "ms_handlers (microservice_definition users_provider (expand_microservice False False [find_user ''query''])) =
     [\<lparr>mh_kind = Command, mh_pattern = ''users.find'', mh_closure = 0\<rparr>]"
    using find_user_parsed [of "''query''"]
    by (simp add: expand_microservice_def map_filter_def microservice_definition_def find_user_code_def)
  have "\<lparr>mh_kind = Command, mh_pattern = ''users.find'', mh_closure = 0\<rparr> \<in>
      set (ms_handlers (microservice_definition users_provider (expand_microservice False False [find_user ''query''])))"
    unfolding handlers by simp
  from generated_handlers_fit_the_runtime [OF this, of echo_lib, THEN conjunct1]
  show "valid_microservice_pattern ''users.find'' True" by simp
qed

end
