(* ===== verification/TestClients.thy ===== *)
theory TestClients
  imports Applications RoutePipeline
begin

text \<open>
  What the adapters make of a request before the generated handler sees it (\<open>request_payload.rs\<close> of both,
  \<open>AxumRequestInfo\<close>), and the in-process applications for tests (\<open>crates/caelix-actix/src/test_app.rs\<close>,
  \<open>crates/caelix-axum/src/test_app.rs\<close>): their configuration, construction, requests and responses. A header map
  lists names, in lower case, with values, which are absent when they are not text. A panic is \<open>None\<close>.
\<close>

section \<open>Extraction\<close>

type_synonym header_list = "(str \<times> str option) list"

text \<open>The first value of a header, if it is text.\<close>

definition header_text :: "header_list \<Rightarrow> str \<Rightarrow> str option" where
  "header_text hs name = Option.bind (map_of hs (to_ascii_lowercase name)) id"

text \<open>A request as the HTTP libraries hand it over, with the extensions the adapters look for: the settings for
  uploads and the address of the peer.\<close>

record incoming_request =
  ir_method :: str
  ir_path :: str
  ir_headers :: header_list
  ir_peer :: "str option"
  ir_runtime :: "(upload_config \<times> nat) option"
  ir_chunks :: "(str + str) list"

record raw_payload =
  rw_content_type :: "str option"
  rw_chunks :: "(str + str) list"
  rw_limit :: nat
  rw_config :: upload_config

definition upload_runtime :: "upload_config \<Rightarrow> (upload_config \<times> nat) option \<Rightarrow> upload_config \<times> nat" where
  "upload_runtime default_config runtime = (case runtime of Some u \<Rightarrow> u | None \<Rightarrow> (default_config, DEFAULT_BODY_LIMIT_BYTES))"

text \<open>The actix adapter takes the body out of the request, the axum adapter takes the request apart.\<close>

definition actix_raw_payload :: "upload_config \<Rightarrow> incoming_request \<Rightarrow> raw_payload \<times> incoming_request" where
  "actix_raw_payload default_config req =
     (let (config, limit) = upload_runtime default_config (ir_runtime req)
      in (\<lparr>rw_content_type = header_text (ir_headers req) ''content-type'', rw_chunks = ir_chunks req, rw_limit = limit,
           rw_config = config\<rparr>,
          req\<lparr>ir_chunks := []\<rparr>))"

definition axum_raw_payload :: "upload_config \<Rightarrow> incoming_request \<Rightarrow> raw_payload" where
  "axum_raw_payload default_config req =
     (let (config, limit) = upload_runtime default_config (ir_runtime req)
      in \<lparr>rw_content_type = header_text (ir_headers req) ''content-type'', rw_chunks = ir_chunks req, rw_limit = limit,
          rw_config = config\<rparr>)"

record axum_request_info =
  ai_method :: str
  ai_path :: str
  ai_headers :: header_list
  ai_peer :: "str option"

definition AxumRequestInfo_from :: "incoming_request \<Rightarrow> axum_request_info" where
  "AxumRequestInfo_from req =
     \<lparr>ai_method = ir_method req, ai_path = ir_path req, ai_headers = ir_headers req, ai_peer = ir_peer req\<rparr>"

record caelix_request = axum_request_info +
  cq_payload :: "raw_payload option"

definition CaelixRequest_from :: "upload_config \<Rightarrow> incoming_request \<Rightarrow> caelix_request" where
  "CaelixRequest_from default_config req =
     \<lparr>ai_method = ir_method req, ai_path = ir_path req, ai_headers = ir_headers req, ai_peer = ir_peer req,
      cq_payload = Some (axum_raw_payload default_config req)\<rparr>"

definition take_payload :: "caelix_request \<Rightarrow> (raw_payload \<times> caelix_request) option" where
  "take_payload req = map_option (\<lambda>p. (p, req\<lparr>cq_payload := None\<rparr>)) (cq_payload req)"

text \<open>What the model of the generated handler starts from.\<close>

definition request_of_parts :: "axum_request_info \<Rightarrow> raw_payload \<Rightarrow> http_request" where
  "request_of_parts info p =
     \<lparr>hq_method = ai_method info, hq_path = ai_path info, hq_headers = ai_headers info, hq_peer = ai_peer info,
      hq_content_type = rw_content_type p, hq_chunks = rw_chunks p, hq_config = rw_config p, hq_body_limit = rw_limit p\<rparr>"

section \<open>Applications for tests\<close>

record 'scheme test_builder =
  tb_overrides :: overrides
  tb_body_limit :: nat
  tb_upload :: upload_config
  tb_openapi :: "'scheme openapi_config option"

definition test_builder_new :: "upload_config \<Rightarrow> 'scheme test_builder" where
  "test_builder_new default_config =
     \<lparr>tb_overrides = [], tb_body_limit = DEFAULT_BODY_LIMIT_BYTES, tb_upload = default_config, tb_openapi = None\<rparr>"

definition override_provider :: "type_id \<Rightarrow> str \<Rightarrow> nat \<Rightarrow> 'scheme test_builder \<Rightarrow> 'scheme test_builder" where
  "override_provider ty name d b = b\<lparr>tb_overrides := overrides_insert_instance (tb_overrides b) ty name d\<rparr>"

definition override_provider_factory ::
    "type_id \<Rightarrow> str \<Rightarrow> provider_dependency list \<Rightarrow> (history \<Rightarrow> resolver \<Rightarrow> str + nat) \<Rightarrow> 'scheme test_builder \<Rightarrow>
     'scheme test_builder" where
  "override_provider_factory ty name deps factory b =
     b\<lparr>tb_overrides := overrides_insert_factory (tb_overrides b) ty name deps factory\<rparr>"

definition test_body_limit :: "nat \<Rightarrow> 'scheme test_builder \<Rightarrow> 'scheme test_builder" where
  "test_body_limit bytes b = b\<lparr>tb_body_limit := bytes\<rparr>"

definition test_upload_temp_dir :: "str \<Rightarrow> 'scheme test_builder \<Rightarrow> 'scheme test_builder" where
  "test_upload_temp_dir path b = b\<lparr>tb_upload := upload_temp_dir path (tb_upload b)\<rparr>"

definition test_with_openapi :: "'scheme openapi_config \<Rightarrow> 'scheme test_builder \<Rightarrow> 'scheme test_builder" where
  "test_with_openapi cfg b = b\<lparr>tb_openapi := Some cfg\<rparr>"

inductive builder_reachable :: "upload_config \<Rightarrow> 'scheme test_builder \<Rightarrow> bool" for default_config where
  new: "builder_reachable default_config (test_builder_new default_config)"
| fixed: "builder_reachable default_config b \<Longrightarrow> builder_reachable default_config (override_provider ty name d b)"
| factory: "builder_reachable default_config b \<Longrightarrow>
    builder_reachable default_config (override_provider_factory ty name deps f b)"
| limit: "builder_reachable default_config b \<Longrightarrow> builder_reachable default_config (test_body_limit n b)"
| temp_dir: "builder_reachable default_config b \<Longrightarrow> builder_reachable default_config (test_upload_temp_dir p b)"
| openapi: "builder_reachable default_config b \<Longrightarrow> builder_reachable default_config (test_with_openapi cfg b)"

record test_application =
  tx_container :: container
  tx_services :: "service list"

text \<open>The document, when one is asked for; a failure returns its error as it is.\<close>

definition test_openapi ::
    "('scheme openapi_config \<Rightarrow> 'doc result option) \<Rightarrow> ('doc \<Rightarrow> str option) \<Rightarrow> 'scheme test_builder \<Rightarrow>
     'scheme openapi_services option result option" where
  "test_openapi build to_json b =
     (case tb_openapi b of
        None \<Rightarrow> Some (Inr None)
      | Some cfg \<Rightarrow> map_option (\<lambda>r. bind_result r (\<lambda>os. Inr (Some os))) (openapi_services_for build to_json cfg))"

definition actix_compile ::
    "('scheme openapi_config \<Rightarrow> 'doc result option) \<Rightarrow> ('doc \<Rightarrow> str option) \<Rightarrow> (str \<Rightarrow> str) \<Rightarrow> ('m::finite) program \<Rightarrow> 'm \<Rightarrow>
     'scheme test_builder \<Rightarrow> (test_application result \<times> history) option" where
  "actix_compile build to_json to_string prog root b =
     (case build_container_with_overrides prog root (tb_overrides b) of
        None \<Rightarrow> None
      | Some (Inl e, h) \<Rightarrow> Some (Inl e, h)
      | Some (Inr c, h) \<Rightarrow>
          (case test_openapi build to_json b of
             None \<Rightarrow> None
           | Some (Inl e) \<Rightarrow> Some (Inl e, h)
           | Some (Inr openapi) \<Rightarrow>
               map_option (\<lambda>svcs. (Inr \<lparr>tx_container = c, tx_services = svcs\<rparr>, h))
                 (configure_caelix_services to_string prog root (tb_body_limit b) (tb_upload b) openapi)))"

definition axum_compile ::
    "('scheme openapi_config \<Rightarrow> 'doc result option) \<Rightarrow> ('doc \<Rightarrow> str option) \<Rightarrow> (str \<Rightarrow> str) \<Rightarrow> ('m::finite) program \<Rightarrow> 'm \<Rightarrow>
     'scheme test_builder \<Rightarrow> (test_application result \<times> history) option" where
  "axum_compile build to_json to_string prog root b =
     (case build_container_with_overrides prog root (tb_overrides b) of
        None \<Rightarrow> None
      | Some (Inl e, h) \<Rightarrow> Some (Inl e, h)
      | Some (Inr c, h) \<Rightarrow>
          Option.bind (register_module_controllers prog root) (\<lambda>controllers.
          Option.bind (gateway_services prog root DEFAULT_WEBSOCKET_MAX_MESSAGE_SIZE) (\<lambda>gateways.
            (case test_openapi build to_json b of
               None \<Rightarrow> None
             | Some (Inl e) \<Rightarrow> Some (Inl e, h)
             | Some (Inr openapi) \<Rightarrow>
                 Some (Inr \<lparr>tx_container = c,
                            tx_services = map Controller controllers @ gateways @
                              (case openapi of None \<Rightarrow> []
                               | Some os \<Rightarrow> mount_openapi to_string (os_config os) (os_document os)) @
                              [UploadData (tb_upload b) (tb_body_limit b), BodyLimit (tb_body_limit b), NotFoundFallback]\<rparr>,
                       h)))))"

definition test_resolve :: "test_application \<Rightarrow> resolver" where
  "test_resolve app = resolve (tx_container app)"

definition test_shutdown ::
    "('m::finite) program \<Rightarrow> 'm \<Rightarrow> test_application \<Rightarrow> history \<Rightarrow> (unit result \<times> container \<times> history) option" where
  "test_shutdown prog root app h = shutdown_module prog root (tx_container app) h"

section \<open>Requests and responses\<close>

text \<open>The request builder of the axum adapter; that of the actix adapter forwards to actix's own. \<open>parse_name\<close> and
  \<open>parse_value\<close> are the checks of header names, which also turn them to lower case, and values.\<close>

record test_request =
  tq_method :: str
  tq_uri :: str
  tq_headers :: header_list
  tq_peer :: str
  tq_body :: str

definition test_request_new :: "(str \<Rightarrow> bool) \<Rightarrow> str \<Rightarrow> str \<Rightarrow> test_request option" where
  "test_request_new valid_uri http_method path =
     (if valid_uri path
      then Some \<lparr>tq_method = http_method, tq_uri = path, tq_headers = [], tq_peer = ''127.0.0.1:12345'', tq_body = []\<rparr>
      else None)"

definition test_peer_addr :: "str \<Rightarrow> test_request \<Rightarrow> test_request" where
  "test_peer_addr peer req = req\<lparr>tq_peer := peer\<rparr>"

definition set_header :: "str \<Rightarrow> str \<Rightarrow> header_list \<Rightarrow> header_list" where
  "set_header name v hs = filter (\<lambda>(n, _). n \<noteq> name) hs @ [(name, Some v)]"

definition test_json :: "('b \<Rightarrow> str option) \<Rightarrow> 'b \<Rightarrow> test_request \<Rightarrow> test_request option" where
  "test_json to_vec body req =
     map_option (\<lambda>text. req\<lparr>tq_headers := set_header ''content-type'' ''application/json'' (tq_headers req), tq_body := text\<rparr>)
       (to_vec body)"

definition test_header ::
    "(str \<Rightarrow> str option) \<Rightarrow> (str \<Rightarrow> bool) \<Rightarrow> str \<Rightarrow> str \<Rightarrow> test_request \<Rightarrow> test_request option" where
  "test_header parse_name parse_value name v req =
     Option.bind (parse_name name) (\<lambda>n.
       if parse_value v then Some (req\<lparr>tq_headers := set_header n v (tq_headers req)\<rparr>) else None)"

definition test_append_header ::
    "(str \<Rightarrow> str option) \<Rightarrow> (str \<Rightarrow> bool) \<Rightarrow> str \<Rightarrow> str \<Rightarrow> test_request \<Rightarrow> test_request option" where
  "test_append_header parse_name parse_value name v req =
     Option.bind (parse_name name) (\<lambda>n.
       if parse_value v then Some (req\<lparr>tq_headers := tq_headers req @ [(n, Some v)]\<rparr>) else None)"

definition test_set_payload :: "str \<Rightarrow> test_request \<Rightarrow> test_request" where
  "test_set_payload body req = req\<lparr>tq_body := body\<rparr>"

definition test_incoming :: "(upload_config \<times> nat) option \<Rightarrow> (str \<Rightarrow> str) \<Rightarrow> test_request \<Rightarrow> incoming_request" where
  "test_incoming runtime path_of req =
     \<lparr>ir_method = tq_method req, ir_path = path_of (tq_uri req), ir_headers = tq_headers req, ir_peer = Some (tq_peer req),
      ir_runtime = runtime, ir_chunks = (if tq_body req = [] then [] else [Inr (tq_body req)])\<rparr>"

record test_response =
  ts_status :: nat
  ts_headers :: header_list
  ts_body :: str

definition test_call :: "('q \<Rightarrow> str + test_response) \<Rightarrow> 'q \<Rightarrow> test_response result" where
  "test_call serve req =
     map_err (\<lambda>error. InternalServerErrorException (OtherError (''test request failed: '' @ error))) (serve req)"

definition test_status :: "test_response \<Rightarrow> nat" where
  "test_status r = (if 100 \<le> ts_status r \<and> ts_status r < 1000 then ts_status r else 500)"

definition assert_status :: "nat \<Rightarrow> test_response \<Rightarrow> test_response option" where
  "assert_status status r = (if test_status r = status then Some r else None)"

definition test_response_header :: "test_response \<Rightarrow> str \<Rightarrow> str option" where
  "test_response_header r name = header_text (ts_headers r) name"

definition test_response_text :: "(str \<Rightarrow> str) \<Rightarrow> test_response \<Rightarrow> str result" where
  "test_response_text utf8_error r =
     (if valid_utf8 (ts_body r) then Inr (ts_body r)
      else Inl (InternalServerErrorException (OtherError (utf8_error (ts_body r)))))"

section \<open>Lemmas\<close>

lemma map_of_filter_other: "n \<noteq> name \<Longrightarrow> map_of (filter (\<lambda>(m, _). m \<noteq> name) hs) n = map_of hs n"
  by (induction hs) auto

lemma map_of_filter_same: "map_of (filter (\<lambda>(m, _). m \<noteq> name) hs) name = None"
  by (induction hs) auto

lemma header_text_set_header:
  assumes "to_ascii_lowercase n = n"
  shows "header_text (set_header n v hs) m = (if to_ascii_lowercase m = n then Some v else header_text hs m)"
  using assms
  by (auto simp: header_text_def set_header_def map_of_append map_add_def map_of_filter_other map_of_filter_same
      split: option.split)

lemma header_text_append:
  "header_text (hs @ [(n, Some v)]) m =
     (if to_ascii_lowercase m = n \<and> map_of hs n = None then Some v else header_text hs m)"
  by (auto simp: header_text_def map_of_append map_add_def split: option.split)

lemma keyed_update: "keyed ovs \<Longrightarrow> pd_type pd = ty \<Longrightarrow> keyed (AList.update ty pd ovs)"
  by (simp add: keyed_def update_conv')

lemma builder_keyed: "builder_reachable default_config b \<Longrightarrow> keyed (tb_overrides b)"
proof (induction rule: builder_reachable.induct)
  case (fixed b ty name d)
  then show ?case
    by (simp add: override_provider_def overrides_insert_instance_def keyed_update ProviderDef_instance_def)
next
  case (factory b ty name deps f)
  then show ?case
    by (simp add: override_provider_factory_def overrides_insert_factory_def keyed_update ProviderDef_async_factory_def)
qed (simp_all add: test_builder_new_def test_body_limit_def test_upload_temp_dir_def test_with_openapi_def)

section \<open>Theorems\<close>

text \<open>Both adapters take the same payload from a request, and it can be taken once.\<close>

lemma payloads_agree: "fst (actix_raw_payload config req) = axum_raw_payload config req"
  by (simp add: actix_raw_payload_def axum_raw_payload_def split: prod.split)

lemma payload_taken_once:
  "take_payload (CaelixRequest_from config req) = Some (axum_raw_payload config req, req') \<Longrightarrow> take_payload req' = None"
  by (auto simp: take_payload_def CaelixRequest_from_def)

text \<open>A test request with a JSON body arrives at the handler with its content type, body and the limit of the
  application, unless a later header replaces the type.\<close>

lemma json_request_arrives:
  assumes "test_json to_vec body req = Some req'" "to_vec body = Some text" "text \<noteq> []"
  shows "let arrived = test_incoming (Some (config, limit)) path_of req'; p = axum_raw_payload default_config arrived;
      handled = request_of_parts (AxumRequestInfo_from arrived) p
    in hq_content_type handled = Some ''application/json'' \<and> hq_chunks handled = [Inr text] \<and>
       hq_body_limit handled = limit \<and> hq_config handled = config \<and> hq_peer handled = Some (tq_peer req)"
proof -
  have lower: "to_ascii_lowercase ''content-type'' = ''content-type''"
    by (simp add: to_ascii_lowercase_def ascii_lower_def)
  from assms have "req' = req\<lparr>tq_headers := set_header ''content-type'' ''application/json'' (tq_headers req), tq_body := text\<rparr>"
    by (auto simp: test_json_def)
  with assms(3) show ?thesis
    by (simp add: Let_def test_incoming_def axum_raw_payload_def upload_runtime_def request_of_parts_def
        AxumRequestInfo_from_def header_text_set_header [OF lower] lower)
qed

text \<open>The axum test application registers what the application registers with the same settings, the default
  size of messages and no layers.\<close>

theorem axum_test_application_serves_production:
  assumes "axum_compile build to_json to_string prog root b = Some (Inr tx, h)"
  shows "\<exists>openapi. test_openapi build to_json b = Some (Inr openapi) \<and>
    into_router to_string prog root
      \<lparr>xa_container = tx_container tx, xa_body_limit = tb_body_limit b, xa_upload = tb_upload b,
       xa_websocket_max = DEFAULT_WEBSOCKET_MAX_MESSAGE_SIZE, xa_layers = [], xa_openapi = openapi\<rparr> = Some (tx_services tx)"
proof -
  from assms obtain c controllers gateways openapi where
    parts: "register_module_controllers prog root = Some controllers"
      "gateway_services prog root DEFAULT_WEBSOCKET_MAX_MESSAGE_SIZE = Some gateways"
      "test_openapi build to_json b = Some (Inr openapi)"
    and tx: "tx = \<lparr>tx_container = c, tx_services = map Controller controllers @ gateways @
        (case openapi of None \<Rightarrow> [] | Some os \<Rightarrow> mount_openapi to_string (os_config os) (os_document os)) @
        [UploadData (tb_upload b) (tb_body_limit b), BodyLimit (tb_body_limit b), NotFoundFallback]\<rparr>"
    by (auto simp: axum_compile_def split: option.splits sum.splits bind_splits)
  show ?thesis by (rule exI [of _ openapi]) (simp add: into_router_def parts tx)
qed

text \<open>The actix test application lacks the gateways the application registers after its other services.\<close>

theorem actix_test_application_lacks_gateways:
  assumes "actix_compile build to_json to_string prog root b = Some (Inr tx, h)" "builder_reachable default_config b"
  shows "\<exists>openapi gateways. test_openapi build to_json b = Some (Inr openapi) \<and>
    gateway_services prog root DEFAULT_WEBSOCKET_MAX_MESSAGE_SIZE = Some gateways \<and>
    actix_services to_string prog root
      \<lparr>aa_container = tx_container tx, aa_body_limit = tb_body_limit b, aa_upload = tb_upload b,
       aa_websocket_max = DEFAULT_WEBSOCKET_MAX_MESSAGE_SIZE, aa_workers = 1, aa_logging = None, aa_openapi = openapi\<rparr> =
      Some (tx_services tx @ gateways)"
proof -
  from assms(1) obtain c openapi svcs where
    built: "build_container_with_overrides prog root (tb_overrides b) = Some (Inr c, h)"
    and openapi: "test_openapi build to_json b = Some (Inr openapi)"
    and svcs: "configure_caelix_services to_string prog root (tb_body_limit b) (tb_upload b) openapi = Some svcs"
    and tx: "tx = \<lparr>tx_container = c, tx_services = svcs\<rparr>"
    by (auto simp: actix_compile_def split: option.splits sum.splits)
  from container_built [OF built builder_keyed [OF assms(2)]] obtain g where "discover_from prog root = Some (Inr g)" by blast
  then obtain gateways where "gateway_services prog root DEFAULT_WEBSOCKET_MAX_MESSAGE_SIZE = Some gateways"
    by (simp add: gateway_services_def configure_gateway_routes_def visit_module_gateways_def)
  with openapi svcs tx show ?thesis by (auto simp: actix_services_def)
qed

text \<open>Shutting a test application down calls the hooks of what its start initialized, in reverse.\<close>

theorem test_application_shuts_down:
  assumes "builder_reachable default_config b"
    and "actix_compile build to_json to_string prog root b = Some (Inr tx, h) \<or>
      axum_compile build to_json to_string prog root b = Some (Inr tx, h)"
  shows "\<exists>r c. test_shutdown prog root tx h =
    Some (r, c, h @ map Shutdown (rev (initialized_providers (tx_container tx))))"
proof -
  from assms(2) have built: "build_container_with_overrides prog root (tb_overrides b) = Some (Inr (tx_container tx), h)"
    by (auto simp: actix_compile_def axum_compile_def split: option.splits sum.splits bind_splits)
  from container_built [OF built builder_keyed [OF assms(1)]] obtain g where d: "discover_from prog root = Some (Inr g)"
    and live: "live g (tx_container tx) (initialized_providers (tx_container tx))" by blast
  from shutdown_built [OF d live, of h] show ?thesis by (auto simp: test_shutdown_def)
qed

text \<open>When the document cannot be built the error is returned after a complete start, and nothing is shut down:
  the calls are those of the start.\<close>

theorem failed_document_leaves_providers_running:
  assumes "build_container_with_overrides prog root (tb_overrides b) = Some (Inr c, h)"
    and "tb_openapi b = Some cfg" "build cfg = Some (Inl e)"
  shows "actix_compile build to_json to_string prog root b = Some (Inl e, h)"
  using assms by (simp add: actix_compile_def test_openapi_def openapi_services_for_def)

end
