(* ===== verification/Spec2Isabelle.thy ===== *)
theory Spec2Isabelle
  imports Throttling Caching Commands Deliveries NatsRuntime RedisTransport Events Connections WireFrames AxumConnections
    Uploads Requests Configuration WatchLoop AccessLog RouteLog Applications RouteDocs ProviderMacros MessageMacros
    TestClients
begin

text \<open>
  A verification library for Caelix, a web framework for Rust with modules and dependency injection in the
  style of NestJS. An application is a tree of modules; the core (\<open>crates/caelix-core\<close>) discovers the tree,
  validates it, constructs the providers in dependency order, runs their lifecycle hooks and shuts them down in
  reverse. Adapters serve it over HTTP and WebSockets (\<open>crates/caelix-actix\<close>, \<open>crates/caelix-axum\<close>) and over
  message brokers (\<open>crates/caelix-microservices\<close>); procedural macros (\<open>crates/caelix-macros\<close>) generate the
  glue of controllers; a command line (\<open>crates/caelix-cli\<close>) generates and runs projects.

  \<^bold>\<open>Conventions.\<close> A definition has the name of the function it translates where Isabelle allows it, and a record
  has the fields of the struct with a prefix. A \<open>String\<close> is the list of its UTF-8 bytes (\<open>str\<close>); \<open>Result\<close> is
  \<open>'e + 'a\<close> with the error on the left, and \<open>'a result\<close> has the framework's exception there; a panic is \<open>None\<close>
  of an outer option; \<open>u64\<close> and \<open>usize\<close> are natural numbers with saturation, wrapping and overflow checks
  written out, and words where the code computes bitwise. A hash map is a function to option, or an association
  list in its iteration order where that order can be seen. State is passed explicitly; tasks that run
  concurrently are step relations or functions over sequences of steps. Instants and durations are
  nanoseconds. What is not in the repository - HTTP libraries, brokers, serializers, parsers, clocks, the code
  of the application - is an argument of the definitions, constrained only by the hypotheses a theorem states.

  \<^bold>\<open>Vocabulary.\<close> \<open>Prelude\<close>: strings, bounds, fallible loops and the lemma collections. \<open>Utf8\<close>: validity of
  byte sequences. \<open>Effects\<close>: operations on a state that may fail, with the locale \<open>frame\<close> for relations every
  operation keeps; it is interpreted for the file tree (\<open>FileSystem\<close>) and the payload slots (\<open>RoutePayload\<close>).
  \<open>Exceptions\<close>: \<open>exception.rs\<close>, the exception types and the flattening of validation errors.

  \<^bold>\<open>Modules and lifecycle\<close> (\<open>core/src/module.rs\<close>, \<open>container.rs\<close>). \<open>Containers\<close>: the container, scoped
  resolution, overrides. \<open>ModuleGraph\<close>, \<open>Discovery\<close>: metadata and the discovery of the graph; what is
  discovered is exactly what is reachable, imports first. \<open>Preflight\<close>, \<open>PreflightLaws\<close>: validation and the
  construction order; every dependency is available, every subject has one handler. \<open>Lifecycle\<close>,
  \<open>LifecycleLaws\<close>, \<open>Startup\<close>: construction, hooks, rollback, shutdown; the calls a start makes, dependencies
  first, and which of them a failed one undoes (exactly the initializations that were completed), and that after
  a preflight the framework itself never makes it fail. \<open>Events\<close>: the event bus (\<open>events.rs\<close>).

  \<^bold>\<open>HTTP.\<close> \<open>RouteMacro\<close>: the controller macro (\<open>macros/src/controller.rs\<close>) from attributes to routes, with the
  round trip of throttle markers and the exact reading of upload sizes. \<open>RoutePayload\<close>: the slots of body and
  file arguments and what happens to temporary files. \<open>RoutePipeline\<close>: the generated handler - path and query
  arguments, which the HTTP library extracts first and for which it may answer a request itself, context,
  throttling, guards, payload, interceptors, errors - with the theorems on its order, on panics and on the
  nesting of interceptors. \<open>RouteDocs\<close>: the OpenAPI operation of a route, compared in a built application with
  the throttling of its handler. \<open>Requests\<close>: the request context
  (\<open>context.rs\<close>) and buffered bodies (\<open>request_payload.rs\<close> of both adapters). \<open>Uploads\<close>: \<open>upload.rs\<close>.
  \<open>Responses\<close>, \<open>ResponseAdapters\<close>: responses and cookies, and that both adapters send the same. \<open>Throttle\<close>,
  \<open>ThrottleStore\<close>, \<open>Throttling\<close>: \<open>throttle.rs\<close> with the locale \<open>fixed_window_store\<close>, interpreted by the
  in-memory store. \<open>Caching\<close>: \<open>cache.rs\<close> with the locale \<open>cache_contract\<close>, interpreted by the in-memory cache.
  \<open>OpenApi\<close>: assembly and validation of the document. \<open>Applications\<close>: builders and \<open>listen\<close> of both adapters.
  \<open>TestClients\<close>: extraction of payloads from requests and the in-process applications (\<open>test_app.rs\<close>).

  \<^bold>\<open>WebSockets.\<close> \<open>WebSockets\<close>: close codes, frames and sessions. \<open>Connections\<close>: handshake, fragments and the
  connection task of the actix adapter; what it delivers is compared with a grammar of the frames received. \<open>WireFrames\<close>: its streams. \<open>AxumConnections\<close>: the axum adapter.

  \<^bold>\<open>Messages\<close> (\<open>crates/caelix-microservices\<close>, \<open>core/src/microservice.rs\<close>). \<open>Patterns\<close>: subjects and patterns.
  \<open>Messages\<close>: envelopes and headers. \<open>Commands\<close>, \<open>Deliveries\<close>, \<open>Consumers\<close>, \<open>NatsRuntime\<close>: commands, durable
  events, the supervised consumers and the runtime over NATS. \<open>RedisTransport\<close>: the same over Redis Streams,
  whose batching loops refine the consumer of \<open>Consumers\<close>. \<open>MessageMacros\<close>:
  the macros for message handlers and gateways (\<open>macros/src/microservice.rs\<close>, \<open>gateway.rs\<close>, the errors of
  \<open>crates/caelix-socketio\<close>); which declarations they accept, that generated services fit the module graph and the
  runtime, and in which order a handler gets its arguments, unless a parameter captures a name of the closure.

  \<^bold>\<open>Configuration, logging, command line.\<close> \<open>Configuration\<close>: \<open>config.rs\<close>. \<open>ProviderMacros\<close>: the
  macros for injectables and configurations (\<open>macros/src/injectable.rs\<close>, \<open>config.rs\<close>); the generated \<open>create\<close>
  resolves only what is declared, and every field of a configuration gets its own value. \<open>Calendar\<close>, \<open>Logging\<close>, \<open>AccessLog\<close>,
  \<open>RouteLog\<close>: \<open>logging.rs\<close>, with the queue of the access log as a step relation. \<open>CommandLine\<close>, \<open>FileSystem\<close>,
  \<open>Templates\<close>, \<open>Generators\<close>, \<open>GeneratorLaws\<close>, \<open>ManifestUpdate\<close>, \<open>WatchLoop\<close>: \<open>crates/caelix-cli/src/lib.rs\<close>
  over a file tree whose operations may fail.

  \<^bold>\<open>Bounds and fuel.\<close> Recursion is structural or has a measure except in few places: trimming takes the length
  of the string as fuel, since each step removes a byte; decoding of frames takes one more than the length of
  the buffer, since a frame consumes at least one byte. Bounds of the code are kept: 65536 entries of the access
  log, 8 KiB of a file for content detection, 123 bytes of a close reason, 125 of a control frame, capacities of
  the stores as configured, \<open>u64::MAX\<close> where sums saturate.

  \<^bold>\<open>Not modelled.\<close> The entry points of the macros and the wrappers of \<open>main\<close> and tests; the registration of
  routes with the HTTP libraries and their native middleware; the Socket.IO
  server and the facade crate, which wraps or re-exports; wakers, locks that cannot be poisoned, the memory of the
  process; and the contents of third-party formats. Time passes only between the operations that read the clock.
\<close>

end
